(* ===== verification/Prelude.thy ===== *)
theory Prelude
  imports Main "HOL-Library.AList" "HOL-Library.Char_ord" "HOL-Library.List_Lexorder"
begin

section \<open>Prelude: errors, guards, dictionaries, sums, runs\<close>

text \<open>
  What every component shares. Python exceptions are values of \<open>py_error\<close>; a function that may
  raise returns \<open>py_error + 'a\<close>. The source's \<open>require(condition, code)\<close> is the continuation
  form \<open>require condition code rest\<close>; \<open>bnd\<close> sequences two fallible steps. Python's dict is an
  association list: \<open>map_of\<close> reads it, \<open>AList.update\<close> overwrites in place or appends at the end,
  which is the insertion order a dict keeps. The locale \<open>guarded_machine\<close> is the contract every
  stateful component promises: its invariant survives each accepted operation, and a rejected
  operation leaves the state as it was.
\<close>

subsection \<open>Errors and guards\<close>

datatype py_error = Raised string | KeyError | TypeError | IndexError | ValueError | OverflowError

named_theorems guard_simps \<open>unfolding of guard chains\<close>

definition require :: "bool \<Rightarrow> 'e \<Rightarrow> 'e + 'a \<Rightarrow> 'e + 'a" where
  "require b e k = (if b then k else Inl e)"

definition bnd :: "'e + 'a \<Rightarrow> ('a \<Rightarrow> 'e + 'b) \<Rightarrow> 'e + 'b" where
  "bnd r f = (case r of Inl e \<Rightarrow> Inl e | Inr x \<Rightarrow> f x)"

definition opt_or :: "'e \<Rightarrow> 'a option \<Rightarrow> 'e + 'a" where
  "opt_or e o' = (case o' of None \<Rightarrow> Inl e | Some x \<Rightarrow> Inr x)"

lemma require_simps [simp]:
  "require True e k = k" "require False e k = Inl e"
  by (simp_all add: require_def)

lemma require_Inr [guard_simps]: "require b e k = Inr x \<longleftrightarrow> b \<and> k = Inr x"
  by (simp add: require_def)

lemma require_Inl [guard_simps]: "require b e k = Inl e' \<longleftrightarrow> (\<not> b \<and> e' = e) \<or> (b \<and> k = Inl e')"
  by (auto simp: require_def)

lemma bnd_simps [simp]: "bnd (Inl e) f = Inl e" "bnd (Inr x) f = f x"
  by (simp_all add: bnd_def)

lemma bnd_Inr [guard_simps]: "bnd r f = Inr y \<longleftrightarrow> (\<exists>x. r = Inr x \<and> f x = Inr y)"
  by (cases r) auto

lemma bnd_Inl [guard_simps]:
  "bnd r f = Inl e \<longleftrightarrow> r = Inl e \<or> (\<exists>x. r = Inr x \<and> f x = Inl e)"
  by (cases r) auto

lemma bnd_assoc: "bnd (bnd r f) g = bnd r (\<lambda>x. bnd (f x) g)"
  by (cases r) auto

lemma require_cong [cong]:
  "b = b' \<Longrightarrow> e = e' \<Longrightarrow> (b' \<Longrightarrow> k = k') \<Longrightarrow> require b e k = require b' e' k'"
  by (simp add: require_def)

lemma opt_or_simps [simp]: "opt_or e None = Inl e" "opt_or e (Some x) = Inr x"
  by (simp_all add: opt_or_def)

lemma opt_or_Inr [guard_simps]: "opt_or e m = Inr x \<longleftrightarrow> m = Some x"
  by (cases m) auto

lemma opt_or_Inl [guard_simps]: "opt_or e m = Inl e' \<longleftrightarrow> m = None \<and> e' = e"
  by (cases m) auto

text \<open>A check over every element of a list, in order, stopping at the first failure.\<close>

primrec check_all :: "('a \<Rightarrow> 'e + unit) \<Rightarrow> 'a list \<Rightarrow> 'e + unit" where
  "check_all f [] = Inr ()"
| "check_all f (x # xs) = bnd (f x) (\<lambda>_. check_all f xs)"

lemma check_all_Inr [guard_simps]: "check_all f xs = Inr u \<longleftrightarrow> (\<forall>x \<in> set xs. f x = Inr ())"
  by (induction xs) (auto simp: guard_simps)

subsection \<open>Dictionaries\<close>

type_synonym ('k, 'v) dict = "('k \<times> 'v) list"

abbreviation dict_put :: "'k \<Rightarrow> 'v \<Rightarrow> ('k, 'v) dict \<Rightarrow> ('k, 'v) dict" where
  "dict_put \<equiv> AList.update"

abbreviation dict_del :: "'k \<Rightarrow> ('k, 'v) dict \<Rightarrow> ('k, 'v) dict" where
  "dict_del \<equiv> AList.delete"

definition dict_ok :: "('k, 'v) dict \<Rightarrow> bool" where
  "dict_ok d \<longleftrightarrow> distinct (map fst d)"

definition dict_vals :: "('k, 'v) dict \<Rightarrow> 'v list" where
  "dict_vals d = map snd d"

lemma dict_ok_Nil [simp]: "dict_ok []"
  by (simp add: dict_ok_def)

lemma dict_ok_Cons [simp]: "dict_ok ((k, v) # d) \<longleftrightarrow> k \<notin> fst ` set d \<and> dict_ok d"
  by (simp add: dict_ok_def)

lemma dict_ok_put [simp, intro]: "dict_ok d \<Longrightarrow> dict_ok (dict_put k v d)"
  by (simp add: dict_ok_def distinct_update)

lemma dict_ok_del [simp, intro]: "dict_ok d \<Longrightarrow> dict_ok (dict_del k d)"
  by (simp add: dict_ok_def distinct_delete)

lemma dict_ok_filter [simp, intro]: "dict_ok d \<Longrightarrow> dict_ok (filter P d)"
  by (simp add: dict_ok_def distinct_map_filter)

lemma map_of_put [simp]: "map_of (dict_put k v d) x = (if x = k then Some v else map_of d x)"
  by (simp add: update_conv')

lemma map_of_del [simp]: "map_of (dict_del k d) x = (if x = k then None else map_of d x)"
  by (simp add: delete_conv')

lemma put_fresh: "map_of d k = None \<Longrightarrow> dict_put k v d = d @ [(k, v)]"
  by (induction d) (auto split: if_splits)

lemma length_put:
  "length (dict_put k v d) = (if map_of d k = None then Suc (length d) else length d)"
  by (induction d) auto

lemma dict_ok_map_of: "dict_ok d \<Longrightarrow> (k, v) \<in> set d \<Longrightarrow> map_of d k = Some v"
  by (simp add: dict_ok_def)

lemma dict_vals_map_of: "map_of d k = Some v \<Longrightarrow> v \<in> set (dict_vals d)"
  by (force simp: dict_vals_def dest: map_of_SomeD)

lemma dict_vals_ex: "dict_ok d \<Longrightarrow> v \<in> set (dict_vals d) \<Longrightarrow> \<exists>k. map_of d k = Some v"
  by (auto simp: dict_vals_def dict_ok_def)

subsection \<open>Sums over the values of a dictionary\<close>

definition dsum :: "('v \<Rightarrow> int) \<Rightarrow> ('k, 'v) dict \<Rightarrow> int" where
  "dsum f d = sum_list (map (\<lambda>kv. f (snd kv)) d)"

lemma dsum_simps [simp]: "dsum f [] = 0" "dsum f ((k, v) # d) = f v + dsum f d"
  by (simp_all add: dsum_def)

lemma dsum_append [simp]: "dsum f (a @ b) = dsum f a + dsum f b"
  by (simp add: dsum_def)

lemma dsum_put_new: "map_of d k = None \<Longrightarrow> dsum f (dict_put k v d) = dsum f d + f v"
  by (simp add: put_fresh)

lemma dsum_put_old:
  "map_of d k = Some v \<Longrightarrow> dsum f (dict_put k v' d) = dsum f d - f v + f v'"
  by (induction d) (auto split: if_splits)

lemma dsum_put:
  "dsum f (dict_put k v d) = dsum f d + f v - (case map_of d k of None \<Rightarrow> 0 | Some w \<Rightarrow> f w)"
  by (auto simp: dsum_put_new dsum_put_old split: option.split)

lemma dsum_cong: "(\<And>v. v \<in> set (dict_vals d) \<Longrightarrow> f v = g v) \<Longrightarrow> dsum f d = dsum g d"
  by (induction d) (auto simp: dict_vals_def)

lemma dsum_nonneg: "(\<And>v. v \<in> set (dict_vals d) \<Longrightarrow> 0 \<le> f v) \<Longrightarrow> 0 \<le> dsum f d"
  by (induction d) (auto simp: dict_vals_def add_nonneg_nonneg)

lemma dsum_ge:
  assumes "\<And>v. v \<in> set (dict_vals d) \<Longrightarrow> 0 \<le> f v" and "map_of d k = Some w"
  shows "f w \<le> dsum f d"
  using assms
proof (induction d)
  case (Cons kv d)
  obtain k' v' where kv: "kv = (k', v')" by (cases kv)
  have "0 \<le> dsum f d" using Cons.prems(1) by (intro dsum_nonneg) (auto simp: dict_vals_def)
  moreover have "0 \<le> f v'" using Cons.prems(1) by (simp add: kv dict_vals_def)
  moreover have "k' \<noteq> k \<Longrightarrow> f w \<le> dsum f d"
    using Cons by (auto simp: kv dict_vals_def)
  ultimately show ?case using Cons.prems(2) by (auto simp: kv split: if_splits)
qed simp

lemma dsum_add: "dsum (\<lambda>v. f v + g v) d = dsum f d + dsum g d"
  by (induction d) auto

subsection \<open>Python string helpers\<close>

text \<open>
  Python strings are modelled on the code points 0 to 255, one \<open>char\<close> each; \<open>utf8\<close> is their
  UTF-8 encoding, so byte limits count two bytes for a code point above 127.
\<close>

definition utf8_char :: "char \<Rightarrow> string" where
  "utf8_char c = (let n = of_char c :: nat in
     if n < 128 then [c] else [char_of (192 + n div 64 :: nat), char_of (128 + n mod 64 :: nat)])"

definition utf8 :: "string \<Rightarrow> string" where
  "utf8 s = concat (map utf8_char s)"

definition py_isspace :: "char \<Rightarrow> bool" where
  "py_isspace c = (let n = of_char c :: nat in
     (9 \<le> n \<and> n \<le> 13) \<or> (28 \<le> n \<and> n \<le> 32) \<or> n = 133 \<or> n = 160)"

definition is_lower_hex :: "char \<Rightarrow> bool" where
  "is_lower_hex c \<longleftrightarrow> c \<in> set ''0123456789abcdef''"

definition is_alnum_ascii :: "char \<Rightarrow> bool" where
  "is_alnum_ascii c =
     (let n = of_char c :: nat in
      (48 \<le> n \<and> n \<le> 57) \<or> (65 \<le> n \<and> n \<le> 90) \<or> (97 \<le> n \<and> n \<le> 122))"

fun digit_char :: "nat \<Rightarrow> char" where
  "digit_char n = char_of (48 + n)"

fun show_nat :: "nat \<Rightarrow> string" where
  "show_nat n = (if n < 10 then [digit_char n] else show_nat (n div 10) @ [digit_char (n mod 10)])"

declare show_nat.simps [simp del]

definition show_int :: "int \<Rightarrow> string" where
  "show_int i = (if i < 0 then CHR ''-'' # show_nat (nat (- i)) else show_nat (nat i))"

fun join_with :: "string \<Rightarrow> string list \<Rightarrow> string" where
  "join_with sep [] = []"
| "join_with sep [x] = x"
| "join_with sep (x # y # xs) = x @ sep @ join_with sep (y # xs)"

subsection \<open>Guarded machines\<close>

text \<open>
  A component is a partial step: \<open>Inl\<close> rejects and changes nothing, \<open>Inr\<close> carries the next
  state. The contract is that the invariant survives an accepted step; then it holds after any
  sequence of attempts, accepted or not, and in every reachable state.
\<close>

locale guarded_machine =
  fixes step :: "'s \<Rightarrow> 'c \<Rightarrow> 'e + 's"
    and inv :: "'s \<Rightarrow> bool"
  assumes step_inv: "inv s \<Longrightarrow> step s c = Inr s' \<Longrightarrow> inv s'"
begin

definition attempt :: "'s \<Rightarrow> 'c \<Rightarrow> 's" where
  "attempt s c = (case step s c of Inl _ \<Rightarrow> s | Inr s' \<Rightarrow> s')"

primrec run :: "'s \<Rightarrow> 'c list \<Rightarrow> 's" where
  "run s [] = s"
| "run s (c # cs) = run (attempt s c) cs"

inductive reaches :: "'s \<Rightarrow> 's \<Rightarrow> bool" for s\<^sub>0 where
  reaches_start: "reaches s\<^sub>0 s\<^sub>0"
| reaches_step: "reaches s\<^sub>0 s \<Longrightarrow> step s c = Inr s' \<Longrightarrow> reaches s\<^sub>0 s'"

lemma attempt_inv: "inv s \<Longrightarrow> inv (attempt s c)"
  by (auto simp: attempt_def intro: step_inv split: sum.split)

lemma run_inv: "inv s \<Longrightarrow> inv (run s cs)"
  by (induction cs arbitrary: s) (auto intro: attempt_inv)

lemma reaches_inv: "reaches s\<^sub>0 s \<Longrightarrow> inv s\<^sub>0 \<Longrightarrow> inv s"
  by (induction rule: reaches.induct) (auto intro: step_inv)

lemma reaches_trans: "reaches a b \<Longrightarrow> reaches b c \<Longrightarrow> reaches a c"
  by (rotate_tac, induction rule: reaches.induct) (auto intro: reaches_step)

lemma reaches_attempt: "reaches s (attempt s c)"
  by (auto simp: attempt_def intro: reaches_start reaches_step split: sum.split)

lemma reaches_run: "reaches s (run s cs)"
proof (induction cs arbitrary: s)
  case (Cons c cs)
  have "reaches s (attempt s c)" by (rule reaches_attempt)
  then show ?case using Cons.IH [of "attempt s c"] by (auto intro: reaches_trans)
qed (simp add: reaches_start)

end

end
