(* ===== verification/Json.thy ===== *)
theory Json
  imports Prelude
begin

section \<open>JSON values and their canonical bytes\<close>

text \<open>
  The wire objects of the program are JSON. \<open>canonical_json\<close> is \<open>canonical_json\<close> of
  \<open>src/rynmesh/crypto.py\<close>: \<open>json.JSONEncoder(sort_keys=True, separators=(",", ":"),
  ensure_ascii=False)\<close> followed by UTF-8, with the encoder's escape table written out. Numbers
  are integers; no rule modelled here accepts a float. An object is an association list;
  \<open>json.loads\<close> builds one with distinct keys, and a reader takes the first value of a key.

  The main result is \<open>canonical_json_inj\<close>: two values with the same canonical bytes are the same
  value up to the order of object keys. Every signature and every commitment of the program rests
  on it. The proof shows that the encoder is prefix-free when what follows does not continue a
  number.
\<close>

datatype json = JNull | JBool bool | JInt int | JStr string | JArr "json list"
  | JObj "(string \<times> json) list"

subsection \<open>Access\<close>

definition jget :: "string \<Rightarrow> json \<Rightarrow> json option" where
  "jget k j = (case j of JObj kvs \<Rightarrow> map_of kvs k | _ \<Rightarrow> None)"

text \<open>\<open>value[k]\<close>: KeyError for a missing key, TypeError for a value that is not a dict.\<close>

definition jitem :: "string \<Rightarrow> json \<Rightarrow> py_error + json" where
  "jitem k j = (case j of JObj kvs \<Rightarrow> opt_or KeyError (map_of kvs k) | _ \<Rightarrow> Inl TypeError)"

definition is_obj :: "json \<Rightarrow> bool" where
  "is_obj j = (case j of JObj _ \<Rightarrow> True | _ \<Rightarrow> False)"

definition is_list :: "json \<Rightarrow> bool" where
  "is_list j = (case j of JArr _ \<Rightarrow> True | _ \<Rightarrow> False)"

definition jkeys :: "json \<Rightarrow> string list" where
  "jkeys j = (case j of JObj kvs \<Rightarrow> map fst kvs | _ \<Rightarrow> [])"

definition jlist :: "json \<Rightarrow> json list" where
  "jlist j = (case j of JArr xs \<Rightarrow> xs | _ \<Rightarrow> [])"

definition jstr :: "string \<Rightarrow> json \<Rightarrow> string" where
  "jstr k j = (case jget k j of Some (JStr s) \<Rightarrow> s | _ \<Rightarrow> [])"

definition jint :: "string \<Rightarrow> json \<Rightarrow> int" where
  "jint k j = (case jget k j of Some (JInt i) \<Rightarrow> i | _ \<Rightarrow> 0)"

definition jfield :: "string \<Rightarrow> json \<Rightarrow> json" where
  "jfield k j = (case jget k j of Some v \<Rightarrow> v | None \<Rightarrow> JNull)"

definition jvals :: "json \<Rightarrow> json list" where
  "jvals j = (case j of JObj kvs \<Rightarrow> map snd kvs | _ \<Rightarrow> [])"

definition drop_key :: "string \<Rightarrow> json \<Rightarrow> json" where
  "drop_key k j = (case j of JObj kvs \<Rightarrow> JObj (filter (\<lambda>kv. fst kv \<noteq> k) kvs) | _ \<Rightarrow> j)"

lemma jfield_jint: "jfield k j = JInt i \<Longrightarrow> jint k j = i"
  by (auto simp: jfield_def jint_def split: option.splits json.splits)

text \<open>\<open>set(value) == {...}\<close> for a dict value.\<close>

definition keys_are :: "json \<Rightarrow> string list \<Rightarrow> bool" where
  "keys_are j ks \<longleftrightarrow> set (jkeys j) = set ks"

text \<open>A value used as a dict key or set member: a list or a dict is unhashable (TypeError).\<close>

definition hashable :: "json \<Rightarrow> bool" where
  "hashable j = (case j of JArr _ \<Rightarrow> False | JObj _ \<Rightarrow> False | _ \<Rightarrow> True)"

definition dict_get :: "(string, 'v) dict \<Rightarrow> json \<Rightarrow> py_error + 'v option" where
  "dict_get d j = (case j of JStr s \<Rightarrow> Inr (map_of d s) | JArr _ \<Rightarrow> Inl TypeError
     | JObj _ \<Rightarrow> Inl TypeError | _ \<Rightarrow> Inr None)"

definition in_strings :: "json \<Rightarrow> string list \<Rightarrow> py_error + bool" where
  "in_strings j xs = (case j of JStr s \<Rightarrow> Inr (s \<in> set xs) | JArr _ \<Rightarrow> Inl TypeError
     | JObj _ \<Rightarrow> Inl TypeError | _ \<Rightarrow> Inr False)"

lemma dict_get_Inr [guard_simps]:
  "dict_get d j = Inr (Some v) \<longleftrightarrow> (\<exists>s. j = JStr s \<and> map_of d s = Some v)"
  by (cases j) (auto simp: dict_get_def)

lemma in_strings_Inr_True [guard_simps]:
  "in_strings j xs = Inr True \<longleftrightarrow> (\<exists>s. j = JStr s \<and> s \<in> set xs)"
  by (cases j) (auto simp: in_strings_def)

lemma jitem_Inr [guard_simps]: "jitem k j = Inr v \<longleftrightarrow> jget k j = Some v"
  by (cases j) (auto simp: jitem_def jget_def guard_simps)

subsection \<open>Encoding\<close>

definition hex_digit :: "nat \<Rightarrow> char" where
  "hex_digit n = (if n < 10 then char_of (48 + n) else char_of (87 + n))"

definition esc_char :: "char \<Rightarrow> string" where
  "esc_char c = (let n = of_char c :: nat in
     if n = 34 then [CHR 0x5C, CHR 0x22]
     else if n = 92 then [CHR 0x5C, CHR 0x5C]
     else if n = 10 then [CHR 0x5C, CHR ''n'']
     else if n = 13 then [CHR 0x5C, CHR ''r'']
     else if n = 9 then [CHR 0x5C, CHR ''t'']
     else if n = 12 then [CHR 0x5C, CHR ''f'']
     else if n = 8 then [CHR 0x5C, CHR ''b'']
     else if n < 32 then [CHR 0x5C, CHR ''u'', CHR ''0'', CHR ''0'', hex_digit (n div 16), hex_digit (n mod 16)]
     else [c])"

definition qstr :: "string \<Rightarrow> string" where
  "qstr s = CHR 0x22 # concat (map esc_char s) @ [CHR 0x22]"

fun enc :: "json \<Rightarrow> string" and enc_items :: "json list \<Rightarrow> string"
  and enc_fields :: "(string \<times> json) list \<Rightarrow> string" where
  "enc JNull = ''null''"
| "enc (JBool b) = (if b then ''true'' else ''false'')"
| "enc (JInt i) = show_int i"
| "enc (JStr s) = qstr s"
| "enc (JArr xs) = CHR ''['' # enc_items xs"
| "enc (JObj kvs) = CHR ''{'' # enc_fields kvs"
| "enc_items [] = '']''"
| "enc_items [x] = enc x @ '']''"
| "enc_items (x # y # xs) = enc x @ '','' @ enc_items (y # xs)"
| "enc_fields [] = ''}''"
| "enc_fields [(k, v)] = qstr k @ '':'' @ enc v @ ''}''"
| "enc_fields ((k, v) # kv # kvs) = qstr k @ '':'' @ enc v @ '','' @ enc_fields (kv # kvs)"

primrec canon :: "json \<Rightarrow> json" where
  "canon JNull = JNull"
| "canon (JBool b) = JBool b"
| "canon (JInt i) = JInt i"
| "canon (JStr s) = JStr s"
| "canon (JArr xs) = JArr (map canon xs)"
| "canon (JObj kvs) = JObj (sort_key fst (map (map_prod id canon) kvs))"

definition canonical_json :: "json \<Rightarrow> string" where
  "canonical_json j = utf8 (enc (canon j))"

text \<open>
  Python's \<open>==\<close> on decoded JSON: dicts compare as maps, and \<open>True == 1\<close>. Booleans become integers
  and keys are sorted before comparing.
\<close>

primrec num_norm :: "json \<Rightarrow> json" where
  "num_norm JNull = JNull"
| "num_norm (JBool b) = JInt (if b then 1 else 0)"
| "num_norm (JInt i) = JInt i"
| "num_norm (JStr s) = JStr s"
| "num_norm (JArr xs) = JArr (map num_norm xs)"
| "num_norm (JObj kvs) = JObj (map (map_prod id num_norm) kvs)"

definition py_eq :: "json \<Rightarrow> json \<Rightarrow> bool" where
  "py_eq a b \<longleftrightarrow> canon (num_norm a) = canon (num_norm b)"

subsection \<open>Decimal integers are self-delimiting\<close>

definition is_digit :: "char \<Rightarrow> bool" where
  "is_digit c = (let n = of_char c :: nat in 48 \<le> n \<and> n \<le> 57)"

definition digits_val :: "string \<Rightarrow> nat" where
  "digits_val s = foldl (\<lambda>a c. 10 * a + (of_char c - 48)) 0 s"

lemma of_digit_char: "n < 10 \<Longrightarrow> (of_char (digit_char n) :: nat) = 48 + n"
  by (simp add: of_char_of take_bit_eq_mod)

lemma show_nat_val: "digits_val (show_nat n) = n"
proof (induction n rule: show_nat.induct)
  case (1 n)
  show ?case
  proof (cases "n < 10")
    case True
    then show ?thesis
      by (subst show_nat.simps) (simp add: digits_val_def of_digit_char del: digit_char.simps)
  next
    case False
    with 1 have "digits_val (show_nat (n div 10)) = n div 10" by blast
    with False show ?thesis
      by (subst show_nat.simps) (simp add: digits_val_def of_digit_char del: digit_char.simps)
  qed
qed

lemma show_nat_digits: "c \<in> set (show_nat n) \<Longrightarrow> is_digit c"
proof (induction n rule: show_nat.induct)
  case (1 n)
  have d: "m < 10 \<Longrightarrow> is_digit (digit_char m)" for m
    by (simp add: is_digit_def of_digit_char Let_def del: digit_char.simps)
  from 1 show ?case
    by (subst (asm) (2) show_nat.simps) (auto simp: d simp del: digit_char.simps split: if_splits)
qed

lemma show_nat_ne: "show_nat n \<noteq> []"
  by (subst show_nat.simps) simp

definition delim :: "string \<Rightarrow> bool" where
  "delim x \<longleftrightarrow> (x = [] \<or> \<not> is_digit (hd x))"

lemma delim_Cons [simp]: "delim (c # x) \<longleftrightarrow> \<not> is_digit c"
  by (simp add: delim_def)

lemma takeWhile_show_nat: "delim x \<Longrightarrow> takeWhile is_digit (show_nat n @ x) = show_nat n"
  by (subst takeWhile_append2) (auto simp: delim_def dest: show_nat_digits intro: list.exhaust [of x])

lemma show_nat_prefix:
  assumes "show_nat m @ x = show_nat n @ y" "delim x" "delim y"
  shows "m = n \<and> x = y"
proof -
  have "show_nat m = show_nat n"
    using assms takeWhile_show_nat by metis
  then have "m = n" using show_nat_val by metis
  with assms(1) show ?thesis by simp
qed

lemma show_nat_hd: "is_digit (hd (show_nat n @ x))"
  using show_nat_ne [of n] show_nat_digits [of "hd (show_nat n)" n] by simp

lemma show_int_prefix:
  assumes "show_int i @ x = show_int j @ y" "delim x" "delim y"
  shows "i = j \<and> x = y"
proof -
  have m: "\<not> is_digit (CHR ''-'')" by code_simp
  have no: "CHR ''-'' # z \<noteq> show_nat n @ w" for z n w
    using show_nat_hd [of n w] m by (metis list.sel(1))
  show ?thesis
    using assms no no [symmetric]
    by (auto simp: show_int_def dest!: show_nat_prefix split: if_splits)
qed

subsection \<open>String literals are self-delimiting\<close>

lemma of_char_nat_inj: "(of_char c :: nat) = of_char d \<Longrightarrow> c = d"
  by (simp add: of_char_eq_iff)

text \<open>A left inverse of the escape of one character.\<close>

definition hex_val :: "char \<Rightarrow> nat" where
  "hex_val c = (let n = of_char c in if n < 58 then n - 48 else n - 87)"

definition unesc_code :: "char \<Rightarrow> nat" where
  "unesc_code e = (if e = CHR ''n'' then 10 else if e = CHR ''r'' then 13 else if e = CHR ''t'' then 9
     else if e = CHR ''f'' then 12 else if e = CHR ''b'' then 8 else of_char e)"

definition unesc :: "string \<Rightarrow> nat \<times> string" where
  "unesc s = (if hd s \<noteq> CHR 0x5C then (of_char (hd s), tl s)
     else if s ! 1 = CHR ''u'' then (16 * hex_val (s ! 4) + hex_val (s ! 5), drop 6 s)
     else (unesc_code (s ! 1), drop 2 s))"

lemma hex_val_digit: "n < 16 \<Longrightarrow> hex_val (hex_digit n) = n"
  by (simp add: hex_val_def hex_digit_def of_char_of)

lemma of_char_lt: "(of_char c :: nat) < 256"
proof -
  have "(of_char (char_of (of_char c :: nat)) :: nat) = of_char c mod 256" by (simp only: of_char_of)
  then have "(of_char c :: nat) = of_char c mod 256" by simp
  then show ?thesis by (metis mod_less_divisor zero_less_numeral)
qed

lemma hex_pair_val: "n < 256 \<Longrightarrow> 16 * hex_val (hex_digit (n div 16)) + hex_val (hex_digit (n mod 16)) = n"
  using hex_val_digit [of "n div 16"] hex_val_digit [of "n mod 16"] by auto

lemma of_char_backslash: "(of_char c :: nat) \<noteq> 92 \<Longrightarrow> c \<noteq> CHR 0x5C"
  by auto

lemma unesc_plain: "c \<noteq> CHR 0x5C \<Longrightarrow> unesc (c # x) = (of_char c, x)"
  by (simp add: unesc_def)

lemma unesc_control:
  "unesc ([CHR 0x5C, CHR ''u'', CHR ''0'', CHR ''0'', g, h] @ x) = (16 * hex_val g + hex_val h, x)"
  by (simp add: unesc_def)

lemma unesc_short: "e \<noteq> CHR ''u'' \<Longrightarrow> unesc ([CHR 0x5C, e] @ x) = (unesc_code e, x)"
  by (simp add: unesc_def)

lemma unesc_esc: "unesc (esc_char c @ x) = (of_char c, x)"
proof -
  define n where "n = (of_char c :: nat)"
  consider "n \<in> {34, 92, 10, 13, 9, 12, 8}" | "n \<notin> {34, 92, 10, 13, 9, 12, 8}" "n < 32"
    | "n \<notin> {34, 92, 10, 13, 9, 12, 8}" "\<not> n < 32" by blast
  then have "unesc (esc_char c @ x) = (n, x)"
  proof cases
    case 1
    then show ?thesis
      by (elim insertE emptyE)
        (simp_all only: esc_char_def Let_def n_def [symmetric] if_True if_False simp_thms rel_simps
          unesc_short unesc_code_def char.inject, simp_all)
  next
    case 2
    then have "esc_char c = [CHR 0x5C, CHR ''u'', CHR ''0'', CHR ''0'', hex_digit (n div 16), hex_digit (n mod 16)]"
      by (simp add: esc_char_def Let_def n_def [symmetric])
    then show ?thesis using hex_pair_val [of n] of_char_lt [of c]
      by (simp only: unesc_control n_def)
  next
    case 3
    then have "esc_char c = [c]" by (simp add: esc_char_def Let_def n_def [symmetric])
    moreover from 3 have "c \<noteq> CHR 0x5C" unfolding n_def by auto
    ultimately show ?thesis by (simp add: unesc_plain n_def)
  qed
  then show ?thesis by (simp add: n_def)
qed

lemma esc_char_prefix:
  assumes "esc_char c @ x = esc_char d @ y"
  shows "c = d \<and> x = y"
proof -
  have "((of_char c :: nat), x) = (of_char d, y)"
    using assms unesc_esc by metis
  then show ?thesis by (simp add: of_char_nat_inj)
qed

lemma esc_char_quote: "esc_char c @ x \<noteq> CHR 0x22 # y"
  by (auto simp: esc_char_def Let_def)

lemma esc_concat_prefix:
  "concat (map esc_char s) @ CHR 0x22 # x = concat (map esc_char t) @ CHR 0x22 # y \<Longrightarrow> s = t \<and> x = y"
proof (induction s arbitrary: t)
  case Nil
  then show ?case by (cases t) (auto dest: esc_char_quote [THEN notE, OF sym])
next
  case (Cons c s)
  then show ?case
    by (cases t) (auto simp: esc_char_quote dest!: esc_char_prefix)
qed

lemma qstr_prefix: "qstr s @ x = qstr t @ y \<Longrightarrow> s = t \<and> x = y"
  by (auto simp: qstr_def dest: esc_concat_prefix)

subsection \<open>The encoder is prefix-free\<close>

definition items_tail :: "json list \<Rightarrow> string" where
  "items_tail xs = (if xs = [] then '']'' else '','' @ enc_items xs)"

definition fields_tail :: "(string \<times> json) list \<Rightarrow> string" where
  "fields_tail kvs = (if kvs = [] then ''}'' else '','' @ enc_fields kvs)"

lemma enc_items_Cons: "enc_items (x # xs) = enc x @ items_tail xs"
  by (cases xs) (auto simp: items_tail_def)

lemma enc_fields_Cons: "enc_fields ((k, v) # kvs) = qstr k @ '':'' @ enc v @ fields_tail kvs"
  by (cases kvs) (auto simp: fields_tail_def)

lemma punct_not_digit [simp]:
  "\<not> is_digit (CHR ''n'')" "\<not> is_digit (CHR ''t'')" "\<not> is_digit (CHR ''f'')" "\<not> is_digit (CHR 0x22)"
  "\<not> is_digit (CHR ''['')" "\<not> is_digit (CHR ''{'')" "\<not> is_digit (CHR ''-'')"
  "\<not> is_digit (CHR '','')" "\<not> is_digit (CHR '']'')" "\<not> is_digit (CHR ''}'')"
  by code_simp+

lemma delim_tails [simp]: "delim (items_tail xs @ x)" "delim (fields_tail kvs @ x)"
  by (auto simp: items_tail_def fields_tail_def)

lemma show_int_hd: "is_digit (hd (show_int i @ x)) \<or> hd (show_int i @ x) = CHR ''-''"
  using show_nat_hd by (auto simp: show_int_def)

definition enc_head :: "json \<Rightarrow> char set" where
  "enc_head j = (case j of JNull \<Rightarrow> {CHR ''n''} | JBool b \<Rightarrow> {if b then CHR ''t'' else CHR ''f''}
     | JInt _ \<Rightarrow> insert (CHR ''-'') {c. is_digit c} | JStr _ \<Rightarrow> {CHR 0x22}
     | JArr _ \<Rightarrow> {CHR ''[''} | JObj _ \<Rightarrow> {CHR ''{''})"

lemma enc_hd: "hd (enc j @ x) \<in> enc_head j"
  using show_int_hd [of _ x]
  by (cases j) (auto simp: enc_head_def qstr_def)

lemma enc_ne [simp]: "enc j \<noteq> []"
  using show_nat_ne by (cases j) (auto simp: qstr_def show_int_def)

lemma enc_same_head: "enc a @ x = enc b @ y \<Longrightarrow> enc_head a \<inter> enc_head b \<noteq> {}"
  using enc_hd [of a x] enc_hd [of b y] by auto

lemma enc_not_close: "enc a @ x \<noteq> CHR '']'' # y"
  using enc_hd [of a x] by (cases a) (auto simp: enc_head_def)

lemma enc_prefix_free:
  "enc a @ x = enc b @ y \<Longrightarrow> delim x \<Longrightarrow> delim y \<Longrightarrow> a = b \<and> x = y"
  "enc_items xs @ x = enc_items ys @ y \<Longrightarrow> xs = ys \<and> x = y"
  "enc_fields kvs @ x = enc_fields lvs @ y \<Longrightarrow> kvs = lvs \<and> x = y"
proof (induction a and xs and kvs arbitrary: b x y and ys x y and lvs x y rule: enc_enc_items_enc_fields.induct)
  case 1 then show ?case using enc_same_head [OF "1.prems"(1)] by (cases b) (auto simp: enc_head_def)
next
  case (2 c) then show ?case using enc_same_head [OF "2.prems"(1)] by (cases b) (auto simp: enc_head_def split: if_splits)
next
  case (3 i) then show ?case using enc_same_head [OF "3.prems"(1)] by (cases b) (auto simp: enc_head_def dest: show_int_prefix split: if_splits)
next
  case (4 s) then show ?case using enc_same_head [OF "4.prems"(1)] by (cases b) (auto simp: enc_head_def dest: qstr_prefix split: if_splits)
next
  case (5 xs)
  obtain ys where b: "b = JArr ys"
    using enc_same_head [OF "5.prems"(1)] by (cases b) (simp_all add: enc_head_def split: if_splits)
  with "5.prems" have "enc_items xs @ x = enc_items ys @ y" by simp
  from "5.IH" [OF this] b show ?case by simp
next
  case (6 kvs)
  obtain lvs where b: "b = JObj lvs"
    using enc_same_head [OF "6.prems"(1)] by (cases b) (simp_all add: enc_head_def split: if_splits)
  with "6.prems" have "enc_fields kvs @ x = enc_fields lvs @ y" by simp
  from "6.IH" [OF this] b show ?case by simp
next
  case 7 then show ?case
    by (cases ys) (auto simp: enc_items_Cons dest: enc_not_close [THEN notE, OF sym])
next
  case (8 v) 
  show ?case
  proof (cases ys)
    case Nil with "8.prems" show ?thesis by (auto simp: enc_not_close)
  next
    case (Cons w ws)
    with "8.prems" have "enc v @ '']'' @ x = enc w @ items_tail ws @ y"
      by (simp add: enc_items_Cons items_tail_def [of "[]"])
    from "8.IH" [OF this] have "v = w \<and> '']'' @ x = items_tail ws @ y" by simp
    with Cons show ?thesis by (auto simp: items_tail_def split: if_splits)
  qed
next
  case (9 v v' vs)
  show ?case
  proof (cases ys)
    case Nil with "9.prems" show ?thesis by (auto simp: enc_not_close)
  next
    case (Cons w ws)
    with "9.prems" have "enc v @ '','' @ enc_items (v' # vs) @ x = enc w @ items_tail ws @ y"
      by (simp add: enc_items_Cons [of w ws])
    from "9.IH"(1) [OF this] have "v = w \<and> '','' @ enc_items (v' # vs) @ x = items_tail ws @ y" by simp
    then have "v = w" "enc_items (v' # vs) @ x = enc_items ws @ y"
      by (simp_all add: items_tail_def split: if_splits)
    with "9.IH"(2) [OF this(2)] Cons show ?thesis by simp
  qed
next
  case 10 then show ?case
    by (cases lvs) (auto simp: enc_fields_Cons qstr_def)
next
  case (11 k v)
  show ?case
  proof (cases lvs)
    case Nil with "11.prems" show ?thesis by (auto simp: qstr_def)
  next
    case (Cons l ls)
    obtain k' w where l: "l = (k', w)" by (cases l)
    with Cons "11.prems" have "qstr k @ '':'' @ enc v @ ''}'' @ x = qstr k' @ '':'' @ enc w @ fields_tail ls @ y"
      by (simp add: enc_fields_Cons [of k' w ls])
    from qstr_prefix [OF this] have k: "k = k'" and e: "enc v @ ''}'' @ x = enc w @ fields_tail ls @ y" by auto
    from "11.IH" [OF e] have "v = w \<and> ''}'' @ x = fields_tail ls @ y" by simp
    with Cons l k show ?thesis by (auto simp: fields_tail_def split: if_splits)
  qed
next
  case (12 k v kv kvs)
  show ?case
  proof (cases lvs)
    case Nil with "12.prems" show ?thesis by (auto simp: qstr_def)
  next
    case (Cons l ls)
    obtain k' w where l: "l = (k', w)" by (cases l)
    with Cons "12.prems" have "qstr k @ '':'' @ enc v @ '','' @ enc_fields (kv # kvs) @ x = qstr k' @ '':'' @ enc w @ fields_tail ls @ y"
      by (simp add: enc_fields_Cons [of k' w ls])
    from qstr_prefix [OF this] have k: "k = k'" and e: "enc v @ '','' @ enc_fields (kv # kvs) @ x = enc w @ fields_tail ls @ y" by auto
    from "12.IH"(1) [OF e] have "v = w \<and> '','' @ enc_fields (kv # kvs) @ x = fields_tail ls @ y" by simp
    then have "v = w" "enc_fields (kv # kvs) @ x = enc_fields ls @ y"
      by (simp_all add: fields_tail_def split: if_splits)
    with "12.IH"(2) [OF this(2)] Cons l k show ?thesis by simp
  qed
qed

subsection \<open>UTF-8 is injective\<close>

lemma div64: "n < 256 \<Longrightarrow> n div 64 < (4::nat)"
  by arith

lemma utf8_char_prefix:
  assumes "utf8_char c @ x = utf8_char d @ y"
  shows "c = d \<and> x = y"
proof -
  have lt: "(of_char c :: nat) < 256" "(of_char d :: nat) < 256" by (rule of_char_lt)+
  have code: "(192 + of_char c div 64 :: nat) mod 256 = 192 + of_char c div 64"
    "(128 + of_char c mod 64 :: nat) mod 256 = 128 + of_char c mod 64" for c :: char
  proof -
    have "(of_char c :: nat) div 64 < 4" by (rule div64 [OF of_char_lt])
    then show "(192 + of_char c div 64 :: nat) mod 256 = 192 + of_char c div 64" by simp
    have "(of_char c :: nat) mod 64 < 64" by simp
    then show "(128 + of_char c mod 64 :: nat) mod 256 = 128 + of_char c mod 64"
      by (intro mod_less) linarith
  qed
  have "(of_char c :: nat) = of_char d \<and> x = y"
  proof (cases "(of_char c :: nat) < 128"; cases "(of_char d :: nat) < 128")
    assume "(of_char c :: nat) < 128" "(of_char d :: nat) < 128"
    with assms show ?thesis by (simp add: utf8_char_def)
  next
    assume h: "(of_char c :: nat) < 128" "\<not> (of_char d :: nat) < 128"
    with assms have "c = char_of (192 + of_char d div 64 :: nat)" by (simp add: utf8_char_def Let_def)
    then have "(of_char c :: nat) = 192 + of_char d div 64" using code(1) [of d] by (simp only: of_char_of)
    with h show ?thesis by simp
  next
    assume h: "\<not> (of_char c :: nat) < 128" "(of_char d :: nat) < 128"
    with assms have "d = char_of (192 + of_char c div 64 :: nat)" by (simp add: utf8_char_def Let_def)
    then have "(of_char d :: nat) = 192 + of_char c div 64" using code(1) [of c] by (simp only: of_char_of)
    with h show ?thesis by simp
  next
    assume h: "\<not> (of_char c :: nat) < 128" "\<not> (of_char d :: nat) < 128"
    with assms have e: "(char_of (192 + of_char c div 64 :: nat) :: char) = char_of (192 + of_char d div 64 :: nat)"
      "(char_of (128 + of_char c mod 64 :: nat) :: char) = char_of (128 + of_char d mod 64 :: nat)" "x = y"
      by (simp_all add: utf8_char_def Let_def)
    from e(1) have "192 + of_char c div 64 = (192 + of_char d div 64 :: nat)"
      using code(1) by (metis of_char_of)
    moreover from e(2) have "128 + of_char c mod 64 = (128 + of_char d mod 64 :: nat)"
      using code(2) by (metis of_char_of)
    ultimately show ?thesis using e(3) by (metis add_left_cancel div_mult_mod_eq)
  qed
  then show ?thesis by (simp add: of_char_eq_iff)
qed

lemma utf8_Cons: "utf8 (c # s) = utf8_char c @ utf8 s"
  by (simp add: utf8_def)

lemma utf8_char_ne [simp]: "utf8_char c \<noteq> []"
  by (simp add: utf8_char_def Let_def)

lemma utf8_inj: "utf8 s = utf8 t \<Longrightarrow> s = t"
proof (induction s arbitrary: t)
  case Nil then show ?case by (cases t) (auto simp: utf8_def)
next
  case (Cons c s)
  then obtain d u where t: "t = d # u" by (cases t) (auto simp: utf8_def)
  with Cons.prems have "utf8_char c @ utf8 s = utf8_char d @ utf8 u" by (simp add: utf8_Cons)
  with utf8_char_prefix [OF this] Cons.IH t show ?case by blast
qed

theorem canonical_json_inj: "canonical_json a = canonical_json b \<Longrightarrow> canon a = canon b"
  using enc_prefix_free(1) [of "canon a" "[]" "canon b" "[]"]
  by (auto simp: canonical_json_def delim_def dest: utf8_inj)


subsection \<open>Reading a canonical value\<close>

text \<open>Sorting keeps the order of equal keys, so every key keeps its first value.\<close>

lemma map_of_filter_key: "map_of kvs k = map_of (filter (\<lambda>kv. fst kv = k) kvs) k"
  by (induction kvs) auto

lemma map_of_sort_key: "map_of (sort_key fst kvs) k = map_of kvs k"
  using map_of_filter_key [of "sort_key fst kvs" k] map_of_filter_key [of kvs k] sort_key_stable [of fst k kvs]
  by simp

lemma jget_canon: "jget k (canon j) = map_option canon (jget k j)"
proof (cases j)
  case (JObj kvs)
  have "map_of (map (map_prod id canon) kvs) k = map_option canon (map_of kvs k)"
    by (induction kvs) auto
  with JObj show ?thesis by (simp add: jget_def map_of_sort_key)
qed (simp_all add: jget_def)

text \<open>Values with the same canonical bytes agree on every scalar field.\<close>

lemma canonical_field_int:
  assumes "canonical_json a = canonical_json b" "jget k a = Some (JInt i)"
  shows "jget k b = Some (JInt i)"
proof -
  have "jget k (canon b) = Some (JInt i)"
    using assms(2) jget_canon [of k a] by (simp add: canonical_json_inj [OF assms(1), symmetric])
  then obtain v where "jget k b = Some v" "canon v = JInt i"
    using jget_canon [of k b] by auto
  then show ?thesis by (cases v) auto
qed

lemma canonical_field_str:
  assumes "canonical_json a = canonical_json b" "jget k a = Some (JStr s)"
  shows "jget k b = Some (JStr s)"
proof -
  have "jget k (canon b) = Some (JStr s)"
    using assms(2) jget_canon [of k a] by (simp add: canonical_json_inj [OF assms(1), symmetric])
  then obtain v where "jget k b = Some v" "canon v = JStr s"
    using jget_canon [of k b] by auto
  then show ?thesis by (cases v) auto
qed

subsection \<open>Size of canonical JSON\<close>

fun jsize :: "json \<Rightarrow> nat" where
  "jsize JNull = 4"
| "jsize (JBool b) = 5"
| "jsize (JInt i) = length (show_int i)"
| "jsize (JStr s) = 6 * length s + 2"
| "jsize (JArr xs) = 2 + sum_list (map (\<lambda>x. jsize x + 1) xs)"
| "jsize (JObj kvs) = 2 + sum_list (map (\<lambda>(k, v). 6 * length k + 4 + jsize v) kvs)"

lemma length_esc: "length (esc_char c) \<le> 6"
  by (auto simp: esc_char_def Let_def)

lemma length_qstr: "length (qstr s) \<le> 6 * length s + 2"
proof -
  have "length (concat (map esc_char s)) \<le> 6 * length s"
  proof (induction s)
    case (Cons c s)
    then show ?case using length_esc [of c] by simp
  qed simp
  then show ?thesis by (simp add: qstr_def)
qed

lemma length_enc: "length (enc j) \<le> jsize j"
  "length (enc_items xs) \<le> 1 + sum_list (map (\<lambda>x. jsize x + 1) xs)"
  "length (enc_fields kvs) \<le> 1 + sum_list (map (\<lambda>(k, v). 6 * length k + 4 + jsize v) kvs)"
proof (induction j and xs and kvs rule: enc_enc_items_enc_fields.induct)
  case (4 s)
  then show ?case using length_qstr [of s] by simp
next
  case (11 k v)
  then show ?case using length_qstr [of k] by simp
next
  case (12 k v kv kvs)
  then show ?case using length_qstr [of k] by (simp add: case_prod_unfold)
qed simp_all

lemma sum_insort: "sum_list (map f (insort_key g x xs)) = (f x :: nat) + sum_list (map f xs)"
  by (induction xs) simp_all

lemma sum_sort: "sum_list (map f (sort_key g xs)) = (sum_list (map f xs) :: nat)"
  by (induction xs) (simp_all add: sum_insort)

lemma jsize_canon: "jsize (canon j) = jsize j"
proof (induction j)
  case (JArr xs)
  then show ?case by (simp add: comp_def cong: map_cong)
next
  case (JObj kvs)
  have "map ((\<lambda>(k, v). 6 * length k + 4 + jsize v) \<circ> map_prod id canon) kvs
      = map (\<lambda>(k, v). 6 * length k + 4 + jsize v) kvs"
    using JObj by (intro map_cong) (force split: prod.splits)+
  then show ?case by (simp only: canon.simps jsize.simps sum_sort map_map)
qed simp_all

lemma length_utf8: "length (utf8 s) \<le> 2 * length s"
  by (induction s) (simp_all add: utf8_def utf8_char_def Let_def)

lemma length_canonical: "length (canonical_json j) \<le> 2 * jsize j"
  using length_utf8 [of "enc (canon j)"] length_enc(1) [of "canon j"]
  by (simp add: canonical_json_def jsize_canon)

end
