(* ===== verification/Crypto.thy ===== *)
theory Crypto
  imports Json
begin

section \<open>Signed payloads, hashes and base64\<close>

text \<open>
  \<open>src/rynmesh/crypto.py\<close>: the signed envelope that carries every message of the program. Ed25519
  (the package \<open>cryptography\<close>) and SHA-256 are parameters, the fields of the record \<open>crypto\<close>:
  \<open>sha256\<close> is the hex digest of bytes, \<open>ed_public\<close> and \<open>ed_sign\<close> act on a private key,
  \<open>ed_ok key signature bytes\<close> is the verification of base64 texts. Laws about them (an honest
  signature verifies, no collisions) are hypotheses of the theorems that use them. Base64 is
  defined here, strict as \<open>b64decode(validate=True)\<close> is on Python 3.11 and later.
\<close>

subsection \<open>Base64\<close>

definition b64_char :: "nat \<Rightarrow> char" where
  "b64_char v = (if v < 26 then char_of (65 + v) else if v < 52 then char_of (71 + v)
     else if v < 62 then char_of (v - 4) else if v = 62 then CHR ''+'' else CHR 0x2F)"

definition b64_val :: "char \<Rightarrow> nat option" where
  "b64_val c = (let n = of_char c :: nat in
     if 65 \<le> n \<and> n \<le> 90 then Some (n - 65)
     else if 97 \<le> n \<and> n \<le> 122 then Some (n - 71)
     else if 48 \<le> n \<and> n \<le> 57 then Some (n + 4)
     else if n = 43 then Some 62
     else if n = 47 then Some 63
     else None)"

fun b64_encode :: "nat list \<Rightarrow> string" where
  "b64_encode [] = []"
| "b64_encode [a] = [b64_char (a div 4), b64_char ((a mod 4) * 16), CHR ''='', CHR ''='']"
| "b64_encode [a, b] =
     [b64_char (a div 4), b64_char ((a mod 4) * 16 + b div 16), b64_char ((b mod 16) * 4), CHR ''='']"
| "b64_encode (a # b # c # bs) =
     b64_char (a div 4) # b64_char ((a mod 4) * 16 + b div 16)
     # b64_char ((b mod 16) * 4 + c div 64) # b64_char (c mod 64) # b64_encode bs"

text \<open>\<open>b64_decode\<close> is \<open>base64.b64decode\<close> with \<open>validate=True\<close>, as keys and peer ids are read; the lenient one is in \<open>Json_Read\<close>.\<close>

fun b64_decode :: "string \<Rightarrow> nat list option" where
  "b64_decode [] = Some []"
| "b64_decode (w # x # y # z # cs) =
     (case (b64_val w, b64_val x) of
        (Some a, Some b) \<Rightarrow>
          (case (b64_val y, b64_val z) of
             (Some c, Some d) \<Rightarrow>
               map_option (\<lambda>bs. (a * 4 + b div 16) # ((b mod 16) * 16 + c div 4) # ((c mod 4) * 64 + d) # bs)
                 (b64_decode cs)
           | (Some c, None) \<Rightarrow>
               (if z = CHR ''='' \<and> cs = [] then Some [a * 4 + b div 16, (b mod 16) * 16 + c div 4] else None)
           | (None, _) \<Rightarrow>
               (if y = CHR ''='' \<and> z = CHR ''='' \<and> cs = [] then Some [a * 4 + b div 16] else None))
      | _ \<Rightarrow> None)"
| "b64_decode _ = None"

lemma b64_val_char [simp]: "v < 64 \<Longrightarrow> b64_val (b64_char v) = Some v"
  by (auto simp: b64_val_def b64_char_def of_char_of Let_def)

lemma b64_val_pad [simp]: "b64_val (CHR ''='') = None"
  by code_simp

lemma b64_split:
  "a < 256 \<Longrightarrow> a div 4 < (64::nat)"
  "(b::nat) < 256 \<Longrightarrow> (a mod 4) * 16 + b div 16 < 64"
  "(a mod 4) * 16 < (64::nat)"
  "(b mod 16) * 4 < (64::nat)"
  "(c::nat) < 256 \<Longrightarrow> (b mod 16) * 4 + c div 64 < 64"
proof -
  have m: "a mod 4 < 4" "b mod 16 < 16" by simp_all
  show "a < 256 \<Longrightarrow> a div 4 < 64" by (simp add: less_mult_imp_div_less)
  show "(a mod 4) * 16 < 64" "(b mod 16) * 4 < 64" using m by linarith+
  have "b < 256 \<Longrightarrow> b div 16 < 16" "c < 256 \<Longrightarrow> c div 64 < 4" by (simp_all add: less_mult_imp_div_less)
  with m show "b < 256 \<Longrightarrow> (a mod 4) * 16 + b div 16 < 64" "c < 256 \<Longrightarrow> (b mod 16) * 4 + c div 64 < 64"
    by linarith+
qed

lemma div_small: "b < 256 \<Longrightarrow> b div 16 div 16 = (0::nat)" "c < 256 \<Longrightarrow> c div 64 div 4 = (0::nat)"
  "b < 256 \<Longrightarrow> b div 16 mod 16 = b div (16::nat)" "c < 256 \<Longrightarrow> c div 64 mod 4 = c div (64::nat)"
  by (simp_all add: div_mult2_eq [symmetric] less_mult_imp_div_less)

lemma b64_roundtrip: "\<forall>b \<in> set bs. b < 256 \<Longrightarrow> b64_decode (b64_encode bs) = Some bs"
proof (induction bs rule: b64_encode.induct)
  case (4 a b c bs)
  then show ?case by (simp add: b64_split div_small)
qed (simp_all add: b64_split div_small)

subsection \<open>Hashes and signed payloads\<close>

record crypto =
  sha256 :: "string \<Rightarrow> string"
  ed_public :: "string \<Rightarrow> string"
  ed_sign :: "string \<Rightarrow> string \<Rightarrow> string"
  ed_ok :: "string \<Rightarrow> string \<Rightarrow> string \<Rightarrow> bool"

definition sha256_bytes :: "crypto \<Rightarrow> string \<Rightarrow> string" where
  "sha256_bytes C data = ''sha256:'' @ sha256 C data"

definition json_hash :: "crypto \<Rightarrow> json \<Rightarrow> string" where
  "json_hash C j = sha256_bytes C (canonical_json j)"

record signed_payload =
  sp_payload :: json
  sp_signature :: string
  sp_public_key :: string
  sp_alg :: string

definition SIGNATURE_ALG :: string where "SIGNATURE_ALG = ''ed25519''"

definition to_dict :: "signed_payload \<Rightarrow> json" where
  "to_dict s = JObj [(''alg'', JStr (sp_alg s)), (''public_key'', JStr (sp_public_key s)),
     (''signature'', JStr (sp_signature s)), (''payload'', sp_payload s)]"

text \<open>
  \<open>str(value)\<close>. A string is itself; the other renderings never are a valid base64 key, signature or
  algorithm name, and are given by their Python text (a container by its JSON text).
\<close>

fun py_str :: "json \<Rightarrow> string" where
  "py_str (JStr s) = s"
| "py_str JNull = ''None''"
| "py_str (JBool b) = (if b then ''True'' else ''False'')"
| "py_str (JInt i) = show_int i"
| "py_str j = enc j"

text \<open>Python's truth value of a decoded value.\<close>

definition truthy :: "json \<Rightarrow> bool" where
  "truthy j = (case j of JNull \<Rightarrow> False | JBool b \<Rightarrow> b | JInt i \<Rightarrow> i \<noteq> 0 | JStr s \<Rightarrow> s \<noteq> [] | JArr xs \<Rightarrow> xs \<noteq> [] | JObj kvs \<Rightarrow> kvs \<noteq> [])"

text \<open>\<open>str(value or "")\<close>.\<close>

definition str_or :: "json \<Rightarrow> string" where
  "str_or j = (if truthy j then py_str j else [])"

text \<open>\<open>int(value)\<close> of a JSON value: decimal text may have spaces around it, a sign, and single underscores.\<close>

fun digits_ok :: "string \<Rightarrow> bool" where
  "digits_ok [] = False"
| "digits_ok [c] = is_digit c"
| "digits_ok (c # d # cs) = (is_digit c \<and> (if d = CHR ''_'' then digits_ok cs else digits_ok (d # cs)))"

definition int_text :: "string \<Rightarrow> int option" where
  "int_text s = (let t = rev (dropWhile py_isspace (rev (dropWhile py_isspace s)));
       d = (if t \<noteq> [] \<and> (hd t = CHR ''+'' \<or> hd t = CHR ''-'') then tl t else t); n = int (digits_val (filter is_digit d)) in
     if digits_ok d then Some (if t \<noteq> [] \<and> hd t = CHR ''-'' then - n else n) else None)"

definition py_int :: "json \<Rightarrow> py_error + int" where
  "py_int j = (case j of JInt i \<Rightarrow> Inr i | JBool b \<Rightarrow> Inr (if b then 1 else 0)
     | JStr s \<Rightarrow> opt_or ValueError (int_text s) | _ \<Rightarrow> Inl TypeError)"

lemma int_case [guard_simps]: "(case j of JInt i \<Rightarrow> f i | _ \<Rightarrow> Inl e) = Inr x \<longleftrightarrow> (\<exists>i. j = JInt i \<and> f i = Inr x)"
  by (cases j) auto

lemma str_case [guard_simps]: "(case j of JStr s \<Rightarrow> f s | _ \<Rightarrow> Inl e) = Inr x \<longleftrightarrow> (\<exists>s. j = JStr s \<and> f s = Inr x)"
  by (cases j) auto

text \<open>
  \<open>SignedPayload.from_dict\<close>: a missing field is a KeyError, a payload that is not a dict does not
  convert with \<open>dict(...)\<close>; a missing \<open>alg\<close> defaults.
\<close>

definition from_dict :: "json \<Rightarrow> py_error + signed_payload" where
  "from_dict data =
     bnd (jitem ''payload'' data) (\<lambda>payload.
     require (is_obj payload) ValueError (
     bnd (jitem ''signature'' data) (\<lambda>sig.
     bnd (jitem ''public_key'' data) (\<lambda>pk.
     Inr \<lparr>sp_payload = payload, sp_signature = py_str sig, sp_public_key = py_str pk,
          sp_alg = (case jget ''alg'' data of None \<Rightarrow> SIGNATURE_ALG | Some a \<Rightarrow> py_str a)\<rparr>))))"

definition subject_hash :: "crypto \<Rightarrow> signed_payload \<Rightarrow> string" where
  "subject_hash C s = json_hash C (sp_payload s)"

definition sign_payload :: "crypto \<Rightarrow> json \<Rightarrow> string \<Rightarrow> signed_payload" where
  "sign_payload C payload private_key =
     \<lparr>sp_payload = payload, sp_signature = ed_sign C private_key (canonical_json payload),
      sp_public_key = ed_public C private_key, sp_alg = SIGNATURE_ALG\<rparr>"

definition verify_signed_payload :: "crypto \<Rightarrow> signed_payload \<Rightarrow> py_error + unit" where
  "verify_signed_payload C s =
     require (sp_alg s = SIGNATURE_ALG) (Raised ''unsupported signature algorithm'') (
     require (ed_ok C (sp_public_key s) (sp_signature s) (canonical_json (sp_payload s)))
       (Raised ''signed payload verification failed'') (Inr ()))"

text \<open>The documented law of a signature scheme: what a key signs verifies under its public key.\<close>

definition signing_law :: "crypto \<Rightarrow> bool" where
  "signing_law C \<longleftrightarrow> (\<forall>k m. ed_ok C (ed_public C k) (ed_sign C k m) m)"

lemma from_to_dict [simp]: "is_obj (sp_payload s) \<Longrightarrow> from_dict (to_dict s) = Inr s"
  by (simp add: from_dict_def to_dict_def jitem_def jget_def)

lemma sign_verify: "signing_law C \<Longrightarrow> verify_signed_payload C (sign_payload C p k) = Inr ()"
  by (simp add: signing_law_def verify_signed_payload_def sign_payload_def)

lemma from_dict_obj: "from_dict w = Inr s \<Longrightarrow> is_obj (sp_payload s)"
  by (auto simp: from_dict_def guard_simps)

text \<open>Equal hashes mean equal canonical values, when the hash has no collisions.\<close>

lemma json_hash_inj:
  "inj (sha256 C) \<Longrightarrow> json_hash C a = json_hash C b \<longleftrightarrow> canonical_json a = canonical_json b"
  by (auto simp: json_hash_def sha256_bytes_def inj_eq)

text \<open>The instance of the demonstrations: a signature is the key itself.\<close>

definition demo_crypto :: crypto where
  "demo_crypto = \<lparr>sha256 = id, ed_public = id, ed_sign = (\<lambda>k m. k), ed_ok = (\<lambda>k s m. k = s)\<rparr>"

lemma demo_signing: "signing_law demo_crypto"
  by (simp add: signing_law_def demo_crypto_def)

end
