(* ===== verification/Exchange_Rules.thy ===== *)
theory Exchange_Rules
  imports Crypto
begin

section \<open>Exchange rules: data, accounts, panels, commitments\<close>

text \<open>
  The vocabulary of \<open>src/rynmesh/exchange/protocol.py\<close>, in the order of the file: the checked
  readers of wire values (\<open>text_check\<close>, \<open>integer\<close>, \<open>identifier_check\<close>, \<open>key_check\<close>, \<open>signature\<close>), the network
  manifest (\<open>genesis\<close>), the accounts with their available and held balances, the closing of an
  order, judge panels, deadlines and the two commitments. The transition itself is in
  \<open>Exchange_Apply\<close>.

  An account, a listing, a proposal, an order and the terms of an order are records; a key of the
  source's dict that appears only in some phases of an order (\<open>review_until\<close>, \<open>delivery_hash\<close>,
  \<open>round\<close>, ...) is an option, and reading it when absent is a KeyError as in Python.
  \<open>ExchangeError(code)\<close> is \<open>Raised code\<close>.
\<close>

subsection \<open>Constants\<close>

definition VERSION :: string where "VERSION = ''ryn.exchange.v2''"
definition LEGACY_VERSION :: string where "LEGACY_VERSION = ''ryn.exchange.v1''"
definition MAX_OPERATIONS :: int where "MAX_OPERATIONS = 10000"
definition MAX_ACCOUNT_ADMISSIONS :: int where "MAX_ACCOUNT_ADMISSIONS = 100"
definition ORDER_OPERATION_RESERVE :: int where "ORDER_OPERATION_RESERVE = 24"
definition MAX_OPEN_ORDERS :: int where "MAX_OPEN_ORDERS = 6"
definition CLOCK_SKEW :: int where "CLOCK_SKEW = 30"
definition DELIVERY_WINDOW :: int where "DELIVERY_WINDOW = 7 * 86400"
definition REVIEW_WINDOW :: int where "REVIEW_WINDOW = 2 * 86400"
definition CASE_WINDOW :: int where "CASE_WINDOW = 2 * 86400"
definition UNITS :: int where "UNITS = 1000000"
definition MAX_MINOR :: int where "MAX_MINOR = 10 ^ 15"

definition ORDER_ACTIONS :: "string list" where
  "ORDER_ACTIONS = [''deliver'', ''accept'', ''refund'', ''dispute'', ''evidence'', ''rule'',
     ''appeal'', ''waive'', ''finalize'', ''timeout'']"

definition COVENANT :: json where
  "COVENANT = JObj [
     (''version'', JStr ''ryn.covenant.digital.v2''),
     (''principles'', JArr (map JStr [''free participation'', ''no platform commission'', ''direct agreed prices'', ''honest delivery'', ''lawful ethical work'', ''consent and rights'', ''public rules and audit'', ''private keys and deliverables'', ''independent AI appeals''])),
     (''acceptance'', JStr (''The buyer accepts delivery or both parties agree a refund. Disputed outcomes use ''
       @ ''independent model receipts. Accepted deadlines allow explicit timeout ''
       @ ''settlement: undelivered work is refunded; delivered work is paid after review; ''
       @ ''an unresolved initial dispute with delivery splits the price equally (without ''
       @ ''delivery it refunds); an unresolved appeal retains the first ruling. Committed ''
       @ ''judge fees remain paid.''))]"

abbreviation invalid :: py_error where "invalid \<equiv> Raised ''exchange_invalid''"

subsection \<open>Checked readers of wire values\<close>

definition text_check :: "json \<Rightarrow> nat \<Rightarrow> bool \<Rightarrow> py_error + string" where
  "text_check value limit allow_empty = (case value of
     JStr s \<Rightarrow> require (length (utf8 s) \<le> limit) invalid (
               require (allow_empty \<or> (\<exists>c \<in> set s. \<not> py_isspace c)) invalid (Inr s))
   | _ \<Rightarrow> Inl invalid)"

definition integer :: "json \<Rightarrow> int \<Rightarrow> py_error + int" where
  "integer value maximum = (case value of
     JInt i \<Rightarrow> require (0 \<le> i \<and> i \<le> maximum) invalid (Inr i)
   | _ \<Rightarrow> Inl invalid)"

definition is_id_char :: "char \<Rightarrow> bool" where
  "is_id_char c \<longleftrightarrow> is_alnum_ascii c \<or> c = CHR ''_'' \<or> c = CHR ''-''"

definition identifier_check :: "json \<Rightarrow> py_error + string" where
  "identifier_check value = (case value of
     JStr s \<Rightarrow> require (8 \<le> length s \<and> length s \<le> 80 \<and> list_all is_id_char s) invalid (Inr s)
   | _ \<Rightarrow> Inl invalid)"

text \<open>\<open>key(value)\<close>: the canonical base64 text of 32 bytes.\<close>

definition is_key :: "string \<Rightarrow> bool" where
  "is_key s = (case b64_decode s of None \<Rightarrow> False
     | Some raw \<Rightarrow> length raw = 32 \<and> b64_encode raw = s)"

definition key_check :: "json \<Rightarrow> py_error + string" where
  "key_check value = (case value of
     JStr s \<Rightarrow> require (is_key s) (Raised ''exchange_key_invalid'') (Inr s)
   | _ \<Rightarrow> Inl (Raised ''exchange_key_invalid''))"

definition or_signature_invalid :: "py_error + 'a \<Rightarrow> py_error + 'a" where
  "or_signature_invalid r = (case r of Inl _ \<Rightarrow> Inl (Raised ''exchange_signature_invalid'') | Inr x \<Rightarrow> Inr x)"

definition signature :: "crypto \<Rightarrow> json \<Rightarrow> py_error + signed_payload" where
  "signature C wire =
     bnd (or_signature_invalid (from_dict wire)) (\<lambda>signed.
     bnd (or_signature_invalid (verify_signed_payload C signed)) (\<lambda>_.
     bnd (key_check (JStr (sp_public_key signed))) (\<lambda>_.
     require (length (canonical_json (sp_payload signed)) \<le> 256 * 1024) (Raised ''exchange_capacity'') (
     Inr signed))))"

definition is_commitment :: "string \<Rightarrow> bool" where
  "is_commitment s \<longleftrightarrow> take 7 s = ''sha256:'' \<and> length s = 71 \<and> list_all is_lower_hex (drop 7 s)"

text \<open>\<open>re.fullmatch("sha256:[a-f0-9]{64}", value)\<close>: a TypeError on a value that is not a string.\<close>

definition commitment_check :: "json \<Rightarrow> py_error + string" where
  "commitment_check value = (case value of JStr s \<Rightarrow> require (is_commitment s) invalid (Inr s)
   | _ \<Rightarrow> Inl TypeError)"

subsection \<open>The network manifest\<close>

record validator =
  va_peer_id :: string
  va_endpoint :: string

record judge =
  jd_peer_id :: string
  jd_endpoint :: string
  jd_encryption_key :: string
  jd_model :: string
  jd_fee :: int

record config =
  cf_version :: string
  cf_name :: string
  cf_validators :: "validator list"
  cf_judges :: "judge list"
  cf_issuance_limit :: int
  cf_work_reward :: int
  cf_appeal_window_s :: int
  cf_covenant :: json

definition parse_validator :: "json \<Rightarrow> validator" where
  "parse_validator j = \<lparr>va_peer_id = jstr ''peer_id'' j, va_endpoint = jstr ''endpoint'' j\<rparr>"

definition parse_judge :: "json \<Rightarrow> judge" where
  "parse_judge j = \<lparr>jd_peer_id = jstr ''peer_id'' j, jd_endpoint = jstr ''endpoint'' j,
     jd_encryption_key = jstr ''encryption_key'' j, jd_model = jstr ''model'' j, jd_fee = jint ''fee'' j\<rparr>"

text \<open>A dict is kept up to the order of its keys, so the covenant is stored with sorted keys.\<close>

definition parse_config :: "json \<Rightarrow> config" where
  "parse_config j = \<lparr>cf_version = jstr ''version'' j, cf_name = jstr ''name'' j,
     cf_validators = map parse_validator (jlist (jfield ''validators'' j)),
     cf_judges = map parse_judge (jlist (jfield ''judges'' j)),
     cf_issuance_limit = jint ''issuance_limit'' j, cf_work_reward = jint ''work_reward'' j,
     cf_appeal_window_s = jint ''appeal_window_s'' j, cf_covenant = canon (jfield ''covenant'' j)\<rparr>"

definition validator_json :: "validator \<Rightarrow> json" where
  "validator_json v = JObj [(''peer_id'', JStr (va_peer_id v)), (''endpoint'', JStr (va_endpoint v))]"

definition judge_json :: "judge \<Rightarrow> json" where
  "judge_json j = JObj [(''peer_id'', JStr (jd_peer_id j)), (''endpoint'', JStr (jd_endpoint j)),
     (''encryption_key'', JStr (jd_encryption_key j)), (''model'', JStr (jd_model j)),
     (''fee'', JInt (jd_fee j))]"

definition config_json :: "config \<Rightarrow> json" where
  "config_json c = JObj [(''version'', JStr (cf_version c)), (''name'', JStr (cf_name c)),
     (''validators'', JArr (map validator_json (cf_validators c))),
     (''judges'', JArr (map judge_json (cf_judges c))),
     (''issuance_limit'', JInt (cf_issuance_limit c)), (''work_reward'', JInt (cf_work_reward c)),
     (''appeal_window_s'', JInt (cf_appeal_window_s c)), (''covenant'', cf_covenant c)]"

text \<open>One pass of the loop over \<open>validators + judges\<close>, with the keys seen so far.\<close>

fun genesis_entries :: "json list \<Rightarrow> json list \<Rightarrow> string list \<Rightarrow> json list \<Rightarrow> py_error + unit" where
  "genesis_entries validators judges seen [] = Inr ()"
| "genesis_entries validators judges seen (entry # rest) =
     require (is_obj entry) invalid (
     require (keys_are entry (if list_ex (py_eq entry) validators then [''peer_id'', ''endpoint'']
        else [''peer_id'', ''endpoint'', ''encryption_key'', ''model'', ''fee''])) invalid (
     bnd (jitem ''peer_id'' entry) (\<lambda>v. bnd (key_check v) (\<lambda>peer.
     require (peer \<notin> set seen) invalid (
     bnd (jitem ''endpoint'' entry) (\<lambda>v. bnd (text_check v 2048 False) (\<lambda>_.
     bnd (if list_ex (py_eq entry) judges then
            bnd (jitem ''encryption_key'' entry) (\<lambda>v. bnd (key_check v) (\<lambda>_.
            bnd (jitem ''model'' entry) (\<lambda>v. bnd (text_check v 100 False) (\<lambda>_.
            bnd (jitem ''fee'' entry) (\<lambda>v. bnd (integer v UNITS) (\<lambda>_. Inr ()))))))
          else Inr ()) (\<lambda>_.
     genesis_entries validators judges (peer # seen) rest))))))))"

text \<open>
  The body of \<open>genesis\<close> for one protocol version and covenant. \<open>protocol.py\<close> runs it with version 2;
  its first branch hands a version 1 manifest to the same checks of \<open>legacy_v1.py\<close> with that file's
  version and covenant.
\<close>

definition genesis_checks :: "string \<Rightarrow> json \<Rightarrow> json \<Rightarrow> py_error + config" where
  "genesis_checks version covenant value =
     require (is_obj value \<and> keys_are value [''version'', ''name'', ''validators'', ''judges'',
        ''issuance_limit'', ''work_reward'', ''appeal_window_s'', ''covenant'']) invalid (
     require (jget ''version'' value = Some (JStr version) \<and> py_eq (jfield ''covenant'' value) covenant) invalid (
     bnd (text_check (jfield ''name'' value) 100 False) (\<lambda>_.
     let validators = jfield ''validators'' value; judges = jfield ''judges'' value in
     require (is_list validators \<and> 4 \<le> length (jlist validators) \<and> length (jlist validators) \<le> 8) invalid (
     require (is_list judges \<and> (length (jlist judges) = 0 \<or> 6 \<le> length (jlist judges) \<and> length (jlist judges) \<le> 12)) invalid (
     bnd (genesis_entries (jlist validators) (jlist judges) [] (jlist validators @ jlist judges)) (\<lambda>_.
     require (distinct (map (jstr ''model'') (jlist judges))) (Raised ''exchange_independent_models_required'') (
     bnd (integer (jfield ''issuance_limit'' value) (1000000 * UNITS)) (\<lambda>issuance_limit.
     bnd (integer (jfield ''work_reward'' value) (100 * UNITS)) (\<lambda>work_reward.
     require (0 < work_reward \<and> work_reward \<le> issuance_limit) invalid (
     bnd (case jfield ''appeal_window_s'' value of
            JInt w \<Rightarrow> require (60 \<le> w \<and> w \<le> 604800) invalid (Inr ())
          | _ \<Rightarrow> Inl invalid) (\<lambda>_.
     Inr (parse_config value))))))))))))"

definition genesis :: "json \<Rightarrow> py_error + config" where
  "genesis value = genesis_checks VERSION COVENANT value"

definition quorum :: "config \<Rightarrow> nat" where
  "quorum config = length (cf_validators config) * 2 div 3 + 1"

definition validator_ids :: "config \<Rightarrow> string list" where
  "validator_ids config = map va_peer_id (cf_validators config)"

definition network_id :: "crypto \<Rightarrow> config \<Rightarrow> string" where
  "network_id C config = json_hash C (config_json config)"

subsection \<open>The state\<close>

record account =
  ac_available :: int
  ac_held :: int
  ac_earned :: int
  ac_encryption_key :: string
  ac_label :: string
  ac_devices :: "string list"
  ac_nonce :: int
  ac_admissions :: int

record listing =
  li_id :: string
  li_owner :: string
  li_kind :: string
  li_category :: string
  li_title :: string
  li_description :: string
  li_price :: int
  li_active :: bool
  li_created_at :: int

record proposal =
  pr_id :: string
  pr_listing_id :: string
  pr_buyer :: string
  pr_provider :: string
  pr_proposed_by :: string
  pr_scope :: string
  pr_price :: int
  pr_status :: string

record terms =
  tm_proposal_id :: string
  tm_buyer :: string
  tm_provider :: string
  tm_title :: string
  tm_category :: string
  tm_scope :: string
  tm_price :: int
  tm_buyer_dispute_reserve :: int
  tm_provider_dispute_reserve :: int
  tm_covenant :: json
  tm_appeal_window_s :: int
  tm_judges :: "judge list"
  tm_delivery :: string
  tm_platform_commission :: int
  tm_delivery_window_s :: int
  tm_review_window_s :: int
  tm_case_window_s :: int
  tm_dispute_timeout_share_bps :: int
  tm_appeal_timeout :: string
  tm_evidence_policy :: string
  tm_delivery_revisions :: int

datatype status = Working | Delivered | Disputed | Ruling_ready | Accepted | Refunded | Resolved

record evidence =
  ev_commitment :: string
  ev_sealed :: json

record order =
  od_id :: string
  od_proposal_id :: string
  od_buyer :: string
  od_provider :: string
  od_terms :: terms
  od_price :: int
  od_buyer_reserve :: int
  od_provider_reserve :: int
  od_status :: status
  od_evidence :: "(string, evidence) dict"
  od_refund_requests :: "string list"
  od_waivers :: "string list"
  od_created_at :: int
  od_delivery_until :: int
  od_remaining_ops :: int
  od_delivery_revisions :: int
  od_review_until :: "int option"
  od_delivery_hash :: "string option"
  od_delivery :: "json option"
  od_round :: "nat option"
  od_case_until :: "int option"
  od_ruling_share :: "int option"
  od_rulings :: "json option"
  od_appeal_until :: "int option"
  od_paid :: "int option"

record state =
  st_accounts :: "(string, account) dict"
  st_listings :: "(string, listing) dict"
  st_proposals :: "(string, proposal) dict"
  st_orders :: "(string, order) dict"
  st_issued :: int
  st_rewards :: "(string, string) dict"
  st_operations :: "(string, string) dict"
  st_time :: int
  st_covenant :: json

definition initial_state :: "config \<Rightarrow> state" where
  "initial_state config = \<lparr>st_accounts = [], st_listings = [], st_proposals = [], st_orders = [],
     st_issued = 0, st_rewards = [], st_operations = [], st_time = 0, st_covenant = cf_covenant config\<rparr>"

definition terminal :: "status \<Rightarrow> bool" where
  "terminal s \<longleftrightarrow> s = Accepted \<or> s = Refunded \<or> s = Resolved"

definition is_open :: "order \<Rightarrow> bool" where
  "is_open o' \<longleftrightarrow> \<not> terminal (od_status o')"

subsection \<open>Accounts and escrow\<close>

definition new_account :: account where
  "new_account = \<lparr>ac_available = 0, ac_held = 0, ac_earned = 0, ac_encryption_key = [],
     ac_label = [], ac_devices = [], ac_nonce = 0, ac_admissions = 0\<rparr>"

text \<open>
  \<open>account(state, owner)\<close> is \<open>setdefault\<close>: it reads the row and creates it when absent. \<open>acct\<close> is the
  row, \<open>upd_acct\<close> the mutation of the row (which creates it), \<open>touch\<close> the bare call.
\<close>

definition acct :: "state \<Rightarrow> string \<Rightarrow> account" where
  "acct s owner = (case map_of (st_accounts s) owner of None \<Rightarrow> new_account | Some r \<Rightarrow> r)"

definition upd_acct :: "string \<Rightarrow> (account \<Rightarrow> account) \<Rightarrow> state \<Rightarrow> state" where
  "upd_acct owner f s = s\<lparr>st_accounts := dict_put owner (f (acct s owner)) (st_accounts s)\<rparr>"

definition touch :: "string \<Rightarrow> state \<Rightarrow> state" where
  "touch owner s = upd_acct owner (\<lambda>r. r) s"

definition hold :: "state \<Rightarrow> string \<Rightarrow> int \<Rightarrow> py_error + state" where
  "hold s owner value =
     require (value \<le> ac_available (acct s owner)) (Raised ''exchange_insufficient_balance'') (
     Inr (upd_acct owner (\<lambda>r. r\<lparr>ac_available := ac_available r - value, ac_held := ac_held r + value\<rparr>) s))"

definition unhold :: "state \<Rightarrow> string \<Rightarrow> int \<Rightarrow> py_error + state" where
  "unhold s owner value =
     require (value \<le> ac_held (acct s owner)) (Raised ''exchange_balance_invariant'') (
     Inr (upd_acct owner (\<lambda>r. r\<lparr>ac_held := ac_held r - value, ac_available := ac_available r + value\<rparr>) s))"

definition earn :: "state \<Rightarrow> string \<Rightarrow> int \<Rightarrow> py_error + state" where
  "earn s owner value =
     require (ac_available (acct s owner) + value \<le> MAX_MINOR) (Raised ''exchange_capacity'') (
     Inr (upd_acct owner (\<lambda>r. r\<lparr>ac_available := ac_available r + value, ac_earned := ac_earned r + value\<rparr>) s))"

definition judge_fees :: "judge list \<Rightarrow> int" where
  "judge_fees js = sum_list (map jd_fee js)"

definition fees :: "judge list \<Rightarrow> int \<times> int" where
  "fees judges = (let r0 = judge_fees (take 3 judges); r1 = judge_fees (take 3 (drop 3 judges))
     in ((r0 + 1) div 2 + (r1 + 1) div 2, r0 div 2 + r1 div 2))"

definition put_order :: "string \<Rightarrow> order \<Rightarrow> state \<Rightarrow> state" where
  "put_order oid o' s = s\<lparr>st_orders := dict_put oid o' (st_orders s)\<rparr>"

text \<open>\<open>close\<close>: release both escrows, pay the provider, and put the closed order back.\<close>

definition close_order :: "state \<Rightarrow> string \<Rightarrow> order \<Rightarrow> int \<Rightarrow> status \<Rightarrow> py_error + state" where
  "close_order s oid ord paid status' =
     require (0 \<le> paid \<and> paid \<le> od_price ord) invalid (
     bnd (unhold s (od_buyer ord) (od_price ord + od_buyer_reserve ord)) (\<lambda>s.
     bnd (unhold s (od_provider ord) (od_provider_reserve ord)) (\<lambda>s.
     let s = upd_acct (od_buyer ord) (\<lambda>r. r\<lparr>ac_available := ac_available r - paid\<rparr>) s in
     bnd (earn s (od_provider ord) paid) (\<lambda>s.
     Inr (put_order oid (ord\<lparr>od_status := status', od_paid := Some paid, od_buyer_reserve := 0,
            od_provider_reserve := 0, od_remaining_ops := 0\<rparr>) s)))))"

subsection \<open>Judge panels\<close>

definition eligible_judges :: "config \<Rightarrow> string \<Rightarrow> string \<Rightarrow> judge list" where
  "eligible_judges config buyer provider =
     filter (\<lambda>j. jd_peer_id j \<noteq> buyer \<and> jd_peer_id j \<noteq> provider) (cf_judges config)"

definition judge_panel :: "judge list \<Rightarrow> string \<Rightarrow> string \<Rightarrow> nat \<Rightarrow> py_error + judge list" where
  "judge_panel eligible buyer provider round_number =
     require (round_number = 0 \<or> round_number = 1) invalid (
     require (6 \<le> length eligible) (Raised ''exchange_judges_unavailable'') (
     let panel = take 3 (drop (3 * round_number) eligible) in
     require (list_all (\<lambda>j. jd_peer_id j \<noteq> buyer \<and> jd_peer_id j \<noteq> provider) panel)
       (Raised ''exchange_judge_conflict'') (
     Inr panel)))"

text \<open>\<open>judge_panel\<close> on an order (its terms hold the judges) and on the two parties of a proposal.\<close>

definition order_panel :: "order \<Rightarrow> nat \<Rightarrow> py_error + judge list" where
  "order_panel ord round_number = judge_panel (tm_judges (od_terms ord)) (od_buyer ord) (od_provider ord) round_number"

definition party_panel :: "config \<Rightarrow> string \<Rightarrow> string \<Rightarrow> nat \<Rightarrow> py_error + judge list" where
  "party_panel config buyer provider round_number =
     judge_panel (eligible_judges config buyer provider) buyer provider round_number"

text \<open>The judges of both panels, or none on a network without judges.\<close>

definition selected_judges :: "config \<Rightarrow> string \<Rightarrow> string \<Rightarrow> py_error + judge list" where
  "selected_judges config buyer provider =
     (if cf_judges config \<noteq> [] then
        bnd (party_panel config buyer provider 0) (\<lambda>p0.
        bnd (party_panel config buyer provider 1) (\<lambda>p1. Inr (p0 @ p1)))
      else Inr [])"

definition terms_for :: "config \<Rightarrow> proposal \<Rightarrow> listing \<Rightarrow> py_error + terms" where
  "terms_for config proposal listing =
     bnd (selected_judges config (pr_buyer proposal) (pr_provider proposal)) (\<lambda>selected.
     let buyer_fee = fst (fees selected); provider_fee = snd (fees selected) in
     Inr \<lparr>tm_proposal_id = pr_id proposal, tm_buyer = pr_buyer proposal, tm_provider = pr_provider proposal,
       tm_title = li_title listing, tm_category = li_category listing, tm_scope = pr_scope proposal,
       tm_price = pr_price proposal, tm_buyer_dispute_reserve = buyer_fee,
       tm_provider_dispute_reserve = provider_fee, tm_covenant = cf_covenant config,
       tm_appeal_window_s = cf_appeal_window_s config, tm_judges = selected,
       tm_delivery = ''encrypted digital text, at most 32 KiB'', tm_platform_commission = 0,
       tm_delivery_window_s = DELIVERY_WINDOW, tm_review_window_s = REVIEW_WINDOW,
       tm_case_window_s = CASE_WINDOW, tm_dispute_timeout_share_bps = 5000,
       tm_appeal_timeout = ''retain first ruling'',
       tm_evidence_policy = ''one immutable statement per party per round'',
       tm_delivery_revisions = 3\<rparr>)"

subsection \<open>JSON of orders; the two commitments\<close>

definition terms_json :: "terms \<Rightarrow> json" where
  "terms_json t = JObj [(''proposal_id'', JStr (tm_proposal_id t)), (''buyer'', JStr (tm_buyer t)),
     (''provider'', JStr (tm_provider t)), (''title'', JStr (tm_title t)),
     (''category'', JStr (tm_category t)), (''scope'', JStr (tm_scope t)), (''price'', JInt (tm_price t)),
     (''buyer_dispute_reserve'', JInt (tm_buyer_dispute_reserve t)),
     (''provider_dispute_reserve'', JInt (tm_provider_dispute_reserve t)),
     (''covenant'', tm_covenant t), (''appeal_window_s'', JInt (tm_appeal_window_s t)),
     (''judges'', JArr (map judge_json (tm_judges t))), (''delivery'', JStr (tm_delivery t)),
     (''platform_commission'', JInt (tm_platform_commission t)),
     (''delivery_window_s'', JInt (tm_delivery_window_s t)),
     (''review_window_s'', JInt (tm_review_window_s t)), (''case_window_s'', JInt (tm_case_window_s t)),
     (''dispute_timeout_share_bps'', JInt (tm_dispute_timeout_share_bps t)),
     (''appeal_timeout'', JStr (tm_appeal_timeout t)), (''evidence_policy'', JStr (tm_evidence_policy t)),
     (''delivery_revisions'', JInt (tm_delivery_revisions t))]"

definition status_name :: "status \<Rightarrow> string" where
  "status_name s = (case s of Working \<Rightarrow> ''working'' | Delivered \<Rightarrow> ''delivered''
     | Disputed \<Rightarrow> ''disputed'' | Ruling_ready \<Rightarrow> ''ruling_ready'' | Accepted \<Rightarrow> ''accepted''
     | Refunded \<Rightarrow> ''refunded'' | Resolved \<Rightarrow> ''resolved'')"

definition evidence_json :: "(string, evidence) dict \<Rightarrow> json" where
  "evidence_json es = JObj (map (\<lambda>(p, e). (p, JObj [(''commitment'', JStr (ev_commitment e)),
     (''sealed'', ev_sealed e)])) es)"

text \<open>A key that may be absent from the dict; \<open>order.get(k)\<close> is null then.\<close>

definition opt_field :: "string \<Rightarrow> ('a \<Rightarrow> json) \<Rightarrow> 'a option \<Rightarrow> (string \<times> json) list" where
  "opt_field k f v = (case v of None \<Rightarrow> [] | Some x \<Rightarrow> [(k, f x)])"

definition opt_json :: "('a \<Rightarrow> json) \<Rightarrow> 'a option \<Rightarrow> json" where
  "opt_json f v = (case v of None \<Rightarrow> JNull | Some x \<Rightarrow> f x)"

definition order_json :: "order \<Rightarrow> json" where
  "order_json ord = JObj (
     [(''id'', JStr (od_id ord)), (''proposal_id'', JStr (od_proposal_id ord)),
      (''buyer'', JStr (od_buyer ord)), (''provider'', JStr (od_provider ord)),
      (''terms'', terms_json (od_terms ord)), (''price'', JInt (od_price ord)),
      (''buyer_reserve'', JInt (od_buyer_reserve ord)),
      (''provider_reserve'', JInt (od_provider_reserve ord)),
      (''status'', JStr (status_name (od_status ord))), (''evidence'', evidence_json (od_evidence ord)),
      (''refund_requests'', JArr (map JStr (od_refund_requests ord))),
      (''waivers'', JArr (map JStr (od_waivers ord))), (''created_at'', JInt (od_created_at ord)),
      (''delivery_until'', JInt (od_delivery_until ord)), (''remaining_ops'', JInt (od_remaining_ops ord)),
      (''delivery_revisions'', JInt (od_delivery_revisions ord))]
     @ opt_field ''review_until'' JInt (od_review_until ord)
     @ opt_field ''delivery_hash'' JStr (od_delivery_hash ord)
     @ opt_field ''delivery'' id (od_delivery ord)
     @ opt_field ''round'' (\<lambda>n. JInt (int n)) (od_round ord)
     @ opt_field ''case_until'' JInt (od_case_until ord)
     @ opt_field ''ruling_share'' JInt (od_ruling_share ord)
     @ opt_field ''rulings'' id (od_rulings ord)
     @ opt_field ''appeal_until'' JInt (od_appeal_until ord)
     @ opt_field ''paid'' JInt (od_paid ord))"

definition case_payload :: "config \<Rightarrow> order \<Rightarrow> nat \<Rightarrow> py_error + json" where
  "case_payload config ord round_number =
     bnd (opt_or KeyError (od_case_until ord)) (\<lambda>case_until.
     Inr (JObj [(''version'', JStr VERSION), (''kind'', JStr ''case''), (''order_id'', JStr (od_id ord)),
       (''round'', JInt (int round_number)), (''terms'', terms_json (od_terms ord)),
       (''delivery_hash'', JStr (case od_delivery_hash ord of None \<Rightarrow> [] | Some h \<Rightarrow> h)),
       (''deadline'', JInt case_until),
       (''previous_ruling_share'', if round_number = 1 then opt_json JInt (od_ruling_share ord) else JNull),
       (''evidence'', evidence_json (od_evidence ord)), (''covenant'', cf_covenant config)]))"

definition deadline :: "order \<Rightarrow> py_error + int" where
  "deadline ord = (case od_status ord of
     Working \<Rightarrow> Inr (od_delivery_until ord)
   | Delivered \<Rightarrow> opt_or KeyError (od_review_until ord)
   | Disputed \<Rightarrow> opt_or KeyError (od_case_until ord)
   | Ruling_ready \<Rightarrow> opt_or KeyError (od_appeal_until ord)
   | _ \<Rightarrow> Inl KeyError)"

definition order_commitment :: "crypto \<Rightarrow> order \<Rightarrow> string" where
  "order_commitment C ord = json_hash C (order_json ord)"

definition settlement_json :: "order \<Rightarrow> json" where
  "settlement_json ord = JObj [(''id'', JStr (od_id ord)), (''status'', JStr (status_name (od_status ord))),
     (''round'', opt_json (\<lambda>n. JInt (int n)) (od_round ord)), (''price'', JInt (od_price ord)),
     (''terms'', terms_json (od_terms ord)), (''delivery_hash'', opt_json JStr (od_delivery_hash ord)),
     (''delivery_until'', JInt (od_delivery_until ord)), (''review_until'', opt_json JInt (od_review_until ord)),
     (''case_until'', opt_json JInt (od_case_until ord)), (''appeal_until'', opt_json JInt (od_appeal_until ord)),
     (''ruling_share'', opt_json JInt (od_ruling_share ord)), (''rulings'', opt_json id (od_rulings ord))]"

definition settlement_commitment :: "crypto \<Rightarrow> order \<Rightarrow> string" where
  "settlement_commitment C ord = json_hash C (settlement_json ord)"

definition work_hash :: "crypto \<Rightarrow> config \<Rightarrow> string \<Rightarrow> string \<Rightarrow> string" where
  "work_hash C config job_id provider =
     json_hash C (JObj [(''job_id'', JStr job_id), (''provider'', JStr provider), (''manifest'', config_json config)])"

subsection \<open>Clock guards of a first vote\<close>

definition lookup_order :: "state \<Rightarrow> json \<Rightarrow> py_error + order option" where
  "lookup_order s value = (case jget ''order_id'' value of None \<Rightarrow> Inr None | Some j \<Rightarrow> dict_get (st_orders s) j)"

definition vote_deadlines :: "state \<Rightarrow> json \<Rightarrow> int \<Rightarrow> py_error + unit" where
  "vote_deadlines s command now =
     bnd (jitem ''action'' command) (\<lambda>action. bnd (jitem ''value'' command) (\<lambda>value.
     require (is_obj value) TypeError (
     bnd (lookup_order s value) (\<lambda>found. case found of None \<Rightarrow> Inr () | Some ord \<Rightarrow>
     if terminal (od_status ord) then Inr ()
     else
       bnd (in_strings action [''appeal'', ''dispute'', ''evidence'', ''rule'', ''deliver'']) (\<lambda>timed.
       bnd (if timed then bnd (deadline ord) (\<lambda>d. require (now < d) (Raised ''exchange_deadline_expired'') (Inr ()))
            else Inr ()) (\<lambda>_.
       bnd (if action = JStr ''deliver''
            then require (now < od_delivery_until ord) (Raised ''exchange_deadline_expired'') (Inr ())
            else Inr ()) (\<lambda>_.
       if action = JStr ''timeout'' \<or> (action = JStr ''finalize'' \<and> length (od_waivers ord) \<noteq> 2)
       then bnd (deadline ord) (\<lambda>d. require (d \<le> now) (Raised ''exchange_timeout_open'') (Inr ()))
       else Inr ())))))))"

end
