(* ===== verification/Exchange_Apply.thy ===== *)
theory Exchange_Apply
  imports Exchange_Rules
begin

section \<open>The exchange transition\<close>

text \<open>
  \<open>apply\<close> of \<open>src/rynmesh/exchange/protocol.py\<close>, one definition per action of its dispatch. A command
  is a signed JSON object; \<open>apply_cmd C s wire config timestamp\<close> is the next state or the exception.
  The source works on a deep copy and returns it, so an exception leaves the caller's state as it
  was: \<open>Inl\<close> carries no state. Each action receives the state in which the actor's account exists
  and, for an admission, has been counted.
\<close>

abbreviation unauthorized :: py_error where "unauthorized \<equiv> Raised ''exchange_unauthorized''"

subsection \<open>Account actions\<close>

definition act_profile :: "state \<Rightarrow> string \<Rightarrow> json \<Rightarrow> py_error + state" where
  "act_profile s owner value =
     require (keys_are value [''label'', ''encryption_key'']) invalid (
     bnd (text_check (jfield ''label'' value) 100 False) (\<lambda>label.
     bnd (key_check (jfield ''encryption_key'' value)) (\<lambda>encryption_key.
     let old = ac_encryption_key (acct s owner) in
     require (old = [] \<or> old = encryption_key) (Raised ''exchange_encryption_key_changed'') (
     Inr (upd_acct owner (\<lambda>r. r\<lparr>ac_label := label, ac_encryption_key := encryption_key\<rparr>) s)))))"

definition act_device :: "state \<Rightarrow> string \<Rightarrow> string \<Rightarrow> json \<Rightarrow> py_error + state" where
  "act_device s owner signer value =
     require (keys_are value [''peer_id'', ''allowed''] \<and> signer = owner) invalid (
     bnd (key_check (jfield ''peer_id'' value)) (\<lambda>peer.
     case jfield ''allowed'' value of
       JBool True \<Rightarrow>
         require (length (ac_devices (acct s owner)) < 10) (Raised ''exchange_capacity'') (
         Inr (upd_acct owner (\<lambda>r. if peer \<in> set (ac_devices r) then r
                                   else r\<lparr>ac_devices := ac_devices r @ [peer]\<rparr>) s))
     | JBool False \<Rightarrow> Inr (upd_acct owner (\<lambda>r. r\<lparr>ac_devices := remove1 peer (ac_devices r)\<rparr>) s)
     | _ \<Rightarrow> Inl invalid))"

definition act_transfer :: "state \<Rightarrow> string \<Rightarrow> json \<Rightarrow> py_error + state" where
  "act_transfer s owner value =
     require (keys_are value [''recipient'', ''amount'']) invalid (
     bnd (key_check (jfield ''recipient'' value)) (\<lambda>recipient.
     let s = (if recipient \<noteq> owner then touch recipient s else s) in
     require (recipient \<noteq> owner \<and> ac_encryption_key (acct s recipient) \<noteq> []) (Raised ''exchange_recipient_invalid'') (
     bnd (integer (jfield ''amount'' value) MAX_MINOR) (\<lambda>paid.
     require (0 < paid \<and> paid \<le> ac_available (acct s owner)) (Raised ''exchange_insufficient_balance'') (
     earn (upd_acct owner (\<lambda>r. r\<lparr>ac_available := ac_available r - paid\<rparr>) s) recipient paid)))))"

subsection \<open>Listings and proposals\<close>

definition act_listing :: "state \<Rightarrow> string \<Rightarrow> string \<Rightarrow> json \<Rightarrow> int \<Rightarrow> py_error + state" where
  "act_listing s owner op_id value timestamp =
     require (keys_are value [''kind'', ''category'', ''title'', ''description'', ''price'']) invalid (
     bnd (in_strings (jfield ''kind'' value) [''offer'', ''request'']) (\<lambda>known.
     require known invalid (
     require (ac_encryption_key (acct s owner) \<noteq> []) (Raised ''exchange_profile_required'') (
     bnd (text_check (jfield ''category'' value) 100 False) (\<lambda>category.
     bnd (text_check (jfield ''title'' value) 200 False) (\<lambda>title.
     bnd (text_check (jfield ''description'' value) 4000 False) (\<lambda>description.
     bnd (integer (jfield ''price'' value) MAX_MINOR) (\<lambda>price.
     Inr (s\<lparr>st_listings := dict_put op_id \<lparr>li_id = op_id, li_owner = owner, li_kind = jstr ''kind'' value,
       li_category = category, li_title = title, li_description = description, li_price = price,
       li_active = True, li_created_at = timestamp\<rparr> (st_listings s)\<rparr>)))))))))"

definition act_withdraw :: "state \<Rightarrow> string \<Rightarrow> json \<Rightarrow> py_error + state" where
  "act_withdraw s owner value =
     require (keys_are value [''listing_id'']) invalid (
     bnd (dict_get (st_listings s) (jfield ''listing_id'' value)) (\<lambda>found.
     case found of None \<Rightarrow> Inl unauthorized | Some listing \<Rightarrow>
     require (li_owner listing = owner) unauthorized (
     require (li_active listing) (Raised ''exchange_listing_closed'') (
     Inr (s\<lparr>st_listings := dict_put (jstr ''listing_id'' value) (listing\<lparr>li_active := False\<rparr>) (st_listings s)\<rparr>)))))"

text \<open>\<open>propose\<close> once the listing has been found.\<close>

definition propose_on :: "config \<Rightarrow> state \<Rightarrow> string \<Rightarrow> string \<Rightarrow> json \<Rightarrow> listing \<Rightarrow> py_error + state" where
  "propose_on config s owner op_id value listing =
     require (li_active listing) (Raised ''exchange_listing_unavailable'') (
     require (ac_encryption_key (acct s owner) \<noteq> [] \<and> li_owner listing \<noteq> owner) (Raised ''exchange_profile_required'') (
     let buyer = (if li_kind listing = ''request'' then li_owner listing else owner);
         provider = (if li_kind listing = ''request'' then owner else li_owner listing) in
     bnd (if cf_judges config \<noteq> [] then
            bnd (party_panel config buyer provider 0) (\<lambda>_. bnd (party_panel config buyer provider 1) (\<lambda>_. Inr ()))
          else Inr ()) (\<lambda>_.
     bnd (text_check (jfield ''scope'' value) 4000 False) (\<lambda>scope.
     bnd (integer (jfield ''price'' value) MAX_MINOR) (\<lambda>price.
     Inr (s\<lparr>st_proposals := dict_put op_id \<lparr>pr_id = op_id, pr_listing_id = li_id listing, pr_buyer = buyer,
       pr_provider = provider, pr_proposed_by = owner, pr_scope = scope, pr_price = price,
       pr_status = ''offered''\<rparr> (st_proposals s)\<rparr>))))))"

definition act_propose :: "config \<Rightarrow> state \<Rightarrow> string \<Rightarrow> string \<Rightarrow> json \<Rightarrow> py_error + state" where
  "act_propose config s owner op_id value =
     require (keys_are value [''listing_id'', ''scope'', ''price'']) invalid (
     bnd (dict_get (st_listings s) (jfield ''listing_id'' value)) (\<lambda>found.
     case found of None \<Rightarrow> Inl (Raised ''exchange_listing_unavailable'')
       | Some listing \<Rightarrow> propose_on config s owner op_id value listing))"

definition open_orders :: "state \<Rightarrow> order list" where
  "open_orders s = filter is_open (dict_vals (st_orders s))"

definition new_order :: "string \<Rightarrow> proposal \<Rightarrow> terms \<Rightarrow> int \<Rightarrow> order" where
  "new_order op_id proposal terms timestamp = \<lparr>od_id = op_id, od_proposal_id = pr_id proposal,
     od_buyer = pr_buyer proposal, od_provider = pr_provider proposal, od_terms = terms,
     od_price = pr_price proposal, od_buyer_reserve = tm_buyer_dispute_reserve terms,
     od_provider_reserve = tm_provider_dispute_reserve terms, od_status = Working, od_evidence = [],
     od_refund_requests = [], od_waivers = [], od_created_at = timestamp,
     od_delivery_until = timestamp + tm_delivery_window_s terms,
     od_remaining_ops = ORDER_OPERATION_RESERVE, od_delivery_revisions = 0, od_review_until = None,
     od_delivery_hash = None, od_delivery = None, od_round = None, od_case_until = None,
     od_ruling_share = None, od_rulings = None, od_appeal_until = None, od_paid = None\<rparr>"

text \<open>\<open>agree\<close> once the proposal has been found.\<close>

definition agree_on :: "crypto \<Rightarrow> config \<Rightarrow> state \<Rightarrow> string \<Rightarrow> string \<Rightarrow> json \<Rightarrow> int \<Rightarrow> proposal \<Rightarrow> py_error + state" where
  "agree_on C config s owner op_id value timestamp proposal =
     require (pr_status proposal = ''offered'') (Raised ''exchange_proposal_unavailable'') (
     require ((owner = pr_buyer proposal \<or> owner = pr_provider proposal) \<and> owner \<noteq> pr_proposed_by proposal) unauthorized (
     bnd (opt_or KeyError (map_of (st_listings s) (pr_listing_id proposal))) (\<lambda>listing.
     require (li_active listing) (Raised ''exchange_listing_unavailable'') (
     require (length (filter (\<lambda>o'. od_buyer o' \<in> {pr_buyer proposal, pr_provider proposal}
                \<or> od_provider o' \<in> {pr_buyer proposal, pr_provider proposal}) (open_orders s)) < 100)
       (Raised ''exchange_open_orders_limit'') (
     bnd (terms_for config proposal listing) (\<lambda>terms.
     require (jfield ''terms_hash'' value = JStr (json_hash C (terms_json terms))) (Raised ''exchange_terms_changed'') (
     require (int (length (open_orders s)) < MAX_OPEN_ORDERS) (Raised ''exchange_open_orders_limit'') (
     bnd (hold s (pr_buyer proposal) (pr_price proposal + tm_buyer_dispute_reserve terms)) (\<lambda>s.
     bnd (hold s (pr_provider proposal) (tm_provider_dispute_reserve terms)) (\<lambda>s.
     let s = s\<lparr>st_proposals := dict_put (jstr ''proposal_id'' value) (proposal\<lparr>pr_status := ''accepted''\<rparr>) (st_proposals s)\<rparr> in
     Inr (put_order op_id (new_order op_id proposal terms timestamp) s)))))))))))"

definition act_agree :: "crypto \<Rightarrow> config \<Rightarrow> state \<Rightarrow> string \<Rightarrow> string \<Rightarrow> json \<Rightarrow> int \<Rightarrow> py_error + state" where
  "act_agree C config s owner op_id value timestamp =
     require (keys_are value [''proposal_id'', ''terms_hash'']) invalid (
     bnd (dict_get (st_proposals s) (jfield ''proposal_id'' value)) (\<lambda>found.
     case found of None \<Rightarrow> Inl (Raised ''exchange_proposal_unavailable'')
       | Some proposal \<Rightarrow> agree_on C config s owner op_id value timestamp proposal))"

subsection \<open>Work rewards\<close>

fun reward_witnesses :: "crypto \<Rightarrow> config \<Rightarrow> string \<Rightarrow> json \<Rightarrow> string list \<Rightarrow> json list \<Rightarrow> py_error + string list" where
  "reward_witnesses C config owner expected witnesses [] = Inr witnesses"
| "reward_witnesses C config owner expected witnesses (wire # wires) =
     bnd (signature C wire) (\<lambda>receipt.
     require (sp_public_key receipt \<in> set (validator_ids config) \<and> sp_public_key receipt \<noteq> owner) invalid (
     require (keys_are (sp_payload receipt) [''version'', ''kind'', ''network'', ''job_id'', ''provider'', ''work_hash'']) invalid (
     require (py_eq (sp_payload receipt) expected) invalid (
     reward_witnesses C config owner expected (List.insert (sp_public_key receipt) witnesses) wires))))"

definition act_reward :: "crypto \<Rightarrow> config \<Rightarrow> state \<Rightarrow> string \<Rightarrow> json \<Rightarrow> json \<Rightarrow> py_error + state" where
  "act_reward C config s owner network value =
     require (keys_are value [''job_id'', ''receipts'']) invalid (
     bnd (identifier_check (jfield ''job_id'' value)) (\<lambda>job_id.
     require (map_of (st_rewards s) job_id = None) (Raised ''exchange_reward_duplicate'') (
     require (owner \<notin> set (dict_vals (st_rewards s))) (Raised ''exchange_registry_already_rewarded'') (
     let receipts = jfield ''receipts'' value in
     require (is_list receipts \<and> length (jlist receipts) \<le> 8) invalid (
     bnd (reward_witnesses C config owner
            (JObj [(''version'', JStr VERSION), (''kind'', JStr ''registry-work''), (''network'', network),
              (''job_id'', JStr job_id), (''provider'', JStr owner),
              (''work_hash'', JStr (work_hash C config job_id owner))]) [] (jlist receipts)) (\<lambda>witnesses.
     require (quorum config \<le> length witnesses) (Raised ''exchange_work_unverified'') (
     require (st_issued s + cf_work_reward config \<le> cf_issuance_limit config) (Raised ''exchange_issuance_exhausted'') (
     bnd (earn s owner (cf_work_reward config)) (\<lambda>s.
     Inr (s\<lparr>st_issued := st_issued s + cf_work_reward config,
            st_rewards := dict_put job_id owner (st_rewards s)\<rparr>))))))))))"

subsection \<open>Order actions\<close>

text \<open>
  Each works on \<open>oid\<close>, the key of the order in the dict, and \<open>ord\<close>, the order with its operation
  already charged. \<open>value\<close> is the command's value without \<open>reviewed_order\<close>.
\<close>

definition act_deliver :: "state \<Rightarrow> string \<Rightarrow> string \<Rightarrow> order \<Rightarrow> json \<Rightarrow> int \<Rightarrow> py_error + state" where
  "act_deliver s owner oid ord value timestamp =
     require (keys_are value [''order_id'', ''hash'', ''sealed'']) invalid (
     require (owner = od_provider ord \<and> (od_status ord = Working \<or> od_status ord = Delivered)) unauthorized (
     require (timestamp < od_delivery_until ord) (Raised ''exchange_delivery_expired'') (
     require (od_delivery_revisions ord < 3) (Raised ''exchange_delivery_revision_limit'') (
     let ord = ord\<lparr>od_delivery_revisions := od_delivery_revisions ord + 1\<rparr>;
         ord = (if od_status ord = Working
                then ord\<lparr>od_review_until := Some (timestamp + tm_review_window_s (od_terms ord))\<rparr> else ord) in
     bnd (opt_or KeyError (od_review_until ord)) (\<lambda>review_until.
     require (timestamp < review_until) (Raised ''exchange_review_expired'') (
     bnd (commitment_check (jfield ''hash'' value)) (\<lambda>h.
     let sealed = jfield ''sealed'' value in
     require (is_obj sealed \<and> keys_are sealed [''nonce'', ''ciphertext'']) invalid (
     bnd (text_check (jfield ''nonce'' sealed) 100 False) (\<lambda>_.
     bnd (text_check (jfield ''ciphertext'' sealed) (64 * 1024) False) (\<lambda>_.
     Inr (put_order oid (ord\<lparr>od_status := Delivered, od_delivery_hash := Some h, od_delivery := Some sealed\<rparr>) s)))))))))))"

definition act_accept :: "state \<Rightarrow> string \<Rightarrow> string \<Rightarrow> order \<Rightarrow> json \<Rightarrow> py_error + state" where
  "act_accept s owner oid ord value =
     require (keys_are value [''order_id'', ''delivery_hash''] \<and> owner = od_buyer ord \<and> od_status ord = Delivered) unauthorized (
     bnd (opt_or KeyError (od_delivery_hash ord)) (\<lambda>h.
     require (jfield ''delivery_hash'' value = JStr h) (Raised ''exchange_delivery_changed'') (
     close_order s oid ord (od_price ord) Accepted)))"

definition act_refund :: "state \<Rightarrow> string \<Rightarrow> string \<Rightarrow> order \<Rightarrow> json \<Rightarrow> py_error + state" where
  "act_refund s owner oid ord value =
     require (keys_are value [''order_id'']) invalid (
     require (owner \<notin> set (od_refund_requests ord)) (Raised ''exchange_refund_already_requested'') (
     let ord = ord\<lparr>od_refund_requests := od_refund_requests ord @ [owner]\<rparr> in
     if length (od_refund_requests ord) = 2 then close_order s oid ord 0 Refunded
     else Inr (put_order oid ord s)))"

definition act_dispute :: "state \<Rightarrow> string \<Rightarrow> string \<Rightarrow> order \<Rightarrow> json \<Rightarrow> int \<Rightarrow> py_error + state" where
  "act_dispute s owner oid ord value timestamp =
     require (keys_are value [''order_id''] \<and> (od_status ord = Working \<or> od_status ord = Delivered))
       (Raised ''exchange_dispute_state'') (
     bnd (deadline ord) (\<lambda>d.
     require (timestamp < d) (Raised ''exchange_case_expired'') (
     bnd (order_panel ord 0) (\<lambda>_. bnd (order_panel ord 1) (\<lambda>_.
     Inr (put_order oid (ord\<lparr>od_status := Disputed, od_round := Some 0, od_evidence := [], od_waivers := [],
            od_case_until := Some (timestamp + tm_case_window_s (od_terms ord))\<rparr>) s))))))"

text \<open>\<open>set(entry)\<close> of a value that is not a dict: a TypeError unless it is a string or a hashable list.\<close>

definition sealed_entry :: "json \<Rightarrow> py_error + unit" where
  "sealed_entry entry = (case entry of
     JObj _ \<Rightarrow> require (keys_are entry [''nonce'', ''ciphertext'']) invalid (
        bnd (text_check (jfield ''nonce'' entry) 100 False) (\<lambda>_.
        bnd (text_check (jfield ''ciphertext'' entry) (64 * 1024) False) (\<lambda>_. Inr ())))
   | JArr xs \<Rightarrow> require (list_all hashable xs) TypeError (
        require (set xs = {JStr ''nonce'', JStr ''ciphertext''}) invalid (Inl TypeError))
   | JStr _ \<Rightarrow> Inl invalid
   | _ \<Rightarrow> Inl TypeError)"

definition act_evidence :: "state \<Rightarrow> string \<Rightarrow> string \<Rightarrow> order \<Rightarrow> json \<Rightarrow> int \<Rightarrow> py_error + state" where
  "act_evidence s owner oid ord value timestamp =
     require (keys_are value [''order_id'', ''commitment'', ''sealed'']) invalid (
     require (od_status ord = Disputed) invalid (
     bnd (opt_or KeyError (od_case_until ord)) (\<lambda>case_until.
     require (timestamp < case_until) (Raised ''exchange_case_expired'') (
     require (map_of (od_evidence ord) owner = None) (Raised ''exchange_evidence_locked'') (
     bnd (commitment_check (jfield ''commitment'' value)) (\<lambda>commitment.
     bnd (opt_or KeyError (od_round ord)) (\<lambda>round_number.
     bnd (order_panel ord round_number) (\<lambda>panel.
     let sealed = jfield ''sealed'' value in
     require (is_obj sealed \<and> keys_are sealed (map jd_peer_id panel)) invalid (
     bnd (check_all sealed_entry (jvals sealed)) (\<lambda>_.
     Inr (put_order oid (ord\<lparr>od_evidence :=
       dict_put owner \<lparr>ev_commitment = commitment, ev_sealed = sealed\<rparr> (od_evidence ord)\<rparr>) s)))))))))))"

text \<open>The loop over the rulings: the judges seen so far and their shares, oldest first.\<close>

fun read_rulings :: "string \<Rightarrow> crypto \<Rightarrow> judge list \<Rightarrow> json \<Rightarrow> string \<Rightarrow> string list \<Rightarrow> int list \<Rightarrow> json list \<Rightarrow> py_error + int list" where
  "read_rulings version C panel network expected_hash seen shares [] = Inr shares"
| "read_rulings version C panel network expected_hash seen shares (wire # wires) =
     bnd (signature C wire) (\<lambda>receipt.
     case map_of (map (\<lambda>j. (jd_peer_id j, j)) (rev panel)) (sp_public_key receipt) of
       None \<Rightarrow> Inl invalid
     | Some judge \<Rightarrow>
       require (sp_public_key receipt \<notin> set seen) invalid (
       let ruling = sp_payload receipt in
       require (keys_are ruling [''version'', ''kind'', ''network'', ''case_hash'', ''model'', ''share_bps'', ''reason_code'']) invalid (
       require (jfield ''version'' ruling = JStr version \<and> jfield ''kind'' ruling = JStr ''ruling''
                \<and> py_eq (jfield ''network'' ruling) network) invalid (
       require (jfield ''case_hash'' ruling = JStr expected_hash \<and> jfield ''model'' ruling = JStr (jd_model judge)) invalid (
       bnd (in_strings (jfield ''reason_code'' ruling)
              [''delivery_matches'', ''delivery_missing'', ''partial_delivery'', ''terms_not_met'']) (\<lambda>known.
       require known invalid (
       bnd (integer (jfield ''share_bps'' ruling) 10000) (\<lambda>share.
       read_rulings version C panel network expected_hash (sp_public_key receipt # seen) (shares @ [share]) wires))))))))"

fun earn_all :: "state \<Rightarrow> judge list \<Rightarrow> py_error + state" where
  "earn_all s [] = Inr s"
| "earn_all s (j # js) = bnd (earn s (jd_peer_id j) (jd_fee j)) (\<lambda>s. earn_all s js)"

definition act_rule :: "crypto \<Rightarrow> config \<Rightarrow> state \<Rightarrow> string \<Rightarrow> order \<Rightarrow> json \<Rightarrow> json \<Rightarrow> int \<Rightarrow> py_error + state" where
  "act_rule C config s oid ord network value timestamp =
     require (keys_are value [''order_id'', ''rulings''] \<and> od_status ord = Disputed) invalid (
     require (set (map fst (od_evidence ord)) = {od_buyer ord, od_provider ord}) (Raised ''exchange_evidence_incomplete'') (
     bnd (opt_or KeyError (od_case_until ord)) (\<lambda>case_until.
     require (timestamp < case_until) (Raised ''exchange_case_expired'') (
     bnd (opt_or KeyError (od_round ord)) (\<lambda>round_number.
     bnd (order_panel ord round_number) (\<lambda>panel.
     bnd (case_payload config ord round_number) (\<lambda>payload.
     let rulings = jfield ''rulings'' value in
     require (is_list rulings \<and> length (jlist rulings) = 3) invalid (
     bnd (read_rulings VERSION C panel network (json_hash C payload) [] [] (jlist rulings)) (\<lambda>shares.
     let sorted_shares = sort shares in
     require (last sorted_shares - hd sorted_shares \<le> 1000) (Raised ''exchange_models_disagree'') (
     let paid_fee = judge_fees panel; buyer_fee = (paid_fee + 1) div 2; provider_fee = paid_fee div 2 in
     require (buyer_fee \<le> od_buyer_reserve ord \<and> provider_fee \<le> od_provider_reserve ord) invalid (
     let s = upd_acct (od_buyer ord) (\<lambda>r. r\<lparr>ac_held := ac_held r - buyer_fee\<rparr>) s;
         s = upd_acct (od_provider ord) (\<lambda>r. r\<lparr>ac_held := ac_held r - provider_fee\<rparr>) s in
     bnd (earn_all s panel) (\<lambda>s.
     Inr (put_order oid (ord\<lparr>od_buyer_reserve := od_buyer_reserve ord - buyer_fee,
       od_provider_reserve := od_provider_reserve ord - provider_fee, od_status := Ruling_ready,
       od_ruling_share := Some (sorted_shares ! 1), od_rulings := Some rulings,
       od_appeal_until := Some (timestamp + cf_appeal_window_s config), od_waivers := []\<rparr>) s)))))))))))))"

definition act_appeal :: "state \<Rightarrow> string \<Rightarrow> string \<Rightarrow> order \<Rightarrow> json \<Rightarrow> int \<Rightarrow> py_error + state" where
  "act_appeal s owner oid ord value timestamp =
     require (keys_are value [''order_id''] \<and> od_status ord = Ruling_ready) invalid (
     bnd (opt_or KeyError (od_round ord)) (\<lambda>round_number.
     require (round_number = 0 \<and> owner \<notin> set (od_waivers ord)) invalid (
     bnd (opt_or KeyError (od_appeal_until ord)) (\<lambda>appeal_until.
     require (timestamp < appeal_until) (Raised ''exchange_appeal_expired'') (
     Inr (put_order oid (ord\<lparr>od_status := Disputed, od_round := Some 1, od_evidence := [], od_waivers := [],
            od_case_until := Some (timestamp + tm_case_window_s (od_terms ord))\<rparr>) s))))))"

definition act_waive :: "crypto \<Rightarrow> state \<Rightarrow> string \<Rightarrow> string \<Rightarrow> order \<Rightarrow> json \<Rightarrow> py_error + state" where
  "act_waive C s owner oid ord value =
     require (jget ''settlement_hash'' value = Some (JStr (settlement_commitment C ord))) (Raised ''exchange_settlement_changed'') (
     require (keys_are value [''order_id'', ''settlement_hash''] \<and> od_status ord = Ruling_ready) invalid (
     require (owner \<notin> set (od_waivers ord)) (Raised ''exchange_waiver_already_requested'') (
     Inr (put_order oid (ord\<lparr>od_waivers := od_waivers ord @ [owner]\<rparr>) s))))"

definition act_finalize :: "crypto \<Rightarrow> state \<Rightarrow> string \<Rightarrow> order \<Rightarrow> json \<Rightarrow> int \<Rightarrow> py_error + state" where
  "act_finalize C s oid ord value timestamp =
     require (jget ''settlement_hash'' value = Some (JStr (settlement_commitment C ord))) (Raised ''exchange_settlement_changed'') (
     require (keys_are value [''order_id'', ''settlement_hash''] \<and> od_status ord = Ruling_ready) invalid (
     bnd (opt_or KeyError (od_appeal_until ord)) (\<lambda>appeal_until.
     require (appeal_until \<le> timestamp \<or> length (od_waivers ord) = 2) (Raised ''exchange_appeal_open'') (
     bnd (opt_or KeyError (od_ruling_share ord)) (\<lambda>share.
     close_order s oid ord (od_price ord * share div 10000) Resolved)))))"

definition timeout_share :: "order \<Rightarrow> py_error + int" where
  "timeout_share ord =
     (if od_status ord = Ruling_ready \<or> od_round ord = Some 1 then opt_or KeyError (od_ruling_share ord)
      else if od_delivery_hash ord \<noteq> None \<and> od_delivery_hash ord \<noteq> Some []
      then Inr (tm_dispute_timeout_share_bps (od_terms ord))
      else Inr 0)"

definition act_timeout :: "crypto \<Rightarrow> state \<Rightarrow> string \<Rightarrow> order \<Rightarrow> json \<Rightarrow> int \<Rightarrow> py_error + state" where
  "act_timeout C s oid ord value timestamp =
     require (keys_are value [''order_id'', ''settlement_hash'']) invalid (
     require (jfield ''settlement_hash'' value = JStr (settlement_commitment C ord)) (Raised ''exchange_settlement_changed'') (
     bnd (deadline ord) (\<lambda>d.
     require (d \<le> timestamp) (Raised ''exchange_timeout_open'') (
     if od_status ord = Working then close_order s oid ord 0 Refunded
     else if od_status ord = Delivered then close_order s oid ord (od_price ord) Accepted
     else bnd (timeout_share ord) (\<lambda>share. close_order s oid ord (od_price ord * share div 10000) Resolved)))))"

subsection \<open>Dispatch\<close>

definition order_dispatch :: "crypto \<Rightarrow> config \<Rightarrow> state \<Rightarrow> string \<Rightarrow> string \<Rightarrow> order \<Rightarrow> json \<Rightarrow> string \<Rightarrow> json \<Rightarrow> int \<Rightarrow> py_error + state" where
  "order_dispatch C config s owner oid ord network action value timestamp =
     (if action = ''deliver'' then act_deliver s owner oid ord value timestamp
      else if action = ''accept'' then act_accept s owner oid ord value
      else if action = ''refund'' then act_refund s owner oid ord value
      else if action = ''dispute'' then act_dispute s owner oid ord value timestamp
      else if action = ''evidence'' then act_evidence s owner oid ord value timestamp
      else if action = ''rule'' then act_rule C config s oid ord network value timestamp
      else if action = ''appeal'' then act_appeal s owner oid ord value timestamp
      else if action = ''waive'' then act_waive C s owner oid ord value
      else if action = ''finalize'' then act_finalize C s oid ord value timestamp
      else if action = ''timeout'' then act_timeout C s oid ord value timestamp
      else Inl (Raised ''exchange_action_invalid''))"

definition act_order :: "crypto \<Rightarrow> config \<Rightarrow> state \<Rightarrow> string \<Rightarrow> json \<Rightarrow> json \<Rightarrow> json \<Rightarrow> int \<Rightarrow> py_error + state" where
  "act_order C config s owner network action value timestamp =
     bnd (lookup_order s value) (\<lambda>found.
     case found of None \<Rightarrow> Inl (Raised ''exchange_order_unavailable'') | Some ord \<Rightarrow>
     require (owner = od_buyer ord \<or> owner = od_provider ord) (Raised ''exchange_order_unavailable'') (
     require (jget ''reviewed_order'' value = Some (JStr (order_commitment C ord))) (Raised ''exchange_order_changed'') (
     require (is_open ord) (Raised ''exchange_order_closed'') (
     bnd (in_strings action ORDER_ACTIONS) (\<lambda>known.
     require known (Raised ''exchange_action_invalid'') (
     require (0 < od_remaining_ops ord) (Raised ''exchange_order_capacity'') (
     order_dispatch C config s owner (jstr ''order_id'' value)
       (ord\<lparr>od_remaining_ops := od_remaining_ops ord - 1\<rparr>) network (py_str action)
       (drop_key ''reviewed_order'' value) timestamp)))))))"

definition dispatch :: "crypto \<Rightarrow> config \<Rightarrow> state \<Rightarrow> string \<Rightarrow> string \<Rightarrow> string \<Rightarrow> json \<Rightarrow> json \<Rightarrow> json \<Rightarrow> int \<Rightarrow> py_error + state" where
  "dispatch C config s owner signer op_id network action value timestamp =
     (if action = JStr ''profile'' then act_profile s owner value
      else if action = JStr ''device'' then act_device s owner signer value
      else if action = JStr ''transfer'' then act_transfer s owner value
      else if action = JStr ''listing'' then act_listing s owner op_id value timestamp
      else if action = JStr ''withdraw'' then act_withdraw s owner value
      else if action = JStr ''propose'' then act_propose config s owner op_id value
      else if action = JStr ''agree'' then act_agree C config s owner op_id value timestamp
      else if action = JStr ''reward'' then act_reward C config s owner network value
      else act_order C config s owner network action value timestamp)"

definition reserved_ops :: "state \<Rightarrow> int" where
  "reserved_ops s = dsum (\<lambda>o'. if is_open o' then od_remaining_ops o' else 0) (st_orders s)"

text \<open>The capacity checks of an action that is not an order action.\<close>

definition admit :: "state \<Rightarrow> string \<Rightarrow> json \<Rightarrow> py_error + state" where
  "admit s owner action =
     bnd (in_strings action ORDER_ACTIONS) (\<lambda>order_action.
     if order_action then Inr s
     else
       let needed = 1 + (if action = JStr ''agree'' then ORDER_OPERATION_RESERVE else 0) in
       require (int (length (st_operations s)) + reserved_ops s + needed \<le> MAX_OPERATIONS)
         (Raised ''exchange_admission_exhausted'') (
       require (ac_admissions (acct s owner) < MAX_ACCOUNT_ADMISSIONS) (Raised ''exchange_account_quota'') (
       Inr (upd_acct owner (\<lambda>r. r\<lparr>ac_admissions := ac_admissions r + 1\<rparr>) s))))"

definition total_supply :: "state \<Rightarrow> int" where
  "total_supply s = dsum (\<lambda>a. ac_available a + ac_held a) (st_accounts s)"

definition balances_ok :: "state \<Rightarrow> bool" where
  "balances_ok s \<longleftrightarrow> list_all (\<lambda>a. 0 \<le> ac_available a \<and> 0 \<le> ac_held a) (dict_vals (st_accounts s))"

text \<open>The tail of \<open>apply\<close>: the nonce, the operation log, the clock, and the two invariant checks.\<close>

definition record_op :: "state \<Rightarrow> string \<Rightarrow> string \<Rightarrow> string \<Rightarrow> int \<Rightarrow> state" where
  "record_op s owner op_id digest timestamp =
     (upd_acct owner (\<lambda>r. r\<lparr>ac_nonce := ac_nonce r + 1\<rparr>) s)
       \<lparr>st_operations := dict_put op_id digest (st_operations s), st_time := timestamp\<rparr>"

definition final_checks :: "state \<Rightarrow> py_error + state" where
  "final_checks s =
     require (total_supply s = st_issued s) (Raised ''exchange_supply_invariant'') (
     require (balances_ok s) (Raised ''exchange_balance_invariant'') (Inr s))"

definition apply_body :: "crypto \<Rightarrow> config \<Rightarrow> state \<Rightarrow> string \<Rightarrow> string \<Rightarrow> string \<Rightarrow> json \<Rightarrow> json \<Rightarrow> json \<Rightarrow> string \<Rightarrow> int \<Rightarrow> py_error + state" where
  "apply_body C config s owner signer op_id network action value digest timestamp =
     bnd (admit s owner action) (\<lambda>s.
     bnd (dispatch C config s owner signer op_id network action value timestamp) (\<lambda>s.
     Inr (record_op s owner op_id digest timestamp)))"

definition apply_cmd :: "crypto \<Rightarrow> state \<Rightarrow> json \<Rightarrow> config \<Rightarrow> int \<Rightarrow> py_error + state" where
  "apply_cmd C s command_wire config timestamp =
     bnd (signature C command_wire) (\<lambda>signed.
     let cmd = sp_payload signed in
     require (keys_are cmd [''version'', ''network'', ''id'', ''actor'', ''nonce'', ''action'', ''value'']) invalid (
     require (jfield ''version'' cmd = JStr VERSION \<and> jfield ''network'' cmd = JStr (network_id C config)) invalid (
     bnd (identifier_check (jfield ''id'' cmd)) (\<lambda>op_id.
     bnd (key_check (jfield ''actor'' cmd)) (\<lambda>owner.
     let s = touch owner s in
     require (sp_public_key signed = owner \<or> sp_public_key signed \<in> set (ac_devices (acct s owner))) unauthorized (
     require (map_of (st_operations s) op_id = None) (Raised ''exchange_operation_exists'') (
     bnd (integer (jfield ''nonce'' cmd) MAX_MINOR) (\<lambda>nonce.
     require (nonce = ac_nonce (acct s owner) + 1) (Raised ''exchange_nonce_changed'') (
     require (st_time s \<le> timestamp) invalid (
     require (is_obj (jfield ''value'' cmd)) invalid (
     bnd (apply_body C config s owner (sp_public_key signed) op_id (jfield ''network'' cmd)
            (jfield ''action'' cmd) (jfield ''value'' cmd) (json_hash C command_wire) timestamp)
       final_checks)))))))))))"

end
