(* ===== verification/Exchange_Money.thy ===== *)
theory Exchange_Money
  imports Exchange_Apply
begin

section \<open>Money: escrow and supply\<close>

text \<open>
  The invariant of the accounts, independent of the run-time checks at the end of \<open>apply\<close>: what is
  held on an account is exactly what its open orders lock up (\<open>escrow\<close>), no balance is negative, and
  the total of all balances is what was issued. Each primitive of \<open>Exchange_Rules\<close> has its lemma
  here, and so has the closing of an order, which never lacks funds.
\<close>

subsection \<open>Primitives\<close>

lemma acct_upd [simp]: "acct (upd_acct o1 f s) p = (if p = o1 then f (acct s o1) else acct s p)"
  by (simp add: acct_def upd_acct_def)

lemma acct_put_order [simp]: "acct (put_order oid ord s) p = acct s p"
  by (simp add: acct_def put_order_def)

lemma acct_more [simp]:
  "acct (s\<lparr>st_listings := l\<rparr>) p = acct s p" "acct (s\<lparr>st_proposals := q\<rparr>) p = acct s p"
  "acct (s\<lparr>st_operations := os\<rparr>) p = acct s p" "acct (s\<lparr>st_time := t\<rparr>) p = acct s p"
  "acct (s\<lparr>st_issued := i\<rparr>) p = acct s p" "acct (s\<lparr>st_rewards := w\<rparr>) p = acct s p"
  by (simp_all add: acct_def)

lemma upd_acct_frame [simp]:
  "st_orders (upd_acct o1 f s) = st_orders s" "st_issued (upd_acct o1 f s) = st_issued s"
  "st_proposals (upd_acct o1 f s) = st_proposals s" "st_listings (upd_acct o1 f s) = st_listings s"
  "st_operations (upd_acct o1 f s) = st_operations s" "st_rewards (upd_acct o1 f s) = st_rewards s"
  "st_time (upd_acct o1 f s) = st_time s"
  by (simp_all add: upd_acct_def)

lemma put_order_frame [simp]:
  "st_accounts (put_order oid ord s) = st_accounts s" "st_issued (put_order oid ord s) = st_issued s"
  "st_proposals (put_order oid ord s) = st_proposals s" "st_listings (put_order oid ord s) = st_listings s"
  "st_operations (put_order oid ord s) = st_operations s" "st_rewards (put_order oid ord s) = st_rewards s"
  "st_time (put_order oid ord s) = st_time s"
  "st_orders (put_order oid ord s) = dict_put oid ord (st_orders s)"
  by (simp_all add: put_order_def)

lemma dict_ok_accounts [simp, intro]:
  "dict_ok (st_accounts s) \<Longrightarrow> dict_ok (st_accounts (upd_acct o1 f s))"
  by (simp add: upd_acct_def)

definition weight :: "account \<Rightarrow> int" where
  "weight a = ac_available a + ac_held a"

lemma weight_new [simp]: "weight new_account = 0"
  by (simp add: weight_def new_account_def)

lemma total_supply_alt: "total_supply s = dsum weight (st_accounts s)"
  by (simp add: total_supply_def weight_def [abs_def])

lemma total_supply_upd:
  "total_supply (upd_acct o1 f s) = total_supply s + weight (f (acct s o1)) - weight (acct s o1)"
  by (auto simp: total_supply_alt upd_acct_def dsum_put acct_def split: option.split)

lemma total_supply_frame [simp]:
  "total_supply (put_order oid ord s) = total_supply s"
  "total_supply (s\<lparr>st_listings := l\<rparr>) = total_supply s" "total_supply (s\<lparr>st_proposals := q\<rparr>) = total_supply s"
  "total_supply (s\<lparr>st_operations := os\<rparr>) = total_supply s" "total_supply (s\<lparr>st_time := t\<rparr>) = total_supply s"
  "total_supply (s\<lparr>st_issued := i\<rparr>) = total_supply s" "total_supply (s\<lparr>st_rewards := w\<rparr>) = total_supply s"
  by (simp_all add: total_supply_def)

lemma hold_Inr:
  "hold s p v = Inr s' \<longleftrightarrow> v \<le> ac_available (acct s p) \<and>
     s' = upd_acct p (\<lambda>r. r\<lparr>ac_available := ac_available r - v, ac_held := ac_held r + v\<rparr>) s"
  by (auto simp: hold_def guard_simps)

lemma unhold_Inr:
  "unhold s p v = Inr s' \<longleftrightarrow> v \<le> ac_held (acct s p) \<and>
     s' = upd_acct p (\<lambda>r. r\<lparr>ac_held := ac_held r - v, ac_available := ac_available r + v\<rparr>) s"
  by (auto simp: unhold_def guard_simps)

lemma earn_Inr:
  "earn s p v = Inr s' \<longleftrightarrow> ac_available (acct s p) + v \<le> MAX_MINOR \<and>
     s' = upd_acct p (\<lambda>r. r\<lparr>ac_available := ac_available r + v, ac_earned := ac_earned r + v\<rparr>) s"
  by (auto simp: earn_def guard_simps)

lemmas escrow_ops = hold_Inr unhold_Inr earn_Inr

subsection \<open>Escrow\<close>

definition ord_owed :: "string \<Rightarrow> order \<Rightarrow> int" where
  "ord_owed p ord = (if is_open ord then
     (if od_buyer ord = p then od_price ord + od_buyer_reserve ord else 0)
     + (if od_provider ord = p then od_provider_reserve ord else 0) else 0)"

definition escrow :: "state \<Rightarrow> string \<Rightarrow> int" where
  "escrow s p = dsum (ord_owed p) (st_orders s)"

definition old_owed :: "state \<Rightarrow> string \<Rightarrow> string \<Rightarrow> int" where
  "old_owed s oid p = (case map_of (st_orders s) oid of None \<Rightarrow> 0 | Some ord \<Rightarrow> ord_owed p ord)"

lemma escrow_put_order [simp]:
  "escrow (put_order oid ord s) p = escrow s p + ord_owed p ord - old_owed s oid p"
  by (simp add: escrow_def put_order_def dsum_put old_owed_def)

lemma escrow_frame [simp]:
  "escrow (upd_acct o1 f s) p = escrow s p"
  "escrow (s\<lparr>st_listings := l\<rparr>) p = escrow s p" "escrow (s\<lparr>st_proposals := q\<rparr>) p = escrow s p"
  "escrow (s\<lparr>st_operations := os\<rparr>) p = escrow s p" "escrow (s\<lparr>st_time := t\<rparr>) p = escrow s p"
  "escrow (s\<lparr>st_issued := i\<rparr>) p = escrow s p" "escrow (s\<lparr>st_rewards := w\<rparr>) p = escrow s p"
  by (simp_all add: escrow_def)

lemma old_owed_upd [simp]: "old_owed (upd_acct o1 f s) oid p = old_owed s oid p"
  by (simp add: old_owed_def)

lemma old_owed_proposals [simp]: "old_owed (s\<lparr>st_proposals := q\<rparr>) oid p = old_owed s oid p"
  by (simp add: old_owed_def)

definition solvent :: "state \<Rightarrow> bool" where
  "solvent s \<longleftrightarrow> dict_ok (st_accounts s) \<and> (\<forall>p. 0 \<le> ac_available (acct s p) \<and> 0 \<le> ac_held (acct s p))"

definition money_inv :: "config \<Rightarrow> state \<Rightarrow> bool" where
  "money_inv config s \<longleftrightarrow> dict_ok (st_accounts s) \<and> dict_ok (st_orders s)
     \<and> (\<forall>p. 0 \<le> ac_available (acct s p)) \<and> (\<forall>p. ac_held (acct s p) = escrow s p)
     \<and> total_supply s = st_issued s \<and> 0 \<le> st_issued s \<and> st_issued s \<le> cf_issuance_limit config"

text \<open>An order whose amounts are not negative and whose parties differ.\<close>

definition amounts_ok :: "order \<Rightarrow> bool" where
  "amounts_ok ord \<longleftrightarrow> 0 \<le> od_price ord \<and> 0 \<le> od_buyer_reserve ord \<and> 0 \<le> od_provider_reserve ord
     \<and> od_buyer ord \<noteq> od_provider ord"

definition orders_amounts :: "state \<Rightarrow> bool" where
  "orders_amounts s \<longleftrightarrow> (\<forall>oid ord. map_of (st_orders s) oid = Some ord \<longrightarrow> amounts_ok ord)"

lemma owed_nonneg: "amounts_ok ord \<Longrightarrow> 0 \<le> ord_owed p ord"
  by (auto simp: amounts_ok_def ord_owed_def)

lemma escrow_ge:
  assumes "dict_ok (st_orders s)" "orders_amounts s" "map_of (st_orders s) oid = Some ord"
  shows "ord_owed p ord \<le> escrow s p"
  unfolding escrow_def
proof (rule dsum_ge [OF _ assms(3)])
  fix v assume "v \<in> set (dict_vals (st_orders s))"
  then obtain k where "map_of (st_orders s) k = Some v" using dict_vals_ex [OF assms(1)] by blast
  then show "0 \<le> ord_owed p v" using assms(2) by (auto simp: orders_amounts_def intro: owed_nonneg)
qed

lemma escrow_nonneg: "dict_ok (st_orders s) \<Longrightarrow> orders_amounts s \<Longrightarrow> 0 \<le> escrow s p"
  unfolding escrow_def
  by (rule dsum_nonneg) (auto simp: orders_amounts_def intro!: owed_nonneg dest!: dict_vals_ex)

lemma money_solvent: "money_inv config s \<Longrightarrow> orders_amounts s \<Longrightarrow> solvent s"
  by (auto simp: money_inv_def solvent_def escrow_nonneg)

lemma solvent_balances: "solvent s \<Longrightarrow> balances_ok s"
proof -
  assume s: "solvent s"
  have "0 \<le> ac_available a \<and> 0 \<le> ac_held a" if "a \<in> set (dict_vals (st_accounts s))" for a
  proof -
    have "dict_ok (st_accounts s)" using s by (simp add: solvent_def)
    from dict_vals_ex [OF this that] obtain p where "map_of (st_accounts s) p = Some a" by blast
    then have "acct s p = a" by (simp add: acct_def)
    then show ?thesis using s by (auto simp: solvent_def)
  qed
  then show ?thesis by (simp add: balances_ok_def list_all_iff)
qed

lemma solvent_weight: "solvent s \<Longrightarrow> weight (acct s p) \<le> total_supply s"
proof -
  assume s: "solvent s"
  have nn: "0 \<le> weight a" if "a \<in> set (dict_vals (st_accounts s))" for a
    using solvent_balances [OF s] that by (auto simp: balances_ok_def list_all_iff weight_def)
  show ?thesis
  proof (cases "map_of (st_accounts s) p")
    case None
    then show ?thesis using nn by (simp add: acct_def total_supply_alt dsum_nonneg)
  next
    case (Some a)
    then show ?thesis using dsum_ge [OF nn Some] by (simp add: acct_def total_supply_alt)
  qed
qed

text \<open>No account can outgrow the cap of \<open>earn\<close>: it would hold more than was ever issued.\<close>

lemma solvent_available: "solvent s \<Longrightarrow> ac_available (acct s p) \<le> total_supply s"
proof -
  assume s: "solvent s"
  then have "0 \<le> ac_held (acct s p)" by (simp add: solvent_def)
  with solvent_weight [OF s, of p] show ?thesis by (simp add: weight_def)
qed

subsection \<open>Closing an order\<close>

definition closed_order :: "order \<Rightarrow> int \<Rightarrow> status \<Rightarrow> order" where
  "closed_order ord paid st = ord\<lparr>od_status := st, od_paid := Some paid, od_buyer_reserve := 0,
     od_provider_reserve := 0, od_remaining_ops := 0\<rparr>"

text \<open>The accounts after a settlement, written as one update per party.\<close>

definition settled :: "order \<Rightarrow> int \<Rightarrow> state \<Rightarrow> state" where
  "settled ord paid s =
     upd_acct (od_provider ord) (\<lambda>r. r\<lparr>ac_held := ac_held r - od_provider_reserve ord,
       ac_available := ac_available r + od_provider_reserve ord + paid, ac_earned := ac_earned r + paid\<rparr>)
    (upd_acct (od_buyer ord) (\<lambda>r. r\<lparr>ac_held := ac_held r - (od_price ord + od_buyer_reserve ord),
       ac_available := ac_available r + (od_price ord + od_buyer_reserve ord) - paid\<rparr>) s)"

lemma close_order_result:
  assumes "close_order s oid ord paid st = Inr s'" "od_buyer ord \<noteq> od_provider ord"
  shows "0 \<le> paid" "paid \<le> od_price ord" "acct s' p = acct (settled ord paid s) p"
    "total_supply s' = total_supply s" "st_orders s' = dict_put oid (closed_order ord paid st) (st_orders s)"
    "st_issued s' = st_issued s" "st_proposals s' = st_proposals s" "st_operations s' = st_operations s"
    "st_listings s' = st_listings s" "st_rewards s' = st_rewards s" "st_time s' = st_time s"
    "dict_ok (st_accounts s) \<Longrightarrow> dict_ok (st_accounts s')"
  using assms
  by (auto simp: close_order_def Let_def guard_simps escrow_ops settled_def closed_order_def
      total_supply_upd weight_def)

text \<open>A settlement of an order whose escrow is covered always goes through.\<close>

lemma close_order_ok:
  assumes s: "solvent s" "total_supply s \<le> MAX_MINOR"
    and held: "od_price ord + od_buyer_reserve ord \<le> ac_held (acct s (od_buyer ord))"
      "od_provider_reserve ord \<le> ac_held (acct s (od_provider ord))"
    and ord: "amounts_ok ord" "0 \<le> paid" "paid \<le> od_price ord"
  shows "\<exists>s'. close_order s oid ord paid st = Inr s'"
proof -
  define s1 where "s1 = upd_acct (od_buyer ord) (\<lambda>r. r\<lparr>ac_held := ac_held r - (od_price ord + od_buyer_reserve ord),
    ac_available := ac_available r + (od_price ord + od_buyer_reserve ord)\<rparr>) s"
  define s2 where "s2 = upd_acct (od_provider ord) (\<lambda>r. r\<lparr>ac_held := ac_held r - od_provider_reserve ord,
    ac_available := ac_available r + od_provider_reserve ord\<rparr>) s1"
  define s3 where "s3 = upd_acct (od_buyer ord) (\<lambda>r. r\<lparr>ac_available := ac_available r - paid\<rparr>) s2"
  have ne: "od_buyer ord \<noteq> od_provider ord" using ord(1) by (simp add: amounts_ok_def)
  have u1: "unhold s (od_buyer ord) (od_price ord + od_buyer_reserve ord) = Inr s1"
    using held(1) by (simp add: unhold_Inr s1_def)
  have u2: "unhold s1 (od_provider ord) (od_provider_reserve ord) = Inr s2"
    using held(2) ne by (simp add: unhold_Inr s1_def s2_def)
  have "0 \<le> ac_available (acct s (od_buyer ord))" using s(1) by (simp add: solvent_def)
  then have "paid \<le> ac_available (acct s (od_buyer ord)) + (od_price ord + od_buyer_reserve ord)"
    using ord by (simp add: amounts_ok_def)
  then have "solvent s3"
    using s(1) held ord ne by (auto simp: solvent_def s1_def s2_def s3_def amounts_ok_def)
  then have "ac_available (acct s3 (od_provider ord)) \<le> total_supply s3" by (rule solvent_available)
  moreover have "total_supply s3 = total_supply s - paid"
    using ne by (simp add: s1_def s2_def s3_def total_supply_upd weight_def)
  ultimately have "ac_available (acct s3 (od_provider ord)) + paid \<le> MAX_MINOR"
    using s(2) by linarith
  then show ?thesis
    using ord u1 u2 by (auto simp: close_order_def earn_def s3_def Let_def)
qed

lemma close_money:
  assumes m: "money_inv config s" "orders_amounts s" and ord: "map_of (st_orders s) oid = Some old"
    and same: "\<And>p. ord_owed p ord' = ord_owed p old" "is_open ord'" "od_buyer ord' \<noteq> od_provider ord'"
    and nn: "0 \<le> od_buyer_reserve ord'" "0 \<le> od_provider_reserve ord'"
    and close: "close_order s oid ord' paid st = Inr s'" "terminal st"
  shows "money_inv config s'"
proof -
  note r = close_order_result [OF close(1) same(3)]
  have owed: "ord_owed p (closed_order ord' paid st) = 0" for p
    using close(2) by (simp add: ord_owed_def is_open_def closed_order_def)
  have e: "escrow s' p = escrow s p - ord_owed p ord'" for p
    using ord owed [of p] by (simp add: escrow_def r(5) dsum_put same(1))
  have held: "ac_held (acct s' p) = escrow s' p" for p
    using m(1) same(3) unfolding e r(3)
    by (auto simp: settled_def money_inv_def ord_owed_def same(2))
  have "0 \<le> ac_available (acct s (od_buyer ord'))" using m(1) by (simp add: money_inv_def)
  then have "paid \<le> ac_available (acct s (od_buyer ord')) + (od_price ord' + od_buyer_reserve ord')"
    using nn r(1,2) by linarith
  then have avail: "0 \<le> ac_available (acct s' p)" for p
    using m(1) nn r(1,2) same(3) unfolding r(3)
    by (auto simp: settled_def money_inv_def intro!: add_nonneg_nonneg)
  show ?thesis
    using m(1) held avail r(4,6,12) unfolding money_inv_def r(5) by auto
qed

lemma close_amounts:
  "orders_amounts s \<Longrightarrow> amounts_ok ord \<Longrightarrow> close_order s oid ord paid st = Inr s' \<Longrightarrow> orders_amounts s'"
  using close_order_result(5) [of s oid ord paid st s']
  by (auto simp: orders_amounts_def amounts_ok_def closed_order_def)

lemma put_order_money:
  assumes "money_inv config s" "map_of (st_orders s) oid = Some old" "\<And>p. ord_owed p ord' = ord_owed p old"
  shows "money_inv config (put_order oid ord' s)"
  using assms by (auto simp: money_inv_def old_owed_def)

lemma put_order_amounts: "orders_amounts s \<Longrightarrow> amounts_ok ord \<Longrightarrow> orders_amounts (put_order oid ord s)"
  by (auto simp: orders_amounts_def)

subsection \<open>Judge fees\<close>

lemma earn_all_result:
  assumes "earn_all s js = Inr s'" "\<forall>j \<in> set js. 0 \<le> jd_fee j"
  shows "total_supply s' = total_supply s + judge_fees js \<and> (\<forall>p. ac_held (acct s' p) = ac_held (acct s p))
     \<and> (\<forall>p. ac_available (acct s p) \<le> ac_available (acct s' p))
     \<and> st_orders s' = st_orders s \<and> st_issued s' = st_issued s \<and> st_proposals s' = st_proposals s
     \<and> st_operations s' = st_operations s \<and> st_listings s' = st_listings s
     \<and> st_rewards s' = st_rewards s \<and> st_time s' = st_time s
     \<and> (dict_ok (st_accounts s) \<longrightarrow> dict_ok (st_accounts s'))"
  using assms
proof (induction js arbitrary: s)
  case Nil
  then show ?case by (simp add: judge_fees_def)
next
  case (Cons j js)
  then obtain s1 where s1: "earn s (jd_peer_id j) (jd_fee j) = Inr s1" "earn_all s1 js = Inr s'"
    by (auto simp: guard_simps)
  from Cons.IH [OF s1(2)] Cons.prems(2) s1(1) show ?case
    by (auto simp: earn_Inr total_supply_upd weight_def judge_fees_def split: if_splits)
      (smt (verit))+
qed

text \<open>A panel's fee leaves the escrow of an order in two halves and reaches the judges.\<close>

lemma fee_halves: "(x + 1) div 2 + x div 2 = (x::int)"
  by presburger

lemma fee_money:
  assumes m: "money_inv config s" and ord: "map_of (st_orders s) oid = Some ord"
    and ne: "od_buyer ord \<noteq> od_provider ord" and nn: "\<forall>j \<in> set js. 0 \<le> jd_fee j" and fee: "fee = judge_fees js"
    and earn: "earn_all (upd_acct (od_provider ord) (\<lambda>a. a\<lparr>ac_held := ac_held a - fee div 2\<rparr>)
        (upd_acct (od_buyer ord) (\<lambda>a. a\<lparr>ac_held := ac_held a - (fee + 1) div 2\<rparr>) s)) js = Inr s2"
    and owed: "\<And>p. ord_owed p ord' = ord_owed p ord - (if od_buyer ord = p then (fee + 1) div 2 else 0)
      - (if od_provider ord = p then fee div 2 else 0)"
  shows "money_inv config (put_order oid ord' s2)"
proof -
  note e = earn_all_result [OF earn nn]
  have held: "ac_held (acct s2 p) = escrow s p - (if od_buyer ord = p then (fee + 1) div 2 else 0)
      - (if od_provider ord = p then fee div 2 else 0)" for p
    using m e ne by (auto simp: money_inv_def)
  have "escrow s2 p = escrow s p" "old_owed s2 oid p = ord_owed p ord" for p
    using e ord by (simp_all add: escrow_def old_owed_def)
  then have "ac_held (acct (put_order oid ord' s2) p) = escrow (put_order oid ord' s2) p" for p
    by (simp add: held owed)
  moreover have "0 \<le> ac_available (acct (put_order oid ord' s2) p)" for p
  proof -
    have "ac_available (acct s p) \<le> ac_available (acct s2 p)" using e by (auto split: if_splits)
    with m show ?thesis by (auto simp: money_inv_def intro: order_trans)
  qed
  moreover have "total_supply (put_order oid ord' s2) = total_supply s"
    using e ne fee_halves [of fee] by (simp add: total_supply_upd weight_def fee)
  ultimately show ?thesis using m e by (simp add: money_inv_def)
qed

end
