(* ===== verification/Exchange_Invariant.thy ===== *)
theory Exchange_Invariant
  imports Exchange_Money
begin

section \<open>The invariant of the exchange\<close>

text \<open>
  What a reachable exchange state satisfies, stated without the two checks at the end of \<open>apply\<close>:
  the money invariant of \<open>Exchange_Money\<close>; every open order has the fields of its phase, the
  dispute reserves that its remaining rounds cost, and more remaining operations than its lifecycle
  can still use (\<open>order_pot\<close>); the operation log has room for every reserved operation; and every
  order id is a logged operation. Each action preserves it.
\<close>

subsection \<open>Orders\<close>

definition panel_fee :: "judge list \<Rightarrow> nat \<Rightarrow> int" where
  "panel_fee js r = judge_fees (take 3 (drop (3 * r) js))"

text \<open>The rounds whose judge fees an open order has not paid yet.\<close>

definition rounds_left :: "order \<Rightarrow> nat list" where
  "rounds_left ord = (case od_round ord of
     None \<Rightarrow> [0, 1]
   | Some r \<Rightarrow> if od_status ord = Disputed then (if r = 0 then [0, 1] else [1])
               else (if r = 0 then [1] else []))"

definition buyer_due :: "judge list \<Rightarrow> nat list \<Rightarrow> int" where
  "buyer_due js rs = sum_list (map (\<lambda>r. (panel_fee js r + 1) div 2) rs)"

definition provider_due :: "judge list \<Rightarrow> nat list \<Rightarrow> int" where
  "provider_due js rs = sum_list (map (\<lambda>r. panel_fee js r div 2) rs)"

definition share_ok :: "order \<Rightarrow> bool" where
  "share_ok ord \<longleftrightarrow> (\<exists>x. od_ruling_share ord = Some x \<and> 0 \<le> x \<and> x \<le> 10000)"

definition phase_ok :: "order \<Rightarrow> bool" where
  "phase_ok ord \<longleftrightarrow> (case od_status ord of
     Working \<Rightarrow> od_round ord = None
   | Delivered \<Rightarrow> od_round ord = None \<and> od_review_until ord \<noteq> None \<and> od_delivery_hash ord \<noteq> None
   | Disputed \<Rightarrow> (od_round ord = Some 0 \<or> od_round ord = Some 1 \<and> share_ok ord) \<and> od_case_until ord \<noteq> None
   | Ruling_ready \<Rightarrow> (od_round ord = Some 0 \<or> od_round ord = Some 1) \<and> share_ok ord \<and> od_appeal_until ord \<noteq> None
   | _ \<Rightarrow> True)"

definition party_list :: "order \<Rightarrow> string list \<Rightarrow> bool" where
  "party_list ord ps \<longleftrightarrow> distinct ps \<and> set ps \<subseteq> {od_buyer ord, od_provider ord}"

definition order_pot :: "order \<Rightarrow> int" where
  "order_pot ord = 1 - int (length (od_refund_requests ord)) + (case od_status ord of
     Disputed \<Rightarrow> 2 - int (length (od_evidence ord)) + (if od_round ord = Some 0 then 9 else 3)
   | Ruling_ready \<Rightarrow> 2 - int (length (od_waivers ord)) + (if od_round ord = Some 0 then 6 else 0)
   | _ \<Rightarrow> 3 - od_delivery_revisions ord + 12)"

text \<open>Operations an open order keeps in hand whatever its parties do.\<close>

definition OPS_IN_HAND :: int where "OPS_IN_HAND = 8"

definition order_ok :: "order \<Rightarrow> bool" where
  "order_ok ord \<longleftrightarrow> amounts_ok ord \<and> (is_open ord \<longrightarrow>
     phase_ok ord \<and> party_list ord (od_refund_requests ord) \<and> length (od_refund_requests ord) \<le> 1
     \<and> party_list ord (od_waivers ord) \<and> party_list ord (map fst (od_evidence ord))
     \<and> od_buyer_reserve ord = buyer_due (tm_judges (od_terms ord)) (rounds_left ord)
     \<and> od_provider_reserve ord = provider_due (tm_judges (od_terms ord)) (rounds_left ord)
     \<and> (\<forall>j \<in> set (tm_judges (od_terms ord)). 0 \<le> jd_fee j)
     \<and> 0 \<le> tm_dispute_timeout_share_bps (od_terms ord) \<and> tm_dispute_timeout_share_bps (od_terms ord) \<le> 10000
     \<and> 0 \<le> od_delivery_revisions ord \<and> od_delivery_revisions ord \<le> 3
     \<and> OPS_IN_HAND + order_pot ord \<le> od_remaining_ops ord)"

lemma party_list_length: "party_list ord ps \<Longrightarrow> length ps \<le> 2"
proof -
  assume p: "party_list ord ps"
  then have "length ps = card (set ps)" by (simp add: party_list_def distinct_card)
  also have "\<dots> \<le> card {od_buyer ord, od_provider ord}"
    using p by (intro card_mono) (auto simp: party_list_def)
  also have "\<dots> \<le> 2" by (simp add: card_insert_if)
  finally show ?thesis .
qed

lemma party_list_snoc:
  "party_list ord ps \<Longrightarrow> p \<notin> set ps \<Longrightarrow> p = od_buyer ord \<or> p = od_provider ord \<Longrightarrow> party_list ord (ps @ [p])"
  by (auto simp: party_list_def)

lemma order_pot_nonneg: "order_ok ord \<Longrightarrow> is_open ord \<Longrightarrow> 0 \<le> order_pot ord"
  using party_list_length [of ord "od_waivers ord"] party_list_length [of ord "map fst (od_evidence ord)"]
  by (auto simp: order_ok_def order_pot_def split: status.split)

lemma panel_fee_nonneg: "\<forall>j \<in> set js. 0 \<le> jd_fee j \<Longrightarrow> 0 \<le> panel_fee js r"
  unfolding panel_fee_def judge_fees_def
  by (rule sum_list_nonneg) (auto dest!: in_set_takeD in_set_dropD)

lemma half_nonneg: "0 \<le> x \<Longrightarrow> 0 \<le> (x::int) div 2"
  by simp

lemma due_nonneg:
  "\<forall>j \<in> set js. 0 \<le> jd_fee j \<Longrightarrow> 0 \<le> buyer_due js rs"
  "\<forall>j \<in> set js. 0 \<le> jd_fee j \<Longrightarrow> 0 \<le> provider_due js rs"
  unfolding buyer_due_def provider_due_def
  by (auto intro!: sum_list_nonneg half_nonneg add_nonneg_nonneg panel_fee_nonneg)

lemma fees_due: "fees js = (buyer_due js [0, 1], provider_due js [0, 1])"
  by (simp add: fees_def buyer_due_def provider_due_def panel_fee_def Let_def)

subsection \<open>The invariant\<close>

definition all_orders_ok :: "state \<Rightarrow> bool" where
  "all_orders_ok s \<longleftrightarrow> (\<forall>oid ord. map_of (st_orders s) oid = Some ord \<longrightarrow> order_ok ord)"

definition proposal_ok :: "proposal \<Rightarrow> bool" where
  "proposal_ok q \<longleftrightarrow> 0 \<le> pr_price q \<and> pr_buyer q \<noteq> pr_provider q"

definition all_proposals_ok :: "state \<Rightarrow> bool" where
  "all_proposals_ok s \<longleftrightarrow> (\<forall>pid q. map_of (st_proposals s) pid = Some q \<longrightarrow> proposal_ok q)"

definition ops_used :: "state \<Rightarrow> int" where
  "ops_used s = int (length (st_operations s)) + reserved_ops s"

definition logged :: "string set \<Rightarrow> state \<Rightarrow> bool" where
  "logged new s \<longleftrightarrow> (\<forall>oid. map_of (st_orders s) oid \<noteq> None \<longrightarrow> map_of (st_operations s) oid \<noteq> None \<or> oid \<in> new)"

definition book_inv :: "config \<Rightarrow> int \<Rightarrow> string set \<Rightarrow> state \<Rightarrow> bool" where
  "book_inv config slack new s \<longleftrightarrow> money_inv config s \<and> all_orders_ok s \<and> all_proposals_ok s
     \<and> ops_used s + slack \<le> MAX_OPERATIONS \<and> logged new s"

definition config_ok :: "config \<Rightarrow> bool" where
  "config_ok config \<longleftrightarrow> (\<forall>j \<in> set (cf_judges config). 0 \<le> jd_fee j) \<and> 0 < cf_work_reward config
     \<and> cf_work_reward config \<le> cf_issuance_limit config \<and> cf_issuance_limit config \<le> 1000000 * UNITS
     \<and> 60 \<le> cf_appeal_window_s config"

definition exch_inv :: "config \<Rightarrow> state \<Rightarrow> bool" where
  "exch_inv config s \<longleftrightarrow> config_ok config \<and> book_inv config 0 {} s"

lemma orders_amounts: "all_orders_ok s \<Longrightarrow> orders_amounts s"
  by (auto simp: all_orders_ok_def orders_amounts_def order_ok_def)

lemma reserved_put:
  "reserved_ops (put_order oid ord s) = reserved_ops s + (if is_open ord then od_remaining_ops ord else 0)
     - (case map_of (st_orders s) oid of None \<Rightarrow> 0 | Some old \<Rightarrow> if is_open old then od_remaining_ops old else 0)"
  by (simp add: reserved_ops_def dsum_put split: option.split)

lemma reserved_frame [simp]:
  "reserved_ops (upd_acct o1 f s) = reserved_ops s"
  "reserved_ops (s\<lparr>st_listings := l\<rparr>) = reserved_ops s" "reserved_ops (s\<lparr>st_proposals := q\<rparr>) = reserved_ops s"
  "reserved_ops (s\<lparr>st_issued := i\<rparr>) = reserved_ops s" "reserved_ops (s\<lparr>st_rewards := w\<rparr>) = reserved_ops s"
  by (simp_all add: reserved_ops_def)

text \<open>Changes that touch neither balances nor orders.\<close>

lemma book_inv_acct:
  assumes "book_inv config k new s" "\<And>r. weight (f r) = weight r" "\<And>r. ac_held (f r) = ac_held r"
  shows "book_inv config k new (upd_acct p f s)"
proof -
  have "ac_available (f r) = ac_available r" for r
    using assms(2) [of r] assms(3) [of r] by (simp add: weight_def)
  then show ?thesis
    using assms by (auto simp: book_inv_def money_inv_def all_orders_ok_def all_proposals_ok_def ops_used_def
        logged_def total_supply_upd)
qed

lemma book_inv_touch: "book_inv config k new s \<Longrightarrow> book_inv config k new (touch p s)"
  unfolding touch_def by (rule book_inv_acct) auto

lemma book_inv_listings: "book_inv config k new (s\<lparr>st_listings := l\<rparr>) \<longleftrightarrow> book_inv config k new s"
  by (simp add: book_inv_def money_inv_def all_orders_ok_def all_proposals_ok_def ops_used_def logged_def)

lemma book_inv_proposal:
  "book_inv config k new s \<Longrightarrow> proposal_ok q \<Longrightarrow>
   book_inv config k new (s\<lparr>st_proposals := dict_put pid q (st_proposals s)\<rparr>)"
  by (simp add: book_inv_def money_inv_def all_orders_ok_def all_proposals_ok_def ops_used_def logged_def)

text \<open>The edges of an order's life cycle.\<close>

fun status_step :: "status \<Rightarrow> status \<Rightarrow> bool" where
  "status_step Working b = (b \<in> {Working, Delivered, Disputed, Refunded})"
| "status_step Delivered b = (b \<in> {Delivered, Disputed, Accepted, Refunded})"
| "status_step Disputed b = (b \<in> {Disputed, Ruling_ready, Refunded, Resolved})"
| "status_step Ruling_ready b = (b \<in> {Ruling_ready, Disputed, Refunded, Resolved})"
| "status_step _ b = False"

text \<open>What an order action leaves of the agreement, and the operation it spends.\<close>

definition follows :: "order \<Rightarrow> order \<Rightarrow> bool" where
  "follows ord ord' \<longleftrightarrow> od_id ord' = od_id ord \<and> od_proposal_id ord' = od_proposal_id ord
     \<and> od_buyer ord' = od_buyer ord \<and> od_provider ord' = od_provider ord \<and> od_terms ord' = od_terms ord
     \<and> od_price ord' = od_price ord \<and> od_created_at ord' = od_created_at ord
     \<and> od_delivery_until ord' = od_delivery_until ord \<and> status_step (od_status ord) (od_status ord')
     \<and> od_remaining_ops ord' < od_remaining_ops ord"

text \<open>An order that moves on in place, with its escrow unchanged and one operation spent.\<close>

definition order_step :: "order \<Rightarrow> order \<Rightarrow> bool" where
  "order_step ord ord' \<longleftrightarrow> is_open ord' \<and> order_ok ord' \<and> follows ord ord'
     \<and> (\<forall>p. ord_owed p ord' = ord_owed p ord) \<and> od_remaining_ops ord' = od_remaining_ops ord - 1"

lemma book_inv_step:
  assumes "book_inv config 0 {} s" "map_of (st_orders s) oid = Some ord" "is_open ord" "order_step ord ord'"
  shows "book_inv config 1 {} (put_order oid ord' s)"
proof -
  have "money_inv config (put_order oid ord' s)"
    using assms by (intro put_order_money) (auto simp: book_inv_def order_step_def)
  with assms show ?thesis
    by (auto simp: book_inv_def order_step_def all_orders_ok_def all_proposals_ok_def ops_used_def
        reserved_put logged_def)
qed

text \<open>An order that closes.\<close>

lemma book_inv_close:
  assumes inv: "book_inv config 0 {} s" and ord: "map_of (st_orders s) oid = Some ord" "is_open ord" "0 < od_remaining_ops ord"
    and same: "od_buyer ord' = od_buyer ord" "od_provider ord' = od_provider ord" "od_price ord' = od_price ord"
      "od_buyer_reserve ord' = od_buyer_reserve ord" "od_provider_reserve ord' = od_provider_reserve ord"
      "od_status ord' = od_status ord"
    and close: "close_order s oid ord' paid st = Inr s'" "terminal st"
  shows "book_inv config 1 {} s'"
proof -
  have ok: "order_ok ord" using inv ord by (auto simp: book_inv_def all_orders_ok_def)
  then have am: "amounts_ok ord'" using same by (simp add: order_ok_def amounts_ok_def)
  have ne: "od_buyer ord' \<noteq> od_provider ord'" using am by (simp add: amounts_ok_def)
  have owed: "ord_owed p ord' = ord_owed p ord" for p
    using same by (simp add: ord_owed_def is_open_def)
  have op: "is_open ord'" using ord same by (simp add: is_open_def)
  have m: "money_inv config s" "orders_amounts s" using inv orders_amounts by (auto simp: book_inv_def)
  have "money_inv config s'"
    using close_money [OF m ord(1) owed op ne _ _ close] am by (simp add: amounts_ok_def)
  moreover note r = close_order_result [OF close(1) ne]
  have "order_ok (closed_order ord' paid st)"
    using am close(2) by (simp add: order_ok_def closed_order_def is_open_def amounts_ok_def)
  moreover have "reserved_ops s' = reserved_ops s - od_remaining_ops ord"
    using ord close(2) by (simp add: reserved_ops_def r(5) dsum_put closed_order_def is_open_def)
  ultimately show ?thesis
    using inv ord by (auto simp: book_inv_def all_orders_ok_def all_proposals_ok_def ops_used_def r logged_def)
qed


lemma open_order_ok: "book_inv config k new s \<Longrightarrow> map_of (st_orders s) oid = Some ord \<Longrightarrow> order_ok ord"
  by (auto simp: book_inv_def all_orders_ok_def)

lemma open_pos:
  assumes "book_inv config k new s" "map_of (st_orders s) oid = Some ord" "is_open ord"
  shows "0 < od_remaining_ops ord"
  using open_order_ok [OF assms(1,2)] order_pot_nonneg [OF open_order_ok [OF assms(1,2)] assms(3)] assms(3)
  by (simp add: order_ok_def OPS_IN_HAND_def)

subsection \<open>The order actions\<close>

abbreviation charge :: "order \<Rightarrow> order" where
  "charge ord \<equiv> ord\<lparr>od_remaining_ops := od_remaining_ops ord - 1\<rparr>"

definition party :: "string \<Rightarrow> order \<Rightarrow> bool" where
  "party owner ord \<longleftrightarrow> owner = od_buyer ord \<or> owner = od_provider ord"

lemmas order_step_defs = order_step_def order_ok_def amounts_ok_def is_open_def terminal_def phase_ok_def
  share_ok_def order_pot_def rounds_left_def ord_owed_def party_list_def follows_def

lemma deliver_step:
  assumes act: "act_deliver s owner oid (charge ord) value t = Inr s'" and ok: "order_ok ord" "is_open ord"
  shows "\<exists>ord'. s' = put_order oid ord' s \<and> order_step ord ord'"
proof (cases "od_status ord = Working")
  case True
  define ord' where "ord' ru h sealed = (charge ord)\<lparr>od_delivery_revisions := od_delivery_revisions ord + 1,
    od_review_until := Some ru, od_status := Delivered, od_delivery_hash := Some h, od_delivery := Some sealed\<rparr>" for ru h sealed
  from act True obtain ru h sealed where s': "s' = put_order oid (ord' ru h sealed) s"
    and rev: "od_delivery_revisions ord < 3"
    unfolding act_deliver_def Let_def ord'_def by (auto simp: guard_simps)
  from ok True rev have "order_step ord (ord' ru h sealed)"
    by (simp add: order_step_defs ord'_def due_nonneg)
  with s' show ?thesis by blast
next
  case False
  define ord' where "ord' h sealed = (charge ord)\<lparr>od_delivery_revisions := od_delivery_revisions ord + 1,
    od_status := Delivered, od_delivery_hash := Some h, od_delivery := Some sealed\<rparr>" for h sealed
  from act False obtain h sealed where s': "s' = put_order oid (ord' h sealed) s"
    and rev: "od_delivery_revisions ord < 3" and st: "od_status ord = Delivered"
    unfolding act_deliver_def Let_def ord'_def by (auto simp: guard_simps)
  from ok st rev have "order_step ord (ord' h sealed)"
    by (simp add: order_step_defs ord'_def due_nonneg)
  with s' show ?thesis by blast
qed

lemma dispute_step:
  assumes act: "act_dispute s owner oid (charge ord) value t = Inr s'" and ok: "order_ok ord" "is_open ord"
  shows "\<exists>ord'. s' = put_order oid ord' s \<and> order_step ord ord'"
proof -
  from act obtain cu where
    s': "s' = put_order oid ((charge ord)\<lparr>od_status := Disputed, od_round := Some 0, od_evidence := [],
          od_waivers := [], od_case_until := Some cu\<rparr>) s"
    and st: "od_status ord = Working \<or> od_status ord = Delivered"
    unfolding act_dispute_def by (auto simp: guard_simps)
  from ok st have "order_step ord ((charge ord)\<lparr>od_status := Disputed, od_round := Some 0, od_evidence := [],
          od_waivers := [], od_case_until := Some cu\<rparr>)"
    by (elim disjE) (simp_all add: order_step_defs due_nonneg)
  with s' show ?thesis by blast
qed

lemma evidence_step:
  assumes "act_evidence s owner oid (charge ord) value t = Inr s'" "order_ok ord" "is_open ord" "party owner ord"
  shows "\<exists>ord'. s' = put_order oid ord' s \<and> order_step ord ord'"
proof -
  from assms(1) obtain e where s': "s' = put_order oid ((charge ord)\<lparr>od_evidence := dict_put owner e (od_evidence ord)\<rparr>) s"
    and st: "od_status ord = Disputed" and new: "map_of (od_evidence ord) owner = None"
    unfolding act_evidence_def Let_def by (auto simp: guard_simps)
  have "map fst (dict_put owner e (od_evidence ord)) = map fst (od_evidence ord) @ [owner]"
    using new by (simp add: put_fresh)
  moreover have "owner \<notin> set (map fst (od_evidence ord))"
    using new by (simp add: map_of_eq_None_iff)
  ultimately have "order_step ord ((charge ord)\<lparr>od_evidence := dict_put owner e (od_evidence ord)\<rparr>)"
    using assms(2-4) st new by (auto simp: order_step_defs party_def put_fresh)
  with s' show ?thesis by blast
qed

lemma appeal_step:
  assumes act: "act_appeal s owner oid (charge ord) value t = Inr s'" and ok: "order_ok ord" "is_open ord"
  shows "\<exists>ord'. s' = put_order oid ord' s \<and> order_step ord ord'"
proof -
  from act obtain cu where
    s': "s' = put_order oid ((charge ord)\<lparr>od_status := Disputed, od_round := Some 1, od_evidence := [],
          od_waivers := [], od_case_until := Some cu\<rparr>) s"
    and st: "od_status ord = Ruling_ready" "od_round ord = Some 0"
    unfolding act_appeal_def by (auto simp: guard_simps)
  moreover have "length (od_waivers ord) \<le> 2"
    using ok by (intro party_list_length [of ord]) (simp add: order_ok_def)
  ultimately have "order_step ord ((charge ord)\<lparr>od_status := Disputed, od_round := Some 1, od_evidence := [],
          od_waivers := [], od_case_until := Some cu\<rparr>)"
    using ok by (simp add: order_step_defs due_nonneg)
  with s' show ?thesis by blast
qed

lemma waive_step:
  assumes act: "act_waive C s owner oid (charge ord) value = Inr s'" and ok: "order_ok ord" "is_open ord" "party owner ord"
  shows "\<exists>ord'. s' = put_order oid ord' s \<and> order_step ord ord'"
proof -
  from act have s': "s' = put_order oid ((charge ord)\<lparr>od_waivers := od_waivers ord @ [owner]\<rparr>) s"
    and st: "od_status ord = Ruling_ready" "owner \<notin> set (od_waivers ord)"
    unfolding act_waive_def by (auto simp: guard_simps)
  have "od_round ord = Some 0 \<or> od_round ord = Some 1"
    using ok st by (simp add: order_ok_def phase_ok_def)
  then have "order_step ord ((charge ord)\<lparr>od_waivers := od_waivers ord @ [owner]\<rparr>)"
    using ok st by (elim disjE) (auto simp: order_step_defs party_def)
  with s' show ?thesis by blast
qed


text \<open>An order that an action closes, possibly after recording a refund request.\<close>

definition closes :: "state \<Rightarrow> string \<Rightarrow> order \<Rightarrow> int \<Rightarrow> status \<Rightarrow> state \<Rightarrow> bool" where
  "closes s oid ord paid st s' \<longleftrightarrow> terminal st \<and> status_step (od_status ord) st \<and>
     (\<exists>rs. close_order s oid ((charge ord)\<lparr>od_refund_requests := rs\<rparr>) paid st = Inr s')"

lemma closes_book:
  assumes c: "closes s oid ord paid st s'" and inv: "book_inv config 0 {} s"
    and ord: "map_of (st_orders s) oid = Some ord" "is_open ord"
  shows "book_inv config 1 {} s'"
proof -
  obtain rs where cl: "close_order s oid ((charge ord)\<lparr>od_refund_requests := rs\<rparr>) paid st = Inr s'" "terminal st"
    using c by (auto simp: closes_def)
  show ?thesis
    by (rule book_inv_close [OF inv ord open_pos [OF inv ord] _ _ _ _ _ _ cl]) simp_all
qed

lemma refund_cases:
  assumes act: "act_refund s owner oid (charge ord) value = Inr s'"
    and ok: "order_ok ord" "is_open ord" "party owner ord"
  shows "(\<exists>ord'. s' = put_order oid ord' s \<and> order_step ord ord') \<or> closes s oid ord 0 Refunded s'"
proof -
  let ?ord' = "(charge ord)\<lparr>od_refund_requests := od_refund_requests ord @ [owner]\<rparr>"
  show ?thesis
  proof (cases "length (od_refund_requests ord) = 1")
    case True
    then have "close_order s oid ?ord' 0 Refunded = Inr s'"
      using act unfolding act_refund_def Let_def by (auto simp: guard_simps)
    moreover have "status_step (od_status ord) Refunded"
      using ok(2) by (cases "od_status ord") (simp_all add: is_open_def terminal_def)
    ultimately show ?thesis by (auto simp: closes_def terminal_def)
  next
    case False
    from act False have s': "s' = put_order oid ?ord' s"
      unfolding act_refund_def Let_def by (auto simp: guard_simps)
    have nil: "od_refund_requests ord = []" using ok(1,2) False
      by (cases "od_refund_requests ord") (auto simp: order_ok_def)
    have "phase_ok ?ord' = phase_ok ord" "order_pot ?ord' = order_pot ord - 1" "rounds_left ?ord' = rounds_left ord"
      by (simp_all add: phase_ok_def order_pot_def rounds_left_def nil share_ok_def cong: status.case_cong
          split: option.split)
    moreover have "follows ord ?ord'"
      using ok(2) by (cases "od_status ord") (simp_all add: follows_def is_open_def terminal_def)
    ultimately have "order_step ord ?ord'"
      using ok nil unfolding order_step_def order_ok_def
      by (auto simp: amounts_ok_def is_open_def ord_owed_def party_list_def party_def)
    with s' show ?thesis by blast
  qed
qed

lemma accept_closes:
  assumes "act_accept s owner oid (charge ord) value = Inr s'"
  shows "closes s oid ord (od_price ord) Accepted s'"
proof -
  from assms have "close_order s oid (charge ord) (od_price ord) Accepted = Inr s'" "od_status ord = Delivered"
    unfolding act_accept_def by (auto simp: guard_simps)
  moreover have "charge ord = (charge ord)\<lparr>od_refund_requests := od_refund_requests ord\<rparr>" by simp
  ultimately show ?thesis unfolding closes_def by (metis status_step.simps(2) insertI1 insertI2 terminal_def)
qed

lemma finalize_closes:
  assumes "act_finalize C s oid (charge ord) value t = Inr s'"
  obtains share where "od_ruling_share ord = Some share" "od_status ord = Ruling_ready"
    "closes s oid ord (od_price ord * share div 10000) Resolved s'"
proof -
  from assms obtain share where "od_ruling_share ord = Some share" and st: "od_status ord = Ruling_ready"
    and cl: "close_order s oid (charge ord) (od_price ord * share div 10000) Resolved = Inr s'"
    unfolding act_finalize_def by (auto simp: guard_simps)
  moreover have "closes s oid ord (od_price ord * share div 10000) Resolved s'"
    unfolding closes_def terminal_def st
    by (intro conjI exI [of _ "od_refund_requests ord"]) (use cl in simp_all)
  ultimately show thesis by (blast intro: that)
qed

text \<open>What a timeout pays: nothing before delivery, the price after an unanswered review, the share of
  the dispute afterwards.\<close>

definition timeout_paid :: "order \<Rightarrow> int \<Rightarrow> bool" where
  "timeout_paid ord paid \<longleftrightarrow> (case od_status ord of Working \<Rightarrow> paid = 0 | Delivered \<Rightarrow> paid = od_price ord
     | _ \<Rightarrow> (\<exists>share. timeout_share ord = Inr share \<and> paid = od_price ord * share div 10000))"

definition timeout_status :: "status \<Rightarrow> status" where
  "timeout_status st = (case st of Working \<Rightarrow> Refunded | Delivered \<Rightarrow> Accepted | _ \<Rightarrow> Resolved)"

lemma timeout_closes:
  assumes act: "act_timeout C s oid (charge ord) value t = Inr s'" and op: "is_open ord"
  obtains paid where "timeout_paid ord paid" "closes s oid ord paid (timeout_status (od_status ord)) s'"
proof -
  have ts: "timeout_share (charge ord) = timeout_share ord" by (simp add: timeout_share_def)
  obtain paid where "timeout_paid ord paid"
    and cl: "close_order s oid (charge ord) paid (timeout_status (od_status ord)) = Inr s'"
    using act op unfolding act_timeout_def timeout_paid_def timeout_status_def
    by (cases "od_status ord") (auto simp: guard_simps is_open_def terminal_def ts)
  moreover have "closes s oid ord paid (timeout_status (od_status ord)) s'"
    unfolding closes_def
    by (intro conjI exI [of _ "od_refund_requests ord"])
      (use cl op in \<open>cases "od_status ord"; simp add: timeout_status_def terminal_def is_open_def\<close>)+
  ultimately show thesis by (blast intro: that)
qed

lemma read_rulings_shares:
  "read_rulings version C panel network h seen shares wires = Inr r \<Longrightarrow>
     length r = length shares + length wires \<and> (\<forall>x \<in> set r. x \<in> set shares \<or> (0 \<le> x \<and> x \<le> 10000))"
proof (induction wires arbitrary: seen shares)
  case (Cons w wires)
  from Cons.prems obtain seen' x where "read_rulings version C panel network h seen' (shares @ [x]) wires = Inr r"
    "0 \<le> x" "x \<le> 10000"
    by (auto simp: guard_simps Let_def integer_def split: option.splits json.splits)
  from Cons.IH [OF this(1)] this(2,3) show ?case by auto
qed simp

text \<open>The middle one of three shares is one of them.\<close>

lemma median_range:
  assumes "read_rulings version C panel network h [] [] wires = Inr r" "length wires = 3"
  shows "0 \<le> sort r ! 1" "sort r ! 1 \<le> 10000"
proof -
  note rr = read_rulings_shares [OF assms(1)]
  have "sort r ! 1 \<in> set (sort r)" using rr assms(2) by (intro nth_mem) simp
  then have "sort r ! 1 \<in> set r" by simp
  with rr show "0 \<le> sort r ! 1" "sort r ! 1 \<le> 10000" by auto
qed

definition ruled :: "config \<Rightarrow> order \<Rightarrow> int \<Rightarrow> int \<Rightarrow> json \<Rightarrow> int \<Rightarrow> int \<Rightarrow> order" where
  "ruled config ord bf pf rulings share au = (charge ord)\<lparr>od_buyer_reserve := od_buyer_reserve ord - bf,
     od_provider_reserve := od_provider_reserve ord - pf, od_status := Ruling_ready,
     od_ruling_share := Some share, od_rulings := Some rulings, od_appeal_until := Some au, od_waivers := []\<rparr>"

lemma ruled_ok:
  assumes ok: "order_ok ord" "is_open ord" "od_status ord = Disputed" "od_round ord = Some r"
    and share: "0 \<le> share" "share \<le> 10000"
    and fee: "fee = panel_fee (tm_judges (od_terms ord)) r"
  shows "order_ok (ruled config ord ((fee + 1) div 2) (fee div 2) rulings share au)"
proof -
  have r: "r = 0 \<or> r = 1" using ok by (auto simp: order_ok_def phase_ok_def)
  have len: "length (od_evidence ord) \<le> 2"
    using ok party_list_length [of ord "map fst (od_evidence ord)"] by (simp add: order_ok_def)
  have due: "buyer_due js [0, 1] - (panel_fee js 0 + 1) div 2 = buyer_due js [1]"
    "provider_due js [0, 1] - panel_fee js 0 div 2 = provider_due js [1]"
    "buyer_due js [1] - (panel_fee js 1 + 1) div 2 = buyer_due js []"
    "provider_due js [1] - panel_fee js 1 div 2 = provider_due js []" for js
    by (simp_all add: buyer_due_def provider_due_def)
  show ?thesis
    using r
  proof
    assume "r = 0"
    with ok share fee len due(1,2) show ?thesis
      by (simp add: order_step_defs ruled_def due_nonneg)
  next
    assume "r = 1"
    with ok share fee len due(3,4) show ?thesis
      by (simp add: order_step_defs ruled_def due_nonneg)
  qed
qed

text \<open>The escrow of a ruling: each party's half of the fee leaves its held balance, each judge earns.\<close>

definition rules_to :: "config \<Rightarrow> state \<Rightarrow> string \<Rightarrow> order \<Rightarrow> state \<Rightarrow> bool" where
  "rules_to config s oid ord s' \<longleftrightarrow> (\<exists>r js fee rulings share au s2.
     js = take 3 (drop (3 * r) (tm_judges (od_terms ord))) \<and> fee = judge_fees js \<and>
     od_status ord = Disputed \<and> od_round ord = Some r \<and> 0 \<le> share \<and> share \<le> 10000
     \<and> earn_all (upd_acct (od_provider ord) (\<lambda>a. a\<lparr>ac_held := ac_held a - fee div 2\<rparr>)
        (upd_acct (od_buyer ord) (\<lambda>a. a\<lparr>ac_held := ac_held a - (fee + 1) div 2\<rparr>) s)) js = Inr s2
     \<and> s' = put_order oid (ruled config ord ((fee + 1) div 2) (fee div 2) rulings share au) s2)"

lemma rule_rules_to:
  assumes act: "act_rule C config s oid (charge ord) network value t = Inr s'"
  shows "rules_to config s oid ord s'"
proof -
  obtain r js h version rulings shares s2 where
    rnd: "od_round ord = Some r" and panel: "order_panel (charge ord) r = Inr js"
    and shares: "read_rulings version C js network h [] [] (jlist rulings) = Inr shares"
    and len: "length (jlist rulings) = 3" and dis: "od_status ord = Disputed"
    and earn: "earn_all (upd_acct (od_provider ord) (\<lambda>a. a\<lparr>ac_held := ac_held a - judge_fees js div 2\<rparr>)
        (upd_acct (od_buyer ord) (\<lambda>a. a\<lparr>ac_held := ac_held a - (judge_fees js + 1) div 2\<rparr>) s)) js = Inr s2"
    and s': "s' = put_order oid (ruled config ord ((judge_fees js + 1) div 2) (judge_fees js div 2) rulings
        (sort shares ! 1) (t + cf_appeal_window_s config)) s2"
    using act unfolding act_rule_def Let_def ruled_def guard_simps
    apply simp
    apply (elim exE conjE)
    subgoal premises p for x r js pl shares s2
      using p(7,8,12,11,16) p(17)[symmetric] by (rule p(1))
    done
  have js: "js = take 3 (drop (3 * r) (tm_judges (od_terms ord)))"
    using panel by (auto simp: order_panel_def judge_panel_def Let_def guard_simps)
  show ?thesis
    unfolding rules_to_def
    by (intro exI conjI, rule js, rule refl, rule dis, rule rnd, rule median_range(1) [OF shares len],
      rule median_range(2) [OF shares len], rule earn, rule s')
qed

lemma rule_book:
  assumes act: "rules_to config s oid ord s'" and inv: "book_inv config 0 {} s"
    and ord: "map_of (st_orders s) oid = Some ord" "is_open ord"
  shows "book_inv config 1 {} s'"
proof -
  have ok: "order_ok ord" by (rule open_order_ok [OF inv ord(1)])
  obtain r rulings share au s2 fee js where
    dis: "od_status ord = Disputed" and rnd: "od_round ord = Some r"
    and js: "js = take 3 (drop (3 * r) (tm_judges (od_terms ord)))" and fee_def: "fee = judge_fees js"
    and share: "0 \<le> share" "share \<le> 10000"
    and earn: "earn_all (upd_acct (od_provider ord) (\<lambda>a. a\<lparr>ac_held := ac_held a - fee div 2\<rparr>)
        (upd_acct (od_buyer ord) (\<lambda>a. a\<lparr>ac_held := ac_held a - (fee + 1) div 2\<rparr>) s)) js = Inr s2"
    and s': "s' = put_order oid (ruled config ord ((fee + 1) div 2) (fee div 2) rulings share au) s2"
    using act unfolding rules_to_def by (elim exE conjE)
  have nn: "\<forall>j \<in> set js. 0 \<le> jd_fee j"
    using ok ord(2) unfolding js by (auto simp: order_ok_def dest!: in_set_takeD in_set_dropD)
  let ?ord' = "ruled config ord ((fee + 1) div 2) (fee div 2) rulings share au"
  have ok': "order_ok ?ord'"
    by (rule ruled_ok [OF ok ord(2) dis rnd share]) (simp add: fee_def js panel_fee_def)
  have op': "is_open ?ord'" by (simp add: ruled_def is_open_def terminal_def)
  have ne: "od_buyer ord \<noteq> od_provider ord" using ok by (simp add: order_ok_def amounts_ok_def)
  have owed: "ord_owed p ?ord' = ord_owed p ord - (if od_buyer ord = p then (fee + 1) div 2 else 0)
      - (if od_provider ord = p then fee div 2 else 0)" for p
    using ord(2) op' by (simp add: ord_owed_def) (simp add: ruled_def)
  have "money_inv config s'"
    unfolding s' using inv by (intro fee_money [OF _ ord(1) ne nn fee_def earn owed]) (simp add: book_inv_def)
  note e = earn_all_result [OF earn nn]
  with \<open>money_inv config s'\<close> show ?thesis
    using inv ord ok' op' e unfolding s'
    by (auto simp: book_inv_def all_orders_ok_def all_proposals_ok_def ops_used_def reserved_ops_def
        dsum_put logged_def ruled_def)
qed

subsection \<open>The other actions\<close>

lemma integer_Inr: "integer j m = Inr i \<longleftrightarrow> j = JInt i \<and> 0 \<le> i \<and> i \<le> m"
  by (auto simp: integer_def guard_simps split: json.splits)

lemma book_inv_slack: "book_inv config k new s \<Longrightarrow> j \<le> k \<Longrightarrow> new \<subseteq> new' \<Longrightarrow> book_inv config j new' s"
  by (auto simp: book_inv_def logged_def)

lemma profile_book:
  assumes act: "act_profile s owner value = Inr s'" and inv: "book_inv config k new s"
  shows "book_inv config k new s'"
proof -
  obtain label ek where "s' = upd_acct owner (\<lambda>r. r\<lparr>ac_label := label, ac_encryption_key := ek\<rparr>) s"
    using act unfolding act_profile_def Let_def guard_simps by auto
  then show ?thesis by (simp add: book_inv_acct [OF inv] weight_def)
qed

lemma device_book:
  assumes act: "act_device s owner signer value = Inr s'" and inv: "book_inv config k new s"
  shows "book_inv config k new s'"
proof (cases "jfield ''allowed'' value")
  case (JBool b)
  then show ?thesis
    using act inv unfolding act_device_def
    by (cases b) (auto simp: guard_simps weight_def intro!: book_inv_acct)
qed (use act in \<open>auto simp: act_device_def guard_simps\<close>)

lemma acct_touch [simp]: "acct (touch p s) q = acct s q"
  by (simp add: touch_def)

lemma pay_money:
  assumes "money_inv config s" "q \<noteq> p" "0 < paid" "paid \<le> ac_available (acct s p)"
  shows "money_inv config (upd_acct q (\<lambda>r. r\<lparr>ac_available := ac_available r + paid, ac_earned := ac_earned r + paid\<rparr>)
    (upd_acct p (\<lambda>r. r\<lparr>ac_available := ac_available r - paid\<rparr>) s))"
  using assms by (auto simp: money_inv_def total_supply_upd weight_def intro!: add_nonneg_nonneg)

lemma transfer_book:
  assumes act: "act_transfer s owner value = Inr s'" and inv: "book_inv config k new s"
  shows "book_inv config k new s'"
proof -
  obtain recipient paid where ne: "recipient \<noteq> owner" and paid: "0 < paid" "paid \<le> ac_available (acct s owner)"
    and s': "s' = upd_acct recipient (\<lambda>r. r\<lparr>ac_available := ac_available r + paid, ac_earned := ac_earned r + paid\<rparr>)
      (upd_acct owner (\<lambda>r. r\<lparr>ac_available := ac_available r - paid\<rparr>) (touch recipient s))"
    using act unfolding act_transfer_def Let_def guard_simps earn_Inr by auto
  have t: "book_inv config k new (touch recipient s)" by (rule book_inv_touch [OF inv])
  have "money_inv config s'"
    unfolding s' using t ne paid by (intro pay_money) (simp_all add: book_inv_def)
  with t show ?thesis
    unfolding s' by (simp add: book_inv_def all_orders_ok_def all_proposals_ok_def ops_used_def logged_def)
qed

lemma listing_book:
  assumes "act_listing s owner op_id value t = Inr s'" "book_inv config k new s"
  shows "book_inv config k new s'"
  using assms unfolding act_listing_def guard_simps by (auto simp: book_inv_listings)

lemma withdraw_book:
  assumes "act_withdraw s owner value = Inr s'" "book_inv config k new s"
  shows "book_inv config k new s'"
  using assms unfolding act_withdraw_def guard_simps
  by (auto simp: book_inv_listings guard_simps split: option.splits)

lemma propose_book:
  assumes act: "act_propose config0 s owner op_id value = Inr s'" and inv: "book_inv config k new s"
  shows "book_inv config k new s'"
proof -
  obtain listing where "propose_on config0 s owner op_id value listing = Inr s'"
    using act by (auto simp: act_propose_def guard_simps split: option.splits)
  then obtain q where "s' = s\<lparr>st_proposals := dict_put op_id q (st_proposals s)\<rparr>" "proposal_ok q"
    unfolding propose_on_def Let_def by (auto simp: guard_simps integer_Inr proposal_ok_def)
  with book_inv_proposal [OF inv] show ?thesis by simp
qed

lemma reward_book:
  assumes act: "act_reward C config s owner network value = Inr s'" and inv: "book_inv config k new s"
    and cfg: "config_ok config"
  shows "book_inv config k new s'"
proof -
  obtain job_id s1 where e: "earn s owner (cf_work_reward config) = Inr s1"
    and lim: "st_issued s + cf_work_reward config \<le> cf_issuance_limit config"
    and s': "s1\<lparr>st_issued := st_issued s1 + cf_work_reward config, st_rewards := dict_put job_id owner (st_rewards s1)\<rparr> = s'"
    using act unfolding act_reward_def Let_def guard_simps sum.inject by blast
  from cfg have "0 < cf_work_reward config" by (simp add: config_ok_def)
  then have "money_inv config s'"
    using inv e lim unfolding s' [symmetric] earn_Inr
    by (auto simp: book_inv_def money_inv_def total_supply_upd weight_def intro!: add_nonneg_nonneg)
  then show ?thesis
    using inv e unfolding s' [symmetric] earn_Inr
    by (auto simp: book_inv_def all_orders_ok_def all_proposals_ok_def ops_used_def logged_def)
qed

text \<open>A new order: its terms carry the selected judges, and its reserves are their fees for both rounds.\<close>

lemma terms_for_facts:
  assumes "terms_for config q listing = Inr terms" "config_ok config"
  shows "tm_buyer_dispute_reserve terms = buyer_due (tm_judges terms) [0, 1]"
    "tm_provider_dispute_reserve terms = provider_due (tm_judges terms) [0, 1]"
    "\<forall>j \<in> set (tm_judges terms). 0 \<le> jd_fee j" "tm_dispute_timeout_share_bps terms = 5000"
proof -
  obtain js where sel: "selected_judges config (pr_buyer q) (pr_provider q) = Inr js"
    and terms: "tm_judges terms = js" "tm_buyer_dispute_reserve terms = fst (fees js)"
      "tm_provider_dispute_reserve terms = snd (fees js)" "tm_dispute_timeout_share_bps terms = 5000"
    using assms(1) unfolding terms_for_def Let_def guard_simps by auto
  show "tm_buyer_dispute_reserve terms = buyer_due (tm_judges terms) [0, 1]"
    "tm_provider_dispute_reserve terms = provider_due (tm_judges terms) [0, 1]"
    "tm_dispute_timeout_share_bps terms = 5000"
    using terms by (simp_all add: fees_due)
  have "set js \<subseteq> set (cf_judges config)"
    using sel by (auto simp: selected_judges_def party_panel_def judge_panel_def eligible_judges_def Let_def guard_simps
        split: if_splits dest!: in_set_takeD in_set_dropD)
  then show "\<forall>j \<in> set (tm_judges terms). 0 \<le> jd_fee j"
    using assms(2) terms(1) by (auto simp: config_ok_def)
qed

lemma new_order_ok:
  assumes terms: "terms_for config q listing = Inr terms" and cfg: "config_ok config" and q: "proposal_ok q"
  shows "order_ok (new_order op_id q terms t)" "is_open (new_order op_id q terms t)"
  using terms_for_facts [OF terms cfg] q due_nonneg [of "tm_judges terms" "[0, 1]"]
  by (simp_all add: new_order_def order_step_defs proposal_ok_def OPS_IN_HAND_def ORDER_OPERATION_RESERVE_def)

lemma agree_book:
  assumes act: "act_agree C config s owner op_id value t = Inr s'"
    and inv: "book_inv config (1 + ORDER_OPERATION_RESERVE) {} s" and cfg: "config_ok config"
    and fresh: "map_of (st_operations s) op_id = None"
  shows "book_inv config 1 {op_id} s'"
proof -
  obtain q pid where "agree_on C config s owner op_id value t q = Inr s'" and q: "map_of (st_proposals s) pid = Some q"
    using act by (auto simp: act_agree_def guard_simps split: option.splits)
  then obtain listing terms s1 s2 where terms: "terms_for config q listing = Inr terms"
    and h1: "hold s (pr_buyer q) (pr_price q + tm_buyer_dispute_reserve terms) = Inr s1"
    and h2: "hold s1 (pr_provider q) (tm_provider_dispute_reserve terms) = Inr s2"
    and s': "s' = put_order op_id (new_order op_id q terms t)
      (s2\<lparr>st_proposals := dict_put (jstr ''proposal_id'' value) (q\<lparr>pr_status := ''accepted''\<rparr>) (st_proposals s2)\<rparr>)"
    unfolding agree_on_def Let_def by (auto simp: guard_simps)
  let ?new = "new_order op_id q terms t"
  have q_ok: "proposal_ok q" using inv q by (auto simp: book_inv_def all_proposals_ok_def)
  note new = new_order_ok [OF terms cfg q_ok, of op_id t]
  have no_order: "map_of (st_orders s) op_id = None"
    using inv fresh by (auto simp: book_inv_def logged_def)
  have owed: "ord_owed p ?new = (if pr_buyer q = p then pr_price q + tm_buyer_dispute_reserve terms else 0)
      + (if pr_provider q = p then tm_provider_dispute_reserve terms else 0)" for p
    by (simp add: ord_owed_def new_order_def is_open_def terminal_def)
  have ne: "pr_buyer q \<noteq> pr_provider q" using q_ok by (simp add: proposal_ok_def)
  have m: "money_inv config s" using inv by (simp add: book_inv_def)
  have "old_owed s2 op_id p = 0" "escrow s2 p = escrow s p" for p
    using h1 h2 no_order by (simp_all add: hold_Inr old_owed_def)
  then have "money_inv config s'"
    using m h1 h2 ne unfolding s' by (auto simp: money_inv_def hold_Inr owed total_supply_upd weight_def)
  moreover have "reserved_ops s' = reserved_ops s + ORDER_OPERATION_RESERVE"
    using h1 h2 no_order unfolding s' by (auto simp: reserved_ops_def hold_Inr dsum_put new_order_def is_open_def terminal_def)
  moreover have "all_orders_ok s'" "all_proposals_ok s'" "logged {op_id} s'"
    "st_operations s' = st_operations s"
    using inv h1 h2 new q_ok unfolding s'
    by (auto simp: book_inv_def all_orders_ok_def all_proposals_ok_def logged_def hold_Inr proposal_ok_def)
  ultimately show ?thesis using inv by (simp add: book_inv_def ops_used_def)
qed

subsection \<open>What no action touches\<close>

text \<open>
  The operation log, the clock and the nonces are changed by \<open>record_op\<close> only, and an action changes
  no order outside \<open>K\<close>: its own order, or the one it creates.
\<close>

definition same_log :: "string set \<Rightarrow> state \<Rightarrow> state \<Rightarrow> bool" where
  "same_log K s s' \<longleftrightarrow> st_operations s' = st_operations s \<and> st_time s' = st_time s
     \<and> (\<forall>p. ac_nonce (acct s' p) = ac_nonce (acct s p))
     \<and> (\<forall>k. k \<notin> K \<longrightarrow> map_of (st_orders s') k = map_of (st_orders s) k)"

lemma same_log_refl [simp]: "same_log K s s"
  by (simp add: same_log_def)

lemma same_log_trans [trans]: "same_log K a b \<Longrightarrow> same_log K b c \<Longrightarrow> same_log K a c"
  by (simp add: same_log_def)

lemma same_log_mono: "same_log K s s' \<Longrightarrow> K \<subseteq> L \<Longrightarrow> same_log L s s'"
  by (auto simp: same_log_def)

lemma same_log_simps [simp]:
  "same_log K s (s'\<lparr>st_listings := l\<rparr>) = same_log K s s'"
  "same_log K s (s'\<lparr>st_proposals := q\<rparr>) = same_log K s s'" "same_log K s (s'\<lparr>st_issued := i\<rparr>) = same_log K s s'"
  "same_log K s (s'\<lparr>st_rewards := w\<rparr>) = same_log K s s'" "same_log K s (touch p s') = same_log K s s'"
  by (auto simp: same_log_def touch_def)

lemma same_log_put [simp]: "oid \<in> K \<Longrightarrow> same_log K s (put_order oid ord s') = same_log K s s'"
  by (auto simp: same_log_def)

lemma same_log_upd [simp]:
  "(\<And>r. ac_nonce (f r) = ac_nonce r) \<Longrightarrow> same_log K s (upd_acct p f s') = same_log K s s'"
  by (auto simp: same_log_def)

lemma earn_log: "earn s p v = Inr s' \<Longrightarrow> same_log K s s'"
  by (auto simp: earn_Inr)

lemma close_log: "close_order s oid ord paid st = Inr s' \<Longrightarrow> same_log {oid} s s'"
  by (auto simp: close_order_def Let_def guard_simps escrow_ops)

lemma earn_all_log: "earn_all s js = Inr s' \<Longrightarrow> same_log K s s'"
  by (induction js arbitrary: s) (auto simp: guard_simps intro: same_log_trans dest: earn_log [of _ _ _ _ K])

lemma order_dispatch_log:
  assumes "order_dispatch C config s owner oid ord network action value t = Inr s'"
  shows "same_log {oid} s s'"
proof -
  have "act_deliver s owner oid ord value t = Inr s' \<Longrightarrow> same_log {oid} s s'"
    unfolding act_deliver_def Let_def guard_simps sum.inject by (elim exE conjE, hypsubst, simp (no_asm))
  moreover have "act_accept s owner oid ord value = Inr s' \<Longrightarrow> same_log {oid} s s'"
    unfolding act_accept_def guard_simps by (auto dest: close_log)
  moreover have "act_refund s owner oid ord value = Inr s' \<Longrightarrow> same_log {oid} s s'"
    unfolding act_refund_def Let_def guard_simps by (auto dest: close_log split: if_splits)
  moreover have "act_dispute s owner oid ord value t = Inr s' \<Longrightarrow> same_log {oid} s s'"
    unfolding act_dispute_def guard_simps sum.inject by (elim exE conjE, hypsubst, simp (no_asm))
  moreover have "act_evidence s owner oid ord value t = Inr s' \<Longrightarrow> same_log {oid} s s'"
    unfolding act_evidence_def Let_def guard_simps sum.inject by (elim exE conjE, hypsubst, simp (no_asm))
  moreover have "act_rule C config s oid ord network value t = Inr s' \<Longrightarrow> same_log {oid} s s'"
    unfolding act_rule_def Let_def guard_simps sum.inject
    by (elim exE conjE, drule earn_all_log [of _ _ _ "{oid}"], hypsubst, simp (no_asm), erule same_log_trans [rotated], simp (no_asm))
  moreover have "act_appeal s owner oid ord value t = Inr s' \<Longrightarrow> same_log {oid} s s'"
    unfolding act_appeal_def guard_simps sum.inject by (elim exE conjE, hypsubst, simp (no_asm))
  moreover have "act_waive C s owner oid ord value = Inr s' \<Longrightarrow> same_log {oid} s s'"
    unfolding act_waive_def guard_simps sum.inject by (elim exE conjE, hypsubst, simp (no_asm))
  moreover have "act_finalize C s oid ord value t = Inr s' \<Longrightarrow> same_log {oid} s s'"
    unfolding act_finalize_def guard_simps by (auto dest: close_log)
  moreover have "act_timeout C s oid ord value t = Inr s' \<Longrightarrow> same_log {oid} s s'"
    unfolding act_timeout_def guard_simps by (auto simp: guard_simps dest: close_log split: if_splits)
  ultimately show ?thesis
    using assms unfolding order_dispatch_def by (simp split: if_splits)
qed

lemma account_action_log:
  "act_profile s owner value = Inr s' \<Longrightarrow> same_log {} s s'"
  "act_device s owner signer value = Inr s' \<Longrightarrow> same_log {} s s'"
  "act_transfer s owner value = Inr s' \<Longrightarrow> same_log {} s s'"
proof -
  show "act_profile s owner value = Inr s' \<Longrightarrow> same_log {} s s'"
    unfolding act_profile_def Let_def guard_simps sum.inject by (elim exE conjE, hypsubst, simp (no_asm))
  show "act_device s owner signer value = Inr s' \<Longrightarrow> same_log {} s s'"
    unfolding act_device_def by (cases "jfield ''allowed'' value"; cases "jfield ''allowed'' value = JBool True")
      (auto simp: guard_simps split: bool.splits)
  show "act_transfer s owner value = Inr s' \<Longrightarrow> same_log {} s s'"
    unfolding act_transfer_def Let_def guard_simps earn_Inr by auto
qed

lemma market_action_log:
  "act_listing s owner op_id value t = Inr s' \<Longrightarrow> same_log {} s s'"
  "act_withdraw s owner value = Inr s' \<Longrightarrow> same_log {} s s'"
  "act_propose config s owner op_id value = Inr s' \<Longrightarrow> same_log {} s s'"
  "act_agree C config s owner op_id value t = Inr s' \<Longrightarrow> same_log {op_id} s s'"
  "act_reward C config s owner network value = Inr s' \<Longrightarrow> same_log {} s s'"
proof -
  show "act_listing s owner op_id value t = Inr s' \<Longrightarrow> same_log {} s s'"
    unfolding act_listing_def guard_simps sum.inject by (elim exE conjE, hypsubst, simp (no_asm))
  show "act_withdraw s owner value = Inr s' \<Longrightarrow> same_log {} s s'"
    unfolding act_withdraw_def by (auto simp: guard_simps split: option.splits)
  show "act_propose config s owner op_id value = Inr s' \<Longrightarrow> same_log {} s s'"
    unfolding act_propose_def propose_on_def Let_def by (auto simp: guard_simps split: option.splits)
  show "act_agree C config s owner op_id value t = Inr s' \<Longrightarrow> same_log {op_id} s s'"
    unfolding act_agree_def agree_on_def Let_def
    by (auto simp: guard_simps hold_Inr split: option.splits)
  show "act_reward C config s owner network value = Inr s' \<Longrightarrow> same_log {} s s'"
    unfolding act_reward_def Let_def guard_simps sum.inject
    by (elim exE conjE, drule earn_log [of _ _ _ _ "{}"], hypsubst, simp)
qed

lemma act_order_found:
  assumes "act_order C config s owner network action value t = Inr s'"
  obtains oid ord where "map_of (st_orders s) oid = Some ord" "party owner ord" "is_open ord"
    "order_dispatch C config s owner oid (charge ord) network (py_str action) (drop_key ''reviewed_order'' value) t = Inr s'"
    "jget ''reviewed_order'' value = Some (JStr (order_commitment C ord))" "0 < od_remaining_ops ord"
    "jget ''order_id'' value = Some (JStr oid)" "in_strings action ORDER_ACTIONS = Inr True"
proof -
  obtain ord where ord: "lookup_order s value = Inr (Some ord)" "party owner ord" "is_open ord" "0 < od_remaining_ops ord"
    "jget ''reviewed_order'' value = Some (JStr (order_commitment C ord))" "in_strings action ORDER_ACTIONS = Inr True"
    "order_dispatch C config s owner (jstr ''order_id'' value) (charge ord) network (py_str action)
       (drop_key ''reviewed_order'' value) t = Inr s'"
    using assms unfolding act_order_def party_def by (simp add: bnd_Inr require_Inr split: option.splits) blast
  then obtain oid where "jget ''order_id'' value = Some (JStr oid)" "map_of (st_orders s) oid = Some ord"
    by (auto simp: lookup_order_def guard_simps split: option.splits)
  with ord show thesis by (auto simp: jstr_def intro: that)
qed

text \<open>The only order that a command may change.\<close>

definition touched :: "string \<Rightarrow> json \<Rightarrow> json \<Rightarrow> string set" where
  "touched op_id action value = (if action = JStr ''agree'' then {op_id}
     else if in_strings action ORDER_ACTIONS = Inr True then {jstr ''order_id'' value} else {})"

lemma dispatch_log:
  assumes "dispatch C config s owner signer op_id network action value t = Inr s'"
  shows "same_log (touched op_id action value) s s'"
proof -
  have "same_log (touched op_id action value) s s'"
    if "act_order C config s owner network action value t = Inr s'"
    using that
  proof (rule act_order_found)
    fix oid ord
    assume "order_dispatch C config s owner oid (charge ord) network (py_str action)
        (drop_key ''reviewed_order'' value) t = Inr s'" "jget ''order_id'' value = Some (JStr oid)"
      "in_strings action ORDER_ACTIONS = Inr True"
    then show ?thesis
      using order_dispatch_log by (auto simp: touched_def jstr_def guard_simps ORDER_ACTIONS_def)
  qed
  moreover have "same_log (touched op_id action value) s s'" if "same_log {} s s'"
    using that by (rule same_log_mono) simp
  ultimately show ?thesis
    using assms account_action_log market_action_log(1-3,5) market_action_log(4)
    unfolding dispatch_def by (auto simp: touched_def split: if_splits)
qed

text \<open>An order action moves the order on in place, closes it, or rules on it.\<close>

lemma order_dispatch_cases:
  assumes act: "order_dispatch C config s owner oid (charge ord) network action value t = Inr s'"
    and ok: "order_ok ord" "is_open ord" "party owner ord"
  obtains (step) ord' where "s' = put_order oid ord' s" "order_step ord ord'"
    | (close) paid st where "closes s oid ord paid st s'"
    | (rule) "rules_to config s oid ord s'"
proof -
  define Q where "Q \<longleftrightarrow> (\<exists>ord'. s' = put_order oid ord' s \<and> order_step ord ord') \<or> (\<exists>paid st. closes s oid ord paid st s')
    \<or> rules_to config s oid ord s'"
  have q: "act_deliver s owner oid (charge ord) value t = Inr s' \<Longrightarrow> Q"
    "act_dispute s owner oid (charge ord) value t = Inr s' \<Longrightarrow> Q"
    "act_evidence s owner oid (charge ord) value t = Inr s' \<Longrightarrow> Q"
    "act_appeal s owner oid (charge ord) value t = Inr s' \<Longrightarrow> Q"
    "act_waive C s owner oid (charge ord) value = Inr s' \<Longrightarrow> Q"
    unfolding Q_def
    by (drule deliver_step [OF _ ok(1,2)], erule disjI1) (drule dispute_step [OF _ ok(1,2)], erule disjI1,
      drule evidence_step [OF _ ok], erule disjI1, drule appeal_step [OF _ ok(1,2)], erule disjI1,
      drule waive_step [OF _ ok], erule disjI1)
  have "act_refund s owner oid (charge ord) value = Inr s' \<Longrightarrow> Q" unfolding Q_def using refund_cases [OF _ ok] by blast
  moreover have "act_accept s owner oid (charge ord) value = Inr s' \<Longrightarrow> Q" unfolding Q_def using accept_closes by blast
  moreover have "act_finalize C s oid (charge ord) value t = Inr s' \<Longrightarrow> Q" unfolding Q_def by (erule finalize_closes) blast
  moreover have "act_timeout C s oid (charge ord) value t = Inr s' \<Longrightarrow> Q"
    unfolding Q_def by (erule timeout_closes [OF _ ok(2)]) blast
  moreover have "act_rule C config s oid (charge ord) network value t = Inr s' \<Longrightarrow> Q"
    unfolding Q_def using rule_rules_to by blast
  ultimately have Q using act q unfolding order_dispatch_def by (simp split: if_splits)
  then show thesis unfolding Q_def using step close rule by blast
qed

lemma order_dispatch_book:
  assumes act: "order_dispatch C config s owner oid (charge ord) network action value t = Inr s'"
    and inv: "book_inv config 0 {} s" and ord: "map_of (st_orders s) oid = Some ord" "is_open ord" "party owner ord"
  shows "book_inv config 1 {} s'"
  using act open_order_ok [OF inv ord(1)] ord(2,3)
proof (cases rule: order_dispatch_cases)
  case (step ord')
  then show ?thesis using book_inv_step [OF inv ord(1,2)] by simp
next
  case close
  then show ?thesis using closes_book [OF _ inv ord(1,2)] by simp
next
  case rule
  then show ?thesis using rule_book [OF _ inv ord(1,2)] by simp
qed

lemma act_order_book:
  assumes act: "act_order C config s owner network action value t = Inr s'" and inv: "book_inv config 0 {} s"
  shows "book_inv config 1 {} s'"
  using act by (rule act_order_found) (rule order_dispatch_book [OF _ inv])

subsection \<open>One command\<close>

definition account_actions :: "string list" where
  "account_actions = [''profile'', ''device'', ''transfer'', ''listing'', ''withdraw'', ''propose'', ''agree'', ''reward'']"

lemma account_actions_not_order: "a \<in> set account_actions \<Longrightarrow> a \<notin> set ORDER_ACTIONS"
  by (auto simp: account_actions_def ORDER_ACTIONS_def)

lemma admit_book:
  assumes "admit s owner action = Inr s1" "book_inv config 0 {} s"
  shows "book_inv config 0 {} s1"
    and "\<exists>a \<in> set account_actions. action = JStr a \<Longrightarrow>
         book_inv config (1 + (if action = JStr ''agree'' then ORDER_OPERATION_RESERVE else 0)) {} s1"
    and "same_log {} s s1"
proof -
  have s1: "s1 = s \<or> s1 = upd_acct owner (\<lambda>r. r\<lparr>ac_admissions := ac_admissions r + 1\<rparr>) s"
    using assms(1) by (auto simp: admit_def guard_simps Let_def split: if_splits)
  have upd: "book_inv config k {} (upd_acct owner (\<lambda>r. r\<lparr>ac_admissions := ac_admissions r + 1\<rparr>) s)"
    if "book_inv config k {} s" for k
    using that by (rule book_inv_acct) (simp_all add: weight_def)
  show "book_inv config 0 {} s1" using s1 upd assms(2) by auto
  show "same_log {} s s1" using s1 by auto
  assume "\<exists>a \<in> set account_actions. action = JStr a"
  then have "in_strings action ORDER_ACTIONS = Inr False"
    using account_actions_not_order by (auto simp: in_strings_def)
  with assms have "book_inv config (1 + (if action = JStr ''agree'' then ORDER_OPERATION_RESERVE else 0)) {} s"
    "s1 = upd_acct owner (\<lambda>r. r\<lparr>ac_admissions := ac_admissions r + 1\<rparr>) s"
    by (auto simp: admit_def guard_simps Let_def book_inv_def ops_used_def)
  then show "book_inv config (1 + (if action = JStr ''agree'' then ORDER_OPERATION_RESERVE else 0)) {} s1"
    using upd by simp
qed

lemma dispatch_book:
  assumes adm: "admit s owner action = Inr s1"
    and act: "dispatch C config s1 owner signer op_id network action value t = Inr s2"
    and inv: "book_inv config 0 {} s" and cfg: "config_ok config" and fresh: "map_of (st_operations s) op_id = None"
  shows "book_inv config 1 {op_id} s2"
proof -
  note a = admit_book [OF adm inv]
  have fresh1: "map_of (st_operations s1) op_id = None" using a(3) fresh by (simp add: same_log_def)
  have acc: "book_inv config 1 {} s1" if "action = JStr x" "x \<in> set account_actions" for x
    using a(2) that by (auto elim!: book_inv_slack simp: ORDER_OPERATION_RESERVE_def split: if_splits)
  have one: "book_inv config 1 {} s2 \<Longrightarrow> book_inv config 1 {op_id} s2"
    by (rule book_inv_slack) auto
  show ?thesis
  proof (cases "action = JStr ''agree''")
    case True
    then have "act_agree C config s1 owner op_id value t = Inr s2" using act by (simp add: dispatch_def)
    with True a(2) cfg fresh1 show ?thesis by (intro agree_book) (auto simp: account_actions_def)
  next
    case False
    have "book_inv config 1 {} s2"
      using act False acc [unfolded account_actions_def] act_order_book [OF _ a(1)]
        profile_book device_book transfer_book listing_book withdraw_book propose_book reward_book [OF _ _ cfg]
      unfolding dispatch_def by (auto split: if_splits)
    then show ?thesis by (rule one)
  qed
qed

lemma record_op_book:
  assumes "book_inv config 1 {op_id} s" "map_of (st_operations s) op_id = None"
  shows "book_inv config 0 {} (record_op s owner op_id digest t)"
proof -
  have "book_inv config 1 {op_id} (upd_acct owner (\<lambda>r. r\<lparr>ac_nonce := ac_nonce r + 1\<rparr>) s)"
    using assms(1) by (rule book_inv_acct) (simp_all add: weight_def)
  then show ?thesis
    using assms(2) unfolding record_op_def
    by (auto simp: book_inv_def money_inv_def all_orders_ok_def all_proposals_ok_def ops_used_def logged_def
        reserved_ops_def length_put)
qed

end
