(* ===== verification/Exchange_Safety.thy ===== *)
theory Exchange_Safety
  imports Exchange_Invariant
begin

section \<open>What the exchange guarantees\<close>

text \<open>
  The exchange as a guarded machine over \<open>exch_inv\<close>, the parts of an accepted command, and the lemmas on orders, operations and
  balances that the properties rest on.
\<close>

lemma apply_parts:
  assumes "apply_cmd C s wire config t = Inr s'"
  obtains signed op_id owner s1 s2 where
    "signature C wire = Inr signed"
    "identifier_check (jfield ''id'' (sp_payload signed)) = Inr op_id"
    "key_check (jfield ''actor'' (sp_payload signed)) = Inr owner"
    "sp_public_key signed = owner \<or> sp_public_key signed \<in> set (ac_devices (acct s owner))"
    "map_of (st_operations s) op_id = None"
    "jfield ''nonce'' (sp_payload signed) = JInt (ac_nonce (acct s owner) + 1)"
    "st_time s \<le> t"
    "admit (touch owner s) owner (jfield ''action'' (sp_payload signed)) = Inr s1"
    "dispatch C config s1 owner (sp_public_key signed) op_id (jfield ''network'' (sp_payload signed))
       (jfield ''action'' (sp_payload signed)) (jfield ''value'' (sp_payload signed)) t = Inr s2"
    "s' = record_op s2 owner op_id (json_hash C wire) t"
  using assms unfolding apply_cmd_def apply_body_def final_checks_def Let_def guard_simps sum.inject
  by (auto simp: integer_Inr touch_def)

lemma apply_inv:
  assumes act: "apply_cmd C s wire config t = Inr s'" and inv: "exch_inv config s"
  shows "exch_inv config s'"
  using act
proof (rule apply_parts)
  fix signed :: signed_payload and op_id owner s1 s2
  assume fresh: "map_of (st_operations s) op_id = None"
    and adm: "admit (touch owner s) owner (jfield ''action'' (sp_payload signed)) = Inr s1"
    and dis: "dispatch C config s1 owner (sp_public_key signed) op_id (jfield ''network'' (sp_payload signed))
       (jfield ''action'' (sp_payload signed)) (jfield ''value'' (sp_payload signed)) t = Inr s2"
    and s': "s' = record_op s2 owner op_id (json_hash C wire) t"
  have cfg: "config_ok config" and b: "book_inv config 0 {} (touch owner s)"
    using inv by (auto simp: exch_inv_def intro: book_inv_touch)
  have fresh': "map_of (st_operations (touch owner s)) op_id = None" using fresh by (simp add: touch_def)
  have "map_of (st_operations s2) op_id = None"
    using fresh' admit_book(3) [OF adm b] dispatch_log [OF dis] by (simp add: same_log_def)
  with dispatch_book [OF adm dis b cfg fresh'] cfg show ?thesis
    unfolding s' exch_inv_def by (auto intro: record_op_book)
qed

interpretation exch: guarded_machine "\<lambda>s c. apply_cmd C s (fst c) config (snd c)" "exch_inv config"
  for C config
  by unfold_locales (rule apply_inv)

lemma genesis_entries_fee:
  "genesis_entries vs js seen es = Inr u \<Longrightarrow> e \<in> set es \<Longrightarrow> e \<in> set js \<Longrightarrow> 0 \<le> jint ''fee'' e"
proof (induction es arbitrary: seen)
  case (Cons x es)
  have "list_ex (py_eq e) js" using Cons.prems(3) by (auto simp: list_ex_iff py_eq_def)
  then show ?case
    using Cons.prems Cons.IH by (auto simp: guard_simps integer_Inr jint_def)
qed simp

lemma genesis_checks_ok:
  assumes "genesis_checks ver cov value = Inr config"
  shows "config = parse_config value" "cf_version config = ver" "config_ok config" "4 \<le> length (cf_validators config)" "length (cf_validators config) \<le> 8"
proof -
  let ?vs = "jlist (jfield ''validators'' value)" and ?js = "jlist (jfield ''judges'' value)"
  from assms have cfg: "config = parse_config value" and len: "4 \<le> length ?vs" "length ?vs \<le> 8"
    and ent: "genesis_entries ?vs ?js [] (?vs @ ?js) = Inr ()"
    and lim: "\<exists>i. jfield ''issuance_limit'' value = JInt i \<and> i \<le> 1000000 * UNITS
      \<and> (\<exists>w. jfield ''work_reward'' value = JInt w \<and> 0 < w \<and> w \<le> i)"
    and win: "\<exists>a. jfield ''appeal_window_s'' value = JInt a \<and> 60 \<le> a"
    and version: "jget ''version'' value = Some (JStr ver)"
    unfolding genesis_checks_def Let_def
    by (auto simp: guard_simps integer_Inr split: json.splits)
  show "config = parse_config value" by (rule cfg)
  show "cf_version config = ver" using version by (simp add: cfg parse_config_def jstr_def)
  have "0 \<le> jd_fee j" if j: "j \<in> set (cf_judges config)" for j
  proof -
    obtain e where e: "e \<in> set ?js" "j = parse_judge e" using j by (auto simp: cfg parse_config_def)
    with genesis_entries_fee [OF ent] have "0 \<le> jint ''fee'' e" by auto
    with e show ?thesis by (simp add: parse_judge_def)
  qed
  then show "config_ok config"
    using lim win by (auto simp: config_ok_def cfg parse_config_def jfield_jint)
  show "4 \<le> length (cf_validators config)" "length (cf_validators config) \<le> 8"
    using len by (simp_all add: cfg parse_config_def)
qed

lemma genesis_config_ok:
  assumes "genesis value = Inr config"
  shows "config_ok config" "4 \<le> length (cf_validators config)" "length (cf_validators config) \<le> 8"
  using genesis_checks_ok [OF assms [unfolded genesis_def]] by simp_all

subsection \<open>The history of an order\<close>

lemma closes_next:
  assumes c: "closes s oid ord paid st s'" and inv: "book_inv config 0 {} s"
    and ord: "map_of (st_orders s) oid = Some ord" "is_open ord"
  shows "\<exists>ord'. map_of (st_orders s') oid = Some ord' \<and> follows ord ord' \<and> od_status ord' = st \<and> od_paid ord' = Some paid"
proof -
  have ne: "od_buyer ord \<noteq> od_provider ord" using open_order_ok [OF inv ord(1)] by (simp add: order_ok_def amounts_ok_def)
  obtain rs where cl: "close_order s oid ((charge ord)\<lparr>od_refund_requests := rs\<rparr>) paid st = Inr s'"
    and st: "status_step (od_status ord) st" using c by (auto simp: closes_def)
  have "map_of (st_orders s') oid = Some (closed_order ((charge ord)\<lparr>od_refund_requests := rs\<rparr>) paid st)"
    using close_order_result(5) [OF cl] ne by simp
  then show ?thesis using st open_pos [OF inv ord] by (simp add: closed_order_def follows_def)
qed

lemma rules_next:
  assumes "rules_to config s oid ord s'"
  shows "\<exists>ord'. map_of (st_orders s') oid = Some ord' \<and> follows ord ord' \<and> is_open ord'"
  using assms unfolding rules_to_def by (auto simp: follows_def ruled_def is_open_def terminal_def)

lemma order_dispatch_next:
  assumes act: "order_dispatch C config s owner oid (charge ord) network action value t = Inr s'"
    and inv: "book_inv config 0 {} s" and ord: "map_of (st_orders s) oid = Some ord" "is_open ord" "party owner ord"
  shows "\<exists>ord'. map_of (st_orders s') oid = Some ord' \<and> follows ord ord'"
  using act open_order_ok [OF inv ord(1)] ord(2,3)
proof (cases rule: order_dispatch_cases)
  case (step ord')
  then show ?thesis by (auto simp: order_step_def)
next
  case close
  then show ?thesis using closes_next [OF _ inv ord(1,2)] by blast
next
  case rule
  then show ?thesis using rules_next by blast
qed

lemma record_op_frame [simp]:
  "st_orders (record_op s owner op_id h t) = st_orders s"
  "st_operations (record_op s owner op_id h t) = dict_put op_id h (st_operations s)"
  "ac_available (acct (record_op s owner op_id h t) p) = ac_available (acct s p)"
  "ac_held (acct (record_op s owner op_id h t) p) = ac_held (acct s p)"
  "st_issued (record_op s owner op_id h t) = st_issued s" "st_rewards (record_op s owner op_id h t) = st_rewards s"
  by (simp_all add: record_op_def)

text \<open>
  A command that changes an order is an order action of a party on the open order, which it names
  together with the commitment of the order it reviewed.
\<close>

lemma apply_on_order:
  assumes act: "apply_cmd C s wire config t = Inr s'" and inv: "exch_inv config s"
    and ord: "map_of (st_orders s) oid = Some ord" and changed: "map_of (st_orders s') oid \<noteq> Some ord"
  obtains signed owner op_id s2 where "signature C wire = Inr signed"
    "jget ''reviewed_order'' (jfield ''value'' (sp_payload signed)) = Some (JStr (order_commitment C ord))"
    "book_inv config 0 {} (touch owner s)" "is_open ord" "party owner ord"
    "order_dispatch C config (touch owner s) owner oid (charge ord) (jfield ''network'' (sp_payload signed))
       (py_str (jfield ''action'' (sp_payload signed)))
       (drop_key ''reviewed_order'' (jfield ''value'' (sp_payload signed))) t = Inr s2"
    "s' = record_op s2 owner op_id (json_hash C wire) t"
  using act
proof (rule apply_parts)
  fix signed :: signed_payload and op_id owner s1 s2
  let ?action = "jfield ''action'' (sp_payload signed)" and ?val = "jfield ''value'' (sp_payload signed)"
  assume sig: "signature C wire = Inr signed" and fresh: "map_of (st_operations s) op_id = None"
    and adm: "admit (touch owner s) owner ?action = Inr s1"
    and dis: "dispatch C config s1 owner (sp_public_key signed) op_id (jfield ''network'' (sp_payload signed))
       ?action ?val t = Inr s2"
    and s': "s' = record_op s2 owner op_id (json_hash C wire) t"
  have b: "book_inv config 0 {} (touch owner s)"
    using inv by (auto simp: exch_inv_def intro: book_inv_touch)
  have ord1: "map_of (st_orders s1) oid = Some ord"
    using admit_book(3) [OF adm b] ord by (simp add: same_log_def touch_def)
  have ne: "oid \<noteq> op_id"
    using inv ord fresh by (auto simp: exch_inv_def book_inv_def logged_def)
  have target: "in_strings ?action ORDER_ACTIONS = Inr True" "oid = jstr ''order_id'' ?val"
    using dispatch_log [OF dis] ord1 ne changed by (auto simp: same_log_def touched_def s' split: if_splits)
  then have s1: "s1 = touch owner s" using adm by (simp add: admit_def)
  have "act_order C config s1 owner (jfield ''network'' (sp_payload signed)) ?action ?val t = Inr s2"
    using dis target by (auto simp: dispatch_def ORDER_ACTIONS_def guard_simps)
  then show thesis
  proof (rule act_order_found)
    fix oid' ord'
    assume o': "map_of (st_orders s1) oid' = Some ord'" "party owner ord'" "is_open ord'"
      "order_dispatch C config s1 owner oid' (charge ord') (jfield ''network'' (sp_payload signed)) (py_str ?action)
         (drop_key ''reviewed_order'' ?val) t = Inr s2" "jget ''order_id'' ?val = Some (JStr oid')"
      "jget ''reviewed_order'' ?val = Some (JStr (order_commitment C ord'))"
    then have "oid' = oid" "ord' = ord" using target ord1 by (auto simp: jstr_def)
    with o' sig b s' show thesis by (auto simp: s1 intro: that)
  qed
qed

lemma touch_orders [simp]: "st_orders (touch p s) = st_orders s"
  by (simp add: touch_def)

lemma apply_order:
  assumes act: "apply_cmd C s wire config t = Inr s'" and inv: "exch_inv config s"
    and ord: "map_of (st_orders s) oid = Some ord"
  shows "\<exists>ord'. map_of (st_orders s') oid = Some ord' \<and> (ord' = ord \<or> is_open ord \<and> follows ord ord')"
proof (cases "map_of (st_orders s') oid = Some ord")
  case False
  with act inv ord show ?thesis
    by (rule apply_on_order) (use ord in \<open>auto dest!: order_dispatch_next\<close>)
qed simp

text \<open>Who an order's closing pays.\<close>

lemma apply_closing:
  assumes act: "apply_cmd C s wire config t = Inr s'" and inv: "exch_inv config s"
    and ord: "map_of (st_orders s) oid = Some ord" "is_open ord"
    and ord': "map_of (st_orders s') oid = Some ord'" "\<not> is_open ord'"
  obtains owner paid st s2 where "closes (touch owner s) oid ord paid st s2" "od_paid ord' = Some paid"
    "\<And>p. weight (acct s' p) = weight (acct s2 p)"
proof -
  have "map_of (st_orders s') oid \<noteq> Some ord" using ord ord' by auto
  with act inv ord(1) show thesis
  proof (rule apply_on_order)
    fix signed :: signed_payload and owner op_id s2
    assume b: "book_inv config 0 {} (touch owner s)" and p: "party owner ord"
      and dis: "order_dispatch C config (touch owner s) owner oid (charge ord) (jfield ''network'' (sp_payload signed))
       (py_str (jfield ''action'' (sp_payload signed)))
       (drop_key ''reviewed_order'' (jfield ''value'' (sp_payload signed))) t = Inr s2"
      and s': "s' = record_op s2 owner op_id (json_hash C wire) t"
    have t: "map_of (st_orders (touch owner s)) oid = Some ord" using ord by simp
    have "order_ok ord" by (rule open_order_ok [OF b t])
    from dis this ord(2) p show thesis
    proof (cases rule: order_dispatch_cases)
      case (step n)
      then show thesis using ord' by (simp add: s' order_step_def)
    next
      case (close paid st)
      with closes_next [OF this b t ord(2)] ord' show thesis by (auto simp: s' weight_def intro: that)
    next
      case rule
      then show thesis using rules_next ord' by (force simp: s')
    qed
  qed
qed

lemma closes_weight:
  assumes "closes s oid ord paid st s'" "od_buyer ord \<noteq> od_provider ord"
  shows "0 \<le> paid" "paid \<le> od_price ord"
    "weight (acct s' p) = weight (acct s p) + (if p = od_provider ord then paid else 0) - (if p = od_buyer ord then paid else 0)"
proof -
  obtain rs where cl: "close_order s oid ((charge ord)\<lparr>od_refund_requests := rs\<rparr>) paid st = Inr s'"
    using assms(1) by (auto simp: closes_def)
  note r = close_order_result [OF cl]
  show "0 \<le> paid" "paid \<le> od_price ord" using r(1,2) assms(2) by simp_all
  show "weight (acct s' p) = weight (acct s p) + (if p = od_provider ord then paid else 0) - (if p = od_buyer ord then paid else 0)"
    using r(3) [of p] assms(2) by (auto simp: settled_def weight_def)
qed

end
