(* ===== verification/Exchange_Liveness.thy ===== *)
theory Exchange_Liveness
  imports Exchange_Safety
begin

section \<open>Deadlines settle\<close>

text \<open>
  The command a party sends when a deadline has passed, and why \<open>apply\<close> accepts it: the escrow covers
  the order (\<open>money_inv\<close>), the share of the dispute is defined in every phase (\<open>phase_ok\<close>), no account
  can exceed its cap, and the two checks at the end of \<open>apply\<close> follow from the invariant.
\<close>

subsection \<open>The final checks\<close>

lemma inv_solvent:
  assumes "book_inv config k new s" "config_ok config"
  shows "solvent s" "total_supply s \<le> MAX_MINOR"
proof -
  have m: "money_inv config s" "orders_amounts s" using assms(1) orders_amounts by (auto simp: book_inv_def)
  show "solvent s" by (rule money_solvent [OF m])
  show "total_supply s \<le> MAX_MINOR"
    using m(1) assms(2) by (simp add: money_inv_def config_ok_def UNITS_def MAX_MINOR_def)
qed

lemma inv_final_checks: "book_inv config k new s \<Longrightarrow> config_ok config \<Longrightarrow> final_checks s = Inr s"
  using solvent_balances [OF inv_solvent(1), of config k new s]
  by (simp add: final_checks_def book_inv_def money_inv_def)

subsection \<open>Settlement at a deadline\<close>

lemma share_range: "0 \<le> (x::int) \<Longrightarrow> 0 \<le> p \<Longrightarrow> x \<le> 10000 \<Longrightarrow> 0 \<le> p * x div 10000 \<and> p * x div 10000 \<le> p"
proof -
  assume x: "0 \<le> x" "0 \<le> p" "x \<le> 10000"
  then have "p * x \<le> p * 10000" by (intro mult_left_mono) simp_all
  then have "p * x div 10000 \<le> p * 10000 div 10000" by (rule zdiv_mono1) simp
  with x show ?thesis by (simp add: pos_imp_zdiv_nonneg_iff)
qed

lemma timeout_share_ok:
  assumes "order_ok ord" "is_open ord" "od_status ord = Disputed \<or> od_status ord = Ruling_ready"
  obtains x where "timeout_share ord = Inr x" "0 \<le> x" "x \<le> 10000"
proof -
  have "\<exists>x. timeout_share ord = Inr x \<and> 0 \<le> x \<and> x \<le> 10000"
    using assms(3)
  proof
    assume "od_status ord = Disputed"
    with assms(1,2) show ?thesis
      by (auto simp: order_ok_def phase_ok_def share_ok_def timeout_share_def)
  next
    assume "od_status ord = Ruling_ready"
    with assms(1,2) show ?thesis
      by (auto simp: order_ok_def phase_ok_def share_ok_def timeout_share_def)
  qed
  then show thesis using that by blast
qed

lemma timeout_paid_ex:
  assumes ok: "order_ok ord" "is_open ord"
  obtains paid where "timeout_paid ord paid" "0 \<le> paid" "paid \<le> od_price ord"
proof (cases "od_status ord = Disputed \<or> od_status ord = Ruling_ready")
  case True
  with ok obtain x where x: "timeout_share ord = Inr x" "0 \<le> x" "x \<le> 10000" by (rule timeout_share_ok)
  have "0 \<le> od_price ord" using ok by (simp add: order_ok_def amounts_ok_def)
  with x True show ?thesis
    using share_range [of x "od_price ord"] that [of "od_price ord * x div 10000"]
    by (auto simp: timeout_paid_def)
next
  case False
  have "0 \<le> od_price ord" using ok by (simp add: order_ok_def amounts_ok_def)
  with False ok(2) show ?thesis
    using that [of 0] that [of "od_price ord"]
    by (cases "od_status ord") (auto simp: timeout_paid_def is_open_def terminal_def)
qed

text \<open>The amount the timeout pays is a function of the order.\<close>

lemma timeout_paid_unique: "timeout_paid ord a \<Longrightarrow> timeout_paid ord b \<Longrightarrow> a = b"
  by (auto simp: timeout_paid_def split: status.splits)

lemma act_timeout_ok:
  assumes inv: "book_inv config 0 {} s" and cfg: "config_ok config"
    and ord: "map_of (st_orders s) oid = Some ord" "is_open ord" and d: "deadline ord = Inr d" "d \<le> t"
    and val: "keys_are value [''order_id'', ''settlement_hash'']"
      "jfield ''settlement_hash'' value = JStr (settlement_commitment C ord)"
    and paid: "timeout_paid ord paid"
  shows "\<exists>s'. act_timeout C s oid (charge ord) value t = Inr s'
    \<and> close_order s oid (charge ord) paid (timeout_status (od_status ord)) = Inr s'"
proof -
  have ok: "order_ok ord" by (rule open_order_ok [OF inv ord(1)])
  obtain p where p: "timeout_paid ord p" "0 \<le> p" "p \<le> od_price ord" using ok ord(2) by (rule timeout_paid_ex)
  then have paid_range: "0 \<le> paid" "paid \<le> od_price ord" using timeout_paid_unique [OF paid p(1)] by simp_all
  have am: "amounts_ok (charge ord)" and ne: "od_buyer ord \<noteq> od_provider ord"
    using ok by (simp_all add: order_ok_def amounts_ok_def)
  have m: "money_inv config s" "orders_amounts s" using inv orders_amounts by (auto simp: book_inv_def)
  then have esc: "ord_owed q ord \<le> ac_held (acct s q)" for q
    using escrow_ge [of s oid ord q] ord(1) by (simp add: money_inv_def)
  obtain s' where cl: "close_order s oid (charge ord) paid (timeout_status (od_status ord)) = Inr s'"
    using close_order_ok [OF inv_solvent [OF inv cfg] _ _ am, of paid oid] esc [of "od_buyer ord"] esc [of "od_provider ord"]
      paid_range ne ord(2) by (auto simp: ord_owed_def)
  have sc: "settlement_commitment C (charge ord) = settlement_commitment C ord"
    by (simp add: settlement_commitment_def settlement_json_def)
  have dl: "deadline (charge ord) = deadline ord" by (simp add: deadline_def split: status.split)
  have ts: "timeout_share (charge ord) = timeout_share ord" by (simp add: timeout_share_def)
  have "act_timeout C s oid (charge ord) value t = Inr s'"
    using cl val d paid ord(2) unfolding act_timeout_def timeout_paid_def timeout_status_def sc dl ts
    by (cases "od_status ord") (auto simp: is_open_def terminal_def)
  with cl show ?thesis by blast
qed

subsection \<open>The command of a party at a deadline\<close>

definition timeout_command :: "crypto \<Rightarrow> config \<Rightarrow> state \<Rightarrow> string \<Rightarrow> order \<Rightarrow> string \<Rightarrow> string \<Rightarrow> json" where
  "timeout_command C config s oid ord owner op_id = JObj [(''version'', JStr VERSION),
     (''network'', JStr (network_id C config)), (''id'', JStr op_id), (''actor'', JStr owner),
     (''nonce'', JInt (ac_nonce (acct s owner) + 1)), (''action'', JStr ''timeout''),
     (''value'', JObj [(''order_id'', JStr oid), (''settlement_hash'', JStr (settlement_commitment C ord)),
       (''reviewed_order'', JStr (order_commitment C ord))])]"

text \<open>What the envelope of a command has to satisfy, whatever its action.\<close>

definition envelope_ok :: "state \<Rightarrow> string \<Rightarrow> string \<Rightarrow> int \<Rightarrow> bool" where
  "envelope_ok s owner op_id t \<longleftrightarrow> is_key owner \<and> identifier_check (JStr op_id) = Inr op_id
     \<and> map_of (st_operations s) op_id = None \<and> 0 \<le> ac_nonce (acct s owner)
     \<and> ac_nonce (acct s owner) < MAX_MINOR \<and> st_time s \<le> t"

lemma timeout_command_fields:
  "keys_are (timeout_command C config s oid ord owner op_id) [''version'', ''network'', ''id'', ''actor'', ''nonce'', ''action'', ''value'']"
  "jfield ''version'' (timeout_command C config s oid ord owner op_id) = JStr VERSION"
  "jfield ''network'' (timeout_command C config s oid ord owner op_id) = JStr (network_id C config)"
  "jfield ''id'' (timeout_command C config s oid ord owner op_id) = JStr op_id"
  "jfield ''actor'' (timeout_command C config s oid ord owner op_id) = JStr owner"
  "jfield ''nonce'' (timeout_command C config s oid ord owner op_id) = JInt (ac_nonce (acct s owner) + 1)"
  "jfield ''action'' (timeout_command C config s oid ord owner op_id) = JStr ''timeout''"
  "jfield ''value'' (timeout_command C config s oid ord owner op_id) = JObj [(''order_id'', JStr oid),
     (''settlement_hash'', JStr (settlement_commitment C ord)), (''reviewed_order'', JStr (order_commitment C ord))]"
  by (auto simp: timeout_command_def keys_are_def jkeys_def jfield_def jget_def)

lemma act_order_timeout:
  assumes "map_of (st_orders s) oid = Some ord" "is_open ord" "party owner ord" "0 < od_remaining_ops ord"
    and "act_timeout C s oid (charge ord) (JObj [(''order_id'', JStr oid),
     (''settlement_hash'', JStr (settlement_commitment C ord))]) t = Inr s'"
  shows "act_order C config s owner network (JStr ''timeout'') (JObj [(''order_id'', JStr oid),
     (''settlement_hash'', JStr (settlement_commitment C ord)), (''reviewed_order'', JStr (order_commitment C ord))]) t = Inr s'"
  using assms
  by (auto simp: act_order_def lookup_order_def jget_def dict_get_def party_def in_strings_def ORDER_ACTIONS_def
      order_dispatch_def jstr_def drop_key_def)

lemma timeout_accepted:
  assumes inv: "exch_inv config s" and ord: "map_of (st_orders s) oid = Some ord" "is_open ord" "party owner ord"
    and d: "deadline ord = Inr d" "d \<le> t" and env: "envelope_ok s owner op_id t"
    and sig: "signature C wire = Inr signed" "sp_public_key signed = owner"
      "sp_payload signed = timeout_command C config s oid ord owner op_id"
  shows "\<exists>s' ord' paid. apply_cmd C s wire config t = Inr s' \<and> map_of (st_orders s') oid = Some ord'
    \<and> od_status ord' = timeout_status (od_status ord) \<and> od_paid ord' = Some paid \<and> timeout_paid ord paid"
proof -
  have cfg: "config_ok config" and b: "book_inv config 0 {} (touch owner s)"
    using inv by (auto simp: exch_inv_def intro: book_inv_touch)
  have o1: "map_of (st_orders (touch owner s)) oid = Some ord" using ord(1) by simp
  have ok: "order_ok ord" by (rule open_order_ok [OF b o1])
  obtain paid where paid: "timeout_paid ord paid" using ok ord(2) by (rule timeout_paid_ex)
  let ?v = "JObj [(''order_id'', JStr oid), (''settlement_hash'', JStr (settlement_commitment C ord))]"
  have v: "keys_are ?v [''order_id'', ''settlement_hash'']"
    "jfield ''settlement_hash'' ?v = JStr (settlement_commitment C ord)"
    by (auto simp: keys_are_def jkeys_def jfield_def jget_def)
  obtain s2 where act: "act_timeout C (touch owner s) oid (charge ord) ?v t = Inr s2"
    and cl: "close_order (touch owner s) oid (charge ord) paid (timeout_status (od_status ord)) = Inr s2"
    using act_timeout_ok [OF b cfg o1 ord(2) d v paid] by blast
  have ao: "act_order C config (touch owner s) owner network (JStr ''timeout'') (JObj [(''order_id'', JStr oid),
     (''settlement_hash'', JStr (settlement_commitment C ord)), (''reviewed_order'', JStr (order_commitment C ord))]) t = Inr s2" for network
    by (rule act_order_timeout [OF o1 ord(2,3) open_pos [OF b o1 ord(2)] act])
  let ?s3 = "record_op s2 owner op_id (json_hash C wire) t"
  have body: "apply_body C config (touch owner s) owner owner op_id (JStr (network_id C config)) (JStr ''timeout'')
     (JObj [(''order_id'', JStr oid), (''settlement_hash'', JStr (settlement_commitment C ord)),
       (''reviewed_order'', JStr (order_commitment C ord))]) (json_hash C wire) t = Inr ?s3"
    using ao by (simp add: apply_body_def admit_def in_strings_def ORDER_ACTIONS_def dispatch_def)
  have "same_log {oid} (touch owner s) s2" by (rule close_log [OF cl])
  then have "map_of (st_operations s2) op_id = None" using env by (simp add: same_log_def envelope_ok_def touch_def)
  moreover have dis: "dispatch C config (touch owner s) owner owner op_id (JStr (network_id C config)) (JStr ''timeout'')
     (JObj [(''order_id'', JStr oid), (''settlement_hash'', JStr (settlement_commitment C ord)),
       (''reviewed_order'', JStr (order_commitment C ord))]) t = Inr s2"
    using ao by (simp add: dispatch_def)
  moreover have "book_inv config 1 {op_id} s2"
    by (rule dispatch_book [OF _ dis b cfg]) (use env in \<open>simp_all add: admit_def in_strings_def ORDER_ACTIONS_def envelope_ok_def touch_def\<close>)
  ultimately have "book_inv config 0 {} ?s3" by (intro record_op_book)
  then have fin: "final_checks ?s3 = Inr ?s3" by (rule inv_final_checks [OF _ cfg])
  have "apply_cmd C s wire config t = Inr ?s3"
    using body fin env sig
    by (simp add: apply_cmd_def timeout_command_fields envelope_ok_def key_check_def integer_def touch_def
        is_obj_def)
  moreover have "od_buyer ord \<noteq> od_provider ord" using ok by (simp add: order_ok_def amounts_ok_def)
  ultimately show ?thesis
    using close_order_result(5) [OF cl] paid by (auto simp: closed_order_def)
qed

end
