(* ===== verification/Exchange_Demo.thy ===== *)
theory Exchange_Demo
  imports Exchange_Liveness
begin

section \<open>A concrete exchange\<close>

text \<open>
  The instance the witnesses of the exchange run on: a signature scheme that accepts a signature equal
  to the key, the identity as collision-free hash, a manifest with four validators and no judges, and a
  state with one open order between two accounts.
\<close>

definition demo_key :: "char \<Rightarrow> string" where
  "demo_key c = c # replicate 42 (CHR ''A'') @ ''=''"

definition demo_terms :: terms where
  "demo_terms = \<lparr>tm_proposal_id = ''p'', tm_buyer = demo_key (CHR ''A''), tm_provider = ''v'', tm_title = ''t'',
     tm_category = ''c'', tm_scope = ''s'', tm_price = 10, tm_buyer_dispute_reserve = 0,
     tm_provider_dispute_reserve = 0, tm_covenant = JNull, tm_appeal_window_s = 60, tm_judges = [],
     tm_delivery = ''encrypted digital text, at most 32 KiB'', tm_platform_commission = 0,
     tm_delivery_window_s = DELIVERY_WINDOW, tm_review_window_s = REVIEW_WINDOW, tm_case_window_s = CASE_WINDOW,
     tm_dispute_timeout_share_bps = 5000, tm_appeal_timeout = ''retain first ruling'',
     tm_evidence_policy = ''one immutable statement per party per round'', tm_delivery_revisions = 3\<rparr>"

definition demo_proposal :: proposal where
  "demo_proposal = \<lparr>pr_id = ''p'', pr_listing_id = ''l'', pr_buyer = demo_key (CHR ''A''), pr_provider = ''v'',
     pr_proposed_by = ''v'', pr_scope = ''s'', pr_price = 10, pr_status = ''accepted''\<rparr>"

definition demo_order :: order where
  "demo_order = new_order ''o'' demo_proposal demo_terms 0"

definition demo_account :: "int \<Rightarrow> int \<Rightarrow> account" where
  "demo_account available held = new_account\<lparr>ac_available := available, ac_held := held, ac_encryption_key := ''k''\<rparr>"

definition demo_state :: state where
  "demo_state = \<lparr>st_accounts = [(demo_key (CHR ''A''), demo_account 990 10), (''v'', demo_account 0 0)],
     st_listings = [], st_proposals = [(''p'', demo_proposal)], st_orders = [(''o'', demo_order)], st_issued = 1000,
     st_rewards = [(''job'', demo_key (CHR ''A''))], st_operations = [(''p'', ''h''), (''o'', ''h'')], st_time = 0,
     st_covenant = JNull\<rparr>"

definition demo_config :: config where
  "demo_config = \<lparr>cf_version = VERSION, cf_name = ''demo'', cf_validators = map (\<lambda>c. \<lparr>va_peer_id = [c], va_endpoint = ''x''\<rparr>) ''wxyz'',
     cf_judges = [], cf_issuance_limit = 1000000, cf_work_reward = 1000, cf_appeal_window_s = 60, cf_covenant = JNull\<rparr>"

lemma demo_key_ne [simp]: "demo_key c \<noteq> ''v''" "''v'' \<noteq> demo_key c"
  by (simp_all add: demo_key_def)

lemma demo_key_ok: "is_key (demo_key (CHR ''A''))"
  by code_simp

lemma demo_order_simps [simp]:
  "od_buyer demo_order = demo_key (CHR ''A'')" "od_provider demo_order = ''v''" "od_price demo_order = 10"
  "od_buyer_reserve demo_order = 0" "od_provider_reserve demo_order = 0" "od_status demo_order = Working"
  "od_remaining_ops demo_order = 24" "is_open demo_order" "deadline demo_order = Inr 604800"
  by (simp_all add: demo_order_def new_order_def demo_proposal_def demo_terms_def is_open_def terminal_def deadline_def
      ORDER_OPERATION_RESERVE_def DELIVERY_WINDOW_def)

lemma demo_order_ok: "order_ok demo_order"
  by (simp add: order_step_defs demo_order_def new_order_def demo_proposal_def demo_terms_def due_nonneg
      OPS_IN_HAND_def ORDER_OPERATION_RESERVE_def buyer_due_def provider_due_def panel_fee_def judge_fees_def)

lemma demo_inv: "exch_inv demo_config demo_state"
proof -
  have "money_inv demo_config demo_state"
    by (auto simp: money_inv_def demo_state_def demo_config_def acct_def escrow_def ord_owed_def demo_account_def
        new_account_def total_supply_def)
  moreover have "all_orders_ok demo_state" "all_proposals_ok demo_state" "logged {} demo_state"
    using demo_order_ok
    by (auto simp: all_orders_ok_def demo_state_def all_proposals_ok_def proposal_ok_def demo_proposal_def logged_def)
  moreover have "ops_used demo_state \<le> MAX_OPERATIONS"
    by (simp add: ops_used_def reserved_ops_def demo_state_def MAX_OPERATIONS_def)
  moreover have "config_ok demo_config" by (simp add: config_ok_def demo_config_def UNITS_def)
  ultimately show ?thesis by (simp add: exch_inv_def book_inv_def)
qed

definition demo_signed :: "json \<Rightarrow> signed_payload" where
  "demo_signed p = \<lparr>sp_payload = p, sp_signature = demo_key (CHR ''A''), sp_public_key = demo_key (CHR ''A''),
     sp_alg = SIGNATURE_ALG\<rparr>"

lemma signature_ok:
  assumes "is_obj p" "jsize p \<le> 131072" "is_key k" "ed_ok C k sg (canonical_json p)"
  shows "signature C (to_dict \<lparr>sp_payload = p, sp_signature = sg, sp_public_key = k, sp_alg = SIGNATURE_ALG\<rparr>)
    = Inr \<lparr>sp_payload = p, sp_signature = sg, sp_public_key = k, sp_alg = SIGNATURE_ALG\<rparr>"
  using assms length_canonical [of p]
  by (simp add: signature_def or_signature_invalid_def verify_signed_payload_def key_check_def)

lemma demo_signature:
  "is_obj p \<Longrightarrow> jsize p \<le> 131072 \<Longrightarrow> signature demo_crypto (to_dict (demo_signed p)) = Inr (demo_signed p)"
  unfolding demo_signed_def by (rule signature_ok) (simp_all add: demo_key_ok demo_crypto_def)

lemma show_small: "length (show_int 0) = 1" "length (show_int 10) = 2" "length (show_int 3) = 1"
  "length (show_int 60) = 2" "length (show_int 5000) = 4" "length (show_int 1000) = 4" "length (show_int 1000000) = 7"
  "length (show_int DELIVERY_WINDOW) = 6" "length (show_int REVIEW_WINDOW) = 6" "length (show_int CASE_WINDOW) = 6"
  "length (show_int ORDER_OPERATION_RESERVE) = 2" "length (show_int 1) = 1"
  by (simp_all add: show_int_def show_nat.simps DELIVERY_WINDOW_def REVIEW_WINDOW_def CASE_WINDOW_def
      ORDER_OPERATION_RESERVE_def)

text \<open>The buyer's timeout on the open order, one second after its delivery deadline.\<close>

definition demo_timeout :: json where
  "demo_timeout = timeout_command demo_crypto demo_config demo_state ''o'' demo_order (demo_key (CHR ''A'')) ''op-timeout''"

lemma demo_hash_length: "length (json_hash demo_crypto j) \<le> 7 + 2 * jsize j"
  using length_canonical [of j] by (simp add: json_hash_def sha256_bytes_def demo_crypto_def)

lemma demo_timeout_size: "jsize demo_timeout \<le> 131072"
proof -
  have "jsize (order_json demo_order) \<le> 4000" "jsize (settlement_json demo_order) \<le> 4000"
    "jsize (config_json demo_config) \<le> 2000"
    by (simp_all add: order_json_def settlement_json_def config_json_def demo_order_def new_order_def demo_proposal_def
        demo_terms_def demo_config_def terms_json_def opt_field_def opt_json_def evidence_json_def status_name_def
        demo_key_def validator_json_def VERSION_def show_small)
  then have "length (order_commitment demo_crypto demo_order) \<le> 8007"
    "length (settlement_commitment demo_crypto demo_order) \<le> 8007"
    "length (network_id demo_crypto demo_config) \<le> 4007"
    using demo_hash_length [of "order_json demo_order"] demo_hash_length [of "settlement_json demo_order"]
      demo_hash_length [of "config_json demo_config"]
    by (simp_all add: order_commitment_def settlement_commitment_def network_id_def)
  moreover have "length (show_int (ac_nonce (acct demo_state (demo_key (CHR ''A''))) + 1)) = 1"
    by (simp add: demo_state_def acct_def demo_account_def new_account_def show_small)
  ultimately show ?thesis
    by (simp add: demo_timeout_def timeout_command_def VERSION_def demo_key_def)
qed

lemma demo_timeout_signature: "signature demo_crypto (to_dict (demo_signed demo_timeout)) = Inr (demo_signed demo_timeout)"
  by (rule demo_signature [OF _ demo_timeout_size]) (simp add: demo_timeout_def timeout_command_def is_obj_def)

lemma demo_envelope: "envelope_ok demo_state (demo_key (CHR ''A'')) ''op-timeout'' 604801"
proof -
  have "identifier_check (JStr ''op-timeout'') = Inr ''op-timeout''" by code_simp
  then show ?thesis
    by (simp add: envelope_ok_def demo_key_ok demo_state_def acct_def demo_account_def new_account_def MAX_MINOR_def)
qed

lemma demo_order_found: "map_of (st_orders demo_state) ''o'' = Some demo_order"
  by (simp add: demo_state_def)

lemma demo_timeout_accepted:
  obtains s' ord' where "apply_cmd demo_crypto demo_state (to_dict (demo_signed demo_timeout)) demo_config 604801 = Inr s'"
    "map_of (st_orders s') ''o'' = Some ord'" "od_status ord' = Refunded"
  using timeout_accepted [OF demo_inv demo_order_found _ _ _ _ demo_envelope demo_timeout_signature, of 604800]
  by (auto simp: party_def demo_signed_def demo_timeout_def timeout_status_def)

text \<open>A listing by the buyer.\<close>

lemma demo_listing_accepted:
  "\<exists>s'. apply_body demo_crypto demo_config demo_state (demo_key (CHR ''A'')) (demo_key (CHR ''A'')) ''listing-1'' JNull
     (JStr ''listing'') (JObj [(''kind'', JStr ''offer''), (''category'', JStr ''c''), (''title'', JStr ''t''),
       (''description'', JStr ''d''), (''price'', JInt 5)]) ''h'' 1 = Inr s'"
proof -
  have t: "text_check (JStr [c]) n False = Inr [c]" if "c \<in> set ''ctd''" "2 \<le> n" for c n
  proof -
    have "\<not> py_isspace c" using that by (auto simp: py_isspace_def)
    moreover have "length (utf8 [c]) \<le> 2" by (simp add: utf8_def utf8_char_def Let_def)
    ultimately show ?thesis using that by (simp add: text_check_def)
  qed
  show ?thesis
    by (simp add: apply_body_def admit_def in_strings_def ORDER_ACTIONS_def demo_state_def MAX_OPERATIONS_def
        reserved_ops_def acct_def demo_account_def new_account_def MAX_ACCOUNT_ADMISSIONS_def dispatch_def act_listing_def
        keys_are_def jkeys_def jfield_def jget_def upd_acct_def t integer_def MAX_MINOR_def jstr_def)
qed

subsection \<open>A disputed order\<close>

definition demo_judges :: "judge list" where
  "demo_judges = map (\<lambda>c. \<lparr>jd_peer_id = [c], jd_endpoint = ''x'', jd_encryption_key = [c], jd_model = [c], jd_fee = 1\<rparr>) ''abcdef''"

definition demo_disputed :: order where
  "demo_disputed = demo_order\<lparr>od_terms := demo_terms\<lparr>tm_judges := demo_judges\<rparr>, od_buyer_reserve := 4,
     od_provider_reserve := 2, od_status := Disputed, od_round := Some 0, od_case_until := Some 200\<rparr>"

definition demo_disputed_state :: state where
  "demo_disputed_state = demo_state\<lparr>st_accounts := [(demo_key (CHR ''A''), demo_account 984 14), (''v'', demo_account 0 2)],
     st_orders := [(''o'', demo_disputed)]\<rparr>"

lemma demo_disputed_found [simp]: "map_of (st_orders demo_disputed_state) ''o'' = Some demo_disputed"
  "od_status demo_disputed = Disputed" "od_round demo_disputed = Some 0"
  by (simp_all add: demo_disputed_state_def demo_disputed_def)

lemma demo_disputed_ok: "order_ok demo_disputed"
  by (simp add: order_step_defs demo_disputed_def demo_order_def new_order_def demo_proposal_def demo_terms_def
      OPS_IN_HAND_def ORDER_OPERATION_RESERVE_def buyer_due_def provider_due_def panel_fee_def judge_fees_def demo_judges_def)

lemma demo_disputed_inv: "exch_inv demo_config demo_disputed_state"
proof -
  have op: "is_open demo_disputed" "od_buyer demo_disputed = demo_key (CHR ''A'')" "od_provider demo_disputed = ''v''"
    "od_price demo_disputed = 10" "od_buyer_reserve demo_disputed = 4" "od_provider_reserve demo_disputed = 2"
    "od_remaining_ops demo_disputed = 24"
    by (simp_all add: demo_disputed_def is_open_def terminal_def)
  have "money_inv demo_config demo_disputed_state"
    by (auto simp: money_inv_def demo_disputed_state_def demo_state_def demo_config_def acct_def escrow_def ord_owed_def
        demo_account_def new_account_def total_supply_def op)
  moreover have "all_orders_ok demo_disputed_state" "all_proposals_ok demo_disputed_state" "logged {} demo_disputed_state"
    using demo_disputed_ok
    by (auto simp: all_orders_ok_def demo_disputed_state_def demo_state_def all_proposals_ok_def proposal_ok_def
        demo_proposal_def logged_def)
  moreover have "ops_used demo_disputed_state \<le> MAX_OPERATIONS"
    by (simp add: ops_used_def reserved_ops_def demo_disputed_state_def demo_state_def MAX_OPERATIONS_def op)
  moreover have "config_ok demo_config" by (simp add: config_ok_def demo_config_def UNITS_def)
  ultimately show ?thesis by (simp add: exch_inv_def book_inv_def)
qed

subsection \<open>A manifest\<close>

definition demo_manifest :: json where
  "demo_manifest = JObj [(''version'', JStr VERSION), (''name'', JStr ''demo''),
     (''validators'', JArr (map (\<lambda>c. JObj [(''peer_id'', JStr (demo_key c)), (''endpoint'', JStr ''x'')]) ''ABCD'')),
     (''judges'', JArr []), (''issuance_limit'', JInt 1000000), (''work_reward'', JInt 1000),
     (''appeal_window_s'', JInt 60), (''covenant'', COVENANT)]"

lemma demo_manifest_ok: "genesis demo_manifest = Inr (parse_config demo_manifest)"
  by code_simp

text \<open>
  The network of that manifest, with a collision-free hash that gives the manifest a short id. The key of the
  first validator signs anything; the other validators only ever sign \<open>net_approval\<close>.
\<close>

definition swap_hash :: "string \<Rightarrow> string \<Rightarrow> string \<Rightarrow> string" where
  "swap_hash a b x = (if x = a then b else if x = b then a else x)"

lemma inj_swap_hash: "inj (swap_hash a b)"
  by (auto simp: inj_def swap_hash_def split: if_splits)

abbreviation net_config :: config where "net_config \<equiv> parse_config demo_manifest"

definition net_hash :: "string \<Rightarrow> string" where
  "net_hash = swap_hash (canonical_json (config_json net_config)) ''1''"

text \<open>The first command on it, by the first validator, and the proposal that carries it.\<close>

definition demo_profile :: json where
  "demo_profile = JObj [(''version'', JStr VERSION), (''network'', JStr ''sha256:1''),
     (''id'', JStr ''op-profile''), (''actor'', JStr (demo_key (CHR ''A''))), (''nonce'', JInt 1), (''action'', JStr ''profile''),
     (''value'', JObj [(''label'', JStr ''d''), (''encryption_key'', JStr (demo_key (CHR ''A'')))])]"

definition net_core :: "(string \<times> json) list" where
  "net_core = [(''version'', JStr VERSION), (''network'', JStr ''sha256:1''), (''height'', JInt 1),
     (''parent'', JStr ''sha256:1''), (''timestamp'', JInt 5), (''command'', to_dict (demo_signed demo_profile))]"

definition net_proposal :: json where
  "net_proposal = JObj (net_core @ [(''proposer'', to_dict (demo_signed (JObj net_core)))])"

definition net_approval :: json where
  "net_approval = JObj [(''version'', JStr VERSION), (''kind'', JStr ''approval''), (''network'', JStr ''sha256:1''),
     (''height'', JInt 1), (''hash'', JStr (''sha256:'' @ net_hash (canonical_json net_proposal)))]"

definition net_crypto :: crypto where
  "net_crypto = \<lparr>sha256 = net_hash, ed_public = id, ed_sign = (\<lambda>k m. k),
     ed_ok = (\<lambda>k sg m. k = sg \<and> (k = demo_key (CHR ''A'') \<or> m = canonical_json net_approval))\<rparr>"

lemma net_crypto_inj: "inj (sha256 net_crypto)"
  by (simp add: net_crypto_def net_hash_def inj_swap_hash)

lemma net_id: "network_id net_crypto net_config = ''sha256:1''"
  by (simp add: network_id_def json_hash_def sha256_bytes_def net_crypto_def net_hash_def swap_hash_def)

lemma net_signature:
  "is_obj p \<Longrightarrow> jsize p \<le> 131072 \<Longrightarrow> signature net_crypto (to_dict (demo_signed p)) = Inr (demo_signed p)"
  unfolding demo_signed_def by (rule signature_ok) (simp_all add: demo_key_ok net_crypto_def)

lemma demo_profile_size: "jsize demo_profile \<le> 3000"
  by (simp add: demo_profile_def VERSION_def demo_key_def show_small)

lemma demo_profile_accepted:
  "\<exists>s'. apply_cmd net_crypto (initial_state net_config) (to_dict (demo_signed demo_profile)) net_config 5 = Inr s'"
proof -
  have sig: "signature net_crypto (to_dict (demo_signed demo_profile)) = Inr (demo_signed demo_profile)"
    by (rule net_signature) (use demo_profile_size in \<open>simp_all add: demo_profile_def is_obj_def\<close>)
  have f: "keys_are demo_profile [''version'', ''network'', ''id'', ''actor'', ''nonce'', ''action'', ''value'']"
    "jfield ''version'' demo_profile = JStr VERSION"
    "jfield ''network'' demo_profile = JStr ''sha256:1''"
    "jfield ''id'' demo_profile = JStr ''op-profile''" "jfield ''actor'' demo_profile = JStr (demo_key (CHR ''A''))"
    "jfield ''nonce'' demo_profile = JInt 1" "jfield ''action'' demo_profile = JStr ''profile''"
    "jfield ''value'' demo_profile = JObj [(''label'', JStr ''d''), (''encryption_key'', JStr (demo_key (CHR ''A'')))]"
    by (auto simp: demo_profile_def keys_are_def jkeys_def jfield_def jget_def)
  have i: "identifier_check (JStr ''op-profile'') = Inr ''op-profile''" by code_simp
  have v: "keys_are (JObj [(''label'', a), (''encryption_key'', b)]) [''label'', ''encryption_key'']"
    "jfield ''label'' (JObj [(''label'', a), (''encryption_key'', b)]) = a"
    "jfield ''encryption_key'' (JObj [(''label'', a), (''encryption_key'', b)]) = b" for a b
    by (auto simp: keys_are_def jkeys_def jfield_def jget_def)
  have l: "text_check (JStr ''d'') 100 False = Inr ''d''" by code_simp
  show ?thesis
    using sig by (simp add: apply_cmd_def demo_signed_def f i l key_check_def demo_key_ok integer_def MAX_MINOR_def
        initial_state_def touch_def upd_acct_def acct_def new_account_def is_obj_def apply_body_def admit_def
        in_strings_def ORDER_ACTIONS_def MAX_OPERATIONS_def reserved_ops_def MAX_ACCOUNT_ADMISSIONS_def dispatch_def
        act_profile_def v record_op_def final_checks_def total_supply_def balances_ok_def dict_vals_def net_id)
qed

end
