(* ===== verification/Exchange_Opening.thy ===== *)
theory Exchange_Opening
  imports Exchange_Demo
begin

section \<open>From genesis to an open order\<close>

text \<open>
  A run of five commands on the network of \<open>demo_manifest\<close>: two profiles, a listing, a proposal and the agreement. It shows that states with an open
  order are opening_reached from the initial state.
\<close>

definition opening_command :: "crypto \<Rightarrow> config \<Rightarrow> state \<Rightarrow> string \<Rightarrow> string \<Rightarrow> string \<Rightarrow> json \<Rightarrow> json" where
  "opening_command C config s owner op_id action v = JObj [(''version'', JStr VERSION), (''network'', JStr (network_id C config)), (''id'', JStr op_id),
     (''actor'', JStr owner), (''nonce'', JInt (ac_nonce (acct s owner) + 1)), (''action'', JStr action), (''value'', v)]"

lemma command_fields:
  "keys_are (opening_command C config s owner op_id action v) [''version'', ''network'', ''id'', ''actor'', ''nonce'', ''action'', ''value'']"
  "jfield ''version'' (opening_command C config s owner op_id action v) = JStr VERSION"
  "jfield ''network'' (opening_command C config s owner op_id action v) = JStr (network_id C config)"
  "jfield ''id'' (opening_command C config s owner op_id action v) = JStr op_id"
  "jfield ''actor'' (opening_command C config s owner op_id action v) = JStr owner"
  "jfield ''nonce'' (opening_command C config s owner op_id action v) = JInt (ac_nonce (acct s owner) + 1)"
  "jfield ''action'' (opening_command C config s owner op_id action v) = JStr action"
  "jfield ''value'' (opening_command C config s owner op_id action v) = v"
  by (auto simp: opening_command_def keys_are_def jkeys_def jfield_def jget_def)

lemma command_accepted:
  assumes inv: "exch_inv config s" and env: "envelope_ok s owner op_id t"
    and sig: "signature C wire = Inr signed" "sp_public_key signed = owner" "sp_payload signed = opening_command C config s owner op_id action v" and v: "is_obj v"
    and adm: "admit (touch owner s) owner (JStr action) = Inr s1"
    and dis: "dispatch C config s1 owner owner op_id (JStr (network_id C config)) (JStr action) v t = Inr s2"
  shows "apply_cmd C s wire config t = Inr (record_op s2 owner op_id (json_hash C wire) t)"
proof -
  have cfg: "config_ok config" and b: "book_inv config 0 {} (touch owner s)"
    using inv by (auto simp: exch_inv_def intro: book_inv_touch)
  have fresh: "map_of (st_operations (touch owner s)) op_id = None" using env by (simp add: envelope_ok_def touch_def)
  let ?s3 = "record_op s2 owner op_id (json_hash C wire) t"
  have "map_of (st_operations s2) op_id = None"
    using fresh admit_book(3) [OF adm b] dispatch_log [OF dis] by (simp add: same_log_def)
  then have fin: "final_checks ?s3 = Inr ?s3"
    by (rule inv_final_checks [OF record_op_book [OF dispatch_book [OF adm dis b cfg fresh]] cfg])
  have "apply_body C config (touch owner s) owner owner op_id (JStr (network_id C config)) (JStr action) v (json_hash C wire) t = Inr ?s3"
    using adm dis by (simp add: apply_body_def)
  then show ?thesis
    using fin env sig v by (simp add: apply_cmd_def command_fields envelope_ok_def key_check_def integer_def touch_def)
qed

subsection \<open>The commands\<close>

abbreviation seller :: string where "seller \<equiv> demo_key (CHR ''A'')"
abbreviation purchaser :: string where "purchaser \<equiv> demo_key (CHR ''B'')"

definition opening_crypto :: crypto where
  "opening_crypto = demo_crypto\<lparr>sha256 := take 8\<rparr>"

definition profile_value :: json where
  "profile_value = JObj [(''label'', JStr ''d''), (''encryption_key'', JStr seller)]"

definition listing_value :: json where
  "listing_value = JObj [(''kind'', JStr ''offer''), (''category'', JStr ''c''), (''title'', JStr ''t''), (''description'', JStr ''d''), (''price'', JInt 0)]"

definition propose_value :: json where
  "propose_value = JObj [(''listing_id'', JStr ''command-3''), (''scope'', JStr ''s''), (''price'', JInt 0)]"

definition opening_terms :: terms where
  "opening_terms = \<lparr>tm_proposal_id = ''command-4'', tm_buyer = purchaser, tm_provider = seller, tm_title = ''t'',
     tm_category = ''c'', tm_scope = ''s'', tm_price = 0, tm_buyer_dispute_reserve = 0,
     tm_provider_dispute_reserve = 0, tm_covenant = cf_covenant net_config, tm_appeal_window_s = 60, tm_judges = [],
     tm_delivery = ''encrypted digital text, at most 32 KiB'', tm_platform_commission = 0,
     tm_delivery_window_s = DELIVERY_WINDOW, tm_review_window_s = REVIEW_WINDOW, tm_case_window_s = CASE_WINDOW,
     tm_dispute_timeout_share_bps = 5000, tm_appeal_timeout = ''retain first ruling'',
     tm_evidence_policy = ''one immutable statement per party per round'', tm_delivery_revisions = 3\<rparr>"

definition agree_value :: json where
  "agree_value = JObj [(''proposal_id'', JStr ''command-4''), (''terms_hash'', JStr (json_hash opening_crypto (terms_json opening_terms)))]"

definition signed_by :: "string \<Rightarrow> json \<Rightarrow> signed_payload" where
  "signed_by k p = \<lparr>sp_payload = p, sp_signature = k, sp_public_key = k, sp_alg = SIGNATURE_ALG\<rparr>"

definition order_wire :: "state \<Rightarrow> string \<Rightarrow> string \<Rightarrow> string \<Rightarrow> json \<Rightarrow> json" where
  "order_wire s k op_id action v = to_dict (signed_by k (opening_command opening_crypto net_config s k op_id action v))"

lemma opening_keys: "is_key seller" "is_key purchaser" "seller \<noteq> purchaser" "purchaser \<noteq> seller" "seller \<noteq> []" "purchaser \<noteq> []"
  by (code_simp, code_simp) (simp_all add: demo_key_def)

lemma net_fields: "cf_judges net_config = []" "cf_appeal_window_s net_config = 60"
  by (code_simp, code_simp)

lemma short_hash: "length (json_hash opening_crypto j) \<le> 15"
  by (simp add: json_hash_def sha256_bytes_def opening_crypto_def)

lemma order_wire_signed:
  assumes "is_key k" "length k = 44" "jsize v \<le> 40000" "length op_id \<le> 10" "length action \<le> 10" "length (show_int (ac_nonce (acct s k) + 1)) = 1"
  shows "signature opening_crypto (order_wire s k op_id action v) = Inr (signed_by k (opening_command opening_crypto net_config s k op_id action v))"
proof -
  have "length (network_id opening_crypto net_config) \<le> 15" using short_hash [of "config_json net_config"] by (simp add: network_id_def)
  then have "jsize (opening_command opening_crypto net_config s k op_id action v) \<le> 131072" using assms by (simp add: opening_command_def VERSION_def)
  then show ?thesis unfolding order_wire_def signed_by_def using assms(1) by (intro signature_ok) (simp_all add: opening_command_def is_obj_def opening_crypto_def demo_crypto_def)
qed

subsection \<open>The run\<close>

definition opening_reached :: "state \<Rightarrow> bool" where
  "opening_reached s \<longleftrightarrow> exch.reaches opening_crypto net_config (initial_state net_config) s"

definition opening_member :: "int \<Rightarrow> account" where
  "opening_member n = new_account\<lparr>ac_label := ''d'', ac_encryption_key := seller, ac_nonce := n, ac_admissions := n\<rparr>"

definition opening_stage :: "(string, account) dict \<Rightarrow> (string, listing) dict \<Rightarrow> (string, proposal) dict \<Rightarrow> (string, order) dict \<Rightarrow> (string, string) dict \<Rightarrow> state" where
  "opening_stage as ls ps os log = \<lparr>st_accounts = as, st_listings = ls, st_proposals = ps, st_orders = os, st_issued = 0, st_rewards = [], st_operations = log,
     st_time = 1, st_covenant = cf_covenant net_config\<rparr>"

lemma initial_inv: "config_ok config \<Longrightarrow> exch_inv config (initial_state config)"
  by (simp add: exch_inv_def book_inv_def money_inv_def initial_state_def acct_def new_account_def escrow_def
      total_supply_def config_ok_def all_orders_ok_def all_proposals_ok_def ops_used_def reserved_ops_def
      MAX_OPERATIONS_def logged_def)

lemma opening_inv: "opening_reached s \<Longrightarrow> exch_inv net_config s"
  using exch.reaches_inv [OF _ initial_inv [OF genesis_config_ok(1) [OF demo_manifest_ok]]] unfolding opening_reached_def by blast

definition opening_admitted :: "string \<Rightarrow> state \<Rightarrow> state" where
  "opening_admitted k s = upd_acct k (\<lambda>r. r\<lparr>ac_admissions := ac_admissions r + 1\<rparr>) (touch k s)"

lemma opening_step:
  assumes "opening_reached s" "is_key k" "length k = 44" "jsize v \<le> 40000" "is_obj v" "length action \<le> 10" "length op_id \<le> 10" "identifier_check (JStr op_id) = Inr op_id"
    "map_of (st_operations s) op_id = None" "length (st_operations s) \<le> 10" "st_orders s = []" "ac_nonce (acct s k) \<in> {0, 1, 2}" "ac_admissions (acct s k) < 10"
    "st_time s \<le> 1" "action \<notin> set ORDER_ACTIONS"
    "dispatch opening_crypto net_config (opening_admitted k s) k k op_id (JStr (network_id opening_crypto net_config)) (JStr action) v 1 = Inr s2"
  shows "\<exists>h. opening_reached (record_op s2 k op_id h 1)"
proof -
  have n: "length (show_int (ac_nonce (acct s k) + 1)) = 1" using assms(12) by (auto simp: show_int_def show_nat.simps)
  have env: "envelope_ok s k op_id 1" using assms(2,8,9,12,14) by (auto simp: envelope_ok_def MAX_MINOR_def)
  have sg: "signature opening_crypto (order_wire s k op_id action v) = Inr (signed_by k (opening_command opening_crypto net_config s k op_id action v))"
    by (rule order_wire_signed [OF assms(2-4,7,6) n])
  have adm: "admit (touch k s) k (JStr action) = Inr (opening_admitted k s)"
    using assms(10,11,13,15) by (simp add: opening_admitted_def admit_def in_strings_def reserved_ops_def MAX_OPERATIONS_def MAX_ACCOUNT_ADMISSIONS_def ORDER_OPERATION_RESERVE_def
        touch_def upd_acct_def acct_def)
  have "apply_cmd opening_crypto s (order_wire s k op_id action v) net_config 1 = Inr (record_op s2 k op_id (json_hash opening_crypto (order_wire s k op_id action v)) 1)"
    by (rule command_accepted [OF opening_inv [OF assms(1)] env sg _ _ assms(5) adm assms(16)]) (simp_all add: signed_by_def)
  then show ?thesis
    using exch.reaches_step [where c = "(order_wire s k op_id action v, 1)", OF assms(1) [unfolded opening_reached_def]] by (auto simp: opening_reached_def)
qed

lemma op_ids: "identifier_check (JStr ''command-1'') = Inr ''command-1''" "identifier_check (JStr ''command-2'') = Inr ''command-2''"
  "identifier_check (JStr ''command-3'') = Inr ''command-3''" "identifier_check (JStr ''command-4'') = Inr ''command-4''" "identifier_check (JStr ''command-5'') = Inr ''command-5''"
  by code_simp+

lemma opening_texts: "2 \<le> n \<Longrightarrow> c \<in> set ''cdst'' \<Longrightarrow> text_check (JStr [c]) n False = Inr [c]"
proof -
  assume "2 \<le> n" "c \<in> set ''cdst''"
  then have "\<not> py_isspace c" "length (utf8 [c]) \<le> n" by (auto simp: py_isspace_def utf8_def utf8_char_def Let_def)
  then show ?thesis by (simp add: text_check_def)
qed

lemma key_length: "length seller = 44" "length purchaser = 44"
  by (simp_all add: demo_key_def)

lemmas stage_simps = opening_stage_def initial_state_def opening_admitted_def touch_def upd_acct_def acct_def new_account_def record_op_def opening_member_def

lemma opening_values: "jsize profile_value \<le> 40000" "is_obj profile_value" "jsize listing_value \<le> 40000" "is_obj listing_value"
  "jsize propose_value \<le> 40000" "is_obj propose_value" "jsize agree_value \<le> 40000" "is_obj agree_value"
  using short_hash [of "terms_json opening_terms"]
  by (simp_all add: profile_value_def listing_value_def propose_value_def agree_value_def is_obj_def demo_key_def show_small)

lemma profile_dispatched:
  "ac_encryption_key (acct s k) = [] \<Longrightarrow> dispatch opening_crypto net_config s k k op_id nw (JStr ''profile'') profile_value 1
     = Inr (upd_acct k (\<lambda>r. r\<lparr>ac_label := ''d'', ac_encryption_key := seller\<rparr>) s)"
  by (simp add: dispatch_def act_profile_def profile_value_def keys_are_def jkeys_def jfield_def jget_def opening_texts key_check_def opening_keys(1) insert_commute)

lemma opening_1: "\<exists>h. opening_reached (opening_stage [(seller, opening_member 1)] [] [] [] [(''command-1'', h)])"
proof -
  have r: "opening_reached (initial_state net_config)" by (simp add: opening_reached_def exch.reaches_start)
  have d: "ac_encryption_key (acct (opening_admitted seller (initial_state net_config)) seller) = []" by (simp add: stage_simps)
  have "\<exists>h. opening_reached (record_op (upd_acct seller (\<lambda>r. r\<lparr>ac_label := ''d'', ac_encryption_key := seller\<rparr>) (opening_admitted seller (initial_state net_config))) seller ''command-1'' h 1)"
    by (rule opening_step [OF r opening_keys(1) key_length(1) opening_values(1,2) _ _ op_ids(1) _ _ _ _ _ _ _ profile_dispatched [OF d]])
      (simp_all add: stage_simps ORDER_ACTIONS_def)
  then show ?thesis by (simp add: stage_simps)
qed

lemma opening_2: "\<exists>g h. opening_reached (opening_stage [(seller, opening_member 1), (purchaser, opening_member 1)] [] [] [] [(''command-1'', g), (''command-2'', h)])"
proof -
  obtain g where r: "opening_reached (opening_stage [(seller, opening_member 1)] [] [] [] [(''command-1'', g)])" (is "opening_reached ?s") using opening_1 by blast
  have d: "ac_encryption_key (acct (opening_admitted purchaser ?s) purchaser) = []" by (simp add: stage_simps opening_keys)
  have "\<exists>h. opening_reached (record_op (upd_acct purchaser (\<lambda>r. r\<lparr>ac_label := ''d'', ac_encryption_key := seller\<rparr>) (opening_admitted purchaser ?s)) purchaser ''command-2'' h 1)"
    by (rule opening_step [OF r opening_keys(2) key_length(2) opening_values(1,2) _ _ op_ids(2) _ _ _ _ _ _ _ profile_dispatched [OF d]])
      (simp_all add: stage_simps ORDER_ACTIONS_def opening_keys)
  then obtain h where "opening_reached (record_op (upd_acct purchaser (\<lambda>r. r\<lparr>ac_label := ''d'', ac_encryption_key := seller\<rparr>) (opening_admitted purchaser ?s)) purchaser ''command-2'' h 1)" by blast
  then have "opening_reached (opening_stage [(seller, opening_member 1), (purchaser, opening_member 1)] [] [] [] [(''command-1'', g), (''command-2'', h)])" by (simp add: stage_simps opening_keys)
  then show ?thesis by blast
qed

definition opened_listing :: listing where
  "opened_listing = \<lparr>li_id = ''command-3'', li_owner = seller, li_kind = ''offer'', li_category = ''c'', li_title = ''t'', li_description = ''d'', li_price = 0,
     li_active = True, li_created_at = 1\<rparr>"

lemma listing_dispatched:
  "ac_encryption_key (acct s seller) \<noteq> [] \<Longrightarrow> dispatch opening_crypto net_config s seller seller ''command-3'' nw (JStr ''listing'') listing_value 1
     = Inr (s\<lparr>st_listings := dict_put ''command-3'' opened_listing (st_listings s)\<rparr>)"
  by (simp add: dispatch_def act_listing_def listing_value_def keys_are_def jkeys_def jfield_def jget_def opening_texts in_strings_def integer_def MAX_MINOR_def
      jstr_def opened_listing_def)

lemma opening_3: "\<exists>f g h. opening_reached (opening_stage [(seller, opening_member 2), (purchaser, opening_member 1)] [(''command-3'', opened_listing)] [] []
    [(''command-1'', f), (''command-2'', g), (''command-3'', h)])"
proof -
  obtain f g where r: "opening_reached (opening_stage [(seller, opening_member 1), (purchaser, opening_member 1)] [] [] [] [(''command-1'', f), (''command-2'', g)])" (is "opening_reached ?s")
    using opening_2 by blast
  have d: "ac_encryption_key (acct (opening_admitted seller ?s) seller) \<noteq> []" by (simp add: stage_simps opening_keys)
  let ?t = "(opening_admitted seller ?s)\<lparr>st_listings := dict_put ''command-3'' opened_listing (st_listings (opening_admitted seller ?s))\<rparr>"
  have "\<exists>h. opening_reached (record_op ?t seller ''command-3'' h 1)"
    by (rule opening_step [OF r opening_keys(1) key_length(1) opening_values(3,4) _ _ op_ids(3) _ _ _ _ _ _ _ listing_dispatched [OF d]])
      (simp_all add: stage_simps ORDER_ACTIONS_def opening_keys)
  then obtain h where "opening_reached (record_op ?t seller ''command-3'' h 1)" by blast
  then have "opening_reached (opening_stage [(seller, opening_member 2), (purchaser, opening_member 1)] [(''command-3'', opened_listing)] [] [] [(''command-1'', f), (''command-2'', g), (''command-3'', h)])"
    by (simp add: stage_simps opening_keys)
  then show ?thesis by blast
qed

definition opened_proposal :: "string \<Rightarrow> proposal" where
  "opened_proposal status = \<lparr>pr_id = ''command-4'', pr_listing_id = ''command-3'', pr_buyer = purchaser, pr_provider = seller, pr_proposed_by = purchaser, pr_scope = ''s'',
     pr_price = 0, pr_status = status\<rparr>"

lemma propose_dispatched:
  "ac_encryption_key (acct s purchaser) \<noteq> [] \<Longrightarrow> map_of (st_listings s) ''command-3'' = Some opened_listing
     \<Longrightarrow> dispatch opening_crypto net_config s purchaser purchaser ''command-4'' nw (JStr ''propose'') propose_value 1
       = Inr (s\<lparr>st_proposals := dict_put ''command-4'' (opened_proposal ''offered'') (st_proposals s)\<rparr>)"
  by (simp add: dispatch_def act_propose_def propose_on_def propose_value_def keys_are_def jkeys_def jfield_def jget_def opening_texts dict_get_def integer_def MAX_MINOR_def
      opened_listing_def opened_proposal_def opening_keys net_fields)

lemma opening_4: "\<exists>e f g h. opening_reached (opening_stage [(seller, opening_member 2), (purchaser, opening_member 2)] [(''command-3'', opened_listing)] [(''command-4'', opened_proposal ''offered'')] []
    [(''command-1'', e), (''command-2'', f), (''command-3'', g), (''command-4'', h)])"
proof -
  obtain e f g where r: "opening_reached (opening_stage [(seller, opening_member 2), (purchaser, opening_member 1)] [(''command-3'', opened_listing)] [] []
      [(''command-1'', e), (''command-2'', f), (''command-3'', g)])" (is "opening_reached ?s") using opening_3 by blast
  have d: "ac_encryption_key (acct (opening_admitted purchaser ?s) purchaser) \<noteq> []" "map_of (st_listings (opening_admitted purchaser ?s)) ''command-3'' = Some opened_listing"
    by (simp_all add: stage_simps opening_keys)
  let ?t = "(opening_admitted purchaser ?s)\<lparr>st_proposals := dict_put ''command-4'' (opened_proposal ''offered'') (st_proposals (opening_admitted purchaser ?s))\<rparr>"
  have "\<exists>h. opening_reached (record_op ?t purchaser ''command-4'' h 1)"
    by (rule opening_step [OF r opening_keys(2) key_length(2) opening_values(5,6) _ _ op_ids(4) _ _ _ _ _ _ _ propose_dispatched [OF d]])
      (simp_all add: stage_simps ORDER_ACTIONS_def opening_keys)
  then obtain h where "opening_reached (record_op ?t purchaser ''command-4'' h 1)" by blast
  then have "opening_reached (opening_stage [(seller, opening_member 2), (purchaser, opening_member 2)] [(''command-3'', opened_listing)] [(''command-4'', opened_proposal ''offered'')] []
      [(''command-1'', e), (''command-2'', f), (''command-3'', g), (''command-4'', h)])"
    by (simp add: stage_simps opening_keys)
  then show ?thesis by blast
qed

definition opened_order :: order where
  "opened_order = new_order ''command-5'' (opened_proposal ''offered'') opening_terms 1"

lemma opened_terms_for: "terms_for net_config (opened_proposal ''offered'') opened_listing = Inr opening_terms"
  by (simp add: terms_for_def selected_judges_def net_fields opened_proposal_def opened_listing_def opening_terms_def fees_def judge_fees_def)

lemma agree_dispatched:
  assumes "map_of (st_listings s) ''command-3'' = Some opened_listing" "map_of (st_proposals s) ''command-4'' = Some (opened_proposal ''offered'')" "st_orders s = []"
    "map_of (st_accounts s) seller = Some a" "map_of (st_accounts s) purchaser = Some b" "ac_available a = 0" "ac_available b = 0" "ac_held a = 0" "ac_held b = 0"
    "dict_ok (st_accounts s)"
  shows "\<exists>s'. dispatch opening_crypto net_config s seller seller ''command-5'' nw (JStr ''agree'') agree_value 1 = Inr s' \<and> map_of (st_orders s') ''command-5'' = Some opened_order"
proof -
  have p: "pr_status (opened_proposal ''offered'') = ''offered''" "pr_buyer (opened_proposal ''offered'') = purchaser" "pr_provider (opened_proposal ''offered'') = seller"
    "pr_proposed_by (opened_proposal ''offered'') = purchaser" "pr_listing_id (opened_proposal ''offered'') = ''command-3''" "pr_price (opened_proposal ''offered'') = 0"
    by (simp_all add: opened_proposal_def)
  have l: "li_active opened_listing" by (simp add: opened_listing_def)
  have v: "keys_are agree_value [''proposal_id'', ''terms_hash'']" "jfield ''proposal_id'' agree_value = JStr ''command-4''"
    "jfield ''terms_hash'' agree_value = JStr (json_hash opening_crypto (terms_json opening_terms))"
    by (auto simp: agree_value_def keys_are_def jkeys_def jfield_def jget_def)
  have t: "tm_buyer_dispute_reserve opening_terms = 0" "tm_provider_dispute_reserve opening_terms = 0" by (simp_all add: opening_terms_def)
  show ?thesis
    by (simp add: dispatch_def act_agree_def agree_on_def v dict_get_def assms p l opening_keys opened_terms_for t open_orders_def MAX_OPEN_ORDERS_def hold_def
        acct_def upd_acct_def put_order_def opened_order_def Let_def opt_or_def dict_vals_def)
qed

lemma order_opened: "\<exists>s. opening_reached s \<and> map_of (st_orders s) ''command-5'' = Some opened_order"
proof -
  obtain e f g h where r: "opening_reached (opening_stage [(seller, opening_member 2), (purchaser, opening_member 2)] [(''command-3'', opened_listing)] [(''command-4'', opened_proposal ''offered'')] []
      [(''command-1'', e), (''command-2'', f), (''command-3'', g), (''command-4'', h)])" (is "opening_reached ?s") using opening_4 by blast
  have "\<exists>s'. dispatch opening_crypto net_config (opening_admitted seller ?s) seller seller ''command-5'' (JStr (network_id opening_crypto net_config)) (JStr ''agree'') agree_value 1 = Inr s'
      \<and> map_of (st_orders s') ''command-5'' = Some opened_order"
    by (rule agree_dispatched [where a = "(opening_member 2)\<lparr>ac_admissions := 3\<rparr>" and b = "opening_member 2"]) (simp_all add: stage_simps opening_keys dict_ok_def)
  then obtain s' where d: "dispatch opening_crypto net_config (opening_admitted seller ?s) seller seller ''command-5'' (JStr (network_id opening_crypto net_config)) (JStr ''agree'') agree_value 1 = Inr s'"
    and ord: "map_of (st_orders s') ''command-5'' = Some opened_order" by blast
  have "\<exists>h. opening_reached (record_op s' seller ''command-5'' h 1)"
    by (rule opening_step [OF r opening_keys(1) key_length(1) opening_values(7,8) _ _ op_ids(5) _ _ _ _ _ _ _ d])
      (simp_all add: stage_simps ORDER_ACTIONS_def opening_keys)
  moreover have "st_orders (record_op s' seller ''command-5'' h 1) = st_orders s'" for h by (simp add: record_op_def upd_acct_def)
  ultimately show ?thesis using ord by metis
qed

end
