(* ===== verification/Exchange_Guarantees.thy ===== *)
theory Exchange_Guarantees
  imports Exchange_Opening
begin

section \<open>Guarantees of the exchange\<close>

text \<open>
  The properties of the exchange protocol, each applied to the demo network by its witness.
\<close>

subsection \<open>Along a run\<close>

lemma apply_operations:
  assumes "apply_cmd C s wire config t = Inr s'" "exch_inv config s" "map_of (st_operations s) k \<noteq> None"
  shows "map_of (st_operations s') k \<noteq> None"
  using assms(1)
proof (rule apply_parts)
  fix signed :: signed_payload and op_id owner s1 s2
  assume adm: "admit (touch owner s) owner (jfield ''action'' (sp_payload signed)) = Inr s1"
    and dis: "dispatch C config s1 owner (sp_public_key signed) op_id (jfield ''network'' (sp_payload signed))
       (jfield ''action'' (sp_payload signed)) (jfield ''value'' (sp_payload signed)) t = Inr s2"
    and s': "s' = record_op s2 owner op_id (json_hash C wire) t"
  have "book_inv config 0 {} (touch owner s)" using assms(2) by (auto simp: exch_inv_def intro: book_inv_touch)
  from admit_book(3) [OF adm this] dispatch_log [OF dis] assms(3) show ?thesis
    by (simp add: s' same_log_def touch_def)
qed

lemma apply_logs_id:
  assumes "apply_cmd C s wire config t = Inr s'" "signature C wire = Inr signed"
    "identifier_check (jfield ''id'' (sp_payload signed)) = Inr k"
  shows "map_of (st_operations s) k = None" "map_of (st_operations s') k \<noteq> None"
proof -
  show "map_of (st_operations s) k = None"
    using assms(1) by (rule apply_parts) (use assms(2,3) in simp)
  show "map_of (st_operations s') k \<noteq> None"
    using assms(1) by (rule apply_parts) (use assms(2,3) in simp)
qed

lemma reaches_operations:
  assumes "exch.reaches C config s s'" "exch_inv config s" "map_of (st_operations s) k \<noteq> None"
  shows "map_of (st_operations s') k \<noteq> None"
  using assms
proof (induction rule: exch.reaches.induct)
  case (reaches_step s1 c s2)
  then show ?case using apply_operations exch.reaches_inv [OF reaches_step.hyps(1)] by blast
qed

text \<open>An order's history: the same agreement, and fewer operations left after every change.\<close>

lemma reaches_order:
  assumes "exch.reaches C config s s'" "exch_inv config s" "map_of (st_orders s) oid = Some ord"
  shows "\<exists>ord'. map_of (st_orders s') oid = Some ord' \<and> od_buyer ord' = od_buyer ord
    \<and> od_provider ord' = od_provider ord \<and> od_terms ord' = od_terms ord \<and> od_price ord' = od_price ord
    \<and> (ord' = ord \<or> is_open ord \<and> od_remaining_ops ord' < od_remaining_ops ord)"
  using assms
proof (induction rule: exch.reaches.induct)
  case (reaches_step s1 c s2)
  then obtain o1 where o1: "map_of (st_orders s1) oid = Some o1" "od_buyer o1 = od_buyer ord"
    "od_provider o1 = od_provider ord" "od_terms o1 = od_terms ord" "od_price o1 = od_price ord"
    "o1 = ord \<or> is_open ord \<and> od_remaining_ops o1 < od_remaining_ops ord" by blast
  have "exch_inv config s1" using exch.reaches_inv [OF reaches_step.hyps(1)] reaches_step.prems(1) by blast
  from apply_order [OF reaches_step.hyps(2) this o1(1)] o1 show ?case by (auto simp: follows_def)
qed simp

lemma order_commitment_ops:
  assumes "inj (sha256 C)" "order_commitment C a = order_commitment C b"
  shows "od_remaining_ops a = od_remaining_ops b"
proof -
  have eq: "canonical_json (order_json a) = canonical_json (order_json b)"
    using assms by (simp add: order_commitment_def json_hash_inj)
  have "jget ''remaining_ops'' (order_json x) = Some (JInt (od_remaining_ops x))" for x
    by (simp add: order_json_def jget_def)
  with canonical_field_int [OF eq] show ?thesis by fastforce
qed

lemma key_check_Inr: "key_check j = Inr k \<longleftrightarrow> j = JStr k \<and> is_key k"
  by (auto simp: key_check_def guard_simps split: json.splits)

lemma quorum_bounds: "3 \<le> n \<Longrightarrow> 2 * n < 3 * (n * 2 div 3 + 1) \<and> n * 2 div 3 + 1 \<le> (n::nat)"
  by presburger

lemma genesis_entries_distinct:
  "genesis_entries vs js seen es = Inr u \<Longrightarrow>
   distinct (map (jstr ''peer_id'') es) \<and> set (map (jstr ''peer_id'') es) \<inter> set seen = {}"
proof (induction es arbitrary: seen)
  case (Cons e es)
  from Cons.prems obtain peer where j: "jget ''peer_id'' e = Some (JStr peer)" "peer \<notin> set seen"
    "genesis_entries vs js (peer # seen) es = Inr u"
    by (auto simp: guard_simps key_check_Inr)
  from Cons.IH [OF j(3)] j(1,2) show ?case by (auto simp: jstr_def)
qed simp

subsection \<open>Who may be debited\<close>

definition credits :: "string \<Rightarrow> state \<Rightarrow> state \<Rightarrow> bool" where
  "credits owner s s' \<longleftrightarrow> (\<forall>p. p \<noteq> owner \<longrightarrow> ac_available (acct s p) \<le> ac_available (acct s' p))"

lemma closes_credits:
  assumes "closes s oid ord paid st s'" "order_ok ord"
  shows "credits owner s s'"
proof -
  have ne: "od_buyer ord \<noteq> od_provider ord" using assms(2) by (simp add: order_ok_def amounts_ok_def)
  obtain rs where cl: "close_order s oid ((charge ord)\<lparr>od_refund_requests := rs\<rparr>) paid st = Inr s'"
    using assms(1) by (auto simp: closes_def)
  note r = close_order_result [OF cl]
  have "ac_available (acct s p) \<le> ac_available (acct s' p)" for p
    using r(1,2) r(3) [of p] ne assms(2) by (auto simp: settled_def order_ok_def amounts_ok_def)
  then show ?thesis by (simp add: credits_def)
qed

lemma rules_credits:
  assumes "rules_to config s oid ord s'" "order_ok ord" "is_open ord"
  shows "credits owner s s'"
proof -
  obtain r js fee rulings share au s2 where
    js: "js = take 3 (drop (3 * r) (tm_judges (od_terms ord)))"
    and earn: "earn_all (upd_acct (od_provider ord) (\<lambda>a. a\<lparr>ac_held := ac_held a - fee div 2\<rparr>)
        (upd_acct (od_buyer ord) (\<lambda>a. a\<lparr>ac_held := ac_held a - (fee + 1) div 2\<rparr>) s)) js = Inr s2"
    and s': "s' = put_order oid (ruled config ord ((fee + 1) div 2) (fee div 2) rulings share au) s2"
    using assms(1) unfolding rules_to_def by (elim exE conjE)
  have nn: "\<forall>j \<in> set js. 0 \<le> jd_fee j"
    using assms(2,3) unfolding js by (auto simp: order_ok_def dest!: in_set_takeD in_set_dropD)
  have "ac_available (acct s p) \<le> ac_available (acct s2 p)" for p
    using earn_all_result [OF earn nn] by (auto split: if_splits)
  then show ?thesis by (simp add: credits_def s')
qed

lemma order_action_credits:
  assumes act: "act_order C config s owner network action value t = Inr s'" and inv: "book_inv config 0 {} s"
  shows "credits p s s'"
  using act
proof (rule act_order_found)
  fix oid ord
  assume o: "map_of (st_orders s) oid = Some ord" "party owner ord" "is_open ord"
    "order_dispatch C config s owner oid (charge ord) network (py_str action) (drop_key ''reviewed_order'' value) t = Inr s'"
  have ok: "order_ok ord" by (rule open_order_ok [OF inv o(1)])
  from o(4) ok o(3,2) show ?thesis
  proof (cases rule: order_dispatch_cases)
    case step then show ?thesis by (simp add: credits_def)
  next
    case close then show ?thesis using closes_credits ok by blast
  next
    case rule then show ?thesis using rules_credits ok o(3) by blast
  qed
qed

lemma other_action_credits:
  "act_profile s owner value = Inr s' \<Longrightarrow> credits owner s s'"
  "act_device s owner signer value = Inr s' \<Longrightarrow> credits owner s s'"
  "act_transfer s owner value = Inr s' \<Longrightarrow> credits owner s s'"
  "act_listing s owner op_id value t = Inr s' \<Longrightarrow> credits owner s s'"
  "act_withdraw s owner value = Inr s' \<Longrightarrow> credits owner s s'"
  "act_propose config s owner op_id value = Inr s' \<Longrightarrow> credits owner s s'"
  "act_reward C config s owner network value = Inr s' \<Longrightarrow> credits owner s s'"
proof -
  show "act_profile s owner value = Inr s' \<Longrightarrow> credits owner s s'"
    unfolding act_profile_def Let_def guard_simps sum.inject by (elim exE conjE, hypsubst, simp (no_asm) add: credits_def)
  show "act_device s owner signer value = Inr s' \<Longrightarrow> credits owner s s'"
    unfolding act_device_def by (cases "jfield ''allowed'' value"; cases "jfield ''allowed'' value = JBool True")
      (auto simp: guard_simps credits_def split: bool.splits)
  show "act_transfer s owner value = Inr s' \<Longrightarrow> credits owner s s'"
    unfolding act_transfer_def Let_def guard_simps earn_Inr by (auto simp: credits_def)
  show "act_listing s owner op_id value t = Inr s' \<Longrightarrow> credits owner s s'"
    unfolding act_listing_def guard_simps sum.inject by (elim exE conjE, hypsubst, simp (no_asm) add: credits_def)
  show "act_withdraw s owner value = Inr s' \<Longrightarrow> credits owner s s'"
    unfolding act_withdraw_def by (auto simp: guard_simps credits_def split: option.splits)
  show "act_propose config s owner op_id value = Inr s' \<Longrightarrow> credits owner s s'"
    unfolding act_propose_def propose_on_def Let_def by (auto simp: guard_simps credits_def split: option.splits)
  show "act_reward C config s owner network value = Inr s' \<Longrightarrow> credits owner s s'"
    unfolding act_reward_def Let_def guard_simps sum.inject
    by (elim exE conjE, hypsubst, simp add: earn_Inr credits_def)
qed

lemma apply_credits:
  assumes act: "apply_cmd C s wire config t = Inr s'" and inv: "exch_inv config s"
    and sig: "signature C wire = Inr signed"
    and who: "jfield ''actor'' (sp_payload signed) \<noteq> JStr p" and no: "jfield ''action'' (sp_payload signed) \<noteq> JStr ''agree''"
  shows "ac_available (acct s p) \<le> ac_available (acct s' p)"
  using act
proof (rule apply_parts)
  fix sg :: signed_payload and op_id owner s1 s2
  assume sg: "signature C wire = Inr sg" and ow: "key_check (jfield ''actor'' (sp_payload sg)) = Inr owner"
    and adm: "admit (touch owner s) owner (jfield ''action'' (sp_payload sg)) = Inr s1"
    and dis: "dispatch C config s1 owner (sp_public_key sg) op_id (jfield ''network'' (sp_payload sg))
       (jfield ''action'' (sp_payload sg)) (jfield ''value'' (sp_payload sg)) t = Inr s2"
    and s': "s' = record_op s2 owner op_id (json_hash C wire) t"
  have p: "p \<noteq> owner" using ow who sg sig by (auto simp: key_check_def guard_simps split: json.splits)
  have b: "book_inv config 0 {} (touch owner s)" using inv by (auto simp: exch_inv_def intro: book_inv_touch)
  have "ac_available (acct s1 p) = ac_available (acct s p)"
    using adm by (auto simp: admit_def guard_simps Let_def split: if_splits)
  moreover have "credits owner s1 s2"
    using dis no sg sig other_action_credits order_action_credits [OF _ admit_book(1) [OF adm b]]
    unfolding dispatch_def by (simp split: if_splits)
  ultimately show ?thesis using p unfolding s' credits_def by fastforce
qed

subsection \<open>The guarantees\<close>

text \<open>C1: On a network whose manifest \<open>genesis\<close> accepts, in every state that any sequence of accepted
  commands reaches from the initial state: the balances add up to what was issued, which is within the
  issuance limit; no balance is negative; and what an account holds is exactly what its open orders
  lock up.\<close>

lemma exchange_books_balance:
  assumes "genesis value = Inr config" "exch.reaches C config (initial_state config) s"
  shows "total_supply s = st_issued s \<and> st_issued s \<le> cf_issuance_limit config
    \<and> (\<forall>p. 0 \<le> ac_available (acct s p) \<and> 0 \<le> ac_held (acct s p) \<and> ac_held (acct s p) = escrow s p)"
proof -
  have "exch_inv config (initial_state config)"
    by (rule initial_inv [OF genesis_config_ok(1) [OF assms(1)]])
  then have inv: "exch_inv config s" using assms(2) exch.reaches_inv by blast
  then have "money_inv config s" "orders_amounts s" using orders_amounts by (auto simp: exch_inv_def book_inv_def)
  then show ?thesis using money_solvent by (auto simp: money_inv_def solvent_def)
qed

lemma exchange_books_balance_witness:
  "\<exists>s. apply_cmd net_crypto (initial_state net_config) (to_dict (demo_signed demo_profile)) net_config 5 = Inr s
     \<and> total_supply s = st_issued s \<and> ac_held (acct s (demo_key (CHR ''A''))) = escrow s (demo_key (CHR ''A''))"
proof -
  obtain s where a: "apply_cmd net_crypto (initial_state net_config) (to_dict (demo_signed demo_profile)) net_config 5 = Inr s"
    using demo_profile_accepted by blast
  have "exch.reaches net_crypto net_config (initial_state net_config) s"
    by (rule exch.reaches_step [OF exch.reaches_start, where c = "(to_dict (demo_signed demo_profile), 5)"]) (simp add: a)
  from exchange_books_balance [OF demo_manifest_ok this] a show ?thesis by blast
qed

text \<open>The two checks at the end of \<open>apply\<close> (\<open>exchange_supply_invariant\<close> and
  \<open>exchange_balance_invariant\<close>) never reject: in a state that satisfies the invariant, whatever the
  admission and the action of a fresh operation produce passes both.\<close>

lemma exchange_final_checks_pass:
  assumes "exch_inv config s" "map_of (st_operations s) op_id = None"
    "apply_body C config s owner signer op_id network action v digest t = Inr s'"
  shows "final_checks s' = Inr s'"
proof -
  have b: "book_inv config 0 {} s" and cfg: "config_ok config" using assms(1) by (simp_all add: exch_inv_def)
  from assms(3) obtain s1 s2 where adm: "admit s owner action = Inr s1"
    and dis: "dispatch C config s1 owner signer op_id network action v t = Inr s2"
    and s': "s' = record_op s2 owner op_id digest t" by (auto simp: apply_body_def guard_simps)
  have "map_of (st_operations s2) op_id = None"
    using admit_book(3) [OF adm b] dispatch_log [OF dis] assms(2) by (simp add: same_log_def)
  with dispatch_book [OF adm dis b cfg assms(2)] show ?thesis
    unfolding s' by (intro inv_final_checks [OF record_op_book cfg])
qed

lemma exchange_final_checks_pass_witness:
  "\<exists>s'. apply_body demo_crypto demo_config demo_state (demo_key (CHR ''A'')) (demo_key (CHR ''A'')) ''listing-1'' JNull
     (JStr ''listing'') (JObj [(''kind'', JStr ''offer''), (''category'', JStr ''c''), (''title'', JStr ''t''),
       (''description'', JStr ''d''), (''price'', JInt 5)]) ''h'' 1 = Inr s' \<and> final_checks s' = Inr s'"
proof -
  let ?v = "JObj [(''kind'', JStr ''offer''), (''category'', JStr ''c''), (''title'', JStr ''t''),
       (''description'', JStr ''d''), (''price'', JInt 5)]"
  obtain s' where "apply_body demo_crypto demo_config demo_state (demo_key (CHR ''A'')) (demo_key (CHR ''A'')) ''listing-1''
      JNull (JStr ''listing'') ?v ''h'' 1 = Inr s'"
    using demo_listing_accepted by blast
  moreover have "map_of (st_operations demo_state) ''listing-1'' = None" by (simp add: demo_state_def)
  ultimately show ?thesis using exchange_final_checks_pass [OF demo_inv] by blast
qed

text \<open>C2: An open order is never stranded by the operation limits. On a network whose manifest \<open>genesis\<close> accepts, in every state that any sequence of
  accepted commands reaches from the initial state, an open order has at least eight of its 24 reserved operations left, whatever its parties have done, and the
  log of at most 10000 operations has room for all the operations reserved by open orders.\<close>

lemma open_orders_keep_operations:
  assumes "genesis value = Inr config" "exch.reaches C config (initial_state config) s" "map_of (st_orders s) oid = Some ord" "is_open ord"
  shows "8 \<le> od_remaining_ops ord \<and> int (length (st_operations s)) + reserved_ops s \<le> MAX_OPERATIONS"
proof -
  have "exch_inv config s" using assms(2) exch.reaches_inv [OF _ initial_inv [OF genesis_config_ok(1) [OF assms(1)]]] by blast
  then have b: "book_inv config 0 {} s" by (simp add: exch_inv_def)
  have ok: "order_ok ord" by (rule open_order_ok [OF b assms(3)])
  from ok assms(4) order_pot_nonneg [OF ok assms(4)] b show ?thesis
    by (simp add: order_ok_def OPS_IN_HAND_def book_inv_def ops_used_def)
qed

lemma open_orders_keep_operations_witness:
  "\<exists>s. exch.reaches opening_crypto net_config (initial_state net_config) s \<and> map_of (st_orders s) ''command-5'' = Some opened_order
     \<and> 8 \<le> od_remaining_ops opened_order \<and> int (length (st_operations s)) + reserved_ops s \<le> MAX_OPERATIONS"
proof -
  obtain s where s: "exch.reaches opening_crypto net_config (initial_state net_config) s" "map_of (st_orders s) ''command-5'' = Some opened_order"
    using order_opened unfolding opening_reached_def by blast
  have "is_open opened_order" by (simp add: opened_order_def new_order_def is_open_def terminal_def)
  from open_orders_keep_operations [OF demo_manifest_ok s this] s show ?thesis by blast
qed

text \<open>C18: Deadlines settle. An open order always has a deadline, and once it has passed, the signed
  timeout command of either party with a fresh id and the next nonce is accepted: it closes the order as
  refunded (undelivered), accepted (delivered) or resolved (disputed), and pays the amount the rules say.\<close>

lemma deadline_settles:
  assumes "exch_inv config s" "map_of (st_orders s) oid = Some ord" "is_open ord" "party owner ord"
  shows "\<exists>d. deadline ord = Inr d \<and> (\<forall>C t op_id wire signed.
    d \<le> t \<and> envelope_ok s owner op_id t \<and> signature C wire = Inr signed \<and> sp_public_key signed = owner
      \<and> sp_payload signed = timeout_command C config s oid ord owner op_id \<longrightarrow>
    (\<exists>s' ord' paid. apply_cmd C s wire config t = Inr s' \<and> map_of (st_orders s') oid = Some ord'
      \<and> od_status ord' = timeout_status (od_status ord) \<and> od_paid ord' = Some paid \<and> timeout_paid ord paid))"
proof -
  have "order_ok ord" using assms(1,2) open_order_ok by (auto simp: exch_inv_def)
  then obtain d where "deadline ord = Inr d"
    using assms(3) by (cases "od_status ord") (auto simp: order_ok_def phase_ok_def deadline_def is_open_def terminal_def)
  with timeout_accepted [OF assms] show ?thesis by blast
qed

lemma deadline_settles_witness:
  "\<exists>s' ord' paid. apply_cmd demo_crypto demo_state (to_dict (demo_signed demo_timeout)) demo_config 604801 = Inr s'
     \<and> map_of (st_orders s') ''o'' = Some ord' \<and> od_status ord' = Refunded \<and> od_paid ord' = Some paid"
proof -
  have "party (demo_key (CHR ''A'')) demo_order" by (simp add: party_def)
  from deadline_settles [OF demo_inv demo_order_found _ this] have
    "(\<exists>s' ord' paid. apply_cmd demo_crypto demo_state (to_dict (demo_signed demo_timeout)) demo_config 604801 = Inr s'
      \<and> map_of (st_orders s') ''o'' = Some ord' \<and> od_status ord' = timeout_status (od_status demo_order)
      \<and> od_paid ord' = Some paid \<and> timeout_paid demo_order paid)"
    using demo_envelope demo_timeout_signature by (auto simp: demo_signed_def demo_timeout_def)
  then show ?thesis by (auto simp: timeout_status_def)
qed

text \<open>C19: Settlement is exact. When a command closes an order, some amount between nothing and the price
  is recorded as paid; the provider's total balance grows by exactly that, the buyer's shrinks by exactly
  that, and nobody else's changes.\<close>

lemma settlement_exact:
  assumes "exch_inv config s" "apply_cmd C s wire config t = Inr s'"
    "map_of (st_orders s) oid = Some ord" "is_open ord" "map_of (st_orders s') oid = Some ord'" "\<not> is_open ord'"
  shows "\<exists>paid. od_paid ord' = Some paid \<and> 0 \<le> paid \<and> paid \<le> od_price ord \<and> (\<forall>p.
    ac_available (acct s' p) + ac_held (acct s' p) = ac_available (acct s p) + ac_held (acct s p)
      + (if p = od_provider ord then paid else 0) - (if p = od_buyer ord then paid else 0))"
  using assms(2,1,3-6)
proof (rule apply_closing)
  fix owner paid st s2
  assume c: "closes (touch owner s) oid ord paid st s2" and p: "od_paid ord' = Some paid"
    and w: "\<And>p. weight (acct s' p) = weight (acct s2 p)"
  have "order_ok ord" using assms(1,3) open_order_ok by (auto simp: exch_inv_def)
  then have ne: "od_buyer ord \<noteq> od_provider ord" by (simp add: order_ok_def amounts_ok_def)
  show ?thesis
    using closes_weight(1,2) [OF c ne] closes_weight(3) [OF c ne] p w by (intro exI [of _ paid]) (simp add: weight_def)
qed

lemma settlement_exact_witness:
  "\<exists>s' paid. apply_cmd demo_crypto demo_state (to_dict (demo_signed demo_timeout)) demo_config 604801 = Inr s'
     \<and> 0 \<le> paid \<and> ac_available (acct s' ''v'') + ac_held (acct s' ''v'')
       = ac_available (acct demo_state ''v'') + ac_held (acct demo_state ''v'') + paid"
proof -
  obtain s' ord' where a: "apply_cmd demo_crypto demo_state (to_dict (demo_signed demo_timeout)) demo_config 604801 = Inr s'"
    "map_of (st_orders s') ''o'' = Some ord'" "od_status ord' = Refunded" by (rule demo_timeout_accepted)
  then have "\<not> is_open ord'" by (simp add: is_open_def terminal_def)
  from settlement_exact [OF demo_inv a(1) demo_order_found _ a(2) this] a(1) show ?thesis by force
qed

text \<open>The dispute reserves are enough. Whenever a disputed order has a panel, the buyer's half of its
  fees (rounded up) and the provider's half are within what each still has in reserve, in both rounds, and
  within what each account holds.\<close>

lemma panel_fees_reserved:
  assumes "exch_inv config s" "map_of (st_orders s) oid = Some ord" "od_status ord = Disputed"
    "od_round ord = Some r" "order_panel ord r = Inr js"
  shows "(judge_fees js + 1) div 2 \<le> od_buyer_reserve ord \<and> judge_fees js div 2 \<le> od_provider_reserve ord
    \<and> (judge_fees js + 1) div 2 \<le> ac_held (acct s (od_buyer ord)) \<and> judge_fees js div 2 \<le> ac_held (acct s (od_provider ord))"
proof -
  have b: "book_inv config 0 {} s" using assms(1) by (simp add: exch_inv_def)
  have op: "is_open ord" using assms(3) by (simp add: is_open_def terminal_def)
  have ok: "order_ok ord" by (rule open_order_ok [OF b assms(2)])
  have js: "judge_fees js = panel_fee (tm_judges (od_terms ord)) r"
    using assms(5) by (auto simp: order_panel_def judge_panel_def Let_def guard_simps panel_fee_def)
  have nn: "0 \<le> (panel_fee (tm_judges (od_terms ord)) 1 + 1) div 2" "0 \<le> panel_fee (tm_judges (od_terms ord)) 1 div 2"
    using ok op panel_fee_nonneg [of "tm_judges (od_terms ord)" 1] by (simp_all add: order_ok_def)
  have res: "(judge_fees js + 1) div 2 \<le> od_buyer_reserve ord \<and> judge_fees js div 2 \<le> od_provider_reserve ord"
    using ok op assms(3,4) nn unfolding js
    by (auto simp: order_ok_def phase_ok_def rounds_left_def buyer_due_def provider_due_def)
  have m: "money_inv config s" "orders_amounts s" using b orders_amounts by (auto simp: book_inv_def)
  have "ord_owed p ord \<le> ac_held (acct s p)" for p
    using escrow_ge [of s oid ord p] m assms(2) by (simp add: money_inv_def)
  from this [of "od_buyer ord"] this [of "od_provider ord"] res ok op show ?thesis
    by (auto simp: ord_owed_def order_ok_def amounts_ok_def)
qed

lemma panel_fees_reserved_witness:
  "\<exists>js. order_panel demo_disputed 0 = Inr js \<and> judge_fees js = 3 \<and> (judge_fees js + 1) div 2 \<le> od_buyer_reserve demo_disputed"
proof -
  have "order_panel demo_disputed 0 = Inr (take 3 demo_judges)" "judge_fees (take 3 demo_judges) = 3"
    by (simp_all add: order_panel_def judge_panel_def demo_disputed_def demo_judges_def demo_key_def judge_fees_def)
  then show ?thesis
    using panel_fees_reserved [OF demo_disputed_inv, of "''o''" demo_disputed 0] demo_disputed_found by auto
qed

text \<open>A reviewed order cannot be swapped. If an order has changed since a party computed its
  commitment, no later state of it ever has that commitment again (its remaining operations only go down),
  so a command reviewed on the old order leaves the order as it is.\<close>

lemma stale_review_rejected:
  assumes "inj (sha256 C)" "exch_inv config s" "map_of (st_orders s) oid = Some ord"
    "exch.reaches C config s s1" "map_of (st_orders s1) oid = Some ord1" "ord1 \<noteq> ord"
  shows "order_commitment C ord1 \<noteq> order_commitment C ord \<and>
    (\<forall>wire signed t s2. signature C wire = Inr signed
       \<and> jget ''reviewed_order'' (jfield ''value'' (sp_payload signed)) = Some (JStr (order_commitment C ord))
       \<and> apply_cmd C s1 wire config t = Inr s2 \<longrightarrow> map_of (st_orders s2) oid = Some ord1)"
proof -
  have "od_remaining_ops ord1 < od_remaining_ops ord"
    using reaches_order [OF assms(4,2,3)] assms(5,6) by auto
  then have ne: "order_commitment C ord1 \<noteq> order_commitment C ord"
    using order_commitment_ops [OF assms(1), of ord1 ord] by auto
  have inv: "exch_inv config s1" using assms(4,2) exch.reaches_inv by blast
  have "map_of (st_orders s2) oid = Some ord1"
    if "signature C wire = Inr signed" "apply_cmd C s1 wire config t = Inr s2"
      "jget ''reviewed_order'' (jfield ''value'' (sp_payload signed)) = Some (JStr (order_commitment C ord))"
    for wire signed t s2
  proof (rule ccontr)
    assume "map_of (st_orders s2) oid \<noteq> Some ord1"
    with that(2) inv assms(5) show False
      by (rule apply_on_order) (use that ne in auto)
  qed
  with ne show ?thesis by blast
qed

lemma stale_review_rejected_witness:
  "\<exists>s1 ord1. apply_cmd demo_crypto demo_state (to_dict (demo_signed demo_timeout)) demo_config 604801 = Inr s1
     \<and> map_of (st_orders s1) ''o'' = Some ord1 \<and> order_commitment demo_crypto ord1 \<noteq> order_commitment demo_crypto demo_order"
proof -
  obtain s1 ord1 where a: "apply_cmd demo_crypto demo_state (to_dict (demo_signed demo_timeout)) demo_config 604801 = Inr s1"
    "map_of (st_orders s1) ''o'' = Some ord1" "od_status ord1 = Refunded" by (rule demo_timeout_accepted)
  have "exch.reaches demo_crypto demo_config demo_state s1"
    by (rule exch.reaches_step [OF exch.reaches_start, where c = "(to_dict (demo_signed demo_timeout), 604801)"]) (simp add: a)
  moreover have "ord1 \<noteq> demo_order" using a(3) by auto
  moreover have "inj (sha256 demo_crypto)" by (simp add: demo_crypto_def)
  ultimately show ?thesis using stale_review_rejected [OF _ demo_inv demo_order_found _ a(2)] a by blast
qed

text \<open>No replay. A command that was accepted once is never accepted again, in any later state, at any
  time, and neither is any other command with its operation id.\<close>

lemma accepted_once:
  assumes "exch_inv config s" "apply_cmd C s wire config t = Inr s1" "exch.reaches C config s1 s2"
    "signature C wire = Inr signed" "signature C wire' = Inr signed'"
    "jfield ''id'' (sp_payload signed') = jfield ''id'' (sp_payload signed)"
  shows "\<forall>t'. apply_cmd C s2 wire' config t' \<noteq> Inr s3"
proof -
  have "\<exists>k. identifier_check (jfield ''id'' (sp_payload signed)) = Inr k"
    using assms(2) by (rule apply_parts) (use assms(4) in auto)
  then obtain k where k: "identifier_check (jfield ''id'' (sp_payload signed)) = Inr k" by blast
  have "map_of (st_operations s2) k \<noteq> None"
    by (rule reaches_operations [OF assms(3) apply_inv [OF assms(2,1)] apply_logs_id(2) [OF assms(2,4) k]])
  then show ?thesis using apply_logs_id(1) [OF _ assms(5)] k assms(6) by auto
qed

lemma accepted_once_witness:
  "\<exists>s1. apply_cmd demo_crypto demo_state (to_dict (demo_signed demo_timeout)) demo_config 604801 = Inr s1
     \<and> apply_cmd demo_crypto s1 (to_dict (demo_signed demo_timeout)) demo_config 604802 \<noteq> Inr demo_state"
proof -
  obtain s1 ord1 where a: "apply_cmd demo_crypto demo_state (to_dict (demo_signed demo_timeout)) demo_config 604801 = Inr s1"
    "map_of (st_orders s1) ''o'' = Some ord1" "od_status ord1 = Refunded" by (rule demo_timeout_accepted)
  from accepted_once [OF demo_inv a(1) exch.reaches_start demo_timeout_signature demo_timeout_signature refl] a(1)
  show ?thesis by blast
qed

text \<open>Nobody spends another account's balance. An accepted command lowers the available balance only of
  the account it is signed for; agreeing to a proposal, which moves the counterparty's price or reserve into
  its held balance, is the one exception.\<close>

lemma only_actor_debited:
  assumes "exch_inv config s" "apply_cmd C s wire config t = Inr s'" "signature C wire = Inr signed"
    "jfield ''actor'' (sp_payload signed) \<noteq> JStr p" "jfield ''action'' (sp_payload signed) \<noteq> JStr ''agree''"
  shows "ac_available (acct s p) \<le> ac_available (acct s' p)"
  by (rule apply_credits [OF assms(2,1,3-5)])

lemma only_actor_debited_witness:
  "\<exists>s1. apply_cmd demo_crypto demo_state (to_dict (demo_signed demo_timeout)) demo_config 604801 = Inr s1
     \<and> ac_available (acct demo_state ''v'') \<le> ac_available (acct s1 ''v'')"
proof -
  obtain s1 ord1 where a: "apply_cmd demo_crypto demo_state (to_dict (demo_signed demo_timeout)) demo_config 604801 = Inr s1"
    "map_of (st_orders s1) ''o'' = Some ord1" "od_status ord1 = Refunded" by (rule demo_timeout_accepted)
  have "jfield ''actor'' (sp_payload (demo_signed demo_timeout)) \<noteq> JStr ''v''"
    "jfield ''action'' (sp_payload (demo_signed demo_timeout)) \<noteq> JStr ''agree''"
    by (simp_all add: demo_signed_def demo_timeout_def timeout_command_fields)
  from only_actor_debited [OF demo_inv a(1) demo_timeout_signature this] a(1) show ?thesis by blast
qed

text \<open>C20: The life cycle of an order. An accepted command leaves an order as it is, or moves an open order
  along an edge of the life cycle with its parties, terms and price unchanged; an order that has closed
  never changes again.\<close>

lemma order_life_cycle:
  assumes "exch_inv config s" "apply_cmd C s wire config t = Inr s'" "map_of (st_orders s) oid = Some ord"
  shows "\<exists>ord'. map_of (st_orders s') oid = Some ord' \<and> (ord' = ord \<or>
    is_open ord \<and> status_step (od_status ord) (od_status ord') \<and> od_buyer ord' = od_buyer ord
    \<and> od_provider ord' = od_provider ord \<and> od_terms ord' = od_terms ord \<and> od_price ord' = od_price ord)"
  using apply_order [OF assms(2,1,3)] by (auto simp: follows_def)

lemma order_life_cycle_witness:
  "\<exists>s1 ord1. apply_cmd demo_crypto demo_state (to_dict (demo_signed demo_timeout)) demo_config 604801 = Inr s1
     \<and> map_of (st_orders s1) ''o'' = Some ord1 \<and> ord1 \<noteq> demo_order \<and> od_price ord1 = 10"
proof -
  obtain s1 ord1 where a: "apply_cmd demo_crypto demo_state (to_dict (demo_signed demo_timeout)) demo_config 604801 = Inr s1"
    "map_of (st_orders s1) ''o'' = Some ord1" "od_status ord1 = Refunded" by (rule demo_timeout_accepted)
  from order_life_cycle [OF demo_inv a(1) demo_order_found] a show ?thesis by auto
qed

text \<open>A manifest that \<open>genesis\<close> accepts has four to eight validators with different keys, none of
  them a judge, judges with different keys and models or none, and a quorum of more than two thirds.\<close>

lemma genesis_valid:
  assumes "genesis value = Inr config"
  shows "4 \<le> length (cf_validators config) \<and> length (cf_validators config) \<le> 8
    \<and> distinct (validator_ids config @ map jd_peer_id (cf_judges config)) \<and> distinct (map jd_model (cf_judges config))
    \<and> 2 * length (cf_validators config) < 3 * quorum config \<and> quorum config \<le> length (cf_validators config)"
proof -
  let ?vs = "jlist (jfield ''validators'' value)" and ?js = "jlist (jfield ''judges'' value)"
  from assms have cfg: "config = parse_config value" and ent: "genesis_entries ?vs ?js [] (?vs @ ?js) = Inr ()"
    and models: "distinct (map (jstr ''model'') ?js)"
    unfolding genesis_def genesis_checks_def Let_def
    by (auto simp: guard_simps integer_Inr split: json.splits)
  have "distinct (map (jstr ''peer_id'') (?vs @ ?js))" using genesis_entries_distinct [OF ent] by simp
  with models genesis_config_ok(2,3) [OF assms] quorum_bounds [of "length (cf_validators config)"] show ?thesis
    by (simp add: cfg parse_config_def validator_ids_def comp_def parse_validator_def parse_judge_def quorum_def)
qed

lemma genesis_valid_witness:
  "quorum (parse_config demo_manifest) \<le> length (cf_validators (parse_config demo_manifest))"
  using genesis_valid [OF demo_manifest_ok] by simp

end
