(* ===== verification/Exchange_Legacy.thy ===== *)
theory Exchange_Legacy
  imports Exchange_Guarantees
begin

section \<open>The frozen version 1 rules\<close>

text \<open>
  \<open>src/rynmesh/exchange/legacy_v1.py\<close>, the rules under which a network with a version 1 manifest replays
  its history. Where an action is line by line the one of \<open>protocol.py\<close>, its definition is shared; the
  ones that differ are here with the prefix \<open>v1_\<close>: no admission quotas, no operation reserve, no
  commitments and no deadlines other than the appeal window. The records are those of version 2; the
  keys that a version 1 dict lacks (admissions, remaining operations, delivery revisions, the windows of
  the terms) keep a fixed value that no version 1 rule reads and no version 1 JSON shows.
\<close>

definition V1_VERSION :: string where "V1_VERSION = ''ryn.exchange.v1''"

definition V1_COVENANT :: json where
  "V1_COVENANT = JObj [
     (''version'', JStr ''ryn.covenant.digital.v1''),
     (''principles'', JArr (map JStr [''free participation'', ''no platform commission'', ''direct agreed prices'', ''honest delivery'', ''lawful ethical work'', ''consent and rights'', ''public rules and audit'', ''private keys and deliverables'', ''independent AI appeals''])),
     (''acceptance'', JStr ''The buyer accepts delivery or both parties agree a refund. Disputed outcomes use independent model receipts; uncertainty holds funds.'')]"

definition v1_genesis :: "json \<Rightarrow> py_error + config" where
  "v1_genesis value = genesis_checks V1_VERSION V1_COVENANT value"

text \<open>\<open>genesis\<close> of \<open>protocol.py\<close> with its first branch: a version 1 manifest goes to the legacy checks.\<close>

definition any_genesis :: "json \<Rightarrow> py_error + config" where
  "any_genesis value = (if is_obj value \<and> jget ''version'' value = Some (JStr LEGACY_VERSION)
     then v1_genesis value else genesis value)"

subsection \<open>Terms and cases\<close>

definition v1_terms_for :: "config \<Rightarrow> proposal \<Rightarrow> listing \<Rightarrow> py_error + terms" where
  "v1_terms_for config proposal listing =
     bnd (selected_judges config (pr_buyer proposal) (pr_provider proposal)) (\<lambda>selected.
     let buyer_fee = fst (fees selected); provider_fee = snd (fees selected) in
     Inr \<lparr>tm_proposal_id = pr_id proposal, tm_buyer = pr_buyer proposal, tm_provider = pr_provider proposal,
       tm_title = li_title listing, tm_category = li_category listing, tm_scope = pr_scope proposal,
       tm_price = pr_price proposal, tm_buyer_dispute_reserve = buyer_fee,
       tm_provider_dispute_reserve = provider_fee, tm_covenant = cf_covenant config,
       tm_appeal_window_s = cf_appeal_window_s config, tm_judges = selected,
       tm_delivery = ''encrypted digital text, at most 32 KiB'', tm_platform_commission = 0,
       tm_delivery_window_s = 0, tm_review_window_s = 0, tm_case_window_s = 0,
       tm_dispute_timeout_share_bps = 0, tm_appeal_timeout = [], tm_evidence_policy = [],
       tm_delivery_revisions = 0\<rparr>)"

definition v1_terms_json :: "terms \<Rightarrow> json" where
  "v1_terms_json t = JObj [(''proposal_id'', JStr (tm_proposal_id t)), (''buyer'', JStr (tm_buyer t)),
     (''provider'', JStr (tm_provider t)), (''title'', JStr (tm_title t)),
     (''category'', JStr (tm_category t)), (''scope'', JStr (tm_scope t)), (''price'', JInt (tm_price t)),
     (''buyer_dispute_reserve'', JInt (tm_buyer_dispute_reserve t)),
     (''provider_dispute_reserve'', JInt (tm_provider_dispute_reserve t)),
     (''covenant'', tm_covenant t), (''appeal_window_s'', JInt (tm_appeal_window_s t)),
     (''judges'', JArr (map judge_json (tm_judges t))), (''delivery'', JStr (tm_delivery t)),
     (''platform_commission'', JInt (tm_platform_commission t))]"

definition v1_case_payload :: "config \<Rightarrow> order \<Rightarrow> nat \<Rightarrow> json" where
  "v1_case_payload config ord round_number =
     JObj [(''version'', JStr V1_VERSION), (''kind'', JStr ''case''), (''order_id'', JStr (od_id ord)),
       (''round'', JInt (int round_number)), (''terms'', v1_terms_json (od_terms ord)),
       (''delivery_hash'', JStr (case od_delivery_hash ord of None \<Rightarrow> [] | Some h \<Rightarrow> h)),
       (''evidence'', evidence_json (od_evidence ord)), (''covenant'', cf_covenant config)]"

subsection \<open>Actions\<close>

definition v1_withdraw :: "state \<Rightarrow> string \<Rightarrow> json \<Rightarrow> py_error + state" where
  "v1_withdraw s owner value =
     require (keys_are value [''listing_id'']) invalid (
     bnd (dict_get (st_listings s) (jfield ''listing_id'' value)) (\<lambda>found.
     case found of None \<Rightarrow> Inl unauthorized | Some listing \<Rightarrow>
     require (li_owner listing = owner) unauthorized (
     Inr (s\<lparr>st_listings := dict_put (jstr ''listing_id'' value) (listing\<lparr>li_active := False\<rparr>) (st_listings s)\<rparr>))))"

definition v1_new_order :: "string \<Rightarrow> proposal \<Rightarrow> terms \<Rightarrow> int \<Rightarrow> order" where
  "v1_new_order op_id proposal terms timestamp = \<lparr>od_id = op_id, od_proposal_id = pr_id proposal,
     od_buyer = pr_buyer proposal, od_provider = pr_provider proposal, od_terms = terms,
     od_price = pr_price proposal, od_buyer_reserve = tm_buyer_dispute_reserve terms,
     od_provider_reserve = tm_provider_dispute_reserve terms, od_status = Working, od_evidence = [],
     od_refund_requests = [], od_waivers = [], od_created_at = timestamp,
     od_delivery_until = 0, od_remaining_ops = 0, od_delivery_revisions = 0, od_review_until = None,
     od_delivery_hash = None, od_delivery = None, od_round = None, od_case_until = None,
     od_ruling_share = None, od_rulings = None, od_appeal_until = None, od_paid = None\<rparr>"

definition v1_agree_on :: "crypto \<Rightarrow> config \<Rightarrow> state \<Rightarrow> string \<Rightarrow> string \<Rightarrow> json \<Rightarrow> int \<Rightarrow> proposal \<Rightarrow> py_error + state" where
  "v1_agree_on C config s owner op_id value timestamp proposal =
     require (pr_status proposal = ''offered'') (Raised ''exchange_proposal_unavailable'') (
     require ((owner = pr_buyer proposal \<or> owner = pr_provider proposal) \<and> owner \<noteq> pr_proposed_by proposal) unauthorized (
     bnd (opt_or KeyError (map_of (st_listings s) (pr_listing_id proposal))) (\<lambda>listing.
     require (li_active listing) (Raised ''exchange_listing_unavailable'') (
     require (length (filter (\<lambda>o'. od_buyer o' \<in> {pr_buyer proposal, pr_provider proposal}
                \<or> od_provider o' \<in> {pr_buyer proposal, pr_provider proposal}) (open_orders s)) < 100)
       (Raised ''exchange_open_orders_limit'') (
     bnd (v1_terms_for config proposal listing) (\<lambda>terms.
     require (jfield ''terms_hash'' value = JStr (json_hash C (v1_terms_json terms))) (Raised ''exchange_terms_changed'') (
     bnd (hold s (pr_buyer proposal) (pr_price proposal + tm_buyer_dispute_reserve terms)) (\<lambda>s.
     bnd (hold s (pr_provider proposal) (tm_provider_dispute_reserve terms)) (\<lambda>s.
     let s = s\<lparr>st_proposals := dict_put (jstr ''proposal_id'' value) (proposal\<lparr>pr_status := ''accepted''\<rparr>) (st_proposals s)\<rparr> in
     Inr (put_order op_id (v1_new_order op_id proposal terms timestamp) s))))))))))"

definition v1_agree :: "crypto \<Rightarrow> config \<Rightarrow> state \<Rightarrow> string \<Rightarrow> string \<Rightarrow> json \<Rightarrow> int \<Rightarrow> py_error + state" where
  "v1_agree C config s owner op_id value timestamp =
     require (keys_are value [''proposal_id'', ''terms_hash'']) invalid (
     bnd (dict_get (st_proposals s) (jfield ''proposal_id'' value)) (\<lambda>found.
     case found of None \<Rightarrow> Inl (Raised ''exchange_proposal_unavailable'')
       | Some proposal \<Rightarrow> v1_agree_on C config s owner op_id value timestamp proposal))"

definition v1_reward :: "crypto \<Rightarrow> config \<Rightarrow> state \<Rightarrow> string \<Rightarrow> json \<Rightarrow> json \<Rightarrow> py_error + state" where
  "v1_reward C config s owner network value =
     require (keys_are value [''job_id'', ''receipts'']) invalid (
     bnd (identifier_check (jfield ''job_id'' value)) (\<lambda>job_id.
     require (map_of (st_rewards s) job_id = None) (Raised ''exchange_reward_duplicate'') (
     require (owner \<notin> set (dict_vals (st_rewards s))) (Raised ''exchange_registry_already_rewarded'') (
     let receipts = jfield ''receipts'' value in
     require (is_list receipts \<and> length (jlist receipts) \<le> 8) invalid (
     bnd (reward_witnesses C config owner
            (JObj [(''version'', JStr V1_VERSION), (''kind'', JStr ''registry-work''), (''network'', network),
              (''job_id'', JStr job_id), (''provider'', JStr owner),
              (''work_hash'', JStr (work_hash C config job_id owner))]) [] (jlist receipts)) (\<lambda>witnesses.
     require (quorum config \<le> length witnesses) (Raised ''exchange_work_unverified'') (
     require (st_issued s + cf_work_reward config \<le> cf_issuance_limit config) (Raised ''exchange_issuance_exhausted'') (
     bnd (earn s owner (cf_work_reward config)) (\<lambda>s.
     Inr (s\<lparr>st_issued := st_issued s + cf_work_reward config,
            st_rewards := dict_put job_id owner (st_rewards s)\<rparr>))))))))))"

definition v1_deliver :: "state \<Rightarrow> string \<Rightarrow> string \<Rightarrow> order \<Rightarrow> json \<Rightarrow> py_error + state" where
  "v1_deliver s owner oid ord value =
     require (keys_are value [''order_id'', ''hash'', ''sealed'']) invalid (
     require (owner = od_provider ord \<and> (od_status ord = Working \<or> od_status ord = Delivered)) unauthorized (
     bnd (commitment_check (jfield ''hash'' value)) (\<lambda>h.
     let sealed = jfield ''sealed'' value in
     require (is_obj sealed \<and> keys_are sealed [''nonce'', ''ciphertext'']) invalid (
     bnd (text_check (jfield ''nonce'' sealed) 100 False) (\<lambda>_.
     bnd (text_check (jfield ''ciphertext'' sealed) (64 * 1024) False) (\<lambda>_.
     Inr (put_order oid (ord\<lparr>od_status := Delivered, od_delivery_hash := Some h, od_delivery := Some sealed\<rparr>) s)))))))"

definition v1_refund :: "state \<Rightarrow> string \<Rightarrow> string \<Rightarrow> order \<Rightarrow> json \<Rightarrow> py_error + state" where
  "v1_refund s owner oid ord value =
     require (keys_are value [''order_id'']) invalid (
     let ord = (if owner \<in> set (od_refund_requests ord) then ord
                else ord\<lparr>od_refund_requests := od_refund_requests ord @ [owner]\<rparr>) in
     if length (od_refund_requests ord) = 2 then close_order s oid ord 0 Refunded
     else Inr (put_order oid ord s))"

definition v1_dispute :: "state \<Rightarrow> string \<Rightarrow> order \<Rightarrow> json \<Rightarrow> py_error + state" where
  "v1_dispute s oid ord value =
     require (keys_are value [''order_id'']) invalid (
     bnd (order_panel ord 0) (\<lambda>_. bnd (order_panel ord 1) (\<lambda>_.
     Inr (put_order oid (ord\<lparr>od_status := Disputed, od_round := Some 0, od_evidence := [], od_waivers := []\<rparr>) s))))"

definition v1_evidence :: "state \<Rightarrow> string \<Rightarrow> string \<Rightarrow> order \<Rightarrow> json \<Rightarrow> py_error + state" where
  "v1_evidence s owner oid ord value =
     require (keys_are value [''order_id'', ''commitment'', ''sealed'']) invalid (
     require (od_status ord = Disputed) invalid (
     bnd (commitment_check (jfield ''commitment'' value)) (\<lambda>commitment.
     bnd (opt_or KeyError (od_round ord)) (\<lambda>round_number.
     bnd (order_panel ord round_number) (\<lambda>panel.
     let sealed = jfield ''sealed'' value in
     require (is_obj sealed \<and> keys_are sealed (map jd_peer_id panel)) invalid (
     bnd (check_all sealed_entry (jvals sealed)) (\<lambda>_.
     Inr (put_order oid (ord\<lparr>od_evidence :=
       dict_put owner \<lparr>ev_commitment = commitment, ev_sealed = sealed\<rparr> (od_evidence ord)\<rparr>) s))))))))"

definition v1_rule :: "crypto \<Rightarrow> config \<Rightarrow> state \<Rightarrow> string \<Rightarrow> order \<Rightarrow> json \<Rightarrow> json \<Rightarrow> int \<Rightarrow> py_error + state" where
  "v1_rule C config s oid ord network value timestamp =
     require (keys_are value [''order_id'', ''rulings''] \<and> od_status ord = Disputed) invalid (
     require (set (map fst (od_evidence ord)) = {od_buyer ord, od_provider ord}) (Raised ''exchange_evidence_incomplete'') (
     bnd (opt_or KeyError (od_round ord)) (\<lambda>round_number.
     bnd (order_panel ord round_number) (\<lambda>panel.
     let rulings = jfield ''rulings'' value in
     require (is_list rulings \<and> length (jlist rulings) = 3) invalid (
     bnd (read_rulings V1_VERSION C panel network (json_hash C (v1_case_payload config ord round_number)) [] [] (jlist rulings)) (\<lambda>shares.
     let sorted_shares = sort shares in
     require (last sorted_shares - hd sorted_shares \<le> 1000) (Raised ''exchange_models_disagree'') (
     let paid_fee = judge_fees panel; buyer_fee = (paid_fee + 1) div 2; provider_fee = paid_fee div 2 in
     require (buyer_fee \<le> od_buyer_reserve ord \<and> provider_fee \<le> od_provider_reserve ord) invalid (
     let s = upd_acct (od_buyer ord) (\<lambda>r. r\<lparr>ac_held := ac_held r - buyer_fee\<rparr>) s;
         s = upd_acct (od_provider ord) (\<lambda>r. r\<lparr>ac_held := ac_held r - provider_fee\<rparr>) s in
     bnd (earn_all s panel) (\<lambda>s.
     Inr (put_order oid (ord\<lparr>od_buyer_reserve := od_buyer_reserve ord - buyer_fee,
       od_provider_reserve := od_provider_reserve ord - provider_fee, od_status := Ruling_ready,
       od_ruling_share := Some (sorted_shares ! 1), od_rulings := Some rulings,
       od_appeal_until := Some (timestamp + cf_appeal_window_s config), od_waivers := []\<rparr>) s))))))))))"

definition v1_appeal :: "state \<Rightarrow> string \<Rightarrow> order \<Rightarrow> json \<Rightarrow> int \<Rightarrow> py_error + state" where
  "v1_appeal s oid ord value timestamp =
     require (keys_are value [''order_id''] \<and> od_status ord = Ruling_ready) invalid (
     bnd (opt_or KeyError (od_round ord)) (\<lambda>round_number.
     require (round_number = 0) invalid (
     bnd (opt_or KeyError (od_appeal_until ord)) (\<lambda>appeal_until.
     require (timestamp < appeal_until) (Raised ''exchange_appeal_expired'') (
     Inr (put_order oid (ord\<lparr>od_status := Disputed, od_round := Some 1, od_evidence := [], od_waivers := []\<rparr>) s))))))"

definition v1_waive :: "state \<Rightarrow> string \<Rightarrow> string \<Rightarrow> order \<Rightarrow> json \<Rightarrow> py_error + state" where
  "v1_waive s owner oid ord value =
     require (keys_are value [''order_id''] \<and> od_status ord = Ruling_ready) invalid (
     Inr (put_order oid (if owner \<in> set (od_waivers ord) then ord
                         else ord\<lparr>od_waivers := od_waivers ord @ [owner]\<rparr>) s))"

definition v1_finalize :: "state \<Rightarrow> string \<Rightarrow> order \<Rightarrow> json \<Rightarrow> int \<Rightarrow> py_error + state" where
  "v1_finalize s oid ord value timestamp =
     require (keys_are value [''order_id''] \<and> od_status ord = Ruling_ready) invalid (
     bnd (opt_or KeyError (od_appeal_until ord)) (\<lambda>appeal_until.
     require (appeal_until \<le> timestamp \<or> length (od_waivers ord) = 2) (Raised ''exchange_appeal_open'') (
     bnd (opt_or KeyError (od_ruling_share ord)) (\<lambda>share.
     close_order s oid ord (od_price ord * share div 10000) Resolved))))"

subsection \<open>Dispatch and the transition\<close>

text \<open>The actions on the order once it has been found.\<close>

definition v1_order_on :: "crypto \<Rightarrow> config \<Rightarrow> state \<Rightarrow> string \<Rightarrow> json \<Rightarrow> json \<Rightarrow> json \<Rightarrow> int \<Rightarrow> order \<Rightarrow> py_error + state" where
  "v1_order_on C config s owner network action value timestamp ord =
     require (owner = od_buyer ord \<or> owner = od_provider ord) (Raised ''exchange_order_unavailable'') (
     require (is_open ord) (Raised ''exchange_order_closed'') (
     let oid = jstr ''order_id'' value in
     if action = JStr ''deliver'' then v1_deliver s owner oid ord value
     else if action = JStr ''accept'' then act_accept s owner oid ord value
     else if action = JStr ''refund'' then v1_refund s owner oid ord value
     else if action = JStr ''dispute'' then v1_dispute s oid ord value
     else if action = JStr ''evidence'' then v1_evidence s owner oid ord value
     else if action = JStr ''rule'' then v1_rule C config s oid ord network value timestamp
     else if action = JStr ''appeal'' then v1_appeal s oid ord value timestamp
     else if action = JStr ''waive'' then v1_waive s owner oid ord value
     else if action = JStr ''finalize'' then v1_finalize s oid ord value timestamp
     else Inl (Raised ''exchange_action_invalid'')))"

definition v1_order :: "crypto \<Rightarrow> config \<Rightarrow> state \<Rightarrow> string \<Rightarrow> json \<Rightarrow> json \<Rightarrow> json \<Rightarrow> int \<Rightarrow> py_error + state" where
  "v1_order C config s owner network action value timestamp =
     bnd (lookup_order s value) (\<lambda>found.
     case found of None \<Rightarrow> Inl (Raised ''exchange_order_unavailable'')
       | Some ord \<Rightarrow> v1_order_on C config s owner network action value timestamp ord)"

definition v1_dispatch :: "crypto \<Rightarrow> config \<Rightarrow> state \<Rightarrow> string \<Rightarrow> string \<Rightarrow> string \<Rightarrow> json \<Rightarrow> json \<Rightarrow> json \<Rightarrow> int \<Rightarrow> py_error + state" where
  "v1_dispatch C config s owner signer op_id network action value timestamp =
     (if action = JStr ''profile'' then act_profile s owner value
      else if action = JStr ''device'' then act_device s owner signer value
      else if action = JStr ''transfer'' then act_transfer s owner value
      else if action = JStr ''listing'' then act_listing s owner op_id value timestamp
      else if action = JStr ''withdraw'' then v1_withdraw s owner value
      else if action = JStr ''propose'' then act_propose config s owner op_id value
      else if action = JStr ''agree'' then v1_agree C config s owner op_id value timestamp
      else if action = JStr ''reward'' then v1_reward C config s owner network value
      else v1_order C config s owner network action value timestamp)"

definition v1_apply :: "crypto \<Rightarrow> state \<Rightarrow> json \<Rightarrow> config \<Rightarrow> int \<Rightarrow> py_error + state" where
  "v1_apply C s command_wire config timestamp =
     bnd (signature C command_wire) (\<lambda>signed.
     let cmd = sp_payload signed in
     require (keys_are cmd [''version'', ''network'', ''id'', ''actor'', ''nonce'', ''action'', ''value'']) invalid (
     require (jfield ''version'' cmd = JStr V1_VERSION \<and> jfield ''network'' cmd = JStr (network_id C config)) invalid (
     bnd (identifier_check (jfield ''id'' cmd)) (\<lambda>op_id.
     bnd (key_check (jfield ''actor'' cmd)) (\<lambda>owner.
     let s = touch owner s in
     require (sp_public_key signed = owner \<or> sp_public_key signed \<in> set (ac_devices (acct s owner))) unauthorized (
     require (map_of (st_operations s) op_id = None) (Raised ''exchange_operation_exists'') (
     bnd (integer (jfield ''nonce'' cmd) MAX_MINOR) (\<lambda>nonce.
     require (nonce = ac_nonce (acct s owner) + 1) (Raised ''exchange_nonce_changed'') (
     require (st_time s \<le> timestamp) invalid (
     require (is_obj (jfield ''value'' cmd)) invalid (
     require (length (st_operations s) < 10000) (Raised ''exchange_capacity'') (
     bnd (v1_dispatch C config s owner (sp_public_key signed) op_id (jfield ''network'' cmd)
            (jfield ''action'' cmd) (jfield ''value'' cmd) timestamp) (\<lambda>s.
     final_checks (record_op s owner op_id (json_hash C command_wire) timestamp))))))))))))))"

end
