(* ===== verification/Exchange_Legacy_Money.thy ===== *)
theory Exchange_Legacy_Money
  imports Exchange_Legacy
begin

section \<open>Money under the version 1 rules\<close>

text \<open>
  The books of a version 1 network balance as well: held balances are the escrow of open orders and the
  supply is what was issued, whatever the actions. Version 1 has no timeouts, so nothing is said of orders
  that get stuck.
\<close>

definition v1_order_ok :: "order \<Rightarrow> bool" where
  "v1_order_ok ord \<longleftrightarrow> amounts_ok ord \<and> (\<forall>j \<in> set (tm_judges (od_terms ord)). 0 \<le> jd_fee j)"

definition v1_orders_ok :: "state \<Rightarrow> bool" where
  "v1_orders_ok s \<longleftrightarrow> (\<forall>oid ord. map_of (st_orders s) oid = Some ord \<longrightarrow> v1_order_ok ord)"

definition v1_book :: "config \<Rightarrow> string set \<Rightarrow> state \<Rightarrow> bool" where
  "v1_book config new s \<longleftrightarrow> money_inv config s \<and> v1_orders_ok s \<and> all_proposals_ok s \<and> logged new s"

lemmas v1_book_defs = v1_book_def v1_orders_ok_def all_proposals_ok_def logged_def

lemma v1_orders_amounts: "v1_orders_ok s \<Longrightarrow> orders_amounts s"
  by (auto simp: v1_orders_ok_def orders_amounts_def v1_order_ok_def)

lemma v1_book_order: "v1_book config new s \<Longrightarrow> map_of (st_orders s) oid = Some ord \<Longrightarrow> v1_order_ok ord"
  by (auto simp: v1_book_def v1_orders_ok_def)

lemma v1_acct:
  assumes "v1_book config new s" "\<And>r. weight (f r) = weight r" "\<And>r. ac_held (f r) = ac_held r"
  shows "v1_book config new (upd_acct p f s)"
proof -
  have "ac_available (f r) = ac_available r" for r
    using assms(2) [of r] assms(3) [of r] by (simp add: weight_def)
  then show ?thesis using assms by (auto simp: v1_book_defs money_inv_def total_supply_upd)
qed

lemma v1_touch: "v1_book config new s \<Longrightarrow> v1_book config new (touch p s)"
  unfolding touch_def by (rule v1_acct) auto

lemma v1_listings: "v1_book config new (s\<lparr>st_listings := l\<rparr>) \<longleftrightarrow> v1_book config new s"
  by (simp add: v1_book_defs money_inv_def)

lemma v1_proposal:
  "v1_book config new s \<Longrightarrow> proposal_ok q \<Longrightarrow>
   v1_book config new (s\<lparr>st_proposals := dict_put pid q (st_proposals s)\<rparr>)"
  by (simp add: v1_book_defs money_inv_def)

subsection \<open>Account and market actions\<close>

lemma v1_account_actions:
  assumes inv: "v1_book config new s"
  shows "act_profile s owner v = Inr s' \<Longrightarrow> v1_book config new s'"
    "act_device s owner signer v = Inr s' \<Longrightarrow> v1_book config new s'"
    "act_transfer s owner v = Inr s' \<Longrightarrow> v1_book config new s'"
proof -
  show "v1_book config new s'" if act: "act_profile s owner v = Inr s'"
  proof -
    obtain label ek where "s' = upd_acct owner (\<lambda>r. r\<lparr>ac_label := label, ac_encryption_key := ek\<rparr>) s"
      using act unfolding act_profile_def Let_def guard_simps by auto
    then show ?thesis by (simp add: v1_acct [OF inv] weight_def)
  qed
  show "v1_book config new s'" if act: "act_device s owner signer v = Inr s'"
  proof (cases "jfield ''allowed'' v")
    case (JBool b)
    then show ?thesis
      using act inv unfolding act_device_def
      by (cases b) (auto simp: guard_simps weight_def intro!: v1_acct)
  qed (use act in \<open>auto simp: act_device_def guard_simps\<close>)
  show "v1_book config new s'" if act: "act_transfer s owner v = Inr s'"
  proof -
    obtain recipient paid where ne: "recipient \<noteq> owner" and paid: "0 < paid" "paid \<le> ac_available (acct s owner)"
      and s': "s' = upd_acct recipient (\<lambda>r. r\<lparr>ac_available := ac_available r + paid, ac_earned := ac_earned r + paid\<rparr>)
        (upd_acct owner (\<lambda>r. r\<lparr>ac_available := ac_available r - paid\<rparr>) (touch recipient s))"
      using act unfolding act_transfer_def Let_def guard_simps earn_Inr by auto
    have t: "v1_book config new (touch recipient s)" by (rule v1_touch [OF inv])
    have "money_inv config s'"
      unfolding s' using t ne paid by (intro pay_money) (simp_all add: v1_book_def)
    with t show ?thesis unfolding s' by (simp add: v1_book_defs)
  qed
qed

lemma v1_market_actions:
  assumes inv: "v1_book config new s"
  shows "act_listing s owner op_id v t = Inr s' \<Longrightarrow> v1_book config new s'"
    "v1_withdraw s owner v = Inr s' \<Longrightarrow> v1_book config new s'"
    "act_propose config0 s owner op_id v = Inr s' \<Longrightarrow> v1_book config new s'"
proof -
  show "act_listing s owner op_id v t = Inr s' \<Longrightarrow> v1_book config new s'"
    using inv unfolding act_listing_def guard_simps by (auto simp: v1_listings)
  show "v1_withdraw s owner v = Inr s' \<Longrightarrow> v1_book config new s'"
    using inv unfolding v1_withdraw_def by (auto simp: v1_listings guard_simps split: option.splits)
  show "v1_book config new s'" if act: "act_propose config0 s owner op_id v = Inr s'"
  proof -
    obtain listing where "propose_on config0 s owner op_id v listing = Inr s'"
      using act by (auto simp: act_propose_def guard_simps split: option.splits)
    then obtain q where "s' = s\<lparr>st_proposals := dict_put op_id q (st_proposals s)\<rparr>" "proposal_ok q"
      unfolding propose_on_def Let_def by (auto simp: guard_simps integer_Inr proposal_ok_def)
    with v1_proposal [OF inv] show ?thesis by simp
  qed
qed

lemma v1_reward_book:
  assumes act: "v1_reward C config s owner network v = Inr s'" and inv: "v1_book config new s"
    and cfg: "config_ok config"
  shows "v1_book config new s'"
proof -
  obtain job_id s1 where e: "earn s owner (cf_work_reward config) = Inr s1"
    and lim: "st_issued s + cf_work_reward config \<le> cf_issuance_limit config"
    and s': "s1\<lparr>st_issued := st_issued s1 + cf_work_reward config, st_rewards := dict_put job_id owner (st_rewards s1)\<rparr> = s'"
    using act unfolding v1_reward_def Let_def guard_simps sum.inject by blast
  from cfg have "0 < cf_work_reward config" by (simp add: config_ok_def)
  then have "money_inv config s'"
    using inv e lim unfolding s' [symmetric] earn_Inr
    by (auto simp: v1_book_def money_inv_def total_supply_upd weight_def intro!: add_nonneg_nonneg)
  then show ?thesis using inv e unfolding s' [symmetric] earn_Inr by (auto simp: v1_book_defs)
qed

lemma v1_agree_book:
  assumes act: "v1_agree C config s owner op_id v t = Inr s'"
    and inv: "v1_book config {} s" and cfg: "config_ok config" and fresh: "map_of (st_operations s) op_id = None"
  shows "v1_book config {op_id} s'"
proof -
  obtain q pid where "v1_agree_on C config s owner op_id v t q = Inr s'" and q: "map_of (st_proposals s) pid = Some q"
    using act by (auto simp: v1_agree_def guard_simps split: option.splits)
  then obtain listing terms s1 s2 where terms: "v1_terms_for config q listing = Inr terms"
    and h1: "hold s (pr_buyer q) (pr_price q + tm_buyer_dispute_reserve terms) = Inr s1"
    and h2: "hold s1 (pr_provider q) (tm_provider_dispute_reserve terms) = Inr s2"
    and s': "s' = put_order op_id (v1_new_order op_id q terms t)
      (s2\<lparr>st_proposals := dict_put (jstr ''proposal_id'' v) (q\<lparr>pr_status := ''accepted''\<rparr>) (st_proposals s2)\<rparr>)"
    unfolding v1_agree_on_def Let_def by (auto simp: guard_simps)
  have q_ok: "proposal_ok q" using inv q by (auto simp: v1_book_def all_proposals_ok_def)
  obtain js where js: "tm_judges terms = js" "tm_buyer_dispute_reserve terms = fst (fees js)"
    "tm_provider_dispute_reserve terms = snd (fees js)"
    and sel: "selected_judges config (pr_buyer q) (pr_provider q) = Inr js"
    using terms unfolding v1_terms_for_def Let_def guard_simps by auto
  have "set js \<subseteq> set (cf_judges config)"
    using sel by (auto simp: selected_judges_def party_panel_def judge_panel_def eligible_judges_def Let_def guard_simps
        split: if_splits dest!: in_set_takeD in_set_dropD)
  then have nn: "\<forall>j \<in> set js. 0 \<le> jd_fee j" using cfg by (auto simp: config_ok_def)
  have new: "v1_order_ok (v1_new_order op_id q terms t)"
    using due_nonneg [OF nn, of "[0, 1]"] nn js q_ok
    by (simp add: v1_order_ok_def amounts_ok_def v1_new_order_def proposal_ok_def fees_due)
  have no_order: "map_of (st_orders s) op_id = None" using inv fresh by (auto simp: v1_book_def logged_def)
  have owed: "ord_owed p (v1_new_order op_id q terms t)
      = (if pr_buyer q = p then pr_price q + tm_buyer_dispute_reserve terms else 0)
      + (if pr_provider q = p then tm_provider_dispute_reserve terms else 0)" for p
    by (simp add: ord_owed_def v1_new_order_def is_open_def terminal_def)
  have ne: "pr_buyer q \<noteq> pr_provider q" using q_ok by (simp add: proposal_ok_def)
  have m: "money_inv config s" using inv by (simp add: v1_book_def)
  have "old_owed s2 op_id p = 0" "escrow s2 p = escrow s p" for p
    using h1 h2 no_order by (simp_all add: hold_Inr old_owed_def)
  then have "money_inv config s'"
    using m h1 h2 ne unfolding s' by (auto simp: money_inv_def hold_Inr owed total_supply_upd weight_def)
  then show ?thesis
    using inv h1 h2 new q_ok unfolding s' by (auto simp: v1_book_defs hold_Inr proposal_ok_def)
qed

subsection \<open>Order actions\<close>

text \<open>An open order that stays open with the same agreement and reserves.\<close>

definition keeps_deal :: "order \<Rightarrow> order \<Rightarrow> bool" where
  "keeps_deal ord ord' \<longleftrightarrow> od_buyer ord' = od_buyer ord \<and> od_provider ord' = od_provider ord
     \<and> od_price ord' = od_price ord \<and> od_buyer_reserve ord' = od_buyer_reserve ord
     \<and> od_provider_reserve ord' = od_provider_reserve ord \<and> od_terms ord' = od_terms ord
     \<and> (is_open ord \<longrightarrow> is_open ord')"

lemma v1_put:
  assumes inv: "v1_book config new s" and ord: "map_of (st_orders s) oid = Some ord" "is_open ord"
    and same: "keeps_deal ord ord'"
  shows "v1_book config new (put_order oid ord' s)"
proof -
  have ok: "v1_order_ok ord" by (rule v1_book_order [OF inv ord(1)])
  have "money_inv config (put_order oid ord' s)"
    using inv ord same by (intro put_order_money) (auto simp: v1_book_def keeps_deal_def ord_owed_def)
  moreover have "v1_order_ok ord'" using ok same by (simp add: v1_order_ok_def keeps_deal_def amounts_ok_def)
  ultimately show ?thesis using inv ord by (auto simp: v1_book_defs)
qed

lemma v1_close:
  assumes inv: "v1_book config new s" and ord: "map_of (st_orders s) oid = Some ord" "is_open ord"
    and same: "od_buyer ord' = od_buyer ord" "od_provider ord' = od_provider ord" "od_price ord' = od_price ord"
      "od_buyer_reserve ord' = od_buyer_reserve ord" "od_provider_reserve ord' = od_provider_reserve ord"
      "od_status ord' = od_status ord" "od_terms ord' = od_terms ord"
    and close: "close_order s oid ord' paid st = Inr s'" "terminal st"
  shows "v1_book config new s'"
proof -
  have ok: "v1_order_ok ord" by (rule v1_book_order [OF inv ord(1)])
  then have am: "amounts_ok ord'" and ne: "od_buyer ord' \<noteq> od_provider ord'"
    using same by (simp_all add: v1_order_ok_def amounts_ok_def)
  have owed: "ord_owed p ord' = ord_owed p ord" for p using same by (simp add: ord_owed_def is_open_def)
  have op: "is_open ord'" using ord same by (simp add: is_open_def)
  have m: "money_inv config s" "orders_amounts s" using inv v1_orders_amounts by (auto simp: v1_book_def)
  have "money_inv config s'" using close_money [OF m ord(1) owed op ne _ _ close] am by (simp add: amounts_ok_def)
  moreover note r = close_order_result [OF close(1) ne]
  moreover have "v1_order_ok (closed_order ord' paid st)"
    using ok am same(7) by (simp add: v1_order_ok_def closed_order_def amounts_ok_def)
  ultimately show ?thesis using inv ord(1) by (auto simp: v1_book_defs r)
qed

lemma v1_step_actions:
  assumes inv: "v1_book config new s" and ord: "map_of (st_orders s) oid = Some ord" "is_open ord"
  shows "v1_deliver s owner oid ord v = Inr s' \<Longrightarrow> v1_book config new s'"
    "v1_dispute s oid ord v = Inr s' \<Longrightarrow> v1_book config new s'"
    "v1_evidence s owner oid ord v = Inr s' \<Longrightarrow> v1_book config new s'"
    "v1_appeal s oid ord v t = Inr s' \<Longrightarrow> v1_book config new s'"
    "v1_waive s owner oid ord v = Inr s' \<Longrightarrow> v1_book config new s'"
proof -
  note put = v1_put [OF inv ord]
  note defs = keeps_deal_def is_open_def terminal_def
  show "v1_deliver s owner oid ord v = Inr s' \<Longrightarrow> v1_book config new s'"
    unfolding v1_deliver_def Let_def guard_simps sum.inject
    by (elim exE conjE, hypsubst, rule put) (simp_all (no_asm) add: defs)
  show "v1_dispute s oid ord v = Inr s' \<Longrightarrow> v1_book config new s'"
    unfolding v1_dispute_def guard_simps sum.inject
    by (elim exE conjE, hypsubst, rule put) (simp_all (no_asm) add: defs)
  show "v1_evidence s owner oid ord v = Inr s' \<Longrightarrow> v1_book config new s'"
    unfolding v1_evidence_def Let_def guard_simps sum.inject
    by (elim exE conjE, hypsubst, rule put) (simp_all (no_asm) add: defs)
  show "v1_appeal s oid ord v t = Inr s' \<Longrightarrow> v1_book config new s'"
    unfolding v1_appeal_def guard_simps sum.inject
    by (elim exE conjE, hypsubst, rule put) (simp_all (no_asm) add: defs)
  show "v1_waive s owner oid ord v = Inr s' \<Longrightarrow> v1_book config new s'"
    unfolding v1_waive_def guard_simps sum.inject
    by (elim exE conjE, hypsubst, rule put) (simp_all (no_asm) add: defs)
qed

lemma v1_closing_actions:
  assumes inv: "v1_book config new s" and ord: "map_of (st_orders s) oid = Some ord" "is_open ord"
  shows "act_accept s owner oid ord v = Inr s' \<Longrightarrow> v1_book config new s'"
    "v1_refund s owner oid ord v = Inr s' \<Longrightarrow> v1_book config new s'"
    "v1_finalize s oid ord v t = Inr s' \<Longrightarrow> v1_book config new s'"
proof -
  show "v1_book config new s'" if act: "act_accept s owner oid ord v = Inr s'"
  proof -
    have "close_order s oid ord (od_price ord) Accepted = Inr s'"
      using act unfolding act_accept_def by (auto simp: guard_simps)
    from v1_close [OF inv ord _ _ _ _ _ _ _ this] show ?thesis by (simp add: terminal_def)
  qed
  show "v1_book config new s'" if act: "v1_refund s owner oid ord v = Inr s'"
  proof -
    define ord' where "ord' = (if owner \<in> set (od_refund_requests ord) then ord
                else ord\<lparr>od_refund_requests := od_refund_requests ord @ [owner]\<rparr>)"
    have same: "keeps_deal ord ord'" "od_status ord' = od_status ord"
      by (simp_all add: ord'_def keeps_deal_def is_open_def)
    from act consider "close_order s oid ord' 0 Refunded = Inr s'" | "s' = put_order oid ord' s"
      unfolding v1_refund_def Let_def ord'_def [symmetric] require_Inr
      by (cases "length (od_refund_requests ord') = 2") simp_all
    then show ?thesis
    proof cases
      case 1
      from v1_close [OF inv ord _ _ _ _ _ _ _ this] same show ?thesis by (simp add: terminal_def keeps_deal_def)
    next
      case 2
      with v1_put [OF inv ord same(1)] show ?thesis by simp
    qed
  qed
  show "v1_book config new s'" if act: "v1_finalize s oid ord v t = Inr s'"
  proof -
    obtain share where "close_order s oid ord (od_price ord * share div 10000) Resolved = Inr s'"
      using act unfolding v1_finalize_def by (auto simp: guard_simps)
    from v1_close [OF inv ord _ _ _ _ _ _ _ this] show ?thesis by (simp add: terminal_def)
  qed
qed

lemma v1_rule_book:
  assumes act: "v1_rule C config s oid ord network v t = Inr s'" and inv: "v1_book config new s"
    and ord: "map_of (st_orders s) oid = Some ord" "is_open ord"
  shows "v1_book config new s'"
proof -
  have ok: "v1_order_ok ord" by (rule v1_book_order [OF inv ord(1)])
  define ruled1 where "ruled1 fee share rulings = ord\<lparr>od_buyer_reserve := od_buyer_reserve ord - (fee + 1) div 2,
       od_provider_reserve := od_provider_reserve ord - fee div 2, od_status := Ruling_ready,
       od_ruling_share := Some share, od_rulings := Some rulings,
       od_appeal_until := Some (t + cf_appeal_window_s config), od_waivers := []\<rparr>" for fee share rulings
  obtain r js share rulings s2 where panel: "order_panel ord r = Inr js"
    and fees: "(judge_fees js + 1) div 2 \<le> od_buyer_reserve ord" "judge_fees js div 2 \<le> od_provider_reserve ord"
    and earn: "earn_all (upd_acct (od_provider ord) (\<lambda>a. a\<lparr>ac_held := ac_held a - judge_fees js div 2\<rparr>)
        (upd_acct (od_buyer ord) (\<lambda>a. a\<lparr>ac_held := ac_held a - (judge_fees js + 1) div 2\<rparr>) s)) js = Inr s2"
    and s': "put_order oid (ruled1 (judge_fees js) share rulings) s2 = s'"
    using act unfolding v1_rule_def Let_def guard_simps sum.inject ruled1_def [symmetric]
    by (elim exE conjE) (rule that, assumption, assumption, assumption, assumption, assumption)
  have nn: "\<forall>j \<in> set js. 0 \<le> jd_fee j"
    using ok panel by (auto simp: v1_order_ok_def order_panel_def judge_panel_def Let_def guard_simps
        dest!: in_set_takeD in_set_dropD)
  have ne: "od_buyer ord \<noteq> od_provider ord" using ok by (simp add: v1_order_ok_def amounts_ok_def)
  have op: "is_open (ruled1 fee share rulings)" for fee by (simp add: ruled1_def is_open_def terminal_def)
  have owed: "ord_owed p (ruled1 (judge_fees js) share rulings) = ord_owed p ord
      - (if od_buyer ord = p then (judge_fees js + 1) div 2 else 0) - (if od_provider ord = p then judge_fees js div 2 else 0)" for p
    using ord(2) op [of "judge_fees js"] by (simp add: ord_owed_def) (simp add: ruled1_def)
  have "money_inv config s'"
    unfolding s' [symmetric] using inv by (intro fee_money [OF _ ord(1) ne nn refl earn owed]) (simp add: v1_book_def)
  moreover have "v1_order_ok (ruled1 (judge_fees js) share rulings)"
    using ok fees by (simp add: v1_order_ok_def amounts_ok_def ruled1_def)
  moreover note e = earn_all_result [OF earn nn]
  ultimately show ?thesis
    using inv ord(1) unfolding s' [symmetric] by (auto simp: v1_book_defs)
qed

subsection \<open>The transition\<close>

lemma v1_order_book:
  assumes act: "v1_order C config s owner network action v t = Inr s'" and inv: "v1_book config new s"
  shows "v1_book config new s'"
proof -
  obtain ord oid where ord: "map_of (st_orders s) oid = Some ord" "is_open ord"
    and d: "(if action = JStr ''deliver'' then v1_deliver s owner oid ord v
     else if action = JStr ''accept'' then act_accept s owner oid ord v
     else if action = JStr ''refund'' then v1_refund s owner oid ord v
     else if action = JStr ''dispute'' then v1_dispute s oid ord v
     else if action = JStr ''evidence'' then v1_evidence s owner oid ord v
     else if action = JStr ''rule'' then v1_rule C config s oid ord network v t
     else if action = JStr ''appeal'' then v1_appeal s oid ord v t
     else if action = JStr ''waive'' then v1_waive s owner oid ord v
     else if action = JStr ''finalize'' then v1_finalize s oid ord v t
     else Inl (Raised ''exchange_action_invalid'')) = Inr s'"
  proof -
    from act obtain found where f: "lookup_order s v = Inr found" and
      g: "(case found of None \<Rightarrow> Inl (Raised ''exchange_order_unavailable'') | Some ord \<Rightarrow> v1_order_on C config s owner network action v t ord) = Inr s'"
      unfolding v1_order_def bnd_Inr by blast
    then obtain ord where "found = Some ord" by (cases found) auto
    with f g obtain oid where "jget ''order_id'' v = Some (JStr oid)" "map_of (st_orders s) oid = Some ord"
      by (auto simp: lookup_order_def guard_simps split: option.splits)
    with g \<open>found = Some ord\<close> show thesis
      by (intro that [of oid ord]) (auto simp: v1_order_on_def require_Inr Let_def jstr_def)
  qed
  show ?thesis
    using d v1_step_actions [OF inv ord] v1_closing_actions [OF inv ord] v1_rule_book [OF _ inv ord]
    by (simp split: if_splits)
qed

lemma v1_dispatch_book:
  assumes act: "v1_dispatch C config s owner signer op_id network action v t = Inr s'"
    and inv: "v1_book config {} s" and cfg: "config_ok config" and fresh: "map_of (st_operations s) op_id = None"
  shows "v1_book config {op_id} s'"
proof -
  have wide: "v1_book config {op_id} s'" if "v1_book config {} s'" using that by (auto simp: v1_book_defs)
  show ?thesis
    using act wide v1_account_actions [OF inv] v1_market_actions [OF inv] v1_reward_book [OF _ inv cfg]
      v1_agree_book [OF _ inv cfg fresh] v1_order_book [OF _ inv]
    unfolding v1_dispatch_def by (simp split: if_splits)
qed

lemma v1_apply_book:
  assumes act: "v1_apply C s wire config t = Inr s'" and inv: "v1_book config {} s" and cfg: "config_ok config"
  shows "v1_book config {} s'"
proof -
  obtain signed :: signed_payload and op_id owner s2 where fresh: "map_of (st_operations (touch owner s)) op_id = None"
    and d: "v1_dispatch C config (touch owner s) owner (sp_public_key signed) op_id (jfield ''network'' (sp_payload signed))
            (jfield ''action'' (sp_payload signed)) (jfield ''value'' (sp_payload signed)) t = Inr s2"
    and s': "record_op s2 owner op_id (json_hash C wire) t = s'"
    using act unfolding v1_apply_def final_checks_def Let_def guard_simps sum.inject
    by (elim exE conjE) (rule that, assumption, assumption, assumption)
  have "v1_book config {op_id} s2"
    by (rule v1_dispatch_book [OF d v1_touch [OF inv] cfg fresh])
  then have "v1_book config {op_id} (upd_acct owner (\<lambda>r. r\<lparr>ac_nonce := ac_nonce r + 1\<rparr>) s2)"
    by (rule v1_acct) (simp_all add: weight_def)
  then show ?thesis
    unfolding s' [symmetric] record_op_def by (auto simp: v1_book_defs money_inv_def)
qed

end
