(* ===== verification/Approval_Log.thy ===== *)
theory Approval_Log
  imports Exchange_Legacy_Money
begin

section \<open>The approval log\<close>

text \<open>
  \<open>Ledger\<close> of \<open>src/rynmesh/exchange/ledger.py\<close>: a validator's durable log of certified commands. The
  record \<open>ledger\<close> holds the tables of the SQLite file (blocks in height order, votes, proposals, intents,
  disposable work rows with their clock, attempts, and the manifest of the settings table) and the
  attributes of the object (configuration, state, network, height, head). A row that the source stores as
  JSON text is the JSON value. A method takes the ledger and returns the next one or the exception; the
  transaction of a method that raises is rolled back, so an exception carries no ledger. The clock and the
  size of the database files are arguments. A height of the wire that is not an integer finds no row:
  where SQLite would match a float, a boolean or a text with the same number, the source raises
  \<open>exchange_fork\<close> (the hashes differ) and the model \<open>exchange_height_changed\<close>. An exception of the pruning
  that follows the transaction of a commit would leave the block in place; \<open>prune_total\<close> of the next theory
  shows that there is none in a reachable state.
\<close>

definition MAX_DATABASE_BYTES :: int where "MAX_DATABASE_BYTES = 128 * 1024 * 1024"
definition ORDER_STORAGE_RESERVE :: int where "ORDER_STORAGE_RESERVE = 16 * 1024 * 1024"
definition ADMISSION_HEADROOM :: int where "ADMISSION_HEADROOM = 16 * 1024 * 1024"

record vote_row =
  vr_hash :: string
  vr_proposal :: json
  vr_vote :: json

record block_row =
  bl_height :: int
  bl_hash :: string
  bl_certificate :: json

record intent =
  in_fingerprint :: string
  in_command :: json
  in_status :: string

record attempt_row =
  at_count :: int
  at_created :: int

record ledger =
  lg_private_key :: string
  lg_manifest :: "json option"
  lg_blocks :: "block_row list"
  lg_votes :: "(int, vote_row) dict"
  lg_proposals :: "(int, json) dict"
  lg_intents :: "(string, intent) dict"
  lg_work :: "(string, json) dict"
  lg_work_clock :: "(string, int) dict"
  lg_attempts :: "(string, attempt_row) dict"
  lg_state :: "state option"
  lg_config :: "config option"
  lg_network :: string
  lg_height :: int
  lg_head :: string

subsection \<open>Configuration\<close>

text \<open>\<open>rules()\<close>: the transition of the protocol version of the network.\<close>

definition rules_apply :: "crypto \<Rightarrow> state \<Rightarrow> json \<Rightarrow> config \<Rightarrow> int \<Rightarrow> py_error + state" where
  "rules_apply C s command config timestamp =
     (if cf_version config = VERSION then apply_cmd C s command config timestamp
      else v1_apply C s command config timestamp)"

definition ready :: "ledger \<Rightarrow> py_error + (state \<times> config)" where
  "ready L = (case (lg_state L, lg_config L) of (Some s, Some config) \<Rightarrow> Inr (s, config)
     | _ \<Rightarrow> Inl (Raised ''exchange_network_required''))"

definition writable :: "ledger \<Rightarrow> py_error + (state \<times> config)" where
  "writable L = bnd (ready L) (\<lambda>(s, config).
     require (cf_version config = VERSION) (Raised ''exchange_legacy_read_only'') (Inr (s, config)))"

definition configure :: "crypto \<Rightarrow> ledger \<Rightarrow> json \<Rightarrow> py_error + ledger" where
  "configure C L manifest =
     bnd (any_genesis manifest) (\<lambda>config.
     require (cf_version config = VERSION) (Raised ''exchange_legacy_read_only'') (
     let network = network_id C config in
     require (lg_network L = [] \<or> lg_network L = network) (Raised ''exchange_network_changed'') (
     let L = L\<lparr>lg_manifest := Some manifest, lg_config := Some config, lg_network := network\<rparr> in
     Inr (if lg_state L = None then L\<lparr>lg_state := Some (initial_state config), lg_head := network\<rparr> else L))))"

subsection \<open>Proposals and certificates\<close>

text \<open>\<open>_proposal\<close>: the checks of a proposal against the head of the log, and the state it leads to.\<close>

definition check_proposal :: "crypto \<Rightarrow> ledger \<Rightarrow> json \<Rightarrow> py_error + state" where
  "check_proposal C L proposal =
     bnd (ready L) (\<lambda>(s, config).
     require (is_obj proposal \<and> keys_are proposal [''version'', ''network'', ''height'', ''parent'', ''timestamp'', ''command'', ''proposer'']) invalid (
     require (jfield ''version'' proposal = JStr (cf_version config) \<and> jfield ''network'' proposal = JStr (lg_network L)) invalid (
     require (jfield ''height'' proposal = JInt (lg_height L + 1)) (Raised ''exchange_height_changed'') (
     require (jfield ''parent'' proposal = JStr (lg_head L)) (Raised ''exchange_fork'') (
     bnd (signature C (jfield ''proposer'' proposal)) (\<lambda>proposer.
     let core = drop_key ''proposer'' proposal;
         leader = validator_ids config ! nat (lg_height L mod int (length (cf_validators config))) in
     require (sp_public_key proposer = leader \<and> py_eq (sp_payload proposer) core) (Raised ''exchange_proposer_invalid'') (
     case jfield ''timestamp'' proposal of
       JInt timestamp \<Rightarrow>
         require (0 \<le> timestamp) (Raised ''exchange_time_invalid'') (
         rules_apply C s (jfield ''command'' proposal) config timestamp)
     | _ \<Rightarrow> Inl (Raised ''exchange_time_invalid''))))))))"

definition approval :: "string \<Rightarrow> string \<Rightarrow> int \<Rightarrow> string \<Rightarrow> json" where
  "approval version network height digest = JObj [(''version'', JStr version), (''kind'', JStr ''approval''),
     (''network'', JStr network), (''height'', JInt height), (''hash'', JStr digest)]"

text \<open>The loop over the votes of a certificate: the signers seen so far.\<close>

fun vote_signers :: "crypto \<Rightarrow> config \<Rightarrow> json \<Rightarrow> string list \<Rightarrow> json list \<Rightarrow> py_error + string list" where
  "vote_signers C config expected signers [] = Inr signers"
| "vote_signers C config expected signers (wire # wires) =
     bnd (signature C wire) (\<lambda>vote.
     require (sp_public_key vote \<in> set (validator_ids config) \<and> py_eq (sp_payload vote) expected) invalid (
     require (sp_public_key vote \<notin> set signers) (Raised ''exchange_duplicate_vote'') (
     vote_signers C config expected (sp_public_key vote # signers) wires)))"

text \<open>\<open>_verify\<close>: a certificate is a proposal on the head with approvals of a quorum.\<close>

definition verify_certificate :: "crypto \<Rightarrow> ledger \<Rightarrow> json \<Rightarrow> py_error + state" where
  "verify_certificate C L certificate =
     require (is_obj certificate \<and> keys_are certificate [''proposal'', ''votes'']) invalid (
     let proposal = jfield ''proposal'' certificate in
     bnd (check_proposal C L proposal) (\<lambda>next_state.
     bnd (ready L) (\<lambda>(_, config).
     let expected = approval (cf_version config) (lg_network L) (jint ''height'' proposal) (json_hash C proposal);
         votes = jfield ''votes'' certificate in
     require (is_list votes \<and> length (jlist votes) \<le> 8) invalid (
     bnd (vote_signers C config expected [] (jlist votes)) (\<lambda>signers.
     require (quorum config \<le> length signers) (Raised ''exchange_quorum_unavailable'') (
     Inr next_state))))))"

subsection \<open>Opening the log\<close>

text \<open>The constructor: from the stored manifest and blocks, replay every certificate in height order.\<close>

fun replay :: "crypto \<Rightarrow> ledger \<Rightarrow> block_row list \<Rightarrow> py_error + ledger" where
  "replay C L [] = Inr L"
| "replay C L (b # bs) =
     bnd (verify_certificate C L (bl_certificate b)) (\<lambda>replayed.
     require (bl_height b = lg_height L + 1 \<and> bl_hash b = json_hash C (jfield ''proposal'' (bl_certificate b)))
       (Raised ''exchange_log_corrupt'') (
     replay C (L\<lparr>lg_state := Some replayed, lg_height := bl_height b, lg_head := bl_hash b\<rparr>) bs))"

text \<open>The tables as they are in the file, with the attributes of a fresh object.\<close>

definition unloaded :: "ledger \<Rightarrow> ledger" where
  "unloaded L = L\<lparr>lg_state := None, lg_config := None, lg_network := [], lg_height := 0, lg_head := []\<rparr>"

definition open_ledger :: "crypto \<Rightarrow> ledger \<Rightarrow> py_error + ledger" where
  "open_ledger C L = (let L = unloaded L in case lg_manifest L of None \<Rightarrow> Inr L
     | Some manifest \<Rightarrow>
         bnd (any_genesis manifest) (\<lambda>config.
         let network = network_id C config in
         replay C (L\<lparr>lg_config := Some config, lg_network := network,
           lg_state := Some (initial_state config), lg_head := network\<rparr>) (lg_blocks L)))"

subsection \<open>Voting\<close>

definition admit_storage :: "state \<Rightarrow> json \<Rightarrow> int \<Rightarrow> py_error + unit" where
  "admit_storage s action stored =
     bnd (in_strings action ORDER_ACTIONS) (\<lambda>order_action.
     if order_action then Inr ()
     else
       let opened = int (length (open_orders s)) + (if action = JStr ''agree'' then 1 else 0) in
       require (stored + opened * ORDER_STORAGE_RESERVE + ADMISSION_HEADROOM < MAX_DATABASE_BYTES)
         (Raised ''exchange_admission_exhausted'') (Inr ()))"

definition vote :: "crypto \<Rightarrow> ledger \<Rightarrow> json \<Rightarrow> int \<Rightarrow> int \<Rightarrow> py_error + (ledger \<times> json)" where
  "vote C L proposal now stored =
     bnd (writable L) (\<lambda>(s, config).
     require (ed_public C (lg_private_key L) \<in> set (validator_ids config)) (Raised ''exchange_not_validator'') (
     bnd (check_proposal C L proposal) (\<lambda>_.
     let digest = json_hash C proposal; height = jint ''height'' proposal in
     case map_of (lg_votes L) height of
       Some prior \<Rightarrow> require (vr_hash prior = digest) (Raised ''exchange_height_locked'') (Inr (L, vr_vote prior))
     | None \<Rightarrow>
         require (abs (jint ''timestamp'' proposal - now) \<le> CLOCK_SKEW) (Raised ''exchange_time_invalid'') (
         bnd (jitem ''payload'' (jfield ''command'' proposal)) (\<lambda>command.
         bnd (vote_deadlines s command now) (\<lambda>_.
         bnd (jitem ''action'' command) (\<lambda>action.
         bnd (admit_storage s action stored) (\<lambda>_.
         let v = to_dict (sign_payload C (approval VERSION (lg_network L) height digest) (lg_private_key L)) in
         Inr (L\<lparr>lg_votes := dict_put height \<lparr>vr_hash = digest, vr_proposal = proposal, vr_vote = v\<rparr> (lg_votes L)\<rparr>, v))))))))) "

subsection \<open>Pruning\<close>

definition lower :: "char \<Rightarrow> char" where
  "lower c = (let n = of_char c :: nat in if 65 \<le> n \<and> n \<le> 90 then char_of (n + 32) else c)"

text \<open>SQL \<open>LIKE\<close>: \<open>%\<close> is any text, \<open>_\<close> any character, and ASCII letters match in either case.\<close>

fun like :: "string \<Rightarrow> string \<Rightarrow> bool" where
  "like [] s = (s = [])"
| "like (c # p) [] = (c = CHR ''%'' \<and> like p [])"
| "like (c # p) (x # s) =
     (if c = CHR ''%'' then like p (x # s) \<or> like (c # p) s
      else (c = CHR ''_'' \<or> lower c = lower x) \<and> like p s)"

text \<open>The ids of the cases that still need work: disputed orders with both statements.\<close>

fun active_cases :: "crypto \<Rightarrow> config \<Rightarrow> order list \<Rightarrow> py_error + string list" where
  "active_cases C config [] = Inr []"
| "active_cases C config (ord # ords) =
     (if od_status ord = Disputed \<and> length (od_evidence ord) = 2 then
        bnd (opt_or KeyError (od_round ord)) (\<lambda>r.
        bnd (case_payload config ord r) (\<lambda>payload.
        bnd (active_cases C config ords) (\<lambda>rest. Inr ((''case:'' @ json_hash C payload) # rest))))
      else active_cases C config ords)"

definition keep_rows :: "('k \<Rightarrow> 'v \<Rightarrow> bool) \<Rightarrow> ('k, 'v) dict \<Rightarrow> ('k, 'v) dict" where
  "keep_rows P d = filter (\<lambda>(k, v). P k v) d"

definition has_row :: "('k, 'v) dict \<Rightarrow> 'k \<Rightarrow> bool" where
  "has_row d k = (map_of d k \<noteq> None)"

definition drop_rows :: "'k list \<Rightarrow> ('k, 'v) dict \<Rightarrow> ('k, 'v) dict" where
  "drop_rows ks d = keep_rows (\<lambda>k _. k \<notin> set ks) d"

definition prune_work :: "crypto \<Rightarrow> ledger \<Rightarrow> int \<Rightarrow> py_error + ledger" where
  "prune_work C L now =
     bnd (ready L) (\<lambda>(s, config).
     bnd (active_cases C config (dict_vals (st_orders s))) (\<lambda>active.
     let work = keep_rows (\<lambda>k _. \<not> (like ''case:%'' k \<and> k \<notin> set active)) (lg_work L);
         attempts = keep_rows (\<lambda>k _. \<not> (like ''case:%'' k \<and> k \<notin> set active)) (lg_attempts L);
         work = keep_rows (\<lambda>k _. \<not> (case map_of (lg_work_clock L) k of None \<Rightarrow> False | Some c \<Rightarrow> c < now - 600)) work;
         clock = keep_rows (\<lambda>k _. has_row work k) (lg_work_clock L);
         attempts = keep_rows (\<lambda>k a. \<not> (like ''work:%'' k \<and> at_created a < now - 600)) attempts;
         served = map (\<lambda>provider. ''work:'' @ provider) (dict_vals (st_rewards s)) in
     Inr (L\<lparr>lg_work := drop_rows served work, lg_work_clock := drop_rows served clock,
            lg_attempts := drop_rows served attempts\<rparr>)))"

subsection \<open>Committing\<close>

definition receipt_json :: "json \<Rightarrow> string \<Rightarrow> json" where
  "receipt_json height digest = JObj [(''height'', height), (''hash'', JStr digest), (''committed'', JBool True)]"

definition find_block :: "block_row list \<Rightarrow> json \<Rightarrow> block_row option" where
  "find_block bs height = (case height of JInt h \<Rightarrow> find (\<lambda>b. bl_height b = h) bs | _ \<Rightarrow> None)"

definition mark_committed :: "string \<Rightarrow> (string, intent) dict \<Rightarrow> (string, intent) dict" where
  "mark_committed k d = map (\<lambda>(i, x). (i, if i = k then x\<lparr>in_status := ''committed''\<rparr> else x)) d"

text \<open>The two rows a commit writes, and the attributes it moves.\<close>

definition with_block :: "ledger \<Rightarrow> block_row \<Rightarrow> string \<Rightarrow> state \<Rightarrow> ledger" where
  "with_block L b op_id s' = L\<lparr>lg_blocks := lg_blocks L @ [b], lg_intents := mark_committed op_id (lg_intents L),
     lg_state := Some s', lg_height := bl_height b, lg_head := bl_hash b\<rparr>"

definition commit :: "crypto \<Rightarrow> ledger \<Rightarrow> json \<Rightarrow> int \<Rightarrow> py_error + (ledger \<times> json)" where
  "commit C L certificate now =
     bnd (ready L) (\<lambda>(_, config).
     require (is_obj certificate \<and> is_obj (jfield ''proposal'' certificate)) invalid (
     let proposal = jfield ''proposal'' certificate; digest = json_hash C proposal in
     case find_block (lg_blocks L) (jfield ''height'' proposal) of
       Some prior \<Rightarrow> require (bl_hash prior = digest) (Raised ''exchange_fork'')
         (Inr (L, receipt_json (jfield ''height'' proposal) digest))
     | None \<Rightarrow>
         bnd (verify_certificate C L certificate) (\<lambda>new_state.
         bnd (jitem ''payload'' (jfield ''command'' proposal)) (\<lambda>command.
         bnd (jitem ''id'' command) (\<lambda>op_id.
         let height = jint ''height'' proposal;
             b = \<lparr>bl_height = height, bl_hash = digest, bl_certificate = certificate\<rparr>;
             L = with_block L b (py_str op_id) new_state in
         bnd (if cf_version config = VERSION then prune_work C L now else Inr L) (\<lambda>L.
         Inr (L, receipt_json (JInt height) digest)))))))"

subsection \<open>Work, attempts and reading\<close>

definition split_colon :: "string \<Rightarrow> string" where
  "split_colon item = takeWhile (\<lambda>c. c \<noteq> CHR '':'') item"

text \<open>\<open>attempt\<close>: at most three tries of an item, and fewer than 1000 items of its kind.\<close>

definition try_attempt :: "ledger \<Rightarrow> string \<Rightarrow> int \<Rightarrow> py_error + ledger" where
  "try_attempt L item now = (case map_of (lg_attempts L) item of
     Some row \<Rightarrow> require (at_count row < 3) (Raised ''exchange_attempt_limit'') (
       Inr (L\<lparr>lg_attempts := dict_put item (row\<lparr>at_count := at_count row + 1\<rparr>) (lg_attempts L)\<rparr>))
   | None \<Rightarrow>
       require (length (filter (\<lambda>(k, _). like (split_colon item @ '':%'') k) (lg_attempts L)) < 1000)
         (Raised ''exchange_capacity'') (
       Inr (L\<lparr>lg_attempts := dict_put item \<lparr>at_count = 1, at_created = now\<rparr> (lg_attempts L)\<rparr>)))"

definition put_if_absent :: "'k \<Rightarrow> 'v \<Rightarrow> ('k, 'v) dict \<Rightarrow> ('k, 'v) dict" where
  "put_if_absent k v d = (if has_row d k then d else dict_put k v d)"

definition cache_work :: "ledger \<Rightarrow> string \<Rightarrow> json \<Rightarrow> int \<Rightarrow> ledger" where
  "cache_work L item value now =
     L\<lparr>lg_work := put_if_absent item value (lg_work L), lg_work_clock := put_if_absent item now (lg_work_clock L)\<rparr>"

text \<open>The page of \<open>blocks\<close>: at most ten certificates above \<open>after\<close>, and after the first only while their
  total size is at most 2 MiB; \<open>bytes\<close> is the length of the stored text of a certificate.\<close>

fun page :: "(json \<Rightarrow> int) \<Rightarrow> json list \<Rightarrow> int \<Rightarrow> json list \<Rightarrow> json list" where
  "page bytes entries used [] = entries"
| "page bytes entries used (c # cs) =
     (if entries \<noteq> [] \<and> 2 * 1024 * 1024 < used + bytes c then entries
      else page bytes (entries @ [c]) (used + bytes c) cs)"

definition blocks :: "(json \<Rightarrow> int) \<Rightarrow> ledger \<Rightarrow> int \<Rightarrow> py_error + json list" where
  "blocks bytes L after =
     bnd (ready L) (\<lambda>_.
     require (0 \<le> after) invalid (
     Inr (page bytes [] 0 (take 10 (map bl_certificate (filter (\<lambda>b. after < bl_height b) (lg_blocks L)))))))"

text \<open>The first row above a height: \<open>ORDER BY height LIMIT 1\<close>.\<close>

definition first_above :: "int \<Rightarrow> (int, 'v) dict \<Rightarrow> 'v list" where
  "first_above h d = map snd (take 1 (sort_key fst (filter (\<lambda>(k, _). h < k) d)))"

definition pending :: "ledger \<Rightarrow> json list" where
  "pending L = (let vs = map vr_proposal (first_above (lg_height L) (lg_votes L)) in
     if vs \<noteq> [] then vs else first_above (lg_height L) (lg_proposals L))"

definition pending_intents :: "ledger \<Rightarrow> (string \<times> intent) list" where
  "pending_intents L = take 20 (filter (\<lambda>(_, x). in_status x = ''pending'') (lg_intents L))"

definition receipts :: "ledger \<Rightarrow> (string \<times> intent) list" where
  "receipts L = take 20 (rev (lg_intents L))"

end
