(* ===== verification/Approval_Safety.thy ===== *)
theory Approval_Safety
  imports Approval_Log
begin

section \<open>Safety of the approval log\<close>

text \<open>
  The invariant of the approval log, the reachable ledgers as a guarded machine, and the quorums (the locale \<open>quorum_system\<close>,
  interpreted on the signers of a certificate).
\<close>

subsection \<open>Quorums\<close>

text \<open>
  Voters of whom any \<open>q\<close> form a quorum, with \<open>q\<close> above two thirds: two quorums share more than a third of
  the voters, so they share one outside any set of at most a third.
\<close>

locale quorum_system =
  fixes voters :: "'v set" and q :: nat
  assumes voters_finite: "finite voters" and majority: "2 * card voters < 3 * q"
begin

lemma quorums_meet:
  assumes "A \<subseteq> voters" "B \<subseteq> voters" "q \<le> card A" "q \<le> card B"
  shows "card voters < 3 * card (A \<inter> B)"
proof -
  have f: "finite A" "finite B" using assms voters_finite finite_subset by blast+
  have "card (A \<union> B) + card (A \<inter> B) = card A + card B" using f by (rule card_Un_Int [symmetric])
  moreover have "card (A \<union> B) \<le> card voters" using assms voters_finite by (intro card_mono) auto
  ultimately show ?thesis using assms(3,4) majority by linarith
qed

lemma honest_common_voter:
  assumes "A \<subseteq> voters" "B \<subseteq> voters" "q \<le> card A" "q \<le> card B" "finite F" "3 * card F \<le> card voters"
  obtains v where "v \<in> A" "v \<in> B" "v \<notin> F"
proof -
  have "card F < card (A \<inter> B)" using quorums_meet [OF assms(1-4)] assms(6) by linarith
  then have "\<not> A \<inter> B \<subseteq> F" using card_mono [OF assms(5)] by (auto simp: not_le [symmetric])
  then show thesis using that by blast
qed

end

lemma validators_bound: "2 * card (set (validator_ids config)) < 3 * quorum config"
proof -
  have "card (set (validator_ids config)) \<le> length (cf_validators config)"
    using card_length [of "validator_ids config"] by (simp add: validator_ids_def)
  moreover have "2 * n < 3 * (n * 2 div 3 + 1)" for n :: nat by presburger
  ultimately show ?thesis unfolding quorum_def by (meson le_less_trans mult_le_mono2)
qed

interpretation validators: quorum_system "set (validator_ids config)" "quorum config" for config
  by unfold_locales (simp_all add: validators_bound)

subsection \<open>The network id determines the manifest\<close>

lemma json_arr_canon: "canon (JArr (map f xs)) = canon (JArr (map f ys)) \<Longrightarrow> (\<And>x y. canon (f x) = canon (f y) \<Longrightarrow> x = y) \<Longrightarrow> xs = ys"
  by (simp add: list.inj_map_strong comp_def) (metis (no_types, lifting) inj_map_eq_map injI)

lemma validator_json_inj: "canon (validator_json a) = canon (validator_json b) \<Longrightarrow> a = b"
proof -
  assume e: "canon (validator_json a) = canon (validator_json b)"
  have "jget k (canon (validator_json a)) = jget k (canon (validator_json b))" for k using e by simp
  from this [of "''peer_id''"] this [of "''endpoint''"] show ?thesis
    by (simp add: jget_canon validator_json_def jget_def)
qed

lemma judge_json_inj: "canon (judge_json a) = canon (judge_json b) \<Longrightarrow> a = b"
proof -
  assume e: "canon (judge_json a) = canon (judge_json b)"
  have "jget k (canon (judge_json a)) = jget k (canon (judge_json b))" for k using e by simp
  from this [of "''peer_id''"] this [of "''endpoint''"] this [of "''encryption_key''"] this [of "''model''"] this [of "''fee''"]
  show ?thesis by (simp add: jget_canon judge_json_def jget_def)
qed

lemma canon_idem: "canon (canon j) = canon j"
proof (induction j)
  case (JObj kvs)
  have "map (map_prod id canon) (sort_key fst (map (map_prod id canon) kvs))
      = sort_key fst (map (map_prod id canon) kvs)"
    using JObj by (intro map_idI) force
  then show ?case by (simp add: sort_key_id_if_sorted)
qed (simp_all cong: map_cong)

lemma config_json_inj:
  assumes "canon (config_json a) = canon (config_json b)" "canon (cf_covenant a) = cf_covenant a" "canon (cf_covenant b) = cf_covenant b"
  shows "a = b"
proof -
  have g: "map_option canon (jget k (config_json a)) = map_option canon (jget k (config_json b))" for k
    using assms(1) jget_canon by metis
  have "cf_version a = cf_version b" "cf_name a = cf_name b" "cf_issuance_limit a = cf_issuance_limit b"
    "cf_work_reward a = cf_work_reward b" "cf_appeal_window_s a = cf_appeal_window_s b" "cf_covenant a = cf_covenant b"
    using g [of "''version''"] g [of "''name''"] g [of "''issuance_limit''"] g [of "''work_reward''"]
      g [of "''appeal_window_s''"] g [of "''covenant''"] assms(2,3)
    by (simp_all add: config_json_def jget_def)
  moreover have "cf_validators a = cf_validators b"
    using g [of "''validators''"] by (intro json_arr_canon [OF _ validator_json_inj]) (simp_all add: config_json_def jget_def)
  moreover have "cf_judges a = cf_judges b"
    using g [of "''judges''"] by (intro json_arr_canon [OF _ judge_json_inj]) (simp_all add: config_json_def jget_def)
  ultimately show ?thesis by simp
qed

lemma genesis_config:
  assumes "any_genesis j = Inr config"
  shows "config = parse_config j" "config_ok config" "4 \<le> length (cf_validators config)"
    "cf_version config = VERSION \<or> cf_version config = V1_VERSION" "canon (cf_covenant config) = cf_covenant config"
proof -
  have "genesis_checks VERSION COVENANT j = Inr config \<or> genesis_checks V1_VERSION V1_COVENANT j = Inr config"
    using assms by (auto simp: any_genesis_def genesis_def v1_genesis_def split: if_splits)
  then show "config = parse_config j" "config_ok config" "4 \<le> length (cf_validators config)"
    "cf_version config = VERSION \<or> cf_version config = V1_VERSION"
    using genesis_checks_ok by blast+
  then show "canon (cf_covenant config) = cf_covenant config" by (simp add: parse_config_def canon_idem)
qed

lemma network_id_inj:
  assumes "inj (sha256 C)" "any_genesis a = Inr ca" "any_genesis b = Inr cb" "network_id C ca = network_id C cb"
  shows "ca = cb"
proof -
  have "canonical_json (config_json ca) = canonical_json (config_json cb)"
    using assms by (simp add: network_id_def json_hash_inj)
  then have "canon (config_json ca) = canon (config_json cb)" by (rule canonical_json_inj)
  then show ?thesis using genesis_config(5) [OF assms(2)] genesis_config(5) [OF assms(3)] by (intro config_json_inj)
qed

subsection \<open>Replay\<close>

text \<open>What a check of a proposal or certificate reads, and what the file holds of it.\<close>

definition core :: "ledger \<Rightarrow> state option \<times> config option \<times> string \<times> int \<times> string" where
  "core L = (lg_state L, lg_config L, lg_network L, lg_height L, lg_head L)"

lemma core_cong:
  assumes "core A = core B"
  shows "ready A = ready B" "check_proposal C A p = check_proposal C B p" "verify_certificate C A c = verify_certificate C B c"
proof -
  show r: "ready A = ready B" using assms by (simp add: core_def ready_def)
  show p: "check_proposal C A p = check_proposal C B p" for p using assms by (simp add: check_proposal_def r core_def)
  show "verify_certificate C A c = verify_certificate C B c"
    using assms by (simp add: verify_certificate_def r p core_def)
qed

lemma replay_core:
  "core A = core B \<Longrightarrow> replay C A bs = Inr A' \<Longrightarrow> \<exists>B'. replay C B bs = Inr B' \<and> core B' = core A'"
proof (induction bs arbitrary: A B)
  case (Cons b bs)
  from Cons.prems(2) obtain s where s: "verify_certificate C A (bl_certificate b) = Inr s"
    "bl_height b = lg_height A + 1" "bl_hash b = json_hash C (jfield ''proposal'' (bl_certificate b))"
    "replay C (A\<lparr>lg_state := Some s, lg_height := bl_height b, lg_head := bl_hash b\<rparr>) bs = Inr A'"
    by (auto simp: guard_simps)
  have "core (A\<lparr>lg_state := Some s, lg_height := bl_height b, lg_head := bl_hash b\<rparr>)
      = core (B\<lparr>lg_state := Some s, lg_height := bl_height b, lg_head := bl_hash b\<rparr>)"
    using Cons.prems(1) by (simp add: core_def)
  from Cons.IH [OF this s(4)] s(1,2,3) core_cong(3) [OF Cons.prems(1)] Cons.prems(1) show ?case
    by (auto simp: guard_simps core_def)
qed auto

lemma bnd_require: "bnd (require b e k) f = require b e (bnd k f)"
  by (simp add: require_def)

lemma replay_append: "replay C L (bs @ cs) = bnd (replay C L bs) (\<lambda>L. replay C L cs)"
  by (induction bs arbitrary: L) (simp_all add: bnd_assoc bnd_require)

definition restarts :: "crypto \<Rightarrow> ledger \<Rightarrow> bool" where
  "restarts C L \<longleftrightarrow> (\<exists>L'. open_ledger C L = Inr L' \<and> core L' = core L)"

definition started :: "crypto \<Rightarrow> ledger \<Rightarrow> config \<Rightarrow> ledger" where
  "started C L config = (unloaded L)\<lparr>lg_config := Some config, lg_network := network_id C config,
     lg_state := Some (initial_state config), lg_head := network_id C config\<rparr>"

lemma started_core: "core (started C A config) = core (started C B config)"
  by (simp add: core_def started_def unloaded_def)

lemma open_started:
  "lg_manifest L = Some m \<Longrightarrow> any_genesis m = Inr config \<Longrightarrow>
   open_ledger C L = replay C (started C L config) (lg_blocks L)"
  by (simp add: open_ledger_def unloaded_def started_def Let_def)

lemma restarts_cong:
  assumes "core A = core B" "lg_manifest A = lg_manifest B" "lg_blocks A = lg_blocks B" "restarts C A"
  shows "restarts C B"
proof -
  obtain A' where A': "open_ledger C A = Inr A'" "core A' = core A" using assms(4) by (auto simp: restarts_def)
  show ?thesis
  proof (cases "lg_manifest A")
    case None
    then show ?thesis using A' assms by (auto simp: restarts_def open_ledger_def unloaded_def core_def)
  next
    case (Some m)
    then obtain config where g: "any_genesis m = Inr config"
      using A'(1) by (auto simp: open_ledger_def unloaded_def guard_simps Let_def)
    have "replay C (started C A config) (lg_blocks A) = Inr A'" using A'(1) open_started [OF Some g] by simp
    from replay_core [OF started_core this] obtain B' where
      "replay C (started C B config) (lg_blocks A) = Inr B'" "core B' = core A'" by blast
    with Some g assms A'(2) show ?thesis by (auto simp: restarts_def open_started)
  qed
qed

subsection \<open>The invariant of a ledger\<close>

definition books :: "config \<Rightarrow> state \<Rightarrow> bool" where
  "books config s \<longleftrightarrow> config_ok config \<and>
     (if cf_version config = VERSION then exch_inv config s else v1_book config {} s)"

lemma books_initial: "config_ok config \<Longrightarrow> books config (initial_state config)"
proof -
  assume c: "config_ok config"
  from initial_inv [OF this] have "exch_inv config (initial_state config)" .
  then have "money_inv config (initial_state config)" by (simp add: exch_inv_def book_inv_def)
  with c initial_inv [OF c] show ?thesis by (simp add: books_def v1_book_defs) (simp add: initial_state_def)
qed

lemma books_apply: "rules_apply C s command config t = Inr s' \<Longrightarrow> books config s \<Longrightarrow> books config s'"
  by (auto simp: books_def rules_apply_def intro: apply_inv v1_apply_book)

text \<open>Consecutive heights, each block naming the hash of the one before it.\<close>

fun linked :: "crypto \<Rightarrow> int \<Rightarrow> string \<Rightarrow> block_row list \<Rightarrow> bool" where
  "linked C h parent [] = True"
| "linked C h parent (b # bs) \<longleftrightarrow> bl_height b = h + 1 \<and> bl_hash b = json_hash C (jfield ''proposal'' (bl_certificate b))
     \<and> jfield ''parent'' (jfield ''proposal'' (bl_certificate b)) = JStr parent \<and> linked C (h + 1) (bl_hash b) bs"

definition tip :: "string \<Rightarrow> block_row list \<Rightarrow> string" where
  "tip network bs = (if bs = [] then network else bl_hash (last bs))"

lemma linked_snoc:
  "linked C h parent (bs @ [b]) \<longleftrightarrow> linked C h parent bs \<and> bl_height b = h + int (length bs) + 1
     \<and> bl_hash b = json_hash C (jfield ''proposal'' (bl_certificate b))
     \<and> jfield ''parent'' (jfield ''proposal'' (bl_certificate b)) = JStr (tip parent bs)"
  by (induction bs arbitrary: h parent) (auto simp: tip_def)

definition chain_ok :: "crypto \<Rightarrow> ledger \<Rightarrow> bool" where
  "chain_ok C L \<longleftrightarrow> linked C 0 (lg_network L) (lg_blocks L) \<and> lg_height L = int (length (lg_blocks L))
     \<and> lg_head L = tip (lg_network L) (lg_blocks L)"

definition loaded_ok :: "crypto \<Rightarrow> ledger \<Rightarrow> bool" where
  "loaded_ok C L \<longleftrightarrow> (case lg_config L of
     None \<Rightarrow> lg_manifest L = None \<and> lg_blocks L = [] \<and> lg_state L = None \<and> lg_network L = []
       \<and> lg_height L = 0 \<and> lg_head L = []
   | Some config \<Rightarrow> lg_network L = network_id C config \<and> (\<exists>m. lg_manifest L = Some m \<and> any_genesis m = Inr config)
       \<and> (\<exists>s. lg_state L = Some s \<and> books config s))"

definition ledger_inv :: "crypto \<Rightarrow> ledger \<Rightarrow> bool" where
  "ledger_inv C L \<longleftrightarrow> restarts C L \<and> loaded_ok C L \<and> chain_ok C L"

lemma ledger_inv_cong:
  "ledger_inv C A \<Longrightarrow> core A = core B \<Longrightarrow> lg_manifest A = lg_manifest B \<Longrightarrow> lg_blocks A = lg_blocks B \<Longrightarrow> ledger_inv C B"
  using restarts_cong [of A B C] by (auto simp: ledger_inv_def loaded_ok_def chain_ok_def core_def split: option.splits)

lemma ready_Inr: "ready L = Inr (s, config) \<longleftrightarrow> lg_state L = Some s \<and> lg_config L = Some config"
  by (auto simp: ready_def split: option.splits)

subsection \<open>Every method keeps it\<close>

lemma vote_cases:
  assumes "vote C L p now stored = Inr (L', v)"
  obtains (again) row where "map_of (lg_votes L) (jint ''height'' p) = Some row" "vr_hash row = json_hash C p" "L' = L" "v = vr_vote row"
    | (first) s' where "map_of (lg_votes L) (jint ''height'' p) = None" "check_proposal C L p = Inr s'"
        "v = to_dict (sign_payload C (approval VERSION (lg_network L) (jint ''height'' p) (json_hash C p)) (lg_private_key L))"
        "L' = L\<lparr>lg_votes := dict_put (jint ''height'' p) \<lparr>vr_hash = json_hash C p, vr_proposal = p, vr_vote = v\<rparr> (lg_votes L)\<rparr>"
proof (cases "map_of (lg_votes L) (jint ''height'' p)")
  case (Some row)
  then show thesis
    using assms again unfolding vote_def by (auto simp: guard_simps Let_def split: prod.splits)
next
  case None
  then show thesis
    using assms first unfolding vote_def by (auto simp: guard_simps Let_def split: prod.splits)
qed

lemma prune_frame:
  assumes "prune_work C L now = Inr L'"
  shows "core L' = core L" "lg_manifest L' = lg_manifest L" "lg_blocks L' = lg_blocks L" "lg_votes L' = lg_votes L"
    "lg_private_key L' = lg_private_key L"
  using assms unfolding prune_work_def by (auto simp: guard_simps core_def Let_def split: prod.splits)

lemma vote_inv:
  assumes "vote C L p now stored = Inr (L', v)" "ledger_inv C L"
  shows "ledger_inv C L'"
  using assms(1)
proof (cases rule: vote_cases)
  case again
  with assms(2) show ?thesis by simp
next
  case first
  then show ?thesis by (intro ledger_inv_cong [OF assms(2)]) (simp_all add: core_def)
qed

lemma prune_inv: "prune_work C L now = Inr L' \<Longrightarrow> ledger_inv C L \<Longrightarrow> ledger_inv C L'"
  by (erule ledger_inv_cong) (simp_all add: prune_frame)

text \<open>What a certificate that verifies says of its proposal.\<close>

lemma check_proposal_facts:
  assumes "check_proposal C L p = Inr s'"
  obtains s config t where "lg_state L = Some s" "lg_config L = Some config"
    "jfield ''height'' p = JInt (lg_height L + 1)" "jfield ''parent'' p = JStr (lg_head L)"
    "rules_apply C s (jfield ''command'' p) config t = Inr s'" "jfield ''timestamp'' p = JInt t" "0 \<le> t"
proof (cases "jfield ''timestamp'' p")
  case (JInt t)
  with assms show thesis
    using that unfolding check_proposal_def by (auto simp: guard_simps ready_Inr Let_def split: prod.splits)
qed (use assms in \<open>auto simp: check_proposal_def guard_simps Let_def split: prod.splits\<close>)

lemma verify_facts:
  assumes "verify_certificate C L c = Inr s'"
  shows "check_proposal C L (jfield ''proposal'' c) = Inr s'"
    and "\<exists>s config signers. lg_state L = Some s \<and> lg_config L = Some config \<and> vote_signers C config
      (approval (cf_version config) (lg_network L) (jint ''height'' (jfield ''proposal'' c)) (json_hash C (jfield ''proposal'' c)))
      [] (jlist (jfield ''votes'' c)) = Inr signers \<and> quorum config \<le> length signers"
  using assms unfolding verify_certificate_def by (auto simp: guard_simps ready_Inr Let_def split: prod.splits)

lemma commit_cases:
  assumes "commit C L c now = Inr (L', r)"
  obtains (again) b where "find_block (lg_blocks L) (jfield ''height'' (jfield ''proposal'' c)) = Some b"
      "bl_hash b = json_hash C (jfield ''proposal'' c)" "L' = L"
      "r = receipt_json (jfield ''height'' (jfield ''proposal'' c)) (json_hash C (jfield ''proposal'' c))"
    | (block) s' op_id b where "verify_certificate C L c = Inr s'"
        "find_block (lg_blocks L) (jfield ''height'' (jfield ''proposal'' c)) = None"
        "b = \<lparr>bl_height = lg_height L + 1, bl_hash = json_hash C (jfield ''proposal'' c), bl_certificate = c\<rparr>"
        "L' = with_block L b op_id s' \<or> prune_work C (with_block L b op_id s') now = Inr L'"
        "r = receipt_json (JInt (lg_height L + 1)) (json_hash C (jfield ''proposal'' c))"
proof (cases "find_block (lg_blocks L) (jfield ''height'' (jfield ''proposal'' c))")
  case (Some b)
  have "bl_hash b = json_hash C (jfield ''proposal'' c) \<and> L' = L
    \<and> r = receipt_json (jfield ''height'' (jfield ''proposal'' c)) (json_hash C (jfield ''proposal'' c))"
    using assms unfolding commit_def Let_def Some by (auto simp: bnd_Inr require_Inr split: prod.splits)
  with Some show thesis by (intro again) auto
next
  case None
  let ?p = "jfield ''proposal'' c"
  obtain s' op_id where v: "verify_certificate C L c = Inr s'"
    and e: "L' = with_block L \<lparr>bl_height = jint ''height'' ?p, bl_hash = json_hash C ?p, bl_certificate = c\<rparr> (py_str op_id) s'
      \<or> prune_work C (with_block L \<lparr>bl_height = jint ''height'' ?p, bl_hash = json_hash C ?p, bl_certificate = c\<rparr> (py_str op_id) s') now = Inr L'"
    and r: "r = receipt_json (JInt (jint ''height'' ?p)) (json_hash C ?p)"
    using assms None unfolding commit_def by (auto simp: guard_simps Let_def split: prod.splits if_splits)
  have h: "jint ''height'' ?p = lg_height L + 1"
    using verify_facts(1) [OF v] by (auto elim!: check_proposal_facts dest: jfield_jint)
  show thesis by (rule block [OF v None refl e [unfolded h] r [unfolded h]])
qed

lemma with_block_inv:
  assumes inv: "ledger_inv C L" and v: "verify_certificate C L c = Inr s'"
    and b: "b = \<lparr>bl_height = lg_height L + 1, bl_hash = json_hash C (jfield ''proposal'' c), bl_certificate = c\<rparr>"
  shows "ledger_inv C (with_block L b op_id s')"
proof -
  obtain s config t where sc: "lg_state L = Some s" "lg_config L = Some config"
    and parent: "jfield ''parent'' (jfield ''proposal'' c) = JStr (lg_head L)"
    and ap: "rules_apply C s (jfield ''command'' (jfield ''proposal'' c)) config t = Inr s'"
    using verify_facts(1) [OF v] by (rule check_proposal_facts)
  obtain m where m: "lg_manifest L = Some m" "any_genesis m = Inr config" and bk: "books config s"
    using inv sc by (auto simp: ledger_inv_def loaded_ok_def)
  let ?N = "with_block L b op_id s'"
  obtain L' where L': "replay C (started C L config) (lg_blocks L) = Inr L'" "core L' = core L"
    using inv open_started [OF m] by (auto simp: ledger_inv_def restarts_def)
  have "replay C L' [b] = Inr (L'\<lparr>lg_state := Some s', lg_height := bl_height b, lg_head := bl_hash b\<rparr>)"
    using core_cong(3) [OF L'(2)] v b L'(2) by (simp add: core_def)
  then have r: "replay C (started C L config) (lg_blocks L @ [b])
      = Inr (L'\<lparr>lg_state := Some s', lg_height := bl_height b, lg_head := bl_hash b\<rparr>)"
    using L'(1) by (simp add: replay_append)
  have "restarts C ?N"
  proof -
    from replay_core [OF started_core r, of L] obtain N' where
      "replay C (started C ?N config) (lg_blocks L @ [b]) = Inr N'"
      "core N' = core (L'\<lparr>lg_state := Some s', lg_height := bl_height b, lg_head := bl_hash b\<rparr>)"
      using replay_core [OF started_core r] by blast
    then show ?thesis
      using m L'(2) by (auto simp: restarts_def open_started with_block_def core_def)
  qed
  moreover have "loaded_ok C ?N"
    using sc m books_apply [OF ap bk] inv by (simp add: loaded_ok_def with_block_def ledger_inv_def)
  moreover have "chain_ok C ?N"
    using inv b parent by (simp add: ledger_inv_def chain_ok_def with_block_def linked_snoc tip_def)
  ultimately show ?thesis by (simp add: ledger_inv_def)
qed

lemma commit_inv:
  assumes "commit C L c now = Inr (L', r)" "ledger_inv C L"
  shows "ledger_inv C L'"
  using assms(1)
proof (cases rule: commit_cases)
  case again
  with assms(2) show ?thesis by simp
next
  case (block s' op_id b)
  with with_block_inv [OF assms(2) block(1,3)] prune_inv show ?thesis by blast
qed

lemma configure_inv:
  assumes act: "configure C L manifest = Inr L'" and inv: "ledger_inv C L" and h: "inj (sha256 C)"
  shows "ledger_inv C L'"
proof -
  obtain config where g: "any_genesis manifest = Inr config"
    and net: "lg_network L = [] \<or> lg_network L = network_id C config"
    and L': "L' = (let L = L\<lparr>lg_manifest := Some manifest, lg_config := Some config, lg_network := network_id C config\<rparr> in
      if lg_state L = None then L\<lparr>lg_state := Some (initial_state config), lg_head := network_id C config\<rparr> else L)"
    using act unfolding configure_def by (auto simp: guard_simps Let_def)
  have ne: "network_id C config \<noteq> []" by (simp add: network_id_def json_hash_def sha256_bytes_def)
  show ?thesis
  proof (cases "lg_config L")
    case None
    then have L: "lg_blocks L = []" "lg_state L = None" "lg_height L = 0"
      using inv by (auto simp: ledger_inv_def loaded_ok_def)
    have "lg_blocks L' = []" "lg_manifest L' = Some manifest" "core L' = core (started C L' config)"
      using L' L by (simp_all add: core_def started_def unloaded_def)
    then have "restarts C L'" using g by (auto simp: restarts_def open_started)
    moreover have "loaded_ok C L'"
      using L' L g books_initial [OF genesis_config(2) [OF g]] by (simp add: loaded_ok_def)
    moreover have "chain_ok C L'" using L' L by (simp add: chain_ok_def tip_def)
    ultimately show ?thesis by (simp add: ledger_inv_def)
  next
    case (Some old)
    then obtain m s where m: "lg_manifest L = Some m" "any_genesis m = Inr old" and s: "lg_state L = Some s"
      and n: "lg_network L = network_id C old"
      using inv by (auto simp: ledger_inv_def loaded_ok_def)
    have "network_id C old \<noteq> []" by (simp add: network_id_def json_hash_def sha256_bytes_def)
    with net n have "network_id C old = network_id C config" by simp
    then have eq: "old = config" by (rule network_id_inj [OF h m(2) g])
    have c: "core L' = core L" "lg_blocks L' = lg_blocks L" "lg_manifest L' = Some manifest"
      using L' s Some n eq by (simp_all add: core_def)
    obtain M where M: "replay C (started C L config) (lg_blocks L) = Inr M" "core M = core L"
      using inv open_started [OF m] eq by (auto simp: ledger_inv_def restarts_def)
    from replay_core [OF started_core M(1)] obtain N where
      "replay C (started C L' config) (lg_blocks L) = Inr N" "core N = core M" by blast
    then have "restarts C L'" using c M(2) g by (auto simp: restarts_def open_started)
    moreover have "loaded_ok C L'" "chain_ok C L'"
      using inv c Some g eq by (auto simp: ledger_inv_def loaded_ok_def chain_ok_def core_def)
    ultimately show ?thesis by (simp add: ledger_inv_def)
  qed
qed

text \<open>Reopening the file gives the same ledger: replay leaves the tables, and rebuilds the attributes.\<close>

definition tables :: "ledger \<Rightarrow> _" where
  "tables L = (lg_private_key L, lg_manifest L, lg_blocks L, lg_votes L, lg_proposals L, lg_intents L, lg_work L,
     lg_work_clock L, lg_attempts L)"

lemma ledger_eqI: "core A = core B \<Longrightarrow> tables A = tables B \<Longrightarrow> A = (B :: ledger)"
  by (simp add: core_def tables_def)

lemma replay_tables: "replay C L bs = Inr L' \<Longrightarrow> tables L' = tables L"
proof (induction bs arbitrary: L)
  case (Cons b bs)
  then show ?case by (force simp: guard_simps tables_def)
qed simp

lemma open_tables: "open_ledger C L = Inr L' \<Longrightarrow> tables L' = tables L"
  unfolding open_ledger_def Let_def
  by (auto simp: guard_simps tables_def unloaded_def dest!: replay_tables split: option.splits)

lemma restart_same: "ledger_inv C L \<Longrightarrow> open_ledger C L = Inr L"
  using open_tables ledger_eqI unfolding ledger_inv_def restarts_def by metis

subsection \<open>The log as a guarded machine\<close>

datatype ledger_op = Configure json | Vote json int int | Commit json int | Attempt string int | Cache string json int
  | Restart

definition ledger_step :: "crypto \<Rightarrow> ledger \<Rightarrow> ledger_op \<Rightarrow> py_error + ledger" where
  "ledger_step C L op = (case op of
     Configure manifest \<Rightarrow> configure C L manifest
   | Vote proposal now stored \<Rightarrow> bnd (vote C L proposal now stored) (\<lambda>(L, _). Inr L)
   | Commit certificate now \<Rightarrow> bnd (commit C L certificate now) (\<lambda>(L, _). Inr L)
   | Attempt item now \<Rightarrow> try_attempt L item now
   | Cache item v now \<Rightarrow> Inr (cache_work L item v now)
   | Restart \<Rightarrow> open_ledger C L)"

lemma attempt_frame:
  "try_attempt L item now = Inr L' \<Longrightarrow> core L' = core L \<and> lg_manifest L' = lg_manifest L \<and> lg_blocks L' = lg_blocks L
     \<and> lg_votes L' = lg_votes L"
  by (auto simp: try_attempt_def core_def guard_simps split: option.splits)

lemma ledger_step_inv:
  assumes "ledger_step C L op = Inr L'" "ledger_inv C L" "inj (sha256 C)"
  shows "ledger_inv C L'"
proof (cases op)
  case (Attempt item now)
  then show ?thesis
    using assms attempt_frame [of L item now L'] by (auto simp: ledger_step_def intro: ledger_inv_cong)
next
  case (Cache item v now)
  then show ?thesis
    using assms by (auto simp: ledger_step_def cache_work_def core_def intro: ledger_inv_cong [OF assms(2)])
qed (use assms restart_same [of C L] in \<open>auto simp: ledger_step_def guard_simps intro: configure_inv vote_inv commit_inv\<close>)

interpretation log: guarded_machine "ledger_step C" "\<lambda>L. inj (sha256 C) \<and> ledger_inv C L" for C
  by unfold_locales (auto intro: ledger_step_inv)

definition fresh_ledger :: "string \<Rightarrow> ledger" where
  "fresh_ledger private_key = \<lparr>lg_private_key = private_key, lg_manifest = None, lg_blocks = [], lg_votes = [],
     lg_proposals = [], lg_intents = [], lg_work = [], lg_work_clock = [], lg_attempts = [], lg_state = None,
     lg_config = None, lg_network = [], lg_height = 0, lg_head = []\<rparr>"

lemma fresh_inv: "ledger_inv C (fresh_ledger k)"
  by (simp add: ledger_inv_def restarts_def open_ledger_def unloaded_def fresh_ledger_def core_def loaded_ok_def
      chain_ok_def tip_def)

end
