(* ===== verification/Approval_Catchup.thy ===== *)
theory Approval_Catchup
  imports Approval_Safety
begin

section \<open>Commits, catching up and votes\<close>

text \<open>
  What \<open>commit\<close> and \<open>prune_work\<close> of the approval log do on reached ledgers: pruning never fails, a commit appends one block, and
  committing the blocks of another validator in order rebuilds its state. The votes of a reached ledger stay locked.
\<close>

subsection \<open>Pruning does not fail\<close>

lemma active_cases_total:
  "\<forall>ord \<in> set ords. od_status ord = Disputed \<longrightarrow> od_round ord \<noteq> None \<and> od_case_until ord \<noteq> None \<Longrightarrow>
   \<exists>xs. active_cases C config ords = Inr xs"
  by (induction ords) (auto simp: case_payload_def opt_or_def bnd_def)

lemma prune_total:
  assumes "lg_state L = Some s" "lg_config L = Some config" "books config s" "cf_version config = VERSION"
  shows "\<exists>L'. prune_work C L now = Inr L'"
proof -
  have inv: "all_orders_ok s" "dict_ok (st_orders s)"
    using assms(3,4) by (auto simp: books_def exch_inv_def book_inv_def money_inv_def)
  have "od_round ord \<noteq> None \<and> od_case_until ord \<noteq> None"
    if "ord \<in> set (dict_vals (st_orders s))" "od_status ord = Disputed" for ord
  proof -
    have "order_ok ord" using inv dict_vals_ex that(1) by (force simp: all_orders_ok_def)
    moreover have "is_open ord" using that(2) by (simp add: is_open_def terminal_def)
    ultimately show ?thesis using that(2) by (auto simp: order_ok_def phase_ok_def)
  qed
  then obtain xs where "active_cases C config (dict_vals (st_orders s)) = Inr xs"
    using active_cases_total by blast
  then show ?thesis using assms(1,2) by (simp add: prune_work_def ready_def Let_def)
qed

subsection \<open>A certificate on the head is committed\<close>

lemma linked_heights: "linked C h parent bs \<Longrightarrow> b \<in> set bs \<Longrightarrow> h < bl_height b \<and> bl_height b \<le> h + int (length bs)"
  by (induction bs arbitrary: h parent) force+

lemma linked_find:
  assumes "linked C h parent bs" "b \<in> set bs"
  shows "find (\<lambda>x. bl_height x = bl_height b) bs = Some b"
  using assms by (induction bs arbitrary: h parent) (auto dest: linked_heights)

lemma command_id:
  assumes "rules_apply C s command config t = Inr s'"
  shows "\<exists>payload op_id. jitem ''payload'' command = Inr payload \<and> jitem ''id'' payload = Inr op_id"
proof -
  obtain signed where sg: "signature C command = Inr signed"
    and k: "keys_are (sp_payload signed) [''version'', ''network'', ''id'', ''actor'', ''nonce'', ''action'', ''value'']"
    using assms by (auto simp: rules_apply_def apply_cmd_def v1_apply_def bnd_Inr require_Inr Let_def split: if_splits)
  have "from_dict command = Inr signed"
    using sg by (auto simp: signature_def or_signature_invalid_def guard_simps split: sum.splits)
  then have p: "jitem ''payload'' command = Inr (sp_payload signed)"
    by (auto simp: from_dict_def guard_simps)
  have "''id'' \<in> set (jkeys (sp_payload signed))" using k by (simp add: keys_are_def)
  then have "\<exists>v. jget ''id'' (sp_payload signed) = Some v"
    by (auto simp: jkeys_def jget_def split: json.splits) (metis map_of_eq_None_iff not_Some_eq image_eqI fst_conv)
  with p show ?thesis by (auto simp: jitem_Inr)
qed

lemma verify_obj:
  assumes "verify_certificate C L c = Inr s'"
  shows "is_obj c" "is_obj (jfield ''proposal'' c)"
  using assms by (auto simp: verify_certificate_def check_proposal_def guard_simps Let_def split: prod.splits)

lemma verify_height:
  assumes "verify_certificate C L c = Inr s'"
  shows "jfield ''height'' (jfield ''proposal'' c) = JInt (lg_height L + 1)"
  using verify_facts(1) [OF assms] by (rule check_proposal_facts) simp

lemma commit_next:
  assumes v: "verify_certificate C L c = Inr s'" and inv: "ledger_inv C L"
  obtains L' where "commit C L c now = Inr (L', receipt_json (JInt (lg_height L + 1)) (json_hash C (jfield ''proposal'' c)))"
    "core L' = (Some s', lg_config L, lg_network L, lg_height L + 1, json_hash C (jfield ''proposal'' c))"
    "lg_blocks L' = lg_blocks L @ [\<lparr>bl_height = lg_height L + 1, bl_hash = json_hash C (jfield ''proposal'' c), bl_certificate = c\<rparr>]"
    "lg_manifest L' = lg_manifest L"
proof -
  let ?p = "jfield ''proposal'' c"
  let ?b = "\<lparr>bl_height = lg_height L + 1, bl_hash = json_hash C ?p, bl_certificate = c\<rparr>"
  note h = verify_height [OF v]
  have none: "find_block (lg_blocks L) (jfield ''height'' ?p) = None"
  proof -
    have "bl_height b \<noteq> lg_height L + 1" if "b \<in> set (lg_blocks L)" for b
      using linked_heights [OF _ that] inv by (fastforce simp: ledger_inv_def chain_ok_def)
    then show ?thesis by (simp add: h find_block_def find_None_iff)
  qed
  obtain s config t where sc: "lg_state L = Some s" "lg_config L = Some config"
    and ap: "rules_apply C s (jfield ''command'' ?p) config t = Inr s'"
    using verify_facts(1) [OF v] by (rule check_proposal_facts)
  have bk: "books config s" using inv sc by (auto simp: ledger_inv_def loaded_ok_def)
  obtain payload op_id where c: "jitem ''payload'' (jfield ''command'' ?p) = Inr payload" "jitem ''id'' payload = Inr op_id"
    using command_id [OF ap] by blast
  let ?N = "with_block L ?b (py_str op_id) s'"
  have N: "lg_state ?N = Some s'" "lg_config ?N = Some config" using sc by (simp_all add: with_block_def)
  have "\<exists>L'. (if cf_version config = VERSION then prune_work C ?N now else Inr ?N) = Inr L'
      \<and> core L' = core ?N \<and> lg_blocks L' = lg_blocks ?N \<and> lg_manifest L' = lg_manifest ?N"
    using prune_total [OF N books_apply [OF ap bk]] prune_frame by (cases "cf_version config = VERSION") (fastforce, simp)
  then obtain L' where L': "(if cf_version config = VERSION then prune_work C ?N now else Inr ?N) = Inr L'"
    "core L' = core ?N" "lg_blocks L' = lg_blocks ?N" "lg_manifest L' = lg_manifest ?N" by blast
  have j: "jint ''height'' ?p = lg_height L + 1" using h by (simp add: jfield_jint)
  have "commit C L c now = Inr (L', receipt_json (JInt (lg_height L + 1)) (json_hash C ?p))"
    using v verify_obj [OF v] none c L'(1) sc
    unfolding commit_def Let_def by (simp add: ready_def j split: if_splits)
  with L' that show thesis by (simp add: core_def with_block_def)
qed

text \<open>Committing certificates in order, as \<open>sync\<close> does with every page of another validator.\<close>

fun catch_up :: "crypto \<Rightarrow> ledger \<Rightarrow> int \<Rightarrow> json list \<Rightarrow> py_error + ledger" where
  "catch_up C L now [] = Inr L"
| "catch_up C L now (c # cs) = bnd (commit C L c now) (\<lambda>(L, _). catch_up C L now cs)"

lemma catch_up_replay:
  assumes "replay C R bs = Inr R'" "core R = core L" "ledger_inv C L"
  shows "\<exists>L'. catch_up C L now (map bl_certificate bs) = Inr L' \<and> core L' = core R'
    \<and> lg_blocks L' = lg_blocks L @ bs \<and> lg_manifest L' = lg_manifest L \<and> ledger_inv C L'"
  using assms
proof (induction bs arbitrary: R L)
  case (Cons b bs)
  obtain s where s: "verify_certificate C R (bl_certificate b) = Inr s" "bl_height b = lg_height R + 1"
    "bl_hash b = json_hash C (jfield ''proposal'' (bl_certificate b))"
    "replay C (R\<lparr>lg_state := Some s, lg_height := bl_height b, lg_head := bl_hash b\<rparr>) bs = Inr R'"
    using Cons.prems(1) by (auto simp: guard_simps)
  have "verify_certificate C L (bl_certificate b) = Inr s" using s(1) core_cong(3) [OF Cons.prems(2)] by simp
  from commit_next [OF this Cons.prems(3)] obtain L1 r where c: "commit C L (bl_certificate b) now = Inr (L1, r)"
    and k: "core L1 = (Some s, lg_config L, lg_network L, lg_height L + 1, json_hash C (jfield ''proposal'' (bl_certificate b)))"
    and bl: "lg_blocks L1 = lg_blocks L @ [\<lparr>bl_height = lg_height L + 1,
        bl_hash = json_hash C (jfield ''proposal'' (bl_certificate b)), bl_certificate = bl_certificate b\<rparr>]"
    and m: "lg_manifest L1 = lg_manifest L" by blast
  have hd: "lg_height R = lg_height L" using Cons.prems(2) by (simp add: core_def)
  have b: "b = \<lparr>bl_height = lg_height L + 1, bl_hash = json_hash C (jfield ''proposal'' (bl_certificate b)), bl_certificate = bl_certificate b\<rparr>"
    using s(2,3) hd by (cases b) simp
  have "core (R\<lparr>lg_state := Some s, lg_height := bl_height b, lg_head := bl_hash b\<rparr>) = core L1"
    using k s(2,3) Cons.prems(2) by (simp add: core_def)
  from Cons.IH [OF s(4) this commit_inv [OF c Cons.prems(3)]] obtain L' where
    "catch_up C L1 now (map bl_certificate bs) = Inr L'" "core L' = core R'" "lg_blocks L' = lg_blocks L1 @ bs"
    "lg_manifest L' = lg_manifest L1" "ledger_inv C L'" by (elim exE conjE)
  moreover have "lg_blocks L1 = lg_blocks L @ [b]" using bl unfolding b [symmetric] .
  ultimately show ?case using c m by (intro exI [of _ L']) simp
qed simp

subsection \<open>Votes\<close>

text \<open>A vote row stays.\<close>

lemma commit_votes: "commit C L c now = Inr (L', r) \<Longrightarrow> lg_votes L' = lg_votes L"
  by (erule commit_cases) (auto simp: with_block_def dest: prune_frame)

lemma configure_votes: "configure C L m = Inr L' \<Longrightarrow> lg_votes L' = lg_votes L"
  unfolding configure_def Let_def guard_simps sum.inject by (elim exE conjE, drule sym) simp

lemma step_votes:
  assumes "ledger_step C L op = Inr L'" "map_of (lg_votes L) h = Some row"
  shows "map_of (lg_votes L') h = Some row"
proof (cases op)
  case (Configure m)
  then have "lg_votes L' = lg_votes L"
    using assms(1) by (simp add: ledger_step_def) (erule configure_votes)
  with assms(2) show ?thesis by simp
next
  case (Vote p now stored)
  then obtain v where "vote C L p now stored = Inr (L', v)" using assms(1) by (auto simp: ledger_step_def guard_simps)
  then show ?thesis using assms(2) by (cases rule: vote_cases) auto
next
  case (Commit c now)
  then show ?thesis using assms by (auto simp: ledger_step_def guard_simps dest: commit_votes)
next
  case (Attempt item now)
  then show ?thesis using assms attempt_frame [of L item now L'] by (simp add: ledger_step_def)
next
  case (Cache item v now)
  then show ?thesis using assms by (auto simp: ledger_step_def cache_work_def)
next
  case Restart
  then show ?thesis using assms open_tables [of C L L'] by (simp add: ledger_step_def tables_def)
qed

lemma reaches_votes:
  "log.reaches C L L' \<Longrightarrow> map_of (lg_votes L) h = Some row \<Longrightarrow> map_of (lg_votes L') h = Some row"
  by (induction rule: log.reaches.induct) (auto intro: step_votes)

lemma vote_row:
  assumes "vote C L p now stored = Inr (L', v)"
  shows "\<exists>row. map_of (lg_votes L') (jint ''height'' p) = Some row \<and> vr_hash row = json_hash C p \<and> vr_vote row = v"
  using assms by (cases rule: vote_cases) auto

text \<open>The Python equality of wire values only depends on the canonical bytes.\<close>

lemma insort_key_map: "insort_key fst (map_prod id f x) (map (map_prod id f) ys) = map (map_prod id f) (insort_key fst x ys)"
  by (induction ys) auto

lemma sort_key_map: "sort_key fst (map (map_prod id f) xs) = map (map_prod id f) (sort_key fst xs)"
  by (induction xs) (simp_all only: sort_key_simps list.map insort_key_map)

lemma canon_num_norm: "canon (num_norm j) = num_norm (canon j)"
proof (induction j)
  case (JObj kvs)
  have "sort_key fst (map (map_prod id canon) (map (map_prod id num_norm) kvs))
      = sort_key fst (map (map_prod id num_norm) (map (map_prod id canon) kvs))"
    using JObj by (intro arg_cong [where f = "sort_key fst"]) force
  also have "\<dots> = map (map_prod id num_norm) (sort_key fst (map (map_prod id canon) kvs))" by (rule sort_key_map)
  finally show ?case by (simp only: num_norm.simps canon.simps)
qed (simp_all cong: map_cong)

lemma py_eq_canonical:
  assumes "canonical_json a = canonical_json b"
  shows "canon (num_norm a) = canon (num_norm b)"
  using canonical_json_inj [OF assms] by (simp only: canon_num_norm)

text \<open>Every signer counted by a certificate has signed the approval.\<close>

definition approved :: "crypto \<Rightarrow> string \<Rightarrow> json \<Rightarrow> bool" where
  "approved C k expected \<longleftrightarrow> (\<exists>sg p. ed_ok C k sg (canonical_json p) \<and> py_eq p expected)"

lemma signature_ok_key:
  "signature C wire = Inr signed \<Longrightarrow> ed_ok C (sp_public_key signed) (sp_signature signed) (canonical_json (sp_payload signed))"
  by (auto simp: signature_def or_signature_invalid_def verify_signed_payload_def guard_simps split: sum.splits)

lemma vote_signers_facts:
  assumes "vote_signers C config expected seen wires = Inr signers" "distinct seen"
    "set seen \<subseteq> {k \<in> set (validator_ids config). approved C k expected}"
  shows "distinct signers \<and> set signers \<subseteq> {k \<in> set (validator_ids config). approved C k expected}"
  using assms
proof (induction wires arbitrary: seen)
  case (Cons wire wires)
  then obtain sg where sg: "signature C wire = Inr sg" "sp_public_key sg \<in> set (validator_ids config)"
    "py_eq (sp_payload sg) expected" "sp_public_key sg \<notin> set seen"
    "vote_signers C config expected (sp_public_key sg # seen) wires = Inr signers"
    by (auto simp: guard_simps)
  have "approved C (sp_public_key sg) expected" using signature_ok_key [OF sg(1)] sg(3) by (auto simp: approved_def)
  with Cons.IH [OF sg(5)] Cons.prems(2,3) sg(2,4) show ?case by simp
qed simp

text \<open>The validators that approved the proposal of a certificate are a quorum.\<close>

definition backers :: "crypto \<Rightarrow> config \<Rightarrow> string \<Rightarrow> int \<Rightarrow> string \<Rightarrow> string set" where
  "backers C config network h digest =
     {k \<in> set (validator_ids config). approved C k (approval (cf_version config) network h digest)}"

lemma finite_backers: "finite (backers C config network h digest)"
  by (simp add: backers_def)

lemma verify_quorum:
  assumes "verify_certificate C L c = Inr s'" "lg_config L = Some config"
  shows "quorum config \<le> card (backers C config (lg_network L) (lg_height L + 1) (json_hash C (jfield ''proposal'' c)))"
proof -
  obtain signers where v: "vote_signers C config (approval (cf_version config) (lg_network L)
      (jint ''height'' (jfield ''proposal'' c)) (json_hash C (jfield ''proposal'' c))) [] (jlist (jfield ''votes'' c)) = Inr signers"
    "quorum config \<le> length signers"
    using verify_facts(2) [OF assms(1)] assms(2) by auto
  have j: "jint ''height'' (jfield ''proposal'' c) = lg_height L + 1" using verify_height [OF assms(1)] by (simp add: jfield_jint)
  have "distinct signers \<and> set signers \<subseteq> backers C config (lg_network L) (lg_height L + 1) (json_hash C (jfield ''proposal'' c))"
    using vote_signers_facts [OF v(1)] by (simp add: backers_def j)
  then have "length signers \<le> card (backers C config (lg_network L) (lg_height L + 1) (json_hash C (jfield ''proposal'' c)))"
    using card_mono [OF finite_backers] distinct_card by metis
  with v(2) show ?thesis by simp
qed

text \<open>
  A validator is honest when everything that verifies under its key as an approval at a height was written
  to its vote table first, as \<open>vote\<close> does: the row of that height has that hash.
\<close>

definition honest :: "crypto \<Rightarrow> config \<Rightarrow> string \<Rightarrow> string \<Rightarrow> ledger \<Rightarrow> bool" where
  "honest C config network k L \<longleftrightarrow> (\<forall>h digest. approved C k (approval (cf_version config) network h digest) \<longrightarrow>
     (\<exists>row. map_of (lg_votes L) h = Some row \<and> vr_hash row = digest))"

end
