(* ===== verification/Approval_Guarantees.thy ===== *)
theory Approval_Guarantees
  imports Approval_Catchup
begin

section \<open>Guarantees of the approval log\<close>

text \<open>
  The properties of \<open>src/rynmesh/exchange/ledger.py\<close> over reachable ledgers, each from the invariant and the lemmas of the theories
  before, and a network of four validators on which the witnesses run.
\<close>

subsection \<open>A network of four validators\<close>

text \<open>The ledger of the first validator on the demo manifest, and a certificate by all but the last validator.\<close>

definition net_ledger :: ledger where
  "net_ledger = (fresh_ledger (demo_key (CHR ''A'')))\<lparr>lg_manifest := Some demo_manifest, lg_config := Some net_config,
     lg_network := ''sha256:1'', lg_state := Some (initial_state net_config), lg_head := ''sha256:1''\<rparr>"

definition net_vote :: "char \<Rightarrow> json" where
  "net_vote c = to_dict \<lparr>sp_payload = net_approval, sp_signature = demo_key c, sp_public_key = demo_key c,
     sp_alg = SIGNATURE_ALG\<rparr>"

definition net_certificate :: json where
  "net_certificate = JObj [(''proposal'', net_proposal), (''votes'', JArr (map net_vote ''ABC''))]"

lemma net_any_genesis: "any_genesis demo_manifest = Inr net_config"
proof -
  have "jget ''version'' demo_manifest = Some (JStr VERSION)" by (simp add: demo_manifest_def jget_def)
  then show ?thesis by (simp add: any_genesis_def demo_manifest_ok LEGACY_VERSION_def VERSION_def)
qed

lemma net_version: "cf_version net_config = VERSION"
  by (simp add: parse_config_def demo_manifest_def jstr_def jfield_def jget_def)

lemma net_configure: "configure net_crypto (fresh_ledger (demo_key (CHR ''A''))) demo_manifest = Inr net_ledger"
  by (simp add: configure_def net_any_genesis net_version net_id fresh_ledger_def net_ledger_def Let_def)

lemma net_validators: "validator_ids net_config = map demo_key ''ABCD''"
  by (simp add: validator_ids_def parse_config_def demo_manifest_def parse_validator_def jfield_def jget_def jlist_def jstr_def)

lemma net_length: "length (cf_validators net_config) = 4"
  using arg_cong [OF net_validators, of length] by (simp add: validator_ids_def)

lemma net_keys_ok: "c \<in> set ''ABCD'' \<Longrightarrow> is_key (demo_key c)"
proof -
  have "\<forall>c \<in> set ''ABCD''. is_key (demo_key c)" by code_simp
  then show "c \<in> set ''ABCD'' \<Longrightarrow> is_key (demo_key c)" by blast
qed

lemma net_core_size: "jsize (JObj net_core) \<le> 3000"
proof -
  have "jsize demo_profile \<le> 1700"
    by (simp add: demo_profile_def VERSION_def demo_key_def show_small)
  moreover have "length (show_int 5) = 1" by (simp add: show_int_def show_nat.simps)
  ultimately show ?thesis
    by (simp add: net_core_def VERSION_def show_small to_dict_def demo_signed_def SIGNATURE_ALG_def demo_key_def)
qed

lemma signed_parts: "sp_payload (demo_signed p) = p" "sp_public_key (demo_signed p) = demo_key (CHR ''A'')"
  by (simp_all add: demo_signed_def)

lemma net_check: "\<exists>s'. check_proposal net_crypto net_ledger net_proposal = Inr s'"
proof -
  obtain s' where ap: "apply_cmd net_crypto (initial_state net_config) (to_dict (demo_signed demo_profile)) net_config 5 = Inr s'"
    using demo_profile_accepted by blast
  have small: "jsize (JObj net_core) \<le> 131072" using net_core_size by simp
  have sig: "signature net_crypto (to_dict (demo_signed (JObj net_core))) = Inr (demo_signed (JObj net_core))"
    by (rule net_signature [OF _ small]) (simp add: is_obj_def)
  have f: "jfield ''version'' net_proposal = JStr VERSION" "jfield ''network'' net_proposal = JStr ''sha256:1''"
    "jfield ''height'' net_proposal = JInt 1" "jfield ''parent'' net_proposal = JStr ''sha256:1''"
    "jfield ''timestamp'' net_proposal = JInt 5" "jfield ''command'' net_proposal = to_dict (demo_signed demo_profile)"
    "jfield ''proposer'' net_proposal = to_dict (demo_signed (JObj net_core))"
    "drop_key ''proposer'' net_proposal = JObj net_core" "is_obj net_proposal"
    "keys_are net_proposal [''version'', ''network'', ''height'', ''parent'', ''timestamp'', ''command'', ''proposer'']"
    by (simp_all add: net_proposal_def net_core_def jfield_def jget_def drop_key_def is_obj_def keys_are_def jkeys_def)
  have l: "length (cf_validators net_config) = 4" "validator_ids net_config ! 0 = demo_key (CHR ''A'')"
    by (simp_all add: net_length net_validators)
  show ?thesis
    using ap by (simp add: check_proposal_def ready_def net_ledger_def fresh_ledger_def f net_version l sig rules_apply_def
        signed_parts py_eq_def)
qed

lemma net_hash_proposal: "json_hash net_crypto net_proposal = ''sha256:'' @ net_hash (canonical_json net_proposal)"
  by (simp add: json_hash_def sha256_bytes_def net_crypto_def)

lemma net_approval_size: "jsize net_approval \<le> 131072"
proof -
  have "jsize net_proposal \<le> 8000"
    using net_core_size
    by (simp add: net_proposal_def net_core_def to_dict_def demo_signed_def SIGNATURE_ALG_def demo_key_def)
  then have "length (canonical_json net_proposal) \<le> 16000" using length_canonical [of net_proposal] by simp
  moreover have "canonical_json net_proposal \<noteq> ''1''"
    by (simp add: canonical_json_def net_proposal_def utf8_Cons utf8_char_def Let_def)
  ultimately have "length (net_hash (canonical_json net_proposal)) \<le> 16000"
    by (simp add: net_hash_def swap_hash_def)
  then show ?thesis by (simp add: net_approval_def VERSION_def show_small)
qed

lemma net_approval_eq: "approval VERSION ''sha256:1'' 1 (json_hash net_crypto net_proposal) = net_approval"
  by (simp add: approval_def net_approval_def net_hash_proposal)

lemma net_vote_signature:
  "c \<in> set ''ABCD'' \<Longrightarrow> signature net_crypto (net_vote c) = Inr \<lparr>sp_payload = net_approval,
     sp_signature = demo_key c, sp_public_key = demo_key c, sp_alg = SIGNATURE_ALG\<rparr>"
  unfolding net_vote_def
  by (rule signature_ok [OF _ net_approval_size net_keys_ok]) (simp_all add: net_approval_def is_obj_def net_crypto_def)

lemma demo_key_inj: "demo_key c = demo_key d \<longleftrightarrow> c = d"
  by (simp add: demo_key_def)

lemma net_verify: "\<exists>s'. verify_certificate net_crypto net_ledger net_certificate = Inr s'"
proof -
  obtain s' where c: "check_proposal net_crypto net_ledger net_proposal = Inr s'" using net_check by blast
  have f: "is_obj net_certificate" "keys_are net_certificate [''proposal'', ''votes'']"
    "jfield ''proposal'' net_certificate = net_proposal" "jfield ''votes'' net_certificate = JArr (map net_vote ''ABC'')"
    by (auto simp: net_certificate_def is_obj_def keys_are_def jkeys_def jfield_def jget_def)
  have h: "jint ''height'' net_proposal = 1"
    by (simp add: net_proposal_def net_core_def jint_def jfield_def jget_def)
  have r: "ready net_ledger = Inr (initial_state net_config, net_config)" "lg_network net_ledger = ''sha256:1''"
    by (simp_all add: ready_def net_ledger_def)
  have q: "quorum net_config = 3" by (simp add: quorum_def net_length)
  have v: "vote_signers net_crypto net_config net_approval [] (map net_vote ''ABC'') = Inr (map demo_key ''CBA'')"
    by (simp add: net_vote_signature net_validators demo_key_inj py_eq_def)
  show ?thesis
    by (simp add: verify_certificate_def f c r h net_version net_approval_eq is_list_def jlist_def v q [simplified] del: list.map)
qed

subsection \<open>Guarantees\<close>

lemma reached_inv: "inj (sha256 C) \<Longrightarrow> log.reaches C (fresh_ledger k) L \<Longrightarrow> ledger_inv C L"
  using log.reaches_inv [of C "fresh_ledger k" L] fresh_inv by blast

lemma net_reached: "log.reaches net_crypto (fresh_ledger (demo_key (CHR ''A''))) net_ledger"
  by (rule log.reaches_step [OF log.reaches_start, where c = "Configure demo_manifest"])
    (simp add: ledger_step_def net_configure)

text \<open>The ledger after the first block.\<close>

lemma net_committed:
  obtains L r where "commit net_crypto net_ledger net_certificate 5 = Inr (L, r)"
    "log.reaches net_crypto (fresh_ledger (demo_key (CHR ''A''))) L" "lg_height L = 1"
    "lg_config L = Some net_config" "lg_manifest L = Some demo_manifest"
proof -
  obtain s' where v: "verify_certificate net_crypto net_ledger net_certificate = Inr s'" using net_verify by blast
  from commit_next [OF v reached_inv [OF net_crypto_inj net_reached], of 5] obtain L r where
    L: "commit net_crypto net_ledger net_certificate 5 = Inr (L, r)"
    "core L = (Some s', lg_config net_ledger, lg_network net_ledger, lg_height net_ledger + 1,
       json_hash net_crypto (jfield ''proposal'' net_certificate))" "lg_manifest L = lg_manifest net_ledger" by blast
  have "log.reaches net_crypto (fresh_ledger (demo_key (CHR ''A''))) L"
    by (rule log.reaches_step [OF net_reached, where c = "Commit net_certificate 5"]) (simp add: ledger_step_def L(1))
  with L that show thesis by (simp add: core_def net_ledger_def fresh_ledger_def)
qed

lemma vote_again:
  assumes "vote C L p now stored = Inr (L1, v)"
  shows "vote C L1 p now' stored' = Inr (L1, v)"
proof -
  have g: "\<exists>s config s'. writable L = Inr (s, config) \<and> ed_public C (lg_private_key L) \<in> set (validator_ids config)
      \<and> check_proposal C L p = Inr s'"
    using assms unfolding vote_def by (auto simp: guard_simps Let_def split: prod.splits)
  have f: "core L1 = core L" "lg_private_key L1 = lg_private_key L"
    using assms by (cases rule: vote_cases; simp add: core_def)+
  then have "writable L1 = writable L" "check_proposal C L1 p = check_proposal C L p"
    using core_cong [of L1 L] by (simp_all add: writable_def)
  with g f vote_row [OF assms] show ?thesis by (auto simp: vote_def)
qed

lemma net_voted: "\<exists>L v. vote net_crypto net_ledger net_proposal 5 0 = Inr (L, v)"
proof -
  obtain s' where c: "check_proposal net_crypto net_ledger net_proposal = Inr s'" using net_check by blast
  have f: "jint ''height'' net_proposal = 1" "jint ''timestamp'' net_proposal = 5"
    "jfield ''command'' net_proposal = to_dict (demo_signed demo_profile)"
    by (simp_all add: net_proposal_def net_core_def jint_def jfield_def jget_def)
  have p: "jitem ''payload'' (to_dict (demo_signed demo_profile)) = Inr demo_profile"
    by (simp add: to_dict_def jitem_def signed_parts)
  have a: "jitem ''action'' demo_profile = Inr (JStr ''profile'')" "jget ''action'' demo_profile = Some (JStr ''profile'')"
    by (simp_all add: demo_profile_def jitem_def jget_def)
  have w: "writable net_ledger = Inr (initial_state net_config, net_config)"
    by (simp add: writable_def ready_def net_ledger_def net_version)
  have k: "ed_public net_crypto (lg_private_key net_ledger) \<in> set (validator_ids net_config)"
    by (simp add: net_crypto_def net_ledger_def fresh_ledger_def net_validators)
  have d: "vote_deadlines (initial_state net_config) demo_profile 5 = Inr ()"
    by (simp add: vote_deadlines_def a demo_profile_def jitem_def is_obj_def lookup_order_def jfield_def jget_def
        dict_get_def initial_state_def)
  have m: "admit_storage (initial_state net_config) (JStr ''profile'') 0 = Inr ()"
    by (simp add: admit_storage_def in_strings_def ORDER_ACTIONS_def open_orders_def initial_state_def dict_vals_def
        ADMISSION_HEADROOM_def MAX_DATABASE_BYTES_def)
  have l: "lg_votes net_ledger = []" by (simp add: net_ledger_def fresh_ledger_def)
  show ?thesis
    using k by (simp add: vote_def w c f p a d m l CLOCK_SKEW_def Let_def)
qed

text \<open>C21: a validator votes for one proposal at a height. Whatever the ledger does between two calls of
  \<open>vote\<close> (commits, attempts, restarts), a second call at the height of the first succeeds only for a proposal
  with the same hash, and returns the stored vote.\<close>

theorem vote_lock:
  assumes "vote C L p now stored = Inr (L1, v)" "log.reaches C L1 L2" "vote C L2 q now' stored' = Inr (L3, w)"
    "jint ''height'' q = jint ''height'' p"
  shows "json_hash C q = json_hash C p \<and> w = v \<and> L3 = L2"
proof -
  obtain row where "map_of (lg_votes L1) (jint ''height'' p) = Some row" and r: "vr_hash row = json_hash C p" "vr_vote row = v"
    using vote_row [OF assms(1)] by blast
  then have row: "map_of (lg_votes L2) (jint ''height'' q) = Some row" using reaches_votes [OF assms(2)] assms(4) by simp
  from assms(3) show ?thesis by (cases rule: vote_cases) (use row r in auto)
qed

lemma vote_lock_witness:
  "\<exists>L v L3 w. vote net_crypto net_ledger net_proposal 5 0 = Inr (L, v) \<and> log.reaches net_crypto L L
     \<and> vote net_crypto L net_proposal 99 7 = Inr (L3, w) \<and> w = v \<and> L3 = L"
proof -
  obtain L v where v: "vote net_crypto net_ledger net_proposal 5 0 = Inr (L, v)" using net_voted by blast
  note again = vote_again [OF v, of 99 7]
  show ?thesis
    using vote_lock [OF v log.reaches_start again refl] v again by (auto intro: log.reaches_start)
qed

text \<open>C3: two certificates for the same height of a network are for the same proposal, as long as the
  validators outside a set \<open>F\<close> of at most a third of the roster are honest: whatever verifies under their
  keys as an approval was written to their vote table, where one row per height is the lock. The two
  ledgers may belong to different nodes.\<close>

theorem certificates_agree:
  assumes "verify_certificate C L1 c1 = Inr s1" "verify_certificate C L2 c2 = Inr s2"
    "lg_config L1 = Some config" "lg_config L2 = Some config" "lg_network L2 = lg_network L1"
    "lg_height L2 = lg_height L1" "finite F" "3 * card F \<le> card (set (validator_ids config))"
    "\<forall>k. k \<notin> F \<longrightarrow> (\<exists>L. honest C config (lg_network L1) k L)"
  shows "json_hash C (jfield ''proposal'' c1) = json_hash C (jfield ''proposal'' c2)"
proof -
  let ?h = "lg_height L1 + 1"
  let ?A = "backers C config (lg_network L1) ?h (json_hash C (jfield ''proposal'' c1))"
  let ?B = "backers C config (lg_network L1) ?h (json_hash C (jfield ''proposal'' c2))"
  have "quorum config \<le> card ?A" using verify_quorum [OF assms(1,3)] .
  moreover have "quorum config \<le> card ?B" using verify_quorum [OF assms(2,4)] assms(5,6) by simp
  moreover have "?A \<subseteq> set (validator_ids config)" "?B \<subseteq> set (validator_ids config)" by (auto simp: backers_def)
  ultimately obtain k where "k \<in> ?A" "k \<in> ?B" "k \<notin> F"
    using validators.honest_common_voter assms(7,8) by metis
  then have a: "approved C k (approval (cf_version config) (lg_network L1) ?h (json_hash C (jfield ''proposal'' c)))"
    if "c = c1 \<or> c = c2" for c using that by (auto simp: backers_def)
  from assms(9) \<open>k \<notin> F\<close> obtain L where "honest C config (lg_network L1) k L" by blast
  then have r: "\<exists>row. map_of (lg_votes L) ?h = Some row \<and> vr_hash row = json_hash C (jfield ''proposal'' c)"
    if "c = c1 \<or> c = c2" for c using a [OF that] unfolding honest_def by blast
  show ?thesis using r [of c1] r [of c2] by auto
qed

lemma net_honest:
  assumes "k \<noteq> demo_key (CHR ''A'')"
  shows "\<exists>L. honest net_crypto net_config ''sha256:1'' k L"
proof -
  obtain L v where v: "vote net_crypto net_ledger net_proposal 5 0 = Inr (L, v)" using net_voted by blast
  have h: "jint ''height'' net_proposal = 1"
    by (simp add: net_proposal_def net_core_def jint_def jfield_def jget_def)
  obtain row where r: "map_of (lg_votes L) 1 = Some row" "vr_hash row = json_hash net_crypto net_proposal"
    using vote_row [OF v] h by auto
  have "h' = 1 \<and> d = json_hash net_crypto net_proposal"
    if "approved net_crypto k (approval (cf_version net_config) ''sha256:1'' h' d)" for h' d
  proof -
    from that obtain p where p: "canonical_json p = canonical_json net_approval" "py_eq p (approval VERSION ''sha256:1'' h' d)"
      using assms by (auto simp: approved_def net_crypto_def net_version)
    have "py_eq net_approval (approval VERSION ''sha256:1'' h' d)"
      using py_eq_canonical [OF p(1)] p(2) by (simp add: py_eq_def)
    then have "map_option canon (jget k (num_norm net_approval)) = map_option canon (jget k (num_norm (approval VERSION ''sha256:1'' h' d)))" for k
      unfolding py_eq_def using jget_canon by metis
    from this [of "''height''"] this [of "''hash''"] show ?thesis
      by (simp add: net_approval_eq [symmetric] approval_def jget_def)
  qed
  with r show ?thesis unfolding honest_def by blast
qed

lemma certificates_agree_witness:
  "\<exists>s. verify_certificate net_crypto net_ledger net_certificate = Inr s
     \<and> json_hash net_crypto (jfield ''proposal'' net_certificate) = json_hash net_crypto (jfield ''proposal'' net_certificate)"
proof -
  obtain s where s: "verify_certificate net_crypto net_ledger net_certificate = Inr s" using net_verify by blast
  have n: "lg_config net_ledger = Some net_config" "lg_network net_ledger = ''sha256:1''"
    by (simp_all add: net_ledger_def)
  have c: "card (set (validator_ids net_config)) = 4"
    by (simp add: net_validators demo_key_inj card_insert_if)
  show ?thesis
    using certificates_agree [OF s s n(1) n(1) refl refl, of "{demo_key (CHR ''A'')}"] s net_honest by (auto simp: n c)
qed

text \<open>C22: closing and reopening a validator's database changes nothing. In every state that the operations
  of the ledger reach from an empty file, opening the file verifies every stored certificate again and
  returns a ledger with the same state, configuration, head and tables.\<close>

theorem restart_rebuilds:
  assumes "inj (sha256 C)" "log.reaches C (fresh_ledger k) L"
  shows "open_ledger C L = Inr L"
  using restart_same [OF reached_inv [OF assms]] .

lemma restart_rebuilds_witness:
  "\<exists>L. lg_height L = 1 \<and> open_ledger net_crypto L = Inr L"
proof -
  obtain L r where "log.reaches net_crypto (fresh_ledger (demo_key (CHR ''A''))) L" "lg_height L = 1"
    using net_committed by blast
  with restart_rebuilds [OF net_crypto_inj] show ?thesis by blast
qed

text \<open>C23: the blocks of a reached ledger are a hash chain from the network id, its height is their number,
  its head is the hash of the last one, and its books balance: the balances add up to what was issued and
  none is negative.\<close>

theorem ledger_chain:
  assumes "inj (sha256 C)" "log.reaches C (fresh_ledger k) L" "lg_config L = Some config"
  shows "linked C 0 (network_id C config) (lg_blocks L) \<and> lg_height L = int (length (lg_blocks L))
    \<and> lg_head L = tip (network_id C config) (lg_blocks L)
    \<and> (\<exists>s. lg_state L = Some s \<and> total_supply s = st_issued s \<and> st_issued s \<le> cf_issuance_limit config
        \<and> (\<forall>p. 0 \<le> ac_available (acct s p) \<and> ac_held (acct s p) = escrow s p))"
proof -
  have inv: "ledger_inv C L" by (rule reached_inv [OF assms(1,2)])
  then obtain s where s: "lg_network L = network_id C config" "lg_state L = Some s" "books config s"
    using assms(3) by (auto simp: ledger_inv_def loaded_ok_def)
  then have "money_inv config s" by (auto simp: books_def exch_inv_def book_inv_def v1_book_def split: if_splits)
  with inv s show ?thesis by (simp add: ledger_inv_def chain_ok_def money_inv_def)
qed

lemma ledger_chain_witness:
  "\<exists>(L :: ledger) s. lg_height L = 1 \<and> linked net_crypto 0 ''sha256:1'' (lg_blocks L) \<and> lg_state L = Some s \<and> total_supply s = st_issued s"
proof -
  obtain L r where "log.reaches net_crypto (fresh_ledger (demo_key (CHR ''A''))) L" "lg_height L = 1"
    "lg_config L = Some net_config" using net_committed by blast
  with ledger_chain [OF net_crypto_inj this(1,3)] show ?thesis unfolding net_id by blast
qed

text \<open>C24: replication. A new validator that configures the same manifest and commits the certificates of
  another one's log in order accepts every one of them and ends with the same state, network, height and
  head, and the same blocks.\<close>

theorem replica_catches_up:
  assumes "inj (sha256 C)" "log.reaches C (fresh_ledger k) L" "lg_manifest L = Some m" "lg_config L = Some config"
    "cf_version config = VERSION"
  shows "\<exists>M M'. configure C (fresh_ledger k') m = Inr M
    \<and> catch_up C M now (map bl_certificate (lg_blocks L)) = Inr M' \<and> core M' = core L \<and> lg_blocks M' = lg_blocks L"
proof -
  have inv: "ledger_inv C L" by (rule reached_inv [OF assms(1,2)])
  then have g: "any_genesis m = Inr config" using assms(3,4) by (auto simp: ledger_inv_def loaded_ok_def)
  let ?M = "(fresh_ledger k')\<lparr>lg_manifest := Some m, lg_config := Some config, lg_network := network_id C config,
    lg_state := Some (initial_state config), lg_head := network_id C config\<rparr>"
  have M: "configure C (fresh_ledger k') m = Inr ?M"
    by (simp add: configure_def g assms(5) Let_def) (simp add: fresh_ledger_def)
  have "core (started C L config) = core ?M" by (simp add: core_def started_def unloaded_def fresh_ledger_def)
  moreover have "replay C (started C L config) (lg_blocks L) = Inr L"
    using restart_same [OF inv] open_started [OF assms(3) g] by simp
  moreover have "ledger_inv C ?M" by (rule configure_inv [OF M fresh_inv assms(1)])
  ultimately show ?thesis using catch_up_replay M by (fastforce simp: fresh_ledger_def)
qed

lemma replica_catches_up_witness:
  "\<exists>(L :: ledger) M M'. lg_height L = 1 \<and> configure net_crypto (fresh_ledger ''other'') demo_manifest = Inr M
     \<and> catch_up net_crypto M 7 (map bl_certificate (lg_blocks L)) = Inr M' \<and> lg_state M' = lg_state L"
proof -
  obtain L r where L: "log.reaches net_crypto (fresh_ledger (demo_key (CHR ''A''))) L" "lg_height L = 1"
    "lg_config L = Some net_config" "lg_manifest L = Some demo_manifest" using net_committed by blast
  from replica_catches_up [OF net_crypto_inj L(1,4,3) net_version, of "''other''" 7] L(2) show ?thesis
    unfolding core_def by blast
qed

text \<open>A height is final. In a reached ledger, a certificate for the height of a stored block is accepted
  exactly when its proposal has the stored hash; then the receipt is returned again and nothing changes,
  and otherwise the commit is rejected as a fork.\<close>

theorem commit_final:
  assumes "inj (sha256 C)" "log.reaches C (fresh_ledger k) L" "b \<in> set (lg_blocks L)" "is_obj c"
    "is_obj (jfield ''proposal'' c)" "jfield ''height'' (jfield ''proposal'' c) = JInt (bl_height b)"
  shows "commit C L c now = (if bl_hash b = json_hash C (jfield ''proposal'' c)
    then Inr (L, receipt_json (JInt (bl_height b)) (bl_hash b)) else Inl (Raised ''exchange_fork''))"
proof -
  have inv: "ledger_inv C L" by (rule reached_inv [OF assms(1,2)])
  then have "find_block (lg_blocks L) (JInt (bl_height b)) = Some b"
    using linked_find [OF _ assms(3)] by (auto simp: ledger_inv_def chain_ok_def find_block_def)
  moreover obtain s config where "ready L = Inr (s, config)"
    using inv assms(3) by (auto simp: ledger_inv_def loaded_ok_def ready_def split: option.splits)
  ultimately show ?thesis by (simp add: commit_def assms(4-6) Let_def)
qed

lemma commit_final_witness:
  "\<exists>L b. b \<in> set (lg_blocks L) \<and> commit net_crypto L (JObj [(''proposal'', JObj [(''height'', JInt 1)])]) 9
     = Inl (Raised ''exchange_fork'')"
proof -
  obtain s' where v: "verify_certificate net_crypto net_ledger net_certificate = Inr s'" using net_verify by blast
  obtain L r where c: "commit net_crypto net_ledger net_certificate 5 = Inr (L, r)"
    and bl: "lg_blocks L = lg_blocks net_ledger @ [\<lparr>bl_height = lg_height net_ledger + 1,
      bl_hash = json_hash net_crypto (jfield ''proposal'' net_certificate), bl_certificate = net_certificate\<rparr>]"
    using commit_next [OF v reached_inv [OF net_crypto_inj net_reached], of 5] by blast
  have r: "log.reaches net_crypto (fresh_ledger (demo_key (CHR ''A''))) L"
    by (rule log.reaches_step [OF net_reached, where c = "Commit net_certificate 5"]) (simp add: ledger_step_def c)
  let ?b = "last (lg_blocks L)" and ?p = "JObj [(''height'', JInt 1)]"
  have b: "?b \<in> set (lg_blocks L)" "bl_height ?b = 1" "bl_hash ?b = json_hash net_crypto net_proposal"
    using bl by (simp_all add: net_ledger_def fresh_ledger_def net_certificate_def jfield_def jget_def)
  have "jget ''parent'' net_proposal = Some (JStr ''sha256:1'')"
    by (simp add: net_proposal_def net_core_def jget_def)
  then have "json_hash net_crypto ?p \<noteq> json_hash net_crypto net_proposal"
    using canonical_field_str [of net_proposal ?p "''parent''"] by (auto simp: json_hash_inj [OF net_crypto_inj] jget_def)
  then show ?thesis
    using commit_final [OF net_crypto_inj r b(1), of "JObj [(''proposal'', ?p)]" 9] b
    by (intro exI conjI) (auto simp: jfield_def jget_def is_obj_def)
qed

subsection \<open>Version 1 networks\<close>

interpretation v1: guarded_machine "\<lambda>s c. v1_apply C s (fst c) config (snd c)" "\<lambda>s. config_ok config \<and> v1_book config {} s"
  for C config
  by unfold_locales (auto intro: v1_apply_book)

definition old_manifest :: json where
  "old_manifest = JObj [(''version'', JStr V1_VERSION), (''name'', JStr ''demo''),
     (''validators'', JArr (map (\<lambda>c. JObj [(''peer_id'', JStr (demo_key c)), (''endpoint'', JStr ''x'')]) ''ABCD'')),
     (''judges'', JArr []), (''issuance_limit'', JInt 1000000), (''work_reward'', JInt 1000),
     (''appeal_window_s'', JInt 60), (''covenant'', V1_COVENANT)]"

lemma old_manifest_ok: "v1_genesis old_manifest = Inr (parse_config old_manifest)"
  by code_simp

definition old_crypto :: crypto where
  "old_crypto = demo_crypto\<lparr>sha256 := swap_hash (canonical_json (config_json (parse_config old_manifest))) ''1''\<rparr>"

lemma old_id: "network_id old_crypto (parse_config old_manifest) = ''sha256:1''"
  by (simp add: network_id_def json_hash_def sha256_bytes_def old_crypto_def swap_hash_def)

definition old_profile :: json where
  "old_profile = JObj [(''version'', JStr V1_VERSION), (''network'', JStr ''sha256:1''),
     (''id'', JStr ''op-profile''), (''actor'', JStr (demo_key (CHR ''A''))), (''nonce'', JInt 1), (''action'', JStr ''profile''),
     (''value'', JObj [(''label'', JStr ''d''), (''encryption_key'', JStr (demo_key (CHR ''A'')))])]"

lemma old_profile_accepted:
  "\<exists>s'. v1_apply old_crypto (initial_state (parse_config old_manifest)) (to_dict (demo_signed old_profile)) (parse_config old_manifest) 5
     = Inr s' \<and> ac_nonce (acct s' (demo_key (CHR ''A''))) = 1"
proof -
  have "jsize old_profile \<le> 131072"
    by (simp add: old_profile_def V1_VERSION_def demo_key_def show_small)
  then have sig: "signature old_crypto (to_dict (demo_signed old_profile)) = Inr (demo_signed old_profile)"
    unfolding demo_signed_def
    by (intro signature_ok) (simp_all add: old_profile_def is_obj_def demo_key_ok old_crypto_def demo_crypto_def)
  have f: "keys_are old_profile [''version'', ''network'', ''id'', ''actor'', ''nonce'', ''action'', ''value'']"
    "jfield ''version'' old_profile = JStr V1_VERSION"
    "jfield ''network'' old_profile = JStr ''sha256:1''"
    "jfield ''id'' old_profile = JStr ''op-profile''" "jfield ''actor'' old_profile = JStr (demo_key (CHR ''A''))"
    "jfield ''nonce'' old_profile = JInt 1" "jfield ''action'' old_profile = JStr ''profile''"
    "jfield ''value'' old_profile = JObj [(''label'', JStr ''d''), (''encryption_key'', JStr (demo_key (CHR ''A'')))]"
    by (auto simp: old_profile_def keys_are_def jkeys_def jfield_def jget_def)
  have i: "identifier_check (JStr ''op-profile'') = Inr ''op-profile''" by code_simp
  have v: "keys_are (JObj [(''label'', a), (''encryption_key'', b)]) [''label'', ''encryption_key'']"
    "jfield ''label'' (JObj [(''label'', a), (''encryption_key'', b)]) = a"
    "jfield ''encryption_key'' (JObj [(''label'', a), (''encryption_key'', b)]) = b" for a b
    by (auto simp: keys_are_def jkeys_def jfield_def jget_def)
  have l: "text_check (JStr ''d'') 100 False = Inr ''d''" by code_simp
  show ?thesis
    using sig by (simp add: v1_apply_def signed_parts f old_id i l key_check_def demo_key_ok integer_def MAX_MINOR_def
        initial_state_def touch_def upd_acct_def acct_def new_account_def is_obj_def v1_dispatch_def
        act_profile_def v record_op_def final_checks_def total_supply_def balances_ok_def dict_vals_def)
qed

text \<open>C25: the frozen version 1 rules keep the books as well. In every state of a network with an accepted
  version 1 manifest, the balances add up to the issued amount, none is negative and every held balance is
  the escrow of the open orders of its account.\<close>

theorem v1_books_balance:
  assumes "v1_genesis m = Inr config" "v1.reaches C config (initial_state config) s"
  shows "total_supply s = st_issued s \<and> st_issued s \<le> cf_issuance_limit config
    \<and> (\<forall>p. 0 \<le> ac_available (acct s p) \<and> ac_held (acct s p) = escrow s p)"
proof -
  have cfg: "config_ok config" using assms(1) genesis_checks_ok unfolding v1_genesis_def by blast
  from initial_inv [OF this] have "money_inv config (initial_state config)" by (simp add: exch_inv_def book_inv_def)
  then have "v1_book config {} (initial_state config)" by (simp add: v1_book_defs) (simp add: initial_state_def)
  with cfg v1.reaches_inv [OF assms(2)] have "v1_book config {} s" by blast
  then show ?thesis by (simp add: v1_book_def money_inv_def)
qed

lemma v1_books_balance_witness:
  "\<exists>s. ac_nonce (acct s (demo_key (CHR ''A''))) = 1 \<and> total_supply s = st_issued s
     \<and> st_issued s \<le> cf_issuance_limit (parse_config old_manifest)"
proof -
  let ?config = "parse_config old_manifest"
  obtain s where s: "v1_apply old_crypto (initial_state ?config) (to_dict (demo_signed old_profile)) ?config 5 = Inr s"
    "ac_nonce (acct s (demo_key (CHR ''A''))) = 1" using old_profile_accepted by blast
  have "v1.reaches old_crypto ?config (initial_state ?config) s"
    by (rule v1.reaches_step [OF v1.reaches_start, where c = "(to_dict (demo_signed old_profile), 5)"]) (simp add: s(1))
  from v1_books_balance [OF old_manifest_ok this] s(2) show ?thesis by blast
qed

end
