(* ===== verification/Timestamps.thy ===== *)
theory Timestamps
  imports Json
begin

section \<open>Timestamps\<close>

text \<open>
  The UTC timestamps of the Python standard library that the records of the program carry: \<open>isoformat\<close> of a
  UTC \<open>datetime\<close>, \<open>datetime.fromisoformat\<close> in the grammar of Python 3.10, the oldest version the package
  supports (\<open>YYYY-MM-DD[*HH[:MM[:SS[.fff[fff]]]][+HH:MM[:SS[.ffffff]]]]\<close>), and \<open>astimezone(timezone.utc)\<close>. An
  instant is the number of microseconds since the start of year 1, which is the range of a \<open>datetime\<close>; an
  instant outside years 1 to 9999 is an OverflowError.

  The round trip \<open>utc_of_iso\<close> is what every reader of the program's own timestamps relies on.
\<close>

subsection \<open>Days\<close>

definition leap :: "int \<Rightarrow> bool" where
  "leap y \<longleftrightarrow> y mod 4 = 0 \<and> (y mod 100 \<noteq> 0 \<or> y mod 400 = 0)"

definition year_days :: "int \<Rightarrow> int" where
  "year_days y = (if leap y then 366 else 365)"

definition month_days :: "int \<Rightarrow> int list" where
  "month_days y = [31, if leap y then 29 else 28, 31, 30, 31, 30, 31, 31, 30, 31, 30, 31]"

text \<open>The days before a year: whole cycles of 400 years, then year by year.\<close>

definition before_year :: "int \<Rightarrow> int" where
  "before_year y = (let p = y - 1 in 365 * p + p div 4 - p div 100 + p div 400)"

definition day_number :: "int \<Rightarrow> nat \<Rightarrow> int \<Rightarrow> int" where
  "day_number y m d = before_year y + sum_list (take (m - 1) (month_days y)) + d - 1"

text \<open>The year and the day within it.\<close>

function find_year :: "int \<Rightarrow> int \<Rightarrow> int \<times> int" where
  "find_year y n = (if n < year_days y then (y, n) else find_year (y + 1) (n - year_days y))"
  by pat_completeness auto
termination by (relation "measure (\<lambda>(y, n). nat n)") (auto simp: year_days_def split: if_splits)

declare find_year.simps [simp del]

fun find_month :: "int list \<Rightarrow> nat \<Rightarrow> int \<Rightarrow> nat \<times> int" where
  "find_month [] m n = (m, n + 1)"
| "find_month (k # ks) m n = (if n < k then (m, n + 1) else find_month ks (m + 1) (n - k))"

definition date_of :: "int \<Rightarrow> int \<times> nat \<times> int" where
  "date_of n = (let (y, k) = find_year (400 * (n div 146097) + 1) (n mod 146097) in (y, find_month (month_days y) 1 k))"

definition valid_date :: "int \<Rightarrow> nat \<Rightarrow> int \<Rightarrow> bool" where
  "valid_date y m d \<longleftrightarrow> 1 \<le> y \<and> y \<le> 9999 \<and> 1 \<le> m \<and> m \<le> 12 \<and> 1 \<le> d \<and> d \<le> month_days y ! (m - 1)"

lemma div_pred:
  assumes "0 < (k :: int)"
  shows "y div k = (y - 1) div k + (if y mod k = 0 then 1 else 0)"
proof -
  let ?q = "y div k" and ?r = "y mod k"
  have e: "y = k * ?q + ?r" "0 \<le> ?r" "?r < k" using assms by simp_all
  show ?thesis
  proof (cases "?r = 0")
    case True
    have "(y - 1) div k = ?q - 1"
      by (rule int_div_pos_eq [where r = "k - 1"]) (use e True assms in \<open>simp_all add: right_diff_distrib\<close>)
    with True show ?thesis by simp
  next
    case False
    have "(y - 1) div k = ?q"
      by (rule int_div_pos_eq [where r = "?r - 1"]) (use e False in \<open>linarith+\<close>)
    with False show ?thesis by simp
  qed
qed

lemma year_step: "before_year (y + 1) = before_year y + year_days y"
proof -
  define a b c where "a = (y mod 4 = 0)" "b = (y mod 100 = 0)" "c = (y mod 400 = 0)"
  have "(y mod 400) mod 100 = y mod 100" by (rule mod_mod_cancel) simp
  then have "c \<Longrightarrow> b" unfolding a_b_c_def by (metis mod_0)
  moreover have "(y mod 100) mod 4 = y mod 4" by (rule mod_mod_cancel) simp
  then have "b \<Longrightarrow> a" unfolding a_b_c_def by (metis mod_0)
  ultimately have l: "year_days y = 365 + (if a then 1 else 0) - (if b then 1 else 0) + (if c then 1 else 0)"
    unfolding year_days_def leap_def a_b_c_def [symmetric] by (cases a; cases b; cases c; simp)
  have "before_year (y + 1) = 365 * y + y div 4 - y div 100 + y div 400"
    "before_year y = 365 * (y - 1) + (y - 1) div 4 - (y - 1) div 100 + (y - 1) div 400"
    by (simp_all add: before_year_def Let_def)
  moreover have "y div 4 = (y - 1) div 4 + (if a then 1 else 0)" "y div 100 = (y - 1) div 100 + (if b then 1 else 0)"
    "y div 400 = (y - 1) div 400 + (if c then 1 else 0)"
    unfolding a_b_c_def by (rule div_pred, simp)+
  ultimately show ?thesis unfolding l by (simp only: right_diff_distrib)
qed

lemma find_year_spec: "0 \<le> n \<Longrightarrow> find_year y n = (y', k) \<Longrightarrow>
  y \<le> y' \<and> 0 \<le> k \<and> k < year_days y' \<and> before_year y' + k = before_year y + n"
proof (induction y n rule: find_year.induct)
  case (1 y n)
  show ?case
  proof (cases "n < year_days y")
    case True
    with 1 show ?thesis by (simp add: find_year.simps [of y n])
  next
    case False
    with 1 have "y + 1 \<le> y' \<and> 0 \<le> k \<and> k < year_days y' \<and> before_year y' + k = before_year (y + 1) + (n - year_days y)"
      by (simp add: find_year.simps [of y n])
    then show ?thesis by (simp add: year_step)
  qed
qed

lemma before_cycle: "before_year (400 * q + 1) = 146097 * q"
  by (simp add: before_year_def Let_def)

lemma find_month_spec:
  "0 \<le> n \<Longrightarrow> n < sum_list ks \<Longrightarrow> find_month ks m n = (m', d) \<Longrightarrow>
   m \<le> m' \<and> m' < m + length ks \<and> 1 \<le> d \<and> d \<le> ks ! (m' - m) \<and> sum_list (take (m' - m) ks) + d = n + 1"
proof (induction ks arbitrary: m n)
  case (Cons k ks)
  show ?case
  proof (cases "n < k")
    case False
    with Cons.prems Cons.IH [of "n - k" "m + 1"] have i: "m + 1 \<le> m'" "m' < m + 1 + length ks" "1 \<le> d" "d \<le> ks ! (m' - (m + 1))"
      "sum_list (take (m' - (m + 1)) ks) + d = n - k + 1" by auto
    then have "m' - m = Suc (m' - (m + 1))" by simp
    with i show ?thesis by simp
  qed (use Cons.prems in auto)
qed simp

lemma month_days_sum: "sum_list (month_days y) = year_days y"
  by (simp add: month_days_def year_days_def)

lemma before_year_mono: "a \<le> b \<Longrightarrow> before_year a \<le> before_year b"
proof -
  have "before_year a \<le> before_year (a + int k)" for k
  proof (induction k)
    case (Suc k)
    have "before_year (a + int (Suc k)) = before_year (a + int k) + year_days (a + int k)"
      using year_step [of "a + int k"] by (simp add: ac_simps)
    with Suc show ?case by (simp add: year_days_def split: if_splits)
  qed simp
  from this [of "nat (b - a)"] show "a \<le> b \<Longrightarrow> before_year a \<le> before_year b" by simp
qed

definition MAX_DAYS :: int where "MAX_DAYS = 3652059"

lemma date_of_spec:
  assumes "0 \<le> n" "n < MAX_DAYS" "date_of n = (y, m, d)"
  shows "valid_date y m d \<and> day_number y m d = n"
proof -
  obtain k where fy: "find_year (400 * (n div 146097) + 1) (n mod 146097) = (y, k)" and fm: "find_month (month_days y) 1 k = (m, d)"
    using assms(3) by (auto simp: date_of_def Let_def split: prod.splits)
  from find_year_spec [OF _ fy] have y: "400 * (n div 146097) + 1 \<le> y" "0 \<le> k" "k < year_days y" "before_year y + k = n"
    by (simp_all add: before_cycle)
  from find_month_spec [OF y(2) _ fm] y(3) have m: "1 \<le> m" "m < 13" "1 \<le> d" "d \<le> month_days y ! (m - 1)"
    "sum_list (take (m - 1) (month_days y)) + d = k + 1"
    by (simp_all add: month_days_sum) (simp_all add: month_days_def)
  have "1 \<le> y" using y(1) assms(1) by (simp add: order_trans [OF _ y(1)])
  moreover have "y \<le> 9999"
  proof (rule ccontr)
    assume "\<not> y \<le> 9999"
    then have "before_year 10000 \<le> before_year y" by (intro before_year_mono) simp
    moreover have "before_year 10000 = MAX_DAYS" by (simp add: before_year_def MAX_DAYS_def)
    ultimately show False using y(2,4) assms(2) by simp
  qed
  ultimately show ?thesis using m y(4) by (simp add: valid_date_def day_number_def)
qed

subsection \<open>Digits\<close>

fun pad :: "nat \<Rightarrow> nat \<Rightarrow> string" where
  "pad 0 n = []"
| "pad (Suc k) n = pad k (n div 10) @ [digit_char (n mod 10)]"

definition read_nat :: "string \<Rightarrow> nat option" where
  "read_nat s = (if list_all is_digit s then Some (digits_val s) else None)"

lemma length_pad [simp]: "length (pad k n) = k"
  by (induction k arbitrary: n) simp_all

lemma digit_char_is_digit: "n < 10 \<Longrightarrow> is_digit (digit_char n)"
  by (simp add: is_digit_def of_digit_char Let_def del: digit_char.simps)

lemma pad_digits [simp]: "list_all is_digit (pad k n)"
  by (induction k arbitrary: n) (simp_all add: digit_char_is_digit del: digit_char.simps)

lemma pad_val: "digits_val (pad k n) = n mod 10 ^ k"
proof (induction k arbitrary: n)
  case (Suc k)
  have "digits_val (pad (Suc k) n) = 10 * digits_val (pad k (n div 10)) + n mod 10"
    by (simp add: digits_val_def of_digit_char del: digit_char.simps)
  also have "\<dots> = 10 * (n div 10 mod 10 ^ k) + n mod 10" by (simp only: Suc)
  finally show ?case by (simp add: mod_mult2_eq)
qed (simp add: digits_val_def)

lemma read_pad: "n < 10 ^ k \<Longrightarrow> read_nat (pad k n) = Some n"
  by (simp add: read_nat_def pad_val)

subsection \<open>Reading\<close>

definition DAY :: int where "DAY = 86400 * 1000000"

definition read_date :: "string \<Rightarrow> int option" where
  "read_date s = (if length s = 10 \<and> s ! 4 = CHR ''-'' \<and> s ! 7 = CHR ''-'' then
     case (read_nat (take 4 s), read_nat (take 2 (drop 5 s)), read_nat (drop 8 s)) of
       (Some y, Some m, Some d) \<Rightarrow>
         if valid_date (int y) m (int d) then Some (day_number (int y) m (int d)) else None
     | _ \<Rightarrow> None
   else None)"

text \<open>\<open>HH[:MM[:SS[.fff[fff]]]]\<close> as hours, minutes, seconds and microseconds.\<close>

definition read_field :: "string \<Rightarrow> nat \<Rightarrow> char \<Rightarrow> nat option" where
  "read_field s i sep = (if length s \<le> i then Some 0
     else if s ! i = sep then read_nat (take 2 (drop (i + 1) s)) else None)"

definition read_fraction :: "string \<Rightarrow> nat option" where
  "read_fraction s = (if length s \<le> 8 then Some 0 else if s ! 8 \<noteq> CHR ''.'' then None
     else map_option (\<lambda>f. if length s = 12 then f * 1000 else f) (read_nat (drop 9 s)))"

definition read_time :: "string \<Rightarrow> (nat \<times> nat \<times> nat \<times> nat) option" where
  "read_time s = (if length s \<in> {2, 5, 8, 12, 15} then
     case (read_nat (take 2 s), read_field s 2 (CHR '':''), read_field s 5 (CHR '':''), read_fraction s) of
       (Some h, Some m, Some sec, Some f) \<Rightarrow> Some (h, m, sec, f)
     | _ \<Rightarrow> None
   else None)"

definition micros :: "nat \<Rightarrow> nat \<Rightarrow> nat \<Rightarrow> nat \<Rightarrow> int" where
  "micros h m s f = ((int h * 60 + int m) * 60 + int s) * 1000000 + int f"

definition read_clock :: "string \<Rightarrow> int option" where
  "read_clock s = (case read_time s of
     Some (h, m, sec, f) \<Rightarrow> if h < 24 \<and> m < 60 \<and> sec < 60 then Some (micros h m sec f) else None
   | None \<Rightarrow> None)"

text \<open>A UTC offset: at least \<open>HH:MM\<close>, and less than a day.\<close>

definition read_offset :: "string \<Rightarrow> int option" where
  "read_offset s = (case s of [] \<Rightarrow> None | c # z \<Rightarrow>
     if length z \<in> {5, 8, 15} then
       case read_time z of
         Some (h, m, sec, f) \<Rightarrow> if micros h m sec f < DAY
            then Some (if c = CHR ''-'' then - micros h m sec f else micros h m sec f) else None
       | None \<Rightarrow> None
     else None)"

definition is_sign :: "char \<Rightarrow> bool" where
  "is_sign c \<longleftrightarrow> c = CHR ''+'' \<or> c = CHR ''-''"

text \<open>The local time, and the offset of an aware one.\<close>

definition from_iso :: "string \<Rightarrow> (int \<times> int option) option" where
  "from_iso s = (case read_date (take 10 s) of None \<Rightarrow> None
     | Some day \<Rightarrow>
         if length s \<le> 10 then Some (day * DAY, None)
         else
           let t = drop 11 s; clock = takeWhile (\<lambda>c. \<not> is_sign c) t; zone = dropWhile (\<lambda>c. \<not> is_sign c) t in
           case read_clock clock of None \<Rightarrow> None
           | Some c \<Rightarrow> if zone = [] then Some (day * DAY + c, None)
               else map_option (\<lambda>z. (day * DAY + c, Some z)) (read_offset zone))"

text \<open>\<open>fromisoformat\<close> followed by \<open>replace(tzinfo=utc)\<close> or \<open>astimezone(utc)\<close>.\<close>

definition utc_of :: "string \<Rightarrow> py_error + int" where
  "utc_of s = (case from_iso s of
     None \<Rightarrow> Inl ValueError
   | Some (t, None) \<Rightarrow> Inr t
   | Some (t, Some z) \<Rightarrow> require (0 \<le> t - z \<and> t - z < MAX_DAYS * DAY) OverflowError (Inr (t - z)))"

definition z_to_utc :: "string \<Rightarrow> string" where
  "z_to_utc s = concat (map (\<lambda>c. if c = CHR ''Z'' then ''+00:00'' else [c]) s)"

subsection \<open>Writing\<close>

definition iso_clock :: "int \<Rightarrow> string" where
  "iso_clock t = (let s = nat (t div 1000000); f = nat (t mod 1000000) in
     pad 2 (s div 3600) @ '':'' @ pad 2 (s div 60 mod 60) @ '':'' @ pad 2 (s mod 60)
     @ (if f = 0 then [] else ''.'' @ pad 6 f))"

definition iso_date :: "int \<Rightarrow> string" where
  "iso_date n = (let (y, m, d) = date_of n in pad 4 (nat y) @ ''-'' @ pad 2 m @ ''-'' @ pad 2 (nat d))"

definition iso :: "int \<Rightarrow> string" where
  "iso t = iso_date (t div DAY) @ ''T'' @ iso_clock (t mod DAY) @ ''+00:00''"

text \<open>The form with a \<open>Z\<close> suffix.\<close>

definition iso_z :: "int \<Rightarrow> string" where
  "iso_z t = iso_date (t div DAY) @ ''T'' @ iso_clock (t mod DAY) @ ''Z''"

definition instant :: "int \<Rightarrow> bool" where
  "instant t \<longleftrightarrow> 0 \<le> t \<and> t < MAX_DAYS * DAY"

subsection \<open>Round trip\<close>

lemma date_bounds:
  assumes "0 \<le> n" "n < MAX_DAYS" "date_of n = (y, m, d)"
  shows "1 \<le> y" "y < 10000" "1 \<le> m" "m < 100" "1 \<le> d" "d < 100"
proof -
  have v: "valid_date y m d" using date_of_spec [OF assms] by blast
  then show "1 \<le> y" "y < 10000" "1 \<le> m" "m < 100" "1 \<le> d" by (auto simp: valid_date_def)
  have "\<forall>k \<in> set (month_days y). k < 100" by (simp add: month_days_def)
  then have "month_days y ! (m - 1) < 100" using v by (intro bspec [OF _ nth_mem]) (auto simp: valid_date_def month_days_def)
  with v show "d < 100" by (simp add: valid_date_def)
qed

lemma length_iso_date [simp]: "length (iso_date n) = 10"
  by (simp add: iso_date_def split: prod.splits)

lemma read_iso_date:
  assumes "0 \<le> n" "n < MAX_DAYS"
  shows "read_date (iso_date n) = Some n"
proof -
  obtain y m d where dt: "date_of n = (y, m, d)" by (cases "date_of n") auto
  note b = date_bounds [OF assms dt] and s = date_of_spec [OF assms dt]
  have e: "iso_date n = pad 4 (nat y) @ ''-'' @ pad 2 m @ ''-'' @ pad 2 (nat d)" by (simp add: iso_date_def dt)
  have f: "read_nat (take 4 (iso_date n)) = Some (nat y)" "read_nat (take 2 (drop 5 (iso_date n))) = Some m"
    "read_nat (drop 8 (iso_date n)) = Some (nat d)" "iso_date n ! 4 = CHR ''-''" "iso_date n ! 7 = CHR ''-''"
    using b unfolding e by (simp_all add: read_pad nth_append del: pad.simps)
  show ?thesis using b s by (simp add: read_date_def f)
qed

lemma clock_length: "length (iso_clock t) = (if t mod 1000000 = 0 then 8 else 15)"
proof -
  have "0 \<le> t mod 1000000" by simp
  then have "nat (t mod 1000000) = 0 \<longleftrightarrow> t mod 1000000 = 0" by linarith
  then show ?thesis by (simp add: iso_clock_def Let_def del: pad.simps)
qed

lemma clock_split:
  assumes "0 \<le> t" "s = nat (t div 1000000)" "f = nat (t mod 1000000)"
  shows "micros (s div 3600) (s div 60 mod 60) (s mod 60) f = t"
proof -
  have "s div 60 div 60 * 60 + s div 60 mod 60 = s div 60" "s div 60 * 60 + s mod 60 = s" by simp_all
  moreover have "s div 3600 = s div 60 div 60" by (simp add: div_mult2_eq [symmetric])
  ultimately have "(s div 3600 * 60 + s div 60 mod 60) * 60 + s mod 60 = s" by simp
  then have "(int (s div 3600) * 60 + int (s div 60 mod 60)) * 60 + int (s mod 60) = int s"
    by (metis of_nat_add of_nat_mult of_nat_numeral)
  moreover have "0 \<le> t div 1000000" using assms(1) by (simp add: pos_imp_zdiv_nonneg_iff)
  ultimately show ?thesis using assms by (simp add: micros_def)
qed

lemma read_iso_clock:
  assumes "0 \<le> t" "t < DAY"
  shows "read_clock (iso_clock t) = Some t"
proof -
  define s f where "s = nat (t div 1000000)" and "f = nat (t mod 1000000)"
  have b: "s div 3600 < 24" "s div 60 mod 60 < 60" "s mod 60 < 60" "f < 1000000"
    using assms by (auto simp: s_def f_def DAY_def)
  have e: "iso_clock t = pad 2 (s div 3600) @ '':'' @ pad 2 (s div 60 mod 60) @ '':'' @ pad 2 (s mod 60)
     @ (if f = 0 then [] else ''.'' @ pad 6 f)" by (simp add: iso_clock_def s_def f_def Let_def)
  have h: "read_nat (take 2 (iso_clock t)) = Some (s div 3600)"
    "read_field (iso_clock t) 2 (CHR '':'') = Some (s div 60 mod 60)"
    "read_field (iso_clock t) 5 (CHR '':'') = Some (s mod 60)" "read_fraction (iso_clock t) = Some f"
    "length (iso_clock t) \<in> {2, 5, 8, 12, 15}"
    using b unfolding e by (simp_all add: read_pad read_field_def read_fraction_def nth_append del: pad.simps)
  show ?thesis using b clock_split [OF assms(1) s_def f_def] by (simp add: read_clock_def read_time_def h del: insert_iff)
qed

lemma pad_plain: "c \<in> set (pad k n) \<Longrightarrow> is_digit c"
  using pad_digits by (auto simp: list_all_iff)

lemma digit_plain: "is_digit c \<Longrightarrow> \<not> is_sign c \<and> c \<noteq> CHR ''Z''"
  by (auto simp: is_digit_def is_sign_def)

lemma clock_plain: "c \<in> set (iso_clock t) \<Longrightarrow> \<not> is_sign c \<and> c \<noteq> CHR ''Z''"
  by (auto simp: iso_clock_def Let_def is_sign_def dest!: pad_plain digit_plain simp del: pad.simps split: if_splits)

lemma date_plain: "c \<in> set (iso_date n) \<Longrightarrow> c \<noteq> CHR ''Z''"
  by (auto simp: iso_date_def dest!: pad_plain digit_plain simp del: pad.simps split: prod.splits)

lemma split_clock:
  "takeWhile (\<lambda>c. \<not> is_sign c) (iso_clock t @ CHR ''+'' # z) = iso_clock t"
  "dropWhile (\<lambda>c. \<not> is_sign c) (iso_clock t @ CHR ''+'' # z) = CHR ''+'' # z"
  using clock_plain by (simp_all add: takeWhile_append2 dropWhile_append2 is_sign_def)

lemma read_offset_utc: "read_offset ''+00:00'' = Some 0"
  by code_simp

lemma instant_parts:
  assumes "instant t"
  shows "0 \<le> t div DAY" "t div DAY < MAX_DAYS" "0 \<le> t mod DAY" "t mod DAY < DAY" "t div DAY * DAY + t mod DAY = t"
proof -
  have d: "0 < DAY" by (simp add: DAY_def)
  show "0 \<le> t div DAY" using assms d by (simp add: instant_def pos_imp_zdiv_nonneg_iff)
  have "t div DAY * DAY \<le> t" using d minus_mod_eq_div_mult [of t DAY] pos_mod_sign [of DAY t] by linarith
  then have "t div DAY * DAY < MAX_DAYS * DAY" using assms by (simp add: instant_def)
  then show "t div DAY < MAX_DAYS" using d by simp
  show "0 \<le> t mod DAY" "t mod DAY < DAY" "t div DAY * DAY + t mod DAY = t" using d by simp_all
qed

lemma utc_of_iso:
  assumes "instant t"
  shows "utc_of (iso t) = Inr t"
proof -
  note p = instant_parts [OF assms]
  have e: "iso t = iso_date (t div DAY) @ CHR ''T'' # iso_clock (t mod DAY) @ CHR ''+'' # ''00:00''" by (simp add: iso_def)
  have "from_iso (iso t) = Some (t, Some 0)"
    unfolding from_iso_def Let_def e
    by (simp add: read_iso_date [OF p(1,2)] split_clock read_iso_clock [OF p(3,4)] read_offset_utc p(5))
  with assms show ?thesis by (simp add: utc_of_def instant_def)
qed

lemma z_plain: "\<forall>c \<in> set s. c \<noteq> CHR ''Z'' \<Longrightarrow> z_to_utc s = s"
  by (induction s) (simp_all add: z_to_utc_def)

lemma z_to_utc_append: "z_to_utc (a @ b) = z_to_utc a @ z_to_utc b"
  by (simp add: z_to_utc_def)

lemma z_to_utc_iso: "z_to_utc (iso t) = iso t" "z_to_utc (iso_z t) = iso t"
proof -
  have "z_to_utc (iso_date n) = iso_date n" "z_to_utc (iso_clock m) = iso_clock m" for n m
    using date_plain clock_plain by (metis z_plain)+
  then show "z_to_utc (iso t) = iso t" "z_to_utc (iso_z t) = iso t"
    by (simp_all add: iso_def iso_z_def z_to_utc_append) (simp_all add: z_to_utc_def)
qed

lemma utc_of_z: "instant t \<Longrightarrow> utc_of (z_to_utc (iso_z t)) = Inr t" "instant t \<Longrightarrow> utc_of (z_to_utc (iso t)) = Inr t"
  by (simp_all add: z_to_utc_iso utc_of_iso)

end
