(* ===== verification/Effects.thy ===== *)
theory Effects
  imports Timestamps
begin

section \<open>Methods with effects\<close>

text \<open>
  A method that changes the object it belongs to before it may raise returns its outcome together with the
  next state: an exception does not undo what was already written. The combinators sequence such methods, and
  \<open>meets P m Q E\<close> is the contract of one: from a state with \<open>P\<close> it returns a value in \<open>Q\<close> or raises in
  \<open>E\<close>. The locale \<open>effectful\<close> is the interface of an object whose methods all keep an invariant, whether
  they return or raise.
\<close>

type_synonym ('s, 'a) act = "'s \<Rightarrow> (py_error + 'a) \<times> 's"

definition ret :: "'a \<Rightarrow> ('s, 'a) act" where
  "ret x s = (Inr x, s)"

definition fail :: "py_error \<Rightarrow> ('s, 'a) act" where
  "fail e s = (Inl e, s)"

definition then_do :: "('s, 'a) act \<Rightarrow> ('a \<Rightarrow> ('s, 'b) act) \<Rightarrow> ('s, 'b) act" where
  "then_do m f s = (case m s of (Inl e, t) \<Rightarrow> (Inl e, t) | (Inr x, t) \<Rightarrow> f x t)"

definition check :: "bool \<Rightarrow> py_error \<Rightarrow> ('s, 'a) act \<Rightarrow> ('s, 'a) act" where
  "check b e m = (if b then m else fail e)"

definition lift :: "py_error + 'a \<Rightarrow> ('s, 'a) act" where
  "lift r s = (r, s)"

definition reads :: "('s \<Rightarrow> 'a) \<Rightarrow> ('s, 'a) act" where
  "reads f s = (Inr (f s), s)"

definition modify :: "('s \<Rightarrow> 's) \<Rightarrow> ('s, unit) act" where
  "modify f s = (Inr (), f s)"

text \<open>A loop that counts.\<close>

fun count_do :: "('a \<Rightarrow> ('s, int) act) \<Rightarrow> 'a list \<Rightarrow> ('s, int) act" where
  "count_do f [] = ret 0"
| "count_do f (x # xs) = then_do (f x) (\<lambda>n. then_do (count_do f xs) (\<lambda>k. ret (n + k)))"

subsection \<open>Contracts\<close>

definition meets :: "('s \<Rightarrow> bool) \<Rightarrow> ('s, 'a) act \<Rightarrow> ('a \<Rightarrow> 's \<Rightarrow> bool) \<Rightarrow> (py_error \<Rightarrow> 's \<Rightarrow> bool) \<Rightarrow> bool" where
  "meets P m Q E \<longleftrightarrow> (\<forall>s. P s \<longrightarrow> (case m s of (Inr x, t) \<Rightarrow> Q x t | (Inl e, t) \<Rightarrow> E e t))"

named_theorems meets_rules \<open>contracts of the combinators\<close>

lemma meets_ret [meets_rules]: "(\<And>s. P s \<Longrightarrow> Q x s) \<Longrightarrow> meets P (ret x) Q E"
  by (simp add: meets_def ret_def)

lemma meets_fail [meets_rules]: "(\<And>s. P s \<Longrightarrow> E e s) \<Longrightarrow> meets P (fail e) Q E"
  by (simp add: meets_def fail_def)

lemma meets_then [meets_rules]:
  assumes "meets P m R E" "\<And>x. meets (R x) (f x) Q E"
  shows "meets P (then_do m f) Q E"
  unfolding meets_def
proof (intro allI impI)
  fix s assume s: "P s"
  obtain r t where m: "m s = (r, t)" by (cases "m s")
  show "case then_do m f s of (Inr x, t) \<Rightarrow> Q x t | (Inl e, t) \<Rightarrow> E e t"
  proof (cases r)
    case (Inl e)
    with s m assms(1) show ?thesis by (auto simp: meets_def then_do_def)
  next
    case (Inr x)
    with s m assms(1) have "R x t" by (auto simp: meets_def)
    with assms(2) [of x] m Inr show ?thesis by (simp add: meets_def then_do_def)
  qed
qed

lemma meets_check [meets_rules]:
  "(b \<Longrightarrow> meets P m Q E) \<Longrightarrow> (\<And>s. \<not> b \<Longrightarrow> P s \<Longrightarrow> E e s) \<Longrightarrow> meets P (check b e m) Q E"
  by (simp add: check_def meets_def fail_def)

lemma meets_lift [meets_rules]:
  "(\<And>x s. r = Inr x \<Longrightarrow> P s \<Longrightarrow> Q x s) \<Longrightarrow> (\<And>e s. r = Inl e \<Longrightarrow> P s \<Longrightarrow> E e s) \<Longrightarrow> meets P (lift r) Q E"
  by (cases r) (simp_all add: meets_def lift_def)

lemma meets_reads [meets_rules]: "(\<And>s. P s \<Longrightarrow> Q (f s) s) \<Longrightarrow> meets P (reads f) Q E"
  by (simp add: meets_def reads_def)

lemma meets_modify [meets_rules]: "(\<And>s. P s \<Longrightarrow> Q () (f s)) \<Longrightarrow> meets P (modify f) Q E"
  by (simp add: meets_def modify_def)

text \<open>A read remembers what it read.\<close>

lemma meets_reads_then:
  "(\<And>x. meets (\<lambda>s. P s \<and> f s = x) (g x) Q E) \<Longrightarrow> meets P (then_do (reads f) g) Q E"
  by (simp add: meets_def then_do_def reads_def)

lemma meets_modify_then:
  "(\<And>s. P s \<Longrightarrow> R (f s)) \<Longrightarrow> meets R (g ()) Q E \<Longrightarrow> meets P (then_do (modify f) g) Q E"
  by (simp add: meets_def then_do_def modify_def)

lemma meets_lift_then:
  "(\<And>x. r = Inr x \<Longrightarrow> meets P (g x) Q E) \<Longrightarrow> (\<And>e s. r = Inl e \<Longrightarrow> P s \<Longrightarrow> E e s) \<Longrightarrow> meets P (then_do (lift r) g) Q E"
  by (cases r) (simp_all add: meets_def then_do_def lift_def)

lemma meets_option:
  "(x = None \<Longrightarrow> meets P m Q E) \<Longrightarrow> (\<And>y. x = Some y \<Longrightarrow> meets P (f y) Q E) \<Longrightarrow> meets P (case_option m f x) Q E"
  by (cases x) simp_all

lemma meets_if: "(b \<Longrightarrow> meets P m Q E) \<Longrightarrow> (\<not> b \<Longrightarrow> meets P n Q E) \<Longrightarrow> meets P (if b then m else n) Q E"
  by simp

lemmas meets_steps = meets_reads_then meets_modify_then meets_lift_then meets_option meets_if meets_check

lemma meets_count:
  "(\<And>x. x \<in> set xs \<Longrightarrow> meets P (f x) (\<lambda>_. P) (\<lambda>_. P)) \<Longrightarrow> meets P (count_do f xs) (\<lambda>_. P) (\<lambda>_. P)"
  by (induction xs) (auto intro!: meets_rules)

lemma meets_weaken:
  "meets P m Q E \<Longrightarrow> (\<And>s. P' s \<Longrightarrow> P s) \<Longrightarrow> (\<And>x s. Q x s \<Longrightarrow> Q' x s) \<Longrightarrow> (\<And>e s. E e s \<Longrightarrow> E' e s) \<Longrightarrow> meets P' m Q' E'"
  by (fastforce simp: meets_def split: prod.splits sum.splits)

lemma meets_pure: "(b \<Longrightarrow> meets P m Q E) \<Longrightarrow> meets (\<lambda>s. P s \<and> b) m Q E"
  by (auto simp: meets_def)

lemma meetsD: "meets P m Q E \<Longrightarrow> P s \<Longrightarrow> m s = (Inr x, t) \<Longrightarrow> Q x t"
  by (auto simp: meets_def)

lemma meetsD_raises: "meets P m Q E \<Longrightarrow> P s \<Longrightarrow> m s = (Inl e, t) \<Longrightarrow> E e t"
  by (auto simp: meets_def)

text \<open>An invariant kept whether the method returns or raises.\<close>

abbreviation keeps :: "('s \<Rightarrow> bool) \<Rightarrow> ('s, 'a) act \<Rightarrow> bool" where
  "keeps P m \<equiv> meets P m (\<lambda>_. P) (\<lambda>_. P)"

lemma keeps_snd: "keeps P m \<Longrightarrow> P s \<Longrightarrow> P (snd (m s))"
  by (cases "m s", cases "fst (m s)") (auto simp: meets_def)

lemma keeps_iff: "keeps P m \<longleftrightarrow> (\<forall>s. P s \<longrightarrow> P (snd (m s)))"
  unfolding meets_def
proof (intro iff_allI imp_cong refl)
  fix s
  show "(case m s of (Inr x, t) \<Rightarrow> P t | (Inl e, t) \<Rightarrow> P t) \<longleftrightarrow> P (snd (m s))"
    by (cases "m s", cases "fst (m s)") auto
qed

subsection \<open>Outcomes\<close>

named_theorems act_simps \<open>outcomes of the combinators\<close>

lemma then_do_Inr [act_simps]: "then_do m f s = (Inr y, t) \<longleftrightarrow> (\<exists>x u. m s = (Inr x, u) \<and> f x u = (Inr y, t))"
  by (auto simp: then_do_def split: prod.splits sum.splits)

lemma then_do_Inl [act_simps]:
  "then_do m f s = (Inl e, t) \<longleftrightarrow> m s = (Inl e, t) \<or> (\<exists>x u. m s = (Inr x, u) \<and> f x u = (Inl e, t))"
  by (auto simp: then_do_def split: prod.splits sum.splits)

lemma check_Inr [act_simps]: "check b e m s = (Inr y, t) \<longleftrightarrow> b \<and> m s = (Inr y, t)"
  by (simp add: check_def fail_def)

lemma check_Inl [act_simps]: "check b e m s = (Inl e', t) \<longleftrightarrow> (\<not> b \<and> e' = e \<and> t = s) \<or> (b \<and> m s = (Inl e', t))"
  by (auto simp: check_def fail_def)

lemma ret_outcome [act_simps]: "ret x s = (r, t) \<longleftrightarrow> r = Inr x \<and> t = s"
  by (auto simp: ret_def)

lemma fail_outcome [act_simps]: "fail e s = (r, t) \<longleftrightarrow> r = Inl e \<and> t = s"
  by (auto simp: fail_def)

lemma lift_outcome [act_simps]: "lift q s = (r, t) \<longleftrightarrow> r = q \<and> t = s"
  by (auto simp: lift_def)

lemma reads_outcome [act_simps]: "reads f s = (r, t) \<longleftrightarrow> r = Inr (f s) \<and> t = s"
  by (auto simp: reads_def)

lemma modify_outcome [act_simps]: "modify g s = (r, t) \<longleftrightarrow> r = Inr () \<and> t = g s"
  by (auto simp: modify_def)

lemma then_do_simps [simp]:
  "m s = (Inr x, t) \<Longrightarrow> then_do m f s = f x t" "m s = (Inl e, t) \<Longrightarrow> then_do m f s = (Inl e, t)"
  by (simp_all add: then_do_def)

lemma check_simps [simp]: "check True e m = m" "check False e m = fail e"
  by (simp_all add: check_def)

subsection \<open>The interface\<close>

locale effectful =
  fixes step :: "'s \<Rightarrow> 'c \<Rightarrow> 's" and inv :: "'s \<Rightarrow> bool"
  assumes step_keeps: "inv s \<Longrightarrow> inv (step s c)"
begin

fun run :: "'s \<Rightarrow> 'c list \<Rightarrow> 's" where
  "run s [] = s"
| "run s (c # cs) = run (step s c) cs"

lemma run_keeps: "inv s \<Longrightarrow> inv (run s cs)"
  by (induction cs arbitrary: s) (auto intro: step_keeps)

lemma run_append: "run s (cs @ ds) = run (run s cs) ds"
  by (induction cs arbitrary: s) auto

text \<open>A relation that every step of some kind satisfies, and that composes, holds along a run of such steps.\<close>

lemma run_rel:
  assumes "\<And>s c. inv s \<Longrightarrow> ok c \<Longrightarrow> R s (step s c)" "\<And>s. R s s" "\<And>a b c. R a b \<Longrightarrow> R b c \<Longrightarrow> R a c"
    "inv s" "\<forall>c \<in> set cs. ok c"
  shows "R s (run s cs)"
  using assms(4,5)
proof (induction cs arbitrary: s)
  case (Cons c cs)
  then have "R (step s c) (run (step s c) cs)" by (intro Cons.IH) (auto intro: step_keeps)
  moreover have "R s (step s c)" using Cons.prems by (intro assms(1)) auto
  ultimately show ?case using assms(3) by (metis run.simps(2))
qed (simp add: assms(2))

end

text \<open>A guarded machine is one: a rejected command leaves the state.\<close>

sublocale guarded_machine \<subseteq> attempts: effectful attempt inv
  by unfold_locales (rule attempt_inv)

end
