(* ===== verification/Task_Orders.thy ===== *)
theory Task_Orders
  imports Effects Crypto
begin

section \<open>Task orders\<close>

text \<open>
  \<open>src/rynmesh/llm_package/task_protocol.py\<close>: the durable records of private AI tasks. \<open>task_store\<close> holds the
  files of the directory (one record per task id) and the memory cache of encrypted responses; \<open>task\<close> is a
  record with its optional keys. A method that raises has changed what it changed before: in memory mode
  \<open>_write\<close> caches the response first. The surroundings of a call are in \<open>task_env\<close>: the UTC clock and the
  monotonic clock in microseconds, whether the disk has its free reserve, and the length of the JSON text of a
  record. Files are what the store itself wrote, so they read back as records; the lock makes methods atomic.
  The timer of the cache only prunes expired entries, which every read does first as well.
\<close>

definition TERMINAL_STATES :: "string list" where
  "TERMINAL_STATES = [''succeeded'', ''failed'', ''timed_out'', ''cancelled'', ''rejected'']"

definition ALL_STATES :: "string list" where
  "ALL_STATES = [''created'', ''accepted'', ''running''] @ TERMINAL_STATES"

definition ALLOWED_TRANSITIONS :: "(string, string list) dict" where
  "ALLOWED_TRANSITIONS = [(''created'', [''accepted'', ''failed'', ''timed_out'', ''cancelled'', ''rejected'']),
     (''accepted'', [''running'', ''failed'', ''timed_out'', ''cancelled'', ''rejected'']),
     (''running'', [''succeeded'', ''failed'', ''timed_out'', ''cancelled'', ''rejected''])]"

definition UNACKNOWLEDGED_SUCCESS_GRACE :: int where "UNACKNOWLEDGED_SUCCESS_GRACE = 7 * DAY"

record task =
  tr_id :: string
  tr_state :: string
  tr_bindings :: "(string, string) dict option"
  tr_created_at :: string
  tr_updated_at :: string
  tr_history :: "json list"
  tr_response :: "json option"
  tr_purged_at :: "string option"
  tr_acknowledged_at :: "string option"

record task_store =
  ts_files :: "(string, task) dict"
  ts_memory :: bool
  ts_responses :: "(string, int \<times> json) dict"

record task_env =
  en_now :: int
  en_mono :: int
  en_disk :: bool
  en_bytes :: "task \<Rightarrow> int"

type_synonym 'a task_act = "(task_store, 'a) act"

subsection \<open>The age of a success\<close>

definition parse_time :: "json \<Rightarrow> py_error + int" where
  "parse_time j = utc_of (z_to_utc (py_str j))"

definition is_success :: "json \<Rightarrow> bool" where
  "is_success item \<longleftrightarrow> jfield ''state'' item = JStr ''succeeded'' \<and> truthy (jfield ''at'' item) \<and> \<not> truthy (jfield ''checkpoint'' item)"

text \<open>\<open>_awaiting_archive\<close>: a parse failure means no; an instant outside the calendar raises.\<close>

definition awaiting_archive :: "task \<Rightarrow> int \<Rightarrow> py_error + bool" where
  "awaiting_archive r now =
     (if tr_state r \<noteq> ''succeeded'' then Inr False
      else if (case tr_acknowledged_at r of None \<Rightarrow> False | Some a \<Rightarrow> a \<noteq> []) then Inr False
      else if (case tr_response r of None \<Rightarrow> True | Some x \<Rightarrow> \<not> truthy x) then Inr False
      else case find is_success (rev (tr_history r)) of
        None \<Rightarrow> Inr False
      | Some item \<Rightarrow> (case parse_time (jfield ''at'' item) of
          Inr completed \<Rightarrow> Inr (now - completed < UNACKNOWLEDGED_SUCCESS_GRACE)
        | Inl OverflowError \<Rightarrow> Inl OverflowError
        | Inl _ \<Rightarrow> Inr False))"

subsection \<open>Files and cache\<close>

definition id_char :: "char \<Rightarrow> bool" where
  "id_char c \<longleftrightarrow> (let n = of_char c :: nat in 97 \<le> n \<and> n \<le> 122 \<or> 65 \<le> n \<and> n \<le> 90 \<or> 48 \<le> n \<and> n \<le> 57)
     \<or> c = CHR ''-'' \<or> c = CHR ''_''"

definition valid_task_id :: "string \<Rightarrow> bool" where
  "valid_task_id t \<longleftrightarrow> t \<noteq> [] \<and> length t \<le> 128 \<and> list_all id_char t"

abbreviation bad_id :: py_error where "bad_id \<equiv> Raised ''invalid task id''"

definition prune_responses :: "task_env \<Rightarrow> task_store \<Rightarrow> task_store" where
  "prune_responses env s = s\<lparr>ts_responses := filter (\<lambda>(_, expires, _). en_mono env < expires) (ts_responses s)\<rparr>"

definition read_task :: "task_env \<Rightarrow> string \<Rightarrow> task option task_act" where
  "read_task env t =
     check (valid_task_id t) bad_id (
     then_do (reads (\<lambda>s. map_of (ts_files s) t)) (\<lambda>found. case found of None \<Rightarrow> ret None
       | Some r \<Rightarrow>
           then_do (modify (prune_responses env)) (\<lambda>_.
           reads (\<lambda>s. Some (case map_of (ts_responses s) t of None \<Rightarrow> r | Some (_, x) \<Rightarrow> r\<lparr>tr_response := Some x\<rparr>)))))"

text \<open>The first event and the last 63.\<close>

definition trim_history :: "json list \<Rightarrow> json list" where
  "trim_history h = (if 64 < length h then hd h # drop (length h - 63) h else h)"

definition cache_response :: "task_env \<Rightarrow> string \<Rightarrow> json \<Rightarrow> task_store \<Rightarrow> task_store" where
  "cache_response env t x s =
     (let s = prune_responses env s;
          cached = (if 8 \<le> length (ts_responses s) \<and> map_of (ts_responses s) t = None
                    then tl (ts_responses s) else ts_responses s) in
      s\<lparr>ts_responses := dict_put t (en_mono env + 60 * 1000000, x) cached\<rparr>)"

definition write_task :: "task_env \<Rightarrow> task \<Rightarrow> unit task_act" where
  "write_task env r =
     then_do (reads ts_memory) (\<lambda>memory.
     then_do (modify (\<lambda>s. if memory then (case tr_response r of None \<Rightarrow> s | Some x \<Rightarrow> cache_response env (tr_id r) x s) else s)) (\<lambda>_.
     let stored = (if memory then r\<lparr>tr_response := None\<rparr> else r);
         stored = stored\<lparr>tr_history := trim_history (tr_history r)\<rparr> in
     check (valid_task_id (tr_id r)) bad_id (
     check (en_bytes env stored \<le> 16 * 1024 * 1024) (Raised ''task record size limit exceeded'') (
     check (en_disk env) (Raised ''provider_disk_reserve_reached'') (
     modify (\<lambda>s. s\<lparr>ts_files := dict_put (tr_id r) stored (ts_files s)\<rparr>))))))"

subsection \<open>Methods\<close>

text \<open>Python's equality of two dicts.\<close>

definition same_dict :: "('k, 'v) dict \<Rightarrow> ('k, 'v) dict \<Rightarrow> bool" where
  "same_dict a b \<longleftrightarrow> list_all (\<lambda>k. map_of a k = map_of b k) (map fst a @ map fst b)"

definition event :: "string \<Rightarrow> json" where
  "event now = JObj [(''state'', JStr ''created''), (''at'', JStr now)]"

definition claim :: "task_env \<Rightarrow> string \<Rightarrow> (string, string) dict \<Rightarrow> (task \<times> bool) task_act" where
  "claim env t bindings =
     check (bindings \<noteq> [] \<and> list_all (\<lambda>v. v \<noteq> []) (dict_vals bindings)) (Raised ''task bindings must be non-empty strings'') (
     check (list_all (\<lambda>v. length v \<le> 4096) (dict_vals bindings)) (Raised ''task binding exceeds limit'') (
     then_do (read_task env t) (\<lambda>existing. case existing of
       Some r \<Rightarrow> check (same_dict (case tr_bindings r of None \<Rightarrow> [] | Some b \<Rightarrow> b) bindings)
           (Raised ''task idempotency conflict'') (ret (r, False))
     | None \<Rightarrow>
         then_do (reads (\<lambda>s. length (ts_files s))) (\<lambda>n.
         check (n < 10000) (Raised ''task_record_limit_reached'') (
         let now = iso (en_now env);
             r = \<lparr>tr_id = t, tr_state = ''created'', tr_bindings = Some bindings, tr_created_at = now, tr_updated_at = now,
                  tr_history = [event now], tr_response = None, tr_purged_at = None, tr_acknowledged_at = None\<rparr> in
         then_do (write_task env r) (\<lambda>_. ret (r, True)))))))"

definition merge_into :: "(string, json) dict \<Rightarrow> (string, json) dict \<Rightarrow> (string, json) dict" where
  "merge_into d e = fold (\<lambda>(k, v). dict_put k v) e d"

definition forbidden :: "string list" where
  "forbidden = [''prompt'', ''response'', ''text'', ''messages'', ''context'', ''api_key'', ''model_path'']"

definition clean_event :: "(string, json) dict \<Rightarrow> bool" where
  "clean_event e \<longleftrightarrow> (\<forall>k \<in> set forbidden. map_of e k = None)"

abbreviation leaky :: py_error where
  "leaky \<equiv> Raised ''task metadata contains a forbidden body/secret field''"

definition add_event :: "(string, json) dict \<Rightarrow> json option \<Rightarrow> task \<Rightarrow> task" where
  "add_event e response r = r\<lparr>tr_history := tr_history r @ [JObj e],
     tr_response := (case response of None \<Rightarrow> tr_response r | Some x \<Rightarrow> Some x)\<rparr>"

definition recovers :: "bool \<Rightarrow> string \<Rightarrow> string \<Rightarrow> bool" where
  "recovers allow_recovery current state \<longleftrightarrow>
     allow_recovery \<and> (current = ''failed'' \<or> current = ''timed_out'') \<and> state = ''succeeded''"

text \<open>The step of an existing record to another state.\<close>

definition move :: "task_env \<Rightarrow> task \<Rightarrow> string \<Rightarrow> (string, json) dict \<Rightarrow> json option \<Rightarrow> bool \<Rightarrow> task task_act" where
  "move env r state metadata response recovery =
     (let now = iso (en_now env);
          e = merge_into [(''state'', JStr state), (''at'', JStr now)] metadata;
          e = (if recovery then dict_put ''recovered_after_reconnect'' (JBool True) e else e) in
      check (clean_event e) leaky (
      let r = add_event e response (r\<lparr>tr_state := state, tr_updated_at := now\<rparr>) in
      then_do (write_task env r) (\<lambda>_. ret r)))"

definition transition :: "task_env \<Rightarrow> string \<Rightarrow> string \<Rightarrow> (string, json) dict \<Rightarrow> json option \<Rightarrow> bool \<Rightarrow> task task_act" where
  "transition env t state metadata response allow_recovery =
     check (state \<in> set ALL_STATES) (Raised ''invalid task state'') (
     then_do (read_task env t) (\<lambda>found. case found of
       None \<Rightarrow>
         check (state = ''created'') (Raised ''task must be created before transitioning'') (
         let now = iso (en_now env);
             e = merge_into [(''state'', JStr ''created''), (''at'', JStr now)] metadata;
             r = \<lparr>tr_id = t, tr_state = ''created'', tr_bindings = None, tr_created_at = now, tr_updated_at = now,
                  tr_history = [JObj e], tr_response = None, tr_purged_at = None, tr_acknowledged_at = None\<rparr> in
         then_do (write_task env r) (\<lambda>_. ret r))
     | Some r \<Rightarrow>
         let recovery = recovers allow_recovery (tr_state r) state in
         if tr_state r \<in> set TERMINAL_STATES \<and> \<not> recovery then ret r
         else if state = tr_state r then ret r
         else check (recovery \<or> (case map_of ALLOWED_TRANSITIONS (tr_state r) of None \<Rightarrow> False | Some ss \<Rightarrow> state \<in> set ss))
           (Raised ''invalid task transition'') (move env r state metadata response recovery)))"

definition checkpoint :: "task_env \<Rightarrow> string \<Rightarrow> (string, json) dict \<Rightarrow> json option \<Rightarrow> task task_act" where
  "checkpoint env t metadata response =
     then_do (read_task env t) (\<lambda>found. case found of
       None \<Rightarrow> fail (Raised ''task must exist before checkpointing'')
     | Some r \<Rightarrow>
         let now = iso (en_now env);
             e = merge_into [(''state'', JStr (if tr_state r = [] then ''created'' else tr_state r)), (''at'', JStr now),
                   (''checkpoint'', JBool True)] metadata in
         check (clean_event e) leaky (
         let r = add_event e response (r\<lparr>tr_updated_at := now\<rparr>) in
         then_do (write_task env r) (\<lambda>_. ret r)))"

text \<open>\<open>sorted(root.glob("*.json"))\<close>.\<close>

definition stems :: "task_store \<Rightarrow> string list" where
  "stems s = sort_key (\<lambda>t. t @ ''.json'') (map fst (ts_files s))"

fun list_from :: "task_env \<Rightarrow> string list \<Rightarrow> task list task_act" where
  "list_from env [] = ret []"
| "list_from env (t # ts) =
     then_do (read_task env t) (\<lambda>found. then_do (list_from env ts) (\<lambda>rest.
     ret (case found of None \<Rightarrow> rest | Some r \<Rightarrow> r\<lparr>tr_response := None\<rparr> # rest)))"

definition list_tasks :: "task_env \<Rightarrow> task list task_act" where
  "list_tasks env = then_do (reads stems) (list_from env)"

definition purge_response :: "task_env \<Rightarrow> string \<Rightarrow> bool task_act" where
  "purge_response env t =
     then_do (read_task env t) (\<lambda>found. case found of None \<Rightarrow> ret False
     | Some r \<Rightarrow>
         if tr_response r = None then ret False
         else
           then_do (modify (\<lambda>s. s\<lparr>ts_responses := dict_del t (ts_responses s)\<rparr>)) (\<lambda>_.
           then_do (write_task env (r\<lparr>tr_response := None, tr_purged_at := Some (iso (en_now env))\<rparr>)) (\<lambda>_. ret True)))"

definition purge_count :: "task_env \<Rightarrow> string \<Rightarrow> int task_act" where
  "purge_count env t = then_do (purge_response env t) (\<lambda>b. ret (if b then 1 else 0))"

definition use_memory_responses :: "task_env \<Rightarrow> unit task_act" where
  "use_memory_responses env =
     then_do (reads ts_memory) (\<lambda>memory. if memory then ret ()
     else
       then_do (list_tasks env) (\<lambda>rs.
       then_do (count_do (purge_count env) (map tr_id rs)) (\<lambda>_. modify (\<lambda>s. s\<lparr>ts_memory := True\<rparr>))))"

definition mark_acknowledged :: "task_env \<Rightarrow> string \<Rightarrow> bool task_act" where
  "mark_acknowledged env t =
     then_do (read_task env t) (\<lambda>found. case found of None \<Rightarrow> ret False
     | Some r \<Rightarrow> then_do (write_task env (r\<lparr>tr_acknowledged_at := Some (iso (en_now env))\<rparr>)) (\<lambda>_. ret True))"

definition delete_task :: "string \<Rightarrow> bool task_act" where
  "delete_task t =
     check (valid_task_id t) bad_id (
     then_do (reads (\<lambda>s. map_of (ts_files s) t)) (\<lambda>found. case found of None \<Rightarrow> ret False
     | Some _ \<Rightarrow> then_do (modify (\<lambda>s. s\<lparr>ts_files := dict_del t (ts_files s), ts_responses := dict_del t (ts_responses s)\<rparr>))
         (\<lambda>_. ret True)))"

text \<open>One record of \<open>purge_expired_responses\<close>: the newest event that carries an expiry decides.\<close>

definition purge_if_expired :: "task_env \<Rightarrow> string \<Rightarrow> int task_act" where
  "purge_if_expired env t =
     then_do (read_task env t) (\<lambda>found. case found of None \<Rightarrow> ret 0
     | Some r \<Rightarrow>
         then_do (lift (awaiting_archive r (en_now env))) (\<lambda>kept.
         if kept then ret 0
         else case find (\<lambda>item. truthy (jfield ''response_expires_at'' item)) (rev (tr_history r)) of
           None \<Rightarrow> ret 0
         | Some item \<Rightarrow> (case parse_time (jfield ''response_expires_at'' item) of
             Inr expires \<Rightarrow> if expires \<le> en_now env then purge_count env (tr_id r) else ret 0
           | Inl OverflowError \<Rightarrow> fail OverflowError
           | Inl _ \<Rightarrow> purge_count env (tr_id r))))"

definition purge_expired_responses :: "task_env \<Rightarrow> int task_act" where
  "purge_expired_responses env = then_do (reads stems) (count_do (purge_if_expired env))"

definition prune_if_old :: "task_env \<Rightarrow> int \<Rightarrow> string \<Rightarrow> int task_act" where
  "prune_if_old env boundary t =
     then_do (read_task env t) (\<lambda>found. case found of None \<Rightarrow> ret 0
     | Some r \<Rightarrow>
         if tr_state r \<notin> set TERMINAL_STATES then ret 0
         else
           then_do (case parse_time (JStr (tr_updated_at r)) of Inr u \<Rightarrow> ret u
             | Inl OverflowError \<Rightarrow> fail OverflowError | Inl _ \<Rightarrow> ret 0) (\<lambda>updated.
           if updated \<le> boundary then then_do (modify (\<lambda>s. s\<lparr>ts_files := dict_del t (ts_files s)\<rparr>)) (\<lambda>_. ret 1)
           else ret 0))"

definition prune_terminal :: "task_env \<Rightarrow> int \<Rightarrow> int task_act" where
  "prune_terminal env boundary = then_do (reads stems) (count_do (prune_if_old env boundary))"

end
