(* ===== verification/Task_Safety.thy ===== *)
theory Task_Safety
  imports Task_Orders
begin

section \<open>Task orders keep their shape\<close>

text \<open>
  What every method of the task store keeps: the shape of each record, and the way a record may change (\<open>follows\<close>).
\<close>

subsection \<open>The life cycle\<close>

definition task_edge :: "string \<Rightarrow> string \<Rightarrow> bool" where
  "task_edge a b \<longleftrightarrow> (\<exists>bs. map_of ALLOWED_TRANSITIONS a = Some bs \<and> b \<in> set bs) \<or> recovers True a b"

text \<open>What a later version of a record keeps of an earlier one.\<close>

definition follows :: "task \<Rightarrow> task \<Rightarrow> bool" where
  "follows r r' \<longleftrightarrow> task_edge\<^sup>*\<^sup>* (tr_state r) (tr_state r') \<and> tr_id r' = tr_id r \<and> tr_created_at r' = tr_created_at r
     \<and> tr_bindings r' = tr_bindings r \<and> hd (tr_history r') = hd (tr_history r)"

lemma follows_refl [simp]: "follows r r"
  by (simp add: follows_def)

lemma follows_trans: "follows a b \<Longrightarrow> follows b c \<Longrightarrow> follows a c"
  by (auto simp: follows_def)

definition final_state :: "string \<Rightarrow> bool" where
  "final_state a \<longleftrightarrow> a \<in> {''succeeded'', ''cancelled'', ''rejected''}"

lemma edge_final: "task_edge a b \<Longrightarrow> \<not> final_state a"
  by (auto simp: task_edge_def final_state_def ALLOWED_TRANSITIONS_def recovers_def)

lemma edges_final: "task_edge\<^sup>*\<^sup>* a b \<Longrightarrow> final_state a \<Longrightarrow> b = a"
  by (erule converse_rtranclpE) (auto dest: edge_final)

subsection \<open>The invariant of the store\<close>

definition task_ok :: "bool \<Rightarrow> string \<Rightarrow> task \<Rightarrow> bool" where
  "task_ok memory t r \<longleftrightarrow> valid_task_id t \<and> tr_id r = t \<and> tr_state r \<in> set ALL_STATES \<and> tr_history r \<noteq> []
     \<and> length (tr_history r) \<le> 64 \<and> (memory \<longrightarrow> tr_response r = None)"

definition store_ok :: "task_store \<Rightarrow> bool" where
  "store_ok s \<longleftrightarrow> dict_ok (ts_files s) \<and> dict_ok (ts_responses s) \<and> length (ts_responses s) \<le> 8
     \<and> (ts_memory s \<or> ts_responses s = []) \<and> (\<forall>t r. map_of (ts_files s) t = Some r \<longrightarrow> task_ok (ts_memory s) t r)"

text \<open>Every record of \<open>a\<close> is still in \<open>b\<close>, in a later version.\<close>

definition grows :: "task_store \<Rightarrow> task_store \<Rightarrow> bool" where
  "grows a b \<longleftrightarrow> (\<forall>t r. map_of (ts_files a) t = Some r \<longrightarrow> (\<exists>r'. map_of (ts_files b) t = Some r' \<and> follows r r'))"

lemma grows_refl [simp]: "grows a a"
  by (auto simp: grows_def)

lemma grows_trans: "grows a b \<Longrightarrow> grows b c \<Longrightarrow> grows a c"
  unfolding grows_def by (blast intro: follows_trans)

lemma grows_files: "ts_files b = ts_files b' \<Longrightarrow> grows a b \<longleftrightarrow> grows a b'"
  by (simp add: grows_def)

definition kept :: "task_store \<Rightarrow> task_store \<Rightarrow> bool" where
  "kept a s \<longleftrightarrow> store_ok s \<and> grows a s"

lemma trim_facts: "h \<noteq> [] \<Longrightarrow> trim_history h \<noteq> [] \<and> hd (trim_history h) = hd h \<and> length (trim_history h) \<le> 64"
  by (auto simp: trim_history_def)

lemma dict_ok_tl [simp]: "dict_ok d \<Longrightarrow> dict_ok (tl d)"
  by (cases d) auto

lemma prune_kept: "kept a s \<Longrightarrow> kept a (prune_responses env s)"
  by (auto simp: kept_def store_ok_def prune_responses_def grows_def intro: order_trans [OF length_filter_le])

lemma cache_kept:
  assumes "kept a s" "ts_memory s"
  shows "kept a (cache_response env t x s)"
proof -
  have "kept a (prune_responses env s)" by (rule prune_kept [OF assms(1)])
  then show ?thesis
    using assms(2)
    by (auto simp: kept_def store_ok_def cache_response_def Let_def grows_def length_put prune_responses_def)
qed

subsection \<open>Reading and writing\<close>

lemma read_kept:
  "meets (kept a) (read_task env t)
     (\<lambda>found s. kept a s \<and> valid_task_id t \<and> (case found of None \<Rightarrow> map_of (ts_files s) t = None
        | Some r \<Rightarrow> \<exists>old x. map_of (ts_files s) t = Some old \<and> r = old\<lparr>tr_response := x\<rparr>)) (\<lambda>_. kept a)"
  unfolding meets_def
proof (intro allI impI)
  fix s assume k: "kept a s"
  have p: "kept a (prune_responses env s)" by (rule prune_kept [OF k])
  have f: "ts_files (prune_responses env s) = ts_files s" by (simp add: prune_responses_def)
  have same: "\<exists>x. r = r\<lparr>tr_response := x\<rparr>" for r :: task by (rule exI [of _ "tr_response r"]) simp
  show "case read_task env t s of (Inr found, s) \<Rightarrow> kept a s \<and> valid_task_id t \<and> (case found of None \<Rightarrow> map_of (ts_files s) t = None
        | Some r \<Rightarrow> \<exists>old x. map_of (ts_files s) t = Some old \<and> r = old\<lparr>tr_response := x\<rparr>) | (Inl e, s) \<Rightarrow> kept a s"
  proof (cases "map_of (ts_files s) t")
    case None
    with k show ?thesis by (simp add: read_task_def then_do_def check_def reads_def ret_def fail_def)
  next
    case (Some r)
    with k p f same show ?thesis
      by (auto simp: read_task_def then_do_def check_def reads_def modify_def fail_def split: option.splits)
  qed
qed

definition fits :: "task \<Rightarrow> task_store \<Rightarrow> bool" where
  "fits r s \<longleftrightarrow> tr_state r \<in> set ALL_STATES \<and> tr_history r \<noteq> []
     \<and> (\<forall>old. map_of (ts_files s) (tr_id r) = Some old \<longrightarrow> follows old r)"

lemma put_kept:
  assumes k: "kept a s" and f: "fits r s" and v: "valid_task_id (tr_id r)"
    and x: "x = tr_response r \<or> x = None" "ts_memory s \<Longrightarrow> x = None"
  shows "kept a (s\<lparr>ts_files := dict_put (tr_id r) (r\<lparr>tr_response := x, tr_history := trim_history (tr_history r)\<rparr>) (ts_files s)\<rparr>)"
proof -
  let ?r = "r\<lparr>tr_response := x, tr_history := trim_history (tr_history r)\<rparr>"
  let ?s = "s\<lparr>ts_files := dict_put (tr_id r) ?r (ts_files s)\<rparr>"
  have tr: "trim_history (tr_history r) \<noteq> []" "hd (trim_history (tr_history r)) = hd (tr_history r)"
    "length (trim_history (tr_history r)) \<le> 64" using trim_facts f by (auto simp: fits_def)
  have "follows old ?r" if "map_of (ts_files s) (tr_id r) = Some old" for old
    using f that tr by (auto simp: fits_def follows_def)
  then have "grows s ?s" by (auto simp: grows_def)
  moreover have "store_ok ?s"
    using k f v x tr by (auto simp: kept_def store_ok_def task_ok_def fits_def)
  ultimately show ?thesis using k grows_trans by (auto simp: kept_def)
qed

lemma write_kept: "meets (\<lambda>s. kept a s \<and> fits r s) (write_task env r) (\<lambda>_. kept a) (\<lambda>_. kept a)"
  unfolding meets_def
proof (intro allI impI, elim conjE)
  fix s assume k: "kept a s" and f: "fits r s"
  define c where "c = (if ts_memory s then (case tr_response r of None \<Rightarrow> s | Some x \<Rightarrow> cache_response env (tr_id r) x s) else s)"
  have c: "kept a c" "fits r c" "ts_memory c = ts_memory s"
    using k f cache_kept [OF k] by (auto simp: c_def fits_def cache_response_def prune_responses_def Let_def split: option.splits)
  have e: "write_task env r s = (let stored = (if ts_memory s then r\<lparr>tr_response := None\<rparr> else r)\<lparr>tr_history := trim_history (tr_history r)\<rparr> in
     check (valid_task_id (tr_id r)) bad_id (
     check (en_bytes env stored \<le> 16 * 1024 * 1024) (Raised ''task record size limit exceeded'') (
     check (en_disk env) (Raised ''provider_disk_reserve_reached'') (
     modify (\<lambda>s. s\<lparr>ts_files := dict_put (tr_id r) stored (ts_files s)\<rparr>)))) c)"
    by (simp add: write_task_def then_do_def reads_def modify_def c_def Let_def)
  have "kept a (c\<lparr>ts_files := dict_put (tr_id r) ((if ts_memory s then r\<lparr>tr_response := None\<rparr> else r)
      \<lparr>tr_history := trim_history (tr_history r)\<rparr>) (ts_files c)\<rparr>)" if "valid_task_id (tr_id r)"
    using put_kept [OF c(1,2) that, of None] put_kept [OF c(1,2) that, of "tr_response r"] c(3) by auto
  with c(1) show "case write_task env r s of (Inr x, t) \<Rightarrow> kept a t | (Inl e, t) \<Rightarrow> kept a t"
    unfolding e Let_def by (simp add: check_def modify_def fail_def)
qed

subsection \<open>Methods that keep every record\<close>

lemma new_task_fits: "map_of (ts_files s) t = None \<Longrightarrow> tr_id r = t \<Longrightarrow> tr_state r = ''created'' \<Longrightarrow> tr_history r \<noteq> [] \<Longrightarrow> fits r s"
  by (simp add: fits_def ALL_STATES_def)

lemma changed_fits:
  assumes "kept a s" "map_of (ts_files s) t = Some old" "follows old r" "tr_state r \<in> set ALL_STATES" "tr_history r \<noteq> []"
  shows "fits r s"
proof -
  have "tr_id r = t" using assms(1-3) by (auto simp: kept_def store_ok_def task_ok_def follows_def)
  with assms show ?thesis by (auto simp: fits_def)
qed

lemma kept_record:
  "kept a s \<Longrightarrow> map_of (ts_files s) t = Some old \<Longrightarrow> tr_id old = t \<and> tr_state old \<in> set ALL_STATES \<and> tr_history old \<noteq> []"
  by (auto simp: kept_def store_ok_def task_ok_def)

lemma write_old:
  assumes "\<And>s. P s \<Longrightarrow> kept a s \<and> fits r s"
  shows "meets P (write_task env r) (\<lambda>_. kept a) (\<lambda>_. kept a)"
  by (rule meets_weaken [OF write_kept assms]) auto

lemma claim_kept: "keeps (kept a) (claim env t bindings)"
  unfolding claim_def Let_def
  by (intro meets_steps meets_then [OF read_kept]) (auto intro!: meets_ret meets_then [OF write_old] new_task_fits)

lemma add_event_follows:
  "tr_history r \<noteq> [] \<Longrightarrow> task_edge\<^sup>*\<^sup>* (tr_state r) st \<Longrightarrow>
   follows r (add_event e x (r\<lparr>tr_response := y, tr_state := st, tr_updated_at := u\<rparr>))"
  by (simp add: follows_def add_event_def)

lemma checkpoint_kept: "keeps (kept a) (checkpoint env t metadata response)"
  unfolding checkpoint_def Let_def
proof (intro meets_then [OF read_kept] meets_option meets_check meets_then [OF write_old])
qed (auto intro!: meets_fail meets_ret changed_fits simp: follows_def add_event_def dest: kept_record)

lemma move_kept:
  assumes "task_edge (tr_state r) state" "state \<in> set ALL_STATES"
  shows "meets (\<lambda>s. kept a s \<and> (\<exists>old x. map_of (ts_files s) t = Some old \<and> r = old\<lparr>tr_response := x\<rparr>))
    (move env r state metadata response recovery) (\<lambda>_. kept a) (\<lambda>_. kept a)"
  unfolding move_def Let_def
proof (intro meets_check meets_then [OF write_old])
qed (use assms in \<open>auto intro!: meets_ret changed_fits simp: follows_def add_event_def dest: kept_record\<close>)

lemma transition_kept: "keeps (kept a) (transition env t state metadata response allow_recovery)"
proof -
  have edge: "task_edge (tr_state r) state"
    if "recovers allow_recovery (tr_state r) state
      \<or> (case map_of ALLOWED_TRANSITIONS (tr_state r) of None \<Rightarrow> False | Some ss \<Rightarrow> state \<in> set ss)" for r
    using that by (auto simp: task_edge_def recovers_def split: option.splits)
  show ?thesis
    unfolding transition_def Let_def
  proof (intro meets_check meets_then [OF read_kept] meets_option meets_if meets_then [OF write_old]
      meets_weaken [OF move_kept [OF edge]])
  qed (auto intro!: meets_ret new_task_fits)
qed

lemma purge_response_kept: "keeps (kept a) (purge_response env t)"
proof -
  have d: "kept a (s\<lparr>ts_responses := dict_del t (ts_responses s)\<rparr>)" if "kept a s" for s
    using that length_delete_le [of t "ts_responses s"] by (auto simp: kept_def store_ok_def grows_def)
  show ?thesis
    unfolding purge_response_def
  proof (intro meets_then [OF read_kept] meets_option meets_if)
    fix found :: "task option" and r
    assume "found = Some r"
    let ?R = "\<lambda>s. kept a s \<and> (\<exists>old x. map_of (ts_files s) t = Some old \<and> r = old\<lparr>tr_response := x\<rparr>)"
    show "meets (\<lambda>s. kept a s \<and> valid_task_id t \<and> (case found of None \<Rightarrow> map_of (ts_files s) t = None
        | Some r \<Rightarrow> \<exists>old x. map_of (ts_files s) t = Some old \<and> r = old\<lparr>tr_response := x\<rparr>))
      (then_do (modify (\<lambda>s. s\<lparr>ts_responses := dict_del t (ts_responses s)\<rparr>))
        (\<lambda>_. then_do (write_task env (r\<lparr>tr_response := None, tr_purged_at := Some (iso (en_now env))\<rparr>)) (\<lambda>_. ret True)))
      (\<lambda>_. kept a) (\<lambda>_. kept a)"
    proof (rule meets_modify_then [where R = ?R], goal_cases)
      case 2
      then show ?case
        by (rule meets_then [OF write_old]) (auto intro!: meets_ret changed_fits simp: follows_def dest: kept_record)
    qed (use \<open>found = Some r\<close> d in auto)
  qed (auto intro!: meets_ret)
qed

lemma mark_acknowledged_kept: "keeps (kept a) (mark_acknowledged env t)"
  unfolding mark_acknowledged_def
proof (intro meets_then [OF read_kept] meets_option meets_then [OF write_old])
qed (auto intro!: meets_ret changed_fits simp: follows_def dest: kept_record)

lemma purge_count_kept: "keeps (kept a) (purge_count env t)"
  unfolding purge_count_def by (rule meets_then [OF purge_response_kept]) (auto intro!: meets_ret)

lemma purge_if_expired_kept: "keeps (kept a) (purge_if_expired env t)"
  unfolding purge_if_expired_def
  by (rule meets_then [OF read_kept])
    (auto intro!: meets_ret meets_fail meets_lift_then meets_weaken [OF purge_count_kept]
      split: option.split sum.split py_error.split)

lemma list_from_kept: "meets (kept a) (list_from env ts) (\<lambda>_. kept a) (\<lambda>_. kept a)"
proof (induction ts)
  case (Cons t ts)
  have "meets (kept a) (read_task env t) (\<lambda>_. kept a) (\<lambda>_. kept a)" by (rule meets_weaken [OF read_kept]) auto
  then show ?case by (auto intro!: meets_then [OF _ meets_then [OF Cons.IH]] meets_ret)
qed (auto intro!: meets_ret)

subsection \<open>Switching to memory responses\<close>

text \<open>On disk, reading changes nothing, and purging removes the response of one record.\<close>

definition on_disk :: "task_store \<Rightarrow> task_store \<Rightarrow> bool" where
  "on_disk a s \<longleftrightarrow> kept a s \<and> \<not> ts_memory s"

lemma on_disk_responses: "on_disk a s \<Longrightarrow> ts_responses s = []"
  by (auto simp: on_disk_def kept_def store_ok_def)

lemma read_disk:
  assumes "on_disk a s"
  shows "read_task env t s = (if valid_task_id t then (Inr (map_of (ts_files s) t), s) else (Inl bad_id, s))"
proof -
  have "prune_responses env s = s" using on_disk_responses [OF assms] by (simp add: prune_responses_def)
  then show ?thesis
    using on_disk_responses [OF assms]
    by (simp add: read_task_def then_do_def check_def fail_def reads_def modify_def ret_def split: option.split)
qed

lemma write_disk:
  "\<not> ts_memory s \<Longrightarrow> write_task env r s = (Inr (), s') \<Longrightarrow>
   s' = s\<lparr>ts_files := dict_put (tr_id r) (r\<lparr>tr_history := trim_history (tr_history r)\<rparr>) (ts_files s)\<rparr>"
  by (auto simp: write_task_def Let_def act_simps)

definition purged :: "string set \<Rightarrow> string set \<Rightarrow> task_store \<Rightarrow> bool" where
  "purged D ids s \<longleftrightarrow> (\<forall>t r. map_of (ts_files s) t = Some r \<longrightarrow> t \<in> D \<and> (t \<in> ids \<longrightarrow> tr_response r = None))"

lemma purge_disk:
  "meets (\<lambda>s. on_disk a s \<and> purged D ids s) (purge_count env t) (\<lambda>_ s. on_disk a s \<and> purged D (insert t ids) s) (\<lambda>_. kept a)"
  unfolding meets_def
proof (intro allI impI, elim conjE)
  fix s assume d: "on_disk a s" and p: "purged D ids s"
  then have k: "kept a s" by (simp add: on_disk_def)
  obtain r s' where e: "purge_count env t s = (r, s')" by (cases "purge_count env t s")
  have k': "kept a s'" using keeps_snd [OF purge_count_kept k, of env t] e by simp
  show "case purge_count env t s of (Inr x, s) \<Rightarrow> on_disk a s \<and> purged D (insert t ids) s | (Inl x, s) \<Rightarrow> kept a s"
  proof (cases r)
    case (Inr n)
    then obtain b where b: "purge_response env t s = (Inr b, s')" using e by (auto simp: purge_count_def act_simps)
    then have v: "valid_task_id t" by (auto simp: purge_response_def act_simps read_disk [OF d] split: if_splits)
    have "\<not> ts_memory s' \<and> purged D (insert t ids) s'"
    proof (cases "map_of (ts_files s) t")
      case None
      with b v d p show ?thesis
        by (auto simp: purge_response_def act_simps read_disk [OF d] purged_def on_disk_def)
    next
      case (Some old)
      have id: "tr_id old = t" using kept_record [OF k Some] by simp
      show ?thesis
      proof (cases "tr_response old")
        case None
        with b v Some d p show ?thesis
          by (auto simp: purge_response_def act_simps read_disk [OF d] purged_def on_disk_def)
      next
        case (Some x)
        with b v \<open>map_of (ts_files s) t = Some old\<close> d
        have "write_task env (old\<lparr>tr_response := None, tr_purged_at := Some (iso (en_now env))\<rparr>)
            (s\<lparr>ts_responses := dict_del t (ts_responses s)\<rparr>) = (Inr (), s')"
          by (auto simp: purge_response_def act_simps read_disk [OF d])
        from write_disk [OF _ this] d p id \<open>map_of (ts_files s) t = Some old\<close> show ?thesis
          by (auto simp: on_disk_def purged_def)
      qed
    qed
    with Inr e k' show ?thesis by (simp add: on_disk_def)
  qed (use e k' in simp)
qed

lemma purge_all_disk:
  "meets (\<lambda>s. on_disk a s \<and> purged D ids s) (count_do (purge_count env) ts)
     (\<lambda>_ s. on_disk a s \<and> purged D (ids \<union> set ts) s) (\<lambda>_. kept a)"
proof (induction ts arbitrary: ids)
  case (Cons t ts)
  have "meets (\<lambda>s. on_disk a s \<and> purged D (insert t ids) s) (count_do (purge_count env) ts)
     (\<lambda>_ s. on_disk a s \<and> purged D (ids \<union> set (t # ts)) s) (\<lambda>_. kept a)"
    by (rule meets_weaken [OF Cons.IH]) auto
  then show ?case by (auto intro!: meets_then [OF purge_disk meets_then] meets_ret)
qed (auto intro!: meets_ret)

definition frozen :: "task_store \<Rightarrow> (string, task) dict \<Rightarrow> task_store \<Rightarrow> bool" where
  "frozen a F s \<longleftrightarrow> on_disk a s \<and> ts_files s = F"

lemma list_disk:
  "meets (frozen a F) (list_from env ts)
     (\<lambda>rs s. frozen a F s \<and> {t \<in> set ts. map_of F t \<noteq> None} \<subseteq> set (map tr_id rs)) (\<lambda>_. kept a)"
proof (induction ts)
  case (Cons t ts)
  let ?D = "frozen a F"
  have "meets ?D (read_task env t) (\<lambda>found s. ?D s \<and> found = map_of F t) (\<lambda>_. kept a)"
    unfolding meets_def
  proof (intro allI impI)
    fix s assume d: "?D s"
    then show "case read_task env t s of (Inr found, u) \<Rightarrow> ?D u \<and> found = map_of F t | (Inl e, u) \<Rightarrow> kept a u"
      using read_disk [of a s env t] by (simp add: frozen_def on_disk_def)
  qed
  moreover have fin: "meets (\<lambda>s. ?D s \<and> {t \<in> set ts. map_of F t \<noteq> None} \<subseteq> set (map tr_id rest))
      (ret (case map_of F t of None \<Rightarrow> rest | Some r \<Rightarrow> r\<lparr>tr_response := None\<rparr> # rest))
      (\<lambda>rs s. ?D s \<and> {x \<in> set (t # ts). map_of F x \<noteq> None} \<subseteq> set (map tr_id rs)) (\<lambda>_. kept a)" for rest
  proof (rule meets_ret, elim conjE, intro conjI)
    fix s assume "frozen a F s" "{t \<in> set ts. map_of F t \<noteq> None} \<subseteq> set (map tr_id rest)"
    then show "{x \<in> set (t # ts). map_of F x \<noteq> None}
        \<subseteq> set (map tr_id (case map_of F t of None \<Rightarrow> rest | Some r \<Rightarrow> r\<lparr>tr_response := None\<rparr> # rest))"
      using kept_record [of a s t] by (cases "map_of F t") (auto simp: frozen_def on_disk_def)
  qed
  have "meets ?D (then_do (list_from env ts)
        (\<lambda>rest. ret (case map_of F t of None \<Rightarrow> rest | Some r \<Rightarrow> r\<lparr>tr_response := None\<rparr> # rest)))
      (\<lambda>rs s. ?D s \<and> {x \<in> set (t # ts). map_of F x \<noteq> None} \<subseteq> set (map tr_id rs)) (\<lambda>_. kept a)"
    by (rule meets_then [OF meets_weaken [OF Cons.IH] fin]) auto
  ultimately show ?case
    unfolding list_from.simps by - (rule meets_then, assumption, rule meets_pure, hypsubst)
qed (auto intro!: meets_ret)

lemma to_memory: "on_disk a s \<Longrightarrow> purged D D s \<Longrightarrow> kept a (s\<lparr>ts_memory := True\<rparr>)"
proof -
  assume d: "on_disk a s" and p: "purged D D s"
  have r: "ts_responses s = []" using on_disk_responses [OF d] .
  have k: "store_ok s" "grows a s" using d by (simp_all add: on_disk_def kept_def)
  have "task_ok True t r" if "map_of (ts_files s) t = Some r" for t r
    using that k(1) p by (simp add: store_ok_def task_ok_def purged_def)
  then have "store_ok (s\<lparr>ts_memory := True\<rparr>)" using k(1) r by (simp add: store_ok_def)
  moreover have "grows a (s\<lparr>ts_memory := True\<rparr>)" using k(2) grows_files [of s "s\<lparr>ts_memory := True\<rparr>"] by simp
  ultimately show ?thesis by (simp add: kept_def)
qed

lemma use_memory_kept: "keeps (kept a) (use_memory_responses env)"
  unfolding use_memory_responses_def list_tasks_def
proof (intro meets_reads_then meets_if, goal_cases)
  case (2 memory)
  have "meets (frozen a F) (then_do (list_from env ts)
      (\<lambda>rs. then_do (count_do (purge_count env) (map tr_id rs)) (\<lambda>_. modify (\<lambda>s. s\<lparr>ts_memory := True\<rparr>))))
      (\<lambda>_. kept a) (\<lambda>_. kept a)" if "set ts = fst ` set F" for F ts
  proof (rule meets_then [OF list_disk])
    fix rs :: "task list"
    let ?ids = "set (map tr_id rs)"
    have "meets (\<lambda>s. on_disk a s \<and> purged ?ids {} s) (then_do (count_do (purge_count env) (map tr_id rs))
        (\<lambda>_. modify (\<lambda>s. s\<lparr>ts_memory := True\<rparr>))) (\<lambda>_. kept a) (\<lambda>_. kept a)"
      by (rule meets_then [OF purge_all_disk]) (auto intro!: meets_modify to_memory)
    then show "meets (\<lambda>s. frozen a F s \<and> {t \<in> set ts. map_of F t \<noteq> None} \<subseteq> ?ids)
        (then_do (count_do (purge_count env) (map tr_id rs)) (\<lambda>_. modify (\<lambda>s. s\<lparr>ts_memory := True\<rparr>))) (\<lambda>_. kept a) (\<lambda>_. kept a)"
    proof (rule meets_weaken)
      fix s assume "frozen a F s \<and> {t \<in> set ts. map_of F t \<noteq> None} \<subseteq> ?ids"
      then show "on_disk a s \<and> purged ?ids {} s"
        using that by (force simp: purged_def frozen_def dest: map_of_SomeD)
    qed
  qed
  note all = this
  have "meets (\<lambda>s. on_disk a s \<and> stems s = ts) (then_do (list_from env ts)
      (\<lambda>rs. then_do (count_do (purge_count env) (map tr_id rs)) (\<lambda>_. modify (\<lambda>s. s\<lparr>ts_memory := True\<rparr>))))
      (\<lambda>_. kept a) (\<lambda>_. kept a)" for ts
    unfolding meets_def
  proof (intro allI impI, elim conjE)
    fix s assume s: "on_disk a s" "stems s = ts"
    moreover have "set (stems s) = set (map fst (ts_files s))" by (simp add: stems_def)
    ultimately have "set ts = fst ` set (ts_files s)" by (simp only: set_map)
    from all [OF this] s(1) show "case then_do (list_from env ts)
      (\<lambda>rs. then_do (count_do (purge_count env) (map tr_id rs)) (\<lambda>_. modify (\<lambda>s. s\<lparr>ts_memory := True\<rparr>))) s of
      (Inr x, t) \<Rightarrow> kept a t | (Inl e, t) \<Rightarrow> kept a t"
      by (simp add: meets_def frozen_def)
  qed
  then have "meets (on_disk a) (then_do (then_do (reads stems) (list_from env))
      (\<lambda>rs. then_do (count_do (purge_count env) (map tr_id rs)) (\<lambda>_. modify (\<lambda>s. s\<lparr>ts_memory := True\<rparr>))))
      (\<lambda>_. kept a) (\<lambda>_. kept a)"
    by (simp add: meets_def then_do_def reads_def)
  then show ?case by (rule meets_weaken) (use 2 in \<open>auto simp: on_disk_def\<close>)
qed (auto intro!: meets_ret)

end
