(* ===== verification/Task_Guarantees.thy ===== *)
theory Task_Guarantees
  imports Task_Safety
begin

section \<open>Guarantees of the task records\<close>

text \<open>
  The calls of a task store as an effectful object: every call keeps \<open>store_ok\<close>, and a call that does not
  delete records only moves them along the life cycle. The guarantees follow for every sequence of calls, each
  with its own clock and disk.
\<close>

datatype task_op = Claim_task string "(string, string) dict"
  | Move_task string string "(string, json) dict" "json option" bool
  | Note_task string "(string, json) dict" "json option"
  | Purge_task string | Acknowledge string | Purge_expired | Use_memory | Read_task string
  | Delete_task string | Prune_terminal int

definition task_step :: "task_store \<Rightarrow> task_env \<times> task_op \<Rightarrow> task_store" where
  "task_step s c = (case c of (env, op) \<Rightarrow> (case op of
     Claim_task t b \<Rightarrow> snd (claim env t b s)
   | Move_task t state metadata response allow \<Rightarrow> snd (transition env t state metadata response allow s)
   | Note_task t metadata response \<Rightarrow> snd (checkpoint env t metadata response s)
   | Purge_task t \<Rightarrow> snd (purge_response env t s)
   | Acknowledge t \<Rightarrow> snd (mark_acknowledged env t s)
   | Purge_expired \<Rightarrow> snd (purge_expired_responses env s)
   | Use_memory \<Rightarrow> snd (use_memory_responses env s)
   | Read_task t \<Rightarrow> snd (read_task env t s)
   | Delete_task t \<Rightarrow> snd (delete_task t s)
   | Prune_terminal boundary \<Rightarrow> snd (prune_terminal env boundary s)))"

definition removes :: "task_env \<times> task_op \<Rightarrow> bool" where
  "removes c \<longleftrightarrow> (case snd c of Delete_task _ \<Rightarrow> True | Prune_terminal _ \<Rightarrow> True | _ \<Rightarrow> False)"

definition empty_store :: task_store where
  "empty_store = \<lparr>ts_files = [], ts_memory = False, ts_responses = []\<rparr>"

lemma empty_ok: "store_ok empty_store"
  by (simp add: empty_store_def store_ok_def)

lemma kept_self: "store_ok s \<Longrightarrow> kept s s"
  by (simp add: kept_def)

lemma kept_empty: "kept empty_store s \<longleftrightarrow> store_ok s"
  by (simp add: kept_def grows_def empty_store_def)

lemma purge_expired_kept: "keeps (kept a) (purge_expired_responses env)"
  unfolding purge_expired_responses_def
  by (rule meets_reads_then, rule meets_weaken [OF meets_count [OF purge_if_expired_kept]]) auto

lemma read_task_kept: "keeps (kept a) (read_task env t)"
  by (rule meets_weaken [OF read_kept]) auto

lemma step_kept:
  assumes "store_ok s" "\<not> removes c"
  shows "kept s (task_step s c)"
proof -
  obtain env op where c: "c = (env, op)" by (cases c)
  note k = kept_self [OF assms(1)]
  show ?thesis
    using assms(2) keeps_snd [OF claim_kept k] keeps_snd [OF transition_kept k] keeps_snd [OF checkpoint_kept k]
      keeps_snd [OF purge_response_kept k] keeps_snd [OF mark_acknowledged_kept k] keeps_snd [OF purge_expired_kept k]
      keeps_snd [OF use_memory_kept k] keeps_snd [OF read_task_kept k]
    by (simp add: c task_step_def removes_def split: task_op.splits)
qed

lemma file_deleted: "store_ok s \<Longrightarrow> store_ok (s\<lparr>ts_files := dict_del t (ts_files s)\<rparr>)"
  by (auto simp: store_ok_def)

lemma delete_ok: "keeps store_ok (delete_task t)"
proof -
  have d: "store_ok (s\<lparr>ts_files := dict_del t (ts_files s), ts_responses := dict_del t (ts_responses s)\<rparr>)" if "store_ok s" for s
    using that length_delete_le [of t "ts_responses s"] by (auto simp: store_ok_def)
  show ?thesis
    unfolding delete_task_def
    by (intro meets_check meets_reads_then meets_option meets_modify_then [where R = store_ok] meets_ret) (simp_all add: d)
qed

lemma prune_if_old_ok: "keeps store_ok (prune_if_old env boundary t)"
proof -
  have r: "keeps store_ok (read_task env t)" using read_task_kept [of empty_store] unfolding kept_empty .
  show ?thesis
    unfolding prune_if_old_def
  proof (rule meets_then [OF r], intro meets_option meets_if, goal_cases)
    case (3 found r)
    show ?case
    proof (rule meets_then [where R = "\<lambda>_. store_ok"], goal_cases)
      case 1
      show ?case
        by (cases "parse_time (JStr (tr_updated_at r))") (auto intro: meets_ret meets_fail split: py_error.split)
    next
      case (2 updated)
      show ?case
        by (intro meets_if meets_modify_then [where R = store_ok] meets_ret) (simp_all add: file_deleted)
    qed
  qed (auto intro!: meets_ret)
qed

lemma prune_terminal_ok: "keeps store_ok (prune_terminal env boundary)"
  unfolding prune_terminal_def
  by (rule meets_reads_then, rule meets_weaken [OF meets_count [OF prune_if_old_ok]]) auto

lemma step_ok:
  assumes "store_ok s"
  shows "store_ok (task_step s c)"
proof (cases "removes c")
  case True
  then show ?thesis
    using keeps_snd [OF delete_ok assms] keeps_snd [OF prune_terminal_ok assms]
    by (auto simp: task_step_def removes_def split: prod.splits task_op.splits)
qed (use step_kept [OF assms] in \<open>simp add: kept_def\<close>)

interpretation tasks: effectful task_step store_ok
  by unfold_locales (rule step_ok)

lemma run_grows:
  assumes "store_ok s" "\<forall>c \<in> set cs. \<not> removes c"
  shows "grows s (tasks.run s cs)"
  using tasks.run_rel [where R = grows and ok = "\<lambda>c. \<not> removes c", OF _ grows_refl grows_trans assms] step_kept
  by (auto simp: kept_def)

lemma reached_ok: "store_ok (tasks.run empty_store cs)"
  by (rule tasks.run_keeps [OF empty_ok])

subsection \<open>Life cycle and bounds\<close>

definition plain_env :: "int \<Rightarrow> task_env" where
  "plain_env t = \<lparr>en_now = t, en_mono = t, en_disk = True, en_bytes = (\<lambda>_. 0)\<rparr>"

text \<open>C26: the life cycle of a task record. Whatever happens to the store short of deleting records, a record
  stays, its state moves along the allowed transitions (or recovers from a failure or a timeout to success),
  it keeps its id, bindings, creation time and first event, and a succeeded, cancelled or rejected task never
  changes state.\<close>

theorem task_life_cycle:
  assumes "map_of (ts_files (tasks.run empty_store cs)) t = Some r" "\<forall>d \<in> set ds. \<not> removes d"
  shows "\<exists>r'. map_of (ts_files (tasks.run empty_store (cs @ ds))) t = Some r' \<and> task_edge\<^sup>*\<^sup>* (tr_state r) (tr_state r')
    \<and> (final_state (tr_state r) \<longrightarrow> tr_state r' = tr_state r) \<and> tr_created_at r' = tr_created_at r
    \<and> tr_bindings r' = tr_bindings r \<and> hd (tr_history r') = hd (tr_history r)"
proof -
  have "grows (tasks.run empty_store cs) (tasks.run empty_store (cs @ ds))"
    unfolding tasks.run_append by (rule run_grows [OF reached_ok assms(2)])
  with assms(1) obtain r' where "map_of (ts_files (tasks.run empty_store (cs @ ds))) t = Some r'" "follows r r'"
    by (auto simp: grows_def)
  then show ?thesis using edges_final by (auto simp: follows_def)
qed

lemma task_life_cycle_witness:
  "\<exists>r r'. map_of (ts_files (tasks.run empty_store [(plain_env 0, Claim_task ''t'' [(''k'', ''v'')])])) ''t'' = Some r
     \<and> map_of (ts_files (tasks.run empty_store ([(plain_env 0, Claim_task ''t'' [(''k'', ''v'')])]
         @ [(plain_env 0, Move_task ''t'' ''accepted'' [] None False)]))) ''t'' = Some r'
     \<and> tr_state r' = ''accepted'' \<and> task_edge\<^sup>*\<^sup>* (tr_state r) (tr_state r')"
proof -
  let ?c = "(plain_env 0, Claim_task ''t'' [(''k'', ''v'')])" and ?d = "(plain_env 0, Move_task ''t'' ''accepted'' [] None False)"
  have v: "valid_task_id ''t''" by code_simp
  obtain r where r: "tasks.run empty_store [?c] = \<lparr>ts_files = [(''t'', r)], ts_memory = False, ts_responses = []\<rparr>"
    "tr_state r = ''created''" "tr_id r = ''t''"
    by (simp add: task_step_def claim_def read_task_def v reads_def then_do_def empty_store_def ret_def dict_vals_def
        write_task_def modify_def plain_env_def trim_history_def Let_def)
  obtain r' where r': "map_of (ts_files (tasks.run empty_store ([?c] @ [?d]))) ''t'' = Some r'" "tr_state r' = ''accepted''"
    unfolding tasks.run_append r(1)
    by (simp add: task_step_def transition_def read_task_def v reads_def then_do_def ret_def prune_responses_def r(2,3)
        write_task_def modify_def plain_env_def Let_def ALL_STATES_def TERMINAL_STATES_def ALLOWED_TRANSITIONS_def
        recovers_def move_def merge_into_def clean_event_def forbidden_def add_event_def)
  have e: "map_of (ts_files (tasks.run empty_store [?c])) ''t'' = Some r" by (simp only: r(1)) simp
  from task_life_cycle [OF e, of "[?d]"] r' e show ?thesis by (auto simp: removes_def)
qed

text \<open>The store stays bounded. In every reachable state each record has a valid id, a known state and
  between 1 and 64 events, the cache of encrypted responses holds at most 8, and once responses are kept in
  memory no file contains one.\<close>

theorem task_store_bounded:
  "(\<forall>t r. map_of (ts_files (tasks.run empty_store cs)) t = Some r \<longrightarrow> valid_task_id t \<and> tr_state r \<in> set ALL_STATES
      \<and> 1 \<le> length (tr_history r) \<and> length (tr_history r) \<le> 64
      \<and> (ts_memory (tasks.run empty_store cs) \<longrightarrow> tr_response r = None))
    \<and> length (ts_responses (tasks.run empty_store cs)) \<le> 8"
  using reached_ok [of cs] by (auto simp: store_ok_def task_ok_def Suc_le_eq)

lemma task_store_bounded_witness:
  "length (ts_responses (tasks.run empty_store [(plain_env 0, Use_memory)])) \<le> 8"
  using task_store_bounded [of "[(plain_env 0, Use_memory)]"] by blast

subsection \<open>Idempotent claims\<close>

abbreviation claimable :: "(string, string) dict \<Rightarrow> bool" where
  "claimable b \<equiv> b \<noteq> [] \<and> list_all (\<lambda>v. v \<noteq> [] \<and> length v \<le> 4096) (dict_vals b)"

text \<open>What \<open>get\<close> answers: the record with the response of the cache, if that has one that has not expired.\<close>

definition view :: "task_env \<Rightarrow> string \<Rightarrow> task_store \<Rightarrow> task option" where
  "view env t s = (case map_of (ts_files s) t of None \<Rightarrow> None
     | Some r \<Rightarrow> Some (case map_of (ts_responses (prune_responses env s)) t of None \<Rightarrow> r | Some (_, x) \<Rightarrow> r\<lparr>tr_response := Some x\<rparr>))"

lemma read_view:
  "read_task env t s = (if \<not> valid_task_id t then (Inl bad_id, s)
     else (Inr (view env t s), if map_of (ts_files s) t = None then s else prune_responses env s))"
  by (simp add: read_task_def view_def check_def fail_def then_do_def reads_def modify_def ret_def
      prune_responses_def split: option.split)

lemma view_bindings: "view env t s = Some v \<Longrightarrow> map_of (ts_files s) t = Some r \<Longrightarrow> tr_bindings v = tr_bindings r"
  by (auto simp: view_def split: option.splits)

lemma write_files:
  assumes "write_task env r s = (Inr (), s')"
  shows "\<exists>r'. ts_files s' = dict_put (tr_id r) r' (ts_files s) \<and> tr_bindings r' = tr_bindings r"
proof -
  let ?r = "\<lambda>x. r\<lparr>tr_response := x, tr_history := trim_history (tr_history r)\<rparr>"
  have "?r (tr_response r) = r\<lparr>tr_history := trim_history (tr_history r)\<rparr>" by simp
  with assms have "ts_files s' = dict_put (tr_id r) (?r (tr_response r)) (ts_files s)
      \<or> ts_files s' = dict_put (tr_id r) (?r None) (ts_files s)"
    by (auto simp: write_task_def Let_def act_simps cache_response_def prune_responses_def split: option.splits if_splits)
  then show ?thesis by auto
qed

lemma claimed:
  assumes "claim env t b s = (Inr (r, True), s')"
  shows "\<exists>r'. map_of (ts_files s') t = Some r' \<and> tr_bindings r' = Some b"
proof -
  from assms obtain r' u where w: "write_task env r' u = (Inr (), s')" "tr_id r' = t" "tr_bindings r' = Some b"
    by (auto simp: claim_def act_simps Let_def split: option.splits)
  from write_files [OF w(1)] w show ?thesis by auto
qed

text \<open>Claims are idempotent. After a claim created the record of a task, whatever happens to the store
  short of deleting records, another claim of the same id answers the existing record when its bindings are
  equal and raises a conflict otherwise, and it changes no file.\<close>

theorem claim_once:
  assumes c: "claim env t b (tasks.run empty_store cs) = (Inr (r, True), s)" and d: "\<forall>d \<in> set ds. \<not> removes d"
    and b': "claimable b'"
  shows "\<exists>r'. fst (claim env' t b' (tasks.run s ds))
        = (if same_dict b b' then Inr (r', False) else Inl (Raised ''task idempotency conflict''))
      \<and> ts_files (snd (claim env' t b' (tasks.run s ds))) = ts_files (tasks.run s ds)"
proof -
  have "s = task_step (tasks.run empty_store cs) (env, Claim_task t b)" using c by (simp add: task_step_def)
  then have s: "store_ok s" using step_ok [OF reached_ok] by simp
  obtain r0 where "map_of (ts_files s) t = Some r0" "tr_bindings r0 = Some b" using claimed [OF c] by blast
  with run_grows [OF s d] obtain r1 where r1: "map_of (ts_files (tasks.run s ds)) t = Some r1" "tr_bindings r1 = Some b"
    unfolding grows_def follows_def by metis
  then obtain v where v: "view env' t (tasks.run s ds) = Some v" by (auto simp: view_def)
  have "valid_task_id t"
    using r1(1) tasks.run_keeps [OF s] by (auto simp: store_ok_def task_ok_def)
  with v view_bindings [OF v r1(1)] r1 b' show ?thesis
    by (auto simp: claim_def check_def fail_def then_do_def read_view ret_def prune_responses_def list_all_iff)
qed

lemma claim_once_witness:
  "fst (claim (plain_env 5) ''t'' [(''k'', ''w'')] (tasks.run empty_store [(plain_env 0, Claim_task ''t'' [(''k'', ''v'')])]))
     = Inl (Raised ''task idempotency conflict'')"
proof -
  have v: "valid_task_id ''t''" by code_simp
  obtain r s where c: "claim (plain_env 0) ''t'' [(''k'', ''v'')] (tasks.run empty_store []) = (Inr (r, True), s)"
    by (simp add: claim_def read_task_def v reads_def then_do_def empty_store_def ret_def dict_vals_def
        write_task_def modify_def plain_env_def trim_history_def Let_def)
  then have s: "tasks.run empty_store [(plain_env 0, Claim_task ''t'' [(''k'', ''v'')])] = s" by (simp add: task_step_def)
  show ?thesis
    using claim_once [OF c, of "[]" "[(''k'', ''w'')]" "plain_env 5"] by (auto simp: s [simplified] same_dict_def dict_vals_def)
qed

subsection \<open>Unarchived answers\<close>

lemma view_pruned [simp]: "view env t (prune_responses env s) = view env t s"
proof -
  have "prune_responses env (prune_responses env s) = prune_responses env s"
    by (simp add: prune_responses_def case_prod_unfold)
  moreover have "ts_files (prune_responses env s) = ts_files s" by (simp add: prune_responses_def)
  ultimately show ?thesis by (simp add: view_def split: option.split)
qed

lemma filter_del: "u \<noteq> t \<Longrightarrow> map_of (filter P (dict_del u d)) t = map_of (filter P d) t"
  by (induction d) auto

lemma view_other:
  "u \<noteq> t \<Longrightarrow> view env t (s\<lparr>ts_responses := dict_del u (ts_responses s)\<rparr>) = view env t s"
  "u \<noteq> t \<Longrightarrow> view env t (s\<lparr>ts_files := dict_put u r (ts_files s)\<rparr>) = view env t s"
  by (simp_all add: view_def prune_responses_def filter_del split: option.split)

lemma write_view: "tr_id r \<noteq> t \<Longrightarrow> tr_response r = None \<Longrightarrow> view env t (snd (write_task env' r s)) = view env t s"
proof -
  assume r: "tr_id r \<noteq> t" "tr_response r = None"
  show ?thesis
    using r by (simp add: write_task_def then_do_def reads_def modify_def check_def fail_def Let_def view_other(2))
qed

lemma view_file:
  assumes "view env u s = Some r" "store_ok s"
  shows "valid_task_id u \<and> tr_id r = u \<and> read_task env u s = (Inr (Some r), prune_responses env s)"
proof -
  obtain r0 where "map_of (ts_files s) u = Some r0" "r = r0 \<or> (\<exists>x. r = r0\<lparr>tr_response := Some x\<rparr>)"
    using assms(1) by (auto simp: view_def split: option.splits)
  with assms show ?thesis by (auto simp: store_ok_def task_ok_def read_view)
qed

text \<open>Purging one record leaves the view of another.\<close>

lemma purge_view:
  assumes "u \<noteq> t" "store_ok s"
  shows "view env t (snd (purge_count env u s)) = view env t s"
proof (cases "view env u s")
  case None
  then show ?thesis by (simp add: purge_count_def purge_response_def then_do_def read_view ret_def)
next
  case (Some r)
  note r = view_file [OF Some assms(2)]
  let ?s = "prune_responses env s"
  let ?w = "write_task env (r\<lparr>tr_response := None, tr_purged_at := Some (iso (en_now env))\<rparr>)
      (?s\<lparr>ts_responses := dict_del u (ts_responses ?s)\<rparr>)"
  have w: "view env t (snd ?w) = view env t s" using r assms(1) by (simp add: write_view view_other(1))
  obtain q s2 where "?w = (q, s2)" by (cases ?w)
  with w r show ?thesis
    by (cases q) (simp_all add: purge_count_def purge_response_def then_do_def ret_def modify_def)
qed

definition awaits :: "task_env \<Rightarrow> string \<Rightarrow> task \<Rightarrow> task_store \<Rightarrow> bool" where
  "awaits env t r s \<longleftrightarrow> kept empty_store s \<and> view env t s = Some r"

lemma purge_if_expired_awaits:
  assumes "awaiting_archive r (en_now env) = Inr True"
  shows "keeps (awaits env t r) (purge_if_expired env u)"
  unfolding meets_def
proof (intro allI impI)
  fix s assume s: "awaits env t r s"
  then have k: "kept empty_store s" by (simp add: awaits_def)
  obtain q s' where e: "purge_if_expired env u s = (q, s')" by (cases "purge_if_expired env u s")
  have "kept empty_store s'" using keeps_snd [OF purge_if_expired_kept k, of env u] e by simp
  moreover have "view env t s' = view env t s"
  proof (cases "u = t")
    case True
    with s have "purge_if_expired env u s = (Inr 0, prune_responses env s)"
      using view_file [of env t s r] assms
      by (simp add: awaits_def kept_empty purge_if_expired_def then_do_def lift_def ret_def)
    with e show ?thesis using view_pruned [of env t s] by auto
  next
    case False
    show ?thesis
    proof (cases "view env u s")
      case None
      with e show ?thesis
        by (cases "valid_task_id u"; cases "map_of (ts_files s) u") (auto simp: purge_if_expired_def then_do_def read_view ret_def)
    next
      case (Some x)
      have "store_ok (prune_responses env s)" using prune_kept [OF k] by (simp add: kept_def)
      from purge_view [OF False this] have "view env t (snd (purge_count env u (prune_responses env s))) = view env t s" by simp
      moreover have "s' = prune_responses env s \<or> s' = snd (purge_count env u (prune_responses env s))"
        using e view_file [OF Some] k
        by (auto simp: kept_empty purge_if_expired_def then_do_def ret_def lift_def fail_def
            split: sum.splits option.splits py_error.splits if_splits)
      ultimately show ?thesis by auto
    qed
  qed
  ultimately show "case purge_if_expired env u s of (Inr x, s) \<Rightarrow> awaits env t r s | (Inl x, s) \<Rightarrow> awaits env t r s"
    using s e by (simp add: awaits_def split: sum.split)
qed


text \<open>C27: an answer that was paid for and is not archived survives the expiry sweep. When \<open>get\<close> answers a
  record that awaits its archive, it answers the same record after the sweep at that moment, even if the sweep
  raises on the way.\<close>

theorem archive_kept:
  assumes "fst (read_task env t (tasks.run empty_store cs)) = Inr (Some r)" "awaiting_archive r (en_now env) = Inr True"
  shows "fst (read_task env t (snd (purge_expired_responses env (tasks.run empty_store cs)))) = Inr (Some r)"
proof -
  let ?s = "tasks.run empty_store cs"
  have v: "valid_task_id t" "view env t ?s = Some r" using assms(1) by (auto simp: read_view split: if_splits)
  have "keeps (awaits env t r) (purge_expired_responses env)"
    unfolding purge_expired_responses_def
    by (rule meets_reads_then, rule meets_weaken [OF meets_count [OF purge_if_expired_awaits [OF assms(2)]]]) auto
  moreover have "awaits env t r ?s" using v reached_ok by (simp add: awaits_def kept_empty)
  ultimately have "awaits env t r (snd (purge_expired_responses env ?s))" by (rule keeps_snd)
  then show ?thesis using v by (simp add: awaits_def read_view)
qed


subsection \<open>Long histories\<close>

text \<open>Checkpoints push the other events out of the history, all but the first.\<close>

definition tail_notes :: "nat \<Rightarrow> json list \<Rightarrow> bool" where
  "tail_notes n h \<longleftrightarrow> n < length h \<and> (\<forall>e \<in> set (drop (length h - n) h). \<not> is_success e)"

lemma tail_notes_trim:
  assumes "tail_notes n h" "\<not> is_success e" "n < 63"
  shows "tail_notes (Suc n) (trim_history (h @ [e]))"
proof (cases "64 < length (h @ [e])")
  case False
  with assms show ?thesis by (auto simp: tail_notes_def trim_history_def Suc_diff_le)
next
  case True
  let ?d = "drop (length (h @ [e]) - 63) (h @ [e])"
  have t: "trim_history (h @ [e]) = hd (h @ [e]) # ?d" using True by (simp add: trim_history_def)
  have "63 - n = Suc (62 - n)" "62 - n + (length (h @ [e]) - 63) = length h - n" using True assms(3) by simp_all
  then have "drop (63 - n) (hd (h @ [e]) # ?d) = drop (length h - n) h @ [e]" by simp
  moreover have "length (trim_history (h @ [e])) = 64" using True by (simp add: t)
  ultimately show ?thesis using assms by (simp add: tail_notes_def t)
qed

lemma only_notes:
  assumes "tail_notes 63 h" "length h \<le> 64" "\<not> is_success (hd h)"
  shows "find is_success (rev h) = None"
proof -
  have "length h = 64" using assms by (simp add: tail_notes_def)
  then have "h = hd h # drop (length h - 63) h" by (cases h) auto
  then have "\<forall>e \<in> set h. \<not> is_success e" using assms unfolding tail_notes_def by (metis set_ConsD)
  then show ?thesis by (simp add: find_None_iff)
qed

lemma forgotten:
  assumes "find is_success (rev (tr_history r)) = None"
  shows "awaiting_archive r now = Inr False"
  using assms by (simp add: awaiting_archive_def)

abbreviation roomy :: "task_env \<Rightarrow> bool" where
  "roomy env \<equiv> en_disk env \<and> (\<forall>r. en_bytes env r \<le> 16 * 1024 * 1024)"

lemma note_step:
  assumes s: "store_ok s" "\<not> ts_memory s" "map_of (ts_files s) t = Some r" and env: "roomy env"
  shows "\<exists>e. \<not> is_success e \<and> task_step s (env, Note_task t [] None) = s\<lparr>ts_files := dict_put t
     (r\<lparr>tr_updated_at := iso (en_now env), tr_history := trim_history (tr_history r @ [e])\<rparr>) (ts_files s)\<rparr>"
proof -
  have v: "valid_task_id t" "tr_id r = t" using s by (auto simp: store_ok_def task_ok_def)
  have p: "prune_responses env s = s" using s by (simp add: store_ok_def prune_responses_def)
  have w: "view env t s = Some r" using s p by (simp add: view_def store_ok_def)
  let ?e = "JObj [(''state'', JStr (if tr_state r = [] then ''created'' else tr_state r)), (''at'', JStr (iso (en_now env))),
                   (''checkpoint'', JBool True)]"
  have "jfield ''checkpoint'' ?e = JBool True" by (simp add: jfield_def jget_def)
  then have "\<not> is_success ?e" by (simp add: is_success_def truthy_def)
  moreover have "task_step s (env, Note_task t [] None) = s\<lparr>ts_files := dict_put t
     (r\<lparr>tr_updated_at := iso (en_now env), tr_history := trim_history (tr_history r @ [?e])\<rparr>) (ts_files s)\<rparr>"
    using s v env
    by (simp add: task_step_def checkpoint_def then_do_def read_view w p merge_into_def clean_event_def forbidden_def
        write_task_def reads_def modify_def Let_def add_event_def ret_def)
  ultimately show ?thesis by blast
qed

lemma notes_run:
  assumes "store_ok s" "\<not> ts_memory s" "map_of (ts_files s) t = Some r" "\<forall>env \<in> set envs. roomy env"
    "tail_notes n (tr_history r)" "n + length envs \<le> 63"
  shows "\<exists>r'. map_of (ts_files (tasks.run s (map (\<lambda>env. (env, Note_task t [] None)) envs))) t = Some r'
     \<and> tr_state r' = tr_state r \<and> tr_response r' = tr_response r \<and> tr_acknowledged_at r' = tr_acknowledged_at r
     \<and> hd (tr_history r') = hd (tr_history r) \<and> tail_notes (n + length envs) (tr_history r')"
  using assms
proof (induction envs arbitrary: s r n)
  case (Cons env envs)
  obtain e where e: "\<not> is_success e" "task_step s (env, Note_task t [] None) = s\<lparr>ts_files := dict_put t
     (r\<lparr>tr_updated_at := iso (en_now env), tr_history := trim_history (tr_history r @ [e])\<rparr>) (ts_files s)\<rparr>"
    using note_step [OF Cons.prems(1-3), of env] Cons.prems(4) by auto
  let ?s = "task_step s (env, Note_task t [] None)"
    and ?r = "r\<lparr>tr_updated_at := iso (en_now env), tr_history := trim_history (tr_history r @ [e])\<rparr>"
  have h: "tail_notes (Suc n) (tr_history ?r)" using tail_notes_trim [OF Cons.prems(5) e(1)] Cons.prems(6) by simp
  have "tr_history r \<noteq> []" using Cons.prems(5) by (auto simp: tail_notes_def)
  then have hd: "hd (tr_history ?r) = hd (tr_history r)" using trim_facts [of "tr_history r @ [e]"] by simp
  have s: "store_ok ?s" "\<not> ts_memory ?s" "map_of (ts_files ?s) t = Some ?r"
    using step_ok [OF Cons.prems(1), of "(env, Note_task t [] None)"] by (simp_all add: e(2) Cons.prems(2))
  from Cons.IH [OF s _ h] Cons.prems(4,6) hd show ?case by simp
qed auto


text \<open>the grace period can end early. On disk, a record whose first event is not a success (the first event of
  a claimed record is its creation) no longer awaits its archive after 63 checkpoints, whatever the time: the
  history keeps the first event and the last 63, so the success has left it, although the record is still
  succeeded, still holds its response, and is not acknowledged.\<close>

theorem success_forgotten:
  assumes "map_of (ts_files (tasks.run empty_store cs)) t = Some r" "\<not> ts_memory (tasks.run empty_store cs)"
    "\<not> is_success (hd (tr_history r))" "length envs = 63" "\<forall>env \<in> set envs. roomy env"
  shows "\<exists>r'. map_of (ts_files (tasks.run empty_store (cs @ map (\<lambda>env. (env, Note_task t [] None)) envs))) t = Some r'
    \<and> tr_state r' = tr_state r \<and> tr_response r' = tr_response r \<and> tr_acknowledged_at r' = tr_acknowledged_at r
    \<and> awaiting_archive r' now = Inr False"
proof -
  have "tail_notes 0 (tr_history r)"
    using reached_ok [of cs] assms(1) by (auto simp: store_ok_def task_ok_def tail_notes_def)
  from notes_run [OF reached_ok assms(2,1,5) this] assms(4) obtain r' where r':
    "map_of (ts_files (tasks.run empty_store (cs @ map (\<lambda>env. (env, Note_task t [] None)) envs))) t = Some r'"
    "tr_state r' = tr_state r" "tr_response r' = tr_response r" "tr_acknowledged_at r' = tr_acknowledged_at r"
    "hd (tr_history r') = hd (tr_history r)" "tail_notes 63 (tr_history r')"
    unfolding tasks.run_append by auto
  have "length (tr_history r') \<le> 64"
    using reached_ok [of "cs @ map (\<lambda>env. (env, Note_task t [] None)) envs"] r'(1) by (auto simp: store_ok_def task_ok_def)
  from forgotten [OF only_notes [OF r'(6) this]] r' assms(3) show ?thesis by auto
qed

subsection \<open>A paid task\<close>

definition paid_ops :: "(task_env \<times> task_op) list" where
  "paid_ops = (plain_env 0, Claim_task ''t'' [(''k'', ''v'')])
     # map (\<lambda>state. (plain_env 0, Move_task ''t'' state [] (if state = ''succeeded'' then Some (JInt 1) else None) False))
         [''accepted'', ''running'', ''succeeded'']"

definition paid_event :: "string \<Rightarrow> json" where
  "paid_event state = JObj [(''state'', JStr state), (''at'', JStr (iso 0))]"

definition paid_task :: task where
  "paid_task = \<lparr>tr_id = ''t'', tr_state = ''succeeded'', tr_bindings = Some [(''k'', ''v'')], tr_created_at = iso 0,
     tr_updated_at = iso 0, tr_history = map paid_event [''created'', ''accepted'', ''running'', ''succeeded''],
     tr_response = Some (JInt 1), tr_purged_at = None, tr_acknowledged_at = None\<rparr>"

lemma paid_run: "tasks.run empty_store paid_ops = \<lparr>ts_files = [(''t'', paid_task)], ts_memory = False, ts_responses = []\<rparr>"
proof -
  have v: "valid_task_id ''t''" by code_simp
  show ?thesis
    by (simp add: paid_ops_def paid_task_def paid_event_def task_step_def claim_def transition_def read_task_def v reads_def then_do_def
        ret_def prune_responses_def empty_store_def dict_vals_def trim_history_def event_def
        write_task_def modify_def plain_env_def Let_def ALL_STATES_def TERMINAL_STATES_def ALLOWED_TRANSITIONS_def
        recovers_def move_def merge_into_def clean_event_def forbidden_def add_event_def)
qed

lemma paid_awaits: "awaiting_archive paid_task 0 = Inr True"
proof -
  have "parse_time (JStr (iso 0)) = Inr 0"
    using utc_of_z(2) [of 0] by (simp add: parse_time_def instant_def MAX_DAYS_def DAY_def)
  moreover have "iso 0 \<noteq> []" by (simp add: iso_def)
  ultimately show ?thesis
    by (simp add: awaiting_archive_def paid_task_def paid_event_def is_success_def jfield_def jget_def truthy_def
        UNACKNOWLEDGED_SUCCESS_GRACE_def DAY_def)
qed

lemma archive_kept_witness:
  "fst (read_task (plain_env 0) ''t'' (snd (purge_expired_responses (plain_env 0) (tasks.run empty_store paid_ops)))) = Inr (Some paid_task)"
proof -
  have v: "valid_task_id ''t''" by code_simp
  have r: "fst (read_task (plain_env 0) ''t'' (tasks.run empty_store paid_ops)) = Inr (Some paid_task)"
    by (simp add: paid_run read_view v view_def prune_responses_def)
  show ?thesis by (rule archive_kept [OF r]) (simp add: plain_env_def paid_awaits)
qed

lemma success_forgotten_witness:
  "\<exists>r'. map_of (ts_files (tasks.run empty_store (paid_ops @ map (\<lambda>env. (env, Note_task ''t'' [] None)) (replicate 63 (plain_env 0))))) ''t'' = Some r'
    \<and> tr_state r' = ''succeeded'' \<and> tr_response r' = Some (JInt 1) \<and> awaiting_archive r' 0 = Inr False"
proof -
  have s: "map_of (ts_files (tasks.run empty_store paid_ops)) ''t'' = Some paid_task" "\<not> ts_memory (tasks.run empty_store paid_ops)"
    by (simp_all add: paid_run)
  have f: "\<not> is_success (hd (tr_history paid_task))"
    by (simp add: paid_task_def paid_event_def is_success_def jfield_def jget_def)
  from success_forgotten [OF s f, of "replicate 63 (plain_env 0)" 0] show ?thesis
    by (auto simp: plain_env_def paid_task_def)
qed

end
