(* ===== verification/Json_Read.thy ===== *)
theory Json_Read
  imports Crypto
begin

section \<open>Reading JSON text\<close>

text \<open>
  \<open>json.loads\<close> on the values of the model, and the decoders around it: UTF-8 as far as code points below 256
  go, and base64 as \<open>base64.b64decode\<close> reads it without \<open>validate\<close>, skipping foreign characters. \<open>None\<close> is a
  text that Python rejects, or one that holds a value outside the model (a float, a larger code point). The
  scanner runs on fuel; twice the length of the text is always enough (\<open>json_loads_enc\<close>). What the encoder of
  \<open>Json\<close> writes reads back (\<open>json_loads_enc\<close>, \<open>decode_utf8\<close>, \<open>loose_b64\<close>).
\<close>

subsection \<open>UTF-8\<close>

fun decode_utf8 :: "string \<Rightarrow> string option" where
  "decode_utf8 [] = Some []"
| "decode_utf8 (c # cs) = (let n = of_char c :: nat in
     if n < 128 then map_option ((#) c) (decode_utf8 cs)
     else case cs of [] \<Rightarrow> None | d # ds \<Rightarrow>
       (let k = of_char d :: nat in
        if (n = 194 \<or> n = 195) \<and> 128 \<le> k \<and> k < 192
        then map_option ((#) (char_of ((n - 192) * 64 + (k - 128)))) (decode_utf8 ds) else None))"

lemma decode_utf8_char: "decode_utf8 (utf8_char c @ s) = map_option ((#) c) (decode_utf8 s)"
proof (cases "(of_char c :: nat) < 128")
  case True
  then show ?thesis by (simp add: utf8_char_def)
next
  case False
  let ?n = "of_char c :: nat"
  have "?n < 256" by (rule of_char_lt)
  with False have d: "?n div 64 = 2 \<or> ?n div 64 = 3" by arith
  have "?n mod 64 < 64" by simp
  then have k: "(128 + ?n mod 64) mod 256 = 128 + ?n mod 64" by (intro mod_less) linarith
  have n: "?n div 64 * 64 + ?n mod 64 = ?n" by simp
  have e: "(of_char (char_of (192 + ?n div 64) :: char) :: nat) = 192 + ?n div 64"
    "(of_char (char_of (128 + ?n mod 64) :: char) :: nat) = 128 + ?n mod 64"
    using d k by (auto simp only: of_char_of) auto
  show ?thesis
    using False d n e by (auto simp: utf8_char_def Let_def simp del: of_char_of)
qed

lemma decode_utf8: "decode_utf8 (utf8 s) = Some s"
  by (induction s) (simp_all add: utf8_Cons decode_utf8_char, simp add: utf8_def)

subsection \<open>Strings and numbers\<close>

definition is_hex :: "char \<Rightarrow> bool" where
  "is_hex c \<longleftrightarrow> (let n = of_char c :: nat in 48 \<le> n \<and> n \<le> 57 \<or> 97 \<le> n \<and> n \<le> 102 \<or> 65 \<le> n \<and> n \<le> 70)"

definition hex_code :: "char \<Rightarrow> nat" where
  "hex_code c = (let n = of_char c :: nat in if n < 58 then n - 48 else if n < 71 then n - 55 else n - 87)"

definition escapes :: "(char, char) dict" where
  "escapes = [(CHR 0x22, CHR 0x22), (CHR 0x5C, CHR 0x5C), (CHR 0x2F, CHR 0x2F), (CHR ''b'', CHR 0x08),
     (CHR ''f'', CHR 0x0C), (CHR ''n'', CHR 0x0A), (CHR ''r'', CHR 0x0D), (CHR ''t'', CHR 0x09)]"

definition prefixed :: "char \<Rightarrow> (string \<times> string) option \<Rightarrow> (string \<times> string) option" where
  "prefixed c r = map_option (map_prod ((#) c) id) r"

text \<open>The rest of a string literal, after its opening quote.\<close>

function read_str :: "string \<Rightarrow> (string \<times> string) option" where
  "read_str s = (case s of [] \<Rightarrow> None | c # cs \<Rightarrow>
     if c = CHR 0x22 then Some ([], cs)
     else if c = CHR 0x5C then
       (case cs of [] \<Rightarrow> None | e # es \<Rightarrow>
          if e = CHR ''u'' then
            (if 4 \<le> length es \<and> list_all is_hex (take 4 es)
                \<and> foldl (\<lambda>a h. 16 * a + hex_code h) 0 (take 4 es) < 256
             then prefixed (char_of (foldl (\<lambda>a h. 16 * a + hex_code h) 0 (take 4 es))) (read_str (drop 4 es))
             else None)
          else (case map_of escapes e of None \<Rightarrow> None | Some x \<Rightarrow> prefixed x (read_str es)))
     else if (of_char c :: nat) < 32 then None
     else prefixed c (read_str cs))"
  by auto
termination by (relation "measure length") auto

declare read_str.simps [simp del]

lemma hex_code_digit: "n < 16 \<Longrightarrow> hex_code (hex_digit n) = n \<and> is_hex (hex_digit n)"
  by (auto simp: hex_code_def hex_digit_def is_hex_def of_char_of Let_def)

lemma read_esc: "read_str (esc_char c @ s) = prefixed c (read_str s)"
proof -
  let ?n = "of_char c :: nat"
  consider (short) "?n \<in> {34, 92, 10, 13, 9, 12, 8}" | (control) "?n < 32" "?n \<notin> {10, 13, 9, 12, 8}"
    | (plain) "32 \<le> ?n" "?n \<notin> {34, 92}"
    by (cases "?n < 32") auto
  then show ?thesis
  proof cases
    case short
    have "?n = 34 \<Longrightarrow> c = CHR 0x22" "?n = 92 \<Longrightarrow> c = CHR 0x5C" "?n = 10 \<Longrightarrow> c = CHR 0x0A" "?n = 13 \<Longrightarrow> c = CHR 0x0D"
      "?n = 9 \<Longrightarrow> c = CHR 0x09" "?n = 12 \<Longrightarrow> c = CHR 0x0C" "?n = 8 \<Longrightarrow> c = CHR 0x08"
      by (rule of_char_nat_inj, simp)+
    with short have "c = CHR 0x22 \<or> c = CHR 0x5C \<or> c = CHR 0x0A \<or> c = CHR 0x0D \<or> c = CHR 0x09 \<or> c = CHR 0x0C \<or> c = CHR 0x08"
      by blast
    then show ?thesis
      by (elim disjE) (simp_all add: esc_char_def read_str.simps [of "_ # _"] escapes_def)
  next
    case control
    have z: "is_hex (CHR ''0'')" "hex_code (CHR ''0'') = 0" by (simp_all add: is_hex_def hex_code_def)
    have h: "?n div 16 < 16" "?n mod 16 < 16" using control by auto
    have e: "esc_char c = [CHR 0x5C, CHR ''u'', CHR ''0'', CHR ''0'', hex_digit (?n div 16), hex_digit (?n mod 16)]"
      using control by (simp add: esc_char_def Let_def)
    have "16 * (?n div 16) + ?n mod 16 = ?n" by simp
    then show ?thesis
      using hex_code_digit [OF h(1)] hex_code_digit [OF h(2)] control
      by (simp add: e read_str.simps [of "_ # _"] z)
  next
    case plain
    then have "c \<noteq> CHR 0x22" "c \<noteq> CHR 0x5C" by auto
    with plain show ?thesis by (auto simp: esc_char_def Let_def read_str.simps [of "_ # _"])
  qed
qed

lemma read_qstr: "read_str (concat (map esc_char s) @ CHR 0x22 # x) = Some (s, x)"
  by (induction s) (simp_all add: read_esc prefixed_def, simp add: read_str.simps)

definition read_number :: "string \<Rightarrow> (json \<times> string) option" where
  "read_number s = (let minus = (s \<noteq> [] \<and> hd s = CHR ''-''); t = (if minus then tl s else s); ds = takeWhile is_digit t in
     if ds = [] then None
     else if hd ds = CHR ''0'' then Some (JInt 0, tl t)
     else Some (JInt (if minus then - int (digits_val ds) else int (digits_val ds)), drop (length ds) t))"

lemma show_nat_zero: "hd (show_nat n) = CHR ''0'' \<longleftrightarrow> n = 0"
proof (induction n rule: show_nat.induct)
  case (1 n)
  show ?case
  proof (cases "n < 10")
    case True
    have "digit_char n = CHR ''0'' \<longleftrightarrow> (of_char (digit_char n) :: nat) = of_char (CHR ''0'')"
      by (simp only: of_char_eq_iff)
    then have "digit_char n = CHR ''0'' \<longleftrightarrow> n = 0" using of_digit_char [OF True] by simp
    with True show ?thesis by (subst show_nat.simps) (simp del: digit_char.simps)
  next
    case False
    then have "hd (show_nat n) = hd (show_nat (n div 10))"
      using show_nat_ne by (subst show_nat.simps) (simp del: digit_char.simps)
    with False 1 show ?thesis by auto
  qed
qed

lemma read_show_int:
  assumes "delim x"
  shows "read_number (show_int i @ x) = Some (JInt i, x)"
proof -
  have m: "hd (show_nat n @ y) \<noteq> CHR ''-''" for n y using show_nat_hd [of n y] by fastforce
  have ne: "show_nat n @ y \<noteq> []" for n y using show_nat_ne by simp
  have z: "show_nat 0 = ''0''" by code_simp
  show ?thesis
  proof (cases "i < 0")
    case True
    then have "nat (- i) \<noteq> 0" by simp
    with True takeWhile_show_nat [OF assms, of "nat (- i)"] show_nat_ne [of "nat (- i)"] show_nat_zero [of "nat (- i)"]
    show ?thesis by (simp add: read_number_def show_int_def Let_def show_nat_val)
  next
    case False
    with takeWhile_show_nat [OF assms, of "nat i"] show_nat_ne [of "nat i"] show_nat_zero [of "nat i"] m [of "nat i" x] ne [of "nat i" x]
    show ?thesis by (cases "i = 0") (simp_all add: read_number_def show_int_def Let_def show_nat_val z)
  qed
qed


subsection \<open>Values\<close>

definition is_ws :: "char \<Rightarrow> bool" where
  "is_ws c \<longleftrightarrow> c = CHR '' '' \<or> c = CHR 0x09 \<or> c = CHR 0x0A \<or> c = CHR 0x0D"

definition skip_ws :: "string \<Rightarrow> string" where
  "skip_ws s = dropWhile is_ws s"

text \<open>\<open>dict(pairs)\<close>: the last value of a key, at its first position.\<close>

definition dict_of :: "(string, 'v) dict \<Rightarrow> (string, 'v) dict" where
  "dict_of kvs = fold (\<lambda>(k, v). dict_put k v) kvs []"

text \<open>A value; the elements of an array up to its bracket; the members of an object up to its brace.\<close>

fun read_value :: "nat \<Rightarrow> string \<Rightarrow> (json \<times> string) option"
  and read_items :: "nat \<Rightarrow> string \<Rightarrow> (json list \<times> string) option"
  and read_members :: "nat \<Rightarrow> string \<Rightarrow> ((string, json) dict \<times> string) option" where
  "read_value 0 s = None"
| "read_value (Suc n) s = (case s of [] \<Rightarrow> None | c # cs \<Rightarrow>
     if c = CHR 0x22 then map_option (map_prod JStr id) (read_str cs)
     else if c = CHR ''['' then
       (let t = skip_ws cs in
        if t \<noteq> [] \<and> hd t = CHR '']'' then Some (JArr [], tl t)
        else map_option (map_prod JArr id) (read_items n t))
     else if c = CHR ''{'' then
       (let t = skip_ws cs in
        if t \<noteq> [] \<and> hd t = CHR ''}'' then Some (JObj [], tl t)
        else map_option (map_prod (\<lambda>kvs. JObj (dict_of kvs)) id) (read_members n t))
     else if take 4 s = ''null'' then Some (JNull, drop 4 s)
     else if take 4 s = ''true'' then Some (JBool True, drop 4 s)
     else if take 5 s = ''false'' then Some (JBool False, drop 5 s)
     else read_number s)"
| "read_items 0 s = None"
| "read_items (Suc n) s = (case read_value n s of None \<Rightarrow> None | Some (x, r) \<Rightarrow>
     (case skip_ws r of [] \<Rightarrow> None | c # t \<Rightarrow>
        if c = CHR '']'' then Some ([x], t)
        else if c = CHR '','' then map_option (map_prod ((#) x) id) (read_items n (skip_ws t))
        else None))"
| "read_members 0 s = None"
| "read_members (Suc n) s = (case s of [] \<Rightarrow> None | q # s \<Rightarrow>
     if q \<noteq> CHR 0x22 then None
     else case read_str s of None \<Rightarrow> None | Some (k, r) \<Rightarrow>
     (case skip_ws r of [] \<Rightarrow> None | c # t \<Rightarrow>
        if c \<noteq> CHR '':'' then None
        else case read_value n (skip_ws t) of None \<Rightarrow> None | Some (v, r) \<Rightarrow>
        (case skip_ws r of [] \<Rightarrow> None | c # t \<Rightarrow>
           if c = CHR ''}'' then Some ([(k, v)], t)
           else if c = CHR '','' then map_option (map_prod ((#) (k, v)) id) (read_members n (skip_ws t))
           else None)))"

definition json_loads :: "string \<Rightarrow> json option" where
  "json_loads s = (case read_value (2 * length s + 2) (skip_ws s) of None \<Rightarrow> None
     | Some (j, r) \<Rightarrow> if skip_ws r = [] then Some j else None)"

text \<open>Decoded values have distinct keys at every level.\<close>

fun json_ok :: "json \<Rightarrow> bool" where
  "json_ok (JArr xs) = list_all json_ok xs"
| "json_ok (JObj kvs) = (dict_ok kvs \<and> list_all (\<lambda>kv. json_ok (snd kv)) kvs)"
| "json_ok _ = True"

lemma dict_of_ok:
  assumes "dict_ok kvs"
  shows "dict_of kvs = kvs"
proof -
  have "dict_ok (acc @ kvs) \<Longrightarrow> fold (\<lambda>(k, v). dict_put k v) kvs acc = acc @ kvs" for acc
  proof (induction kvs arbitrary: acc)
    case (Cons kv kvs)
    obtain k v where kv: "kv = (k, v)" by (cases kv)
    have "map_of acc k = None" using Cons.prems by (auto simp: kv dict_ok_def map_of_eq_None_iff)
    then have "dict_put k v acc = acc @ [(k, v)]" by (rule put_fresh)
    with Cons.IH [of "acc @ [(k, v)]"] Cons.prems show ?case by (simp add: kv)
  qed simp
  from this [of "[]"] assms show ?thesis by (simp add: dict_of_def)
qed

lemma ws_head: "is_ws c \<Longrightarrow> c \<notin> enc_head j"
  by (cases j) (auto simp: enc_head_def is_ws_def is_digit_def)

lemma skip_enc: "skip_ws (enc j @ x) = enc j @ x"
  using enc_hd [of j x] ws_head [of "hd (enc j @ x)" j] by (cases "enc j @ x") (auto simp: skip_ws_def)

lemma skip_punct [simp]: "skip_ws (CHR '']'' # x) = CHR '']'' # x" "skip_ws (CHR ''}'' # x) = CHR ''}'' # x"
  "skip_ws (CHR '','' # x) = CHR '','' # x" "skip_ws (CHR '':'' # x) = CHR '':'' # x" "skip_ws (CHR 0x22 # x) = CHR 0x22 # x"
  by (simp_all add: skip_ws_def is_ws_def)

lemma skip_items: "skip_ws (enc_items xs @ x) = enc_items xs @ x"
  by (cases xs) (simp_all add: enc_items_Cons skip_enc)

lemma skip_members: "skip_ws (enc_fields kvs @ x) = enc_fields kvs @ x"
  by (cases kvs) (auto simp: enc_fields_Cons qstr_def)

lemma number_head:
  assumes "is_digit (hd s) \<or> hd s = CHR ''-''" "s \<noteq> []"
  shows "read_value (Suc n) s = read_number s"
proof -
  obtain c cs where s: "s = c # cs" using assms(2) by (cases s) auto
  have "c \<noteq> CHR 0x22" "c \<noteq> CHR ''[''" "c \<noteq> CHR ''{''" "c \<noteq> CHR ''n''" "c \<noteq> CHR ''t''" "c \<noteq> CHR ''f''"
    using assms(1) s by auto
  then show ?thesis by (simp add: s)
qed


lemma items_open: "xs \<noteq> [] \<Longrightarrow> enc_items xs @ x \<noteq> [] \<and> hd (enc_items xs @ x) \<noteq> CHR '']''"
proof -
  assume "xs \<noteq> []"
  then obtain y ys where xs: "xs = y # ys" by (cases xs) auto
  have "CHR '']'' \<notin> enc_head y" by (cases y) (auto simp: enc_head_def)
  with enc_hd [of y "items_tail ys @ x"] show ?thesis by (auto simp: xs enc_items_Cons)
qed

lemma enc_length: "0 < length (enc j)"
  by simp

theorem read_enc:
  "json_ok j \<Longrightarrow> delim x \<Longrightarrow> 2 * length (enc j) \<le> n \<Longrightarrow> read_value n (enc j @ x) = Some (j, x)"
  "xs \<noteq> [] \<Longrightarrow> list_all json_ok xs \<Longrightarrow> 2 * length (enc_items xs) < n \<Longrightarrow> read_items n (enc_items xs @ x) = Some (xs, x)"
  "kvs \<noteq> [] \<Longrightarrow> list_all (\<lambda>kv. json_ok (snd kv)) kvs \<Longrightarrow> 2 * length (enc_fields kvs) < n
     \<Longrightarrow> read_members n (enc_fields kvs @ x) = Some (kvs, x)"
proof (induction j and xs and kvs arbitrary: n x and n x and n x rule: enc_enc_items_enc_fields.induct)
  case 1
  then show ?case by (cases n) auto
next
  case (2 b)
  then show ?case by (cases n; cases b) auto
next
  case (3 i)
  then obtain m where n: "n = Suc m" using enc_length [of "JInt i"] by (cases n) auto
  have "show_int i @ x \<noteq> []" using enc_ne [of "JInt i"] by simp
  with number_head [of "show_int i @ x" m] show_int_hd [of i x] read_show_int [OF "3.prems"(2), of i] n
  show ?case by simp
next
  case (4 s)
  then show ?case by (cases n) (simp_all add: qstr_def read_qstr)
next
  case (5 xs)
  then obtain m where n: "n = Suc m" by (cases n) auto
  show ?case
  proof (cases "xs = []")
    case False
    have "enc_items xs @ x \<noteq> []" "hd (enc_items xs @ x) \<noteq> CHR '']''"
      using items_open [OF False] by simp_all
    with 5 n False show ?thesis by (simp add: skip_items)
  qed (simp add: n)
next
  case (6 kvs)
  then obtain m where n: "n = Suc m" by (cases n) auto
  show ?case
  proof (cases "kvs = []")
    case False
    have "enc_fields kvs @ x \<noteq> []" "hd (enc_fields kvs @ x) \<noteq> CHR ''}''"
      using False by (cases kvs; auto simp: enc_fields_Cons qstr_def)+
    with 6 n False show ?thesis by (simp add: skip_members dict_of_ok)
  qed (simp add: n)
next
  case (8 y)
  then obtain m where n: "n = Suc m" by (cases n) auto
  with 8 show ?case by simp
next
  case (9 y z xs)
  then obtain m where n: "n = Suc m" by (cases n) auto
  have "read_value m (enc y @ CHR '','' # enc_items (z # xs) @ x) = Some (y, CHR '','' # enc_items (z # xs) @ x)"
    using "9.prems" n by (intro "9.IH"(1)) auto
  moreover have "read_items m (enc_items (z # xs) @ x) = Some (z # xs, x)"
    using "9.prems" n by (intro "9.IH"(2)) auto
  ultimately show ?case using n by (simp add: skip_items)
next
  case (11 k v)
  then obtain m where n: "n = Suc m" by (cases n) auto
  have "read_value m (enc v @ CHR ''}'' # x) = Some (v, CHR ''}'' # x)"
    using "11.prems" n by (intro "11.IH") auto
  with n show ?case by (simp add: qstr_def read_qstr skip_enc)
next
  case (12 k v kv kvs)
  then obtain m where n: "n = Suc m" by (cases n) auto
  have "read_value m (enc v @ CHR '','' # enc_fields (kv # kvs) @ x) = Some (v, CHR '','' # enc_fields (kv # kvs) @ x)"
    using "12.prems" n by (intro "12.IH"(1)) auto
  moreover have "read_members m (enc_fields (kv # kvs) @ x) = Some (kv # kvs, x)"
    using "12.prems" n by (intro "12.IH"(2)) auto
  ultimately show ?case using n by (simp add: qstr_def read_qstr skip_enc skip_members)
qed simp_all

theorem json_loads_enc:
  assumes "json_ok j"
  shows "json_loads (enc j) = Some j"
proof -
  have "read_value (2 * length (enc j) + 2) (skip_ws (enc j)) = Some (j, [])"
    using read_enc(1) [of j "[]" "2 * length (enc j) + 2"] assms skip_enc [of j "[]"] by (simp add: delim_def)
  then show ?thesis by (simp only: json_loads_def) (simp add: skip_ws_def)
qed

subsection \<open>Base64 as the receiver reads it\<close>

fun loose_from :: "nat list \<Rightarrow> nat \<Rightarrow> string \<Rightarrow> nat list option" where
  "loose_from vs pads [] = (if vs = [] then Some [] else None)"
| "loose_from vs pads (c # cs) =
     (if c = CHR ''='' then
        (case vs of
           [a, b] \<Rightarrow> if 4 \<le> 2 + Suc pads then Some [a * 4 + b div 16] else loose_from vs (Suc pads) cs
         | [a, b, d] \<Rightarrow> Some [a * 4 + b div 16, (b mod 16) * 16 + d div 4]
         | _ \<Rightarrow> loose_from vs pads cs)
      else case b64_val c of None \<Rightarrow> loose_from vs pads cs
        | Some v \<Rightarrow> (case vs of
            [a, b, d] \<Rightarrow> map_option (\<lambda>bs. [a * 4 + b div 16, (b mod 16) * 16 + d div 4, (d mod 4) * 64 + v] @ bs)
              (loose_from [] 0 cs)
          | _ \<Rightarrow> loose_from (vs @ [v]) 0 cs))"

text \<open>Bytes are strings here: \<open>b64encode(bytes)\<close> and \<open>b64decode(text)\<close>; text outside ASCII is a ValueError.\<close>

definition b64_text :: "string \<Rightarrow> string" where
  "b64_text bs = b64_encode (map of_char bs)"

definition b64_bytes :: "string \<Rightarrow> string option" where
  "b64_bytes s = (if list_all (\<lambda>c. (of_char c :: nat) < 128) s then map_option (map char_of) (loose_from [] 0 s) else None)"


lemma b64_char_plain: "v < 64 \<Longrightarrow> b64_char v \<noteq> CHR ''=''" "v < 64 \<Longrightarrow> (of_char (b64_char v) :: nat) < 128"
proof -
  show "v < 64 \<Longrightarrow> b64_char v \<noteq> CHR ''=''" by (metis b64_val_char b64_val_pad option.distinct(1))
  show "v < 64 \<Longrightarrow> (of_char (b64_char v) :: nat) < 128" by (auto simp: b64_char_def of_char_of)
qed

lemma loose_b64: "\<forall>b \<in> set bs. b < 256 \<Longrightarrow> loose_from [] 0 (b64_encode bs) = Some bs"
proof (induction bs rule: b64_encode.induct)
  case (4 a b c bs)
  then show ?case by (simp add: b64_split b64_char_plain div_small)
qed (simp_all add: b64_split b64_char_plain div_small)

lemma b64_encode_ascii: "\<forall>b \<in> set bs. b < 256 \<Longrightarrow> list_all (\<lambda>c. (of_char c :: nat) < 128) (b64_encode bs)"
  by (induction bs rule: b64_encode.induct) (simp_all add: b64_split b64_char_plain)

theorem b64_bytes_text: "b64_bytes (b64_text s) = Some s"
proof -
  have b: "\<forall>b \<in> set (map of_char s). b < (256 :: nat)" by (auto simp: of_char_lt)
  have "map char_of (map of_char s :: nat list) = s" by (simp add: map_idI)
  then show ?thesis
    using loose_b64 [OF b] b64_encode_ascii [OF b] by (simp add: b64_bytes_def b64_text_def del: map_map)
qed

end
