(* ===== verification/Task_Envelopes.thy ===== *)
theory Task_Envelopes
  imports Json_Read Task_Orders
begin

section \<open>Sealed task envelopes\<close>

text \<open>
  \<open>src/rynmesh/services/peer_box.py\<close> and the first half of \<open>src/rynmesh/llm_package/task_protocol.py\<close>. X25519, HKDF
  and ChaCha20-Poly1305 come from the package \<open>cryptography\<close> and are the fields of the record \<open>box\<close>, over byte
  strings; \<open>box_law\<close> states what their documentation promises. The fresh key and nonce of a message are
  arguments. The locale \<open>sealed_channel\<close> is what the envelopes rely on: a sealed text opens for the other key.
\<close>

subsection \<open>The box\<close>

record box =
  x_public :: "string \<Rightarrow> string"
  x_exchange :: "string \<Rightarrow> string \<Rightarrow> string option"
  hkdf :: "string \<Rightarrow> string \<Rightarrow> string"
  aead_seal :: "string \<Rightarrow> string \<Rightarrow> string \<Rightarrow> string"
  aead_open :: "string \<Rightarrow> string \<Rightarrow> string \<Rightarrow> string option"

definition INFO :: string where "INFO = ''rynmesh-peer-msg-v1''"

definition public_key_b64 :: "box \<Rightarrow> string \<Rightarrow> string" where
  "public_key_b64 B priv = b64_text (x_public B priv)"

definition shared_key :: "box \<Rightarrow> string \<Rightarrow> string \<Rightarrow> string \<Rightarrow> py_error + string" where
  "shared_key B priv their_pub info =
     bnd (opt_or ValueError (b64_bytes their_pub)) (\<lambda>pub.
     require (length pub = 32) ValueError (
     bnd (opt_or ValueError (x_exchange B priv pub)) (\<lambda>raw. Inr (hkdf B info raw))))"

definition seal_box :: "box \<Rightarrow> string \<Rightarrow> string \<Rightarrow> string \<Rightarrow> string \<Rightarrow> string \<Rightarrow> py_error + (string \<times> string)" where
  "seal_box B priv their_pub plaintext info nonce =
     bnd (shared_key B priv their_pub info) (\<lambda>k.
     Inr (b64_text nonce, b64_text (aead_seal B k nonce plaintext)))"

definition open_sealed :: "box \<Rightarrow> string \<Rightarrow> string \<Rightarrow> string \<Rightarrow> string \<Rightarrow> string \<Rightarrow> py_error + string" where
  "open_sealed B priv their_pub nonce ct info =
     bnd (shared_key B priv their_pub info) (\<lambda>k.
     bnd (opt_or ValueError (b64_bytes nonce)) (\<lambda>n.
     bnd (opt_or ValueError (b64_bytes ct)) (\<lambda>c.
     opt_or (Raised ''InvalidTag'') (aead_open B k n c))))"

definition box_key :: "string \<Rightarrow> bool" where "box_key k \<longleftrightarrow> length k = 32"

definition box_nonce :: "string \<Rightarrow> bool" where "box_nonce n \<longleftrightarrow> length n = 12"

text \<open>Both sides derive the same secret; what is sealed opens, and is not empty; and only sealed bytes open.\<close>

definition box_law :: "box \<Rightarrow> bool" where
  "box_law B \<longleftrightarrow> (\<forall>a. box_key a \<longrightarrow> length (x_public B a) = 32)
     \<and> (\<forall>a b. box_key a \<and> box_key b \<longrightarrow> (\<exists>s. x_exchange B a (x_public B b) = Some s \<and> x_exchange B b (x_public B a) = Some s))
     \<and> (\<forall>info s. length (hkdf B info s) = 32)
     \<and> (\<forall>k n p. length k = 32 \<and> box_nonce n \<longrightarrow> aead_open B k n (aead_seal B k n p) = Some p)
     \<and> (\<forall>k n p. length k = 32 \<and> box_nonce n \<longrightarrow> aead_seal B k n p \<noteq> [])
     \<and> (\<forall>k n c p. aead_open B k n c = Some p \<longrightarrow> c = aead_seal B k n p)"

subsection \<open>The interface\<close>

definition read_json :: "string \<Rightarrow> py_error + json" where
  "read_json bytes = bnd (opt_or ValueError (decode_utf8 bytes)) (\<lambda>text. opt_or ValueError (json_loads text))"

locale sealed_channel =
  fixes seal :: "'b \<Rightarrow> string \<Rightarrow> string \<Rightarrow> string \<Rightarrow> string \<Rightarrow> string \<Rightarrow> py_error + (string \<times> string)"
    and unseal :: "'b \<Rightarrow> string \<Rightarrow> string \<Rightarrow> string \<Rightarrow> string \<Rightarrow> string \<Rightarrow> py_error + string"
    and public :: "'b \<Rightarrow> string \<Rightarrow> string" and lawful :: "'b \<Rightarrow> bool" and key nonce :: "string \<Rightarrow> bool"
  assumes open_seal: "lawful B \<Longrightarrow> key a \<Longrightarrow> key b \<Longrightarrow> nonce n \<Longrightarrow>
    \<exists>nt ct. seal B a (public B b) p info n = Inr (nt, ct) \<and> unseal B b (public B a) nt ct info = Inr p"
begin

lemma json_open:
  assumes "lawful B" "key a" "key b" "nonce n" "json_ok j"
  shows "\<exists>nt ct. seal B a (public B b) (utf8 (enc j)) info n = Inr (nt, ct)
    \<and> bnd (unseal B b (public B a) nt ct info) read_json = Inr j"
proof -
  obtain nt ct where "seal B a (public B b) (utf8 (enc j)) info n = Inr (nt, ct)"
    "unseal B b (public B a) nt ct info = Inr (utf8 (enc j))" using open_seal [OF assms(1-4)] by blast
  then show ?thesis using assms(5) by (simp add: read_json_def decode_utf8 json_loads_enc)
qed

end

interpretation peer: sealed_channel seal_box open_sealed public_key_b64 box_law box_key box_nonce
proof
  fix B :: box and a b n p info :: string
  assume l: "box_law B" and k: "box_key a" "box_key b" and n: "box_nonce n"
  obtain s where s: "x_exchange B a (x_public B b) = Some s" "x_exchange B b (x_public B a) = Some s"
    using l k unfolding box_law_def by blast
  have "length (x_public B a) = 32" "length (x_public B b) = 32" "aead_open B (hkdf B info s) n (aead_seal B (hkdf B info s) n p) = Some p"
    using l k n unfolding box_law_def by blast+
  with s show "\<exists>nt ct. seal_box B a (public_key_b64 B b) p info n = Inr (nt, ct)
      \<and> open_sealed B b (public_key_b64 B a) nt ct info = Inr p"
    by (simp add: seal_box_def open_sealed_def shared_key_def public_key_b64_def b64_bytes_text)
qed

subsection \<open>Task envelopes\<close>

definition TASK_ENVELOPE_VERSION :: string where "TASK_ENVELOPE_VERSION = ''rynmesh.llm.e2ee.v1''"

definition task_outer :: "box \<Rightarrow> string \<Rightarrow> string \<Rightarrow> string \<Rightarrow> string \<Rightarrow> string \<Rightarrow> string \<Rightarrow> string \<times> string \<Rightarrow> json" where
  "task_outer B ephemeral task_id kind sender recipient expires_at sealed =
     JObj [(''version'', JStr TASK_ENVELOPE_VERSION), (''kind'', JStr kind), (''task_id'', JStr task_id),
       (''from_peer_id'', JStr sender), (''to_peer_id'', JStr recipient),
       (''ephemeral_pub'', JStr (public_key_b64 B ephemeral)), (''nonce'', JStr (fst sealed)),
       (''ciphertext'', JStr (snd sealed)), (''expires_at'', JStr expires_at)]"

definition seal_task :: "crypto \<Rightarrow> box \<Rightarrow> string \<Rightarrow> string \<Rightarrow> json \<Rightarrow> string \<Rightarrow> string \<Rightarrow> string \<Rightarrow> string \<Rightarrow> string \<Rightarrow> string
    \<Rightarrow> string \<Rightarrow> py_error + signed_payload" where
  "seal_task C B ephemeral nonce body task_id kind sender recipient signing_key messaging_pub expires_at =
     bnd (seal_box B ephemeral messaging_pub (utf8 (enc body)) INFO nonce) (\<lambda>sealed.
     Inr (sign_payload C (task_outer B ephemeral task_id kind sender recipient expires_at sealed) signing_key))"

abbreviation expired :: py_error where "expired \<equiv> Raised ''task envelope expired''"

text \<open>The guarded part of \<open>open_task\<close>; every error of it but the expiry is reported as one.\<close>

definition open_body :: "box \<Rightarrow> json \<Rightarrow> string \<Rightarrow> int \<Rightarrow> py_error + json" where
  "open_body B outer messaging_key now =
     (case
        bnd (jitem ''expires_at'' outer) (\<lambda>e. bnd (parse_time e) (\<lambda>t.
        require (\<not> t < now) expired (
        bnd (jitem ''ephemeral_pub'' outer) (\<lambda>pub. bnd (jitem ''nonce'' outer) (\<lambda>n. bnd (jitem ''ciphertext'' outer) (\<lambda>c.
        bnd (open_sealed B messaging_key (py_str pub) (py_str n) (py_str c) INFO) read_json))))))
      of Inr body \<Rightarrow> Inr body
       | Inl e \<Rightarrow> Inl (if e = expired then e else Raised ''task envelope authentication/decryption failed''))"

definition open_task :: "crypto \<Rightarrow> box \<Rightarrow> json \<Rightarrow> string \<Rightarrow> string \<Rightarrow> string \<Rightarrow> int \<Rightarrow> py_error + (json \<times> json)" where
  "open_task C B signed recipient messaging_key expected_kind now =
     bnd (from_dict signed) (\<lambda>envelope.
     bnd (verify_signed_payload C envelope) (\<lambda>_.
     let outer = sp_payload envelope in
     require (jfield ''version'' outer = JStr TASK_ENVELOPE_VERSION) (Raised ''task envelope version unsupported'') (
     require (jfield ''from_peer_id'' outer = JStr (sp_public_key envelope)) (Raised ''task sender identity/signature mismatch'') (
     require (jfield ''to_peer_id'' outer = JStr recipient) (Raised ''task recipient mismatch'') (
     require (expected_kind = [] \<or> jfield ''kind'' outer = JStr expected_kind) (Raised ''task envelope kind mismatch'') (
     bnd (open_body B outer messaging_key now) (\<lambda>body.
     require (is_obj body \<and> py_str (jfield ''task_id'' body) = py_str (jfield ''task_id'' outer))
       (Raised ''task body/id mismatch'') (Inr (outer, body)))))))))"

lemma outer_fields [simp]:
  "jget ''version'' (task_outer B eph t kind s r e x) = Some (JStr TASK_ENVELOPE_VERSION)"
  "jget ''kind'' (task_outer B eph t kind s r e x) = Some (JStr kind)"
  "jget ''task_id'' (task_outer B eph t kind s r e x) = Some (JStr t)"
  "jget ''from_peer_id'' (task_outer B eph t kind s r e x) = Some (JStr s)"
  "jget ''to_peer_id'' (task_outer B eph t kind s r e x) = Some (JStr r)"
  "jget ''ephemeral_pub'' (task_outer B eph t kind s r e x) = Some (JStr (public_key_b64 B eph))"
  "jget ''nonce'' (task_outer B eph t kind s r e x) = Some (JStr (fst x))"
  "jget ''ciphertext'' (task_outer B eph t kind s r e x) = Some (JStr (snd x))"
  "jget ''expires_at'' (task_outer B eph t kind s r e x) = Some (JStr e)"
  "is_obj (task_outer B eph t kind s r e x)"
  by (simp_all add: task_outer_def jget_def is_obj_def)

lemma jfield_get: "jget k j = Some v \<Longrightarrow> jfield k j = v" "jget k j = Some v \<Longrightarrow> jitem k j = Inr v"
  by (auto simp: jfield_def guard_simps)

lemma seal_then_open:
  assumes law: "signing_law C" "box_law B" and keys: "box_key ephemeral" "box_key messaging_key" "box_nonce nonce"
    and body: "json_ok body" "is_obj body" "jget ''task_id'' body = Some (JStr t)"
    and time: "parse_time (JStr expires_at) = Inr deadline" "now \<le> deadline"
    and kind: "expected_kind = [] \<or> expected_kind = kind"
  shows "\<exists>signed. seal_task C B ephemeral nonce body t kind (ed_public C signing_key) recipient signing_key
      (public_key_b64 B messaging_key) expires_at = Inr signed
    \<and> open_task C B (to_dict signed) recipient messaging_key expected_kind now = Inr (sp_payload signed, body)"
proof -
  obtain nt ct where s: "seal_box B ephemeral (public_key_b64 B messaging_key) (utf8 (enc body)) INFO nonce = Inr (nt, ct)"
    and o': "bnd (open_sealed B messaging_key (public_key_b64 B ephemeral) nt ct INFO) read_json = Inr body"
    using peer.json_open [OF law(2) keys body(1)] by blast
  let ?outer = "task_outer B ephemeral t kind (ed_public C signing_key) recipient expires_at (nt, ct)"
  have b: "open_body B ?outer messaging_key now = Inr body"
    using time o' by (simp add: open_body_def jfield_get)
  have "sp_payload (sign_payload C ?outer signing_key) = ?outer" "sp_public_key (sign_payload C ?outer signing_key) = ed_public C signing_key"
    by (simp_all add: sign_payload_def)
  moreover have "expected_kind = [] \<or> kind = expected_kind" using kind by blast
  ultimately show ?thesis
    using s b body(2,3) sign_verify [OF law(1), of ?outer signing_key]
    by (simp add: seal_task_def open_task_def jfield_get Let_def)
qed


text \<open>C28: a sealed task opens for its recipient. Whoever seals a body under its own identity for the recipient's
  messaging key makes an envelope that the recipient opens, before it expires, to exactly that body.\<close>

theorem sealed_task_opens:
  assumes law: "signing_law C" "box_law B" and keys: "box_key ephemeral" "box_key messaging_key" "box_nonce nonce"
    and body: "json_ok body" "is_obj body" "jget ''task_id'' body = Some (JStr t)"
    and time: "parse_time (JStr expires_at) = Inr deadline" "now \<le> deadline"
    and kind: "expected_kind = [] \<or> expected_kind = kind"
  shows "\<exists>signed. seal_task C B ephemeral nonce body t kind (ed_public C signing_key) recipient signing_key
      (public_key_b64 B messaging_key) expires_at = Inr signed
    \<and> open_task C B (to_dict signed) recipient messaging_key expected_kind now = Inr (sp_payload signed, body)"
  by (rule seal_then_open [OF assms])

text \<open>C29: what opens is authentic. When \<open>open_task\<close> returns, the outer fields are signed by the key they name as the
  sender, are addressed to this recipient, have the expected kind and have not expired; and the body is the JSON
  of the text that was sealed under the secret this key shares with the ephemeral key of the envelope, and names
  the task of the envelope.\<close>

theorem opened_task_authentic:
  assumes "box_law B" "open_task C B data recipient messaging_key expected_kind now = Inr (outer, body)"
  shows "\<exists>sender sig. jfield ''from_peer_id'' outer = JStr sender \<and> ed_ok C sender sig (canonical_json outer)
    \<and> jfield ''to_peer_id'' outer = JStr recipient \<and> (expected_kind = [] \<or> jfield ''kind'' outer = JStr expected_kind)
    \<and> (\<exists>deadline. parse_time (jfield ''expires_at'' outer) = Inr deadline \<and> now \<le> deadline)
    \<and> (\<exists>k n text. shared_key B messaging_key (py_str (jfield ''ephemeral_pub'' outer)) INFO = Inr k
        \<and> b64_bytes (py_str (jfield ''ciphertext'' outer)) = Some (aead_seal B k n text) \<and> read_json text = Inr body)
    \<and> py_str (jfield ''task_id'' body) = py_str (jfield ''task_id'' outer)"
proof -
  have law: "c = aead_seal B k n p" if "aead_open B k n c = Some p" for k n c p
    using assms(1) that unfolding box_law_def by blast
  from assms(2) obtain envelope where e: "outer = sp_payload envelope" "verify_signed_payload C envelope = Inr ()"
    "jfield ''from_peer_id'' outer = JStr (sp_public_key envelope)" "jfield ''to_peer_id'' outer = JStr recipient"
    "expected_kind = [] \<or> jfield ''kind'' outer = JStr expected_kind" "open_body B outer messaging_key now = Inr body"
    "py_str (jfield ''task_id'' body) = py_str (jfield ''task_id'' outer)"
    by (auto simp: open_task_def guard_simps Let_def)
  from e(6) obtain ex t pub n c x where f: "jget ''expires_at'' outer = Some ex" "parse_time ex = Inr t" "\<not> t < now"
    "jget ''ephemeral_pub'' outer = Some pub" "jget ''ciphertext'' outer = Some c"
    "open_sealed B messaging_key (py_str pub) (py_str n) (py_str c) INFO = Inr x" "read_json x = Inr body"
    by (auto simp: open_body_def guard_simps split: sum.splits)
  from f(6,7) obtain k nb cb p where g: "shared_key B messaging_key (py_str pub) INFO = Inr k" "b64_bytes (py_str c) = Some cb"
    "aead_open B k nb cb = Some p" "read_json p = Inr body"
    by (auto simp: open_sealed_def guard_simps)
  have "ed_ok C (sp_public_key envelope) (sp_signature envelope) (canonical_json outer)"
    using e(1,2) by (simp add: verify_signed_payload_def guard_simps)
  then show ?thesis
    using e f g law [OF g(3)] by (auto simp: jfield_get)
qed

subsection \<open>An instance\<close>

definition plain_box :: box where
  "plain_box = \<lparr>x_public = id, x_exchange = (\<lambda>a b. Some (map2 (\<lambda>x y. char_of (of_char x + of_char y :: nat)) a b)),
     hkdf = (\<lambda>info s. take 32 (s @ replicate 32 (CHR ''0''))), aead_seal = (\<lambda>k n p. k @ n @ p),
     aead_open = (\<lambda>k n c. if take (length (k @ n)) c = k @ n then Some (drop (length (k @ n)) c) else None)\<rparr>"

lemma plain_laws: "signing_law demo_crypto" "box_law plain_box"
proof -
  show "signing_law demo_crypto" by (rule demo_signing)
  have "map2 (\<lambda>x y. char_of (of_char x + of_char y :: nat)) a b = map2 (\<lambda>x y. char_of (of_char x + of_char y :: nat)) b a"
    for a b :: string by (induction a b rule: list_induct2') (simp_all add: add.commute)
  moreover have "c = k @ n @ drop (length (k @ n)) c" if "take (length (k @ n)) c = k @ n" for k n c :: string
    using that by (metis append_take_drop_id append_assoc)
  ultimately show "box_law plain_box"
    by (auto simp: box_law_def plain_box_def box_key_def)
qed

definition demo_body :: json where
  "demo_body = JObj [(''task_id'', JStr ''t''), (''prompt'', JStr ''hello'')]"

definition demo_bytes :: "char \<Rightarrow> string" where "demo_bytes c = replicate 32 c"

lemma parse_iso: "instant t \<Longrightarrow> parse_time (JStr (iso t)) = Inr t"
  using utc_of_z(2) by (simp add: parse_time_def)

lemma instant_0: "instant 0"
  by (simp add: instant_def MAX_DAYS_def DAY_def)

lemma demo_keys: "box_key (demo_bytes c) \<and> box_nonce (replicate 12 c)"
  by (simp add: box_key_def demo_bytes_def box_nonce_def)

lemma demo_time: "parse_time (JStr (iso 0)) = Inr 0"
  by (rule parse_iso [OF instant_0])

lemma sealed_task_opens_witness:
  "\<exists>signed. seal_task demo_crypto plain_box (demo_bytes (CHR ''e'')) (replicate 12 (CHR ''n'')) demo_body ''t'' ''llm_request'' ''s'' ''r'' ''s''
      (public_key_b64 plain_box (demo_bytes (CHR ''m''))) (iso 0) = Inr signed
    \<and> open_task demo_crypto plain_box (to_dict signed) ''r'' (demo_bytes (CHR ''m'')) ''llm_request'' 0 = Inr (sp_payload signed, demo_body)"
proof -
  have "ed_public demo_crypto ''s'' = ''s''" by (simp add: demo_crypto_def)
  then show ?thesis
    using sealed_task_opens [OF plain_laws, of "demo_bytes (CHR ''e'')" "demo_bytes (CHR ''m'')" "replicate 12 (CHR ''n'')" demo_body "''t''"
        "iso 0" 0 0 "''llm_request''" "''llm_request''" "''s''" "''r''"]
    by (simp add: box_key_def box_nonce_def demo_bytes_def demo_body_def is_obj_def jget_def parse_iso instant_0)
qed

lemma opened_task_authentic_witness:
  "\<exists>outer data. open_task demo_crypto plain_box data ''r'' (demo_bytes (CHR ''m'')) [] 0 = Inr (outer, demo_body)
    \<and> jfield ''to_peer_id'' outer = JStr ''r'' \<and> py_str (jfield ''task_id'' outer) = ''t''"
proof -
  have "ed_public demo_crypto ''s'' = ''s''" by (simp add: demo_crypto_def)
  then obtain signed where o': "open_task demo_crypto plain_box (to_dict signed) ''r'' (demo_bytes (CHR ''m'')) [] 0 = Inr (sp_payload signed, demo_body)"
    using seal_then_open [OF plain_laws, of "demo_bytes (CHR ''e'')" "demo_bytes (CHR ''m'')" "replicate 12 (CHR ''n'')" demo_body "''t''"
        "iso 0" 0 0 "[]" "''llm_request''" "''s''" "''r''"]
    by (auto simp: box_key_def box_nonce_def demo_bytes_def demo_body_def is_obj_def jget_def parse_iso instant_0)
  have "jfield ''task_id'' demo_body = JStr ''t''" by (simp add: demo_body_def jfield_def jget_def)
  with opened_task_authentic [OF plain_laws(2) o'] o' show ?thesis by auto
qed

end
