(* ===== verification/Stream.thy ===== *)
theory Stream
  imports Task_Envelopes
begin

section \<open>Streamed answers\<close>

text \<open>
  \<open>src/rynmesh/llm_package/stream_protocol.py\<close>: the sender's \<open>seal_stream_delta\<close>, the receiver's
  \<open>StreamSequenceVerifier\<close> (the record \<open>verifier\<close>, a guarded machine: an envelope it rejects leaves it as it was)
  and the \<open>StreamEventBroker\<close> (the record \<open>broker\<close>), which hands the events of a task to local readers that may
  reconnect. The clocks are arguments: \<open>now\<close> in UTC, \<open>tick\<close> the monotonic clock, both in microseconds; one call
  reads the clock once. The lock makes calls atomic. Events are dictionaries of JSON values.
\<close>

definition STREAM_PROTOCOL_VERSION :: string where "STREAM_PROTOCOL_VERSION = ''rynmesh.llm.stream.v1''"
definition STREAM_DELTA_KIND :: string where "STREAM_DELTA_KIND = ''llm_stream_delta''"
definition DEFAULT_MAX_EVENT_BYTES :: int where "DEFAULT_MAX_EVENT_BYTES = 256 * 1024"
definition DEFAULT_MAX_OUTPUT_BYTES :: int where "DEFAULT_MAX_OUTPUT_BYTES = 128 * 1024"

subsection \<open>The sender\<close>

definition delta_body :: "string \<Rightarrow> string \<Rightarrow> int \<Rightarrow> string \<Rightarrow> json" where
  "delta_body task_id service_id sequence delta =
     JObj [(''stream_version'', JStr STREAM_PROTOCOL_VERSION), (''task_id'', JStr task_id), (''service_id'', JStr service_id),
       (''sequence'', JInt sequence), (''delta'', JStr delta)]"

definition seal_stream_delta :: "crypto \<Rightarrow> box \<Rightarrow> string \<Rightarrow> string \<Rightarrow> string \<Rightarrow> string \<Rightarrow> int \<Rightarrow> string \<Rightarrow> string \<Rightarrow> string
    \<Rightarrow> string \<Rightarrow> string \<Rightarrow> string \<Rightarrow> py_error + json" where
  "seal_stream_delta C B ephemeral nonce task_id service_id sequence delta sender recipient signing_key messaging_pub expires_at =
     require (\<not> sequence < 0) (Raised ''stream sequence is invalid'') (
     require (delta \<noteq> []) (Raised ''stream delta is empty'') (
     bnd (seal_task C B ephemeral nonce (delta_body task_id service_id sequence delta) task_id STREAM_DELTA_KIND
       sender recipient signing_key messaging_pub expires_at) (\<lambda>signed. Inr (to_dict signed))))"

subsection \<open>The receiver\<close>

record verifier =
  sv_task_id :: string
  sv_service_id :: string
  sv_provider :: string
  sv_recipient :: string
  sv_key :: string
  sv_max_event_bytes :: int
  sv_max_output_bytes :: int
  sv_next_sequence :: int
  sv_output_bytes :: int
  sv_terminal :: bool

definition accept_delta :: "crypto \<Rightarrow> box \<Rightarrow> int \<Rightarrow> verifier \<Rightarrow> json \<Rightarrow> py_error + (verifier \<times> int \<times> string)" where
  "accept_delta C B now v envelope =
     require (\<not> sv_terminal v) (Raised ''stream event received after terminal response'') (
     bnd (open_task C B envelope (sv_recipient v) (sv_key v) STREAM_DELTA_KIND now) (\<lambda>(outer, body).
     require (str_or (jfield ''task_id'' outer) = sv_task_id v) (Raised ''stream task mismatch'') (
     require (jfield ''from_peer_id'' outer = JStr (sv_provider v)) (Raised ''stream signer is not the selected provider'') (
     require (str_or (jfield ''stream_version'' body) = STREAM_PROTOCOL_VERSION) (Raised ''stream protocol version unsupported'') (
     require (str_or (jfield ''service_id'' body) = sv_service_id v) (Raised ''stream service mismatch'') (
     case jfield ''sequence'' body of JInt sequence \<Rightarrow>
       require (sequence = sv_next_sequence v) (Raised ''stream sequence is not contiguous'') (
       case jfield ''delta'' body of JStr delta \<Rightarrow>
         require (delta \<noteq> []) (Raised ''stream delta is empty'') (
         let event_bytes = int (length (utf8 delta)) in
         require (event_bytes \<le> sv_max_event_bytes v) (Raised ''stream delta exceeds event limit'') (
         require (sv_output_bytes v + event_bytes \<le> sv_max_output_bytes v) (Raised ''stream output exceeds total limit'') (
         Inr (v\<lparr>sv_next_sequence := sv_next_sequence v + 1, sv_output_bytes := sv_output_bytes v + event_bytes\<rparr>, sequence, delta))))
       | _ \<Rightarrow> Inl (Raised ''stream delta is empty''))
     | _ \<Rightarrow> Inl (Raised ''stream sequence is invalid'')))))))"

definition accept_terminal :: "crypto \<Rightarrow> box \<Rightarrow> int \<Rightarrow> verifier \<Rightarrow> json \<Rightarrow> py_error + (verifier \<times> json)" where
  "accept_terminal C B now v envelope =
     require (\<not> sv_terminal v) (Raised ''duplicate terminal stream response'') (
     bnd (open_task C B envelope (sv_recipient v) (sv_key v) ''llm_response'' now) (\<lambda>(outer, body).
     require (str_or (jfield ''task_id'' outer) = sv_task_id v) (Raised ''stream terminal task mismatch'') (
     require (jfield ''from_peer_id'' outer = JStr (sv_provider v)) (Raised ''stream terminal signer is not the selected provider'') (
     require (str_or (jfield ''service_id'' body) = sv_service_id v) (Raised ''stream terminal service mismatch'') (
     require (str_or (jfield ''state'' body) \<in> set TERMINAL_STATES) (Raised ''stream terminal state is invalid'') (
     Inr (v\<lparr>sv_terminal := True\<rparr>, body)))))))"

subsection \<open>The broker\<close>

type_synonym stream_event = "(string, json) dict"

record broker =
  bk_max_tasks :: int
  bk_max_events :: int
  bk_max_snapshot_bytes :: int
  bk_tasks :: "(string, stream_event list) dict"
  bk_snapshots :: "(string, int \<times> string) dict"
  bk_order :: "string list"
  bk_expires :: "(string, int) dict"

definition new_broker :: "int \<Rightarrow> int \<Rightarrow> int \<Rightarrow> py_error + broker" where
  "new_broker max_tasks max_events max_snapshot_bytes =
     require (\<not> (max_tasks < 1 \<or> max_events < 1 \<or> max_snapshot_bytes < 1)) ValueError (
     Inr \<lparr>bk_max_tasks = max_tasks, bk_max_events = max_events, bk_max_snapshot_bytes = max_snapshot_bytes,
       bk_tasks = [], bk_snapshots = [], bk_order = [], bk_expires = []\<rparr>)"

definition forget :: "string \<Rightarrow> broker \<Rightarrow> broker" where
  "forget t b = b\<lparr>bk_tasks := dict_del t (bk_tasks b), bk_snapshots := dict_del t (bk_snapshots b),
     bk_expires := dict_del t (bk_expires b), bk_order := remove1 t (bk_order b)\<rparr>"

definition prune_broker :: "int \<Rightarrow> broker \<Rightarrow> broker" where
  "prune_broker tick b = fold (\<lambda>(t, deadline) b. if deadline \<le> tick then forget t b else b) (bk_expires b) b"

text \<open>The loop that evicts the oldest tasks until one more fits.\<close>

function make_room :: "(broker, unit) act" where
  "make_room b = (if int (length (bk_tasks b)) < bk_max_tasks b then ret () b
     else case bk_order b of [] \<Rightarrow> fail IndexError b
     | t # ts \<Rightarrow> make_room (b\<lparr>bk_order := ts, bk_tasks := dict_del t (bk_tasks b),
         bk_snapshots := dict_del t (bk_snapshots b), bk_expires := dict_del t (bk_expires b)\<rparr>))"
  by auto
termination by (relation "measure (\<lambda>b. length (bk_order b))") auto

declare make_room.simps [simp del]

definition event_sequence :: "stream_event \<Rightarrow> py_error + int" where
  "event_sequence e = (case map_of e ''sequence'' of None \<Rightarrow> Inr (-1) | Some j \<Rightarrow> py_int j)"

definition event_kind :: "stream_event \<Rightarrow> string" where
  "event_kind e = str_or (case map_of e ''event'' of None \<Rightarrow> JNull | Some j \<Rightarrow> j)"

text \<open>The delta branch of \<open>publish\<close>: the cumulative snapshot grows.\<close>

definition publish_delta :: "string \<Rightarrow> stream_event \<Rightarrow> (broker, unit) act" where
  "publish_delta t e =
     then_do (lift (event_sequence e)) (\<lambda>sequence.
     case map_of e ''delta'' of Some (JStr delta) \<Rightarrow>
       check (\<not> sequence < 0) (Raised ''stream broker delta is invalid'') (
       then_do (reads (\<lambda>b. case map_of (bk_snapshots b) t of None \<Rightarrow> (-1, []) | Some x \<Rightarrow> x)) (\<lambda>(previous, text).
       check (sequence = previous + 1) (Raised ''stream broker delta sequence is not contiguous'') (
       then_do (reads bk_max_snapshot_bytes) (\<lambda>limit.
       check (int (length (utf8 (text @ delta))) \<le> limit) (Raised ''stream broker snapshot exceeds output limit'') (
       modify (\<lambda>b. b\<lparr>bk_snapshots := dict_put t (sequence, text @ delta) (bk_snapshots b)\<rparr>))))))
     | _ \<Rightarrow> fail (Raised ''stream broker delta is invalid''))"

text \<open>A final event keeps its public keys only; the ring of the task drops its oldest event when full.\<close>

definition public_keys :: "stream_event \<Rightarrow> stream_event" where
  "public_keys e = List.map_filter (\<lambda>k. map_option (Pair k) (map_of e k)) [''event'', ''task_id'', ''state'', ''error_code'']"

definition store_event :: "int \<Rightarrow> string \<Rightarrow> string \<Rightarrow> stream_event \<Rightarrow> broker \<Rightarrow> broker" where
  "store_event tick t kind e b =
     (let final = kind = ''complete'' \<or> kind = ''error'';
          e = (if final then public_keys e else e);
          ring = (case map_of (bk_tasks b) t of None \<Rightarrow> [] | Some es \<Rightarrow> es) @ [e] in
      b\<lparr>bk_expires := dict_put t (tick + (if final then 60 else 3600) * 1000000) (bk_expires b),
        bk_tasks := dict_put t (drop (length ring - nat (bk_max_events b)) ring) (bk_tasks b)\<rparr>)"


definition add_task :: "string \<Rightarrow> broker \<Rightarrow> broker" where
  "add_task t b = b\<lparr>bk_tasks := dict_put t [] (bk_tasks b), bk_order := bk_order b @ [t]\<rparr>"

definition publish :: "int \<Rightarrow> string \<Rightarrow> stream_event \<Rightarrow> (broker, unit) act" where
  "publish tick t e =
     (let kind = event_kind e in
      check (kind \<in> {''state'', ''delta'', ''complete'', ''error''}) (Raised ''stream broker event kind is invalid'') (
      then_do (modify (prune_broker tick)) (\<lambda>_.
      then_do (reads (\<lambda>b. map_of (bk_tasks b) t)) (\<lambda>found.
      if found = None \<and> kind = ''delta'' \<and> \<not> (case map_of e ''sequence'' of None \<Rightarrow> False | Some j \<Rightarrow> py_eq j (JInt 0)) then ret ()
      else
        then_do (if found = None then then_do make_room (\<lambda>_. modify (add_task t)) else ret ()) (\<lambda>_.
        then_do (if kind = ''delta'' then publish_delta t e else ret ()) (\<lambda>_.
        modify (store_event tick t kind e)))))))"

text \<open>\<open>replay\<close>: what a reader that has seen the deltas up to \<open>after\<close> gets.\<close>

definition is_delta :: "stream_event \<Rightarrow> bool" where
  "is_delta e \<longleftrightarrow> map_of e ''event'' = Some (JStr ''delta'')"

fun newer :: "int \<Rightarrow> stream_event list \<Rightarrow> py_error + stream_event list" where
  "newer after [] = Inr []"
| "newer after (e # es) =
     bnd (if is_delta e then bnd (event_sequence e) (\<lambda>i. Inr (after < i)) else Inr True) (\<lambda>keep.
     bnd (newer after es) (\<lambda>rest. Inr (if keep then e # rest else rest)))"

fun delta_sequences :: "stream_event list \<Rightarrow> py_error + int list" where
  "delta_sequences [] = Inr []"
| "delta_sequences (e # es) = bnd (event_sequence e) (\<lambda>i. bnd (delta_sequences es) (\<lambda>rest. Inr (i # rest)))"

definition snapshot_event :: "int \<times> string \<Rightarrow> stream_event" where
  "snapshot_event x = [(''event'', JStr ''delta''), (''sequence'', JInt (fst x)), (''delta'', JStr (snd x)), (''snapshot'', JBool True)]"

definition replay_view :: "broker \<Rightarrow> string \<Rightarrow> int \<Rightarrow> py_error + stream_event list" where
  "replay_view b t after =
     (let values = (case map_of (bk_tasks b) t of None \<Rightarrow> [] | Some es \<Rightarrow> es) in
      bnd (newer after values) (\<lambda>result.
      bnd (delta_sequences (filter is_delta result)) (\<lambda>available.
      case map_of (bk_snapshots b) t of
        Some x \<Rightarrow>
          if after < fst x \<and> (available = [] \<or> after + 1 < Min (set available))
          then Inr (snapshot_event x # filter (\<lambda>e. \<not> is_delta e) result) else Inr result
      | None \<Rightarrow> Inr result)))"

definition replay_events :: "int \<Rightarrow> string \<Rightarrow> int \<Rightarrow> (broker, stream_event list) act" where
  "replay_events tick t after =
     then_do (modify (prune_broker tick)) (\<lambda>_.
     then_do (reads (\<lambda>b. replay_view b t after)) lift)"

end
