(* ===== verification/Stream_Safety.thy ===== *)
theory Stream_Safety
  imports Stream
begin

section \<open>The broker keeps its shape\<close>

text \<open>
  The invariant of the event broker: its tables agree, stay within their limits, and the deltas in the ring of a
  task are the newest of the deltas its snapshot joins. Every method keeps it, whether it returns or raises.
\<close>

subsection \<open>Deltas and snapshots\<close>

fun numbered :: "int \<Rightarrow> string list \<Rightarrow> (int \<times> string) list" where
  "numbered i [] = []"
| "numbered i (d # ds) = (i, d) # numbered (i + 1) ds"

lemma length_numbered [simp]: "length (numbered i ds) = length ds"
  by (induction ds arbitrary: i) auto

lemma numbered_append: "numbered i (as @ bs) = numbered i as @ numbered (i + int (length as)) bs"
  by (induction as arbitrary: i) (auto simp: algebra_simps)

lemma drop_numbered: "drop k (numbered i ds) = numbered (i + int k) (drop k ds)"
proof (induction ds arbitrary: i k)
  case (Cons d ds)
  then show ?case by (cases k) (auto simp: algebra_simps)
qed simp

definition delta_of :: "stream_event \<Rightarrow> (py_error + int) \<times> json option" where
  "delta_of e = (event_sequence e, map_of e ''delta'')"

definition as_delta :: "int \<times> string \<Rightarrow> (py_error + int) \<times> json option" where
  "as_delta x = (Inr (fst x), Some (JStr (snd x)))"

definition snapshot_of :: "string list \<Rightarrow> (int \<times> string) option" where
  "snapshot_of ds = (if ds = [] then None else Some (int (length ds) - 1, concat ds))"

text \<open>\<open>ds\<close> are the deltas published for a task: its snapshot joins them, its ring ends with the newest.\<close>

definition ring_ends :: "stream_event list \<Rightarrow> string list \<Rightarrow> bool" where
  "ring_ends es ds \<longleftrightarrow> (\<exists>k \<le> length ds. map delta_of (filter is_delta es) = drop k (map as_delta (numbered 0 ds)))"

definition chunks :: "broker \<Rightarrow> string \<Rightarrow> string list \<Rightarrow> bool" where
  "chunks b t ds \<longleftrightarrow> map_of (bk_snapshots b) t = snapshot_of ds
     \<and> (\<exists>es. map_of (bk_tasks b) t = Some es \<and> ring_ends es ds)"

lemma ring_ends_drop: "ring_ends es ds \<Longrightarrow> ring_ends (drop n es) ds"
proof -
  assume "ring_ends es ds"
  then obtain k where k: "k \<le> length ds" "map delta_of (filter is_delta es) = drop k (map as_delta (numbered 0 ds))"
    by (auto simp: ring_ends_def)
  let ?m = "length (filter is_delta (take n es))"
  have "filter is_delta es = filter is_delta (take n es) @ filter is_delta (drop n es)"
    by (metis append_take_drop_id filter_append)
  then have f: "filter is_delta (drop n es) = drop ?m (filter is_delta es)" by simp
  then have "map delta_of (filter is_delta (drop n es)) = drop (?m + k) (map as_delta (numbered 0 ds))"
    using k(2) by (simp add: drop_map [symmetric])
  moreover have "drop (?m + k) (map as_delta (numbered 0 ds)) = drop (min (?m + k) (length ds)) (map as_delta (numbered 0 ds))"
    by (simp add: min_def)
  ultimately show ?thesis by (auto simp: ring_ends_def intro!: exI [of _ "min (?m + k) (length ds)"])
qed

lemma ring_ends_delta:
  assumes "ring_ends es ds" "is_delta e" "delta_of e = as_delta (int (length ds), d)"
  shows "ring_ends (es @ [e]) (ds @ [d])"
proof -
  from assms(1) obtain k where "k \<le> length ds" "map delta_of (filter is_delta es) = drop k (map as_delta (numbered 0 ds))"
    by (auto simp: ring_ends_def)
  then show ?thesis
    using assms(2,3) by (auto simp: ring_ends_def numbered_append intro!: exI [of _ k])
qed

lemma ring_ends_other: "ring_ends es ds \<Longrightarrow> \<not> is_delta e \<Longrightarrow> ring_ends (es @ [e]) ds"
  by (simp add: ring_ends_def)

subsection \<open>The invariant\<close>

definition broker_ok :: "broker \<Rightarrow> bool" where
  "broker_ok b \<longleftrightarrow> dict_ok (bk_tasks b) \<and> dict_ok (bk_snapshots b) \<and> dict_ok (bk_expires b) \<and> distinct (bk_order b)
     \<and> set (bk_order b) = fst ` set (bk_tasks b) \<and> 1 \<le> bk_max_tasks b \<and> 1 \<le> bk_max_events b
     \<and> 1 \<le> bk_max_snapshot_bytes b
     \<and> int (length (bk_tasks b)) \<le> bk_max_tasks b
     \<and> (\<forall>t es. map_of (bk_tasks b) t = Some es \<longrightarrow> int (length es) \<le> bk_max_events b \<and> (\<exists>ds. chunks b t ds))
     \<and> (\<forall>t n text. map_of (bk_snapshots b) t = Some (n, text) \<longrightarrow> map_of (bk_tasks b) t \<noteq> None
          \<and> int (length (utf8 text)) \<le> bk_max_snapshot_bytes b)"

lemma broker_chunks: "broker_ok b \<Longrightarrow> map_of (bk_tasks b) t = Some es \<Longrightarrow> \<exists>ds. chunks b t ds"
  unfolding broker_ok_def by blast

lemma broker_snapshots: "broker_ok b \<Longrightarrow> map_of (bk_snapshots b) t = Some x \<Longrightarrow> map_of (bk_tasks b) t \<noteq> None"
  unfolding broker_ok_def by (cases x) blast

text \<open>What another call leaves of the limits.\<close>

definition same_limits :: "broker \<Rightarrow> broker \<Rightarrow> bool" where
  "same_limits a b \<longleftrightarrow> bk_max_tasks b = bk_max_tasks a \<and> bk_max_events b = bk_max_events a \<and> bk_max_snapshot_bytes b = bk_max_snapshot_bytes a"

text \<open>\<open>b\<close> has lost some tasks of \<open>a\<close> and nothing else.\<close>

definition thinned :: "broker \<Rightarrow> broker \<Rightarrow> bool" where
  "thinned a b \<longleftrightarrow> same_limits a b \<and> (\<forall>t. map_of (bk_tasks b) t = None \<and> map_of (bk_snapshots b) t = None
     \<or> map_of (bk_tasks b) t = map_of (bk_tasks a) t \<and> map_of (bk_snapshots b) t = map_of (bk_snapshots a) t)"

lemma thinned_refl [simp]: "thinned b b"
  by (simp add: thinned_def same_limits_def)

lemma thinned_trans: "thinned a b \<Longrightarrow> thinned b c \<Longrightarrow> thinned a c"
  unfolding thinned_def same_limits_def by metis

lemma thinned_chunks: "thinned a b \<Longrightarrow> map_of (bk_tasks b) t \<noteq> None \<Longrightarrow> chunks b t ds \<longleftrightarrow> chunks a t ds"
  unfolding thinned_def chunks_def by (metis (no_types, lifting))

lemma forget_fields [simp]:
  "bk_tasks (forget t b) = dict_del t (bk_tasks b)" "bk_snapshots (forget t b) = dict_del t (bk_snapshots b)"
  "bk_expires (forget t b) = dict_del t (bk_expires b)" "bk_order (forget t b) = remove1 t (bk_order b)"
  "bk_max_tasks (forget t b) = bk_max_tasks b" "bk_max_events (forget t b) = bk_max_events b"
  "bk_max_snapshot_bytes (forget t b) = bk_max_snapshot_bytes b"
  by (simp_all add: forget_def)

lemma forget_thinned: "thinned b (forget t b)"
  by (simp add: thinned_def same_limits_def)

lemma forget_ok: "broker_ok b \<Longrightarrow> broker_ok (forget t b)"
proof -
  assume b: "broker_ok b"
  have "Ex (chunks (forget t b) u)" if "u \<noteq> t" "map_of (bk_tasks b) u = Some es" for u es
    using that b by (fastforce simp: broker_ok_def chunks_def)
  moreover have "int (length (dict_del t (bk_tasks b))) \<le> bk_max_tasks b"
    using b length_delete_le [of t "bk_tasks b"] by (simp add: broker_ok_def)
  moreover have "fst ` set (dict_del t (bk_tasks b)) = fst ` set (bk_tasks b) - {t}"
    unfolding set_map [symmetric] delete_keys by auto
  ultimately show ?thesis
    using b by (simp add: broker_ok_def)
qed

lemma prune_facts:
  assumes "broker_ok b"
  shows "broker_ok (prune_broker tick b) \<and> thinned b (prune_broker tick b)"
proof -
  let ?f = "\<lambda>(t, deadline) b. if deadline \<le> tick then forget t b else b"
  have step: "broker_ok (?f x a) \<and> thinned b (?f x a)" if "broker_ok a \<and> thinned b a" for x a
    using that forget_ok [of a "fst x"] thinned_trans [OF _ forget_thinned, of b a "fst x"] by (cases x) simp
  have "broker_ok a \<and> thinned b a \<Longrightarrow> broker_ok (fold ?f xs a) \<and> thinned b (fold ?f xs a)" for xs a
  proof (induction xs arbitrary: a)
    case (Cons x xs)
    from Cons.IH [OF step [OF Cons.prems]] show ?case by simp
  qed simp
  from this [of b "bk_expires b"] assms show ?thesis by (simp add: prune_broker_def)
qed

text \<open>The eviction loop ends with room for one more task, and never finds the queue empty.\<close>

lemma make_room_facts:
  assumes "broker_ok b"
  shows "\<exists>b'. make_room b = (Inr (), b') \<and> broker_ok b' \<and> thinned b b' \<and> int (length (bk_tasks b')) < bk_max_tasks b'"
  using assms
proof (induction b rule: make_room.induct)
  case (1 b)
  show ?case
  proof (cases "int (length (bk_tasks b)) < bk_max_tasks b")
    case True
    with 1 show ?thesis by (subst make_room.simps) (simp add: ret_def)
  next
    case False
    then have "bk_tasks b \<noteq> []" using 1 by (auto simp: broker_ok_def)
    then have "bk_order b \<noteq> []" using 1 by (auto simp: broker_ok_def)
    then obtain t ts where o': "bk_order b = t # ts" by (cases "bk_order b") auto
    let ?b = "b\<lparr>bk_order := ts, bk_tasks := dict_del t (bk_tasks b), bk_snapshots := dict_del t (bk_snapshots b),
        bk_expires := dict_del t (bk_expires b)\<rparr>"
    have f: "?b = forget t b" using o' by (simp add: forget_def)
    from "1.IH" [OF False o'] forget_ok [OF "1.prems", of t] obtain b' where
      "make_room ?b = (Inr (), b')" "broker_ok b'" "thinned ?b b'" "int (length (bk_tasks b')) < bk_max_tasks b'"
      unfolding f by blast
    moreover from this have "thinned b b'" unfolding f using forget_thinned thinned_trans by blast
    moreover have "make_room b = make_room ?b" using False o' by (subst make_room.simps) simp
    ultimately show ?thesis by auto
  qed
qed


subsection \<open>Publishing\<close>

lemma py_str_delta: "str_or j = ''delta'' \<longleftrightarrow> j = JStr ''delta''"
proof -
  have "show_int i \<noteq> ''delta''" for i
    using show_int_hd [of i "[]"] by (auto simp: is_digit_def)
  then show ?thesis by (cases j) (auto simp: str_or_def truthy_def)
qed

lemma kind_delta: "event_kind e = ''delta'' \<longleftrightarrow> is_delta e"
  by (auto simp: event_kind_def is_delta_def py_str_delta split: option.splits)

lemma public_delta: "is_delta (public_keys e) \<longleftrightarrow> is_delta e"
  by (auto simp: is_delta_def public_keys_def List.map_filter_simps split: option.splits)

lemma delta_case [act_simps]:
  "(case x of Some (JStr d) \<Rightarrow> f d | _ \<Rightarrow> g) s = (r, u)
     \<longleftrightarrow> (\<exists>d. x = Some (JStr d) \<and> f d s = (r, u)) \<or> ((\<nexists>d. x = Some (JStr d)) \<and> g s = (r, u))"
  by (cases x; cases "the x") auto

text \<open>What \<open>publish_delta\<close> does when it does not raise.\<close>

lemma publish_delta_outcome:
  assumes "publish_delta t e b = (Inr u, b')"
  shows "\<exists>i d previous text. event_sequence e = Inr i \<and> map_of e ''delta'' = Some (JStr d) \<and> i = previous + 1
    \<and> (case map_of (bk_snapshots b) t of None \<Rightarrow> (-1, []) | Some x \<Rightarrow> x) = (previous, text)
    \<and> int (length (utf8 (text @ d))) \<le> bk_max_snapshot_bytes b
    \<and> b' = b\<lparr>bk_snapshots := dict_put t (i, text @ d) (bk_snapshots b)\<rparr>"
proof -
  obtain p q where "(case map_of (bk_snapshots b) t of None \<Rightarrow> (-1, []) | Some x \<Rightarrow> x) = (p, q)" by fastforce
  with assms show ?thesis by (auto simp: publish_delta_def act_simps)
qed

lemma publish_delta_raises:
  assumes "publish_delta t e b = (Inl x, b')"
  shows "b' = b"
proof -
  obtain p q where "(case map_of (bk_snapshots b) t of None \<Rightarrow> (-1, []) | Some x \<Rightarrow> x) = (p, q)" by fastforce
  with assms show ?thesis by (auto simp: publish_delta_def act_simps)
qed

lemma store_fields [simp]:
  "bk_snapshots (store_event tick t kind e b) = bk_snapshots b" "bk_order (store_event tick t kind e b) = bk_order b"
  "same_limits b (store_event tick t kind e b)"
  "bk_expires (store_event tick t kind e b) = dict_put t (tick + (if kind = ''complete'' \<or> kind = ''error'' then 60 else 3600) * 1000000) (bk_expires b)"
  by (simp_all add: store_event_def Let_def same_limits_def)

definition stored :: "string \<Rightarrow> stream_event \<Rightarrow> stream_event" where
  "stored kind e = (if kind = ''complete'' \<or> kind = ''error'' then public_keys e else e)"

lemma store_tasks:
  assumes "map_of (bk_tasks b) t = Some es" "1 \<le> bk_max_events b"
  shows "\<exists>n. bk_tasks (store_event tick t kind e b) = dict_put t (drop n (es @ [stored kind e])) (bk_tasks b)
    \<and> int (length (drop n (es @ [stored kind e]))) \<le> bk_max_events b"
  using assms by (auto simp: store_event_def stored_def Let_def intro!: exI [of _ "Suc (length es) - nat (bk_max_events b)"])

text \<open>Storing an event keeps the invariant, and gives the task the published deltas \<open>ds'\<close>.\<close>

lemma store_ok:
  assumes b: "broker_ok b" and es: "map_of (bk_tasks b) t = Some es" and b1: "b1 = b \<or> b1 = b\<lparr>bk_snapshots := dict_put t x (bk_snapshots b)\<rparr>"
    and ds: "map_of (bk_snapshots b1) t = snapshot_of ds'" "ring_ends (es @ [stored kind e]) ds'"
      "int (length (utf8 (concat ds'))) \<le> bk_max_snapshot_bytes b"
  shows "broker_ok (store_event tick t kind e b1) \<and> chunks (store_event tick t kind e b1) t ds'
    \<and> same_limits b (store_event tick t kind e b1)
    \<and> (\<forall>u. u \<noteq> t \<longrightarrow> map_of (bk_tasks (store_event tick t kind e b1)) u = map_of (bk_tasks b) u
        \<and> map_of (bk_snapshots (store_event tick t kind e b1)) u = map_of (bk_snapshots b) u)"
proof -
  let ?b = "store_event tick t kind e b1"
  have f: "bk_tasks b1 = bk_tasks b" "bk_order b1 = bk_order b" "bk_expires b1 = bk_expires b" "same_limits b b1"
    "dict_ok (bk_snapshots b1)" "\<And>u. u \<noteq> t \<Longrightarrow> map_of (bk_snapshots b1) u = map_of (bk_snapshots b) u"
    using b1 b by (auto simp: same_limits_def broker_ok_def)
  obtain n where n: "bk_tasks ?b = dict_put t (drop n (es @ [stored kind e])) (bk_tasks b)"
    "int (length (drop n (es @ [stored kind e]))) \<le> bk_max_events b"
    using store_tasks [of b1 t es tick kind e] es b f(1,4) by (auto simp: broker_ok_def same_limits_def)
  have c: "chunks ?b t ds'" using n(1) ds(1,2) by (simp add: chunks_def ring_ends_drop del: drop_append)
  have o': "Ex (chunks ?b u)" if "u \<noteq> t" "map_of (bk_tasks b) u = Some es'" for u es'
  proof -
    note u = that
    obtain ds where "chunks b u ds" using broker_chunks [OF b u(2)] by blast
    then have "chunks ?b u ds" using u(1) n(1) f(6) [OF u(1)] by (simp add: chunks_def)
    then show ?thesis by blast
  qed
  have l: "same_limits b ?b" using f(4) store_fields(3) [of b1 tick t kind e] by (simp add: same_limits_def)
  have k: "fst ` set (bk_tasks ?b) = fst ` set (bk_tasks b)" "length (bk_tasks ?b) = length (bk_tasks b)"
    using es n(1) map_of_SomeD [OF es] by (auto simp: length_put update_keys simp flip: set_map) (force simp: image_iff)
  have s: "map_of (bk_tasks ?b) u \<noteq> None \<and> int (length (utf8 w)) \<le> bk_max_snapshot_bytes b"
    if "map_of (bk_snapshots ?b) u = Some (m, w)" for u m w
  proof (cases "u = t")
    case True
    then show ?thesis using that ds(1,3) n(1) by (auto simp: snapshot_of_def split: if_splits)
  next
    case False
    then show ?thesis using that f(6) [OF False] b n(1) by (auto simp: broker_ok_def)
  qed
  show ?thesis
    using b n c o' f l k s by (auto simp: broker_ok_def same_limits_def)
qed


text \<open>What a call on one task leaves of the others.\<close>

definition others_same :: "string \<Rightarrow> broker \<Rightarrow> broker \<Rightarrow> bool" where
  "others_same t a b \<longleftrightarrow> same_limits a b \<and> (\<forall>u. u \<noteq> t \<longrightarrow> map_of (bk_tasks b) u = map_of (bk_tasks a) u
     \<and> map_of (bk_snapshots b) u = map_of (bk_snapshots a) u)"

lemma event_sequence_error: "event_sequence e = Inl x \<Longrightarrow> x = TypeError \<or> x = ValueError"
  by (auto simp: event_sequence_def py_int_def opt_or_def split: option.splits json.splits)

lemma publish_delta_error: "publish_delta t e b = (Inl x, b') \<Longrightarrow> x \<noteq> IndexError"
proof -
  assume a: "publish_delta t e b = (Inl x, b')"
  obtain p q where "(case map_of (bk_snapshots b) t of None \<Rightarrow> (-1, []) | Some x \<Rightarrow> x) = (p, q)" by fastforce
  with a show ?thesis by (auto simp: publish_delta_def act_simps dest: event_sequence_error [OF sym])
qed

text \<open>The end of \<open>publish\<close>, for a task that has an entry.\<close>

definition publish_entry :: "int \<Rightarrow> string \<Rightarrow> string \<Rightarrow> stream_event \<Rightarrow> (broker, unit) act" where
  "publish_entry tick t kind e =
     then_do (if kind = ''delta'' then publish_delta t e else ret ()) (\<lambda>_. modify (store_event tick t kind e))"

lemma publish_entry_facts:
  assumes b: "broker_ok b" and ds: "chunks b t ds" and kind: "kind = event_kind e" and p: "publish_entry tick t kind e b = (r, b')"
  shows "broker_ok b' \<and> others_same t b b' \<and> (\<exists>ds'. chunks b' t (ds @ ds')) \<and> r \<noteq> Inl IndexError"
proof -
  obtain es where es: "map_of (bk_tasks b) t = Some es" "ring_ends es ds" using ds by (auto simp: chunks_def)
  have limit: "int (length (utf8 (concat ds))) \<le> bk_max_snapshot_bytes b"
    using b ds by (cases "ds = []") (auto simp: broker_ok_def chunks_def snapshot_of_def utf8_def)
  show ?thesis
  proof (cases "kind = ''delta''")
    case True
    then have d: "is_delta e" "stored kind e = e" using kind kind_delta [of e] by (simp_all add: stored_def)
    show ?thesis
    proof (cases r)
      case (Inl x)
      then have "publish_delta t e b = (Inl x, b')" using p True by (auto simp: publish_entry_def act_simps)
      then have "b' = b" "x \<noteq> IndexError" by (rule publish_delta_raises, rule publish_delta_error)
      then show ?thesis using b ds Inl by (auto simp: others_same_def same_limits_def intro: exI [of _ "[]"])
    next
      case (Inr u)
      then obtain b1 where b1: "publish_delta t e b = (Inr (), b1)" "b' = store_event tick t kind e b1"
        using p True by (auto simp: publish_entry_def act_simps)
      from publish_delta_outcome [OF b1(1)] obtain i c m q where o': "event_sequence e = Inr i" "map_of e ''delta'' = Some (JStr c)" "i = m + 1"
        "(case map_of (bk_snapshots b) t of None \<Rightarrow> (-1, []) | Some x \<Rightarrow> x) = (m, q)" "int (length (utf8 (q @ c))) \<le> bk_max_snapshot_bytes b"
        "b1 = b\<lparr>bk_snapshots := dict_put t (i, q @ c) (bk_snapshots b)\<rparr>" by blast
      have mq: "m = int (length ds) - 1" "q = concat ds"
        using o'(4) ds by (auto simp: chunks_def snapshot_of_def split: if_splits)
      have s: "map_of (bk_snapshots b1) t = snapshot_of (ds @ [c])" using o'(3,6) mq by (simp add: snapshot_of_def)
      have "delta_of e = as_delta (int (length ds), c)" using o'(1-3) mq by (simp add: delta_of_def as_delta_def)
      from ring_ends_delta [OF es(2) d(1) this] have e': "ring_ends (es @ [stored kind e]) (ds @ [c])" by (simp only: d(2))
      have "int (length (utf8 (concat (ds @ [c])))) \<le> bk_max_snapshot_bytes b" using o'(5) mq by simp
      from store_ok [OF b es(1) _ s e' this, of "(i, q @ c)" tick] o'(6) Inr show ?thesis
        unfolding b1(2) others_same_def by blast
    qed
  next
    case False
    then have d: "\<not> is_delta (stored kind e)" using kind kind_delta [of e] public_delta by (simp add: stored_def)
    have b': "r = Inr ()" "b' = store_event tick t kind e b" using p False by (auto simp: publish_entry_def act_simps)
    have s: "map_of (bk_snapshots b) t = snapshot_of ds" using ds by (simp add: chunks_def)
    from store_ok [OF b es(1) _ s ring_ends_other [OF es(2) d] limit, of undefined tick] b' show ?thesis
      by (auto simp: others_same_def intro: exI [of _ "[]"])
  qed
qed


lemma add_task_facts:
  assumes b: "broker_ok b" and t: "map_of (bk_tasks b) t = None" and room: "int (length (bk_tasks b)) < bk_max_tasks b"
  shows "broker_ok (add_task t b) \<and> others_same t b (add_task t b) \<and> chunks (add_task t b) t []"
proof -
  have n: "map_of (bk_snapshots b) t = None"
    using broker_snapshots [OF b, of t] t by (cases "map_of (bk_snapshots b) t") auto
  have t': "t \<notin> fst ` set (bk_tasks b)" using t by (simp add: map_of_eq_None_iff)
  have c: "chunks (add_task t b) t []"
    using n by (simp add: chunks_def add_task_def snapshot_of_def ring_ends_def)
  have o': "Ex (chunks (add_task t b) u)" if "u \<noteq> t" "map_of (bk_tasks b) u = Some es" for u es
  proof -
    note u = that
    obtain ds where "chunks b u ds" using broker_chunks [OF b u(2)] by blast
    then have "chunks (add_task t b) u ds" using u(1) by (simp add: chunks_def add_task_def)
    then show ?thesis by blast
  qed
  have "fst ` set (bk_tasks (add_task t b)) = insert t (fst ` set (bk_tasks b))"
    using t' by (simp add: add_task_def put_fresh [OF t])
  then show ?thesis
    using b t t' room c o' n
    by (auto simp: broker_ok_def add_task_def others_same_def same_limits_def length_put)
qed

lemma publish_cases:
  "publish tick t e b = (if event_kind e \<notin> {''state'', ''delta'', ''complete'', ''error''} then (Inl (Raised ''stream broker event kind is invalid''), b)
     else let b1 = prune_broker tick b in
       if map_of (bk_tasks b1) t \<noteq> None then publish_entry tick t (event_kind e) e b1
       else if event_kind e = ''delta'' \<and> \<not> (case map_of e ''sequence'' of None \<Rightarrow> False | Some j \<Rightarrow> py_eq j (JInt 0)) then (Inr (), b1)
       else then_do make_room (\<lambda>_. then_do (modify (add_task t)) (\<lambda>_. publish_entry tick t (event_kind e) e)) b1)"
  by (simp add: publish_def publish_entry_def Let_def check_def fail_def then_do_def modify_def reads_def ret_def
      split: prod.split sum.split)

lemma publish_facts:
  assumes b: "broker_ok b" and p: "publish tick t e b = (r, b')"
  shows "broker_ok b' \<and> same_limits b b' \<and> r \<noteq> Inl IndexError
    \<and> (\<forall>u ds. chunks b u ds \<and> map_of (bk_tasks (prune_broker tick b)) u \<noteq> None \<and> map_of (bk_tasks b') u \<noteq> None
          \<longrightarrow> (\<exists>ds'. chunks b' u (ds @ ds')))"
proof (cases "event_kind e \<in> {''state'', ''delta'', ''complete'', ''error''}")
  case False
  with p b show ?thesis by (auto simp: publish_cases same_limits_def intro: exI [of _ "[]"])
next
  case True
  let ?b1 = "prune_broker tick b"
  have b1: "broker_ok ?b1" "thinned b ?b1" using prune_facts [OF b] by auto
  have c1: "chunks ?b1 u ds" if "chunks b u ds" "map_of (bk_tasks ?b1) u \<noteq> None" for u ds
    using thinned_chunks [OF b1(2) that(2)] that(1) by blast
  have l1: "same_limits b ?b1" using b1(2) by (simp add: thinned_def)
  have p': "(let b1 = ?b1 in if map_of (bk_tasks b1) t \<noteq> None then publish_entry tick t (event_kind e) e b1
      else if event_kind e = ''delta'' \<and> \<not> (case map_of e ''sequence'' of None \<Rightarrow> False | Some j \<Rightarrow> py_eq j (JInt 0)) then (Inr (), b1)
      else then_do make_room (\<lambda>_. then_do (modify (add_task t)) (\<lambda>_. publish_entry tick t (event_kind e) e)) b1) = (r, b')"
    using p unfolding publish_cases by (subst (asm) if_not_P) (use True in blast)
  consider (found) es where "map_of (bk_tasks ?b1) t = Some es" "publish_entry tick t (event_kind e) e ?b1 = (r, b')"
    | (ignored) "r = Inr ()" "b' = ?b1"
    | (created) "map_of (bk_tasks ?b1) t = None"
        "then_do make_room (\<lambda>_. then_do (modify (add_task t)) (\<lambda>_. publish_entry tick t (event_kind e) e)) ?b1 = (r, b')"
  proof (cases "map_of (bk_tasks ?b1) t")
    case (Some es)
    with p' have "publish_entry tick t (event_kind e) e ?b1 = (r, b')" unfolding Let_def by simp
    with Some show ?thesis by (rule that(1))
  next
    case None
    show ?thesis
    proof (cases "event_kind e = ''delta'' \<and> \<not> (case map_of e ''sequence'' of None \<Rightarrow> False | Some j \<Rightarrow> py_eq j (JInt 0))")
      case True
      with p' None have "(Inr (), ?b1) = (r, b')" unfolding Let_def by simp
      then show ?thesis by (intro that(2)) auto
    next
      case False
      from p' None have "then_do make_room (\<lambda>_. then_do (modify (add_task t)) (\<lambda>_. publish_entry tick t (event_kind e) e)) ?b1 = (r, b')"
        unfolding Let_def if_not_P [OF False] by simp
      with None show ?thesis by (rule that(3))
    qed
  qed
  then show ?thesis
  proof cases
    case found
    obtain ds1 where ds1: "chunks ?b1 t ds1" using broker_chunks [OF b1(1) found(1)] by blast
    have o': "others_same t ?b1 b'" "broker_ok b'" "r \<noteq> Inl IndexError"
      using publish_entry_facts [OF b1(1) ds1 refl found(2)] by auto
    have "\<exists>ds'. chunks b' u (ds @ ds')" if "chunks b u ds" "map_of (bk_tasks ?b1) u \<noteq> None" for u ds
    proof (cases "u = t")
      case True
      with publish_entry_facts [OF b1(1) c1 refl found(2)] that show ?thesis by blast
    next
      case False
      then have "chunks b' u ds" using c1 [OF that] o'(1) by (simp add: others_same_def chunks_def)
      then show ?thesis by (intro exI [of _ "[]"]) simp
    qed
    then show ?thesis using o' l1 by (auto simp: others_same_def same_limits_def)
  next
    case ignored
    then show ?thesis using b1 l1 c1 by (auto intro: exI [of _ "[]"])
  next
    case created
    obtain b2 where b2: "make_room ?b1 = (Inr (), b2)" "broker_ok b2" "thinned ?b1 b2" "int (length (bk_tasks b2)) < bk_max_tasks b2"
      using make_room_facts [OF b1(1)] by blast
    have "map_of (bk_tasks b2) t = None" using b2(3) created(1) unfolding thinned_def by metis
    note a = add_task_facts [OF b2(2) this b2(4)]
    have p3: "publish_entry tick t (event_kind e) e (add_task t b2) = (r, b')"
      using created(2) b2(1) by (simp add: then_do_def modify_def)
    have o': "others_same t (add_task t b2) b'" "broker_ok b'" "r \<noteq> Inl IndexError"
      using publish_entry_facts [OF _ _ refl p3, of "[]"] a by auto
    have os: "others_same t b2 b'" using a o'(1) by (simp add: others_same_def same_limits_def)
    have "\<exists>ds'. chunks b' u (ds @ ds')" if "chunks b u ds" "map_of (bk_tasks ?b1) u \<noteq> None" "map_of (bk_tasks b') u \<noteq> None" for u ds
    proof -
      have u: "u \<noteq> t" using that(2) created(1) by auto
      then have "map_of (bk_tasks b2) u \<noteq> None" using that(3) os by (simp add: others_same_def)
      from thinned_chunks [OF b2(3) this] c1 [OF that(1,2)] have "chunks b2 u ds" by blast
      then have "chunks b' u ds" using os u by (simp add: others_same_def chunks_def)
      then show ?thesis by (intro exI [of _ "[]"]) simp
    qed
    then show ?thesis using o' l1 b2(3) os by (auto simp: others_same_def same_limits_def thinned_def)
  qed
qed

subsection \<open>Replaying\<close>

definition sequence_of :: "stream_event \<Rightarrow> int" where
  "sequence_of e = (case event_sequence e of Inr i \<Rightarrow> i | Inl _ \<Rightarrow> 0)"

definition readable :: "stream_event list \<Rightarrow> bool" where
  "readable es \<longleftrightarrow> (\<forall>e \<in> set es. is_delta e \<longrightarrow> event_sequence e = Inr (sequence_of e))"

lemma newer_filter: "readable es \<Longrightarrow> newer after es = Inr (filter (\<lambda>e. is_delta e \<longrightarrow> after < sequence_of e) es)"
  by (induction es) (auto simp: readable_def)

lemma sequences_map: "readable es \<Longrightarrow> delta_sequences (filter is_delta es) = Inr (map sequence_of (filter is_delta es))"
  by (induction es) (auto simp: readable_def)

lemma ring_readable: "ring_ends es ds \<Longrightarrow> readable es"
proof -
  assume "ring_ends es ds"
  then obtain k where k: "map delta_of (filter is_delta es) = drop k (map as_delta (numbered 0 ds))" by (auto simp: ring_ends_def)
  have "\<exists>i. event_sequence e = Inr i" if "e \<in> set es" "is_delta e" for e
  proof -
    have "delta_of e \<in> set (map delta_of (filter is_delta es))" using that by auto
    then have "delta_of e \<in> as_delta ` set (numbered 0 ds)" unfolding k using set_drop_subset by fastforce
    then show ?thesis by (auto simp: delta_of_def as_delta_def)
  qed
  then show ?thesis by (force simp: readable_def sequence_of_def)
qed

lemma replay_error: "broker_ok b \<Longrightarrow> \<exists>es. replay_view b t after = Inr es"
proof (cases "map_of (bk_tasks b) t")
  case None
  then show ?thesis by (simp add: replay_view_def split: option.split)
next
  case (Some es)
  assume b: "broker_ok b"
  obtain ds where "chunks b t ds" using broker_chunks [OF b Some] by blast
  then have r: "readable es" using Some ring_readable by (auto simp: chunks_def)
  let ?f = "filter (\<lambda>e. is_delta e \<longrightarrow> after < sequence_of e) es"
  have "readable ?f" using r by (simp add: readable_def)
  then show ?thesis
    using Some newer_filter [OF r] sequences_map [of ?f] by (auto simp: replay_view_def Let_def split: option.split)
qed

end
