(* ===== verification/Stream_Guarantees.thy ===== *)
theory Stream_Guarantees
  imports Stream_Safety
begin

section \<open>Guarantees of streamed answers\<close>

text \<open>
  The properties of the verifier and of the broker: an ordered and authentic stream, exact delivery, catching up after a reconnect, and
  bounded buffers.
\<close>

subsection \<open>The verifier accepts one ordered, bounded, authentic stream\<close>

text \<open>A machine over the verifier and the deltas it has handed out.\<close>

datatype stream_input = Delta_at int json | Terminal_at int json

definition stream_step :: "crypto \<Rightarrow> box \<Rightarrow> verifier \<times> (int \<times> string) list \<Rightarrow> stream_input
    \<Rightarrow> py_error + verifier \<times> (int \<times> string) list" where
  "stream_step C B s c = (case c of
     Delta_at now e \<Rightarrow> bnd (accept_delta C B now (fst s) e) (\<lambda>(v, out). Inr (v, snd s @ [out]))
   | Terminal_at now e \<Rightarrow> bnd (accept_terminal C B now (fst s) e) (\<lambda>(v, body). Inr (v, snd s)))"

text \<open>The provider signed and sealed this delta for this task.\<close>

definition sent_delta :: "crypto \<Rightarrow> box \<Rightarrow> verifier \<Rightarrow> int \<times> string \<Rightarrow> bool" where
  "sent_delta C B v x \<longleftrightarrow> (\<exists>now e outer body. open_task C B e (sv_recipient v) (sv_key v) STREAM_DELTA_KIND now = Inr (outer, body)
     \<and> jfield ''from_peer_id'' outer = JStr (sv_provider v) \<and> str_or (jfield ''task_id'' outer) = sv_task_id v
     \<and> jfield ''sequence'' body = JInt (fst x) \<and> jfield ''delta'' body = JStr (snd x))"

definition delta_bytes :: "(int \<times> string) list \<Rightarrow> int" where
  "delta_bytes out = sum_list (map (\<lambda>x. int (length (utf8 (snd x)))) out)"

definition same_stream :: "verifier \<Rightarrow> verifier \<Rightarrow> bool" where
  "same_stream u v \<longleftrightarrow> sv_task_id v = sv_task_id u \<and> sv_service_id v = sv_service_id u \<and> sv_provider v = sv_provider u
     \<and> sv_recipient v = sv_recipient u \<and> sv_key v = sv_key u \<and> sv_max_event_bytes v = sv_max_event_bytes u
     \<and> sv_max_output_bytes v = sv_max_output_bytes u"

definition stream_ok :: "crypto \<Rightarrow> box \<Rightarrow> verifier \<Rightarrow> verifier \<times> (int \<times> string) list \<Rightarrow> bool" where
  "stream_ok C B u s \<longleftrightarrow> same_stream u (fst s) \<and> sv_next_sequence (fst s) = int (length (snd s))
     \<and> map fst (snd s) = map int [0..<length (snd s)] \<and> sv_output_bytes (fst s) = delta_bytes (snd s)
     \<and> delta_bytes (snd s) \<le> sv_max_output_bytes u
     \<and> (\<forall>x \<in> set (snd s). snd x \<noteq> [] \<and> int (length (utf8 (snd x))) \<le> sv_max_event_bytes u \<and> sent_delta C B u x)"

lemma delta_bytes_simps [simp]: "delta_bytes [] = 0" "delta_bytes (out @ [x]) = delta_bytes out + int (length (utf8 (snd x)))"
  by (simp_all add: delta_bytes_def)

lemma accept_delta_outcome:
  assumes "accept_delta C B now v e = Inr (v', x)"
  shows "v' = v\<lparr>sv_next_sequence := sv_next_sequence v + 1, sv_output_bytes := sv_output_bytes v + int (length (utf8 (snd x)))\<rparr>
    \<and> \<not> sv_terminal v \<and> fst x = sv_next_sequence v \<and> snd x \<noteq> [] \<and> int (length (utf8 (snd x))) \<le> sv_max_event_bytes v
    \<and> sv_output_bytes v + int (length (utf8 (snd x))) \<le> sv_max_output_bytes v \<and> sent_delta C B v x"
  using assms
  by (auto simp: accept_delta_def guard_simps Let_def sent_delta_def) blast

lemma accept_terminal_outcome:
  "accept_terminal C B now v e = Inr (v', body) \<Longrightarrow> v' = v\<lparr>sv_terminal := True\<rparr> \<and> \<not> sv_terminal v"
  by (auto simp: accept_terminal_def guard_simps)

lemma sent_same: "same_stream u v \<Longrightarrow> sent_delta C B v x = sent_delta C B u x"
  by (simp add: sent_delta_def same_stream_def)

lemma stream_step_ok:
  assumes "stream_ok C B u s" "stream_step C B s c = Inr s'"
  shows "stream_ok C B u s'"
proof (cases c)
  case (Delta_at now e)
  with assms(2) obtain v' x where a: "accept_delta C B now (fst s) e = Inr (v', x)" "s' = (v', snd s @ [x])"
    by (auto simp: stream_step_def guard_simps)
  note o' = accept_delta_outcome [OF a(1)]
  have i: "same_stream u (fst s)" using assms(1) by (simp add: stream_ok_def)
  then have "same_stream u v'" "sent_delta C B u x" "sv_max_event_bytes (fst s) = sv_max_event_bytes u"
    "sv_max_output_bytes (fst s) = sv_max_output_bytes u"
    using o' sent_same [OF i, of C B x] by (simp_all add: same_stream_def)
  with o' assms(1) show ?thesis by (simp add: stream_ok_def a(2))
next
  case (Terminal_at now e)
  with assms(2) obtain v' body where a: "accept_terminal C B now (fst s) e = Inr (v', body)" "s' = (v', snd s)"
    by (auto simp: stream_step_def guard_simps)
  from accept_terminal_outcome [OF a(1)] assms(1) show ?thesis
    by (auto simp: stream_ok_def a(2) same_stream_def)
qed

interpretation streams: guarded_machine "stream_step C B" "stream_ok C B u" for C B u
  by unfold_locales (rule stream_step_ok)

lemma closed_step: "sv_terminal (fst s) \<Longrightarrow> streams.attempt C B s c = s"
  by (cases c) (simp_all add: streams.attempt_def stream_step_def accept_delta_def accept_terminal_def)

lemma closed_run: "sv_terminal (fst s) \<Longrightarrow> streams.run C B s cs = s"
  by (induction cs) (simp_all add: closed_step)

abbreviation fresh :: "verifier \<Rightarrow> bool" where
  "fresh v \<equiv> sv_next_sequence v = 0 \<and> sv_output_bytes v = 0 \<and> \<not> sv_terminal v \<and> 0 \<le> sv_max_output_bytes v"

lemma fresh_ok: "fresh v \<Longrightarrow> stream_ok C B v (v, [])"
  by (simp add: stream_ok_def same_stream_def)

text \<open>C30: the deltas a verifier hands out are one ordered, bounded and authentic stream. Whatever envelopes arrive,
  in whatever order, the accepted deltas are numbered 0, 1, 2 and so on, each is what the chosen provider signed
  and sealed for this task under that number, none is empty or above the event limit, and together they stay
  within the output limit; and once a terminal response was accepted nothing is accepted any more.\<close>

theorem stream_in_order:
  assumes "fresh v" "streams.run C B (v, []) inputs = (v', out)"
  shows "map fst out = map int [0..<length out] \<and> delta_bytes out \<le> sv_max_output_bytes v
    \<and> (\<forall>x \<in> set out. snd x \<noteq> [] \<and> int (length (utf8 (snd x))) \<le> sv_max_event_bytes v \<and> sent_delta C B v x)
    \<and> (sv_terminal v' \<longrightarrow> streams.run C B (v', out) later = (v', out))"
  using streams.run_inv [OF fresh_ok [OF assms(1)], of C B inputs] closed_run [of "(v', out)" C B later] assms(2)
  by (auto simp: stream_ok_def)

subsection \<open>A sealed stream arrives\<close>

definition demo_verifier :: verifier where
  "demo_verifier = \<lparr>sv_task_id = ''t'', sv_service_id = ''svc'', sv_provider = ''s'', sv_recipient = ''r'', sv_key = demo_bytes (CHR ''m''),
     sv_max_event_bytes = DEFAULT_MAX_EVENT_BYTES, sv_max_output_bytes = DEFAULT_MAX_OUTPUT_BYTES, sv_next_sequence = 0,
     sv_output_bytes = 0, sv_terminal = False\<rparr>"

lemma delta_body_facts:
  "json_ok (delta_body t svc i d)" "is_obj (delta_body t svc i d)" "jget ''task_id'' (delta_body t svc i d) = Some (JStr t)"
  "jfield ''sequence'' (delta_body t svc i d) = JInt i" "jfield ''delta'' (delta_body t svc i d) = JStr d"
  "jfield ''service_id'' (delta_body t svc i d) = JStr svc"
  "jfield ''stream_version'' (delta_body t svc i d) = JStr STREAM_PROTOCOL_VERSION"
  by (simp_all add: delta_body_def is_obj_def jget_def jfield_def)

lemma sealed_outer:
  "seal_task C B eph n body t kind sender recipient k pub ex = Inr signed \<Longrightarrow>
   \<exists>x. sp_payload signed = task_outer B eph t kind sender recipient ex x"
  by (auto simp only: seal_task_def guard_simps sign_payload_def sum.inject signed_payload.simps)

text \<open>The answer of a verifier to the envelope that the provider sealed for a delta.\<close>

lemma accept_sealed:
  assumes law: "signing_law C" "box_law B" and keys: "box_key ephemeral" "box_key (sv_key v)" "box_nonce nonce"
    and time: "parse_time (JStr expires_at) = Inr deadline" "now \<le> deadline"
    and delta: "d \<noteq> []" "0 \<le> i" and v: "sv_provider v = ed_public C signing_key" "\<not> sv_terminal v" "sv_task_id v \<noteq> []" "sv_service_id v \<noteq> []"
  shows "\<exists>e. seal_stream_delta C B ephemeral nonce (sv_task_id v) (sv_service_id v) i d (sv_provider v) (sv_recipient v) signing_key
        (public_key_b64 B (sv_key v)) expires_at = Inr e
      \<and> accept_delta C B now v e =
          require (i = sv_next_sequence v) (Raised ''stream sequence is not contiguous'') (
          require (int (length (utf8 d)) \<le> sv_max_event_bytes v) (Raised ''stream delta exceeds event limit'') (
          require (sv_output_bytes v + int (length (utf8 d)) \<le> sv_max_output_bytes v) (Raised ''stream output exceeds total limit'') (
          Inr (v\<lparr>sv_next_sequence := sv_next_sequence v + 1, sv_output_bytes := sv_output_bytes v + int (length (utf8 d))\<rparr>, i, d))))"
proof -
  let ?body = "delta_body (sv_task_id v) (sv_service_id v) i d"
  obtain signed where s: "seal_task C B ephemeral nonce ?body (sv_task_id v) STREAM_DELTA_KIND (sv_provider v) (sv_recipient v) signing_key
        (public_key_b64 B (sv_key v)) expires_at = Inr signed"
      "open_task C B (to_dict signed) (sv_recipient v) (sv_key v) STREAM_DELTA_KIND now = Inr (sp_payload signed, ?body)"
    using seal_then_open [OF law keys delta_body_facts(1-3) time] unfolding v(1) by blast
  obtain x where x: "sp_payload signed = task_outer B ephemeral (sv_task_id v) STREAM_DELTA_KIND (sv_provider v) (sv_recipient v) expires_at x"
    using sealed_outer [OF s(1)] by blast
  have t: "str_or (JStr u) = u" for u by (simp add: str_or_def truthy_def)
  show ?thesis
    using s delta v(2-4)
    by (simp add: seal_stream_delta_def accept_delta_def delta_body_facts x jfield_get t Let_def STREAM_PROTOCOL_VERSION_def)
qed


text \<open>The provider seals the deltas of an answer one after the other, each with its own key and nonce.\<close>

primrec seal_stream :: "crypto \<Rightarrow> box \<Rightarrow> (int \<Rightarrow> string) \<Rightarrow> (int \<Rightarrow> string) \<Rightarrow> verifier \<Rightarrow> string \<Rightarrow> string \<Rightarrow> string list
    \<Rightarrow> int \<Rightarrow> py_error + json list" where
  "seal_stream C B eph nonce v signing_key expires_at [] i = Inr []"
| "seal_stream C B eph nonce v signing_key expires_at (d # ds) i =
     bnd (seal_stream_delta C B (eph i) (nonce i) (sv_task_id v) (sv_service_id v) i d (sv_provider v) (sv_recipient v) signing_key
        (public_key_b64 B (sv_key v)) expires_at) (\<lambda>e.
     bnd (seal_stream C B eph nonce v signing_key expires_at ds (i + 1)) (\<lambda>es. Inr (e # es)))"

lemma delta_bytes_Cons [simp]: "delta_bytes (x # out) = int (length (utf8 (snd x))) + delta_bytes out"
  by (simp add: delta_bytes_def)

lemma delta_bytes_nonneg: "0 \<le> delta_bytes out"
  by (induction out) auto

lemma seal_stream_same: "same_stream u v \<Longrightarrow> seal_stream C B eph nonce v k ex ds i = seal_stream C B eph nonce u k ex ds i"
  by (induction ds arbitrary: i) (simp_all add: same_stream_def)

lemma stream_arrives:
  assumes law: "signing_law C" "box_law B" and key: "box_key (sv_key u)"
    and time: "parse_time (JStr expires_at) = Inr deadline" "now \<le> deadline"
    and u: "sv_provider u = ed_public C signing_key" "sv_task_id u \<noteq> []" "sv_service_id u \<noteq> []"
    and fresh_keys: "\<forall>i. box_key (eph i) \<and> box_nonce (nonce i)"
  shows "0 \<le> i \<Longrightarrow> \<forall>d \<in> set ds. d \<noteq> [] \<and> int (length (utf8 d)) \<le> sv_max_event_bytes u \<Longrightarrow>
    same_stream u v \<Longrightarrow> \<not> sv_terminal v \<Longrightarrow> sv_next_sequence v = i \<Longrightarrow> sv_output_bytes v + delta_bytes (numbered i ds) \<le> sv_max_output_bytes u \<Longrightarrow>
    \<exists>es. seal_stream C B eph nonce u signing_key expires_at ds i = Inr es
      \<and> snd (streams.run C B (v, out) (map (Delta_at now) es)) = out @ numbered i ds"
proof (induction ds arbitrary: i v out)
  case (Cons d ds)
  note f = Cons.prems(3) [unfolded same_stream_def]
  let ?v = "v\<lparr>sv_next_sequence := sv_next_sequence v + 1, sv_output_bytes := sv_output_bytes v + int (length (utf8 d))\<rparr>"
  have "0 \<le> delta_bytes (numbered (i + 1) ds)" by (rule delta_bytes_nonneg)
  then have fit: "sv_output_bytes v + int (length (utf8 d)) \<le> sv_max_output_bytes u"
    "sv_output_bytes ?v + delta_bytes (numbered (i + 1) ds) \<le> sv_max_output_bytes u"
    using Cons.prems(6) by simp_all
  obtain e where e: "seal_stream_delta C B (eph i) (nonce i) (sv_task_id u) (sv_service_id u) i d (sv_provider u) (sv_recipient u) signing_key
        (public_key_b64 B (sv_key u)) expires_at = Inr e" "accept_delta C B now v e = Inr (?v, i, d)"
    using accept_sealed [OF law _ _ _ time, of "eph i" v "nonce i" d i signing_key] fresh_keys key u f fit(1) Cons.prems by auto
  have "same_stream u ?v" using f by (simp add: same_stream_def)
  then obtain es where es: "seal_stream C B eph nonce u signing_key expires_at ds (i + 1) = Inr es"
      "snd (streams.run C B (?v, out @ [(i, d)]) (map (Delta_at now) es)) = (out @ [(i, d)]) @ numbered (i + 1) ds"
    using Cons.IH [of "i + 1" ?v "out @ [(i, d)]"] Cons.prems fit(2) by auto
  have "streams.attempt C B (v, out) (Delta_at now e) = (?v, out @ [(i, d)])"
    using e(2) by (simp add: streams.attempt_def stream_step_def)
  with e(1) es show ?case by auto
qed simp

text \<open>C31: a streamed answer arrives whole. When the provider seals the deltas of an answer in order, and they fit
  the limits, the verifier of the requester accepts every envelope and hands out exactly these deltas.\<close>

theorem stream_delivered:
  assumes "signing_law C" "box_law B" "box_key (sv_key v)" "\<forall>i. box_key (eph i) \<and> box_nonce (nonce i)"
    and "parse_time (JStr expires_at) = Inr deadline" "now \<le> deadline"
    and "fresh v" "sv_provider v = ed_public C signing_key" "sv_task_id v \<noteq> []" "sv_service_id v \<noteq> []"
    and "\<forall>d \<in> set ds. d \<noteq> [] \<and> int (length (utf8 d)) \<le> sv_max_event_bytes v"
    and "delta_bytes (numbered 0 ds) \<le> sv_max_output_bytes v"
  shows "\<exists>es. seal_stream C B eph nonce v signing_key expires_at ds 0 = Inr es
    \<and> snd (streams.run C B (v, []) (map (Delta_at now) es)) = numbered 0 ds"
proof -
  have "same_stream v v" by (simp add: same_stream_def)
  from stream_arrives [OF assms(1-3,5,6,8-10,4), of 0 ds v "[]"] this assms(7,11,12) show ?thesis by simp
qed

lemma demo_verifier_facts:
  "fresh demo_verifier" "sv_provider demo_verifier = ed_public demo_crypto ''s''" "sv_task_id demo_verifier \<noteq> []"
  "sv_service_id demo_verifier \<noteq> []" "box_key (sv_key demo_verifier)"
  by (simp_all add: demo_verifier_def demo_crypto_def box_key_def demo_bytes_def DEFAULT_MAX_OUTPUT_BYTES_def)

lemma demo_utf8: "int (length (utf8 ''hel'')) = 3" "int (length (utf8 ''lo'')) = 2"
  by (simp_all add: utf8_def utf8_char_def)

lemma demo_fit:
  "\<forall>d \<in> set [''hel'', ''lo'']. d \<noteq> [] \<and> int (length (utf8 d)) \<le> sv_max_event_bytes demo_verifier"
  "delta_bytes (numbered 0 [''hel'', ''lo'']) \<le> sv_max_output_bytes demo_verifier"
  using demo_utf8 by (simp_all add: demo_verifier_def DEFAULT_MAX_OUTPUT_BYTES_def DEFAULT_MAX_EVENT_BYTES_def)

lemma demo_key_supply: "\<forall>i::int. box_key (demo_bytes (CHR ''e'')) \<and> box_nonce (replicate 12 (CHR ''n''))"
  using demo_keys by simp

lemma demo_stream:
  "\<exists>es. snd (streams.run demo_crypto plain_box (demo_verifier, []) (map (Delta_at 0) es)) = [(0, ''hel''), (1, ''lo'')]"
proof -
  have "same_stream demo_verifier demo_verifier" by (simp add: same_stream_def)
  with stream_arrives [OF plain_laws demo_verifier_facts(5) demo_time order_refl demo_verifier_facts(2-4) demo_key_supply,
      of 0 "[''hel'', ''lo'']" demo_verifier "[]"] demo_fit demo_verifier_facts(1)
  show ?thesis by auto
qed

lemma stream_delivered_witness:
  "\<exists>es. seal_stream demo_crypto plain_box (\<lambda>_. demo_bytes (CHR ''e'')) (\<lambda>_. replicate 12 (CHR ''n'')) demo_verifier ''s'' (iso 0) [''hel'', ''lo''] 0 = Inr es
    \<and> snd (streams.run demo_crypto plain_box (demo_verifier, []) (map (Delta_at 0) es)) = numbered 0 [''hel'', ''lo'']"
  by (rule stream_delivered [OF plain_laws demo_verifier_facts(5) demo_key_supply demo_time order_refl demo_verifier_facts(1-4) demo_fit])

lemma stream_in_order_witness:
  "\<exists>inputs v' out. streams.run demo_crypto plain_box (demo_verifier, []) inputs = (v', out) \<and> length out = 2
    \<and> map fst out = [0, 1] \<and> sent_delta demo_crypto plain_box demo_verifier (1, ''lo'')"
proof -
  obtain es where es: "snd (streams.run demo_crypto plain_box (demo_verifier, []) (map (Delta_at 0) es)) = [(0, ''hel''), (1, ''lo'')]"
    using demo_stream by blast
  obtain v' out where r: "streams.run demo_crypto plain_box (demo_verifier, []) (map (Delta_at 0) es) = (v', out)"
    by (cases "streams.run demo_crypto plain_box (demo_verifier, []) (map (Delta_at 0) es)")
  with es have o': "out = [(0, ''hel''), (1, ''lo'')]" by simp
  show ?thesis
    using stream_in_order [OF demo_verifier_facts(1) r] r unfolding o'
    by (intro exI [of _ "map (Delta_at 0) es"] exI [of _ v'] exI [of _ "[(0, ''hel''), (1, ''lo'')]"]) auto
qed


subsection \<open>Readers of the broker catch up\<close>

text \<open>A reader keeps the text it has; a delta extends it, a snapshot replaces it.\<close>

definition read_event :: "string \<Rightarrow> stream_event \<Rightarrow> string" where
  "read_event w e = (if is_delta e then (case map_of e ''delta'' of Some (JStr d) \<Rightarrow>
       if map_of e ''snapshot'' = Some (JBool True) then d else w @ d | _ \<Rightarrow> w) else w)"

definition follow :: "string \<Rightarrow> stream_event list \<Rightarrow> string" where
  "follow w es = foldl read_event w es"

definition delta_text :: "stream_event \<Rightarrow> string" where
  "delta_text e = (case map_of e ''delta'' of Some (JStr d) \<Rightarrow> d | _ \<Rightarrow> [])"

definition plain_event :: "stream_event \<Rightarrow> bool" where
  "plain_event e \<longleftrightarrow> map_of e ''snapshot'' = None"

lemma follow_plain: "\<forall>e \<in> set es. plain_event e \<Longrightarrow> follow w es = w @ concat (map delta_text (filter is_delta es))"
  by (induction es arbitrary: w) (auto simp: follow_def read_event_def plain_event_def delta_text_def split: option.splits json.splits)

lemma delta_pair: "delta_of e = as_delta x \<Longrightarrow> sequence_of e = fst x \<and> delta_text e = snd x"
  by (simp add: delta_of_def as_delta_def sequence_of_def delta_text_def)

lemma pairs_filter: "map delta_of D = map as_delta N \<Longrightarrow>
    map sequence_of (filter (\<lambda>e. a < sequence_of e) D) = map fst (filter (\<lambda>x. a < fst x) N)
    \<and> map delta_text (filter (\<lambda>e. a < sequence_of e) D) = map snd (filter (\<lambda>x. a < fst x) N)"
proof (induction D arbitrary: N)
  case (Cons e D)
  then obtain x N' where N: "N = x # N'" "delta_of e = as_delta x" "map delta_of D = map as_delta N'" by (cases N) auto
  with Cons.IH [OF N(3)] delta_pair [OF N(2)] show ?case by auto
qed simp

lemma filter_numbered: "filter (\<lambda>x. a < fst x) (numbered i ds) = drop (nat (a + 1 - i)) (numbered i ds)"
proof (induction ds arbitrary: i)
  case (Cons d ds)
  show ?case
  proof (cases "a < i")
    case False
    then have "nat (a + 1 - i) = Suc (nat (a + 1 - (i + 1)))" by simp
    with False Cons [of "i + 1"] show ?thesis by simp
  qed (use Cons [of "i + 1"] in simp)
qed simp

lemma numbered_parts: "map snd (numbered i ds) = ds" "ds \<noteq> [] \<Longrightarrow> Min (set (map fst (numbered i ds))) = i"
proof -
  show "map snd (numbered i ds) = ds" by (induction ds arbitrary: i) auto
  have "\<forall>x \<in> set (numbered i ds). i \<le> fst x" by (induction ds arbitrary: i) force+
  then show "ds \<noteq> [] \<Longrightarrow> Min (set (map fst (numbered i ds))) = i" by (cases ds) (auto intro!: Min_eqI)
qed

lemma replay_view_eq:
  "map_of (bk_tasks b) t = Some es \<Longrightarrow> newer a es = Inr new \<Longrightarrow> delta_sequences (filter is_delta new) = Inr avail \<Longrightarrow>
   replay_view b t a = (case map_of (bk_snapshots b) t of
      Some x \<Rightarrow> if a < fst x \<and> (avail = [] \<or> a + 1 < Min (set avail))
        then Inr (snapshot_event x # filter (\<lambda>e. \<not> is_delta e) new) else Inr new
    | None \<Rightarrow> Inr new)"
  by (simp add: replay_view_def)

lemma replay_reader:
  assumes c: "chunks b t (as @ bs)" and plain: "\<And>es e. map_of (bk_tasks b) t = Some es \<Longrightarrow> e \<in> set es \<Longrightarrow> plain_event e"
  shows "\<exists>evs. replay_view b t (int (length as) - 1) = Inr evs \<and> follow (concat as) evs = concat (as @ bs)"
proof -
  let ?ds = "as @ bs" and ?a = "int (length as) - 1"
  from c obtain es where t: "map_of (bk_tasks b) t = Some es" "ring_ends es ?ds" and snap: "map_of (bk_snapshots b) t = snapshot_of ?ds"
    by (auto simp: chunks_def)
  have r: "readable es" by (rule ring_readable [OF t(2)])
  from t(2) obtain k where k: "k \<le> length ?ds" and "map delta_of (filter is_delta es) = drop k (map as_delta (numbered 0 ?ds))"
    unfolding ring_ends_def by blast
  then have ring: "map delta_of (filter is_delta es) = map as_delta (numbered (int k) (drop k ?ds))"
    by (simp only: drop_map drop_numbered) simp
  let ?new = "filter (\<lambda>e. is_delta e \<longrightarrow> ?a < sequence_of e) es"
  let ?N = "drop (nat (?a + 1 - int k)) (numbered (int k) (drop k ?ds))"
  have N: "?N = (if k \<le> length as then numbered (int (length as)) bs else numbered (int k) (drop k ?ds))"
  proof (cases "k \<le> length as")
    case True
    then have "nat (?a + 1 - int k) = length as - k" by simp
    then have "?N = numbered (int k + int (length as - k)) (drop (length as - k) (drop k ?ds))" by (simp only: drop_numbered)
    also have "drop (length as - k) (drop k ?ds) = bs" using True by simp
    also have "int k + int (length as - k) = int (length as)" using True by simp
    finally show ?thesis using True by simp
  qed simp
  have f: "filter is_delta ?new = filter (\<lambda>e. ?a < sequence_of e) (filter is_delta es)"
    by (induction es) auto
  have seqs: "map sequence_of (filter is_delta ?new) = map fst ?N" and texts: "map delta_text (filter is_delta ?new) = map snd ?N"
    using pairs_filter [OF ring, of ?a] unfolding f filter_numbered by auto
  have "readable ?new" using r by (simp add: readable_def)
  note view = replay_view_eq [OF t(1) newer_filter [OF r, of ?a] sequences_map [OF this, unfolded seqs]]
  have p: "\<forall>e \<in> set ?new. plain_event e" using plain [OF t(1)] by simp
  have f_new: "follow (concat as) ?new = concat as @ concat (map snd ?N)" using follow_plain [OF p] texts by simp
  have f_snap: "follow w (snapshot_event x # filter (\<lambda>e. \<not> is_delta e) ?new) = snd x" for w x
  proof -
    have "\<forall>e \<in> set (filter (\<lambda>e. \<not> is_delta e) ?new). plain_event e" using p by simp
    from follow_plain [OF this] have "follow (snd x) (filter (\<lambda>e. \<not> is_delta e) ?new) = snd x" by simp
    then show ?thesis by (simp add: follow_def read_event_def snapshot_event_def is_delta_def)
  qed
  show ?thesis
  proof (cases "k \<le> length as")
    case True
    then have n: "?N = numbered (int (length as)) bs" using N by simp
    show ?thesis
    proof (cases "bs = []")
      case True
      with n f_new snap view show ?thesis by (auto simp: snapshot_of_def split: if_splits)
    next
      case False
      then have "Min (set (map fst ?N)) = ?a + 1" "map fst ?N \<noteq> []" unfolding n using numbered_parts(2) [OF False] by (cases bs; simp)+
      with n f_new numbered_parts(1) [of "int (length as)" bs] snap view show ?thesis by (auto split: option.split)
    qed
  next
    case False
    then have n: "?N = numbered (int k) (drop k ?ds)" using N by simp
    then have "map fst ?N = [] \<or> ?a + 1 < Min (set (map fst ?N))"
      using numbered_parts(2) [of "drop k ?ds" "int k"] False by (cases "drop k ?ds = []") auto
    moreover have "bs \<noteq> []" using False k by auto
    ultimately show ?thesis using f_snap snap view by (auto simp: snapshot_of_def)
  qed
qed


datatype broker_op = Publish_event int string stream_event | Forget_task string | Replay_from int string int

definition broker_step :: "broker \<Rightarrow> broker_op \<Rightarrow> broker" where
  "broker_step b c = (case c of Publish_event tick t e \<Rightarrow> snd (publish tick t e b) | Forget_task t \<Rightarrow> forget t b
     | Replay_from tick t after \<Rightarrow> snd (replay_events tick t after b))"

lemma replay_state: "snd (replay_events tick t after b) = prune_broker tick b"
  "fst (replay_events tick t after b) = replay_view (prune_broker tick b) t after"
  by (simp_all add: replay_events_def then_do_def modify_def reads_def lift_def)

lemma broker_step_ok: "broker_ok b \<Longrightarrow> broker_ok (broker_step b c) \<and> same_limits b (broker_step b c)"
proof (cases c)
  case (Publish_event tick t e)
  assume b: "broker_ok b"
  obtain r b' where "publish tick t e b = (r, b')" by (cases "publish tick t e b")
  with publish_facts [OF b this] Publish_event show ?thesis by (simp add: broker_step_def)
next
  case (Forget_task t)
  assume "broker_ok b"
  with Forget_task show ?thesis by (simp add: broker_step_def forget_ok same_limits_def)
next
  case (Replay_from tick t after)
  assume "broker_ok b"
  with prune_facts [of b tick] Replay_from show ?thesis by (simp add: broker_step_def replay_state thinned_def)
qed

interpretation brokers: effectful broker_step broker_ok
  by unfold_locales (use broker_step_ok in blast)

lemma broker_limits: "broker_ok b \<Longrightarrow> same_limits b (brokers.run b cs)"
  using brokers.run_rel [where R = same_limits and ok = "\<lambda>_. True"] broker_step_ok
  by (simp add: same_limits_def)

lemma new_broker_ok: "new_broker mt me ms = Inr b \<Longrightarrow> broker_ok b \<and> bk_max_tasks b = mt \<and> bk_max_events b = me \<and> bk_max_snapshot_bytes b = ms"
  by (auto simp: new_broker_def guard_simps broker_ok_def)

text \<open>Events without the snapshot mark, as the program publishes them.\<close>

definition plain_broker :: "broker \<Rightarrow> bool" where
  "plain_broker b \<longleftrightarrow> (\<forall>t es e. map_of (bk_tasks b) t = Some es \<longrightarrow> e \<in> set es \<longrightarrow> plain_event e)"

definition plain_op :: "broker_op \<Rightarrow> bool" where
  "plain_op c \<longleftrightarrow> (case c of Publish_event _ _ e \<Rightarrow> plain_event e | _ \<Rightarrow> True)"

lemma forget_plain: "plain_broker b \<Longrightarrow> plain_broker (forget t b)"
  by (auto simp: plain_broker_def)

lemma prune_plain: "plain_broker b \<Longrightarrow> plain_broker (prune_broker tick b)"
proof -
  have "plain_broker a \<Longrightarrow> plain_broker (fold (\<lambda>(t, deadline) b. if deadline \<le> tick then forget t b else b) xs a)" for xs a
    by (induction xs arbitrary: a) (auto simp: forget_plain)
  then show "plain_broker b \<Longrightarrow> plain_broker (prune_broker tick b)" by (simp add: prune_broker_def)
qed

lemma make_room_plain: "keeps plain_broker make_room"
proof -
  have "plain_broker b \<Longrightarrow> plain_broker (snd (make_room b))" for b
  proof (induction b rule: make_room.induct)
    case (1 b)
    show ?case
    proof (cases "int (length (bk_tasks b)) < bk_max_tasks b \<or> bk_order b = []")
      case True
      with "1.prems" show ?thesis by (subst make_room.simps) (auto simp: ret_def fail_def)
    next
      case False
      then obtain t ts where o': "bk_order b = t # ts" by (cases "bk_order b") auto
      have "plain_broker (b\<lparr>bk_order := ts, bk_tasks := dict_del t (bk_tasks b), bk_snapshots := dict_del t (bk_snapshots b),
          bk_expires := dict_del t (bk_expires b)\<rparr>)" using "1.prems" by (auto simp: plain_broker_def)
      from "1.IH" [OF _ o' this] False show ?thesis by (subst make_room.simps) (simp add: o')
    qed
  qed
  then show ?thesis by (simp add: keeps_iff)
qed

lemma publish_delta_tasks: "bk_tasks (snd (publish_delta t e b)) = bk_tasks b"
proof -
  obtain r b' where r: "publish_delta t e b = (r, b')" by (cases "publish_delta t e b")
  then show ?thesis
    using publish_delta_raises [of t e b _ b'] publish_delta_outcome [of t e b _ b'] by (cases r) auto
qed

lemma store_plain: "plain_event e \<Longrightarrow> plain_broker b \<Longrightarrow> plain_broker (store_event tick t kind e b)"
proof -
  assume e: "plain_event e" and b: "plain_broker b"
  have "plain_event (public_keys e)"
    by (auto simp: plain_event_def public_keys_def List.map_filter_simps split: option.splits)
  then show ?thesis
    using e b by (auto simp: plain_broker_def store_event_def Let_def split: if_splits option.splits dest: in_set_dropD)
qed

lemma publish_plain:
  assumes "plain_event e"
  shows "keeps plain_broker (publish tick t e)"
proof -
  have d: "keeps plain_broker (publish_delta t e)"
    using publish_delta_tasks [of t e] by (simp add: keeps_iff plain_broker_def)
  have a: "plain_broker (add_task t b)" if "plain_broker b" for b
    using that by (auto simp: plain_broker_def add_task_def)
  show ?thesis
    unfolding publish_def Let_def
    by (intro meets_check meets_modify_then [where R = plain_broker] meets_reads_then meets_if
        meets_then [where R = "\<lambda>_. plain_broker"] meets_ret meets_modify meets_weaken [OF make_room_plain] meets_weaken [OF d])
      (auto intro: prune_plain a store_plain [OF assms])
qed

lemma run_plain: "plain_broker b \<Longrightarrow> \<forall>c \<in> set cs. plain_op c \<Longrightarrow> plain_broker (brokers.run b cs)"
proof (induction cs arbitrary: b)
  case (Cons c cs)
  have "plain_broker (broker_step b c)"
    using Cons.prems keeps_snd [OF publish_plain] prune_plain forget_plain
    by (auto simp: broker_step_def plain_op_def replay_state split: broker_op.splits)
  with Cons show ?case by simp
qed simp


text \<open>The entry of a task survives a call: it neither expires, nor is evicted, nor is forgotten.\<close>

definition survives :: "broker \<Rightarrow> string \<Rightarrow> broker_op \<Rightarrow> bool" where
  "survives b t c \<longleftrightarrow> map_of (bk_tasks (case c of Publish_event tick _ _ \<Rightarrow> prune_broker tick b
       | Replay_from tick _ _ \<Rightarrow> prune_broker tick b | Forget_task _ \<Rightarrow> b)) t \<noteq> None
     \<and> map_of (bk_tasks (broker_step b c)) t \<noteq> None"

fun alive :: "broker \<Rightarrow> string \<Rightarrow> broker_op list \<Rightarrow> bool" where
  "alive b t [] = True"
| "alive b t (c # cs) = (survives b t c \<and> alive (broker_step b c) t cs)"

lemma step_chunks:
  assumes b: "broker_ok b" and ds: "chunks b t ds" and a: "survives b t c"
  shows "\<exists>ds'. chunks (broker_step b c) t (ds @ ds')"
proof (cases c)
  case (Publish_event tick u e)
  obtain r b' where "publish tick u e b = (r, b')" by (cases "publish tick u e b")
  with publish_facts [OF b this] Publish_event a ds show ?thesis by (simp add: broker_step_def survives_def)
next
  case (Forget_task u)
  then have "u \<noteq> t" using a by (auto simp: survives_def broker_step_def)
  then have "chunks (broker_step b c) t ds" using ds Forget_task by (simp add: broker_step_def chunks_def)
  then show ?thesis by (intro exI [of _ "[]"]) simp
next
  case (Replay_from tick u after)
  then have "chunks (broker_step b c) t ds"
    using thinned_chunks [of b "prune_broker tick b" t ds] prune_facts [OF b] a ds
    by (simp add: broker_step_def survives_def replay_state)
  then show ?thesis by (intro exI [of _ "[]"]) simp
qed

lemma run_chunks:
  "broker_ok b \<Longrightarrow> chunks b t ds \<Longrightarrow> alive b t cs \<Longrightarrow> \<exists>ds'. chunks (brokers.run b cs) t (ds @ ds')"
proof (induction cs arbitrary: b ds)
  case Nil
  then show ?case by (auto intro: exI [of _ "[]"])
next
  case (Cons c cs)
  then obtain ds1 where "chunks (broker_step b c) t (ds @ ds1)" using step_chunks by force
  with Cons broker_step_ok [of b c] obtain ds2 where "chunks (brokers.run (broker_step b c) cs) t ((ds @ ds1) @ ds2)" by force
  then show ?case by auto
qed

text \<open>C32: a reader that reconnects catches up. Take any history of the broker after which a task has a snapshot, and
  a reader that has the text of it. Later, as long as the entry of the task has survived, whatever else was
  published, forgotten or replayed, a replay from the reader's last sequence number extends (or replaces) its
  text to exactly the snapshot of that time, even when the ring has dropped events in between; and a reader
  that starts from nothing gets the same text.\<close>

theorem reader_catches_up:
  assumes new: "new_broker mt me ms = Inr b0" and plain: "\<forall>c \<in> set (cs @ ds). plain_op c"
    and seen: "map_of (bk_snapshots (brokers.run b0 cs)) t = Some (a, w)"
    and alive: "alive (brokers.run b0 cs) t ds" "map_of (bk_tasks (prune_broker tick (brokers.run b0 (cs @ ds)))) t \<noteq> None"
  shows "\<exists>n w' evs evs0. map_of (bk_snapshots (brokers.run b0 (cs @ ds))) t = Some (n, w') \<and> a \<le> n
    \<and> fst (replay_events tick t a (brokers.run b0 (cs @ ds))) = Inr evs \<and> follow w evs = w'
    \<and> fst (replay_events tick t (-1) (brokers.run b0 (cs @ ds))) = Inr evs0 \<and> follow [] evs0 = w'"
proof -
  have b0: "broker_ok b0" using new_broker_ok [OF new] by simp
  let ?b1 = "brokers.run b0 cs" and ?b2 = "brokers.run b0 (cs @ ds)"
  let ?b3 = "prune_broker tick ?b2"
  have ok: "broker_ok ?b1" "broker_ok ?b2" using brokers.run_keeps [OF b0] by auto
  obtain as where as: "chunks ?b1 t as" using broker_snapshots [OF ok(1) seen] broker_chunks [OF ok(1)] by blast
  then have aw: "a = int (length as) - 1" "w = concat as"
    using seen by (auto simp: chunks_def snapshot_of_def split: if_splits)
  obtain bs where "chunks ?b2 t (as @ bs)" using run_chunks [OF ok(1) as alive(1)] unfolding brokers.run_append by blast
  with thinned_chunks [of ?b2 ?b3 t] prune_facts [OF ok(2), of tick] alive(2)
  have c: "chunks ?b2 t (as @ bs)" "chunks ?b3 t (as @ bs)" by auto
  have "plain_broker b0" using new by (auto simp: new_broker_def guard_simps plain_broker_def)
  then have p: "plain_broker ?b3" using run_plain plain prune_plain by blast
  have "map_of (bk_snapshots ?b2) t = Some (int (length (as @ bs)) - 1, concat (as @ bs))"
    using c(1) seen as by (auto simp: chunks_def snapshot_of_def)
  moreover obtain evs where "replay_view ?b3 t a = Inr evs" "follow w evs = concat (as @ bs)"
    using replay_reader [OF c(2)] p unfolding aw plain_broker_def by blast
  moreover obtain evs0 where "replay_view ?b3 t (-1) = Inr evs0" "follow [] evs0 = concat (as @ bs)"
    using replay_reader [of ?b3 t "[]" "as @ bs"] c(2) p unfolding plain_broker_def by auto
  ultimately show ?thesis using aw by (auto simp: replay_state)
qed

text \<open>C40: the broker is bounded and total. After any history it holds at most the configured number of tasks, events
  per task and bytes per snapshot; its eviction loop never meets an empty queue, so a publication raises only
  the errors it means to; and a replay never raises.\<close>

theorem broker_bounded:
  assumes "new_broker mt me ms = Inr b0"
  shows "int (length (bk_tasks (brokers.run b0 cs))) \<le> mt
    \<and> (\<forall>t es. map_of (bk_tasks (brokers.run b0 cs)) t = Some es \<longrightarrow> int (length es) \<le> me)
    \<and> (\<forall>t n w. map_of (bk_snapshots (brokers.run b0 cs)) t = Some (n, w) \<longrightarrow> int (length (utf8 w)) \<le> ms)
    \<and> fst (publish tick t e (brokers.run b0 cs)) \<noteq> Inl IndexError
    \<and> (\<exists>evs. fst (replay_events tick t after (brokers.run b0 cs)) = Inr evs)"
proof -
  let ?b = "brokers.run b0 cs"
  have b0: "broker_ok b0" "bk_max_tasks b0 = mt" "bk_max_events b0 = me" "bk_max_snapshot_bytes b0 = ms"
    using new_broker_ok [OF assms] by auto
  have ok: "broker_ok ?b" by (rule brokers.run_keeps [OF b0(1)])
  have l: "same_limits b0 ?b" by (rule broker_limits [OF b0(1)])
  obtain r b' where "publish tick t e ?b = (r, b')" by (cases "publish tick t e ?b")
  with publish_facts [OF ok this] have "fst (publish tick t e ?b) \<noteq> Inl IndexError" by simp
  moreover have "\<exists>evs. replay_view (prune_broker tick ?b) t after = Inr evs" using replay_error prune_facts [OF ok] by blast
  ultimately show ?thesis using ok l b0 by (simp add: broker_ok_def same_limits_def replay_state)
qed

subsection \<open>A short history\<close>

definition delta_event :: "int \<Rightarrow> string \<Rightarrow> stream_event" where
  "delta_event i d = [(''event'', JStr ''delta''), (''sequence'', JInt i), (''delta'', JStr d)]"

definition demo_broker :: broker where
  "demo_broker = \<lparr>bk_max_tasks = 1, bk_max_events = 1, bk_max_snapshot_bytes = 9, bk_tasks = [], bk_snapshots = [], bk_order = [], bk_expires = []\<rparr>"

lemma demo_broker_new: "new_broker 1 1 9 = Inr demo_broker"
  by (simp add: new_broker_def demo_broker_def)

abbreviation demo_at :: "int \<Rightarrow> string \<Rightarrow> string \<Rightarrow> broker" where
  "demo_at i d w \<equiv> demo_broker\<lparr>bk_tasks := [(''t'', [delta_event i d])], bk_snapshots := [(''t'', i, w)], bk_order := [''t''],
     bk_expires := [(''t'', 3600000000 + i)]\<rparr>"

lemma demo_steps:
  "broker_step demo_broker (Publish_event 0 ''t'' (delta_event 0 ''a'')) = demo_at 0 ''a'' ''a''"
  "broker_step (demo_at 0 ''a'' ''a'') (Publish_event 1 ''t'' (delta_event 1 ''b'')) = demo_at 1 ''b'' ''ab''"
  "broker_step (demo_at 1 ''b'' ''ab'') (Publish_event 2 ''t'' (delta_event 2 ''c'')) = demo_at 2 ''c'' ''abc''"
  by code_simp+

lemma demo_run:
  "brokers.run demo_broker [Publish_event 0 ''t'' (delta_event 0 ''a'')] = demo_at 0 ''a'' ''a''"
  "brokers.run demo_broker ([Publish_event 0 ''t'' (delta_event 0 ''a'')] @ [Publish_event 1 ''t'' (delta_event 1 ''b''), Publish_event 2 ''t'' (delta_event 2 ''c'')])
    = demo_at 2 ''c'' ''abc''"
  using demo_steps by simp_all

lemma reader_catches_up_witness:
  "\<exists>evs. fst (replay_events 3 ''t'' 0 (brokers.run demo_broker ([Publish_event 0 ''t'' (delta_event 0 ''a'')]
      @ [Publish_event 1 ''t'' (delta_event 1 ''b''), Publish_event 2 ''t'' (delta_event 2 ''c'')]))) = Inr evs
    \<and> follow ''a'' evs = ''abc''"
proof -
  let ?cs = "[Publish_event 0 ''t'' (delta_event 0 ''a'')]"
    and ?ds = "[Publish_event 1 ''t'' (delta_event 1 ''b''), Publish_event 2 ''t'' (delta_event 2 ''c'')]"
  have p: "\<forall>c \<in> set (?cs @ ?ds). plain_op c" by (simp add: plain_op_def plain_event_def delta_event_def)
  have s: "map_of (bk_snapshots (brokers.run demo_broker ?cs)) ''t'' = Some (0, ''a'')" unfolding demo_run by simp
  have a: "alive (brokers.run demo_broker ?cs) ''t'' ?ds" unfolding demo_run by code_simp
  have e: "map_of (bk_tasks (prune_broker 3 (brokers.run demo_broker (?cs @ ?ds)))) ''t'' \<noteq> None" unfolding demo_run by code_simp
  from reader_catches_up [OF demo_broker_new p s a e] show ?thesis unfolding demo_run by auto
qed

lemma broker_bounded_witness:
  "fst (publish 1 ''u'' (delta_event 0 ''a'') (brokers.run demo_broker [Publish_event 0 ''t'' (delta_event 0 ''a'')])) \<noteq> Inl IndexError"
  using broker_bounded [OF demo_broker_new, of "[Publish_event 0 ''t'' (delta_event 0 ''a'')]" 1 "''u''" "delta_event 0 ''a''" 0] by blast

end
