(* ===== verification/Mailbox.thy ===== *)
theory Mailbox
  imports Task_Envelopes
begin

section \<open>Mailbox envelopes and poll requests\<close>

text \<open>
  \<open>src/rynmesh/mailbox.py\<close>: the wire objects of the registry-hosted mailbox. A message is sealed for the
  recipient's messaging key and signed by the sender; a poll is signed by the recipient. \<open>now\<close> is the UTC clock in
  microseconds; fresh keys, nonces and ids are arguments. The errors are the stable codes of \<open>MailboxError\<close>, as
  \<open>Raised\<close> values; \<open>OverflowError\<close> is not one of them: \<open>_parse_time\<close> catches TypeError and ValueError only.
\<close>

definition MAILBOX_VERSION :: string where "MAILBOX_VERSION = ''rynmesh.mailbox.v1''"
definition POLL_KIND :: string where "POLL_KIND = ''mailbox_poll''"
definition MAX_ENVELOPE_BYTES :: int where "MAX_ENVELOPE_BYTES = 64 * 1024"
definition MAX_TTL_S :: int where "MAX_TTL_S = 24 * 3600"
definition MAX_POLL_LIMIT :: int where "MAX_POLL_LIMIT = 50"
definition POLL_SKEW_S :: int where "POLL_SKEW_S = 300"
definition MAX_KIND_LEN :: nat where "MAX_KIND_LEN = 96"
definition MAX_ACK_IDS :: nat where "MAX_ACK_IDS = 200"
definition MAILBOX_SEAL_INFO :: string where "MAILBOX_SEAL_INFO = ''rynmesh-mailbox-v1''"

text \<open>One second, in microseconds.\<close>

abbreviation SECOND :: int where "SECOND \<equiv> 1000000"

subsection \<open>Field checks\<close>

definition mailbox_time :: "json \<Rightarrow> py_error + int" where
  "mailbox_time j = (case parse_time j of Inl ValueError \<Rightarrow> Inl (Raised ''invalid_timestamp'') | r \<Rightarrow> r)"

definition b64_len :: "string \<Rightarrow> nat \<Rightarrow> py_error + unit" where
  "b64_len s expected = (case b64_decode s of None \<Rightarrow> Inl (Raised ''invalid_envelope_field'')
     | Some raw \<Rightarrow> require (length raw = expected) (Raised ''invalid_envelope_field'') (Inr ()))"

definition require_peer_id :: "string \<Rightarrow> py_error + string" where
  "require_peer_id peer_id = require (peer_id \<noteq> []) (Raised ''peer_id_required'') (
     case b64_decode peer_id of None \<Rightarrow> Inl (Raised ''invalid_peer_id'')
     | Some raw \<Rightarrow> require (length raw = 32) (Raised ''invalid_peer_id'') (Inr peer_id))"

definition kind_char :: "char \<Rightarrow> bool" where
  "kind_char c \<longleftrightarrow> is_alnum_ascii c \<or> c = CHR ''.'' \<or> c = CHR ''_'' \<or> c = CHR ''-''"

definition require_kind :: "string \<Rightarrow> py_error + string" where
  "require_kind kind = require (\<not> (kind = [] \<or> MAX_KIND_LEN < length kind)) (Raised ''invalid_kind'') (
     require (is_alnum_ascii (hd kind) \<and> list_all kind_char (tl kind)) (Raised ''invalid_kind'') (Inr kind))"

definition require_message_id :: "string \<Rightarrow> py_error + string" where
  "require_message_id i = require (length i = 32 \<and> list_all is_lower_hex i) (Raised ''invalid_message_id'') (Inr i)"

subsection \<open>Envelopes\<close>

record mail_envelope =
  me_version :: string
  me_kind :: string
  me_message_id :: string
  me_from_peer_id :: string
  me_to_peer_id :: string
  me_created_at :: string
  me_expires_at :: string
  me_ephemeral_pub :: string
  me_nonce :: string
  me_ciphertext :: string

definition ENVELOPE_FIELDS :: "string list" where
  "ENVELOPE_FIELDS = [''version'', ''kind'', ''message_id'', ''from_peer_id'', ''to_peer_id'', ''created_at'', ''expires_at'',
     ''ephemeral_pub'', ''nonce'', ''ciphertext'']"

definition envelope_dict :: "mail_envelope \<Rightarrow> json" where
  "envelope_dict e = JObj [(''version'', JStr (me_version e)), (''kind'', JStr (me_kind e)), (''message_id'', JStr (me_message_id e)),
     (''from_peer_id'', JStr (me_from_peer_id e)), (''to_peer_id'', JStr (me_to_peer_id e)), (''created_at'', JStr (me_created_at e)),
     (''expires_at'', JStr (me_expires_at e)), (''ephemeral_pub'', JStr (me_ephemeral_pub e)), (''nonce'', JStr (me_nonce e)),
     (''ciphertext'', JStr (me_ciphertext e))]"

definition envelope_from :: "json \<Rightarrow> py_error + mail_envelope" where
  "envelope_from data =
     require (is_obj data \<and> list_all (\<lambda>k. k \<in> set ENVELOPE_FIELDS) (jkeys data)) (Raised ''unknown_field'') (
     require (list_all (\<lambda>k. jget k data \<noteq> None) ENVELOPE_FIELDS) (Raised ''invalid_envelope'') (
     let field = (\<lambda>k. py_str (jfield k data)) in
     Inr \<lparr>me_version = field ''version'', me_kind = field ''kind'', me_message_id = field ''message_id'',
       me_from_peer_id = field ''from_peer_id'', me_to_peer_id = field ''to_peer_id'', me_created_at = field ''created_at'',
       me_expires_at = field ''expires_at'', me_ephemeral_pub = field ''ephemeral_pub'', me_nonce = field ''nonce'',
       me_ciphertext = field ''ciphertext''\<rparr>))"

definition envelope_size_bytes :: "signed_payload \<Rightarrow> int" where
  "envelope_size_bytes signed = int (length (canonical_json (to_dict signed)))"

text \<open>Any error of \<open>m\<close> becomes the code \<open>e\<close>.\<close>

definition rename_error :: "string \<Rightarrow> py_error + 'a \<Rightarrow> py_error + 'a" where
  "rename_error e m = (case m of Inl _ \<Rightarrow> Inl (Raised e) | Inr x \<Rightarrow> Inr x)"

definition seal_mailbox_message :: "crypto \<Rightarrow> box \<Rightarrow> string \<Rightarrow> string \<Rightarrow> string \<Rightarrow> string \<Rightarrow> json \<Rightarrow> string \<Rightarrow> string \<Rightarrow> string
    \<Rightarrow> json \<Rightarrow> int \<Rightarrow> string option \<Rightarrow> py_error + signed_payload" where
  "seal_mailbox_message C B ephemeral nonce fresh_id kind body private_key to_peer_id to_messaging_pub ttl_s now message_id =
     bnd (require_kind kind) (\<lambda>kind.
     require (is_obj body) (Raised ''invalid_body'') (
     bnd (rename_error ''invalid_ttl'' (py_int ttl_s)) (\<lambda>ttl.
     require (\<not> (ttl \<le> 0 \<or> MAX_TTL_S < ttl)) (Raised ''invalid_ttl'') (
     bnd (require_peer_id to_peer_id) (\<lambda>recipient.
     bnd (b64_len to_messaging_pub 32) (\<lambda>_.
     bnd (case message_id of Some i \<Rightarrow> require_message_id i | None \<Rightarrow> Inr fresh_id) (\<lambda>resolved_id.
     let plaintext = canonical_json (JObj [(''message_id'', JStr resolved_id), (''kind'', JStr kind), (''body'', body)]) in
     bnd (rename_error ''seal_failed'' (seal_box B ephemeral to_messaging_pub plaintext MAILBOX_SEAL_INFO nonce)) (\<lambda>(n, ciphertext).
     require (instant (now + ttl * SECOND)) OverflowError (
     let envelope = \<lparr>me_version = MAILBOX_VERSION, me_kind = kind, me_message_id = resolved_id,
           me_from_peer_id = ed_public C private_key, me_to_peer_id = recipient, me_created_at = iso_z now,
           me_expires_at = iso_z (now + ttl * SECOND), me_ephemeral_pub = public_key_b64 B ephemeral, me_nonce = n,
           me_ciphertext = ciphertext\<rparr>;
         signed = sign_payload C (envelope_dict envelope) private_key in
     require (\<not> MAX_ENVELOPE_BYTES < envelope_size_bytes signed) (Raised ''envelope_too_large'') (Inr signed))))))))))"

definition verify_mailbox_envelope :: "crypto \<Rightarrow> signed_payload \<Rightarrow> int \<Rightarrow> py_error + mail_envelope" where
  "verify_mailbox_envelope C signed now =
     bnd (rename_error ''invalid_signature'' (verify_signed_payload C signed)) (\<lambda>_.
     bnd (envelope_from (sp_payload signed)) (\<lambda>e.
     require (me_version e = MAILBOX_VERSION) (Raised ''version_unsupported'') (
     require (me_from_peer_id e = sp_public_key signed) (Raised ''sender_mismatch'') (
     bnd (require_peer_id (me_from_peer_id e)) (\<lambda>_.
     bnd (require_peer_id (me_to_peer_id e)) (\<lambda>_.
     bnd (require_kind (me_kind e)) (\<lambda>_.
     bnd (require_message_id (me_message_id e)) (\<lambda>_.
     bnd (b64_len (me_ephemeral_pub e) 32) (\<lambda>_.
     bnd (b64_len (me_nonce e) 12) (\<lambda>_.
     require (me_ciphertext e \<noteq> []) (Raised ''invalid_envelope_field'') (
     bnd (mailbox_time (JStr (me_created_at e))) (\<lambda>created.
     bnd (mailbox_time (JStr (me_expires_at e))) (\<lambda>expires.
     require (instant (now + POLL_SKEW_S * SECOND)) OverflowError (
     require (\<not> now + POLL_SKEW_S * SECOND < created) (Raised ''created_at_in_future'') (
     require (\<not> expires \<le> now) (Raised ''expired'') (
     require (\<not> (expires - created \<le> 0 \<or> MAX_TTL_S * SECOND < expires - created)) (Raised ''invalid_ttl'') (
     require (\<not> MAX_ENVELOPE_BYTES < envelope_size_bytes signed) (Raised ''envelope_too_large'') (Inr e))))))))))))))))))"

definition open_mailbox_message :: "crypto \<Rightarrow> box \<Rightarrow> signed_payload \<Rightarrow> string \<Rightarrow> string \<Rightarrow> string option \<Rightarrow> int
    \<Rightarrow> py_error + (mail_envelope \<times> json)" where
  "open_mailbox_message C B signed my_peer_id messaging_key kind now =
     bnd (verify_mailbox_envelope C signed now) (\<lambda>e.
     require (me_to_peer_id e = my_peer_id) (Raised ''recipient_mismatch'') (
     require (case kind of None \<Rightarrow> True | Some k \<Rightarrow> me_kind e = k) (Raised ''kind_mismatch'') (
     bnd (rename_error ''open_failed'' (open_sealed B messaging_key (me_ephemeral_pub e) (me_nonce e) (me_ciphertext e) MAILBOX_SEAL_INFO)) (\<lambda>plaintext.
     bnd (rename_error ''invalid_plaintext'' (read_json plaintext)) (\<lambda>sealed.
     require (is_obj sealed) (Raised ''invalid_plaintext'') (
     require (py_str (jfield ''message_id'' sealed) = me_message_id e) (Raised ''message_id_mismatch'') (
     require (py_str (jfield ''kind'' sealed) = me_kind e) (Raised ''kind_mismatch'') (
     require (is_obj (jfield ''body'' sealed)) (Raised ''invalid_plaintext'') (
     Inr (e, jfield ''body'' sealed))))))))))"

subsection \<open>Polls\<close>

definition build_poll_request :: "crypto \<Rightarrow> string \<Rightarrow> string \<Rightarrow> string list \<Rightarrow> json \<Rightarrow> int \<Rightarrow> string option \<Rightarrow> py_error + signed_payload" where
  "build_poll_request C fresh_nonce private_key ack limit now nonce =
     bnd (rename_error ''invalid_limit'' (py_int limit)) (\<lambda>wanted.
     require (\<not> (wanted < 1 \<or> MAX_POLL_LIMIT < wanted)) (Raised ''invalid_limit'') (
     require (\<not> MAX_ACK_IDS < length ack) (Raised ''too_many_acks'') (
     bnd (check_all (\<lambda>i. bnd (require_message_id i) (\<lambda>_. Inr ())) ack) (\<lambda>_.
     bnd (case nonce of Some n \<Rightarrow> require_message_id n | None \<Rightarrow> Inr fresh_nonce) (\<lambda>resolved_nonce.
     Inr (sign_payload C (JObj [(''kind'', JStr POLL_KIND), (''peer_id'', JStr (ed_public C private_key)), (''issued_at'', JStr (iso_z now)),
       (''nonce'', JStr resolved_nonce), (''ack'', JArr (map JStr ack)), (''limit'', JInt wanted)]) private_key))))))"

definition verify_poll_request :: "crypto \<Rightarrow> signed_payload \<Rightarrow> int \<Rightarrow> py_error + json" where
  "verify_poll_request C signed now =
     bnd (rename_error ''invalid_signature'' (verify_signed_payload C signed)) (\<lambda>_.
     let payload = sp_payload signed; peer_id = str_or (jfield ''peer_id'' payload) in
     require (jfield ''kind'' payload = JStr POLL_KIND) (Raised ''poll_kind_unsupported'') (
     require (\<not> (peer_id = [] \<or> peer_id \<noteq> sp_public_key signed)) (Raised ''poll_peer_mismatch'') (
     bnd (mailbox_time (jfield ''issued_at'' payload)) (\<lambda>issued_at.
     require (\<not> POLL_SKEW_S * SECOND < \<bar>issued_at - now\<bar>) (Raised ''poll_skew'') (
     case jfield ''limit'' payload of JInt limit \<Rightarrow>
       require (\<not> (limit < 1 \<or> MAX_POLL_LIMIT < limit)) (Raised ''invalid_limit'') (
       let ack = (case jget ''ack'' payload of None \<Rightarrow> JArr [] | Some a \<Rightarrow> a) in
       require (is_list ack) (Raised ''invalid_ack'') (
       require (\<not> MAX_ACK_IDS < length (jlist ack)) (Raised ''too_many_acks'') (
       bnd (check_all (\<lambda>i. bnd (require_message_id (py_str i)) (\<lambda>_. Inr ())) (jlist ack)) (\<lambda>_.
       bnd (require_message_id (str_or (jfield ''nonce'' payload))) (\<lambda>_. Inr payload)))))
     | _ \<Rightarrow> Inl (Raised ''invalid_limit''))))))"

end
