(* ===== verification/Mailbox_Guarantees.thy ===== *)
theory Mailbox_Guarantees
  imports Mailbox
begin

section \<open>Guarantees of mailbox envelopes\<close>

text \<open>
  Round trip and authenticity of mailbox envelopes, what a verified envelope looks like, and the timestamp that escapes the error codes.
\<close>

subsection \<open>Canonical plaintexts read back\<close>

lemma dict_ok_sorted: "dict_ok (sort_key fst kvs) \<longleftrightarrow> dict_ok kvs"
  by (simp add: dict_ok_def distinct_map)

lemma json_ok_canon: "json_ok j \<Longrightarrow> json_ok (canon j)"
proof (induction j)
  case (JArr xs)
  then show ?case by (auto simp: list_all_iff)
next
  case (JObj kvs)
  have "dict_ok (map (map_prod id canon) kvs)" using JObj.prems by (simp add: dict_ok_def o_def)
  with JObj show ?case by (fastforce simp: list_all_iff dict_ok_sorted)
qed simp_all

lemma read_canonical: "json_ok j \<Longrightarrow> read_json (canonical_json j) = Inr (canon j)"
  by (simp add: read_json_def canonical_json_def decode_utf8 json_loads_enc json_ok_canon)

lemma jfield_canon: "jget k j = Some v \<Longrightarrow> jfield k (canon j) = canon v"
  by (simp add: jfield_def jget_canon)

subsection \<open>The sender's envelope is accepted\<close>

lemma envelope_fields:
  "envelope_from (envelope_dict e) = Inr e"
  by (cases e) (simp add: envelope_from_def envelope_dict_def ENVELOPE_FIELDS_def jkeys_def jget_def jfield_def is_obj_def Let_def)

lemma rename_ok [guard_simps]: "rename_error e m = Inr x \<longleftrightarrow> m = Inr x"
  by (cases m) (simp_all add: rename_error_def)

lemma rename_Inr [simp]: "rename_error e (Inr x) = Inr x"
  by (simp add: rename_error_def)

lemma b64_text_decodes: "b64_decode (b64_text s) = Some (map of_char s)"
proof -
  have "\<forall>b \<in> set (map of_char s). b < (256 :: nat)" by (auto simp: of_char_lt)
  from b64_roundtrip [OF this] show ?thesis by (simp add: b64_text_def)
qed

lemma b64_text_len: "b64_len (b64_text s) n = require (length s = n) (Raised ''invalid_envelope_field'') (Inr ())"
  by (simp add: b64_len_def b64_text_decodes)

lemma b64_text_ne: "s \<noteq> [] \<Longrightarrow> b64_text s \<noteq> []"
  using b64_text_decodes [of s] by (metis b64_decode.simps(1) list.map_disc_iff option.inject)

lemma mailbox_time_iso: "instant t \<Longrightarrow> mailbox_time (JStr (iso_z t)) = Inr t"
  by (simp add: mailbox_time_def parse_time_def utc_of_z)

definition mail_body :: "string \<Rightarrow> string \<Rightarrow> json \<Rightarrow> json" where
  "mail_body i kind body = JObj [(''message_id'', JStr i), (''kind'', JStr kind), (''body'', body)]"

lemma box_law_parts:
  "box_law B \<Longrightarrow> box_key a \<Longrightarrow> length (x_public B a) = 32"
  "box_law B \<Longrightarrow> length (hkdf B info s) = 32"
  "box_law B \<Longrightarrow> length k = 32 \<Longrightarrow> box_nonce n \<Longrightarrow> aead_seal B k n p \<noteq> []"
  by (simp_all add: box_law_def)

lemma sealed_mail_opens:
  assumes law: "box_law B" "box_key ephemeral" "box_key messaging_key" "box_nonce nonce" and body: "json_ok body"
    and s: "seal_box B ephemeral (public_key_b64 B messaging_key) (canonical_json (mail_body i kind body)) info nonce = Inr (n, ct)"
  shows "bnd (open_sealed B messaging_key (public_key_b64 B ephemeral) n ct info) read_json = Inr (canon (mail_body i kind body))
    \<and> ct \<noteq> [] \<and> b64_len n 12 = Inr () \<and> b64_len (public_key_b64 B ephemeral) 32 = Inr ()"
proof -
  have j: "json_ok (canon (mail_body i kind body))" using body by (intro json_ok_canon) (simp add: mail_body_def)
  from peer.json_open [OF law j, of info] s have o': "bnd (open_sealed B messaging_key (public_key_b64 B ephemeral) n ct info) read_json = Inr (canon (mail_body i kind body))"
    by (auto simp: canonical_json_def)
  obtain k where k: "shared_key B ephemeral (public_key_b64 B messaging_key) info = Inr k"
    "n = b64_text nonce" "ct = b64_text (aead_seal B k nonce (canonical_json (mail_body i kind body)))"
    using s by (auto simp: seal_box_def guard_simps)
  then obtain raw where "k = hkdf B info raw" by (auto simp: shared_key_def guard_simps)
  then have "length k = 32" using box_law_parts(2) [OF law(1)] by simp
  then have "ct \<noteq> []" using b64_text_ne [OF box_law_parts(3) [OF law(1) _ law(4)]] by (simp add: k(3))
  then show ?thesis
    using o' law(4) box_law_parts(1) [OF law(1,2)] by (simp add: k(2) b64_text_len public_key_b64_def box_nonce_def)
qed


lemma checked_same: "require_kind k = Inr k' \<Longrightarrow> k' = k" "require_message_id i = Inr i' \<Longrightarrow> i' = i" "require_peer_id p = Inr p' \<Longrightarrow> p' = p"
  by (auto simp: require_kind_def require_message_id_def require_peer_id_def guard_simps split: option.splits)

lemma seal_outcome:
  assumes "seal_mailbox_message C B ephemeral nonce fresh_id kind body private_key to_peer_id to_messaging_pub (JInt ttl) now message_id = Inr signed"
  shows "\<exists>i n ct. require_kind kind = Inr kind \<and> is_obj body \<and> 0 < ttl \<and> ttl \<le> MAX_TTL_S \<and> require_peer_id to_peer_id = Inr to_peer_id
    \<and> (case message_id of Some j \<Rightarrow> require_message_id j = Inr j \<and> i = j | None \<Rightarrow> i = fresh_id)
    \<and> seal_box B ephemeral to_messaging_pub (canonical_json (mail_body i kind body)) MAILBOX_SEAL_INFO nonce = Inr (n, ct)
    \<and> instant (now + ttl * SECOND) \<and> envelope_size_bytes signed \<le> MAX_ENVELOPE_BYTES
    \<and> signed = sign_payload C (envelope_dict \<lparr>me_version = MAILBOX_VERSION, me_kind = kind, me_message_id = i,
         me_from_peer_id = ed_public C private_key, me_to_peer_id = to_peer_id, me_created_at = iso_z now,
         me_expires_at = iso_z (now + ttl * SECOND), me_ephemeral_pub = public_key_b64 B ephemeral, me_nonce = n,
         me_ciphertext = ct\<rparr>) private_key"
proof -
  have p: "rename_error e (py_int (JInt ttl)) = Inr ttl" for e by (simp add: py_int_def)
  from assms obtain k' r' i x where h: "require_kind kind = Inr k'" "is_obj body" "\<not> (ttl \<le> 0 \<or> MAX_TTL_S < ttl)"
    "require_peer_id to_peer_id = Inr r'" "(case message_id of Some j \<Rightarrow> require_message_id j | None \<Rightarrow> Inr fresh_id) = Inr i"
    "seal_box B ephemeral to_messaging_pub (canonical_json (JObj [(''message_id'', JStr i), (''kind'', JStr k'), (''body'', body)])) MAILBOX_SEAL_INFO nonce = Inr x"
    "instant (now + ttl * SECOND)"
    "\<not> MAX_ENVELOPE_BYTES < envelope_size_bytes signed" "signed = sign_payload C (envelope_dict \<lparr>me_version = MAILBOX_VERSION, me_kind = k', me_message_id = i,
         me_from_peer_id = ed_public C private_key, me_to_peer_id = r', me_created_at = iso_z now,
         me_expires_at = iso_z (now + ttl * SECOND), me_ephemeral_pub = public_key_b64 B ephemeral, me_nonce = fst x,
         me_ciphertext = snd x\<rparr>) private_key"
    unfolding seal_mailbox_message_def p bnd_simps Let_def case_prod_beta guard_simps sum.inject by metis
  from h(5) have "case message_id of Some j \<Rightarrow> require_message_id j = Inr j \<and> i = j | None \<Rightarrow> i = fresh_id"
    using checked_same(2) by (auto split: option.splits)
  with h checked_same(1) [OF h(1)] checked_same(3) [OF h(4)] show ?thesis
    by (intro exI [of _ i] exI [of _ "fst x"] exI [of _ "snd x"]) (auto simp: mail_body_def)
qed

lemma sealed_mail_verifies:
  assumes law: "signing_law C" "box_law B" and keys: "box_key ephemeral" "box_key messaging_key" "box_nonce nonce"
    and ids: "require_peer_id (ed_public C private_key) = Inr sender" "require_message_id fresh_id = Inr fresh_id" and body: "json_ok body"
    and s: "seal_mailbox_message C B ephemeral nonce fresh_id kind body private_key to_peer_id (public_key_b64 B messaging_key)
        (JInt ttl) now message_id = Inr signed"
    and time: "instant now" "now \<le> t + POLL_SKEW_S * SECOND" "t < now + ttl * SECOND" "instant (t + POLL_SKEW_S * SECOND)"
  shows "\<exists>e. verify_mailbox_envelope C signed t = Inr e \<and> signed = sign_payload C (envelope_dict e) private_key
    \<and> me_kind e = kind \<and> me_to_peer_id e = to_peer_id \<and> me_from_peer_id e = ed_public C private_key \<and> me_ephemeral_pub e = public_key_b64 B ephemeral
    \<and> (case message_id of Some i \<Rightarrow> me_message_id e = i | None \<Rightarrow> me_message_id e = fresh_id) \<and> is_obj body
    \<and> seal_box B ephemeral (public_key_b64 B messaging_key) (canonical_json (mail_body (me_message_id e) kind body)) MAILBOX_SEAL_INFO nonce
        = Inr (me_nonce e, me_ciphertext e)"
proof -
  obtain i n ct where c: "require_kind kind = Inr kind" "is_obj body" "0 < ttl" "ttl \<le> MAX_TTL_S" "require_peer_id to_peer_id = Inr to_peer_id"
      "case message_id of Some j \<Rightarrow> require_message_id j = Inr j \<and> i = j | None \<Rightarrow> i = fresh_id"
      "seal_box B ephemeral (public_key_b64 B messaging_key) (canonical_json (mail_body i kind body)) MAILBOX_SEAL_INFO nonce = Inr (n, ct)"
      "instant (now + ttl * SECOND)" "envelope_size_bytes signed \<le> MAX_ENVELOPE_BYTES"
      "signed = sign_payload C (envelope_dict \<lparr>me_version = MAILBOX_VERSION, me_kind = kind, me_message_id = i,
           me_from_peer_id = ed_public C private_key, me_to_peer_id = to_peer_id, me_created_at = iso_z now,
           me_expires_at = iso_z (now + ttl * SECOND), me_ephemeral_pub = public_key_b64 B ephemeral, me_nonce = n,
           me_ciphertext = ct\<rparr>) private_key" (is "signed = sign_payload C (envelope_dict ?e) private_key")
    using seal_outcome [OF s] by blast
  have i: "require_message_id i = Inr i" using c(6) ids(2) by (auto split: option.splits)
  note m = sealed_mail_opens [OF law(2) keys body c(7)]
  have o': "sp_payload signed = envelope_dict ?e" "sp_public_key signed = ed_public C private_key"
    by (simp_all add: c(10) sign_payload_def)
  have peer: "require_peer_id (ed_public C private_key) = Inr (ed_public C private_key)" using ids(1) by (auto simp: require_peer_id_def guard_simps split: option.splits)
  have v: "verify_mailbox_envelope C signed t = Inr ?e"
    using c(1,3-5,8,9) i m peer time sign_verify [OF law(1), of "envelope_dict ?e" private_key]
    by (simp add: verify_mailbox_envelope_def o' envelope_fields c(10) [symmetric] mailbox_time_iso)
  show ?thesis using v c(2,6,7,10) by (intro exI [of _ ?e]) (auto split: option.splits)
qed

lemma checked_ex: "(\<exists>x. require_kind k = Inr x) \<longleftrightarrow> require_kind k = Inr k"
  "(\<exists>x. require_message_id i = Inr x) \<longleftrightarrow> require_message_id i = Inr i"
  "(\<exists>x. require_peer_id p = Inr x) \<longleftrightarrow> require_peer_id p = Inr p"
  using checked_same by blast+

lemma verified_same: "verify_mailbox_envelope C signed t = Inr e \<Longrightarrow> \<exists>created expires. verify_signed_payload C signed = Inr ()
    \<and> envelope_from (sp_payload signed) = Inr e \<and> me_version e = MAILBOX_VERSION \<and> me_from_peer_id e = sp_public_key signed
    \<and> require_peer_id (me_from_peer_id e) = Inr (me_from_peer_id e) \<and> require_peer_id (me_to_peer_id e) = Inr (me_to_peer_id e)
    \<and> require_kind (me_kind e) = Inr (me_kind e) \<and> require_message_id (me_message_id e) = Inr (me_message_id e)
    \<and> b64_len (me_ephemeral_pub e) 32 = Inr () \<and> b64_len (me_nonce e) 12 = Inr () \<and> me_ciphertext e \<noteq> []
    \<and> mailbox_time (JStr (me_created_at e)) = Inr created \<and> mailbox_time (JStr (me_expires_at e)) = Inr expires
    \<and> created \<le> t + POLL_SKEW_S * SECOND \<and> t < expires \<and> 0 < expires - created \<and> expires - created \<le> MAX_TTL_S * SECOND
    \<and> envelope_size_bytes signed \<le> MAX_ENVELOPE_BYTES"
  by (auto simp: verify_mailbox_envelope_def guard_simps checked_ex)

text \<open>C33: mail arrives. What \<open>seal_mailbox_message\<close> accepts for a recipient, the recipient opens from five minutes
  before it was written (by its own clock) until it expires, to the body that was sealed, with its keys in
  canonical order.\<close>

theorem mail_round_trip:
  assumes law: "signing_law C" "box_law B" and keys: "box_key ephemeral" "box_key messaging_key" "box_nonce nonce"
    and ids: "require_peer_id (ed_public C private_key) = Inr sender" "require_message_id fresh_id = Inr fresh_id" and body: "json_ok body"
    and s: "seal_mailbox_message C B ephemeral nonce fresh_id kind body private_key to_peer_id (public_key_b64 B messaging_key)
        (JInt ttl) now message_id = Inr signed"
    and time: "instant now" "now \<le> t + POLL_SKEW_S * SECOND" "t < now + ttl * SECOND" "instant (t + POLL_SKEW_S * SECOND)"
  shows "\<exists>e. open_mailbox_message C B signed to_peer_id messaging_key (Some kind) t = Inr (e, canon body)
    \<and> me_kind e = kind \<and> me_from_peer_id e = ed_public C private_key
    \<and> (case message_id of Some i \<Rightarrow> me_message_id e = i | None \<Rightarrow> me_message_id e = fresh_id)"
proof -
  obtain e where e: "verify_mailbox_envelope C signed t = Inr e" "me_kind e = kind" "me_to_peer_id e = to_peer_id"
      "me_from_peer_id e = ed_public C private_key" "me_ephemeral_pub e = public_key_b64 B ephemeral"
      "case message_id of Some i \<Rightarrow> me_message_id e = i | None \<Rightarrow> me_message_id e = fresh_id" "is_obj body"
      "seal_box B ephemeral (public_key_b64 B messaging_key) (canonical_json (mail_body (me_message_id e) kind body)) MAILBOX_SEAL_INFO nonce
        = Inr (me_nonce e, me_ciphertext e)"
    using sealed_mail_verifies [OF law keys ids body s time] by blast
  let ?b = "mail_body (me_message_id e) kind body"
  have f: "jfield ''message_id'' (canon ?b) = JStr (me_message_id e)" "jfield ''kind'' (canon ?b) = JStr kind" "jfield ''body'' (canon ?b) = canon body"
    by (subst jfield_canon, simp add: mail_body_def jget_def, simp)+
  have "is_obj (canon ?b)" "is_obj (canon body)"
    using e(7) by (cases body; simp add: mail_body_def is_obj_def)+
  moreover obtain pt where "open_sealed B messaging_key (public_key_b64 B ephemeral) (me_nonce e) (me_ciphertext e) MAILBOX_SEAL_INFO = Inr pt"
      "read_json pt = Inr (canon ?b)"
    using sealed_mail_opens [OF law(2) keys body e(8)] by (auto simp: guard_simps)
  ultimately have "open_mailbox_message C B signed to_peer_id messaging_key (Some kind) t = Inr (e, canon body)"
    using e(1-5) f by (simp add: open_mailbox_message_def)
  then show ?thesis using e by blast
qed

text \<open>C34: what \<open>verify_mailbox_envelope\<close> lets through carries a valid signature of the peer it names as sender, between
  two 32-byte peer ids, exactly the ten declared fields, an id of 32 lower-case hex digits, a kind of 1 to 96 safe characters, at most
  64 KiB, and is neither expired nor valid for longer than a day and five minutes from now.\<close>

theorem verified_mail:
  assumes "verify_mailbox_envelope C signed now = Inr e"
  shows "verify_signed_payload C signed = Inr () \<and> sp_public_key signed = me_from_peer_id e
    \<and> (\<exists>a b. b64_decode (me_from_peer_id e) = Some a \<and> length a = 32 \<and> b64_decode (me_to_peer_id e) = Some b \<and> length b = 32)
    \<and> set (jkeys (sp_payload signed)) = set ENVELOPE_FIELDS
    \<and> length (me_message_id e) = 32 \<and> list_all is_lower_hex (me_message_id e)
    \<and> 0 < length (me_kind e) \<and> length (me_kind e) \<le> MAX_KIND_LEN \<and> list_all kind_char (me_kind e)
    \<and> envelope_size_bytes signed \<le> 65536
    \<and> (\<exists>expires. mailbox_time (JStr (me_expires_at e)) = Inr expires \<and> now < expires
        \<and> expires \<le> now + (MAX_TTL_S + POLL_SKEW_S) * SECOND)"
proof -
  obtain created expires where v: "verify_signed_payload C signed = Inr ()"
    "envelope_from (sp_payload signed) = Inr e" "me_from_peer_id e = sp_public_key signed"
    "require_peer_id (me_from_peer_id e) = Inr (me_from_peer_id e)" "require_peer_id (me_to_peer_id e) = Inr (me_to_peer_id e)"
    "require_kind (me_kind e) = Inr (me_kind e)" "require_message_id (me_message_id e) = Inr (me_message_id e)"
    "mailbox_time (JStr (me_expires_at e)) = Inr expires"
    "created \<le> now + POLL_SKEW_S * SECOND" "now < expires" "expires - created \<le> MAX_TTL_S * SECOND"
    "envelope_size_bytes signed \<le> MAX_ENVELOPE_BYTES"
    using verified_same [OF assms] by blast
  have ids: "\<exists>a. b64_decode p = Some a \<and> length a = 32" if "require_peer_id p = Inr p" for p
    using that by (auto simp: require_peer_id_def guard_simps split: option.splits)
  have "set (jkeys (sp_payload signed)) = set ENVELOPE_FIELDS"
    using v(2) by (cases "sp_payload signed") (auto simp: envelope_from_def guard_simps list_all_iff jkeys_def jget_def map_of_eq_None_iff is_obj_def)
  moreover have "0 < length (me_kind e) \<and> length (me_kind e) \<le> MAX_KIND_LEN \<and> list_all kind_char (me_kind e)"
    using v(6) by (cases "me_kind e") (auto simp: require_kind_def guard_simps kind_char_def)
  moreover have "length (me_message_id e) = 32 \<and> list_all is_lower_hex (me_message_id e)"
    using v(7) by (simp add: require_message_id_def guard_simps)
  moreover have "expires \<le> now + (MAX_TTL_S + POLL_SKEW_S) * SECOND" using v(9,11) by simp
  moreover have "envelope_size_bytes signed \<le> 65536" using v(12) by (simp add: MAX_ENVELOPE_BYTES_def)
  ultimately show ?thesis using v(1,3,8,10) ids [OF v(4)] ids [OF v(5)] by auto
qed

text \<open>a timestamp can escape the error codes. Whoever signed an acceptable envelope makes
  \<open>verify_mailbox_envelope\<close> raise OverflowError, which is no \<open>MailboxError\<close>, by replacing its creation time with one
  that lies before year 1 in UTC.\<close>

theorem mail_time_escapes:
  assumes "signing_law C" "verify_mailbox_envelope C (sign_payload C (envelope_dict e) private_key) now = Inr e"
  shows "verify_mailbox_envelope C (sign_payload C (envelope_dict (e\<lparr>me_created_at := ''0001-01-01T00:00:00+23:59''\<rparr>)) private_key) now
    = Inl OverflowError"
proof -
  have "mailbox_time (JStr ''0001-01-01T00:00:00+23:59'') = Inl OverflowError"
    by code_simp
  then show ?thesis
    using verified_same [OF assms(2)] sign_verify [OF assms(1)]
    by (auto simp: verify_mailbox_envelope_def envelope_fields sign_payload_def)
qed

definition demo_id :: string where "demo_id = replicate 32 (CHR ''a'')"
definition demo_sender :: string where "demo_sender = b64_text (demo_bytes (CHR ''s''))"
definition demo_recipient :: string where "demo_recipient = b64_text (demo_bytes (CHR ''r''))"

definition demo_mail :: "py_error + signed_payload" where
  "demo_mail = seal_mailbox_message demo_crypto plain_box (demo_bytes (CHR ''e'')) (replicate 12 (CHR ''n'')) demo_id ''note'' (JObj []) demo_sender
     demo_recipient (public_key_b64 plain_box (demo_bytes (CHR ''m''))) (JInt 60) 0 None"

lemma length_b64: "length (b64_encode bs) = 4 * ((length bs + 2) div 3)"
proof (induction bs rule: b64_encode.induct)
  case (4 a b c bs)
  have "(5 + length bs) div 3 = Suc ((2 + length bs) div 3)" by presburger
  with 4 show ?case by simp
qed simp_all

lemma length_b64_text: "length (b64_text s) \<le> 2 * length s + 4"
  by (simp add: b64_text_def length_b64)

lemma length_iso_z: "length (iso_z t) \<le> 27"
  using clock_length [of "t mod DAY"] by (simp add: iso_z_def)

lemma demo_mail_sealed: "\<exists>signed. demo_mail = Inr signed"
proof -
  let ?plain = "canonical_json (mail_body demo_id ''note'' (JObj []))"
  have k: "require_kind ''note'' = Inr ''note''" by code_simp
  have r: "require_peer_id demo_recipient = Inr demo_recipient"
    using b64_text_ne [of "demo_bytes (CHR ''r'')"] by (simp add: require_peer_id_def demo_recipient_def b64_text_decodes demo_bytes_def)
  have l: "b64_len (public_key_b64 plain_box (demo_bytes (CHR ''m''))) 32 = Inr ()"
    by (simp add: public_key_b64_def b64_text_len plain_box_def demo_bytes_def)
  obtain n ct where s: "seal_box plain_box (demo_bytes (CHR ''e'')) (public_key_b64 plain_box (demo_bytes (CHR ''m''))) ?plain MAILBOX_SEAL_INFO
      (replicate 12 (CHR ''n'')) = Inr (n, ct)"
    using peer.open_seal [OF plain_laws(2), of "demo_bytes (CHR ''e'')" "demo_bytes (CHR ''m'')" "replicate 12 (CHR ''n'')"] demo_keys by blast
  have "length ?plain \<le> 800"
    using length_canonical [of "mail_body demo_id ''note'' (JObj [])"] by (simp add: mail_body_def demo_id_def)
  moreover have "length (hkdf plain_box i x) = 32" for i x using box_law_parts(2) [OF plain_laws(2)] .
  ultimately have ct: "length ct \<le> 1700" "length n \<le> 28"
    using s
    by (auto simp: seal_box_def shared_key_def guard_simps plain_box_def intro: order_trans [OF length_b64_text])
  have short: "length demo_sender \<le> 68" "length demo_recipient \<le> 68" "length (public_key_b64 plain_box (demo_bytes (CHR ''e''))) \<le> 68"
    using length_b64_text [of "demo_bytes (CHR ''s'')"] length_b64_text [of "demo_bytes (CHR ''r'')"] length_b64_text [of "demo_bytes (CHR ''e'')"]
    by (simp_all add: demo_sender_def demo_recipient_def public_key_b64_def plain_box_def demo_bytes_def)
  let ?signed = "sign_payload demo_crypto (envelope_dict \<lparr>me_version = MAILBOX_VERSION, me_kind = ''note'', me_message_id = demo_id,
           me_from_peer_id = demo_sender, me_to_peer_id = demo_recipient, me_created_at = iso_z 0,
           me_expires_at = iso_z (0 + 60 * SECOND), me_ephemeral_pub = public_key_b64 plain_box (demo_bytes (CHR ''e'')), me_nonce = n,
           me_ciphertext = ct\<rparr>) demo_sender"
  have "jsize (to_dict ?signed) \<le> 20000"
    using short ct length_iso_z [of 0] length_iso_z [of "60 * SECOND"]
    by (simp add: to_dict_def sign_payload_def envelope_dict_def demo_crypto_def MAILBOX_VERSION_def SIGNATURE_ALG_def demo_id_def)
  then have size: "\<not> MAX_ENVELOPE_BYTES < envelope_size_bytes ?signed"
    using length_canonical [of "to_dict ?signed"] by (simp add: envelope_size_bytes_def MAX_ENVELOPE_BYTES_def)
  have "ed_public demo_crypto demo_sender = demo_sender" "instant (60 * SECOND)" by (simp_all add: demo_crypto_def instant_def MAX_DAYS_def DAY_def)
  with size have "demo_mail = Inr ?signed"
    using k r l s by (simp add: demo_mail_def seal_mailbox_message_def MAX_TTL_S_def py_int_def mail_body_def [symmetric] is_obj_def)
  then show ?thesis by blast
qed

lemma demo_ids:
  "require_peer_id (ed_public demo_crypto demo_sender) = Inr demo_sender" "require_message_id demo_id = Inr demo_id" "json_ok (JObj [])"
  "box_key (demo_bytes c)" "box_nonce (replicate 12 c)" "instant 0" "instant (0 + POLL_SKEW_S * SECOND)"
proof -
  show "require_peer_id (ed_public demo_crypto demo_sender) = Inr demo_sender"
    using b64_text_ne [of "demo_bytes (CHR ''s'')"]
    by (simp add: require_peer_id_def demo_crypto_def demo_sender_def b64_text_decodes demo_bytes_def)
  show "require_message_id demo_id = Inr demo_id" by code_simp
qed (simp_all add: demo_keys instant_0 dict_ok_def instant_def MAX_DAYS_def DAY_def POLL_SKEW_S_def)

lemma demo_verifies: "\<exists>signed e. demo_mail = Inr signed \<and> verify_mailbox_envelope demo_crypto signed 0 = Inr e
  \<and> signed = sign_payload demo_crypto (envelope_dict e) demo_sender \<and> me_kind e = ''note'' \<and> me_message_id e = demo_id
  \<and> me_to_peer_id e = demo_recipient \<and> me_from_peer_id e = demo_sender"
proof -
  obtain signed where s: "demo_mail = Inr signed" using demo_mail_sealed by blast
  have "ed_public demo_crypto demo_sender = demo_sender" by (simp add: demo_crypto_def)
  with sealed_mail_verifies [OF plain_laws demo_ids(4,4,5,1,2,3) s [unfolded demo_mail_def] demo_ids(6), of 0] s show ?thesis
    using demo_ids(7) by (auto simp: POLL_SKEW_S_def)
qed

lemma mail_round_trip_witness:
  "\<exists>signed e. demo_mail = Inr signed \<and> me_message_id e = demo_id
    \<and> open_mailbox_message demo_crypto plain_box signed demo_recipient (demo_bytes (CHR ''m'')) (Some ''note'') 0 = Inr (e, JObj [])"
proof -
  obtain signed where s: "demo_mail = Inr signed" using demo_mail_sealed by blast
  from mail_round_trip [OF plain_laws demo_ids(4,4,5,1,2,3) s [unfolded demo_mail_def] demo_ids(6), of 0] s show ?thesis
    using demo_ids(7) by (auto simp: POLL_SKEW_S_def)
qed

lemma verified_mail_witness:
  "\<exists>signed e. demo_mail = Inr signed \<and> verify_mailbox_envelope demo_crypto signed 0 = Inr e \<and> sp_public_key signed = me_from_peer_id e"
  using demo_verifies verified_mail by blast

lemma mail_time_escapes_witness:
  "\<exists>signed e. demo_mail = Inr signed \<and> verify_mailbox_envelope demo_crypto signed 0 = Inr e
    \<and> verify_mailbox_envelope demo_crypto (sign_payload demo_crypto (envelope_dict (e\<lparr>me_created_at := ''0001-01-01T00:00:00+23:59''\<rparr>)) demo_sender) 0
        = Inl OverflowError"
  using demo_verifies mail_time_escapes [OF demo_signing] by blast

end
