(* ===== verification/Mailbox_Spool.thy ===== *)
theory Mailbox_Spool
  imports Mailbox_Guarantees
begin

section \<open>The registry's mail spool\<close>

text \<open>
  \<open>src/rynmesh/mailbox_store.py\<close>: \<open>FileMailboxStore\<close>, one directory of sealed envelopes and ack tombstones per
  recipient, a token bucket per sender and a cache of poll nonces. A directory is a dictionary from message ids to files;
  a file is what the store wrote in it (the envelope, or the expiry of a tombstone; the \<open>stored_at\<close> note is never read)
  with its modification time. A method holds the store's lock, and reads the clock anew wherever the source does: the readings, in
  microseconds, and the modification times the file system gives are the record \<open>readings\<close>. Tokens are
  exact: a bucket counts units of 1/60000000 token, so that a microsecond refills \<open>rate\<close> units (the source rounds to
  floats). File-system failures and damaged files are not modelled.
\<close>

definition MAX_REPLAY_ENTRIES :: nat where "MAX_REPLAY_ENTRIES = 4096"
definition MAX_TOMBSTONES_PER_BOX :: nat where "MAX_TOMBSTONES_PER_BOX = 2048"
definition MAX_POLL_RESPONSE_BYTES :: int where "MAX_POLL_RESPONSE_BYTES = 1536 * 1024"

abbreviation TOKEN :: int where "TOKEN \<equiv> 60000000"

record mail_box =
  mb_mail :: "(string, int \<times> signed_payload) dict"
  mb_acked :: "(string, int \<times> string) dict"

record spool =
  sp_max_pending :: int
  sp_max_sender :: int
  sp_rate :: int
  sp_boxes :: "(string, mail_box) dict"
  sp_buckets :: "(string, int \<times> int) dict"
  sp_nonces :: "(string \<times> string, int) dict"

record readings =
  at_verify :: int
  at_charge :: int
  at_sweep :: int
  at_serve :: "string \<Rightarrow> int"
  written_at :: "string \<Rightarrow> int"

definition new_spool :: "int \<Rightarrow> int \<Rightarrow> int \<Rightarrow> spool" where
  "new_spool per_recipient per_sender rate = \<lparr>sp_max_pending = max 1 per_recipient, sp_max_sender = max 1 per_sender,
     sp_rate = max 1 rate, sp_boxes = [], sp_buckets = [], sp_nonces = []\<rparr>"

subsection \<open>One directory\<close>

definition recipient_dir :: "crypto \<Rightarrow> string \<Rightarrow> string" where
  "recipient_dir C peer_id = sha256 C (utf8 peer_id)"

definition empty_box :: mail_box where
  "empty_box = \<lparr>mb_mail = [], mb_acked = []\<rparr>"

definition box_at :: "string \<Rightarrow> spool \<Rightarrow> mail_box" where
  "box_at d s = (case map_of (sp_boxes s) d of None \<Rightarrow> empty_box | Some b \<Rightarrow> b)"

definition put_box :: "string \<Rightarrow> mail_box \<Rightarrow> spool \<Rightarrow> spool" where
  "put_box d b s = s\<lparr>sp_boxes := dict_put d b (sp_boxes s)\<rparr>"

text \<open>The file of the id, or its tombstone, exists.\<close>

definition known_id :: "string \<Rightarrow> mail_box \<Rightarrow> bool" where
  "known_id i b \<longleftrightarrow> map_of (mb_mail b) i \<noteq> None \<or> map_of (mb_acked b) i \<noteq> None"

definition mail_expiry :: "signed_payload \<Rightarrow> string" where
  "mail_expiry signed = str_or (jfield ''expires_at'' (sp_payload signed))"

definition is_past :: "string \<Rightarrow> int \<Rightarrow> bool" where
  "is_past expires_at now \<longleftrightarrow> expires_at = [] \<or> (case from_iso (z_to_utc expires_at) of
     None \<Rightarrow> True | Some (t, None) \<Rightarrow> t \<le> now | Some (t, Some z) \<Rightarrow> t - z \<le> now)"

text \<open>Sorted by modification time and name.\<close>

definition by_age :: "(string, int \<times> 'a) dict \<Rightarrow> (string, int \<times> 'a) dict" where
  "by_age d = sort_key (\<lambda>f. fst (snd f)) (sort_key fst d)"

definition bound_acked :: "(string, int \<times> string) dict \<Rightarrow> (string, int \<times> string) dict" where
  "bound_acked acked = (if length acked \<le> MAX_TOMBSTONES_PER_BOX then acked
     else drop (length acked - MAX_TOMBSTONES_PER_BOX) (by_age acked))"

definition swept :: "int \<Rightarrow> mail_box \<Rightarrow> mail_box" where
  "swept now b = \<lparr>mb_mail = filter (\<lambda>f. \<not> is_past (mail_expiry (snd (snd f))) now) (mb_mail b),
     mb_acked = bound_acked (filter (\<lambda>f. \<not> is_past (snd (snd f)) now) (mb_acked b))\<rparr>"

definition box_files :: "mail_box \<Rightarrow> int" where
  "box_files b = int (length (mb_mail b)) + int (length (mb_acked b))"

definition sweep_dir :: "string \<Rightarrow> int \<Rightarrow> (spool, int) act" where
  "sweep_dir d now = then_do (reads (\<lambda>s. map_of (sp_boxes s) d)) (\<lambda>x. case x of
     None \<Rightarrow> ret 0
   | Some b \<Rightarrow> then_do (modify (put_box d (swept now b))) (\<lambda>_. ret (box_files b - box_files (swept now b))))"

definition prune_empty :: "string \<Rightarrow> (spool, unit) act" where
  "prune_empty d = modify (\<lambda>s. if box_files (box_at d s) = 0 then s\<lparr>sp_boxes := dict_del d (sp_boxes s)\<rparr> else s)"

definition pending_counts :: "string \<Rightarrow> mail_box \<Rightarrow> int \<times> int" where
  "pending_counts from b = (int (length (mb_mail b)),
     int (length (filter (\<lambda>f. str_or (jfield ''from_peer_id'' (sp_payload (snd (snd f)))) = from) (mb_mail b))))"

definition ack_mail :: "string \<Rightarrow> (string \<Rightarrow> int) \<Rightarrow> string \<Rightarrow> (spool, unit) act" where
  "ack_mail d written i = modify (\<lambda>s. case map_of (mb_mail (box_at d s)) i of None \<Rightarrow> s
     | Some (mtime, signed) \<Rightarrow> put_box d \<lparr>mb_mail = dict_del i (mb_mail (box_at d s)),
         mb_acked = (if mail_expiry signed = [] then mb_acked (box_at d s)
           else dict_put i (written i, mail_expiry signed) (mb_acked (box_at d s)))\<rparr> s)"

definition unlink_mail :: "string \<Rightarrow> string \<Rightarrow> (spool, unit) act" where
  "unlink_mail d i = modify (\<lambda>s. put_box d ((box_at d s)\<lparr>mb_mail := dict_del i (mb_mail (box_at d s))\<rparr>) s)"

fun each :: "('a \<Rightarrow> ('s, unit) act) \<Rightarrow> 'a list \<Rightarrow> ('s, unit) act" where
  "each f [] = ret ()"
| "each f (x # xs) = then_do (f x) (\<lambda>_. each f xs)"

subsection \<open>Rates and replays\<close>

definition refilled :: "int \<Rightarrow> int \<Rightarrow> (int \<times> int) option \<Rightarrow> int" where
  "refilled rate now bucket = (case bucket of None \<Rightarrow> rate * TOKEN
     | Some (tokens, then_at) \<Rightarrow> min (rate * TOKEN) (tokens + max 0 (now - then_at) * rate))"

definition take_token :: "int \<Rightarrow> string \<Rightarrow> (spool, unit) act" where
  "take_token now sender = then_do (reads (\<lambda>s. refilled (sp_rate s) now (map_of (sp_buckets s) sender))) (\<lambda>tokens.
     if tokens < TOKEN then
       then_do (modify (\<lambda>s. s\<lparr>sp_buckets := dict_put sender (tokens, now) (sp_buckets s)\<rparr>)) (\<lambda>_. fail (Raised ''rate_limited''))
     else modify (\<lambda>s. s\<lparr>sp_buckets := dict_put sender (tokens - TOKEN, now) (sp_buckets s)\<rparr>))"

definition shed :: "(string \<times> string, int) dict \<Rightarrow> (string \<times> string, int) dict" where
  "shed seen = (if length seen < MAX_REPLAY_ENTRIES then seen
     else filter (\<lambda>e. fst e \<notin> set (map fst (take 64 (sort_key snd seen)))) seen)"

definition remember_nonce :: "int \<Rightarrow> string \<Rightarrow> string \<Rightarrow> (spool, unit) act" where
  "remember_nonce now peer_id nonce =
     then_do (modify (\<lambda>s. s\<lparr>sp_nonces := filter (\<lambda>e. \<not> snd e \<le> now) (sp_nonces s)\<rparr>)) (\<lambda>_.
     then_do (reads sp_nonces) (\<lambda>seen.
     check (map_of seen (peer_id, nonce) = None) (Raised ''replay'') (
     modify (\<lambda>s. s\<lparr>sp_nonces := dict_put (peer_id, nonce) (now + 2 * POLL_SKEW_S * SECOND) (shed seen)\<rparr>))))"

subsection \<open>Deposits, polls and the sweep\<close>

definition deposit :: "crypto \<Rightarrow> readings \<Rightarrow> signed_payload \<Rightarrow> (spool, json) act" where
  "deposit C env signed =
     then_do (lift (verify_mailbox_envelope C signed (at_verify env))) (\<lambda>e.
     then_do (take_token (at_charge env) (me_from_peer_id e)) (\<lambda>_.
     let d = recipient_dir C (me_to_peer_id e); i = me_message_id e in
     then_do (reads (\<lambda>s. known_id i (box_at d s))) (\<lambda>known. check (\<not> known) (Raised ''duplicate'') (
     then_do (sweep_dir d (at_sweep env)) (\<lambda>_.
     then_do (reads (\<lambda>s. known_id i (box_at d s))) (\<lambda>known. check (\<not> known) (Raised ''duplicate'') (
     then_do (reads (\<lambda>s. (pending_counts (me_from_peer_id e) (box_at d s), sp_max_pending s, sp_max_sender s))) (\<lambda>((pending, from_sender), max_pending, max_sender).
     check (\<not> max_pending \<le> pending) (Raised ''recipient_full'') (
     check (\<not> max_sender \<le> from_sender) (Raised ''sender_quota'') (
     then_do (modify (\<lambda>s. put_box d ((box_at d s)\<lparr>mb_mail := dict_put i (written_at env i, signed) (mb_mail (box_at d s))\<rparr>) s)) (\<lambda>_.
     ret (JObj [(''message_id'', JStr i), (''expires_at'', JStr (me_expires_at e)), (''pending'', JInt (pending + 1))]))))))))))))"

fun serve :: "crypto \<Rightarrow> string \<Rightarrow> string \<Rightarrow> (string \<Rightarrow> int) \<Rightarrow> int \<Rightarrow> (string, int \<times> signed_payload) dict \<Rightarrow> int \<Rightarrow> signed_payload list
    \<Rightarrow> (spool, signed_payload list) act" where
  "serve C d peer_id now limit [] budget selected = ret selected"
| "serve C d peer_id now limit ((i, _, signed) # files) budget selected =
     (if limit \<le> int (length selected) then ret selected
      else case verify_mailbox_envelope C signed (now i) of
        Inl (Raised _) \<Rightarrow> then_do (unlink_mail d i) (\<lambda>_. serve C d peer_id now limit files budget selected)
      | Inl e \<Rightarrow> fail e
      | Inr e \<Rightarrow>
          if me_to_peer_id e \<noteq> peer_id then serve C d peer_id now limit files budget selected
          else if selected \<noteq> [] \<and> budget < envelope_size_bytes signed then ret selected
          else serve C d peer_id now limit files (budget - envelope_size_bytes signed) (selected @ [signed]))"

definition poll_acks :: "json \<Rightarrow> string list" where
  "poll_acks payload = (case jget ''ack'' payload of None \<Rightarrow> [] | Some a \<Rightarrow> map py_str (jlist a))"

definition poll :: "crypto \<Rightarrow> readings \<Rightarrow> signed_payload \<Rightarrow> (spool, signed_payload list) act" where
  "poll C env signed_poll =
     then_do (lift (verify_poll_request C signed_poll (at_verify env))) (\<lambda>payload.
     let peer_id = py_str (jfield ''peer_id'' payload); d = recipient_dir C peer_id in
     then_do (lift (py_int (jfield ''limit'' payload))) (\<lambda>limit.
     then_do (remember_nonce (at_charge env) peer_id (py_str (jfield ''nonce'' payload))) (\<lambda>_.
     then_do (each (ack_mail d (written_at env)) (poll_acks payload)) (\<lambda>_.
     then_do (sweep_dir d (at_sweep env)) (\<lambda>_.
     then_do (reads (\<lambda>s. by_age (mb_mail (box_at d s)))) (\<lambda>candidates.
     serve C d peer_id (at_serve env) limit candidates MAX_POLL_RESPONSE_BYTES []))))))"

definition sweep :: "(string \<Rightarrow> int) \<Rightarrow> (spool, int) act" where
  "sweep now = then_do (reads (\<lambda>s. sort (map fst (sp_boxes s)))) (\<lambda>dirs.
     count_do (\<lambda>d. then_do (sweep_dir d (now d)) (\<lambda>n. then_do (prune_empty d) (\<lambda>_. ret n))) dirs)"

datatype spool_call = Deposit readings signed_payload | Poll readings signed_payload | Sweep "string \<Rightarrow> int"

fun spool_step :: "crypto \<Rightarrow> spool \<Rightarrow> spool_call \<Rightarrow> spool" where
  "spool_step C s (Deposit env signed) = snd (deposit C env signed s)"
| "spool_step C s (Poll env signed) = snd (poll C env signed s)"
| "spool_step C s (Sweep now) = snd (sweep now s)"

end
