(* ===== verification/Spool_Safety.thy ===== *)
theory Spool_Safety
  imports Mailbox_Spool
begin

section \<open>The spool keeps its bounds\<close>

text \<open>
  The invariant of the store: every directory is within its caps, every stored envelope was verified, lies under its own
  id in the directory of its recipient, and the nonce cache is bounded. Every method keeps it, whether it returns or raises.
\<close>

definition box_ok :: "crypto \<Rightarrow> nat \<Rightarrow> int \<Rightarrow> int \<Rightarrow> string \<Rightarrow> mail_box \<Rightarrow> bool" where
  "box_ok C tombs max_pending max_sender d b \<longleftrightarrow> dict_ok (mb_mail b) \<and> dict_ok (mb_acked b)
     \<and> fst (pending_counts [] b) \<le> max_pending \<and> (\<forall>p. snd (pending_counts p b) \<le> max_sender)
     \<and> length (mb_acked b) \<le> tombs
     \<and> (\<forall>(i, _, signed) \<in> set (mb_mail b). \<exists>t e. verify_mailbox_envelope C signed t = Inr e
          \<and> me_message_id e = i \<and> recipient_dir C (me_to_peer_id e) = d)"

text \<open>A poll may leave up to 200 further tombstones in its directory until it sweeps it: \<open>tombs d\<close> bounds those of \<open>d\<close>.\<close>

definition spool_within :: "crypto \<Rightarrow> (string \<Rightarrow> nat) \<Rightarrow> spool \<Rightarrow> bool" where
  "spool_within C tombs s \<longleftrightarrow> 1 \<le> sp_max_pending s \<and> 1 \<le> sp_max_sender s \<and> 1 \<le> sp_rate s \<and> dict_ok (sp_boxes s)
     \<and> (\<forall>(d, b) \<in> set (sp_boxes s). box_ok C (tombs d) (sp_max_pending s) (sp_max_sender s) d b)
     \<and> dict_ok (sp_nonces s) \<and> length (sp_nonces s) \<le> MAX_REPLAY_ENTRIES"

abbreviation spool_ok :: "crypto \<Rightarrow> spool \<Rightarrow> bool" where
  "spool_ok C \<equiv> spool_within C (\<lambda>_. MAX_TOMBSTONES_PER_BOX)"

subsection \<open>Dictionaries of files\<close>

lemma dict_ok_drop: "dict_ok d \<Longrightarrow> dict_ok (drop n d)"
  by (simp add: dict_ok_def drop_map [symmetric])

lemma by_age_facts [simp]: "set (by_age d) = set d" "length (by_age d) = length d" "dict_ok (by_age d) \<longleftrightarrow> dict_ok d"
  by (simp_all add: by_age_def dict_ok_def distinct_map)

lemma set_del: "dict_ok d \<Longrightarrow> set (dict_del k d) = {f \<in> set d. fst f \<noteq> k}"
  by (auto simp: AList.delete_eq)

lemma set_put: "set (dict_put k v d) \<subseteq> insert (k, v) (set d)"
  by (induction d) auto

lemma set_put_fresh: "map_of d k = None \<Longrightarrow> set (dict_put k v d) = insert (k, v) (set d)"
  by (simp add: put_fresh)

lemma length_del: "length (dict_del k d) \<le> length d"
  by (simp add: AList.delete_eq)

subsection \<open>One directory\<close>

lemma box_ok_fewer:
  assumes "box_ok C n m k d b" "set (mb_mail b') \<subseteq> set (mb_mail b)" "dict_ok (mb_mail b')" "dict_ok (mb_acked b')"
    "length (mb_acked b') \<le> n'"
  shows "box_ok C n' m k d b'"
proof -
  have d: "distinct (mb_mail b')" "distinct (mb_mail b)"
    using assms(1,3) by (auto simp: box_ok_def dict_ok_def distinct_map)
  have le: "length (filter P (mb_mail b')) \<le> length (filter P (mb_mail b))" for P
    using card_mono [of "set (filter P (mb_mail b))" "set (filter P (mb_mail b'))"] assms(2) d
    by (auto simp: distinct_card simp del: set_filter) (auto simp: distinct_card [symmetric] subset_iff intro!: card_mono)
  have "length (mb_mail b') \<le> length (mb_mail b)" using le [of "\<lambda>_. True"] by simp
  moreover have "int (length (filter P (mb_mail b'))) \<le> k" if "int (length (filter P (mb_mail b))) \<le> k" for P
    using le [of P] that by linarith
  moreover have "\<forall>f \<in> set (mb_mail b'). case f of (i, _, signed) \<Rightarrow> \<exists>t e. verify_mailbox_envelope C signed t = Inr e
      \<and> me_message_id e = i \<and> recipient_dir C (me_to_peer_id e) = d"
    using assms(1,2) unfolding box_ok_def by blast
  ultimately show ?thesis
    using assms(1,3-) unfolding box_ok_def pending_counts_def by auto
qed

lemma empty_box_ok: "1 \<le> m \<Longrightarrow> 1 \<le> k \<Longrightarrow> box_ok C n m k d empty_box"
  by (simp add: box_ok_def empty_box_def pending_counts_def)

lemma bound_acked_facts: "set (bound_acked a) \<subseteq> set a" "dict_ok a \<Longrightarrow> dict_ok (bound_acked a)" "length (bound_acked a) \<le> MAX_TOMBSTONES_PER_BOX"
  by (auto simp: bound_acked_def dict_ok_drop dest!: in_set_dropD)

lemma swept_ok: "box_ok C n m k d b \<Longrightarrow> box_ok C MAX_TOMBSTONES_PER_BOX m k d (swept now b)"
  by (rule box_ok_fewer, assumption) (auto simp: swept_def box_ok_def intro!: bound_acked_facts)

subsection \<open>The steps\<close>

lemma map_of_boxes: "spool_within C tombs s \<Longrightarrow> map_of (sp_boxes s) d = Some b \<Longrightarrow> box_ok C (tombs d) (sp_max_pending s) (sp_max_sender s) d b"
  by (auto simp: spool_within_def dest!: map_of_SomeD)

lemma box_at_ok: "spool_within C tombs s \<Longrightarrow> box_ok C (tombs d) (sp_max_pending s) (sp_max_sender s) d (box_at d s)"
  by (auto simp: box_at_def map_of_boxes split: option.split) (simp add: spool_within_def empty_box_ok)

lemma put_box_within:
  "spool_within C tombs s \<Longrightarrow> box_ok C n (sp_max_pending s) (sp_max_sender s) d b \<Longrightarrow> spool_within C (tombs(d := n)) (put_box d b s)"
  unfolding spool_within_def put_box_def
proof (intro conjI; (simp; fail)?; elim conjE)
  assume k: "dict_ok (sp_boxes s)" "\<forall>(d, b) \<in> set (sp_boxes s). box_ok C (tombs d) (sp_max_pending s) (sp_max_sender s) d b"
    and n: "box_ok C n (sp_max_pending s) (sp_max_sender s) d b"
  have "map_of (dict_put d b (sp_boxes s)) x = Some y \<Longrightarrow> box_ok C ((tombs(d := n)) x) (sp_max_pending s) (sp_max_sender s) x y" for x y
    using k(2) n by (auto split: if_splits dest!: map_of_SomeD)
  with k(1) show "\<forall>(x, y) \<in> set (sp_boxes (s\<lparr>sp_boxes := dict_put d b (sp_boxes s)\<rparr>)).
      box_ok C ((tombs(d := n)) x) (sp_max_pending (s\<lparr>sp_boxes := dict_put d b (sp_boxes s)\<rparr>))
        (sp_max_sender (s\<lparr>sp_boxes := dict_put d b (sp_boxes s)\<rparr>)) x y"
    using dict_ok_map_of [OF dict_ok_put [OF k(1), of d b]] by auto
qed

lemma put_box_ok: "spool_within C tombs s \<Longrightarrow> box_ok C (tombs d) (sp_max_pending s) (sp_max_sender s) d b \<Longrightarrow> spool_within C tombs (put_box d b s)"
  using put_box_within [of C tombs s "tombs d" d b] by simp

text \<open>The sweep of a directory restores its tombstone bound.\<close>

lemma sweep_dir_within: "meets (spool_within C ((\<lambda>_. MAX_TOMBSTONES_PER_BOX)(d := n))) (sweep_dir d now) (\<lambda>_. spool_ok C) E"
  unfolding sweep_dir_def
proof (intro meets_steps meets_ret meets_modify_then [where R = "spool_ok C"])
  fix s x assume s: "spool_within C ((\<lambda>_. MAX_TOMBSTONES_PER_BOX)(d := n)) s \<and> map_of (sp_boxes s) d = x" "x = None"
  then have "\<forall>f \<in> set (sp_boxes s). fst f \<noteq> d" by (auto simp: map_of_eq_None_iff)
  then have "\<forall>f \<in> set (sp_boxes s). (case f of (x, b) \<Rightarrow> box_ok C (((\<lambda>_. MAX_TOMBSTONES_PER_BOX)(d := n)) x) (sp_max_pending s) (sp_max_sender s) x b)
      \<longrightarrow> (case f of (x, b) \<Rightarrow> box_ok C MAX_TOMBSTONES_PER_BOX (sp_max_pending s) (sp_max_sender s) x b)" by auto
  with s(1) show "spool_ok C s" unfolding spool_within_def by blast
next
  fix b s x assume s: "spool_within C ((\<lambda>_. MAX_TOMBSTONES_PER_BOX)(d := n)) s \<and> map_of (sp_boxes s) d = x" "x = Some b"
  then have "box_ok C n (sp_max_pending s) (sp_max_sender s) d b" using map_of_boxes [of C "(\<lambda>_. MAX_TOMBSTONES_PER_BOX)(d := n)" s d b] by simp
  from put_box_within [OF conjunct1 [OF s(1)] swept_ok [OF this, of now]]
  have "spool_within C ((\<lambda>_. MAX_TOMBSTONES_PER_BOX)(d := n, d := MAX_TOMBSTONES_PER_BOX)) (put_box d (swept now b) s)" .
  moreover have "(\<lambda>_. MAX_TOMBSTONES_PER_BOX)(d := n, d := MAX_TOMBSTONES_PER_BOX) = (\<lambda>_. MAX_TOMBSTONES_PER_BOX)" by auto
  ultimately show "spool_ok C (put_box d (swept now b) s)" by (simp only:)
qed

lemma sweep_dir_ok: "keeps (spool_ok C) (sweep_dir d now)"
proof -
  have "(\<lambda>_. MAX_TOMBSTONES_PER_BOX)(d := MAX_TOMBSTONES_PER_BOX) = (\<lambda>_. MAX_TOMBSTONES_PER_BOX)" by auto
  with sweep_dir_within [of C d MAX_TOMBSTONES_PER_BOX now "\<lambda>_. spool_ok C"] show ?thesis by (simp only:)
qed

lemma prune_ok: "keeps (spool_ok C) (prune_empty d)"
  unfolding prune_empty_def by (rule meets_modify) (auto simp: spool_within_def AList.delete_eq)

lemma bucket_ok: "spool_ok C s \<Longrightarrow> spool_ok C (s\<lparr>sp_buckets := b\<rparr>)"
  by (simp add: spool_within_def)

lemma take_token_ok: "keeps (spool_ok C) (take_token now p)"
  unfolding take_token_def
  by (intro meets_steps meets_fail meets_modify meets_modify_then [where R = "spool_ok C"]) (auto intro: bucket_ok)

lemma shed_facts: "set (shed n) \<subseteq> set n" "dict_ok n \<Longrightarrow> dict_ok (shed n)"
  "length n \<le> MAX_REPLAY_ENTRIES \<Longrightarrow> length (shed n) < MAX_REPLAY_ENTRIES"
proof -
  show "set (shed n) \<subseteq> set n" "dict_ok n \<Longrightarrow> dict_ok (shed n)" by (auto simp: shed_def)
  assume n: "length n \<le> MAX_REPLAY_ENTRIES"
  show "length (shed n) < MAX_REPLAY_ENTRIES"
  proof (cases "length n < MAX_REPLAY_ENTRIES")
    case False
    then have "n \<noteq> []" by (auto simp: MAX_REPLAY_ENTRIES_def)
    then have "sort_key snd n \<noteq> []" by (metis length_0_conv length_sort)
    then obtain x xs where x: "sort_key snd n = x # xs" by (cases "sort_key snd n") auto
    then have "x \<in> set n" by (metis list.set_intros(1) set_sort)
    then have "length (shed n) < length n" using x False by (auto simp: shed_def intro!: length_filter_less)
    with n show ?thesis by simp
  qed (simp add: shed_def)
qed

lemma remember_ok: "keeps (spool_ok C) (remember_nonce now p n)"
  unfolding remember_nonce_def
proof (intro meets_steps meets_modify meets_modify_then [where R = "spool_ok C"])
  fix s assume "spool_ok C s"
  then show "spool_ok C (s\<lparr>sp_nonces := filter (\<lambda>e. \<not> snd e \<le> now) (sp_nonces s)\<rparr>)"
    by (auto simp: spool_within_def intro: order_trans [OF length_filter_le])
next
  fix seen s
  assume s: "spool_ok C s \<and> sp_nonces s = seen"
  then have "length (shed seen) < MAX_REPLAY_ENTRIES" by (intro shed_facts) (auto simp: spool_within_def)
  with s show "spool_ok C (s\<lparr>sp_nonces := dict_put (p, n) (now + 2 * POLL_SKEW_S * SECOND) (shed seen)\<rparr>)"
    by (auto simp: spool_within_def length_put shed_facts)
qed auto

lemma unlink_ok: "keeps (spool_ok C) (unlink_mail d i)"
  unfolding unlink_mail_def
proof (rule meets_modify)
  fix s assume s: "spool_ok C s"
  then have b: "box_ok C MAX_TOMBSTONES_PER_BOX (sp_max_pending s) (sp_max_sender s) d (box_at d s)" by (rule box_at_ok)
  have "box_ok C MAX_TOMBSTONES_PER_BOX (sp_max_pending s) (sp_max_sender s) d ((box_at d s)\<lparr>mb_mail := dict_del i (mb_mail (box_at d s))\<rparr>)"
    using b by (intro box_ok_fewer [OF b]) (auto simp: box_ok_def set_del)
  with s show "spool_ok C (put_box d ((box_at d s)\<lparr>mb_mail := dict_del i (mb_mail (box_at d s))\<rparr>) s)" by (rule put_box_ok)
qed

lemma verify_keeps: "keeps P (lift r)"
  by (rule meets_lift) auto

lemma serve_ok: "keeps (spool_ok C) (serve C d p now limit files budget sel)"
  by (induction C d p now limit files budget sel rule: serve.induct)
    (auto split: sum.split py_error.split intro!: meets_ret meets_fail meets_then [OF unlink_ok])

lemma ack_within:
  "meets (spool_within C ((\<lambda>_. MAX_TOMBSTONES_PER_BOX)(d := n))) (ack_mail d written i) (\<lambda>_. spool_within C ((\<lambda>_. MAX_TOMBSTONES_PER_BOX)(d := Suc n))) E"
  unfolding ack_mail_def
proof (rule meets_modify)
  fix s assume s: "spool_within C ((\<lambda>_. MAX_TOMBSTONES_PER_BOX)(d := n)) s" (is "spool_within C ?t s")
  then have b: "box_ok C n (sp_max_pending s) (sp_max_sender s) d (box_at d s)" using box_at_ok [OF s, of d] by simp
  have more: "spool_within C (?t(d := Suc n)) s"
    using s by (auto simp: spool_within_def box_ok_def split: if_splits)
  show "spool_within C ((\<lambda>_. MAX_TOMBSTONES_PER_BOX)(d := Suc n)) (case map_of (mb_mail (box_at d s)) i of None \<Rightarrow> s
     | Some (mtime, signed) \<Rightarrow> put_box d \<lparr>mb_mail = dict_del i (mb_mail (box_at d s)),
         mb_acked = (if mail_expiry signed = [] then mb_acked (box_at d s)
           else dict_put i (written i, mail_expiry signed) (mb_acked (box_at d s)))\<rparr> s)"
    using more put_box_within [OF s box_ok_fewer [OF b], of _ "Suc n"] b
    by (auto split: option.split simp: box_ok_def set_del length_put)
qed

lemma acks_within:
  "\<exists>m. meets (spool_within C ((\<lambda>_. MAX_TOMBSTONES_PER_BOX)(d := n))) (each (ack_mail d written) is) (\<lambda>_. spool_within C ((\<lambda>_. MAX_TOMBSTONES_PER_BOX)(d := m))) E"
proof (induction "is" arbitrary: n)
  case (Cons i "is")
  obtain m where "meets (spool_within C ((\<lambda>_. MAX_TOMBSTONES_PER_BOX)(d := Suc n))) (each (ack_mail d written) is) (\<lambda>_. spool_within C ((\<lambda>_. MAX_TOMBSTONES_PER_BOX)(d := m))) E"
    using Cons.IH by blast
  then show ?case unfolding each.simps by (intro exI [of _ m] meets_then [OF ack_within])
qed (auto intro: meets_ret)

lemma peer_id_field: "require_peer_id (py_str j) = Inr p \<Longrightarrow> str_or j = p"
proof -
  assume r: "require_peer_id (py_str j) = Inr p"
  have bad: "\<exists>e. require_peer_id ''None'' = Inl e" "\<exists>e. require_peer_id ''False'' = Inl e" "\<exists>e. require_peer_id (show_int 0) = Inl e"
    "\<exists>e. require_peer_id (enc (JArr [])) = Inl e" "\<exists>e. require_peer_id (enc (JObj [])) = Inl e" "\<exists>e. require_peer_id [] = Inl e"
    by (simp_all add: require_peer_id_def b64_val_def show_int_def show_nat.simps of_char_of)
  have "truthy j"
  proof (rule ccontr)
    assume "\<not> truthy j"
    then show False using r bad by (cases j) (auto simp: truthy_def)
  qed
  with checked_same(3) [OF r] show ?thesis by (simp add: str_or_def)
qed

lemma verified_sender:
  "verify_mailbox_envelope C signed t = Inr e \<Longrightarrow> str_or (jfield ''from_peer_id'' (sp_payload signed)) = me_from_peer_id e"
proof -
  assume v: "verify_mailbox_envelope C signed t = Inr e"
  from verified_same [OF this] have "envelope_from (sp_payload signed) = Inr e" "require_peer_id (me_from_peer_id e) = Inr (me_from_peer_id e)"
    by blast+
  then have "me_from_peer_id e = py_str (jfield ''from_peer_id'' (sp_payload signed))" "require_peer_id (me_from_peer_id e) = Inr (me_from_peer_id e)"
    by (auto simp: envelope_from_def guard_simps)
  with peer_id_field show ?thesis by metis
qed

lemma add_mail_ok:
  assumes b: "box_ok C n m k d b" and v: "verify_mailbox_envelope C signed t = Inr e" "recipient_dir C (me_to_peer_id e) = d"
    and new: "\<not> known_id (me_message_id e) b" and room: "pending_counts (me_from_peer_id e) b = (pending, sent)" "\<not> m \<le> pending" "\<not> k \<le> sent"
  shows "box_ok C n m k d (b\<lparr>mb_mail := dict_put (me_message_id e) (w, signed) (mb_mail b)\<rparr>)"
proof -
  have "map_of (mb_mail b) (me_message_id e) = None" using new by (cases "map_of (mb_mail b) (me_message_id e)") (auto simp: known_id_def)
  then have put: "dict_put (me_message_id e) (w, signed) (mb_mail b) = mb_mail b @ [(me_message_id e, w, signed)]" "dict_ok (mb_mail b @ [(me_message_id e, w, signed)])"
    using b dict_ok_put [of "mb_mail b" "me_message_id e" "(w, signed)"] by (simp_all add: put_fresh box_ok_def)
  have "snd (pending_counts p (b\<lparr>mb_mail := mb_mail b @ [(me_message_id e, w, signed)]\<rparr>)) \<le> k" for p
    using b room verified_sender [OF v(1)] by (auto simp: box_ok_def pending_counts_def)
  moreover have "fst (pending_counts [] (b\<lparr>mb_mail := mb_mail b @ [(me_message_id e, w, signed)]\<rparr>)) \<le> m"
    using room by (simp add: pending_counts_def)
  moreover have "\<forall>f \<in> set (mb_mail b @ [(me_message_id e, w, signed)]). case f of (i, _, signed) \<Rightarrow>
      \<exists>t e. verify_mailbox_envelope C signed t = Inr e \<and> me_message_id e = i \<and> recipient_dir C (me_to_peer_id e) = d"
    using b v unfolding box_ok_def by auto
  ultimately show ?thesis using b put unfolding box_ok_def by simp
qed

lemma keeps_pre: "keeps P m \<Longrightarrow> meets (\<lambda>s. P s \<and> Q s) m (\<lambda>_. P) (\<lambda>_. P)"
  by (erule meets_weaken) auto

lemma deposit_ok: "keeps (spool_ok C) (deposit C env signed)"
  unfolding deposit_def Let_def case_prod_beta
proof (intro meets_lift_then meets_then [OF take_token_ok] meets_then [OF keeps_pre [OF sweep_dir_ok]] meets_reads_then meets_check meets_ret
    meets_modify_then [where R = "spool_ok C"])
  fix e known x s
  assume v: "verify_mailbox_envelope C signed (at_verify env) = Inr e"
    and x: "\<not> known" "\<not> fst (snd x) \<le> fst (fst x)" "\<not> snd (snd x) \<le> snd (fst x)"
    and s: "(spool_ok C s \<and> known_id (me_message_id e) (box_at (recipient_dir C (me_to_peer_id e)) s) = known)
      \<and> (pending_counts (me_from_peer_id e) (box_at (recipient_dir C (me_to_peer_id e)) s), sp_max_pending s, sp_max_sender s) = x"
  then show "spool_ok C (put_box (recipient_dir C (me_to_peer_id e))
      (box_at (recipient_dir C (me_to_peer_id e)) s
       \<lparr>mb_mail := dict_put (me_message_id e) (written_at env (me_message_id e), signed) (mb_mail (box_at (recipient_dir C (me_to_peer_id e)) s))\<rparr>) s)"
    by (intro put_box_ok add_mail_ok [OF box_at_ok v refl, where pending = "fst (fst x)" and sent = "snd (fst x)"]) auto
qed auto

lemma poll_ok: "keeps (spool_ok C) (poll C env signed)"
  unfolding poll_def Let_def
proof (intro meets_lift_then meets_then [OF remember_ok])
  fix payload limit
  let ?d = "recipient_dir C (py_str (jfield ''peer_id'' payload))"
  obtain m where m: "meets (spool_within C ((\<lambda>_. MAX_TOMBSTONES_PER_BOX)(?d := MAX_TOMBSTONES_PER_BOX))) (each (ack_mail ?d (written_at env)) (poll_acks payload))
      (\<lambda>_. spool_within C ((\<lambda>_. MAX_TOMBSTONES_PER_BOX)(?d := m))) (\<lambda>_. spool_ok C)"
    using acks_within by blast
  have e: "(\<lambda>_. MAX_TOMBSTONES_PER_BOX)(?d := MAX_TOMBSTONES_PER_BOX) = (\<lambda>_. MAX_TOMBSTONES_PER_BOX)" by auto
  show "keeps (spool_ok C) (then_do (each (ack_mail ?d (written_at env)) (poll_acks payload)) (\<lambda>_. then_do (sweep_dir ?d (at_sweep env)) (\<lambda>_.
      then_do (reads (\<lambda>s. by_age (mb_mail (box_at ?d s))))
        (\<lambda>candidates. serve C ?d (py_str (jfield ''peer_id'' payload)) (at_serve env) limit candidates MAX_POLL_RESPONSE_BYTES []))))"
    by (intro meets_then [OF m [unfolded e]] meets_then [OF sweep_dir_within] meets_reads_then meets_weaken [OF serve_ok]) auto
qed auto

lemma sweep_ok: "keeps (spool_ok C) (sweep now)"
proof -
  have "keeps (spool_ok C) (then_do (sweep_dir d (now d)) (\<lambda>n. then_do (prune_empty d) (\<lambda>_. ret n)))" for d
    by (intro meets_then [OF sweep_dir_ok] meets_then [OF prune_ok] meets_ret)
  then show ?thesis unfolding sweep_def by (intro meets_reads_then keeps_pre meets_count)
qed

lemma spool_step_ok: "spool_ok C s \<Longrightarrow> spool_ok C (spool_step C s c)"
  by (cases c) (auto intro: keeps_snd [OF deposit_ok] keeps_snd [OF poll_ok] keeps_snd [OF sweep_ok])

interpretation spools: effectful "spool_step C" "spool_ok C" for C
  by unfold_locales (rule spool_step_ok)

lemma new_spool_ok: "spool_ok C (new_spool a b r)"
  by (simp add: spool_within_def new_spool_def)

end
