(* ===== verification/Spool_Guarantees.thy ===== *)
theory Spool_Guarantees
  imports Spool_Safety
begin

section \<open>Guarantees of the mail spool\<close>

text \<open>
  The bounds of the spool over any sequence of calls: the caps of every directory, and the rate of accepted deposits per sender.
\<close>

subsection \<open>The limits of a store never change\<close>

definition spool_limits :: "spool \<Rightarrow> int \<times> int \<times> int" where
  "spool_limits s = (sp_max_pending s, sp_max_sender s, sp_rate s)"

definition rest_but_boxes :: "spool \<Rightarrow> (int \<times> int \<times> int) \<times> (string, int \<times> int) dict \<times> (string \<times> string, int) dict" where
  "rest_but_boxes s = (spool_limits s, sp_buckets s, sp_nonces s)"

lemma put_box_rest [simp]: "rest_but_boxes (put_box d b s) = rest_but_boxes s" "spool_limits (put_box d b s) = spool_limits s"
  by (simp_all add: rest_but_boxes_def spool_limits_def put_box_def)

text \<open>The methods on directories touch nothing else.\<close>

lemma dir_rest:
  "keeps (\<lambda>s. rest_but_boxes s = x) (sweep_dir d now)" "keeps (\<lambda>s. rest_but_boxes s = x) (prune_empty d)"
  "keeps (\<lambda>s. rest_but_boxes s = x) (ack_mail d written i)" "keeps (\<lambda>s. rest_but_boxes s = x) (unlink_mail d i)"
  by (auto simp: meets_def sweep_dir_def prune_empty_def ack_mail_def unlink_mail_def then_do_def reads_def ret_def modify_def
      rest_but_boxes_def [of "sp_boxes_update _ _"] spool_limits_def split: option.splits)
    (simp_all add: rest_but_boxes_def spool_limits_def)

lemma each_keeps: "(\<And>x. keeps P (f x)) \<Longrightarrow> keeps P (each f xs)"
  by (induction xs) (auto intro!: meets_ret meets_then)

lemma serve_keeps: "(\<And>i. keeps P (unlink_mail d i)) \<Longrightarrow> keeps P (serve C d p now limit files budget sel)"
  by (induction C d p now limit files budget sel rule: serve.induct)
    (auto split: sum.split py_error.split intro!: meets_ret meets_fail meets_then [where R = "\<lambda>_. P"])

lemma sweep_rest: "keeps (\<lambda>s. rest_but_boxes s = x) (sweep now)"
proof -
  have "keeps (\<lambda>s. rest_but_boxes s = x) (then_do (sweep_dir d (now d)) (\<lambda>n. then_do (prune_empty d) (\<lambda>_. ret n)))" for d
    by (intro meets_then [OF dir_rest(1)] meets_then [OF dir_rest(2)] meets_ret)
  then show ?thesis unfolding sweep_def by (intro meets_reads_then keeps_pre meets_count)
qed

text \<open>What a poll does after it has remembered its nonce.\<close>

definition answer :: "crypto \<Rightarrow> readings \<Rightarrow> json \<Rightarrow> int \<Rightarrow> (spool, signed_payload list) act" where
  "answer C env payload limit = (let peer_id = py_str (jfield ''peer_id'' payload); d = recipient_dir C peer_id in
     then_do (each (ack_mail d (written_at env)) (poll_acks payload)) (\<lambda>_.
     then_do (sweep_dir d (at_sweep env)) (\<lambda>_.
     then_do (reads (\<lambda>s. by_age (mb_mail (box_at d s)))) (\<lambda>candidates.
     serve C d peer_id (at_serve env) limit candidates MAX_POLL_RESPONSE_BYTES []))))"

lemma poll_answers: "poll C env signed_poll = then_do (lift (verify_poll_request C signed_poll (at_verify env))) (\<lambda>payload.
    then_do (lift (py_int (jfield ''limit'' payload))) (\<lambda>limit.
    then_do (remember_nonce (at_charge env) (py_str (jfield ''peer_id'' payload)) (py_str (jfield ''nonce'' payload))) (\<lambda>_. answer C env payload limit)))"
  by (simp add: poll_def answer_def Let_def)

lemma answer_rest: "keeps (\<lambda>s. rest_but_boxes s = x) (answer C env payload limit)"
  unfolding answer_def Let_def
  by (intro meets_then [OF each_keeps [OF dir_rest(3)]] meets_then [OF dir_rest(1)] meets_reads_then meets_weaken [OF serve_keeps [OF dir_rest(4)]]) auto

lemma limits_of_rest: "rest_but_boxes s = rest_but_boxes t \<Longrightarrow> spool_limits s = spool_limits t"
  by (simp add: rest_but_boxes_def)

lemma step_limits: "spool_limits (spool_step C s c) = spool_limits s"
proof -
  have t: "keeps (\<lambda>s. spool_limits s = l) (take_token now p)" "keeps (\<lambda>s. spool_limits s = l) (remember_nonce now p n)" for l now p n
    by (auto simp: meets_def take_token_def remember_nonce_def then_do_def reads_def modify_def fail_def check_def spool_limits_def)
  have r: "keeps (\<lambda>s. spool_limits s = l) m" if "\<And>x. keeps (\<lambda>s. rest_but_boxes s = x) m" for l and m :: "(spool, 'x) act"
    using that unfolding keeps_iff by (metis limits_of_rest)
  have "keeps (\<lambda>s. spool_limits s = l) (deposit C env signed)" for l env signed
    unfolding deposit_def Let_def case_prod_beta
    by (intro meets_lift_then meets_then [OF t(1)] meets_then [OF keeps_pre [OF r [OF dir_rest(1)]]] meets_reads_then meets_check meets_ret
        meets_modify_then [where R = "\<lambda>s. spool_limits s = l"]) auto
  moreover have "keeps (\<lambda>s. spool_limits s = l) (poll C env signed)" for l env signed
    unfolding poll_answers by (intro meets_lift_then meets_then [OF t(2)] r [OF answer_rest]) auto
  moreover have "keeps (\<lambda>s. spool_limits s = l) (sweep now)" for l now by (rule r [OF sweep_rest])
  ultimately show ?thesis by (cases c) (simp_all add: keeps_iff)
qed

lemma run_limits: "spool_ok C s \<Longrightarrow> spool_limits (spools.run C s cs) = spool_limits s"
  using spools.run_rel [where R = "\<lambda>s t. spool_limits t = spool_limits s" and ok = "\<lambda>_. True"] step_limits by simp

text \<open>C35: the registry's spool is bounded and holds nothing unverified. Whatever calls it served, in whatever order, returning or
  raising: no recipient has more envelopes than the cap, none from one sender beyond the sender's cap, at most 2048 tombstones, the
  nonce cache at most 4096 entries, and every stored envelope was verified and lies, under its own id, in its recipient's directory.\<close>

theorem spool_bounded:
  assumes "s = spools.run C (new_spool per_recipient per_sender rate) cs" "(d, b) \<in> set (sp_boxes s)"
  shows "int (length (mb_mail b)) \<le> max 1 per_recipient \<and> snd (pending_counts p b) \<le> max 1 per_sender
    \<and> length (mb_acked b) \<le> 2048 \<and> length (sp_nonces s) \<le> 4096
    \<and> (\<forall>(i, _, signed) \<in> set (mb_mail b). \<exists>t e. verify_mailbox_envelope C signed t = Inr e
        \<and> me_message_id e = i \<and> recipient_dir C (me_to_peer_id e) = d)"
proof -
  have s: "spool_ok C s" unfolding assms(1) by (rule spools.run_keeps [OF new_spool_ok])
  moreover have "spool_limits s = spool_limits (new_spool per_recipient per_sender rate)"
    unfolding assms(1) by (rule run_limits [OF new_spool_ok])
  ultimately have "box_ok C MAX_TOMBSTONES_PER_BOX (max 1 per_recipient) (max 1 per_sender) d b" "length (sp_nonces s) \<le> 4096"
    using assms(2) by (auto simp: spool_within_def spool_limits_def new_spool_def MAX_REPLAY_ENTRIES_def)
  then show ?thesis unfolding box_ok_def by (auto simp: MAX_TOMBSTONES_PER_BOX_def pending_counts_def)
qed

subsection \<open>The token bucket\<close>

definition store_mail :: "crypto \<Rightarrow> readings \<Rightarrow> signed_payload \<Rightarrow> mail_envelope \<Rightarrow> (spool, json) act" where
  "store_mail C env signed e = (let d = recipient_dir C (me_to_peer_id e); i = me_message_id e in
     then_do (reads (\<lambda>s. known_id i (box_at d s))) (\<lambda>known. check (\<not> known) (Raised ''duplicate'') (
     then_do (sweep_dir d (at_sweep env)) (\<lambda>_.
     then_do (reads (\<lambda>s. known_id i (box_at d s))) (\<lambda>known. check (\<not> known) (Raised ''duplicate'') (
     then_do (reads (\<lambda>s. (pending_counts (me_from_peer_id e) (box_at d s), sp_max_pending s, sp_max_sender s))) (\<lambda>((pending, from_sender), max_pending, max_sender).
     check (\<not> max_pending \<le> pending) (Raised ''recipient_full'') (
     check (\<not> max_sender \<le> from_sender) (Raised ''sender_quota'') (
     then_do (modify (\<lambda>s. put_box d ((box_at d s)\<lparr>mb_mail := dict_put i (written_at env i, signed) (mb_mail (box_at d s))\<rparr>) s)) (\<lambda>_.
     ret (JObj [(''message_id'', JStr i), (''expires_at'', JStr (me_expires_at e)), (''pending'', JInt (pending + 1))])))))))))))"

lemma deposit_stores: "deposit C env signed = then_do (lift (verify_mailbox_envelope C signed (at_verify env))) (\<lambda>e.
    then_do (take_token (at_charge env) (me_from_peer_id e)) (\<lambda>_. store_mail C env signed e))"
  by (simp add: deposit_def store_mail_def Let_def)

lemma store_rest: "keeps (\<lambda>s. rest_but_boxes s = x) (store_mail C env signed e)"
  unfolding store_mail_def Let_def case_prod_beta
  by (intro meets_then [OF keeps_pre [OF dir_rest(1)]] meets_reads_then meets_check meets_ret
      meets_modify_then [where R = "\<lambda>s. rest_but_boxes s = x"]) auto

text \<open>What the bucket of \<open>p\<close> would hold at \<open>t\<close>.\<close>

definition level :: "spool \<Rightarrow> string \<Rightarrow> int \<Rightarrow> int" where
  "level s p t = refilled (sp_rate s) t (map_of (sp_buckets s) p)"

lemma level_rest: "rest_but_boxes s' = rest_but_boxes s \<Longrightarrow> level s' p t = level s p t"
  by (simp add: rest_but_boxes_def level_def spool_limits_def)

lemma level_later: "t \<le> t' \<Longrightarrow> 0 \<le> sp_rate s \<Longrightarrow> level s p t' \<le> level s p t + (t' - t) * sp_rate s"
proof -
  assume h: "t \<le> t'" "0 \<le> sp_rate s"
  have "max 0 (t' - u) * sp_rate s \<le> max 0 (t - u) * sp_rate s + (t' - t) * sp_rate s" for u
    using mult_right_mono [OF _ h(2), of "max 0 (t' - u)" "max 0 (t - u) + (t' - t)"] h(1) by (simp add: distrib_right)
  moreover have "0 \<le> (t' - t) * sp_rate s" using h by simp
  ultimately show ?thesis by (auto simp: level_def refilled_def split: option.split) (smt (verit))
qed

lemma level_top: "level s p t \<le> sp_rate s * TOKEN"
  by (simp add: level_def refilled_def split: option.split)

lemma take_token_level:
  assumes "take_token now p s = (r, s')"
  shows "sp_rate s' = sp_rate s \<and> level s' q now \<le> level s q now \<and> (r = Inr () \<longrightarrow> TOKEN \<le> level s p now \<and> level s' p now \<le> level s p now - TOKEN)"
proof -
  have now: "refilled rate now (Some (x, now)) = min (rate * TOKEN) x" for rate x by (simp add: refilled_def)
  have t: "refilled (sp_rate s) now (map_of (sp_buckets s) p) = level s p now" by (simp add: level_def)
  show ?thesis
  proof (cases "level s p now < TOKEN")
    case True
    then have "s' = s\<lparr>sp_buckets := dict_put p (level s p now, now) (sp_buckets s)\<rparr>" "r = Inl (Raised ''rate_limited'')"
      using assms by (auto simp: take_token_def then_do_def reads_def modify_def fail_def t)
    then show ?thesis by (simp add: level_def now)
  next
    case False
    then have "s' = s\<lparr>sp_buckets := dict_put p (level s p now - TOKEN, now) (sp_buckets s)\<rparr>"
      using assms by (auto simp: take_token_def then_do_def reads_def modify_def fail_def t)
    then show ?thesis using False by (simp add: level_def now min.coboundedI2)
  qed
qed

lemma deposit_level:
  assumes "deposit C env signed s = (r, s')"
  shows "sp_rate s' = sp_rate s \<and> level s' p (at_charge env) \<le> level s p (at_charge env)
    \<and> (\<forall>x. r = Inr x \<and> sp_public_key signed = p \<longrightarrow> TOKEN \<le> level s p (at_charge env) \<and> level s' p (at_charge env) \<le> level s p (at_charge env) - TOKEN)"
proof (cases "verify_mailbox_envelope C signed (at_verify env)")
  case (Inr e)
  obtain q u where t: "take_token (at_charge env) (me_from_peer_id e) s = (q, u)" by (cases "take_token (at_charge env) (me_from_peer_id e) s")
  have k: "me_from_peer_id e = sp_public_key signed" using verified_same [OF Inr] by blast
  show ?thesis
  proof (cases q)
    case (Inl x)
    then show ?thesis using assms t Inr take_token_level [OF t, of p] by (auto simp: deposit_stores then_do_def lift_def)
  next
    case q: (Inr x)
    then have "store_mail C env signed e u = (r, s')" using assms t Inr by (simp add: deposit_stores then_do_def lift_def)
    then have r: "rest_but_boxes s' = rest_but_boxes u" using keeps_snd [OF store_rest refl, of C env signed e u] by simp
    then have "sp_rate s' = sp_rate u" by (simp add: rest_but_boxes_def spool_limits_def)
    moreover have "level s' x now = level u x now" for x now by (rule level_rest [OF r])
    ultimately show ?thesis using take_token_level [OF t [unfolded q], of p] k by auto
  qed
qed (use assms in \<open>auto simp: deposit_stores then_do_def lift_def\<close>)

fun accepted_from :: "crypto \<Rightarrow> string \<Rightarrow> spool \<Rightarrow> spool_call list \<Rightarrow> int" where
  "accepted_from C p s [] = 0"
| "accepted_from C p s (c # cs) = (case c of
     Deposit env signed \<Rightarrow> (if sp_public_key signed = p \<and> (\<exists>x. fst (deposit C env signed s) = Inr x) then 1 else 0)
   | _ \<Rightarrow> 0) + accepted_from C p (spool_step C s c) cs"

fun charged_in_order :: "int \<Rightarrow> spool_call list \<Rightarrow> int \<Rightarrow> bool" where
  "charged_in_order t [] t' \<longleftrightarrow> t \<le> t'"
| "charged_in_order t (Deposit env signed # cs) t' \<longleftrightarrow> t \<le> at_charge env \<and> charged_in_order (at_charge env) cs t'"
| "charged_in_order t (Poll env signed # cs) t' \<longleftrightarrow> charged_in_order t cs t'"
| "charged_in_order t (Sweep now # cs) t' \<longleftrightarrow> charged_in_order t cs t'"

lemma charged_le: "charged_in_order t cs t' \<Longrightarrow> t \<le> t'"
  by (induction t cs t' rule: charged_in_order.induct) auto

lemma accepted_nonneg: "0 \<le> accepted_from C p s cs"
  by (induction cs arbitrary: s) (auto split: spool_call.split)

lemma poll_level: "spool_step C s (Poll env signed) = s' \<Longrightarrow> sp_rate s' = sp_rate s \<and> level s' p t = level s p t"
proof -
  have r: "keeps (\<lambda>s. (sp_rate s, sp_buckets s) = x) (remember_nonce now q n)" for x now q n
    by (auto simp: meets_def remember_nonce_def then_do_def reads_def modify_def fail_def check_def)
  have a: "keeps (\<lambda>s. (sp_rate s, sp_buckets s) = x) (answer C env payload limit)" for x payload limit
    unfolding keeps_iff
  proof (intro allI impI)
    fix s :: spool
    have "rest_but_boxes (snd (answer C env payload limit s)) = rest_but_boxes s" by (rule keeps_snd [OF answer_rest refl])
    then show "(sp_rate s, sp_buckets s) = x \<Longrightarrow> (sp_rate (snd (answer C env payload limit s)), sp_buckets (snd (answer C env payload limit s))) = x"
      by (simp add: rest_but_boxes_def spool_limits_def)
  qed
  have "keeps (\<lambda>s. (sp_rate s, sp_buckets s) = x) (poll C env signed)" for x
    unfolding poll_answers by (intro meets_lift_then meets_then [OF r] a) auto
  then show "spool_step C s (Poll env signed) = s' \<Longrightarrow> ?thesis"
    unfolding keeps_iff by (auto simp: level_def)
qed

lemma accepted_bound:
  "charged_in_order t cs t' \<Longrightarrow> 0 \<le> sp_rate s \<Longrightarrow> accepted_from C p s cs = 0 \<or> accepted_from C p s cs * TOKEN \<le> level s p t + (t' - t) * sp_rate s"
proof (induction t cs t' arbitrary: s rule: charged_in_order.induct)
  case (2 t env signed cs t')
  obtain r s' where d: "deposit C env signed s = (r, s')" by (cases "deposit C env signed s")
  note l = deposit_level [OF d, of p]
  let ?now = "at_charge env"
  have IH: "accepted_from C p s' cs = 0 \<or> accepted_from C p s' cs * TOKEN \<le> level s' p ?now + (t' - ?now) * sp_rate s"
    using "2.IH" [of s'] "2.prems" l by simp
  have now: "level s p ?now \<le> level s p t + (?now - t) * sp_rate s" using 2 by (intro level_later) auto
  have "(t' - t) * sp_rate s = (t' - ?now) * sp_rate s + (?now - t) * sp_rate s" by (simp add: algebra_simps)
  moreover have "0 \<le> (t' - ?now) * sp_rate s" using "2.prems" charged_le [of ?now cs t'] by simp
  ultimately show ?case using IH now l accepted_nonneg [of C p s' cs] by (auto simp: d algebra_simps split: if_splits)
next
  case (3 t env signed cs t')
  then show ?case using poll_level [OF refl, of C s env signed p t] "3.IH" [of "spool_step C s (Poll env signed)"] by simp
next
  case (4 t now cs t')
  have r: "rest_but_boxes (snd (sweep now s)) = rest_but_boxes s" by (rule keeps_snd [OF sweep_rest refl])
  have "level (snd (sweep now s)) p t = level s p t" by (rule level_rest [OF r])
  moreover have "sp_rate (snd (sweep now s)) = sp_rate s" using r by (simp add: rest_but_boxes_def spool_limits_def)
  ultimately show ?case using "4.prems" "4.IH" [of "snd (sweep now s)"] by simp
qed simp

text \<open>C36: the rate limit holds. Over any run of calls in which the clock read for the token buckets does not go back, the
  deposits accepted from one sender between \<open>t\<close> and \<open>t'\<close> are at most one minute's allowance plus the allowance of the time
  that passed, whatever the sender sends and whatever else the store is asked.\<close>

theorem deposit_rate:
  assumes "1 \<le> sp_rate s" "charged_in_order t cs t'"
  shows "accepted_from C p s cs * 60000000 \<le> sp_rate s * (60000000 + (t' - t))"
proof -
  have "0 \<le> sp_rate s * (60000000 + (t' - t))" using assms charged_le by (intro mult_nonneg_nonneg) fastforce+
  moreover have "level s p t + (t' - t) * sp_rate s \<le> sp_rate s * (60000000 + (t' - t))"
    using level_top [of s p t] by (simp add: algebra_simps)
  ultimately show ?thesis using accepted_bound [OF assms(2), of s C p] assms(1) by linarith
qed

end
