(* ===== verification/Spool_Delivery.thy ===== *)
theory Spool_Delivery
  imports Spool_Guarantees
begin

section \<open>Polls are answered once, mail is accepted once and served oldest first\<close>

text \<open>
  What a recipient can rely on: an answered poll is not answered again, an accepted message id is not accepted again, and polls return the
  oldest mail first.
\<close>

subsection \<open>Nonces\<close>

lemma poll_payload: "verify_poll_request C signed t = Inr payload \<Longrightarrow> payload = sp_payload signed
    \<and> (\<exists>limit. jfield ''limit'' payload = JInt limit \<and> 1 \<le> limit \<and> limit \<le> MAX_POLL_LIMIT) \<and> length (poll_acks payload) \<le> MAX_ACK_IDS"
  by (auto simp: verify_poll_request_def poll_acks_def guard_simps Let_def jlist_def is_list_def split: json.splits option.splits)

lemma poll_verified_later:
  "verify_poll_request C signed t = Inr payload \<Longrightarrow>
     verify_poll_request C signed t' = Inr payload \<or> verify_poll_request C signed t' = Inl (Raised ''poll_skew'')"
  by (auto simp: verify_poll_request_def guard_simps Let_def split: json.splits)

lemma map_of_kept: "dict_ok d \<Longrightarrow> map_of d k = Some v \<Longrightarrow> P (k, v) \<Longrightarrow> map_of (filter P d) k = Some v"
  by (intro dict_ok_map_of) (auto dest: map_of_SomeD)

lemma map_of_filter_None: "map_of d k = None \<Longrightarrow> map_of (filter P d) k = None"
  by (auto simp: map_of_eq_None_iff)

lemma remember_keeps_entry:
  assumes "spool_ok C s" "map_of (sp_nonces s) k = Some x" "now < x" "length (sp_nonces s) < MAX_REPLAY_ENTRIES"
  shows "map_of (sp_nonces (snd (remember_nonce now p n s))) k = Some x
    \<and> length (sp_nonces (snd (remember_nonce now p n s))) \<le> Suc (length (sp_nonces s))"
proof -
  define live where "live = filter (\<lambda>e. now < snd e) (sp_nonces s)"
  have n: "length live \<le> length (sp_nonces s)" by (simp add: live_def)
  then have l: "length live \<le> Suc (length (sp_nonces s))" "shed live = live" using assms(4) by (simp_all add: shed_def)
  have m: "map_of live k = Some x" unfolding live_def using assms(1-3) by (intro map_of_kept) (simp_all add: spool_within_def)
  show ?thesis
    unfolding remember_nonce_def not_le
    using l m n by (auto simp: then_do_def modify_def reads_def check_def fail_def length_put live_def [symmetric])
qed

lemma remembered: "remember_nonce now p n s = (Inr u, s') \<Longrightarrow> map_of (sp_nonces s') (p, n) = Some (now + 2 * POLL_SKEW_S * SECOND)"
  by (auto simp: remember_nonce_def then_do_def modify_def reads_def check_def fail_def split: if_splits)

lemma remember_replayed: "spool_ok C s \<Longrightarrow> map_of (sp_nonces s) (p, n) = Some x \<Longrightarrow> now < x \<Longrightarrow> fst (remember_nonce now p n s) = Inl (Raised ''replay'')"
  using map_of_kept [of "sp_nonces s" "(p, n)" x "\<lambda>e. \<not> snd e \<le> now"]
  by (auto simp: remember_nonce_def then_do_def modify_def reads_def check_def fail_def spool_within_def)

lemma rest_nonces: "rest_but_boxes s' = rest_but_boxes s \<Longrightarrow> sp_nonces s' = sp_nonces s"
  by (simp add: rest_but_boxes_def)

lemma answer_nonces: "sp_nonces (snd (answer C env payload limit s)) = sp_nonces s"
  by (rule rest_nonces [OF keeps_snd [OF answer_rest refl]])

lemma deposit_nonces: "sp_nonces (snd (deposit C env signed s)) = sp_nonces s"
proof -
  have t: "keeps (\<lambda>s. sp_nonces s = x) (take_token now p)" for x now p
    by (auto simp: meets_def take_token_def then_do_def reads_def modify_def fail_def)
  have "keeps (\<lambda>s. sp_nonces s = x) (store_mail C env signed e)" for x e
    unfolding keeps_iff using rest_nonces [OF keeps_snd [OF store_rest refl]] by blast
  then have "keeps (\<lambda>s. sp_nonces s = x) (deposit C env signed)" for x
    unfolding deposit_stores by (intro meets_lift_then meets_then [OF t]) auto
  then show ?thesis unfolding keeps_iff by blast
qed

definition charged_before :: "int \<Rightarrow> spool_call \<Rightarrow> bool" where
  "charged_before x c \<longleftrightarrow> (case c of Poll env _ \<Rightarrow> at_charge env < x | _ \<Rightarrow> True)"

text \<open>How many nonces a call can add to the cache.\<close>

definition nonces_of :: "spool_call \<Rightarrow> nat" where
  "nonces_of c = (case c of Poll _ _ \<Rightarrow> 1 | _ \<Rightarrow> 0)"

lemma step_nonces:
  assumes "spool_ok C s" "map_of (sp_nonces s) k = Some x" "charged_before x c" "length (sp_nonces s) + nonces_of c \<le> MAX_REPLAY_ENTRIES"
  shows "map_of (sp_nonces (spool_step C s c)) k = Some x \<and> length (sp_nonces (spool_step C s c)) \<le> length (sp_nonces s) + nonces_of c"
proof (cases c)
  case (Deposit env signed)
  then show ?thesis using assms(2) by (simp add: deposit_nonces nonces_of_def)
next
  case (Sweep now)
  have "sp_nonces (snd (sweep now s)) = sp_nonces s" by (rule rest_nonces [OF keeps_snd [OF sweep_rest refl]])
  then show ?thesis using Sweep assms(2) by (simp add: nonces_of_def)
next
  case (Poll env signed)
  then have x: "at_charge env < x" "length (sp_nonces s) < MAX_REPLAY_ENTRIES" using assms(3,4) by (simp_all add: charged_before_def nonces_of_def)
  show ?thesis
  proof (cases "verify_poll_request C signed (at_verify env)")
    case (Inr payload)
    let ?r = "remember_nonce (at_charge env) (py_str (jfield ''peer_id'' payload)) (py_str (jfield ''nonce'' payload))"
    obtain limit where l: "py_int (jfield ''limit'' payload) = Inr limit" using poll_payload [OF Inr] by (auto simp: py_int_def)
    have "sp_nonces (snd (poll C env signed s)) = sp_nonces (snd (?r s))"
      using Inr l by (cases "?r s"; cases "fst (?r s)") (auto simp: poll_answers then_do_def lift_def answer_nonces)
    then show ?thesis using remember_keeps_entry [OF assms(1,2) x] Poll by (simp add: nonces_of_def)
  qed (use Poll assms(2) in \<open>simp add: poll_answers then_do_def lift_def\<close>)
qed

lemma run_nonces:
  "spool_ok C s \<Longrightarrow> map_of (sp_nonces s) k = Some x \<Longrightarrow> \<forall>c \<in> set cs. charged_before x c \<Longrightarrow> length (sp_nonces s) + sum_list (map nonces_of cs) \<le> MAX_REPLAY_ENTRIES
    \<Longrightarrow> map_of (sp_nonces (spools.run C s cs)) k = Some x"
proof (induction cs arbitrary: s)
  case (Cons c cs)
  from step_nonces [of C s k x c] Cons.prems have "map_of (sp_nonces (spool_step C s c)) k = Some x"
    "length (sp_nonces (spool_step C s c)) + sum_list (map nonces_of cs) \<le> MAX_REPLAY_ENTRIES" by auto
  with Cons show ?case using spool_step_ok by auto
qed simp

text \<open>C37: a poll is answered once while its nonce is in the cache. After an answered poll, in the ten minutes after it and whatever deposits and sweeps
  the store serves, as long as the cache has room for a nonce of every poll asked in between (4096 in all; beyond that the source evicts unexpired nonces, and a
  replay is possible again), the same signed poll gets no mail: it raises \<open>replay\<close>, or \<open>poll_skew\<close> when it is too old by then.\<close>

theorem poll_once:
  assumes "spool_ok C s" "poll C env signed s = (Inr mail, s')"
    and "\<forall>c \<in> set cs. charged_before (at_charge env + 600 * SECOND) c" "length (sp_nonces s') + sum_list (map nonces_of cs) \<le> MAX_REPLAY_ENTRIES"
    and "at_charge env' < at_charge env + 600 * SECOND"
  shows "fst (poll C env' signed (spools.run C s' cs)) \<in> {Inl (Raised ''replay''), Inl (Raised ''poll_skew'')}"
proof -
  obtain payload where v: "verify_poll_request C signed (at_verify env) = Inr payload"
    using assms(2) by (cases "verify_poll_request C signed (at_verify env)") (auto simp: poll_answers then_do_def lift_def)
  obtain limit where l: "py_int (jfield ''limit'' payload) = Inr limit" using poll_payload [OF v] by (auto simp: py_int_def)
  let ?p = "py_str (jfield ''peer_id'' payload)" and ?n = "py_str (jfield ''nonce'' payload)"
  obtain u w where w: "remember_nonce (at_charge env) ?p ?n s = (Inr u, w)" "answer C env payload limit w = (Inr mail, s')"
    using assms(2) v l by (auto simp: poll_answers act_simps)
  have "sp_nonces s' = sp_nonces w" using answer_nonces [of C env payload limit w] w(2) by simp
  then have "map_of (sp_nonces s') (?p, ?n) = Some (at_charge env + 600 * SECOND)" using remembered [OF w(1)] by (simp add: POLL_SKEW_S_def)
  moreover have s': "spool_ok C s'" using keeps_snd [OF poll_ok assms(1), of env signed] assms(2) by simp
  ultimately have k: "map_of (sp_nonces (spools.run C s' cs)) (?p, ?n) = Some (at_charge env + 600 * SECOND)"
    using assms(3,4) by (intro run_nonces)
  have r: "fst (remember_nonce (at_charge env') ?p ?n (spools.run C s' cs)) = Inl (Raised ''replay'')"
    by (rule remember_replayed [OF spools.run_keeps [OF s'] k assms(5)])
  show ?thesis using poll_verified_later [OF v, of "at_verify env'"]
  proof
    assume "verify_poll_request C signed (at_verify env') = Inr payload"
    with l r show ?thesis
      by (cases "remember_nonce (at_charge env') ?p ?n (spools.run C s' cs)") (auto simp: poll_answers then_do_def lift_def)
  qed (simp add: poll_answers then_do_def lift_def)
qed

subsection \<open>An accepted message stays known until it expires\<close>

text \<open>Either the envelope is there under its id, or its tombstone is.\<close>

definition entry :: "signed_payload \<Rightarrow> string \<Rightarrow> mail_box \<Rightarrow> bool" where
  "entry signed i b \<longleftrightarrow> (\<exists>w. map_of (mb_mail b) i = Some (w, signed)) \<and> map_of (mb_acked b) i = None
     \<or> map_of (mb_mail b) i = None \<and> (\<exists>w. map_of (mb_acked b) i = Some (w, mail_expiry signed))"

lemma entry_known: "entry signed i b \<Longrightarrow> known_id i b"
  by (auto simp: entry_def known_id_def)

lemma unknown: "\<not> known_id i b \<longleftrightarrow> map_of (mb_mail b) i = None \<and> map_of (mb_acked b) i = None"
  by (cases "map_of (mb_mail b) i"; cases "map_of (mb_acked b) i") (simp_all add: known_id_def)

lemma no_time: "from_iso (z_to_utc ''None'') = None" "from_iso (z_to_utc ''False'') = None" "from_iso (z_to_utc (show_int 0)) = None"
  "from_iso (z_to_utc (enc (JArr []))) = None" "from_iso (z_to_utc (enc (JObj []))) = None" "from_iso (z_to_utc []) = None"
  by code_simp+

lemma time_truthy: "mailbox_time (JStr (py_str j)) = Inr x \<Longrightarrow> truthy j"
proof (rule ccontr)
  assume "\<not> truthy j"
  then have "from_iso (z_to_utc (py_str j)) = None" using no_time by (cases j) (auto simp: truthy_def)
  then show "mailbox_time (JStr (py_str j)) = Inr x \<Longrightarrow> False" by (simp add: mailbox_time_def parse_time_def utc_of_def)
qed

lemma verified_expiry:
  assumes "verify_mailbox_envelope C signed t = Inr e" "mailbox_time (JStr (me_expires_at e)) = Inr x"
  shows "is_past (mail_expiry signed) now \<longleftrightarrow> x \<le> now"
proof -
  have "envelope_from (sp_payload signed) = Inr e" using verified_same [OF assms(1)] by blast
  then have e: "me_expires_at e = py_str (jfield ''expires_at'' (sp_payload signed))" by (auto simp: envelope_from_def guard_simps)
  with assms(2) have "truthy (jfield ''expires_at'' (sp_payload signed))" by (simp add: time_truthy)
  with e have m: "mail_expiry signed = me_expires_at e" by (simp add: mail_expiry_def str_or_def)
  have "me_expires_at e \<noteq> []" using assms(2) no_time(6) by (auto simp: mailbox_time_def parse_time_def utc_of_def)
  with m assms(2) show ?thesis
    by (auto simp: is_past_def mailbox_time_def parse_time_def utc_of_def guard_simps split: option.splits sum.splits py_error.splits)
qed

lemma verified_later:
  assumes v: "verify_mailbox_envelope C signed t = Inr e" and t: "t \<le> t'" "\<not> is_past (mail_expiry signed) t'"
  shows "verify_mailbox_envelope C signed t' = Inr e \<or> verify_mailbox_envelope C signed t' = Inl OverflowError"
proof -
  obtain created expires where f: "mailbox_time (JStr (me_created_at e)) = Inr created" "mailbox_time (JStr (me_expires_at e)) = Inr expires"
    "created \<le> t + POLL_SKEW_S * SECOND" "0 < expires - created" "expires - created \<le> MAX_TTL_S * SECOND" using verified_same [OF v] by blast
  have "\<not> expires \<le> t'" using verified_expiry [OF v f(2), of t'] t by simp
  with f t verified_same [OF v] show ?thesis
    by (cases "instant (t' + POLL_SKEW_S * SECOND)") (auto simp: verify_mailbox_envelope_def)
qed

lemma entry_swept:
  assumes "dict_ok (mb_mail b)" "dict_ok (mb_acked b)" "length (mb_acked b) \<le> MAX_TOMBSTONES_PER_BOX" "\<not> is_past (mail_expiry signed) now"
    "entry signed i b"
  shows "entry signed i (swept now b)"
proof -
  have "length (filter P (mb_acked b)) \<le> MAX_TOMBSTONES_PER_BOX" for P using assms(3) by (rule order_trans [OF length_filter_le])
  then show ?thesis using assms(1,2,4,5) by (auto simp: entry_def swept_def bound_acked_def map_of_filter_None intro!: map_of_kept)
qed

lemma swept_acked: "length (mb_acked (swept now b)) \<le> length (mb_acked b)"
proof -
  define f where "f = filter (\<lambda>f. \<not> is_past (snd (snd f)) now) (mb_acked b)"
  have "length f \<le> length (mb_acked b)" by (simp add: f_def)
  then show ?thesis by (auto simp: swept_def bound_acked_def f_def [symmetric])
qed

text \<open>The directory \<open>d\<close> knows the message, and has at most \<open>n\<close> tombstones.\<close>

definition keeps_mail :: "string \<Rightarrow> signed_payload \<Rightarrow> string \<Rightarrow> nat \<Rightarrow> spool \<Rightarrow> bool" where
  "keeps_mail d signed i n s \<longleftrightarrow> entry signed i (box_at d s) \<and> length (mb_acked (box_at d s)) \<le> n"

lemma box_at_put [simp]: "box_at d (put_box d' b s) = (if d = d' then b else box_at d s)"
  by (simp add: box_at_def put_box_def)

lemma meets_conj: "meets P m Q E \<Longrightarrow> meets P' m Q' E' \<Longrightarrow> meets (\<lambda>s. P s \<and> P' s) m (\<lambda>x s. Q x s \<and> Q' x s) (\<lambda>e s. E e s \<and> E' e s)"
  by (fastforce simp: meets_def split: prod.splits sum.splits)

lemma sweep_dir_keeps_mail:
  assumes "\<not> is_past (mail_expiry signed) now"
  shows "meets (\<lambda>s. spool_within C tombs s \<and> keeps_mail d signed i n s \<and> n \<le> MAX_TOMBSTONES_PER_BOX) (sweep_dir d' now)
    (\<lambda>_. keeps_mail d signed i n) (\<lambda>_. keeps_mail d signed i n)"
  unfolding sweep_dir_def
proof (intro meets_steps meets_ret meets_modify_then [where R = "keeps_mail d signed i n"])
  fix x b s
  assume s: "(spool_within C tombs s \<and> keeps_mail d signed i n s \<and> n \<le> MAX_TOMBSTONES_PER_BOX) \<and> map_of (sp_boxes s) d' = x" "x = Some b"
  then have b: "box_ok C (tombs d') (sp_max_pending s) (sp_max_sender s) d' b" "box_at d' s = b"
    by (auto simp: map_of_boxes box_at_def)
  show "keeps_mail d signed i n (put_box d' (swept now b) s)"
    using s b entry_swept [OF _ _ _ assms, of b i] swept_acked [of now b] by (auto simp: keeps_mail_def box_ok_def)
qed auto

lemma prune_keeps_mail: "keeps (keeps_mail d signed i n) (prune_empty d')"
proof -
  have "box_files b = 0 \<Longrightarrow> mb_mail b = [] \<and> mb_acked b = []" for b by (simp add: box_files_def flip: of_nat_add)
  then show ?thesis
    unfolding prune_empty_def by (intro meets_modify) (auto simp: keeps_mail_def entry_def box_at_def empty_box_def split: option.splits)
qed

lemma ack_keeps_mail:
  assumes "mail_expiry signed \<noteq> []"
  shows "meets (keeps_mail d signed i n) (ack_mail d' written j) (\<lambda>_. keeps_mail d signed i (n + (if d' = d then 1 else 0))) E"
  unfolding ack_mail_def
  using assms by (intro meets_modify) (auto simp: keeps_mail_def entry_def length_put split: option.splits)

lemma acks_keep_mail:
  "mail_expiry signed \<noteq> [] \<Longrightarrow>
     meets (keeps_mail d signed i n) (each (ack_mail d' written) js) (\<lambda>_. keeps_mail d signed i (n + (if d' = d then length js else 0))) E"
proof (induction js arbitrary: n)
  case (Cons j js)
  have "n + (if d' = d then length (j # js) else 0) = n + (if d' = d then 1 else 0) + (if d' = d then length js else 0)" by simp
  then show ?case using meets_then [OF ack_keeps_mail [OF Cons.prems, of d i n d' written j] Cons.IH [OF Cons.prems, of "n + (if d' = d then 1 else 0)"]]
    by (simp only: each.simps)
qed (simp add: meets_ret)

lemma unlink_keeps_mail: "d' \<noteq> d \<or> j \<noteq> i \<Longrightarrow> keeps (keeps_mail d signed i n) (unlink_mail d' j)"
  unfolding unlink_mail_def by (rule meets_modify) (auto simp: keeps_mail_def entry_def)

lemma serve_keeps_mail:
  assumes "(\<exists>e. verify_mailbox_envelope C signed (now i) = Inr e) \<or> verify_mailbox_envelope C signed (now i) = Inl OverflowError"
  shows "\<forall>(j, w, m) \<in> set files. d' = d \<and> j = i \<longrightarrow> m = signed \<Longrightarrow> keeps (keeps_mail d signed i n) (serve C d' p now limit files budget sel)"
  using assms
proof (induction C d' p now limit files budget sel rule: serve.induct)
  case (2 C d' p now limit j w m files budget sel)
  have rest: "\<forall>(j, w, m) \<in> set files. d' = d \<and> j = i \<longrightarrow> m = signed" using "2.prems"(1) by auto
  show ?case
  proof (cases "verify_mailbox_envelope C m (now j)")
    case (Inl x)
    show ?thesis
    proof (cases "\<exists>y. x = Raised y")
      case True
      with Inl "2.prems" have "d' \<noteq> d \<or> j \<noteq> i" by auto
      with True Inl "2.IH"(1) [OF _ Inl _ rest "2.prems"(2)] show ?thesis
        by (auto intro!: meets_ret meets_then [OF unlink_keeps_mail])
    next
      case False
      with Inl show ?thesis by (cases x) (auto intro: meets_ret meets_fail)
    qed
  next
    case (Inr e)
    with "2.IH"(2,3) [OF _ Inr _ _ ] rest "2.prems"(2) show ?thesis by (auto intro!: meets_ret)
  qed
qed (simp add: meets_ret)

text \<open>The readings of the call lie from \<open>t\<close> on, and before the message expires.\<close>

definition while_valid :: "int \<Rightarrow> signed_payload \<Rightarrow> spool_call \<Rightarrow> bool" where
  "while_valid t signed c \<longleftrightarrow> (case c of
     Deposit env _ \<Rightarrow> \<not> is_past (mail_expiry signed) (at_sweep env)
   | Poll env _ \<Rightarrow> \<not> is_past (mail_expiry signed) (at_sweep env)
       \<and> t \<le> at_serve env (py_str (jfield ''message_id'' (sp_payload signed)))
       \<and> \<not> is_past (mail_expiry signed) (at_serve env (py_str (jfield ''message_id'' (sp_payload signed))))
   | Sweep now \<Rightarrow> \<forall>d. \<not> is_past (mail_expiry signed) (now d))"

lemma same_boxes: "box_at d (s\<lparr>sp_buckets := x\<rparr>) = box_at d s" "box_at d (s\<lparr>sp_nonces := y\<rparr>) = box_at d s"
  by (simp_all add: box_at_def)

lemma charge_keeps_mail: "keeps (keeps_mail d signed i n) (take_token now p)" "keeps (keeps_mail d signed i n) (remember_nonce now p q)"
  by (auto simp: meets_def take_token_def remember_nonce_def then_do_def reads_def modify_def fail_def check_def keeps_mail_def same_boxes)

lemma keeps_both: "keeps (\<lambda>s. P s \<and> Q s) m \<Longrightarrow> meets (\<lambda>s. (P s \<and> Q s) \<and> R s) m (\<lambda>_ s. P s \<and> Q s) (\<lambda>_. Q)"
  by (erule meets_weaken) auto

lemma charge_keeps_both: "meets (\<lambda>s. spool_ok C s \<and> keeps_mail d signed i n s) (take_token now p)
    (\<lambda>_ s. spool_ok C s \<and> keeps_mail d signed i n s) (\<lambda>_. keeps_mail d signed i n)"
  by (rule meets_weaken [OF meets_conj [OF take_token_ok charge_keeps_mail(1)]]) auto

lemma sweep_dir_keeps:
  assumes "\<not> is_past (mail_expiry signed) now" "n \<le> MAX_TOMBSTONES_PER_BOX"
  shows "keeps (\<lambda>s. spool_ok C s \<and> keeps_mail d signed i n s) (sweep_dir d' now)"
  by (rule meets_weaken [OF meets_conj [OF sweep_dir_ok [of C d' now] sweep_dir_keeps_mail [OF assms(1), of C "\<lambda>_. MAX_TOMBSTONES_PER_BOX" d i n d']]])
    (use assms(2) in auto)

lemma deposit_keeps_mail:
  assumes "\<not> is_past (mail_expiry signed) (at_sweep env)" "n \<le> MAX_TOMBSTONES_PER_BOX"
  shows "meets (\<lambda>s. spool_ok C s \<and> keeps_mail d signed i n s) (deposit C env other) (\<lambda>_. keeps_mail d signed i n) (\<lambda>_. keeps_mail d signed i n)"
  unfolding deposit_def Let_def case_prod_beta
proof (intro meets_lift_then meets_then [OF charge_keeps_both]
    meets_then [OF keeps_both [OF sweep_dir_keeps [OF assms]]] meets_reads_then meets_check meets_ret
    meets_modify_then [where R = "keeps_mail d signed i n"])
  fix e known x s
  assume "\<not> known" and s: "((spool_ok C s \<and> keeps_mail d signed i n s) \<and> known_id (me_message_id e) (box_at (recipient_dir C (me_to_peer_id e)) s) = known)
      \<and> (pending_counts (me_from_peer_id e) (box_at (recipient_dir C (me_to_peer_id e)) s), sp_max_pending s, sp_max_sender s) = x"
  then show "keeps_mail d signed i n (put_box (recipient_dir C (me_to_peer_id e))
      (box_at (recipient_dir C (me_to_peer_id e)) s
       \<lparr>mb_mail := dict_put (me_message_id e) (written_at env (me_message_id e), other) (mb_mail (box_at (recipient_dir C (me_to_peer_id e)) s))\<rparr>) s)"
    using entry_known by (auto simp: keeps_mail_def entry_def)
qed auto

lemma serve_own_files:
  assumes "(\<exists>e. verify_mailbox_envelope C signed (now i) = Inr e) \<or> verify_mailbox_envelope C signed (now i) = Inl OverflowError"
  shows "meets (\<lambda>s. (spool_ok C s \<and> keeps_mail d signed i n s) \<and> by_age (mb_mail (box_at d' s)) = files)
    (serve C d' p now limit files budget sel) (\<lambda>_. keeps_mail d signed i n) (\<lambda>_. keeps_mail d signed i n)"
proof (cases "\<forall>(j, w, m) \<in> set files. d' = d \<and> j = i \<longrightarrow> m = signed")
  case True
  show ?thesis by (rule meets_weaken [OF serve_keeps_mail [where d = d and now = now and i = i and signed = signed, OF assms True]]) auto
next
  case False
  have "\<not> ((spool_ok C s \<and> keeps_mail d signed i n s) \<and> by_age (mb_mail (box_at d' s)) = files)" for s
  proof
    assume s: "(spool_ok C s \<and> keeps_mail d signed i n s) \<and> by_age (mb_mail (box_at d' s)) = files"
    then have "dict_ok (mb_mail (box_at d' s))" using box_at_ok [of C _ s d'] by (auto simp: box_ok_def)
    then have "\<forall>(j, w, m) \<in> set files. map_of (mb_mail (box_at d' s)) j = Some (w, m)" using s by (auto simp: dict_ok_map_of)
    with s False show False by (fastforce simp: keeps_mail_def entry_def)
  qed
  then show ?thesis unfolding meets_def by blast
qed

text \<open>How many tombstones a call can add to a directory: one for each id that a poll of its recipient acknowledges.\<close>

definition tombs_of :: "crypto \<Rightarrow> string \<Rightarrow> spool_call \<Rightarrow> nat" where
  "tombs_of C d c = (case c of Poll _ request \<Rightarrow> if recipient_dir C (py_str (jfield ''peer_id'' (sp_payload request))) = d
       then min MAX_ACK_IDS (length (poll_acks (sp_payload request))) else 0
     | _ \<Rightarrow> 0)"

lemma poll_keeps_mail:
  fixes env :: readings and request :: signed_payload and C :: crypto and d :: string
  defines "k \<equiv> tombs_of C d (Poll env request)"
  assumes x: "\<not> is_past (mail_expiry signed) (at_sweep env)" "mail_expiry signed \<noteq> []" and n: "n + k \<le> MAX_TOMBSTONES_PER_BOX"
    and v: "(\<exists>e. verify_mailbox_envelope C signed (at_serve env i) = Inr e) \<or> verify_mailbox_envelope C signed (at_serve env i) = Inl OverflowError"
  shows "meets (\<lambda>s. spool_ok C s \<and> keeps_mail d signed i n s) (poll C env request)
    (\<lambda>_. keeps_mail d signed i (n + k)) (\<lambda>_. keeps_mail d signed i (n + k))"
  unfolding poll_def Let_def
proof (rule meets_lift_then)
  let ?K = "\<lambda>_ :: py_error. keeps_mail d signed i (n + k)"
  have up: "keeps_mail d signed i n s \<Longrightarrow> keeps_mail d signed i (n + k) s" for s by (simp add: keeps_mail_def)
  fix payload assume "verify_poll_request C request (at_verify env) = Inr payload"
  then have payload: "payload = sp_payload request" "length (poll_acks payload) \<le> MAX_ACK_IDS" using poll_payload by blast+
  let ?p = "py_str (jfield ''peer_id'' payload)" let ?d = "recipient_dir C ?p"
  have k: "k = (if ?d = d then length (poll_acks payload) else 0)" using payload by (simp add: k_def tombs_of_def)
  have r: "meets (\<lambda>s. spool_ok C s \<and> keeps_mail d signed i n s) (remember_nonce (at_charge env) ?p (py_str (jfield ''nonce'' payload)))
      (\<lambda>_ s. spool_ok C s \<and> keeps_mail d signed i n s) ?K"
    by (rule meets_weaken [OF meets_conj [OF remember_ok charge_keeps_mail(2)]]) (auto dest: up)
  have e: "(\<lambda>_. MAX_TOMBSTONES_PER_BOX)(?d := MAX_TOMBSTONES_PER_BOX) = (\<lambda>_. MAX_TOMBSTONES_PER_BOX)" by auto
  obtain m where m: "meets (spool_ok C) (each (ack_mail ?d (written_at env)) (poll_acks payload))
      (\<lambda>_. spool_within C ((\<lambda>_. MAX_TOMBSTONES_PER_BOX)(?d := m))) ?K"
    using acks_within [of C ?d MAX_TOMBSTONES_PER_BOX "written_at env" "poll_acks payload" ?K] unfolding e by blast
  have a: "meets (\<lambda>s. spool_ok C s \<and> keeps_mail d signed i n s) (each (ack_mail ?d (written_at env)) (poll_acks payload))
      (\<lambda>_ s. spool_within C ((\<lambda>_. MAX_TOMBSTONES_PER_BOX)(?d := m)) s \<and> keeps_mail d signed i (n + k) s \<and> n + k \<le> MAX_TOMBSTONES_PER_BOX) ?K"
    by (rule meets_weaken [OF meets_conj [OF m acks_keep_mail [OF x(2)]]]) (use n in \<open>auto simp: k keeps_mail_def\<close>)
  have w: "meets (\<lambda>s. spool_within C ((\<lambda>_. MAX_TOMBSTONES_PER_BOX)(?d := m)) s \<and> keeps_mail d signed i (n + k) s \<and> n + k \<le> MAX_TOMBSTONES_PER_BOX)
      (sweep_dir ?d (at_sweep env)) (\<lambda>_ s. spool_ok C s \<and> keeps_mail d signed i (n + k) s) ?K"
    by (rule meets_weaken [OF meets_conj [OF sweep_dir_within sweep_dir_keeps_mail [OF x(1)]]]) auto
  show "meets (\<lambda>s. spool_ok C s \<and> keeps_mail d signed i n s) (then_do (lift (py_int (jfield ''limit'' payload))) (\<lambda>limit.
     then_do (remember_nonce (at_charge env) ?p (py_str (jfield ''nonce'' payload))) (\<lambda>_.
     then_do (each (ack_mail ?d (written_at env)) (poll_acks payload)) (\<lambda>_.
     then_do (sweep_dir ?d (at_sweep env)) (\<lambda>_.
     then_do (reads (\<lambda>s. by_age (mb_mail (box_at ?d s)))) (\<lambda>candidates.
     serve C ?d ?p (at_serve env) limit candidates MAX_POLL_RESPONSE_BYTES [])))))) (\<lambda>_. keeps_mail d signed i (n + k)) ?K"
    by (intro meets_lift_then meets_then [OF r] meets_then [OF a] meets_then [OF w] meets_reads_then serve_own_files v) (auto dest: up)
qed (simp add: keeps_mail_def)

lemma sweep_keeps_mail:
  assumes "\<forall>d. \<not> is_past (mail_expiry signed) (now d)" "n \<le> MAX_TOMBSTONES_PER_BOX"
  shows "keeps (\<lambda>s. spool_ok C s \<and> keeps_mail d signed i n s) (sweep now)"
proof -
  have "keeps (\<lambda>s. spool_ok C s \<and> keeps_mail d signed i n s) (then_do (sweep_dir d' (now d')) (\<lambda>n. then_do (prune_empty d') (\<lambda>_. ret n)))" for d'
    by (intro meets_then [OF sweep_dir_keeps] meets_then [OF meets_conj [OF prune_ok prune_keeps_mail]] meets_ret) (use assms in auto)
  then show ?thesis unfolding sweep_def by (intro meets_reads_then keeps_pre meets_count)
qed

lemma step_keeps_mail:
  assumes v: "verify_mailbox_envelope C signed t = Inr e" "me_message_id e = i"
    and s: "spool_ok C s" "keeps_mail d signed i n s" "while_valid t signed c" "n + tombs_of C d c \<le> MAX_TOMBSTONES_PER_BOX"
  shows "keeps_mail d signed i (n + tombs_of C d c) (spool_step C s c)"
proof (cases c)
  case (Deposit env other)
  with s have "keeps_mail d signed i n (spool_step C s c)"
    using deposit_keeps_mail [of signed env n C d i other]
    by (cases "deposit C env other s"; cases "fst (deposit C env other s)") (auto simp: while_valid_def meets_def)
  then show ?thesis by (simp add: keeps_mail_def)
next
  case (Sweep now)
  with s have "keeps_mail d signed i n (spool_step C s c)"
    using keeps_snd [OF sweep_keeps_mail, of signed now n C s d i] by (auto simp: while_valid_def)
  then show ?thesis by (simp add: keeps_mail_def)
next
  case (Poll env request)
  have "envelope_from (sp_payload signed) = Inr e" using verified_same [OF v(1)] by blast
  then have "i = py_str (jfield ''message_id'' (sp_payload signed))" using v(2) by (auto simp: envelope_from_def guard_simps)
  then have p: "\<not> is_past (mail_expiry signed) (at_sweep env)" "t \<le> at_serve env i" "\<not> is_past (mail_expiry signed) (at_serve env i)"
    using s(3) Poll by (simp_all add: while_valid_def)
  then have "mail_expiry signed \<noteq> []" by (auto simp: is_past_def)
  moreover have "(\<exists>e. verify_mailbox_envelope C signed (at_serve env i) = Inr e) \<or> verify_mailbox_envelope C signed (at_serve env i) = Inl OverflowError"
    using verified_later [OF v(1) p(2,3)] by blast
  ultimately show ?thesis
    using poll_keeps_mail [where C = C and d = d and env = env and request = request and n = n and i = i and signed = signed] p(1) s(1,2,4) Poll
    by (cases "poll C env request s"; cases "fst (poll C env request s)") (auto simp: meets_def)
qed

lemma run_keeps_mail:
  assumes "verify_mailbox_envelope C signed t = Inr e" "me_message_id e = i"
  shows "spool_ok C s \<Longrightarrow> keeps_mail d signed i n s \<Longrightarrow> \<forall>c \<in> set cs. while_valid t signed c \<Longrightarrow> n + sum_list (map (tombs_of C d) cs) \<le> MAX_TOMBSTONES_PER_BOX
    \<Longrightarrow> known_id i (box_at d (spools.run C s cs))"
proof (induction cs arbitrary: s n)
  case (Cons c cs)
  then have "keeps_mail d signed i (n + tombs_of C d c) (spool_step C s c)" by (intro step_keeps_mail [OF assms]) auto
  with Cons show ?case using spool_step_ok by (auto simp: add.assoc)
qed (auto simp: keeps_mail_def dest: entry_known)

lemma deposited:
  assumes "spool_ok C s" "deposit C env signed s = (Inr receipt, s')"
  shows "\<exists>e. verify_mailbox_envelope C signed (at_verify env) = Inr e
    \<and> keeps_mail (recipient_dir C (me_to_peer_id e)) signed (me_message_id e) (length (mb_acked (box_at (recipient_dir C (me_to_peer_id e)) s'))) s'"
proof -
  obtain e u where e: "verify_mailbox_envelope C signed (at_verify env) = Inr e" "store_mail C env signed e u = (Inr receipt, s')"
    using assms(2) by (auto simp: deposit_stores then_do_def lift_def split: sum.splits prod.splits)
  have "box_at (recipient_dir C (me_to_peer_id e)) s' = b
    \<Longrightarrow> map_of (mb_mail b) (me_message_id e) = Some (written_at env (me_message_id e), signed) \<and> map_of (mb_acked b) (me_message_id e) = None" for b
    using e(2) by (auto simp: store_mail_def Let_def act_simps unknown case_prod_beta)
  then show ?thesis using e(1) by (auto simp: keeps_mail_def entry_def)
qed

text \<open>C38: a message is accepted once while its tombstone is kept. After a deposit was accepted, another deposit of the same id for the same
  recipient is refused, polled and acknowledged or not, as long as the calls served since then read clocks from its time on and before it expires, and the
  directory has room for a tombstone of every id that its recipient acknowledges in between (2048 in all; beyond that the sweep deletes the oldest tombstones, and a
  replay is possible again). Deposits, sweeps and the polls of other recipients may be as many as they like.\<close>

theorem mail_accepted_once:
  assumes "spool_ok C s" "deposit C env signed s = (Inr receipt, s')" "verify_mailbox_envelope C signed (at_verify env) = Inr e"
    and "\<forall>c \<in> set cs. while_valid (at_verify env) signed c"
    and "length (mb_acked (box_at (recipient_dir C (me_to_peer_id e)) s')) + sum_list (map (tombs_of C (recipient_dir C (me_to_peer_id e))) cs) \<le> MAX_TOMBSTONES_PER_BOX"
    and "verify_mailbox_envelope C again (at_verify env') = Inr e'" "me_message_id e' = me_message_id e" "me_to_peer_id e' = me_to_peer_id e"
  shows "fst (deposit C env' again (spools.run C s' cs)) \<in> {Inl (Raised ''duplicate''), Inl (Raised ''rate_limited'')}"
proof -
  have s': "spool_ok C s'" using keeps_snd [OF deposit_ok assms(1), of env signed] assms(2) by simp
  have "known_id (me_message_id e) (box_at (recipient_dir C (me_to_peer_id e)) (spools.run C s' cs))"
    using deposited [OF assms(1,2)] assms(3-5) by (intro run_keeps_mail [OF assms(3) refl s']) auto
  with assms(6-8) show ?thesis
    by (auto simp: deposit_stores store_mail_def Let_def then_do_def lift_def take_token_def reads_def modify_def fail_def check_def same_boxes)
qed

subsection \<open>What a poll returns\<close>

text \<open>The mail that waits for \<open>p\<close>, oldest first, when a poll with these acks is served.\<close>

definition mail_for :: "crypto \<Rightarrow> (string \<Rightarrow> int) \<Rightarrow> string \<Rightarrow> string \<times> int \<times> signed_payload \<Rightarrow> bool" where
  "mail_for C now p f \<longleftrightarrow> (\<exists>e. verify_mailbox_envelope C (snd (snd f)) (now (fst f)) = Inr e \<and> me_to_peer_id e = p)"

definition waiting :: "crypto \<Rightarrow> readings \<Rightarrow> string \<Rightarrow> string list \<Rightarrow> mail_box \<Rightarrow> (string, int \<times> signed_payload) dict" where
  "waiting C env p acks b = filter (\<lambda>f. fst f \<notin> set acks \<and> \<not> is_past (mail_expiry (snd (snd f))) (at_sweep env) \<and> mail_for C (at_serve env) p f) (by_age (mb_mail b))"

definition bytes_of :: "(string, int \<times> signed_payload) dict \<Rightarrow> int" where
  "bytes_of fs = (\<Sum>f \<leftarrow> fs. envelope_size_bytes (snd (snd f)))"

text \<open>\<open>k\<close> files of \<open>fs\<close> are as many as fit.\<close>

definition as_many :: "int \<Rightarrow> int \<Rightarrow> (string, int \<times> signed_payload) dict \<Rightarrow> nat \<Rightarrow> bool" where
  "as_many limit budget fs k \<longleftrightarrow> int k \<le> limit \<and> (k = 0 \<or> bytes_of (take k fs) \<le> budget)
     \<and> (k < length fs \<longrightarrow> int k = limit \<or> budget < bytes_of (take (Suc k) fs))"

lemma as_many_Cons:
  "envelope_size_bytes (snd (snd f)) \<le> budget \<Longrightarrow> as_many (limit - 1) (budget - envelope_size_bytes (snd (snd f))) fs k
    \<Longrightarrow> as_many limit budget (f # fs) (Suc k)"
  by (auto simp: as_many_def bytes_of_def)

lemma serve_result:
  assumes "serve C d p now limit files budget sel s = (Inr r, s')" "int (length sel) \<le> limit" "sel = [] \<longrightarrow> MAX_ENVELOPE_BYTES \<le> budget"
  shows "\<exists>k. r = sel @ map (\<lambda>f. snd (snd f)) (take k (filter (mail_for C now p) files))
    \<and> as_many (limit - int (length sel)) budget (filter (mail_for C now p) files) k"
  using assms
proof (induction C d p now limit files budget sel arbitrary: s rule: serve.induct)
  case (1 C d p now limit budget sel)
  then show ?case by (intro exI [of _ 0]) (auto simp: ret_def as_many_def)
next
  case (2 C d p now limit i w m files budget sel)
  let ?good = "filter (mail_for C now p) files"
  consider (full) "limit \<le> int (length sel)" | (bad) y where "\<not> limit \<le> int (length sel)" "verify_mailbox_envelope C m (now i) = Inl (Raised y)"
    | (raise) y where "\<not> limit \<le> int (length sel)" "verify_mailbox_envelope C m (now i) = Inl y" "\<forall>z. y \<noteq> Raised z"
    | (other) e where "\<not> limit \<le> int (length sel)" "verify_mailbox_envelope C m (now i) = Inr e" "me_to_peer_id e \<noteq> p"
    | (big) e where "\<not> limit \<le> int (length sel)" "verify_mailbox_envelope C m (now i) = Inr e" "me_to_peer_id e = p" "sel \<noteq> []" "budget < envelope_size_bytes m"
    | (take) e where "\<not> limit \<le> int (length sel)" "verify_mailbox_envelope C m (now i) = Inr e" "me_to_peer_id e = p" "\<not> (sel \<noteq> [] \<and> budget < envelope_size_bytes m)"
    by (cases "verify_mailbox_envelope C m (now i)") (metis, metis)
  then show ?case
  proof cases
    case full
    with "2.prems" show ?thesis by (intro exI [of _ 0]) (auto simp: ret_def as_many_def)
  next
    case bad
    with "2.prems"(1) obtain u where "serve C d p now limit files budget sel u = (Inr r, s')"
      by (auto simp: then_do_def unlink_mail_def modify_def)
    from "2.IH"(1) [OF bad refl this "2.prems"(2,3)] bad show ?thesis by (auto simp: mail_for_def)
  next
    case raise
    with "2.prems"(1) show ?thesis by (cases y) (auto simp: fail_def)
  next
    case other
    then show ?thesis using "2.IH"(2) [OF other(1,2,3) _ "2.prems"(2,3)] "2.prems"(1) by (auto simp: mail_for_def)
  next
    case big
    with "2.prems" show ?thesis by (intro exI [of _ 0]) (auto simp: ret_def as_many_def mail_for_def bytes_of_def)
  next
    case take
    have "envelope_size_bytes m \<le> budget" using take(4) "2.prems"(3) verified_same [OF take(2)] by auto
    from "2.IH"(3) [OF take(1,2) _ take(4), of s] "2.prems"(1) take
    obtain k where "r = (sel @ [m]) @ map (\<lambda>f. snd (snd f)) (List.take k ?good)"
      "as_many (limit - int (length (sel @ [m]))) (budget - envelope_size_bytes m) ?good k" by auto
    moreover have "mail_for C now p (i, w, m)" using take by (simp add: mail_for_def)
    ultimately show ?thesis
      using as_many_Cons [of "(i, w, m)" budget "limit - int (length sel)" ?good k] \<open>envelope_size_bytes m \<le> budget\<close>
      by (intro exI [of _ "Suc k"]) (simp add: diff_diff_eq add.commute)
  qed
qed

lemma del_filter: "dict_del j d = filter (\<lambda>f. fst f \<noteq> j) d"
  by (auto simp: AList.delete_eq intro!: filter_cong)

lemma acked_mails: "each (ack_mail d written) js s = (r, s') \<Longrightarrow> mb_mail (box_at d s') = filter (\<lambda>f. fst f \<notin> set js) (mb_mail (box_at d s))"
proof (induction js arbitrary: s)
  case (Cons j js)
  obtain u where u: "ack_mail d written j s = (Inr (), u)" by (simp add: ack_mail_def modify_def)
  have "map_of xs j = None \<Longrightarrow> filter (\<lambda>f. fst f \<noteq> j) xs = xs" for xs :: "(string \<times> int \<times> signed_payload) list"
    by (induction xs) auto
  then have "mb_mail (box_at d u) = filter (\<lambda>f. fst f \<noteq> j) (mb_mail (box_at d s))"
    using u by (auto simp: ack_mail_def modify_def del_filter split: option.splits)
  with Cons u show ?case by (auto simp: conj_commute)
qed (simp add: ret_def)

lemma swept_mails: "sweep_dir d now s = (r, s') \<Longrightarrow> mb_mail (box_at d s') = filter (\<lambda>f. \<not> is_past (mail_expiry (snd (snd f))) now) (mb_mail (box_at d s))"
proof (cases "map_of (sp_boxes s) d")
  case (Some b)
  then have "box_at d s = b" by (simp add: box_at_def)
  with Some show "sweep_dir d now s = (r, s') \<Longrightarrow> ?thesis" by (auto simp: sweep_dir_def then_do_def reads_def modify_def ret_def swept_def)
qed (auto simp: sweep_dir_def then_do_def reads_def ret_def box_at_def empty_box_def)

lemma box_at_rest: "remember_nonce now p q s = (r, s') \<Longrightarrow> box_at d s' = box_at d s"
  by (auto simp: remember_nonce_def then_do_def modify_def reads_def check_def fail_def same_boxes split: if_splits)

text \<open>C39: oldest first, as much as fits. An answered poll returns a prefix of the mail that waits for its signer (in its
  directory, not acknowledged by this poll, not expired, verified for it) in the order of arrival: at most the limit asked
  for and 1536 KiB, and ending earlier only where the next message would not fit.\<close>

theorem poll_oldest_first:
  assumes "poll C env signed s = (Inr mail, s')"
  shows "\<exists>limit k. jfield ''limit'' (sp_payload signed) = JInt limit
    \<and> (let p = py_str (jfield ''peer_id'' (sp_payload signed));
           fs = waiting C env p (poll_acks (sp_payload signed)) (box_at (recipient_dir C p) s) in
       mail = map (\<lambda>f. snd (snd f)) (take k fs) \<and> as_many limit (1536 * 1024) fs k)"
proof -
  obtain payload where v: "verify_poll_request C signed (at_verify env) = Inr payload"
    using assms by (cases "verify_poll_request C signed (at_verify env)") (auto simp: poll_answers then_do_def lift_def)
  obtain limit where l: "payload = sp_payload signed" "jfield ''limit'' payload = JInt limit" "1 \<le> limit"
    using poll_payload [OF v] by blast
  let ?p = "py_str (jfield ''peer_id'' payload)" let ?d = "recipient_dir C ?p"
  obtain x where x: "remember_nonce (at_charge env) ?p (py_str (jfield ''nonce'' payload)) s = (Inr (), x)" "answer C env payload limit x = (Inr mail, s')"
    using assms v l(2) by (auto simp: poll_answers py_int_def then_do_def lift_def split: sum.splits prod.splits)
  obtain a y z n where a: "each (ack_mail ?d (written_at env)) (poll_acks payload) x = (a, y)" "sweep_dir ?d (at_sweep env) y = (n, z)"
      "serve C ?d ?p (at_serve env) limit (by_age (mb_mail (box_at ?d z))) MAX_POLL_RESPONSE_BYTES [] z = (Inr mail, s')"
    using x(2) by (auto simp: answer_def Let_def then_do_def reads_def split: sum.splits prod.splits)
  have "mb_mail (box_at ?d z) = filter (\<lambda>f. fst f \<notin> set (poll_acks payload) \<and> \<not> is_past (mail_expiry (snd (snd f))) (at_sweep env)) (mb_mail (box_at ?d s))"
    using acked_mails [OF a(1)] swept_mails [OF a(2)] box_at_rest [OF x(1), of ?d] by (simp add: conj_commute)
  then have "filter (mail_for C (at_serve env) ?p) (by_age (mb_mail (box_at ?d z))) = waiting C env ?p (poll_acks payload) (box_at ?d s)"
    by (simp add: waiting_def by_age_def filter_sort [symmetric] conj_ac)
  with serve_result [OF a(3)] l show ?thesis
    by (auto simp: Let_def MAX_POLL_RESPONSE_BYTES_def MAX_ENVELOPE_BYTES_def)
qed

subsection \<open>A deposit and a poll\<close>

definition demo_now :: readings where
  "demo_now = \<lparr>at_verify = 0, at_charge = 0, at_sweep = 0, at_serve = (\<lambda>_. 0), written_at = (\<lambda>_. 0)\<rparr>"

definition demo_spool :: spool where
  "demo_spool = new_spool 256 16 120"

definition demo_dir :: string where
  "demo_dir = recipient_dir demo_crypto demo_recipient"

definition demo_nonce :: string where "demo_nonce = replicate 32 (CHR ''b'')"

definition demo_request :: "py_error + signed_payload" where
  "demo_request = build_poll_request demo_crypto demo_nonce demo_recipient [] (JInt 10) 0 None"

lemma demo_spool_ok: "spool_ok demo_crypto demo_spool"
  unfolding demo_spool_def by (rule new_spool_ok)

lemma demo_deposit: "\<exists>signed e receipt s. demo_mail = Inr signed \<and> verify_mailbox_envelope demo_crypto signed 0 = Inr e
    \<and> me_message_id e = demo_id \<and> me_to_peer_id e = demo_recipient \<and> sp_public_key signed = demo_sender
    \<and> deposit demo_crypto demo_now signed demo_spool = (Inr receipt, s) \<and> sp_nonces s = []
    \<and> sp_boxes s = [(demo_dir, \<lparr>mb_mail = [(demo_id, 0, signed)], mb_acked = []\<rparr>)]"
proof -
  obtain signed e where d: "demo_mail = Inr signed" "verify_mailbox_envelope demo_crypto signed 0 = Inr e" "me_message_id e = demo_id"
      "me_to_peer_id e = demo_recipient" "signed = sign_payload demo_crypto (envelope_dict e) demo_sender"
    using demo_verifies by blast
  have "sp_public_key signed = demo_sender" by (simp add: d(5) sign_payload_def demo_crypto_def)
  with d show ?thesis
    by (auto simp: deposit_stores store_mail_def then_do_def lift_def take_token_def reads_def modify_def ret_def check_def refilled_def Let_def
        demo_now_def demo_spool_def new_spool_def known_id_def box_at_def empty_box_def sweep_dir_def pending_counts_def put_box_def demo_dir_def)
qed

lemma demo_polls: "\<exists>request payload. demo_request = Inr request \<and> verify_poll_request demo_crypto request 0 = Inr payload \<and> sp_payload request = payload
    \<and> jfield ''limit'' payload = JInt 10 \<and> jfield ''peer_id'' payload = JStr demo_recipient \<and> jfield ''nonce'' payload = JStr demo_nonce \<and> poll_acks payload = []"
proof -
  let ?payload = "JObj [(''kind'', JStr POLL_KIND), (''peer_id'', JStr demo_recipient), (''issued_at'', JStr (iso_z 0)),
       (''nonce'', JStr demo_nonce), (''ack'', JArr []), (''limit'', JInt 10)]"
  let ?request = "sign_payload demo_crypto ?payload demo_recipient"
  have n: "require_message_id demo_nonce = Inr demo_nonce" by code_simp
  have r: "demo_request = Inr ?request"
    by (simp add: demo_request_def build_poll_request_def py_int_def MAX_POLL_LIMIT_def demo_crypto_def MAX_ACK_IDS_def)
  have f: "jfield ''kind'' ?payload = JStr POLL_KIND" "jfield ''peer_id'' ?payload = JStr demo_recipient" "jfield ''issued_at'' ?payload = JStr (iso_z 0)"
    "jfield ''nonce'' ?payload = JStr demo_nonce" "jget ''ack'' ?payload = Some (JArr [])" "jfield ''limit'' ?payload = JInt 10"
    by (simp_all add: jfield_def jget_def)
  have k: "sp_payload ?request = ?payload" "sp_public_key ?request = demo_recipient" "demo_recipient \<noteq> []" "demo_nonce \<noteq> []"
    using b64_text_ne [of "demo_bytes (CHR ''r'')"] by (simp_all add: sign_payload_def demo_crypto_def demo_recipient_def demo_nonce_def demo_bytes_def)
  then have "verify_poll_request demo_crypto ?request 0 = Inr ?payload"
    using n sign_verify [OF demo_signing, of ?payload demo_recipient] mailbox_time_iso [OF instant_0]
    unfolding verify_poll_request_def k(1,2) f Let_def
    by (simp add: str_or_def truthy_def POLL_SKEW_S_def MAX_POLL_LIMIT_def is_list_def jlist_def MAX_ACK_IDS_def)
  then show ?thesis using r k f by (auto simp: poll_acks_def jlist_def)
qed

lemma demo_poll_empty: "\<exists>request s. demo_request = Inr request \<and> poll demo_crypto demo_now request demo_spool = (Inr [], s) \<and> length (sp_nonces s) = 1"
proof -
  obtain request payload where p: "demo_request = Inr request" "verify_poll_request demo_crypto request 0 = Inr payload" "sp_payload request = payload"
      "jfield ''limit'' payload = JInt 10" "poll_acks payload = []" using demo_polls by blast
  then have "\<exists>s. poll demo_crypto demo_now request demo_spool = (Inr [], s) \<and> length (sp_nonces s) = 1"
    by (simp add: poll_answers answer_def then_do_def lift_def py_int_def remember_nonce_def modify_def reads_def check_def ret_def shed_def MAX_REPLAY_ENTRIES_def
        demo_now_def demo_spool_def new_spool_def sweep_dir_def box_at_def empty_box_def by_age_def Let_def)
  with p(1) show ?thesis by blast
qed

lemma spool_bounded_witness:
  "\<exists>signed b. demo_mail = Inr signed \<and> (demo_dir, b) \<in> set (sp_boxes (spools.run demo_crypto (new_spool 256 16 120) [Deposit demo_now signed]))
    \<and> mb_mail b \<noteq> [] \<and> int (length (mb_mail b)) \<le> 256 \<and> snd (pending_counts demo_sender b) \<le> 16"
proof -
  obtain signed receipt s where d: "demo_mail = Inr signed" "deposit demo_crypto demo_now signed demo_spool = (Inr receipt, s)"
      "sp_boxes s = [(demo_dir, \<lparr>mb_mail = [(demo_id, 0, signed)], mb_acked = []\<rparr>)]"
    using demo_deposit by blast
  then have r: "spools.run demo_crypto (new_spool 256 16 120) [Deposit demo_now signed] = s" by (simp add: demo_spool_def [symmetric])
  then have m: "(demo_dir, \<lparr>mb_mail = [(demo_id, 0, signed)], mb_acked = []\<rparr>)
      \<in> set (sp_boxes (spools.run demo_crypto (new_spool 256 16 120) [Deposit demo_now signed]))" using d(3) by simp
  from spool_bounded [OF refl m, of demo_sender] m d(1) show ?thesis
    by (intro exI [of _ signed] exI [of _ "\<lparr>mb_mail = [(demo_id, 0, signed)], mb_acked = []\<rparr>"]) auto
qed

lemma deposit_rate_witness:
  "\<exists>signed. demo_mail = Inr signed \<and> accepted_from demo_crypto demo_sender demo_spool [Deposit demo_now signed] = 1
    \<and> accepted_from demo_crypto demo_sender demo_spool [Deposit demo_now signed] * 60000000 \<le> 120 * (60000000 + (5 - 0))"
proof -
  obtain signed receipt s where d: "demo_mail = Inr signed" "sp_public_key signed = demo_sender" "deposit demo_crypto demo_now signed demo_spool = (Inr receipt, s)"
    using demo_deposit by blast
  have "1 \<le> sp_rate demo_spool" "charged_in_order 0 [Deposit demo_now signed] 5" by (simp_all add: demo_spool_def new_spool_def demo_now_def)
  from deposit_rate [OF this, of demo_crypto demo_sender] d show ?thesis by (auto simp: demo_spool_def new_spool_def)
qed

lemma poll_once_witness:
  "\<exists>request s. demo_request = Inr request \<and> poll demo_crypto demo_now request demo_spool = (Inr [], s)
    \<and> fst (poll demo_crypto demo_now request (spools.run demo_crypto s [Sweep (\<lambda>_. 0)])) \<in> {Inl (Raised ''replay''), Inl (Raised ''poll_skew'')}"
proof -
  obtain request s where p: "demo_request = Inr request" "poll demo_crypto demo_now request demo_spool = (Inr [], s)" "length (sp_nonces s) = 1"
    using demo_poll_empty by blast
  from poll_once [OF demo_spool_ok p(2), of "[Sweep (\<lambda>_. 0)]" demo_now] p show ?thesis
    by (auto simp: charged_before_def MAX_REPLAY_ENTRIES_def nonces_of_def)
qed

lemma mail_accepted_once_witness:
  "\<exists>signed receipt s. demo_mail = Inr signed \<and> deposit demo_crypto demo_now signed demo_spool = (Inr receipt, s)
    \<and> fst (deposit demo_crypto demo_now signed (spools.run demo_crypto s [Sweep (\<lambda>_. 0)])) \<in> {Inl (Raised ''duplicate''), Inl (Raised ''rate_limited'')}"
proof -
  obtain signed e receipt s where d: "demo_mail = Inr signed" "verify_mailbox_envelope demo_crypto signed 0 = Inr e" "me_to_peer_id e = demo_recipient"
      "deposit demo_crypto demo_now signed demo_spool = (Inr receipt, s)" "sp_boxes s = [(demo_dir, \<lparr>mb_mail = [(demo_id, 0, signed)], mb_acked = []\<rparr>)]"
    using demo_deposit by blast
  obtain x where x: "mailbox_time (JStr (me_expires_at e)) = Inr x" "0 < x" using verified_same [OF d(2)] by blast
  have "\<not> is_past (mail_expiry signed) 0" using verified_expiry [OF d(2) x(1), of 0] x(2) by simp
  then have "\<forall>c \<in> set [Sweep (\<lambda>_. 0)]. while_valid (at_verify demo_now) signed c" by (simp add: while_valid_def)
  moreover have v: "verify_mailbox_envelope demo_crypto signed (at_verify demo_now) = Inr e" using d(2) by (simp add: demo_now_def)
  moreover have "length (mb_acked (box_at (recipient_dir demo_crypto (me_to_peer_id e)) s)) = 0" using d(3,5) by (simp add: box_at_def demo_dir_def)
  ultimately show ?thesis using mail_accepted_once [OF demo_spool_ok d(4) v _ _ v, of "[Sweep (\<lambda>_. 0)]"] d(1,4)
    by (auto simp: tombs_of_def MAX_TOMBSTONES_PER_BOX_def)
qed

lemma poll_oldest_first_witness:
  "\<exists>signed receipt request s s' k. demo_mail = Inr signed \<and> deposit demo_crypto demo_now signed demo_spool = (Inr receipt, s)
    \<and> demo_request = Inr request \<and> poll demo_crypto demo_now request s = (Inr [signed], s')
    \<and> as_many 10 1572864 (waiting demo_crypto demo_now demo_recipient [] (box_at demo_dir s)) k \<and> 0 < k"
proof -
  obtain signed e receipt s where d: "demo_mail = Inr signed" "verify_mailbox_envelope demo_crypto signed 0 = Inr e" "me_to_peer_id e = demo_recipient"
      "deposit demo_crypto demo_now signed demo_spool = (Inr receipt, s)" "sp_nonces s = []" "sp_boxes s = [(demo_dir, \<lparr>mb_mail = [(demo_id, 0, signed)], mb_acked = []\<rparr>)]"
    using demo_deposit by blast
  obtain request payload where q: "demo_request = Inr request" "verify_poll_request demo_crypto request 0 = Inr payload" "sp_payload request = payload"
      "jfield ''limit'' payload = JInt 10" "jfield ''peer_id'' payload = JStr demo_recipient" "poll_acks payload = []" using demo_polls by blast
  obtain x where x: "mailbox_time (JStr (me_expires_at e)) = Inr x" "0 < x" using verified_same [OF d(2)] by blast
  have l: "\<not> is_past (mail_expiry signed) 0" using verified_expiry [OF d(2) x(1), of 0] x(2) by simp
  have "\<exists>s'. poll demo_crypto demo_now request s = (Inr [signed], s')"
    using d q l by (simp add: poll_answers answer_def then_do_def lift_def py_int_def remember_nonce_def modify_def reads_def check_def ret_def shed_def MAX_REPLAY_ENTRIES_def
        demo_now_def sweep_dir_def box_at_def by_age_def Let_def demo_dir_def [symmetric] put_box_def swept_def bound_acked_def)
  then obtain s' where p: "poll demo_crypto demo_now request s = (Inr [signed], s')" by blast
  obtain limit k where k: "JInt 10 = JInt limit"
      "[signed] = map (\<lambda>f. snd (snd f)) (take k (waiting demo_crypto demo_now demo_recipient [] (box_at demo_dir s)))"
      "as_many limit (1536 * 1024) (waiting demo_crypto demo_now demo_recipient [] (box_at demo_dir s)) k"
    using poll_oldest_first [OF p] unfolding q(3) Let_def q(4,5,6) py_str.simps demo_dir_def [symmetric] by (elim exE conjE)
  from k(2) have "0 < k" by (cases k) auto
  moreover have "as_many 10 1572864 (waiting demo_crypto demo_now demo_recipient [] (box_at demo_dir s)) k" using k(1,3) by simp
  ultimately show ?thesis using d(1,4) q(1) p by blast
qed

end
