(* ===== verification/Conversations.thy ===== *)
theory Conversations
  imports Timestamps Crypto
begin

section \<open>Conversation records\<close>

text \<open>
  \<open>clean_conversation\<close> of \<open>src/rynmesh/ask_ryn/store.py\<close>: the projection of a conversation to its declared
  fields, with every check. A dict under construction is a dictionary of JSON values.
\<close>

definition CONVERSATION_FIELDS :: "string list" where
  "CONVERSATION_FIELDS = [''id'', ''title'', ''serviceKey'', ''serviceName'', ''providerPeerId'', ''networkId'', ''createdAt'', ''updatedAt'',
     ''messages'', ''revision'', ''draft'', ''contextIds'']"

definition MESSAGE_FIELDS :: "string list" where
  "MESSAGE_FIELDS = [''id'', ''role'', ''content'', ''createdAt'', ''status'', ''taskId'', ''inputTokens'', ''outputTokens'', ''cost'',
     ''contextIds'', ''contextBytes'', ''promptSha256'']"

definition MESSAGE_STATES :: "string list" where
  "MESSAGE_STATES = [''complete'', ''failed'', ''cancelled'', ''queued'', ''running'', ''cancel_requested'', ''interrupted'']"

abbreviation bad_conversation :: py_error where "bad_conversation \<equiv> Raised ''ask_invalid_conversation''"
abbreviation history_limit :: py_error where "history_limit \<equiv> Raised ''ask_history_limit''"
abbreviation context_unavailable :: py_error where "context_unavailable \<equiv> Raised ''ask_context_unavailable''"

text \<open>\<open>{key: value[key] for key in keys if key in value}\<close>.\<close>

definition pick :: "string list \<Rightarrow> json \<Rightarrow> (string, json) dict" where
  "pick ks value = concat (map (\<lambda>k. case jget k value of None \<Rightarrow> [] | Some v \<Rightarrow> [(k, v)]) ks)"

definition id_char :: "char \<Rightarrow> bool" where
  "id_char c \<longleftrightarrow> is_alnum_ascii c \<or> c = CHR ''_'' \<or> c = CHR ''-''"

definition identity :: "json \<Rightarrow> py_error + string" where
  "identity value = (case value of JStr s \<Rightarrow> require (1 \<le> length s \<and> length s \<le> 128 \<and> list_all id_char s) bad_conversation (Inr s)
     | _ \<Rightarrow> Inl bad_conversation)"

definition timestamp :: "json \<Rightarrow> py_error + string" where
  "timestamp value = (case value of
     JStr s \<Rightarrow> require (length s \<le> 64) bad_conversation (
       case from_iso (z_to_utc s) of Some (_, Some _) \<Rightarrow> Inr s | _ \<Rightarrow> Inl bad_conversation)
   | _ \<Rightarrow> Inl bad_conversation)"

definition has_control :: "string \<Rightarrow> bool" where
  "has_control s \<longleftrightarrow> list_ex (\<lambda>c. (of_char c :: nat) < 32) s"

definition hex_text :: "nat \<Rightarrow> string \<Rightarrow> bool" where
  "hex_text n s \<longleftrightarrow> length s = n \<and> list_all is_lower_hex s"

definition import_id :: "json \<Rightarrow> bool" where
  "import_id j = (case j of JStr s \<Rightarrow> take 11 s = ''import:imp_'' \<and> (hex_text 32 (drop 11 s) \<or> hex_text 64 (drop 11 s)) | _ \<Rightarrow> False)"

definition import_ids :: "json \<Rightarrow> bool" where
  "import_ids j \<longleftrightarrow> is_list j \<and> length (jlist j) \<le> 3 \<and> list_all import_id (jlist j)"

definition byte_count :: "json \<Rightarrow> bool" where
  "byte_count j = (case j of JInt n \<Rightarrow> 0 \<le> n \<and> n \<le> 1024 * 1024 | _ \<Rightarrow> False)"

definition count_or_absent :: "json option \<Rightarrow> bool" where
  "count_or_absent j = (case j of None \<Rightarrow> True | Some (JInt n) \<Rightarrow> 0 \<le> n | Some _ \<Rightarrow> False)"

definition short_text :: "json \<Rightarrow> nat \<Rightarrow> bool" where
  "short_text j limit = (case j of JStr s \<Rightarrow> list_ex (\<lambda>c. \<not> py_isspace c) s \<and> length s \<le> limit \<and> \<not> has_control s | _ \<Rightarrow> False)"

definition utf8_within :: "json \<Rightarrow> nat \<Rightarrow> bool" where
  "utf8_within j limit = (case j of JStr s \<Rightarrow> length (utf8 s) \<le> limit | _ \<Rightarrow> False)"

definition clean_message :: "string list \<Rightarrow> json \<Rightarrow> py_error + (string \<times> (string, json) dict)" where
  "clean_message seen message = require (is_obj message) bad_conversation (
     let row = pick MESSAGE_FIELDS message; field = (\<lambda>k. jfield k (JObj row)) in
     bnd (identity (field ''id'')) (\<lambda>i.
     require (i \<notin> set seen) bad_conversation (
     bnd (in_strings (field ''role'') [''user'', ''assistant'']) (\<lambda>known_role. require known_role bad_conversation (
     bnd (in_strings (field ''status'') MESSAGE_STATES) (\<lambda>known_status. require known_status bad_conversation (
     require (utf8_within (field ''content'') (256 * 1024)) history_limit (
     bnd (timestamp (field ''createdAt'')) (\<lambda>_.
     bnd (case map_of row ''taskId'' of None \<Rightarrow> Inr [] | Some t \<Rightarrow> identity t) (\<lambda>_.
     require (list_all (\<lambda>k. count_or_absent (map_of row k)) [''inputTokens'', ''outputTokens'', ''cost'']) bad_conversation (
     require (case map_of row ''contextIds'' of None \<Rightarrow> True | Some ids \<Rightarrow> import_ids ids) context_unavailable (
     require (case map_of row ''contextIds'' of None \<Rightarrow> True | Some ids \<Rightarrow>
         (let sizes = (case map_of row ''contextBytes'' of None \<Rightarrow> JArr [] | Some s \<Rightarrow> s) in
          is_list sizes \<and> length (jlist sizes) = length (jlist ids) \<and> list_all byte_count (jlist sizes))) context_unavailable (
     require (case map_of row ''promptSha256'' of None \<Rightarrow> True | Some (JStr s) \<Rightarrow> hex_text 64 s | Some _ \<Rightarrow> False) bad_conversation (
     Inr (i, row)))))))))))))))"

fun clean_messages :: "string list \<Rightarrow> json list \<Rightarrow> py_error + json list" where
  "clean_messages seen [] = Inr []"
| "clean_messages seen (m # ms) = bnd (clean_message seen m) (\<lambda>(i, row).
     bnd (clean_messages (i # seen) ms) (\<lambda>rows. Inr (JObj row # rows)))"

definition TEXT_LIMITS :: "(string \<times> nat) list" where
  "TEXT_LIMITS = [(''title'', 512), (''serviceKey'', 2048), (''serviceName'', 512), (''providerPeerId'', 1024), (''networkId'', 256)]"

definition clean_conversation :: "json \<Rightarrow> py_error + (string, json) dict" where
  "clean_conversation value = require (is_obj value) bad_conversation (
     let start = pick (filter (\<lambda>k. k \<noteq> ''revision'') CONVERSATION_FIELDS) value; field = (\<lambda>k. jfield k (JObj start)) in
     bnd (identity (field ''id'')) (\<lambda>_.
     require (list_all (\<lambda>(k, limit). short_text (field k) limit) TEXT_LIMITS) bad_conversation (
     let prefix = py_str (field ''providerPeerId'') @ ''::''; key = py_str (field ''serviceKey'') in
     require (take (length prefix) key = prefix \<and> key \<noteq> prefix) (Raised ''ask_service_binding_mismatch'') (
     bnd (timestamp (field ''createdAt'')) (\<lambda>_.
     bnd (timestamp (field ''updatedAt'')) (\<lambda>_.
     require (is_list (field ''messages'') \<and> length (jlist (field ''messages'')) \<le> 2000) history_limit (
     bnd (clean_messages [] (jlist (field ''messages''))) (\<lambda>cleaned.
     let result = dict_put ''messages'' (JArr cleaned) start in
     require (case map_of result ''draft'' of None \<Rightarrow> True | Some d \<Rightarrow> utf8_within d (64 * 1024)) history_limit (
     require (case map_of result ''contextIds'' of None \<Rightarrow> True | Some ids \<Rightarrow> import_ids ids \<and> distinct (jlist ids)) context_unavailable (
     require (length (canonical_json (JObj result)) \<le> 1024 * 1024) history_limit (
     Inr result)))))))))))"

end
