(* ===== verification/Sync_Records.thy ===== *)
theory Sync_Records
  imports Conversations
begin

section \<open>Causal registers of synced personal data\<close>

text \<open>
  \<open>src/rynmesh/device_sync/records.py\<close>: a register holds, for one entity, a version vector and its concurrent
  values. On the wire and on disk it is a JSON dict; \<open>validate\<close> reads such a dict into the record \<open>register\<close>, with
  the source's checks in its order, and \<open>register_json\<close> writes it back. Python compares values with \<open>==\<close>; here two
  values are the same when their canonical forms are (the decoded values compared by the source differ from that only
  where they mix booleans with numbers, which the cleaning rejects). \<open>sync_lib\<close> are the parameters: SHA-256 and the
  interpreter's check of a bracketed host in a URL.
\<close>

record sync_lib =
  sl_crypto :: crypto
  sl_bracketed :: "string \<Rightarrow> bool"

definition SCOPES :: "string list" where "SCOPES = [''bookmarks'', ''reading'', ''conversations'']"
definition MAX_ACTORS :: nat where "MAX_ACTORS = 64"
definition MAX_COUNTER :: int where "MAX_COUNTER = 2 ^ 53 - 1"
definition MAX_RECORD_BYTES :: nat where "MAX_RECORD_BYTES = 8 * 1024 * 1024"
definition FINAL_STATES :: "string list" where "FINAL_STATES = [''complete'', ''failed'', ''cancelled'', ''interrupted'']"

definition actor_id :: "json \<Rightarrow> py_error + string" where
  "actor_id value = (case value of JStr s \<Rightarrow> require (hex_text 64 s) (Raised ''sync_actor_invalid'') (Inr s)
     | _ \<Rightarrow> Inl (Raised ''sync_actor_invalid''))"

definition entity_id :: "json \<Rightarrow> py_error + string" where
  "entity_id value = (case value of
     JStr s \<Rightarrow> require (0 < length s \<and> length s \<le> 256 \<and> \<not> has_control s) (Raised ''sync_entity_invalid'') (Inr s)
   | _ \<Rightarrow> Inl (Raised ''sync_entity_invalid''))"

definition scope_id :: "json \<Rightarrow> py_error + string" where
  "scope_id value = (case value of JStr s \<Rightarrow> require (s \<in> set SCOPES) (Raised ''sync_scope_invalid'') (Inr s)
     | _ \<Rightarrow> Inl (Raised ''sync_scope_invalid''))"

definition fingerprint :: "sync_lib \<Rightarrow> json \<Rightarrow> string" where
  "fingerprint L value = sha256 (sl_crypto L) (canonical_json value)"

text \<open>The rows of a source whose concurrent values differ.\<close>

definition conflict_count :: "sync_lib \<Rightarrow> json list \<Rightarrow> nat" where
  "conflict_count L rows = length (filter (\<lambda>row. let heads = jlist (jfield ''heads'' (jfield ''record'' row)) in
     1 < length heads \<and> 1 < length (remdups (map (\<lambda>h. fingerprint L (jfield ''value'' h)) heads))) rows)"

definition entity_key :: "sync_lib \<Rightarrow> json \<Rightarrow> json \<Rightarrow> py_error + string" where
  "entity_key L scope identifier = bnd (scope_id scope) (\<lambda>s. bnd (entity_id identifier) (\<lambda>i.
     Inr (fingerprint L (JArr [JStr s, JStr i]))))"

subsection \<open>Links\<close>

text \<open>\<open>urlsplit\<close> as far as the scheme and the network location, for text without control characters; \<open>None\<close> is its ValueError.\<close>

definition lower_ascii :: "char \<Rightarrow> char" where
  "lower_ascii c = (let n = of_char c :: nat in if 65 \<le> n \<and> n \<le> 90 then char_of (n + 32) else c)"

definition ascii_letter :: "char \<Rightarrow> bool" where
  "ascii_letter c = (let n = of_char c :: nat in (65 \<le> n \<and> n \<le> 90) \<or> (97 \<le> n \<and> n \<le> 122))"

definition scheme_char :: "char \<Rightarrow> bool" where
  "scheme_char c \<longleftrightarrow> is_alnum_ascii c \<or> c \<in> set ''+-.''"

definition url_split :: "sync_lib \<Rightarrow> string \<Rightarrow> (string \<times> string) option" where
  "url_split L url =
     (let u = dropWhile (\<lambda>c. c = CHR '' '') url; pre = takeWhile (\<lambda>c. c \<noteq> CHR '':'') u;
          has_scheme = (pre \<noteq> u \<and> pre \<noteq> [] \<and> ascii_letter (hd pre) \<and> list_all scheme_char pre);
          rest = (if has_scheme then drop (length pre + 1) u else u);
          netloc = (if take 2 rest = [CHR 0x2F, CHR 0x2F] then takeWhile (\<lambda>c. c \<notin> {CHR 0x2F, CHR 0x3F, CHR 0x23}) (drop 2 rest) else []) in
      if (CHR ''['' \<in> set netloc) \<noteq> (CHR '']'' \<in> set netloc) then None
      else if CHR ''['' \<in> set netloc \<and> \<not> sl_bracketed L netloc then None
      else Some (if has_scheme then map lower_ascii pre else [], netloc))"

definition url_host :: "string \<Rightarrow> string" where
  "url_host netloc = (if CHR ''['' \<in> set netloc then takeWhile (\<lambda>c. c \<noteq> CHR '']'') (tl (dropWhile (\<lambda>c. c \<noteq> CHR ''['') netloc))
     else takeWhile (\<lambda>c. c \<noteq> CHR '':'') netloc)"

definition hex_upper :: "nat \<Rightarrow> char" where
  "hex_upper n = (if n < 10 then char_of (48 + n) else char_of (55 + n))"

definition url_quote :: "string \<Rightarrow> string" where
  "url_quote s = concat (map (\<lambda>c. if is_alnum_ascii c \<or> c \<in> set ''_.-~'' then [c]
     else [CHR ''%'', hex_upper (of_char c div 16), hex_upper (of_char c mod 16)]) (utf8 s))"

definition link_ok :: "sync_lib \<Rightarrow> string \<Rightarrow> string \<Rightarrow> bool" where
  "link_ok L identifier link = (case url_split L link of None \<Rightarrow> False
     | Some (scheme, netloc) \<Rightarrow> (scheme = ''http'' \<or> scheme = ''https'') \<and> url_host netloc \<noteq> [] \<and> CHR ''@'' \<notin> set netloc
         \<or> link = ''rynmesh:'' @ [CHR 0x2F, CHR 0x2F] @ ''content'' @ [CHR 0x2F] @ url_quote identifier)"

subsection \<open>Values\<close>

definition unfinished_tasks :: "json list \<Rightarrow> json list" where
  "unfinished_tasks messages = map (jfield ''taskId'') (filter (\<lambda>m. py_str (jfield ''status'' m) \<notin> set FINAL_STATES \<and> truthy (jfield ''taskId'' m)) messages)"

definition settled_messages :: "json list \<Rightarrow> json list" where
  "settled_messages messages = filter (\<lambda>m. py_str (jfield ''status'' m) \<in> set FINAL_STATES \<and> jfield ''taskId'' m \<notin> set (unfinished_tasks messages)) messages"

definition derived_title :: "json list \<Rightarrow> string" where
  "derived_title messages =
     (let first = (case filter (\<lambda>m. jfield ''role'' m = JStr ''user'') messages of [] \<Rightarrow> ''Conversation'' | m # _ \<Rightarrow> py_str (jfield ''content'' m));
          title = take 512 (map (\<lambda>c. if (of_char c :: nat) < 32 then CHR '' '' else c) first) in
      if title = [] then ''Conversation'' else title)"

definition clean_synced_conversation :: "string \<Rightarrow> json \<Rightarrow> py_error + json" where
  "clean_synced_conversation identifier value = (case clean_conversation value of
     Inl _ \<Rightarrow> Inl (Raised ''sync_conversation_invalid'')
   | Inr cleaned \<Rightarrow> require (map_of cleaned ''id'' = Some (JStr identifier)) (Raised ''sync_entity_invalid'') (
       let all = jlist (jfield ''messages'' (JObj cleaned)); kept = settled_messages all;
           result = dict_put ''messages'' (JArr kept) (dict_del ''draft'' cleaned) in
       Inr (JObj (if length kept = length all then result
         else dict_put ''updatedAt'' (if kept = [] then jfield ''createdAt'' (JObj result) else jfield ''createdAt'' (last kept))
           (dict_put ''title'' (JStr (derived_title kept)) result)))))"

definition ITEM_LIMITS :: "(string \<times> nat) list" where
  "ITEM_LIMITS = [(''title'', 4000), (''source_title'', 4000), (''source_id'', 4000), (''content_kind'', 32), (''link'', 4096)]"

definition item_text :: "json \<Rightarrow> string \<Rightarrow> json" where
  "item_text item key = (case jget key item of None \<Rightarrow> JStr [] | Some v \<Rightarrow> v)"

definition item_field_ok :: "json \<Rightarrow> nat \<Rightarrow> bool" where
  "item_field_ok j limit = (case j of JStr s \<Rightarrow> length s \<le> limit \<and> \<not> has_control s | _ \<Rightarrow> False)"

definition is_bool :: "json \<Rightarrow> bool" where
  "is_bool j = (case j of JBool _ \<Rightarrow> True | _ \<Rightarrow> False)"

definition unit_number :: "json \<Rightarrow> bool" where
  "unit_number j = (case j of JInt n \<Rightarrow> 0 \<le> n \<and> n \<le> 1 | _ \<Rightarrow> False)"

definition clean_item :: "sync_lib \<Rightarrow> string \<Rightarrow> string \<Rightarrow> json \<Rightarrow> py_error + json" where
  "clean_item L scope identifier value =
     (let item = jfield ''item'' value in
      require (is_obj item \<and> jfield ''item_id'' item = JStr identifier) (Raised ''sync_item_invalid'') (
      require (list_all (\<lambda>(k, limit). item_field_ok (item_text item k) limit) ITEM_LIMITS) (Raised ''sync_item_invalid'') (
      let metadata = (''item_id'', JStr identifier) # map (\<lambda>(k, _). (k, item_text item k)) ITEM_LIMITS in
      require (link_ok L identifier (py_str (item_text item ''link''))) (Raised ''sync_item_link_invalid'') (
      if scope = ''bookmarks'' then
        require (is_bool (jfield ''bookmarked'' value)) (Raised ''sync_value_invalid'') (
        Inr (JObj [(''item'', JObj metadata), (''bookmarked'', jfield ''bookmarked'' value)]))
      else
        require (unit_number (jfield ''progress'' value) \<and> is_bool (jfield ''completed'' value)) (Raised ''sync_value_invalid'') (
        require (item_field_ok (item_text value ''content_version'') 256) (Raised ''sync_value_invalid'') (
        Inr (JObj [(''item'', JObj metadata), (''progress'', jfield ''progress'' value), (''completed'', jfield ''completed'' value),
          (''content_version'', item_text value ''content_version'')])))))))"

definition clean_value :: "sync_lib \<Rightarrow> string \<Rightarrow> string \<Rightarrow> json \<Rightarrow> py_error + json" where
  "clean_value L scope identifier value =
     bnd (scope_id (JStr scope)) (\<lambda>_. bnd (entity_id (JStr identifier)) (\<lambda>_.
     if value = JNull then Inr JNull
     else require (is_obj value) (Raised ''sync_value_invalid'') (
       if scope = ''conversations'' then clean_synced_conversation identifier value else clean_item L scope identifier value)))"

subsection \<open>Registers\<close>

record head =
  hd_actor :: string
  hd_counter :: int
  hd_value :: json

record register =
  rg_clock :: "(string, int) dict"
  rg_heads :: "head list"
  rg_erased :: bool

definition head_json :: "head \<Rightarrow> json" where
  "head_json h = JObj [(''actor'', JStr (hd_actor h)), (''counter'', JInt (hd_counter h)), (''value'', hd_value h)]"

definition register_json :: "register \<Rightarrow> json" where
  "register_json r = JObj [(''clock'', JObj (map (\<lambda>(a, n). (a, JInt n)) (rg_clock r))), (''heads'', JArr (map head_json (rg_heads r))),
     (''erased'', JBool (rg_erased r))]"

definition empty_register :: register where
  "empty_register = \<lparr>rg_clock = [], rg_heads = [], rg_erased = False\<rparr>"

fun read_clock_dict :: "(string, json) dict \<Rightarrow> py_error + (string, int) dict" where
  "read_clock_dict [] = Inr []"
| "read_clock_dict ((a, c) # d) = bnd (actor_id (JStr a)) (\<lambda>_.
     case c of JInt n \<Rightarrow> require (1 \<le> n \<and> n \<le> MAX_COUNTER) (Raised ''sync_clock_invalid'') (
       bnd (read_clock_dict d) (\<lambda>clock. Inr ((a, n) # clock)))
     | _ \<Rightarrow> Inl (Raised ''sync_clock_invalid''))"

fun read_heads :: "sync_lib \<Rightarrow> string \<Rightarrow> string \<Rightarrow> (string, int) dict \<Rightarrow> string list \<Rightarrow> json list \<Rightarrow> py_error + head list" where
  "read_heads L scope identifier clock seen [] = Inr []"
| "read_heads L scope identifier clock seen (h # hs) =
     require (is_obj h \<and> keys_are h [''actor'', ''counter'', ''value'']) (Raised ''sync_record_invalid'') (
     bnd (actor_id (jfield ''actor'' h)) (\<lambda>actor.
     require (actor \<notin> set seen \<and> map_of clock actor \<noteq> None \<and> jfield ''counter'' h = JInt (the (map_of clock actor))) (Raised ''sync_clock_invalid'') (
     bnd (clean_value L scope identifier (jfield ''value'' h)) (\<lambda>v.
     require (canon v = canon (jfield ''value'' h)) (Raised ''sync_value_invalid'') (
     bnd (read_heads L scope identifier clock (actor # seen) hs) (\<lambda>heads.
     Inr (\<lparr>hd_actor = actor, hd_counter = the (map_of clock actor), hd_value = jfield ''value'' h\<rparr> # heads)))))))"

definition service_binding :: "json \<Rightarrow> json list" where
  "service_binding value = map (\<lambda>k. jfield k value) [''serviceKey'', ''providerPeerId'', ''networkId'', ''createdAt'']"

definition check_binding :: "string \<Rightarrow> json list \<Rightarrow> py_error + unit" where
  "check_binding scope values = (let bindings = map service_binding (filter (\<lambda>v. v \<noteq> JNull) values) in
     require (scope = ''conversations'' \<longrightarrow> length (remdups bindings) \<le> 1) (Raised ''sync_service_binding_mismatch'') (Inr ()))"

definition validate :: "sync_lib \<Rightarrow> string \<Rightarrow> string \<Rightarrow> json \<Rightarrow> py_error + register" where
  "validate L scope identifier record =
     bnd (scope_id (JStr scope)) (\<lambda>_. bnd (entity_id (JStr identifier)) (\<lambda>_.
     require (is_obj record \<and> keys_are record [''clock'', ''heads'', ''erased'']) (Raised ''sync_record_invalid'') (
     let clock = jfield ''clock'' record; heads = jfield ''heads'' record; erased = jfield ''erased'' record in
     require (is_obj clock \<and> length (jkeys clock) \<le> MAX_ACTORS \<and> is_list heads \<and> length (jlist heads) \<le> MAX_ACTORS \<and> is_bool erased) (Raised ''sync_record_invalid'') (
     bnd (read_clock_dict (case clock of JObj d \<Rightarrow> d | _ \<Rightarrow> [])) (\<lambda>clock.
     bnd (read_heads L scope identifier clock [] (jlist heads)) (\<lambda>heads.
     require (\<not> (erased = JBool True \<and> (scope \<noteq> ''conversations'' \<or> heads \<noteq> []))) (Raised ''sync_record_invalid'') (
     require (length (canonical_json record) \<le> MAX_RECORD_BYTES) (Raised ''sync_record_limit'') (
     bnd (check_binding scope (map hd_value heads)) (\<lambda>_.
     Inr \<lparr>rg_clock = clock, rg_heads = heads, rg_erased = (erased = JBool True)\<rparr>)))))))))"

definition write_register :: "sync_lib \<Rightarrow> string \<Rightarrow> string \<Rightarrow> json \<Rightarrow> string \<Rightarrow> json \<Rightarrow> json \<Rightarrow> py_error + json" where
  "write_register L scope identifier previous actor value erase =
     bnd (validate L scope identifier previous) (\<lambda>p.
     bnd (actor_id (JStr actor)) (\<lambda>_.
     require (\<not> rg_erased p) (Raised ''sync_entity_erased'') (
     require (is_bool erase \<and> \<not> (erase = JBool True \<and> scope \<noteq> ''conversations'')) (Raised ''sync_record_invalid'') (
     bnd (clean_value L scope identifier value) (\<lambda>value.
     require (\<not> (scope = ''conversations'' \<and> value \<noteq> JNull \<and> list_ex (\<lambda>h. hd_value h = JNull) (rg_heads p))) (Raised ''sync_conversation_deleted'') (
     bnd (check_binding scope (map hd_value (rg_heads p) @ [value])) (\<lambda>_.
     let n = (case map_of (rg_clock p) actor of None \<Rightarrow> 0 | Some n \<Rightarrow> n) + 1;
         result = register_json \<lparr>rg_clock = dict_put actor n (rg_clock p),
           rg_heads = (if erase = JBool True then [] else [\<lparr>hd_actor = actor, hd_counter = n, hd_value = value\<rparr>]), rg_erased = (erase = JBool True)\<rparr> in
     bnd (validate L scope identifier result) (\<lambda>_. Inr result))))))))"

subsection \<open>Merging\<close>

definition counter_of :: "register \<Rightarrow> string \<Rightarrow> int" where
  "counter_of r actor = (case map_of (rg_clock r) actor of None \<Rightarrow> 0 | Some n \<Rightarrow> n)"

definition dot_of :: "head \<Rightarrow> string \<times> int" where
  "dot_of h = (hd_actor h, hd_counter h)"

definition head_at :: "register \<Rightarrow> string \<times> int \<Rightarrow> head option" where
  "head_at r dot = map_of (map (\<lambda>h. (dot_of h, h)) (rg_heads r)) dot"

definition merged_clock :: "register \<Rightarrow> register \<Rightarrow> (string, int) dict" where
  "merged_clock l r = map (\<lambda>a. (a, max (counter_of l a) (counter_of r a)))
     (map fst (rg_clock l) @ filter (\<lambda>a. a \<notin> set (map fst (rg_clock l))) (map fst (rg_clock r)))"

text \<open>The heads of one side that survive: those the other side holds too, or has not observed.\<close>

definition surviving :: "register \<Rightarrow> register \<Rightarrow> head list" where
  "surviving side other = filter (\<lambda>h. head_at other (dot_of h) \<noteq> None \<or> counter_of other (hd_actor h) < hd_counter h) (rg_heads side)"

definition merged_heads :: "register \<Rightarrow> register \<Rightarrow> ((string \<times> int), head) dict" where
  "merged_heads l r = fold (\<lambda>h d. dict_put (dot_of h) h d) (surviving l r @ surviving r l) []"

definition merge_registers :: "register \<Rightarrow> register \<Rightarrow> py_error + register" where
  "merge_registers l r =
     require (length (merged_clock l r) \<le> MAX_ACTORS) (Raised ''sync_device_limit'') (
     if rg_erased l \<or> rg_erased r then Inr \<lparr>rg_clock = merged_clock l r, rg_heads = [], rg_erased = True\<rparr>
     else require (list_all (\<lambda>h. case head_at r (dot_of h) of None \<Rightarrow> True
           | Some g \<Rightarrow> canonical_json (head_json h) = canonical_json (head_json g)) (rg_heads l)) (Raised ''sync_dot_conflict'') (
       Inr \<lparr>rg_clock = merged_clock l r,
         rg_heads = map snd (sort_key (\<lambda>e. fst (fst e)) (sort_key (\<lambda>e. snd (fst e)) (merged_heads l r))), rg_erased = False\<rparr>))"

definition merge :: "sync_lib \<Rightarrow> string \<Rightarrow> string \<Rightarrow> json \<Rightarrow> json \<Rightarrow> py_error + json" where
  "merge L scope identifier left right =
     bnd (validate L scope identifier left) (\<lambda>l.
     bnd (validate L scope identifier right) (\<lambda>r.
     bnd (merge_registers l r) (\<lambda>m.
     if rg_erased m then Inr (register_json m)
     else bnd (validate L scope identifier (register_json m)) (\<lambda>_. Inr (register_json m)))))"

subsection \<open>What the owner sees\<close>

definition choices :: "sync_lib \<Rightarrow> head list \<Rightarrow> json list" where
  "choices L heads = map snd (sort_key fst (fold (\<lambda>h d. if map_of d (fingerprint L (hd_value h)) \<noteq> None then d
     else dict_put (fingerprint L (hd_value h))
       (JObj [(''choice_id'', JStr (hd_actor h @ '':'' @ show_int (hd_counter h))), (''value'', hd_value h)]) d) heads []))"

text \<open>The messages all branches start with.\<close>

fun common_messages :: "json list \<Rightarrow> json list list \<Rightarrow> json list" where
  "common_messages [] rest = []"
| "common_messages (m # ms) rest =
     (if list_all (\<lambda>r. r \<noteq> [] \<and> canon (hd r) = canon m) rest then m # common_messages ms (map tl rest) else [])"

definition view :: "sync_lib \<Rightarrow> string \<Rightarrow> string \<Rightarrow> json \<Rightarrow> py_error + json" where
  "view L scope identifier record = bnd (validate L scope identifier record) (\<lambda>r.
     let candidates = choices L (rg_heads r); value = jfield ''value'';
         common = [(''id'', JStr identifier), (''revision'', JStr (fingerprint L record)), (''conflict'', JBool (1 < length candidates)),
           (''erased'', JBool (rg_erased r))] in
     Inr (JObj (common @
       (if scope = ''bookmarks'' then
          [(''bookmarked'', JBool (candidates \<noteq> [] \<and> list_all (\<lambda>c. value c \<noteq> JNull \<and> jfield ''bookmarked'' (value c) = JBool True) candidates)),
           (''candidates'', JArr candidates)]
        else if scope = ''reading'' then
          [(''candidates'', JArr candidates), (''value'', if length candidates = 1 then value (hd candidates) else JNull)]
        else
          let deleted = (rg_erased r \<or> list_ex (\<lambda>c. value c = JNull) candidates);
              branches = filter (\<lambda>c. value c \<noteq> JNull) candidates;
              messages = (\<lambda>c. jlist (jfield ''messages'' (value c))) in
          [(''deleted'', JBool deleted),
           (''common_messages'', JArr (if deleted \<or> branches = [] then [] else common_messages (messages (hd branches)) (map messages (tl branches)))),
           (''branches'', JArr (if deleted then [] else branches)), (''recovery'', JArr (if deleted then branches else []))]))))"

end
