(* ===== verification/Sync_Store.thy ===== *)
theory Sync_Store
  imports Sync_Records Effects
begin

section \<open>The replica store\<close>

text \<open>
  \<open>src/rynmesh/device_sync/store.py\<close>: the records of this device, what each paired device has acknowledged, and the rows
  that could not be merged. The file holds the canonical JSON of this state, encrypted; here the state is the decoded
  value, so the checks that \<open>_read\<close> makes of the decrypted sections are \<open>read_checks\<close> and a file that cannot be
  decrypted or parsed is not modelled. A method is a function of the state: an exception leaves the file as it was, and the result is
  the answer with the state to store. The caches of \<open>_read\<close> and \<open>status\<close> only save time. An absent \<open>quarantine\<close>
  section is an empty one.
\<close>

definition REPLICA_VERSION :: string where "REPLICA_VERSION = ''ryn.device-replica.v1''"
definition MAX_PLAINTEXT :: nat where "MAX_PLAINTEXT = 128 * 1024 * 1024"
definition MAX_ENTITIES :: nat where "MAX_ENTITIES = 30000"
definition MAX_BATCH :: nat where "MAX_BATCH = 100"
definition MAX_BATCH_BYTES :: nat where "MAX_BATCH_BYTES = 12 * 1024 * 1024"

definition PER_ROW :: "string list" where
  "PER_ROW = [''sync_dot_conflict'', ''sync_device_limit'', ''sync_value_invalid'', ''sync_item_invalid'', ''sync_item_link_invalid'']"

record sync_row =
  sr_scope :: string
  sr_id :: string
  sr_record :: json

record held_row =
  hr_scope :: string
  hr_id :: string
  hr_code :: string
  hr_revision :: string

record replica =
  rp_actor :: string
  rp_records :: "(string, sync_row) dict"
  rp_receipts :: "(string, (string, string) dict) dict"
  rp_quarantine :: "(string, held_row) dict"

definition new_replica :: "string \<Rightarrow> replica" where
  "new_replica actor = \<lparr>rp_actor = actor, rp_records = [], rp_receipts = [], rp_quarantine = []\<rparr>"

definition row_json :: "sync_row \<Rightarrow> json" where
  "row_json r = JObj [(''scope'', JStr (sr_scope r)), (''id'', JStr (sr_id r)), (''record'', sr_record r)]"

definition held_json :: "held_row \<Rightarrow> json" where
  "held_json h = JObj [(''scope'', JStr (hr_scope h)), (''id'', JStr (hr_id h)), (''code'', JStr (hr_code h)), (''revision'', JStr (hr_revision h))]"

definition replica_json :: "replica \<Rightarrow> json" where
  "replica_json R = JObj ([(''version'', JStr REPLICA_VERSION), (''actor'', JStr (rp_actor R)),
       (''records'', JObj (map (map_prod id row_json) (rp_records R))),
       (''receipts'', JObj (map (map_prod id (\<lambda>d. JObj (map (map_prod id JStr) d))) (rp_receipts R)))]
     @ (if rp_quarantine R = [] then [] else [(''quarantine'', JObj (map (map_prod id held_json) (rp_quarantine R)))]))"

subsection \<open>Reading and committing\<close>

abbreviation store_unavailable :: py_error where "store_unavailable \<equiv> Raised ''sync_store_unavailable''"

text \<open>A SyncError passes, a ValueError, KeyError or TypeError of the checks becomes \<open>sync_store_unavailable\<close>.\<close>

definition as_sync_error :: "py_error + 'a \<Rightarrow> py_error + 'a" where
  "as_sync_error r = (case r of Inl e \<Rightarrow> Inl (if e \<in> {ValueError, KeyError, TypeError} then store_unavailable else e) | Inr x \<Rightarrow> Inr x)"

definition check_receipts :: "string \<times> (string, string) dict \<Rightarrow> py_error + unit" where
  "check_receipts entry = bnd (actor_id (JStr (fst entry))) (\<lambda>_. require (length (snd entry) \<le> MAX_ENTITIES) ValueError (
     check_all (\<lambda>(key, revision). bnd (actor_id (JStr key)) (\<lambda>_. bnd (actor_id (JStr revision)) (\<lambda>_. Inr ()))) (snd entry)))"

definition check_record :: "sync_lib \<Rightarrow> string \<times> sync_row \<Rightarrow> py_error + unit" where
  "check_record L entry = (let row = snd entry in
     bnd (entity_key L (JStr (sr_scope row)) (JStr (sr_id row))) (\<lambda>key. require (fst entry = key) ValueError (
     bnd (validate L (sr_scope row) (sr_id row) (sr_record row)) (\<lambda>_. Inr ()))))"

definition check_held :: "sync_lib \<Rightarrow> string \<times> held_row \<Rightarrow> py_error + unit" where
  "check_held L entry = (let row = snd entry in require (hr_code row \<in> set PER_ROW) ValueError (
     bnd (entity_key L (JStr (hr_scope row)) (JStr (hr_id row))) (\<lambda>key. require (fst entry = key) ValueError (
     bnd (actor_id (JStr (hr_revision row))) (\<lambda>_. Inr ())))))"

definition read_quarantine :: "sync_lib \<Rightarrow> replica \<Rightarrow> py_error + unit" where
  "read_quarantine L R = require (length (rp_quarantine R) \<le> MAX_ENTITIES) ValueError (check_all (check_held L) (rp_quarantine R))"

definition read_checks :: "sync_lib \<Rightarrow> string \<Rightarrow> replica \<Rightarrow> py_error + unit" where
  "read_checks L actor R = as_sync_error (
     require (length (canonical_json (replica_json R)) \<le> MAX_PLAINTEXT) (Raised ''sync_capacity_exhausted'') (
     require (rp_actor R = actor) (Raised ''sync_device_identity_changed'') (
     require (length (rp_records R) \<le> MAX_ENTITIES) ValueError (
     require (length (rp_receipts R) \<le> MAX_ACTORS) ValueError (
     bnd (check_all check_receipts (rp_receipts R)) (\<lambda>_.
     bnd (check_all (check_record L) (rp_records R)) (\<lambda>_.
     read_quarantine L R)))))))"

definition mutate :: "sync_lib \<Rightarrow> string \<Rightarrow> (replica \<Rightarrow> py_error + (replica \<times> 'a)) \<Rightarrow> replica \<Rightarrow> py_error + (replica \<times> 'a)" where
  "mutate L actor operation R =
     bnd (read_checks L actor R) (\<lambda>_.
     bnd (operation R) (\<lambda>(S, answer).
     require (length (rp_records S) \<le> MAX_ENTITIES \<and> length (rp_quarantine S) \<le> MAX_ENTITIES) (Raised ''sync_capacity_exhausted'') (
     require (length (canonical_json (replica_json S)) \<le> MAX_PLAINTEXT) (Raised ''sync_capacity_exhausted'') (
     Inr (S, answer)))))"

definition record_at :: "replica \<Rightarrow> string \<Rightarrow> json" where
  "record_at R key = (case map_of (rp_records R) key of None \<Rightarrow> register_json empty_register | Some row \<Rightarrow> sr_record row)"

definition put_record :: "string \<Rightarrow> string \<Rightarrow> string \<Rightarrow> json \<Rightarrow> replica \<Rightarrow> replica" where
  "put_record key scope identifier rec R =
     R\<lparr>rp_records := dict_put key \<lparr>sr_scope = scope, sr_id = identifier, sr_record = rec\<rparr> (rp_records R)\<rparr>"

subsection \<open>The owner's reads and writes\<close>

definition read_entity :: "sync_lib \<Rightarrow> string \<Rightarrow> json \<Rightarrow> json \<Rightarrow> replica \<Rightarrow> py_error + json" where
  "read_entity L actor scope identifier R = bnd (entity_key L scope identifier) (\<lambda>key. bnd (read_checks L actor R) (\<lambda>_.
     view L (py_str scope) (py_str identifier) (record_at R key)))"

fun write_entries :: "sync_lib \<Rightarrow> string \<Rightarrow> string list \<Rightarrow> json list \<Rightarrow> replica \<Rightarrow> py_error + (replica \<times> json list)" where
  "write_entries L actor seen [] R = Inr (R, [])"
| "write_entries L actor seen (entry # entries) R =
     bnd (jitem ''scope'' entry) (\<lambda>scope. bnd (jitem ''id'' entry) (\<lambda>identifier.
     bnd (entity_key L scope identifier) (\<lambda>key.
     require (key \<notin> set seen) (Raised ''sync_batch_invalid'') (
     let previous = record_at R key in
     bnd (jitem ''expected_revision'' entry) (\<lambda>expected.
     require (expected = JStr (fingerprint L previous)) (Raised ''sync_revision_conflict'') (
     bnd (jitem ''value'' entry) (\<lambda>value.
     bnd (write_register L (py_str scope) (py_str identifier) previous actor value (case jget ''erase'' entry of None \<Rightarrow> JBool False | Some e \<Rightarrow> e)) (\<lambda>rec.
     bnd (view L (py_str scope) (py_str identifier) rec) (\<lambda>shown.
     bnd (write_entries L actor (key # seen) entries (put_record key (py_str scope) (py_str identifier) rec R)) (\<lambda>(S, views).
     Inr (S, shown # views)))))))))))"

definition write_many :: "sync_lib \<Rightarrow> string \<Rightarrow> json \<Rightarrow> replica \<Rightarrow> py_error + (replica \<times> json list)" where
  "write_many L actor changes R =
     require (is_list changes \<and> 0 < length (jlist changes) \<and> length (jlist changes) \<le> MAX_BATCH) (Raised ''sync_batch_limit'') (
     mutate L actor (write_entries L actor [] (jlist changes)) R)"

definition write_one :: "sync_lib \<Rightarrow> string \<Rightarrow> json \<Rightarrow> json \<Rightarrow> json \<Rightarrow> json \<Rightarrow> json \<Rightarrow> replica \<Rightarrow> py_error + (replica \<times> json)" where
  "write_one L actor scope identifier value expected erase R =
     bnd (write_many L actor (JArr [JObj [(''scope'', scope), (''id'', identifier), (''value'', value), (''expected_revision'', expected), (''erase'', erase)]]) R)
       (\<lambda>(S, views). Inr (S, hd views))"

subsection \<open>Batches for other devices\<close>

fun read_scopes :: "json list \<Rightarrow> py_error + string list" where
  "read_scopes [] = Inr []"
| "read_scopes (s # ss) = bnd (scope_id s) (\<lambda>x. bnd (read_scopes ss) (\<lambda>xs. Inr (x # xs)))"

definition select_scopes :: "json \<Rightarrow> py_error + string list" where
  "select_scopes scopes = require (is_list scopes) (Raised ''sync_scope_invalid'') (
     bnd (read_scopes (jlist scopes)) (\<lambda>selected. require (distinct selected) (Raised ''sync_scope_invalid'') (Inr selected)))"

definition receipts_of :: "replica \<Rightarrow> string \<Rightarrow> (string, string) dict" where
  "receipts_of R device = (case map_of (rp_receipts R) device of None \<Rightarrow> [] | Some d \<Rightarrow> d)"

definition unacknowledged :: "sync_lib \<Rightarrow> replica \<Rightarrow> string \<Rightarrow> string list \<Rightarrow> sync_row list" where
  "unacknowledged L R device selected = map snd (filter (\<lambda>(key, row). sr_scope row \<in> set selected
     \<and> map_of (receipts_of R device) key \<noteq> Some (fingerprint L (sr_record row))) (sort_key fst (rp_records R)))"

fun fill_batch :: "nat \<Rightarrow> bool \<Rightarrow> sync_row list \<Rightarrow> sync_row list" where
  "fill_batch used started [] = []"
| "fill_batch used started (row # rows) =
     (let row_size = length (canonical_json (row_json row)) + (if started then 1 else 0) in
      if MAX_BATCH_BYTES < used + row_size then [] else row # fill_batch (used + row_size) True rows)"

definition pending_batch :: "sync_lib \<Rightarrow> replica \<Rightarrow> string \<Rightarrow> string list \<Rightarrow> sync_row list \<times> nat" where
  "pending_batch L R device selected = (let rows = unacknowledged L R device selected in (fill_batch 2 False (take MAX_BATCH rows), length rows))"

definition pending :: "sync_lib \<Rightarrow> string \<Rightarrow> json \<Rightarrow> json \<Rightarrow> replica \<Rightarrow> py_error + (sync_row list \<times> nat)" where
  "pending L actor device scopes R = bnd (actor_id device) (\<lambda>d. bnd (select_scopes scopes) (\<lambda>selected.
     bnd (read_checks L actor R) (\<lambda>_. Inr (pending_batch L R d selected))))"

subsection \<open>Merging rows\<close>

definition sync_receipt :: "string \<Rightarrow> string \<Rightarrow> string \<Rightarrow> string option \<Rightarrow> json" where
  "sync_receipt scope identifier revision rejected = JObj ([(''scope'', JStr scope), (''id'', JStr identifier), (''revision'', JStr revision)]
     @ (case rejected of None \<Rightarrow> [] | Some code \<Rightarrow> [(''rejected'', JStr code)]))"

definition hold_row :: "string \<Rightarrow> held_row \<Rightarrow> replica \<Rightarrow> replica" where
  "hold_row key row R = R\<lparr>rp_quarantine := dict_put key row (rp_quarantine R)\<rparr>"

definition release_row :: "string \<Rightarrow> replica \<Rightarrow> replica" where
  "release_row key R = R\<lparr>rp_quarantine := dict_del key (rp_quarantine R)\<rparr>"

definition merge_row :: "sync_lib \<Rightarrow> string \<Rightarrow> string \<Rightarrow> json \<Rightarrow> json \<Rightarrow> py_error + json" where
  "merge_row L scope identifier previous rec =
     (if canonical_json previous = canonical_json rec then Inr previous else merge L scope identifier previous rec)"

text \<open>The body of the loop after its checks: the next state and the receipt.\<close>

definition place_row :: "sync_lib \<Rightarrow> bool \<Rightarrow> string \<Rightarrow> string \<Rightarrow> string \<Rightarrow> json \<Rightarrow> replica \<Rightarrow> py_error + (replica \<times> json)" where
  "place_row L collect key scope identifier rec R =
     (let receipt = sync_receipt scope identifier (fingerprint L rec) in
      case merge_row L scope identifier (record_at R key) rec of
        Inr merged \<Rightarrow> Inr (release_row key (put_record key scope identifier merged R), receipt None)
      | Inl (Raised code) \<Rightarrow>
          if code \<notin> set PER_ROW then Inl (Raised code)
          else if collect then Inr (R, receipt (Some code))
          else Inr (hold_row key \<lparr>hr_scope = scope, hr_id = identifier, hr_code = code, hr_revision = fingerprint L rec\<rparr> R, receipt (Some code))
      | Inl e \<Rightarrow> Inl e)"

text \<open>One row of the loop: the next state, the key and the receipt.\<close>

definition import_row :: "sync_lib \<Rightarrow> bool \<Rightarrow> string list \<Rightarrow> string list \<Rightarrow> json \<Rightarrow> replica \<Rightarrow> py_error + (replica \<times> string \<times> json)" where
  "import_row L collect selected seen row R =
     require (is_obj row \<and> keys_are row [''scope'', ''id'', ''record'']) (Raised ''sync_scope_denied'') (
     bnd (scope_id (jfield ''scope'' row)) (\<lambda>scope.
     require (scope \<in> set selected) (Raised ''sync_scope_denied'') (
     bnd (entity_key L (jfield ''scope'' row) (jfield ''id'' row)) (\<lambda>key.
     require (key \<notin> set seen) (Raised ''sync_batch_invalid'') (
     bnd (place_row L collect key scope (py_str (jfield ''id'' row)) (jfield ''record'' row) R) (\<lambda>(S, receipt).
     Inr (S, key, receipt)))))))"

fun import_rows :: "sync_lib \<Rightarrow> bool \<Rightarrow> string list \<Rightarrow> string list \<Rightarrow> json list \<Rightarrow> replica \<Rightarrow> py_error + (replica \<times> string list \<times> json list)" where
  "import_rows L collect selected seen [] R = Inr (R, seen, [])"
| "import_rows L collect selected seen (row # rows) R =
     bnd (import_row L collect selected seen row R) (\<lambda>(S, key, receipt).
     bnd (import_rows L collect selected (key # seen) rows S) (\<lambda>(T, keys, receipts). Inr (T, keys, receipt # receipts)))"

definition evict :: "string list \<Rightarrow> string list \<Rightarrow> replica \<Rightarrow> replica" where
  "evict selected seen R = R\<lparr>rp_quarantine := filter (\<lambda>(key, row). \<not> (hr_scope row \<in> set selected \<and> key \<notin> set seen)) (rp_quarantine R)\<rparr>"

definition merge_rows :: "sync_lib \<Rightarrow> bool \<Rightarrow> string list \<Rightarrow> json list \<Rightarrow> replica \<Rightarrow> py_error + (replica \<times> json list)" where
  "merge_rows L collect selected rows R = bnd (import_rows L collect selected [] rows R) (\<lambda>(S, seen, receipts).
     Inr (if collect then (S, receipts) else (evict selected seen S, [])))"

definition receive :: "sync_lib \<Rightarrow> string \<Rightarrow> json \<Rightarrow> json \<Rightarrow> replica \<Rightarrow> py_error + (replica \<times> json list)" where
  "receive L actor rows scopes R = bnd (select_scopes scopes) (\<lambda>selected.
     require (is_list rows \<and> length (jlist rows) \<le> MAX_BATCH \<and> length (canonical_json rows) \<le> MAX_BATCH_BYTES) (Raised ''sync_batch_limit'') (
     mutate L actor (merge_rows L True selected (jlist rows)) R))"

definition source_scope :: "json \<Rightarrow> json \<Rightarrow> py_error + string list" where
  "source_scope rows scopes = bnd (select_scopes scopes) (\<lambda>selected.
     require (is_list rows \<and> length (jlist rows) \<le> MAX_ENTITIES \<and> length (canonical_json rows) \<le> MAX_PLAINTEXT) (Raised ''sync_capacity_exhausted'') (Inr selected))"

definition reconcile_source :: "sync_lib \<Rightarrow> string \<Rightarrow> json \<Rightarrow> json \<Rightarrow> replica \<Rightarrow> py_error + (replica \<times> json list)" where
  "reconcile_source L actor rows scopes R = bnd (source_scope rows scopes) (\<lambda>selected.
     mutate L actor (merge_rows L False selected (jlist rows)) R)"

definition source_pending :: "sync_lib \<Rightarrow> string \<Rightarrow> json \<Rightarrow> json \<Rightarrow> json \<Rightarrow> replica \<Rightarrow> py_error + (replica \<times> sync_row list \<times> nat)" where
  "source_pending L actor device rows scopes R = bnd (actor_id device) (\<lambda>d. bnd (source_scope rows scopes) (\<lambda>selected.
     mutate L actor (\<lambda>R. bnd (merge_rows L False selected (jlist rows) R) (\<lambda>(S, _). Inr (S, pending_batch L S d selected))) R))"

subsection \<open>Acknowledgements\<close>

definition receipt_ok :: "string list \<Rightarrow> json \<Rightarrow> py_error + unit" where
  "receipt_ok selected receipt =
     require (is_obj receipt \<and> set (jkeys receipt) - {''rejected''} = {''scope'', ''id'', ''revision''}) (Raised ''sync_scope_denied'') (
     bnd (scope_id (jfield ''scope'' receipt)) (\<lambda>scope.
     require (scope \<in> set selected) (Raised ''sync_scope_denied'') (
     require (case jget ''rejected'' receipt of None \<Rightarrow> True | Some (JStr code) \<Rightarrow> code \<in> set PER_ROW | Some _ \<Rightarrow> False) (Raised ''sync_scope_denied'') (
     Inr ()))))"

fun confirm :: "sync_lib \<Rightarrow> replica \<Rightarrow> string list \<Rightarrow> string list \<Rightarrow> json list \<Rightarrow> (string, string) dict \<times> nat \<Rightarrow> py_error + ((string, string) dict \<times> nat)" where
  "confirm L R selected seen [] (saved, confirmed) = Inr (saved, confirmed)"
| "confirm L R selected seen (receipt # receipts) (saved, confirmed) =
     bnd (receipt_ok selected receipt) (\<lambda>_.
     bnd (entity_key L (jfield ''scope'' receipt) (jfield ''id'' receipt)) (\<lambda>key.
     require (key \<notin> set seen) (Raised ''sync_batch_invalid'') (
     bnd (actor_id (jfield ''revision'' receipt)) (\<lambda>revision.
     bnd (opt_or (Raised ''sync_receipt_invalid'') (map_of (rp_records R) key)) (\<lambda>row.
     confirm L R selected (key # seen) receipts
       (if fingerprint L (sr_record row) = revision then (dict_put key revision saved, confirmed + 1) else (saved, confirmed)))))))"

definition acknowledge_rows :: "sync_lib \<Rightarrow> string \<Rightarrow> json list \<Rightarrow> string list \<Rightarrow> replica \<Rightarrow> py_error + (replica \<times> nat \<times> nat)" where
  "acknowledge_rows L device receipts selected R =
     require (map_of (rp_receipts R) device \<noteq> None \<or> length (rp_receipts R) < MAX_ACTORS) (Raised ''sync_device_limit'') (
     bnd (confirm L R selected [] receipts (receipts_of R device, 0)) (\<lambda>(saved, confirmed).
     Inr (R\<lparr>rp_receipts := dict_put device saved (rp_receipts R)\<rparr>, confirmed, length receipts - confirmed)))"

definition source_acknowledge :: "sync_lib \<Rightarrow> string \<Rightarrow> json \<Rightarrow> json \<Rightarrow> json \<Rightarrow> json \<Rightarrow> replica \<Rightarrow> py_error + (replica \<times> nat \<times> nat)" where
  "source_acknowledge L actor device rows receipts scopes R = bnd (actor_id device) (\<lambda>d. bnd (source_scope rows scopes) (\<lambda>selected.
     require (is_list receipts \<and> length (jlist receipts) \<le> MAX_BATCH) (Raised ''sync_batch_limit'') (
     mutate L actor (\<lambda>R. bnd (merge_rows L False selected (jlist rows) R) (\<lambda>(S, _). acknowledge_rows L d (jlist receipts) selected S)) R)))"

definition acknowledge :: "sync_lib \<Rightarrow> string \<Rightarrow> json \<Rightarrow> json \<Rightarrow> json \<Rightarrow> replica \<Rightarrow> py_error + (replica \<times> nat \<times> nat)" where
  "acknowledge L actor device receipts scopes R = bnd (actor_id device) (\<lambda>d. bnd (select_scopes scopes) (\<lambda>selected.
     require (is_list receipts \<and> length (jlist receipts) \<le> MAX_BATCH) (Raised ''sync_batch_limit'') (
     mutate L actor (acknowledge_rows L d (jlist receipts) selected) R)))"

definition forget_device :: "sync_lib \<Rightarrow> string \<Rightarrow> json \<Rightarrow> replica \<Rightarrow> py_error + (replica \<times> bool)" where
  "forget_device L actor device R = bnd (actor_id device) (\<lambda>d.
     mutate L actor (\<lambda>R. Inr (R\<lparr>rp_receipts := dict_del d (rp_receipts R)\<rparr>, map_of (rp_receipts R) d \<noteq> None)) R)"

subsection \<open>Status\<close>

definition held_rows :: "replica \<Rightarrow> json list" where
  "held_rows R = map (\<lambda>(_, row). JObj [(''scope'', JStr (hr_scope row)), (''id'', JStr (hr_id row)), (''code'', JStr (hr_code row))])
     (sort_key fst (rp_quarantine R))"

definition sync_status :: "sync_lib \<Rightarrow> string \<Rightarrow> replica \<Rightarrow> py_error + json" where
  "sync_status L actor R = bnd (read_checks L actor R) (\<lambda>_.
     Inr (JObj [(''quarantined'', JArr (take MAX_BATCH (held_rows R))), (''quarantined_count'', JInt (int (length (held_rows R))))]))"

end
