(* ===== verification/Sync_Convergence.thy ===== *)
theory Sync_Convergence
  imports Sync_Records
begin

section \<open>Replicas converge\<close>

text \<open>
  What a register means: per actor its counter and the value it holds, if any; an erased entity only has counters. Merging
  is the join of a semilattice on these states, so replicas that merged the same registers, in any order and any
  number of times, have the same canonical bytes.
\<close>

subsection \<open>The interface of a mergeable value\<close>

fun merge_all :: "('r \<Rightarrow> 'r \<Rightarrow> 'e + 'r) \<Rightarrow> 'r \<Rightarrow> 'r list \<Rightarrow> 'e + 'r" where
  "merge_all merges x [] = Inr x"
| "merge_all merges x (y # ys) = bnd (merges x y) (\<lambda>z. merge_all merges z ys)"

locale mergeable =
  fixes merges :: "'r \<Rightarrow> 'r \<Rightarrow> 'e + 'r" and ok :: "'r \<Rightarrow> bool" and state :: "'r \<Rightarrow> 's" and join :: "'s \<Rightarrow> 's \<Rightarrow> 's"
  assumes merges_join: "ok l \<Longrightarrow> ok r \<Longrightarrow> merges l r = Inr m \<Longrightarrow> ok m \<and> state m = join (state l) (state r)"
    and join_comm: "join a b = join b a" and join_assoc: "join (join a b) c = join a (join b c)" and join_idem: "join a a = a"
begin

definition below :: "'s \<Rightarrow> 's \<Rightarrow> bool" where
  "below a b \<longleftrightarrow> join a b = b"

lemma below_refl: "below a a"
  by (simp add: below_def join_idem)

lemma below_trans: "below a b \<Longrightarrow> below b c \<Longrightarrow> below a c"
  unfolding below_def by (metis join_assoc)

lemma below_antisym: "below a b \<Longrightarrow> below b a \<Longrightarrow> a = b"
  unfolding below_def by (metis join_comm)

lemma join_upper: "below a (join a b)" "below b (join a b)"
  unfolding below_def by (metis join_assoc join_idem, metis join_assoc join_comm join_idem)

lemma join_least: "below a c \<Longrightarrow> below b c \<Longrightarrow> below (join a b) c"
  unfolding below_def by (metis join_assoc)

text \<open>The result of merging is the least state above those merged.\<close>

lemma merge_all_least:
  "ok x \<Longrightarrow> \<forall>y \<in> set ys. ok y \<Longrightarrow> merge_all merges x ys = Inr z \<Longrightarrow>
     ok z \<and> (\<forall>y \<in> set (x # ys). below (state y) (state z)) \<and> (\<forall>s. (\<forall>y \<in> set (x # ys). below (state y) s) \<longrightarrow> below (state z) s)"
proof (induction ys arbitrary: x)
  case (Cons y ys)
  then obtain m where m: "merges x y = Inr m" "merge_all merges m ys = Inr z" by (auto simp: guard_simps)
  have j: "ok m" "state m = join (state x) (state y)" using merges_join [OF _ _ m(1)] Cons.prems by auto
  from Cons.IH [OF j(1) _ m(2)] Cons.prems(2) have "ok z" "\<forall>v \<in> set (m # ys). below (state v) (state z)"
    "\<forall>s. (\<forall>v \<in> set (m # ys). below (state v) s) \<longrightarrow> below (state z) s" by auto
  note z = this
  have up: "below (state x) (state m)" "below (state y) (state m)" by (simp_all add: j(2) join_upper)
  have "\<forall>v \<in> set (x # y # ys). below (state v) (state z)" using z(2) up below_trans by (auto intro: below_trans)
  moreover have "below (state z) s" if s: "\<forall>v \<in> set (x # y # ys). below (state v) s" for s
    using s z(3) by (simp add: j(2) join_least)
  ultimately show ?case using z(1) by blast
qed (simp add: below_refl)

lemma merge_all_same:
  assumes "ok x" "\<forall>y \<in> set xs. ok y" "merge_all merges x xs = Inr a" "ok x'" "\<forall>y \<in> set xs'. ok y" "merge_all merges x' xs' = Inr b"
    and "set (x # xs) = set (x' # xs')"
  shows "state a = state b"
  using merge_all_least [OF assms(1-3)] merge_all_least [OF assms(4-6)] assms(7) below_antisym by metis

end

subsection \<open>The state of a register\<close>

datatype sync_state = Erased "string \<Rightarrow> int" | Live "string \<Rightarrow> int \<times> json option"

fun join_cell :: "int \<times> json option \<Rightarrow> int \<times> json option \<Rightarrow> int \<times> json option" where
  "join_cell (m, v) (n, w) = (if n < m then (m, v) else if m < n then (n, w) else (m, if v = w then v else None))"

fun join_state :: "sync_state \<Rightarrow> sync_state \<Rightarrow> sync_state" where
  "join_state (Erased c) (Erased d) = Erased (\<lambda>a. max (c a) (d a))"
| "join_state (Erased c) (Live f) = Erased (\<lambda>a. max (c a) (fst (f a)))"
| "join_state (Live f) (Erased d) = Erased (\<lambda>a. max (fst (f a)) (d a))"
| "join_state (Live f) (Live g) = Live (\<lambda>a. join_cell (f a) (g a))"

lemma join_cell_laws: "join_cell a b = join_cell b a" "join_cell (join_cell a b) c = join_cell a (join_cell b c)" "join_cell a a = a"
  "fst (join_cell a b) = max (fst a) (fst b)"
  by (cases a; cases b; cases c; simp add: max_def)+

lemma join_state_laws: "join_state s t = join_state t s" "join_state (join_state s t) u = join_state s (join_state t u)" "join_state s s = s"
proof -
  show "join_state s t = join_state t s" by (cases s; cases t) (auto simp: join_cell_laws(1) max.commute)
  show "join_state (join_state s t) u = join_state s (join_state t u)"
    by (cases s; cases t; cases u) (auto simp: join_cell_laws(2,4) max.assoc)
  show "join_state s s = s" by (cases s) (auto simp: join_cell_laws(3))
qed

definition head_of :: "register \<Rightarrow> string \<Rightarrow> head option" where
  "head_of r a = map_of (map (\<lambda>h. (hd_actor h, h)) (rg_heads r)) a"

definition state_of :: "register \<Rightarrow> sync_state" where
  "state_of r = (if rg_erased r then Erased (counter_of r)
     else Live (\<lambda>a. (counter_of r a, map_option (\<lambda>h. canon (hd_value h)) (head_of r a))))"

definition register_ok :: "register \<Rightarrow> bool" where
  "register_ok r \<longleftrightarrow> dict_ok (rg_clock r) \<and> (\<forall>n \<in> set (dict_vals (rg_clock r)). 1 \<le> n) \<and> distinct (map hd_actor (rg_heads r))
     \<and> (\<forall>h \<in> set (rg_heads r). map_of (rg_clock r) (hd_actor h) = Some (hd_counter h)) \<and> (rg_erased r \<longrightarrow> rg_heads r = [])"

lemma head_of_Some: "register_ok r \<Longrightarrow> head_of r a = Some h \<longleftrightarrow> h \<in> set (rg_heads r) \<and> hd_actor h = a"
  by (auto simp: head_of_def register_ok_def comp_def dest!: map_of_SomeD intro!: map_of_is_SomeI)

lemma head_of_None: "register_ok r \<Longrightarrow> head_of r a = None \<longleftrightarrow> (\<forall>h \<in> set (rg_heads r). hd_actor h \<noteq> a)"
  by (force simp: head_of_def map_of_eq_None_iff)

lemma distinct_dots: "register_ok r \<Longrightarrow> distinct (map dot_of (rg_heads r))"
  by (auto simp: register_ok_def distinct_map dot_of_def inj_on_def)

lemma head_at_head_of:
  assumes "register_ok r"
  shows "head_at r (a, n) = (if counter_of r a = n then head_of r a else None)"
proof (cases "head_at r (a, n)")
  case (Some h)
  then have "h \<in> set (rg_heads r)" "dot_of h = (a, n)" by (auto simp: head_at_def dest!: map_of_SomeD)
  moreover from this have "head_of r a = Some h" using head_of_Some [OF assms] by (simp add: dot_of_def)
  ultimately show ?thesis using assms Some by (auto simp: dot_of_def counter_of_def register_ok_def)
next
  case None
  then have "\<forall>h \<in> set (rg_heads r). dot_of h \<noteq> (a, n)" by (force simp: head_at_def map_of_eq_None_iff)
  with assms have "counter_of r a = n \<longrightarrow> head_of r a = None"
    by (auto simp: head_of_None dot_of_def counter_of_def register_ok_def split: option.splits)
  with None show ?thesis by simp
qed

lemma counter_nonneg: "register_ok r \<Longrightarrow> 0 \<le> counter_of r a"
  by (force simp: counter_of_def register_ok_def dict_vals_def dest!: map_of_SomeD split: option.split)

lemma counter_pos: "register_ok r \<Longrightarrow> a \<in> fst ` set (rg_clock r) \<Longrightarrow> 1 \<le> counter_of r a"
  by (force simp: counter_of_def register_ok_def dict_vals_def map_of_eq_None_iff dest!: map_of_SomeD split: option.split)

lemma head_pos: "register_ok r \<Longrightarrow> h \<in> set (rg_heads r) \<Longrightarrow> 1 \<le> counter_of r (hd_actor h)"
  by (rule counter_pos) (force simp: register_ok_def dest!: map_of_SomeD)+

lemma head_counter: "register_ok r \<Longrightarrow> head_of r a = Some h \<Longrightarrow> hd_counter h = counter_of r a \<and> hd_actor h = a"
  by (auto simp: head_of_Some register_ok_def counter_of_def)

subsection \<open>Merging is the join\<close>

lemma merged_clock_facts:
  assumes "register_ok l" "register_ok r"
  shows "dict_ok (merged_clock l r)" "\<forall>n \<in> set (dict_vals (merged_clock l r)). 1 \<le> n"
    "(case map_of (merged_clock l r) a of None \<Rightarrow> 0 | Some n \<Rightarrow> n) = max (counter_of l a) (counter_of r a)"
    "map_of (merged_clock l r) a = None \<longleftrightarrow> map_of (rg_clock l) a = None \<and> map_of (rg_clock r) a = None"
proof -
  let ?ks = "map fst (rg_clock l) @ filter (\<lambda>a. a \<notin> set (map fst (rg_clock l))) (map fst (rg_clock r))"
  have d: "distinct ?ks" using assms by (auto simp: register_ok_def dict_ok_def)
  then show "dict_ok (merged_clock l r)" by (simp add: merged_clock_def dict_ok_def comp_def)
  have m: "map_of (merged_clock l r) a = (if a \<in> set ?ks then Some (max (counter_of l a) (counter_of r a)) else None)" for a
    unfolding merged_clock_def map_of_map_restrict by (simp add: restrict_map_def)
  show n: "map_of (merged_clock l r) a = None \<longleftrightarrow> map_of (rg_clock l) a = None \<and> map_of (rg_clock r) a = None"
    by (auto simp: m map_of_eq_None_iff)
  show "(case map_of (merged_clock l r) a of None \<Rightarrow> 0 | Some n \<Rightarrow> n) = max (counter_of l a) (counter_of r a)"
    using n by (auto simp: m counter_of_def split: option.split)
  show "\<forall>n \<in> set (dict_vals (merged_clock l r)). 1 \<le> n"
    using counter_pos [OF assms(1)] counter_pos [OF assms(2)] by (force simp: merged_clock_def dict_vals_def max_def)
qed

lemma surviving_iff:
  assumes "register_ok l" "register_ok r"
  shows "h \<in> set (surviving l r) \<longleftrightarrow> head_of l (hd_actor h) = Some h \<and> (counter_of r (hd_actor h) < counter_of l (hd_actor h)
    \<or> counter_of r (hd_actor h) = counter_of l (hd_actor h) \<and> head_of r (hd_actor h) \<noteq> None)"
proof -
  have "h \<in> set (surviving l r) \<longleftrightarrow> head_of l (hd_actor h) = Some h \<and> (head_at r (hd_actor h, hd_counter h) \<noteq> None \<or> counter_of r (hd_actor h) < hd_counter h)"
    using head_of_Some [OF assms(1), of "hd_actor h" h] by (auto simp: surviving_def dot_of_def)
  note survives = this
  show ?thesis
  proof (cases "head_of l (hd_actor h) = Some h")
    case True
    then have "hd_counter h = counter_of l (hd_actor h)" using head_counter [OF assms(1)] by blast
    then show ?thesis unfolding survives head_at_head_of [OF assms(2)] by auto
  qed (simp add: survives)
qed

lemma map_of_fold_put:
  "map_of (fold (\<lambda>h d. dict_put (k h) h d) hs d) x = (case map_of (map (\<lambda>h. (k h, h)) (rev hs)) x of None \<Rightarrow> map_of d x | Some h \<Rightarrow> Some h)"
  by (induction hs arbitrary: d) (auto simp: map_add_def split: option.split)

lemma dict_ok_fold_put: "dict_ok d \<Longrightarrow> dict_ok (fold (\<lambda>h d. dict_put (k h) h d) hs d)"
  by (induction hs arbitrary: d) auto

lemma merged_heads_set:
  assumes "register_ok l" "register_ok r"
  shows "(x, h) \<in> set (merged_heads l r) \<longleftrightarrow> x = dot_of h
    \<and> (h \<in> set (surviving r l) \<or> h \<in> set (surviving l r) \<and> dot_of h \<notin> dot_of ` set (surviving r l))"
proof -
  have d: "distinct (map dot_of (surviving l r))" "distinct (map dot_of (surviving r l))"
    using distinct_dots [OF assms(1)] distinct_dots [OF assms(2)] by (simp_all add: surviving_def distinct_map_filter)
  have pick: "map_of (map (\<lambda>h. (dot_of h, h)) (rev hs)) x = Some h \<longleftrightarrow> h \<in> set hs \<and> dot_of h = x" if "distinct (map dot_of hs)" for hs
  proof -
    have "distinct (map fst (map (\<lambda>h. (dot_of h, h)) (rev hs)))" using that by (simp add: comp_def rev_map [symmetric])
    from map_of_eq_Some_iff [OF this] show ?thesis by auto
  qed
  have none: "map_of (map (\<lambda>h. (dot_of h, h)) (rev hs)) x = None \<longleftrightarrow> x \<notin> dot_of ` set hs" for hs
    by (force simp: map_of_eq_None_iff)
  have ok: "dict_ok (merged_heads l r)" unfolding merged_heads_def by (rule dict_ok_fold_put) simp
  have "(x, h) \<in> set (merged_heads l r) \<longleftrightarrow> map_of (merged_heads l r) x = Some h"
    using ok by (auto simp: dict_ok_map_of dest: map_of_SomeD)
  also have "\<dots> \<longleftrightarrow> map_of (map (\<lambda>h. (dot_of h, h)) (rev (surviving r l))) x = Some h
      \<or> map_of (map (\<lambda>h. (dot_of h, h)) (rev (surviving r l))) x = None \<and> map_of (map (\<lambda>h. (dot_of h, h)) (rev (surviving l r))) x = Some h"
    by (auto simp: merged_heads_def map_of_fold_put map_add_Some_iff split: option.splits)
  finally show ?thesis unfolding pick [OF d(1)] pick [OF d(2)] none by blast
qed

lemma canon_head: "canon (head_json h) = canon (head_json g) \<longleftrightarrow> hd_actor h = hd_actor g \<and> hd_counter h = hd_counter g \<and> canon (hd_value h) = canon (hd_value g)"
proof
  assume e: "canon (head_json h) = canon (head_json g)"
  have "map_option canon (jget k (head_json h)) = map_option canon (jget k (head_json g))" for k
    using e jget_canon [of k] by metis
  from this [of "''actor''"] this [of "''counter''"] this [of "''value''"]
  show "hd_actor h = hd_actor g \<and> hd_counter h = hd_counter g \<and> canon (hd_value h) = canon (hd_value g)"
    by (simp add: head_json_def jget_def)
qed (simp add: head_json_def)

definition merged_list :: "register \<Rightarrow> register \<Rightarrow> head list" where
  "merged_list l r = map snd (sort_key (\<lambda>e. fst (fst e)) (sort_key (\<lambda>e. snd (fst e)) (merged_heads l r)))"

lemma merged_list_facts:
  assumes "register_ok l" "register_ok r"
  shows "h \<in> set (merged_list l r) \<longleftrightarrow> h \<in> set (surviving r l) \<or> h \<in> set (surviving l r) \<and> dot_of h \<notin> dot_of ` set (surviving r l)"
    "h \<in> set (merged_list l r) \<Longrightarrow> hd_counter h = max (counter_of l (hd_actor h)) (counter_of r (hd_actor h))"
    "distinct (map hd_actor (merged_list l r))" "sorted (map hd_actor (merged_list l r))"
proof -
  let ?es = "sort_key (\<lambda>e. fst (fst e)) (sort_key (\<lambda>e. snd (fst e)) (merged_heads l r))"
  note m = merged_heads_set [OF assms]
  show "h \<in> set (merged_list l r) \<longleftrightarrow> h \<in> set (surviving r l) \<or> h \<in> set (surviving l r) \<and> dot_of h \<notin> dot_of ` set (surviving r l)" for h
    by (simp add: merged_list_def image_iff m Bex_def)
  then show c: "hd_counter h = max (counter_of l (hd_actor h)) (counter_of r (hd_actor h))" if "h \<in> set (merged_list l r)" for h
    using that head_counter [OF assms(1), of "hd_actor h" h] head_counter [OF assms(2), of "hd_actor h" h]
    by (auto simp: surviving_iff [OF assms] surviving_iff [OF assms(2,1)])
  have k: "\<forall>e \<in> set ?es. fst e = dot_of (snd e)" by (auto simp: m)
  have "dict_ok (merged_heads l r)" unfolding merged_heads_def by (rule dict_ok_fold_put) simp
  then have "distinct (map fst ?es)" by (simp add: dict_ok_def distinct_map)
  moreover have "map fst ?es = map dot_of (merged_list l r)" using k by (simp add: merged_list_def)
  ultimately have "distinct (merged_list l r)" "inj_on dot_of (set (merged_list l r))" by (simp_all add: distinct_map)
  then show "distinct (map hd_actor (merged_list l r))" using c by (auto simp: distinct_map inj_on_def dot_of_def)
  have "map hd_actor (merged_list l r) = map (\<lambda>e. fst (fst e)) ?es" using k by (simp add: merged_list_def dot_of_def)
  then show "sorted (map hd_actor (merged_list l r))" by (simp only: sorted_sort_key)
qed

lemma merge_registers_ok:
  assumes ok: "register_ok l" "register_ok r" and m: "merge_registers l r = Inr m"
  shows "register_ok m" "sorted (map hd_actor (rg_heads m))" "counter_of m a = max (counter_of l a) (counter_of r a)"
    "rg_erased m \<longleftrightarrow> rg_erased l \<or> rg_erased r"
    "\<not> rg_erased m \<Longrightarrow> head_of m a = (if counter_of r a < counter_of l a then head_of l a else if counter_of l a < counter_of r a then head_of r a
       else if head_of l a = None then None else head_of r a)"
proof -
  have c: "rg_clock m = merged_clock l r" "rg_heads m = (if rg_erased m then [] else merged_list l r)"
    using m by (auto simp: merge_registers_def guard_simps merged_list_def split: if_splits)
  show e: "rg_erased m \<longleftrightarrow> rg_erased l \<or> rg_erased r"
    using m by (auto simp: merge_registers_def guard_simps split: if_splits)
  show n: "counter_of m a = max (counter_of l a) (counter_of r a)" for a
    unfolding counter_of_def [of m] c(1) by (rule merged_clock_facts(3) [OF ok])
  note f = merged_list_facts [OF ok]
  show "sorted (map hd_actor (rg_heads m))" using c(2) f(4) by simp
  have "map_of (rg_clock m) (hd_actor h) = Some (hd_counter h)" if "h \<in> set (merged_list l r)" for h
  proof -
    have "1 \<le> max (counter_of l (hd_actor h)) (counter_of r (hd_actor h))"
      using that f(1) [of h] head_pos [OF ok(1), of h] head_pos [OF ok(2), of h] by (auto simp: surviving_def)
    then show ?thesis using n [of "hd_actor h"] f(2) [OF that] by (auto simp: counter_of_def [of m] split: option.splits)
  qed
  then show ok': "register_ok m"
    using merged_clock_facts(1,2) [OF ok] f(3) c by (auto simp: register_ok_def)
  assume live: "\<not> rg_erased m"
  then have "rg_heads m = merged_list l r" by (simp add: c(2))
  then have h: "head_of m a = Some h \<longleftrightarrow> hd_actor h = a \<and> (h \<in> set (surviving r l) \<or> h \<in> set (surviving l r) \<and> dot_of h \<notin> dot_of ` set (surviving r l))" for h
    by (auto simp: head_of_Some [OF ok'] f(1))
  have dot: "dot_of h \<in> dot_of ` set (surviving r l) \<longleftrightarrow> counter_of l a = counter_of r a \<and> head_of r a \<noteq> None"
    if "h \<in> set (surviving l r)" "hd_actor h = a" for h
  proof -
    have l: "head_of l a = Some h" "hd_counter h = counter_of l a" "counter_of r a \<le> counter_of l a"
      using that head_counter [OF ok(1), of a h] by (auto simp: surviving_iff [OF ok])
    have s: "g \<in> set (surviving r l) \<and> dot_of g = dot_of h \<longleftrightarrow> head_of r a = Some g \<and> counter_of l a = counter_of r a" for g
      using l that(2) head_counter [OF ok(2), of a g] by (auto simp: dot_of_def surviving_iff [OF ok(2,1)])
    have "dot_of h \<in> dot_of ` set (surviving r l) \<longleftrightarrow> (\<exists>g. g \<in> set (surviving r l) \<and> dot_of g = dot_of h)"
      by (auto intro: image_eqI [OF sym])
    then show ?thesis unfolding s by blast
  qed
  show "head_of m a = (if counter_of r a < counter_of l a then head_of l a else if counter_of l a < counter_of r a then head_of r a
       else if head_of l a = None then None else head_of r a)" (is "_ = ?x")
  proof -
    have "head_of m a = Some h \<longleftrightarrow> ?x = Some h" for h
      using head_counter [OF ok(1), of a h] head_counter [OF ok(2), of a h] dot [of h]
      by (auto simp: h surviving_iff [OF ok] surviving_iff [OF ok(2,1)])
    then show ?thesis by (metis option.exhaust)
  qed
qed


text \<open>Heads with one dot hold one value, so the merged state is the join.\<close>

lemma merge_registers_state:
  assumes ok: "register_ok l" "register_ok r" and m: "merge_registers l r = Inr m"
  shows "state_of m = join_state (state_of l) (state_of r)"
proof (cases "rg_erased m")
  case True
  note f = merge_registers_ok(1,3,4) [OF ok m]
  have c: "counter_of m = (\<lambda>a. max (counter_of l a) (counter_of r a))" by (rule ext) (rule f(2))
  show ?thesis using True f(3) by (cases "rg_erased l"; cases "rg_erased r") (simp_all only: state_of_def c join_state.simps if_True if_False simp_thms fst_conv)
next
  case False
  note f = merge_registers_ok(1,3,4) [OF ok m] and h = merge_registers_ok(5) [OF ok m False]
  have live: "\<not> rg_erased l" "\<not> rg_erased r" using False f(3) by auto
  have same: "canon (hd_value u) = canon (hd_value v)"
    if "head_of l a = Some u" "head_of r a = Some v" "counter_of l a = counter_of r a" for a u v
  proof -
    have u: "u \<in> set (rg_heads l)" "hd_actor u = a" "hd_counter u = counter_of r a"
      using iffD1 [OF head_of_Some [OF ok(1)] that(1)] head_counter [OF ok(1) that(1)] that(3) by simp_all
    then have "head_at r (dot_of u) = Some v" using that by (simp add: dot_of_def head_at_head_of [OF ok(2)])
    moreover have "list_all (\<lambda>h. case head_at r (dot_of h) of None \<Rightarrow> True
           | Some g \<Rightarrow> canonical_json (head_json h) = canonical_json (head_json g)) (rg_heads l)"
      using m live by (simp add: merge_registers_def guard_simps)
    ultimately have "canonical_json (head_json u) = canonical_json (head_json v)" using u(1) by (auto simp: list_all_iff)
    then show ?thesis using canonical_json_inj canon_head by blast
  qed
  have "(counter_of m a, map_option (\<lambda>h. canon (hd_value h)) (head_of m a))
      = join_cell (counter_of l a, map_option (\<lambda>h. canon (hd_value h)) (head_of l a)) (counter_of r a, map_option (\<lambda>h. canon (hd_value h)) (head_of r a))" for a
  proof (cases "head_of l a = None \<or> head_of r a = None")
    case True
    then show ?thesis by (auto simp: f(2) h max_def)
  next
    case False
    then obtain u v where uv: "head_of l a = Some u" "head_of r a = Some v" by auto
    show ?thesis
    proof (cases "counter_of l a = counter_of r a")
      case True
      then show ?thesis using same [OF uv True] by (simp add: f(2) h uv)
    qed (auto simp: f(2) h uv max_def)
  qed
  with False live show ?thesis by (simp add: state_of_def)
qed

end
