(* ===== verification/Sync_Replicas.thy ===== *)
theory Sync_Replicas
  imports Sync_Convergence Mailbox_Guarantees Approval_Safety
begin

section \<open>Valid registers and the records replicas exchange\<close>

text \<open>
  What \<open>validate\<close> guarantees of a record, that a merge of valid records is valid again, and the convergence of replicas
  over the JSON records themselves.
\<close>

subsection \<open>What validation guarantees\<close>

definition clock_json :: "(string, int) dict \<Rightarrow> (string, json) dict" where
  "clock_json c = map (\<lambda>(a, n). (a, JInt n)) c"

definition clock_ok :: "(string, int) dict \<Rightarrow> bool" where
  "clock_ok c \<longleftrightarrow> (\<forall>(a, n) \<in> set c. hex_text 64 a \<and> 1 \<le> n \<and> n \<le> MAX_COUNTER)"

lemma actor_id_Inr: "actor_id j = Inr a \<longleftrightarrow> j = JStr a \<and> hex_text 64 a"
  by (cases j) (auto simp: actor_id_def guard_simps)

lemma read_clock_iff: "read_clock_dict d = Inr c \<longleftrightarrow> d = clock_json c \<and> clock_ok c"
proof (induction d arbitrary: c)
  case Nil
  then show ?case by (cases c) (auto simp: clock_json_def clock_ok_def)
next
  case (Cons e d)
  obtain a v where e: "e = (a, v)" by (cases e)
  have "read_clock_dict (e # d) = Inr c \<longleftrightarrow> (\<exists>n c'. hex_text 64 a \<and> v = JInt n \<and> 1 \<le> n \<and> n \<le> MAX_COUNTER \<and> d = clock_json c' \<and> clock_ok c' \<and> c = (a, n) # c')"
    by (cases v) (auto simp: e guard_simps actor_id_Inr Cons.IH)
  also have "\<dots> \<longleftrightarrow> e # d = clock_json c \<and> clock_ok c"
    by (cases c) (auto simp: e clock_json_def clock_ok_def)
  finally show ?case .
qed

definition head_ok :: "sync_lib \<Rightarrow> string \<Rightarrow> string \<Rightarrow> (string, int) dict \<Rightarrow> head \<Rightarrow> bool" where
  "head_ok L scope identifier clock h \<longleftrightarrow> hex_text 64 (hd_actor h) \<and> map_of clock (hd_actor h) = Some (hd_counter h)
     \<and> (\<exists>v. clean_value L scope identifier (hd_value h) = Inr v \<and> canon v = canon (hd_value h))"

definition head_reads :: "json \<Rightarrow> head \<Rightarrow> bool" where
  "head_reads j h \<longleftrightarrow> is_obj j \<and> keys_are j [''actor'', ''counter'', ''value''] \<and> jfield ''actor'' j = JStr (hd_actor h)
     \<and> jfield ''counter'' j = JInt (hd_counter h) \<and> jfield ''value'' j = hd_value h"

lemma read_heads_Cons:
  "read_heads L scope identifier clock seen (j # js) = Inr hs \<longleftrightarrow> (\<exists>h t. hs = h # t \<and> head_reads j h \<and> head_ok L scope identifier clock h
     \<and> hd_actor h \<notin> set seen \<and> read_heads L scope identifier clock (hd_actor h # seen) js = Inr t)" (is "?l \<longleftrightarrow> ?r")
proof
  assume ?l
  then obtain a v t where f: "is_obj j" "keys_are j [''actor'', ''counter'', ''value'']" "jfield ''actor'' j = JStr a" "hex_text 64 a"
    "a \<notin> set seen" "map_of clock a \<noteq> None" "jfield ''counter'' j = JInt (the (map_of clock a))"
    "clean_value L scope identifier (jfield ''value'' j) = Inr v" "canon v = canon (jfield ''value'' j)"
    "read_heads L scope identifier clock (a # seen) js = Inr t"
    "hs = \<lparr>hd_actor = a, hd_counter = the (map_of clock a), hd_value = jfield ''value'' j\<rparr> # t"
    unfolding read_heads.simps require_Inr bnd_Inr actor_id_Inr by blast
  then show ?r by (auto simp: head_reads_def head_ok_def)
next
  assume ?r
  then obtain h t v where f: "hs = h # t" "head_reads j h" "hex_text 64 (hd_actor h)" "map_of clock (hd_actor h) = Some (hd_counter h)"
    "clean_value L scope identifier (hd_value h) = Inr v" "canon v = canon (hd_value h)" "hd_actor h \<notin> set seen"
    "read_heads L scope identifier clock (hd_actor h # seen) js = Inr t" by (auto simp: head_ok_def)
  have a: "actor_id (jfield ''actor'' j) = Inr (hd_actor h)" using f(2,3) by (simp add: actor_id_Inr head_reads_def)
  show ?l using f by (simp add: a) (simp add: head_reads_def)
qed

lemma read_heads_iff:
  "read_heads L scope identifier clock seen js = Inr hs \<longleftrightarrow> list_all2 head_reads js hs \<and> list_all (head_ok L scope identifier clock) hs
     \<and> distinct (map hd_actor hs) \<and> set (map hd_actor hs) \<inter> set seen = {}"
proof (induction js arbitrary: seen hs)
  case (Cons j js)
  show ?case unfolding read_heads_Cons Cons.IH by (cases hs) auto
qed auto


subsection \<open>The canonical form of a record\<close>

lemma canon_obj_eq:
  assumes ok: "dict_ok d" "dict_ok e" and same: "\<And>k. map_option canon (map_of d k) = map_option canon (map_of e k)"
  shows "canon (JObj d) = canon (JObj e)"
proof -
  let ?c = "map (map_prod id canon)"
  have m: "map_of (?c x) k = map_option canon (map_of x k)" for x :: "(string, json) dict" and k
    by (induction x) auto
  have fst: "map fst (?c x) = map fst x" for x :: "(string, json) dict"
    by simp
  have d: "distinct (map fst (?c d))" "distinct (map fst (?c e))" using ok by (simp_all only: fst dict_ok_def)
  have "set (?c d) = set (?c e)"
  proof (rule set_eqI)
    fix p
    show "p \<in> set (?c d) \<longleftrightarrow> p \<in> set (?c e)"
      using map_of_eq_Some_iff [OF d(1), of "fst p" "snd p"] map_of_eq_Some_iff [OF d(2), of "fst p" "snd p"] same by (simp only: m prod.collapse)
  qed
  moreover have "inj_on fst (set (?c d))" using d(1) unfolding distinct_map [of fst] by blast
  then have "inj_on fst (set (?c d) \<union> set (?c e))" using calculation by (simp only: Un_absorb)
  moreover have "distinct (map fst (sort_key fst (?c d)))" "distinct (map fst (sort_key fst (?c e)))"
    using dict_ok_sorted d unfolding dict_ok_def by blast+
  ultimately have "sort_key fst (?c d) = sort_key fst (?c e)"
    by (intro map_sorted_distinct_set_unique [of fst]) (simp_all only: set_sort sorted_sort_key)
  then show ?thesis by simp
qed

lemma canon_head_reads: "json_ok j \<Longrightarrow> head_reads j h \<Longrightarrow> canon j = canon (head_json h)"
proof -
  assume j: "json_ok j" "head_reads j h"
  then obtain d where d: "j = JObj d" "dict_ok d" "set (map fst d) = {''actor'', ''counter'', ''value''}"
    by (cases j) (auto simp: head_reads_def is_obj_def keys_are_def jkeys_def)
  let ?e = "[(''actor'', JStr (hd_actor h)), (''counter'', JInt (hd_counter h)), (''value'', hd_value h)]"
  have "map_of d k = map_of ?e k" for k
  proof (cases "k \<in> set (map fst d)")
    case True
    then obtain v where v: "map_of d k = Some v" by (metis map_of_eq_None_iff not_None_eq set_map)
    then have "jfield k j = v" by (simp add: d(1) jfield_def jget_def)
    with v True j(2) d(3) show ?thesis by (auto simp: head_reads_def)
  next
    case False
    then have "map_of d k = None" "map_of ?e k = None" using d(3) by (auto simp: map_of_eq_None_iff)
    then show ?thesis by simp
  qed
  then show ?thesis unfolding d(1) head_json_def using d(2) by (intro canon_obj_eq) simp_all
qed

text \<open>A record that passes, and that it stands for the register read.\<close>

definition valid_register :: "sync_lib \<Rightarrow> string \<Rightarrow> string \<Rightarrow> register \<Rightarrow> bool" where
  "valid_register L scope identifier r \<longleftrightarrow> scope_id (JStr scope) = Inr scope \<and> entity_id (JStr identifier) = Inr identifier
     \<and> length (rg_clock r) \<le> MAX_ACTORS \<and> length (rg_heads r) \<le> MAX_ACTORS \<and> clock_ok (rg_clock r) \<and> dict_ok (rg_clock r)
     \<and> list_all (head_ok L scope identifier (rg_clock r)) (rg_heads r) \<and> distinct (map hd_actor (rg_heads r))
     \<and> (rg_erased r \<longrightarrow> scope = ''conversations'' \<and> rg_heads r = []) \<and> length (canonical_json (register_json r)) \<le> MAX_RECORD_BYTES
     \<and> check_binding scope (map hd_value (rg_heads r)) = Inr () \<and> list_all (\<lambda>h. json_ok (hd_value h)) (rg_heads r)"

lemma scope_id_Inr: "scope_id j = Inr s \<longleftrightarrow> j = JStr s \<and> s \<in> set SCOPES"
  by (cases j) (auto simp: scope_id_def guard_simps)

lemma entity_id_Inr: "entity_id j = Inr s \<longleftrightarrow> j = JStr s \<and> 0 < length s \<and> length s \<le> 256 \<and> \<not> has_control s"
  by (cases j) (auto simp: entity_id_def guard_simps)

lemma register_fields:
  "is_obj (register_json r)" "keys_are (register_json r) [''clock'', ''heads'', ''erased'']" "jfield ''clock'' (register_json r) = JObj (clock_json (rg_clock r))"
  "jfield ''heads'' (register_json r) = JArr (map head_json (rg_heads r))" "jfield ''erased'' (register_json r) = JBool (rg_erased r)"
  by (simp_all add: register_json_def is_obj_def keys_are_def jkeys_def jfield_def jget_def clock_json_def)

lemma head_reads_json: "head_reads (head_json h) h"
  by (simp add: head_reads_def head_json_def is_obj_def keys_are_def jkeys_def jfield_def jget_def)

lemma validate_register_json:
  assumes "valid_register L scope identifier r"
  shows "validate L scope identifier (register_json r) = Inr r"
proof -
  have h: "read_heads L scope identifier (rg_clock r) [] (map head_json (rg_heads r)) = Inr (rg_heads r)"
    using assms by (simp add: read_heads_iff valid_register_def list_all2_map1 head_reads_json list.rel_refl)
  have c: "read_clock_dict (clock_json (rg_clock r)) = Inr (rg_clock r)" using assms by (simp add: read_clock_iff valid_register_def)
  have k: "length (jkeys (JObj (clock_json (rg_clock r)))) = length (rg_clock r)" by (simp add: jkeys_def clock_json_def)
  have g: "scope_id (JStr scope) = Inr scope" "entity_id (JStr identifier) = Inr identifier" "length (rg_clock r) \<le> MAX_ACTORS"
    "length (rg_heads r) \<le> MAX_ACTORS" "rg_erased r \<longrightarrow> scope = ''conversations'' \<and> rg_heads r = []"
    "length (canonical_json (register_json r)) \<le> MAX_RECORD_BYTES" "check_binding scope (map hd_value (rg_heads r)) = Inr ()"
    using assms by (simp_all add: valid_register_def)
  have o: "is_obj (JObj x)" "is_list (JArr y)" "is_bool (JBool b)" "jlist (JArr y) = y" for x y b
    by (simp_all add: is_obj_def is_list_def is_bool_def jlist_def)
  show ?thesis unfolding validate_def Let_def register_fields
    by (simp only: g k c h o register_fields bnd_simps json.case length_map require_simps simp_thms json.inject) (use g(5) in auto)
qed


lemma list_all2_heads:
  assumes "list_all2 head_reads js hs" "list_all json_ok js"
  shows "map canon js = map (\<lambda>h. canon (head_json h)) hs" "list_all (\<lambda>h. json_ok (hd_value h)) hs"
proof -
  have v: "json_ok (hd_value h)" if j: "json_ok j" "head_reads j h" for j h
  proof -
    obtain d where d: "j = JObj d" using j(2) by (cases j) (auto simp: head_reads_def is_obj_def)
    moreover have "hd_value h = jfield ''value'' j" "''value'' \<in> set (jkeys j)" using j(2) by (simp_all add: head_reads_def keys_are_def)
    ultimately have "(''value'', hd_value h) \<in> set d"
      by (auto simp: jfield_def jget_def jkeys_def map_of_eq_None_iff dest: map_of_SomeD split: option.splits)
    then show ?thesis using j(1) d by (force simp: list_all_iff)
  qed
  from assms show "map canon js = map (\<lambda>h. canon (head_json h)) hs" by induction (auto simp: canon_head_reads)
  from assms show "list_all (\<lambda>h. json_ok (hd_value h)) hs" by induction (auto intro: v)
qed

lemma validate_Inr:
  assumes "validate L scope identifier rec = Inr r"
  shows "scope_id (JStr scope) = Inr scope" "entity_id (JStr identifier) = Inr identifier"
    "is_obj rec" "keys_are rec [''clock'', ''heads'', ''erased'']"
    "is_obj (jfield ''clock'' rec)" "length (jkeys (jfield ''clock'' rec)) \<le> MAX_ACTORS" "is_list (jfield ''heads'' rec)"
    "length (jlist (jfield ''heads'' rec)) \<le> MAX_ACTORS" "is_bool (jfield ''erased'' rec)"
    "read_clock_dict (case jfield ''clock'' rec of JObj d \<Rightarrow> d | _ \<Rightarrow> []) = Inr (rg_clock r)"
    "read_heads L scope identifier (rg_clock r) [] (jlist (jfield ''heads'' rec)) = Inr (rg_heads r)"
    "rg_erased r \<longrightarrow> scope = ''conversations'' \<and> rg_heads r = []"
    "length (canonical_json rec) \<le> MAX_RECORD_BYTES" "check_binding scope (map hd_value (rg_heads r)) = Inr ()"
    "rg_erased r \<longleftrightarrow> jfield ''erased'' rec = JBool True"
  using assms unfolding validate_def Let_def require_Inr bnd_Inr by (auto simp: scope_id_Inr entity_id_Inr simp del: One_nat_def)

lemma validate_facts:
  assumes j: "json_ok rec" and v: "validate L scope identifier rec = Inr r"
  shows "valid_register L scope identifier r" "canon rec = canon (register_json r)"
proof -
  note g = validate_Inr [OF v]
  let ?c = "rg_clock r" and ?hs = "rg_heads r"
  obtain d where d: "rec = JObj d" "dict_ok d" "set (map fst d) = {''clock'', ''heads'', ''erased''}"
    using j g(3,4) by (cases rec) (auto simp: is_obj_def keys_are_def jkeys_def)
  obtain cd where cd: "jfield ''clock'' rec = JObj cd" using g(5) by (cases "jfield ''clock'' rec") (auto simp: is_obj_def)
  obtain js where js: "jfield ''heads'' rec = JArr js" using g(7) by (cases "jfield ''heads'' rec") (auto simp: is_list_def)
  obtain b where b: "jfield ''erased'' rec = JBool b" using g(9) by (cases "jfield ''erased'' rec") (auto simp: is_bool_def)
  have m: "map_of d k = (if k \<in> {''clock'', ''heads'', ''erased''} then Some (jfield k rec) else None)" for k
    unfolding d(3) [symmetric] by (auto simp: d(1) jfield_def jget_def map_of_eq_None_iff split: option.split)
  have sub: "json_ok (jfield k rec)" if "k \<in> {''clock'', ''heads'', ''erased''}" for k
  proof -
    have "(k, jfield k rec) \<in> set d" using m [of k] that by (metis map_of_SomeD)
    then show ?thesis using j by (force simp: d(1) list_all_iff)
  qed
  have c: "cd = clock_json ?c" "clock_ok ?c" using g(10) by (simp_all add: cd read_clock_iff)
  have h: "list_all2 head_reads js ?hs" "list_all (head_ok L scope identifier ?c) ?hs" "distinct (map hd_actor ?hs)"
    using g(11) by (simp_all add: js jlist_def read_heads_iff)
  have jh: "list_all json_ok js" using sub [of "''heads''"] by (simp add: js)
  note hc = list_all2_heads [OF h(1) jh]
  have "dict_ok (clock_json ?c)" using sub [of "''clock''"] by (simp add: cd c(1))
  then have cok: "dict_ok ?c" by (simp add: clock_json_def dict_ok_def comp_def case_prod_unfold)
  show canon: "canon rec = canon (register_json r)"
    unfolding d(1) register_json_def using d(2)
    by (intro canon_obj_eq) (simp_all add: m cd js b c(1) g(15) clock_json_def hc(1) comp_def)
  have size: "length (canonical_json (register_json r)) \<le> MAX_RECORD_BYTES"
    using g(13) by (simp add: canonical_json_def canon)
  have len: "length ?c \<le> MAX_ACTORS" "length ?hs \<le> MAX_ACTORS"
    using g(6,8) list_all2_lengthD [OF h(1)] by (simp_all add: cd c(1) js jkeys_def jlist_def clock_json_def)
  show "valid_register L scope identifier r"
    unfolding valid_register_def using g(1,2) size len c(2) cok h(2,3) g(12,14) hc(2) by (auto simp: g(15))
qed

lemma valid_register_ok: "valid_register L scope identifier r \<Longrightarrow> register_ok r"
  by (force simp: valid_register_def register_ok_def clock_ok_def dict_vals_def list_all_iff head_ok_def)


lemma clock_json_inj: "clock_json c = clock_json d \<Longrightarrow> c = d"
proof (induction c arbitrary: d)
  case (Cons x c)
  then show ?case by (cases x; cases d) (auto simp: clock_json_def)
qed (simp add: clock_json_def)

lemma heads_json_inj: "list_all2 head_reads (map head_json hs) gs \<Longrightarrow> gs = hs"
proof (induction hs arbitrary: gs)
  case (Cons h hs)
  then obtain g gs' where g: "gs = g # gs'" "head_reads (head_json h) g" "gs' = hs" by (auto simp: list_all2_Cons1)
  then have "g = h" by (cases g; cases h) (simp add: head_reads_def head_json_def jfield_def jget_def)
  with g show ?case by simp
qed simp

lemma validate_json_same:
  assumes "validate L scope identifier (register_json r) = Inr r'"
  shows "r' = r"
proof -
  note g = validate_Inr [OF assms, unfolded register_fields]
  have "rg_clock r' = rg_clock r" using g(10) by (simp add: read_clock_iff clock_json_inj)
  moreover have "rg_heads r' = rg_heads r" using g(11) heads_json_inj by (auto simp: jlist_def read_heads_iff)
  moreover have "rg_erased r' = rg_erased r" using g(15) by simp
  ultimately show ?thesis by simp
qed

lemma json_ok_register:
  assumes "dict_ok (rg_clock r)" "list_all (\<lambda>h. json_ok (hd_value h)) (rg_heads r)"
  shows "json_ok (register_json r)"
  using assms by (auto simp: register_json_def head_json_def list_all_iff dict_ok_def comp_def case_prod_unfold)

subsection \<open>Erased records stay small\<close>

lemma length_show_nat: "n < 10 ^ Suc k \<Longrightarrow> length (show_nat n) \<le> Suc k"
proof (induction k arbitrary: n)
  case 0
  then show ?case by (subst show_nat.simps) simp
next
  case (Suc k)
  show ?case
  proof (cases "n < 10")
    case False
    then have "length (show_nat (n div 10)) \<le> Suc k" using Suc.prems by (intro Suc.IH) auto
    then show ?thesis using False by (subst show_nat.simps) simp
  qed (subst show_nat.simps, simp)
qed

lemma erased_size:
  assumes "clock_ok c" "length c \<le> MAX_ACTORS"
  shows "length (canonical_json (register_json \<lparr>rg_clock = c, rg_heads = [], rg_erased = e\<rparr>)) \<le> MAX_RECORD_BYTES"
proof -
  have n: "length (show_int n) \<le> 17" if "1 \<le> n" "n \<le> MAX_COUNTER" for n
    using that length_show_nat [of "nat n" 16] by (simp add: show_int_def MAX_COUNTER_def)
  have "sum_list (map (\<lambda>(k, v). 6 * length k + 4 + jsize v) (clock_json c)) \<le> 405 * length c"
    using assms(1)
  proof (induction c)
    case (Cons e c)
    obtain a k where e: "e = (a, k)" by (cases e)
    have "length (show_int k) \<le> 17" "length a = 64" using Cons.prems n [of k] by (auto simp: e clock_ok_def hex_text_def)
    moreover have "clock_ok c" using Cons.prems by (simp add: clock_ok_def)
    ultimately show ?case using Cons.IH by (simp add: e clock_json_def)
  qed (simp add: clock_json_def)
  moreover have "length c \<le> 64" using assms(2) by (simp add: MAX_ACTORS_def)
  ultimately have "jsize (JObj (clock_json c)) \<le> 26000" by simp
  then have "jsize (register_json \<lparr>rg_clock = c, rg_heads = [], rg_erased = e\<rparr>) \<le> 27000"
    by (simp add: register_json_def clock_json_def)
  then show ?thesis using length_canonical [of "register_json \<lparr>rg_clock = c, rg_heads = [], rg_erased = e\<rparr>"] by (simp add: MAX_RECORD_BYTES_def)
qed


subsection \<open>Merging valid records\<close>

lemma merged_clock_ok:
  assumes "register_ok l" "register_ok r" "clock_ok (rg_clock l)" "clock_ok (rg_clock r)"
  shows "clock_ok (merged_clock l r)"
proof -
  have c: "counter_of x a \<le> MAX_COUNTER" if "clock_ok (rg_clock x)" for x a
    using that by (force simp: counter_of_def clock_ok_def MAX_COUNTER_def dest!: map_of_SomeD split: option.split)
  have "1 \<le> max (counter_of l a) (counter_of r a) \<and> max (counter_of l a) (counter_of r a) \<le> MAX_COUNTER \<and> hex_text 64 a"
    if "a \<in> fst ` set (rg_clock l) \<or> a \<in> fst ` set (rg_clock r)" for a
  proof -
    have "1 \<le> counter_of l a \<or> 1 \<le> counter_of r a" using that counter_pos [OF assms(1)] counter_pos [OF assms(2)] by blast
    moreover have "hex_text 64 a" using that assms(3,4) by (auto simp: clock_ok_def)
    ultimately show ?thesis using c [OF assms(3), of a] c [OF assms(4), of a] by auto
  qed
  note bound = this
  show ?thesis unfolding clock_ok_def merged_clock_def
  proof safe
    fix a n
    assume "(a, n) \<in> set (map (\<lambda>a. (a, max (counter_of l a) (counter_of r a)))
      (map fst (rg_clock l) @ filter (\<lambda>a. a \<notin> set (map fst (rg_clock l))) (map fst (rg_clock r))))"
    then have "n = max (counter_of l a) (counter_of r a)" "a \<in> fst ` set (rg_clock l) \<or> a \<in> fst ` set (rg_clock r)" by auto
    with bound [of a] show "hex_text 64 a" "1 \<le> n" "n \<le> MAX_COUNTER" by simp_all
  qed
qed

lemma merge_facts:
  assumes json: "json_ok x" "json_ok y" and m: "merge L scope identifier x y = Inr z"
  obtains l r rm where "validate L scope identifier x = Inr l" "validate L scope identifier y = Inr r"
    "valid_register L scope identifier l" "valid_register L scope identifier r"
    "merge_registers l r = Inr rm" "z = register_json rm" "valid_register L scope identifier rm" "json_ok z"
proof -
  obtain l r rm where v: "validate L scope identifier x = Inr l" "validate L scope identifier y = Inr r"
    and g: "merge_registers l r = Inr rm" "z = register_json rm" "\<not> rg_erased rm \<longrightarrow> validate L scope identifier (register_json rm) \<noteq> Inl e" for e
    using m by (auto simp: merge_def guard_simps split: if_splits)
  note l = validate_facts(1) [OF json(1) v(1)] and r = validate_facts(1) [OF json(2) v(2)]
  note ok = valid_register_ok [OF l] valid_register_ok [OF r]
  have c: "rg_clock rm = merged_clock l r" "length (rg_clock rm) \<le> MAX_ACTORS" "rg_heads rm = (if rg_erased rm then [] else merged_list l r)"
    using g(1) by (auto simp: merge_registers_def guard_simps merged_list_def split: if_splits)
  have "list_all (\<lambda>h. json_ok (hd_value h)) (rg_heads rm)"
    using l r by (auto simp: c(3) list_all_iff merged_list_facts(1) [OF ok] surviving_def valid_register_def)
  then have z: "json_ok z" unfolding g(2) using merged_clock_facts(1) [OF ok] by (intro json_ok_register) (simp_all add: c(1))
  have "valid_register L scope identifier rm"
  proof (cases "rg_erased rm")
    case False
    then obtain r' where r': "validate L scope identifier (register_json rm) = Inr r'"
      using g(3) by (cases "validate L scope identifier (register_json rm)") auto
    from validate_facts(1) [OF z [unfolded g(2)] r'] validate_json_same [OF r'] show ?thesis by simp
  next
    case True
    moreover from this have "rg_erased l \<or> rg_erased r" using merge_registers_ok(4) [OF ok g(1)] by simp
    moreover have k: "clock_ok (rg_clock rm)" using merged_clock_ok [OF ok] l r by (simp add: c(1) valid_register_def)
    moreover have "rm = \<lparr>rg_clock = rg_clock rm, rg_heads = [], rg_erased = True\<rparr>" using True c(3) by (cases rm) simp
    with erased_size [OF k c(2), of True] have "length (canonical_json (register_json rm)) \<le> MAX_RECORD_BYTES" by metis
    ultimately show ?thesis using c l r merged_clock_facts(1) [OF ok] by (auto simp: valid_register_def check_binding_def)
  qed
  with that v l r g(1,2) z show thesis by blast
qed


subsection \<open>Replicas over the records\<close>

definition sync_ok :: "sync_lib \<Rightarrow> string \<Rightarrow> string \<Rightarrow> json \<Rightarrow> bool" where
  "sync_ok L scope identifier rec \<longleftrightarrow> json_ok rec \<and> (\<exists>r. validate L scope identifier rec = Inr r)"

definition sync_state_of :: "sync_lib \<Rightarrow> string \<Rightarrow> string \<Rightarrow> json \<Rightarrow> sync_state" where
  "sync_state_of L scope identifier rec = (case validate L scope identifier rec of Inl _ \<Rightarrow> Erased (\<lambda>_. 0) | Inr r \<Rightarrow> state_of r)"

text \<open>A record as the program stores it: written from a register with its heads in the order of the actors.\<close>

definition settled :: "sync_lib \<Rightarrow> string \<Rightarrow> string \<Rightarrow> json \<Rightarrow> bool" where
  "settled L scope identifier rec \<longleftrightarrow> (\<exists>r. rec = register_json r \<and> valid_register L scope identifier r \<and> sorted (map hd_actor (rg_heads r)))"

lemma merge_settled:
  assumes "json_ok x" "json_ok y" "merge L scope identifier x y = Inr z"
  shows "settled L scope identifier z" "json_ok z"
proof -
  obtain l r rm where g: "valid_register L scope identifier l" "valid_register L scope identifier r"
    "merge_registers l r = Inr rm" "z = register_json rm" "valid_register L scope identifier rm" "json_ok z"
    using merge_facts [OF assms] by blast
  with merge_registers_ok(2) [OF valid_register_ok valid_register_ok, OF g(1-3)] show "settled L scope identifier z" "json_ok z"
    by (auto simp: settled_def)
qed

lemma settled_validate: "settled L scope identifier rec \<Longrightarrow> \<exists>r. rec = register_json r \<and> validate L scope identifier rec = Inr r
    \<and> register_ok r \<and> sorted (map hd_actor (rg_heads r)) \<and> sync_state_of L scope identifier rec = state_of r"
  by (auto simp: settled_def sync_state_of_def validate_register_json valid_register_ok)

interpretation sync: mergeable "merge L scope ident" "sync_ok L scope ident" "sync_state_of L scope ident" join_state for L scope ident
proof
  fix x y z
  assume x: "sync_ok L scope ident x" and y: "sync_ok L scope ident y" and m: "merge L scope ident x y = Inr z"
  obtain l r rm where g: "validate L scope ident x = Inr l" "validate L scope ident y = Inr r"
    "valid_register L scope ident l" "valid_register L scope ident r"
    "merge_registers l r = Inr rm" "z = register_json rm" "valid_register L scope ident rm" "json_ok z"
    using merge_facts [OF _ _ m] x y by (auto simp: sync_ok_def)
  with merge_registers_state [OF valid_register_ok valid_register_ok, OF g(3-5)]
  show "sync_ok L scope ident z \<and> sync_state_of L scope ident z = join_state (sync_state_of L scope ident x) (sync_state_of L scope ident y)"
    by (simp add: sync_ok_def sync_state_of_def validate_register_json)
qed (fact join_state_laws)+

lemma in_heads: "x \<in> set (map hd_actor (rg_heads r)) \<longleftrightarrow> head_of r x \<noteq> None"
  unfolding head_of_def map_of_eq_None_iff by (simp add: image_image)

lemma heads_by_actor: "register_ok r \<Longrightarrow> rg_heads r = map (\<lambda>a. the (head_of r a)) (map hd_actor (rg_heads r))"
proof -
  assume ok: "register_ok r"
  have "map (\<lambda>h. the (head_of r (hd_actor h))) (rg_heads r) = rg_heads r"
    using head_of_Some [OF ok] by (intro map_idI) (metis option.sel)
  then show ?thesis by (simp add: comp_def)
qed

lemma same_state_same_bytes:
  assumes ok: "register_ok a" "register_ok b" "sorted (map hd_actor (rg_heads a))" "sorted (map hd_actor (rg_heads b))"
    and s: "state_of a = state_of b"
  shows "canonical_json (register_json a) = canonical_json (register_json b)"
proof -
  have e: "rg_erased a = rg_erased b" using s by (simp add: state_of_def split: if_splits)
  have n: "counter_of a x = counter_of b x" for x
    using s by (auto simp: state_of_def fun_eq_iff split: if_splits)
  have none: "map_of (rg_clock r) x = None \<longleftrightarrow> counter_of r x = 0" if "register_ok r" for r x
    using counter_pos [OF that, of x] map_of_eq_None_iff [of "rg_clock r" x]
    by (cases "map_of (rg_clock r) x") (simp_all add: counter_of_def)
  have clock: "map_of (rg_clock a) x = map_of (rg_clock b) x" for x
    using none [OF ok(1), of x] none [OF ok(2), of x] n [of x] by (auto simp: counter_of_def split: option.splits)
  have m: "map_of (clock_json c) x = map_option JInt (map_of c x)" for c x
    by (induction c) (auto simp: clock_json_def)
  have c: "canon (JObj (clock_json (rg_clock a))) = canon (JObj (clock_json (rg_clock b)))"
  proof (rule canon_obj_eq)
    show "dict_ok (clock_json (rg_clock a))" "dict_ok (clock_json (rg_clock b))"
      using ok by (simp_all add: register_ok_def dict_ok_def clock_json_def comp_def case_prod_unfold)
  qed (simp add: m clock)
  have h: "map (\<lambda>h. canon (head_json h)) (rg_heads a) = map (\<lambda>h. canon (head_json h)) (rg_heads b)"
  proof (cases "rg_erased a")
    case False
    have v: "map_option (\<lambda>h. canon (hd_value h)) (head_of a x) = map_option (\<lambda>h. canon (hd_value h)) (head_of b x)" for x
      using s False e by (auto simp: state_of_def fun_eq_iff)
    then have "head_of a x = None \<longleftrightarrow> head_of b x = None" for x by (metis map_option_is_None)
    then have "set (map hd_actor (rg_heads a)) = set (map hd_actor (rg_heads b))" unfolding set_eq_iff in_heads by simp
    then have actors: "map hd_actor (rg_heads a) = map hd_actor (rg_heads b)"
      using ok by (intro sorted_distinct_set_unique) (simp_all add: register_ok_def)
    have "canon (head_json (the (head_of a x))) = canon (head_json (the (head_of b x)))" if x: "x \<in> set (map hd_actor (rg_heads a))" for x
    proof -
      have "head_of a x \<noteq> None" using x unfolding in_heads .
      then obtain u w where "head_of a x = Some u" "head_of b x = Some w" using v [of x] by (metis map_option_is_None not_None_eq)
      then show ?thesis using v [of x] n [of x] head_counter [OF ok(1), of x u] head_counter [OF ok(2), of x w] by (simp add: canon_head)
    qed
    then show ?thesis
      by (subst heads_by_actor [OF ok(1)], subst heads_by_actor [OF ok(2)], unfold actors [symmetric]) simp
  next
    case True
    with e ok show ?thesis by (simp add: register_ok_def)
  qed
  have "canon (register_json a) = canon (register_json b)"
    using c h by (simp add: register_json_def clock_json_def e comp_def)
  then show ?thesis by (simp add: canonical_json_def)
qed


lemma merge_all_settled:
  assumes "settled L scope identifier x \<or> ys \<noteq> []" "json_ok x" "list_all json_ok ys" "merge_all (merge L scope identifier) x ys = Inr z"
  shows "settled L scope identifier z"
  using assms
proof (induction ys arbitrary: x)
  case (Cons y ys)
  then obtain m where m: "merge L scope identifier x y = Inr m" "merge_all (merge L scope identifier) m ys = Inr z" by (auto simp: guard_simps)
  show ?case using Cons.IH [OF _ _ _ m(2)] merge_settled [OF _ _ m(1)] Cons.prems by simp
qed simp

text \<open>Every input of a successful merge was a valid record.\<close>

lemma merge_all_inputs:
  assumes "json_ok x" "list_all json_ok ys" "merge_all (merge L scope identifier) x ys = Inr z" "y \<in> set ys"
  shows "sync_ok L scope identifier y"
  using assms
proof (induction ys arbitrary: x)
  case (Cons u ys)
  then obtain m where m: "merge L scope identifier x u = Inr m" "merge_all (merge L scope identifier) m ys = Inr z" by (auto simp: guard_simps)
  obtain r where "validate L scope identifier u = Inr r" using merge_facts [OF _ _ m(1)] Cons.prems by auto
  moreover have "json_ok m" using merge_settled [OF _ _ m(1)] Cons.prems by simp
  ultimately show ?case using Cons.IH [OF _ _ m(2)] Cons.prems by (auto simp: sync_ok_def)
qed simp

lemma empty_settled: "scope \<in> set SCOPES \<Longrightarrow> entity_id (JStr identifier) = Inr identifier \<Longrightarrow> settled L scope identifier (register_json empty_register)"
  unfolding settled_def
  by (rule exI [of _ empty_register]) (simp add: empty_register_def valid_register_def scope_id_Inr MAX_ACTORS_def clock_ok_def check_binding_def erased_size)

end
