(* ===== verification/Sync_Safety.thy ===== *)
theory Sync_Safety
  imports Sync_Store Sync_Replicas
begin

section \<open>The replica store keeps itself readable\<close>

text \<open>
  \<open>replica_ok\<close> is the invariant: what \<open>_read\<close> will check of the file the next time, and what makes it hold after the next
  change. \<open>hash_law\<close> is what the store relies on of SHA-256: a hex digest has 64 lower-case hex digits, and the keys of the
  entities in use, a finite list \<open>U\<close> of scopes and ids, do not collide.
\<close>

definition key_of :: "sync_lib \<Rightarrow> string \<times> string \<Rightarrow> string" where
  "key_of L e = fingerprint L (JArr [JStr (fst e), JStr (snd e)])"

definition hash_law :: "sync_lib \<Rightarrow> (string \<times> string) list \<Rightarrow> bool" where
  "hash_law L U \<longleftrightarrow> (\<forall>s. hex_text 64 (sha256 (sl_crypto L) s)) \<and> inj_on (key_of L) (set U)"

lemma fingerprint_hex: "hash_law L U \<Longrightarrow> hex_text 64 (fingerprint L j)"
  by (simp add: hash_law_def fingerprint_def)

lemma actor_id_ok: "hex_text 64 a \<Longrightarrow> actor_id (JStr a) = Inr a"
  by (simp add: actor_id_Inr)

lemma entity_key_Inr:
  "entity_key L scope identifier = Inr k \<longleftrightarrow> (\<exists>s i. scope_id scope = Inr s \<and> entity_id identifier = Inr i \<and> k = key_of L (s, i))"
  by (auto simp: entity_key_def guard_simps key_of_def)

lemma dict_length_mono: "dict_ok d \<Longrightarrow> dict_ok e \<Longrightarrow> fst ` set d \<subseteq> fst ` set e \<Longrightarrow> length d \<le> length e"
  using card_mono [of "set (map fst e)" "set (map fst d)"] distinct_card [of "map fst d"] distinct_card [of "map fst e"]
  by (simp add: dict_ok_def)

subsection \<open>The invariant\<close>

definition row_ok :: "sync_lib \<Rightarrow> (string \<times> string) list \<Rightarrow> string \<times> sync_row \<Rightarrow> bool" where
  "row_ok L U e \<longleftrightarrow> (sr_scope (snd e), sr_id (snd e)) \<in> set U \<and> entity_key L (JStr (sr_scope (snd e))) (JStr (sr_id (snd e))) = Inr (fst e)
     \<and> settled L (sr_scope (snd e)) (sr_id (snd e)) (sr_record (snd e)) \<and> json_ok (sr_record (snd e))"

definition held_ok :: "sync_lib \<Rightarrow> string \<times> held_row \<Rightarrow> bool" where
  "held_ok L e \<longleftrightarrow> entity_key L (JStr (hr_scope (snd e))) (JStr (hr_id (snd e))) = Inr (fst e)
     \<and> hr_code (snd e) \<in> set PER_ROW \<and> hex_text 64 (hr_revision (snd e))"

definition receipts_ok :: "replica \<Rightarrow> string \<times> (string, string) dict \<Rightarrow> bool" where
  "receipts_ok R e \<longleftrightarrow> hex_text 64 (fst e) \<and> dict_ok (snd e) \<and> (\<forall>(k, v) \<in> set (snd e). k \<in> fst ` set (rp_records R) \<and> hex_text 64 v)"

definition replica_core :: "sync_lib \<Rightarrow> (string \<times> string) list \<Rightarrow> string \<Rightarrow> replica \<Rightarrow> bool" where
  "replica_core L U actor R \<longleftrightarrow> rp_actor R = actor \<and> dict_ok (rp_records R) \<and> dict_ok (rp_receipts R) \<and> dict_ok (rp_quarantine R)
     \<and> length (rp_receipts R) \<le> MAX_ACTORS \<and> (\<forall>e \<in> set (rp_records R). row_ok L U e) \<and> (\<forall>e \<in> set (rp_quarantine R). held_ok L e)
     \<and> (\<forall>e \<in> set (rp_receipts R). receipts_ok R e)"

definition replica_ok :: "sync_lib \<Rightarrow> (string \<times> string) list \<Rightarrow> string \<Rightarrow> replica \<Rightarrow> bool" where
  "replica_ok L U actor R \<longleftrightarrow> replica_core L U actor R \<and> length (rp_records R) \<le> MAX_ENTITIES \<and> length (rp_quarantine R) \<le> MAX_ENTITIES
     \<and> length (canonical_json (replica_json R)) \<le> MAX_PLAINTEXT"

lemma replica_ok_readable:
  assumes "hash_law L U" "replica_ok L U actor R"
  shows "read_checks L actor R = Inr ()"
proof -
  note ok = assms(2)[unfolded replica_ok_def replica_core_def]
  have r: "check_record L e = Inr ()" if "e \<in> set (rp_records R)" for e
  proof -
    have "row_ok L U e" using ok that by blast
    then show ?thesis using settled_validate by (fastforce simp: check_record_def row_ok_def Let_def)
  qed
  have key: "hex_text 64 k" if "k \<in> fst ` set (rp_records R)" for k
  proof -
    obtain row where "(k, row) \<in> set (rp_records R)" using \<open>k \<in> fst ` set (rp_records R)\<close> by auto
    then have "row_ok L U (k, row)" using ok by blast
    then show ?thesis using fingerprint_hex [OF assms(1)] by (auto simp: row_ok_def entity_key_Inr key_of_def)
  qed
  have p: "check_receipts e = Inr ()" if e: "e \<in> set (rp_receipts R)" for e
  proof -
    have e: "receipts_ok R e" using ok e by blast
    then have "fst ` set (snd e) \<subseteq> fst ` set (rp_records R)" by (force simp: receipts_ok_def)
    then have "length (snd e) \<le> length (rp_records R)" using e ok by (intro dict_length_mono) (simp_all add: receipts_ok_def)
    then have "length (snd e) \<le> MAX_ENTITIES" using ok by simp
    moreover have "actor_id (JStr k) = Inr k \<and> actor_id (JStr v) = Inr v" if "(k, v) \<in> set (snd e)" for k v
      using e that key [of k] by (auto simp: receipts_ok_def actor_id_Inr)
    ultimately show ?thesis using e by (auto simp: check_receipts_def receipts_ok_def actor_id_ok check_all_Inr)
  qed
  have q: "check_held L e = Inr ()" if "e \<in> set (rp_quarantine R)" for e
  proof -
    have "held_ok L e" using ok that by blast
    then show ?thesis by (simp add: check_held_def held_ok_def Let_def actor_id_ok)
  qed
  have "check_all check_receipts (rp_receipts R) = Inr ()" "check_all (check_record L) (rp_records R) = Inr ()"
    "check_all (check_held L) (rp_quarantine R) = Inr ()" using r p q by (simp_all add: check_all_Inr)
  with ok show ?thesis by (simp add: read_checks_def read_quarantine_def as_sync_error_def)
qed

subsection \<open>Changes that keep it\<close>

lemma in_put: "e \<in> set (dict_put k v d) \<Longrightarrow> e = (k, v) \<or> e \<in> set d \<and> fst e \<noteq> k" if "dict_ok d"
  using that by (induction d) (auto split: if_splits)

lemma put_keys: "fst ` set (dict_put k v d) = insert k (fst ` set d)"
  using dom_update [of k v d] by simp

lemma core_put_record:
  assumes "replica_core L U actor R" "entity_key L (JStr scope) (JStr identifier) = Inr key" "(scope, identifier) \<in> set U" "settled L scope identifier rec" "json_ok rec"
  shows "replica_core L U actor (put_record key scope identifier rec R)"
  using assms in_put [of "rp_records R"] by (fastforce simp: replica_core_def put_record_def row_ok_def receipts_ok_def put_keys)


lemma core_hold_row:
  assumes "replica_core L U actor R" "held_ok L (key, row)"
  shows "replica_core L U actor (hold_row key row R)"
  using assms in_put [of "rp_quarantine R"] by (fastforce simp: replica_core_def hold_row_def receipts_ok_def)

lemma core_drop_held:
  assumes "replica_core L U actor R"
  shows "replica_core L U actor (release_row key R)" "replica_core L U actor (evict selected seen R)"
  using assms by (auto simp: replica_core_def release_row_def evict_def receipts_ok_def AList.delete_eq)

lemma core_record_at:
  assumes "hash_law L U" "replica_core L U actor R" "entity_key L (JStr scope) (JStr identifier) = Inr key" "(scope, identifier) \<in> set U"
  shows "settled L scope identifier (record_at R key)" "json_ok (record_at R key)"
proof -
  have "settled L scope identifier (record_at R key) \<and> json_ok (record_at R key)"
  proof (cases "map_of (rp_records R) key")
    case None
    have "scope \<in> set SCOPES" "entity_id (JStr identifier) = Inr identifier"
      using assms(3) by (auto simp: entity_key_Inr scope_id_Inr entity_id_Inr)
    then show ?thesis using None empty_settled by (simp add: record_at_def register_json_def empty_register_def)
  next
    case (Some row)
    then have r: "row_ok L U (key, row)" using assms(2) by (auto simp: replica_core_def dest: map_of_SomeD)
    then have "key_of L (sr_scope row, sr_id row) = key_of L (scope, identifier)"
      using assms(3) by (auto simp: row_ok_def entity_key_Inr scope_id_Inr entity_id_Inr)
    then have "(sr_scope row, sr_id row) = (scope, identifier)"
      using assms(1,4) r by (auto simp: hash_law_def row_ok_def dest!: inj_onD)
    with r Some show ?thesis by (simp add: row_ok_def record_at_def)
  qed
  then show "settled L scope identifier (record_at R key)" "json_ok (record_at R key)" by blast+
qed


subsection \<open>Written records\<close>

lemma jget_json_ok: "json_ok j \<Longrightarrow> jget k j = Some v \<Longrightarrow> json_ok v"
  by (cases j) (auto simp: jget_def list_all_iff dest!: map_of_SomeD)

lemma jfield_json_ok: "json_ok j \<Longrightarrow> json_ok (jfield k j)"
  using jget_json_ok by (auto simp: jfield_def split: option.split)

lemma jlist_json_ok: "json_ok j \<Longrightarrow> m \<in> set (jlist j) \<Longrightarrow> json_ok m"
  by (cases j) (auto simp: jlist_def list_all_iff)

lemma pick_json_ok: "distinct ks \<Longrightarrow> json_ok j \<Longrightarrow> json_ok (JObj (pick ks j))"
proof -
  assume d: "distinct ks" and j: "json_ok j"
  have "fst ` set (pick ks j) \<subseteq> set ks" for ks by (auto simp: pick_def split: option.splits)
  with d have "dict_ok (pick ks j)"
  proof (induction ks)
    case (Cons k ks)
    then have "dict_ok (pick ks j)" "k \<notin> fst ` set (pick ks j)" by auto
    then show ?case by (simp add: pick_def split: option.split)
  qed (simp add: pick_def)
  moreover have "\<forall>e \<in> set (pick ks j). json_ok (snd e)" using jget_json_ok [OF j] by (auto simp: pick_def split: option.splits)
  ultimately show ?thesis by (simp add: list_all_iff)
qed

lemma put_json_ok: "json_ok (JObj d) \<Longrightarrow> json_ok v \<Longrightarrow> json_ok (JObj (dict_put k v d))"
  using in_put [of d] by (fastforce simp: list_all_iff)

lemma del_json_ok: "json_ok (JObj d) \<Longrightarrow> json_ok (JObj (dict_del k d))"
  by (auto simp: list_all_iff AList.delete_eq)

lemma clean_messages_json_ok: "clean_messages seen ms = Inr rows \<Longrightarrow> list_all json_ok ms \<Longrightarrow> list_all json_ok rows"
proof (induction ms arbitrary: seen rows)
  case (Cons m ms)
  from Cons.prems(1) obtain i row rest' where m: "clean_message seen m = Inr (i, row)" "clean_messages (i # seen) ms = Inr rest'" "rows = JObj row # rest'"
    by (auto simp: guard_simps)
  have "row = pick MESSAGE_FIELDS m"
    using m(1) unfolding clean_message_def Let_def require_Inr bnd_Inr by blast
  moreover have "distinct MESSAGE_FIELDS" by (simp add: MESSAGE_FIELDS_def)
  ultimately have "json_ok (JObj row)" using pick_json_ok Cons.prems(2) by simp
  then show ?case using Cons.IH [OF m(2)] Cons.prems(2) m(3) by simp
qed simp

lemma clean_conversation_json_ok:
  assumes c: "clean_conversation value = Inr result" and j: "json_ok value"
  shows "json_ok (JObj result)"
proof -
  let ?start = "pick (filter (\<lambda>k. k \<noteq> ''revision'') CONVERSATION_FIELDS) value"
  obtain rows where r: "clean_messages [] (jlist (jfield ''messages'' (JObj ?start))) = Inr rows" "result = dict_put ''messages'' (JArr rows) ?start"
    using c unfolding clean_conversation_def Let_def require_Inr bnd_Inr by blast
  have "json_ok (JObj ?start)" using j by (intro pick_json_ok) (simp_all add: CONVERSATION_FIELDS_def)
  moreover from this have "list_all json_ok rows"
    by (intro clean_messages_json_ok [OF r(1)]) (auto simp: list_all_iff simp del: json_ok.simps intro: jlist_json_ok jfield_json_ok)
  ultimately show ?thesis unfolding r(2) by (intro put_json_ok) simp_all
qed

lemma clean_value_json_ok:
  assumes c: "clean_value L scope identifier value = Inr v" and j: "json_ok value"
  shows "json_ok v"
proof (cases "value = JNull \<or> scope = ''conversations''")
  case False
  then have i: "clean_item L scope identifier value = Inr v" using c by (auto simp: clean_value_def guard_simps split: if_splits)
  have o: "json_ok (item_text a k)" if "json_ok a" for a k using that jget_json_ok by (auto simp: item_text_def split: option.split)
  have "json_ok (jfield k value)" for k using j by (rule jfield_json_ok)
  with i j show ?thesis
    by (auto simp: clean_item_def Let_def guard_simps ITEM_LIMITS_def o split: if_splits)
next
  case True
  show ?thesis
  proof (cases "value = JNull")
    case False
    with True c obtain d where d: "clean_conversation value = Inr d"
      and v: "clean_synced_conversation identifier value = Inr v"
      by (auto simp: clean_value_def clean_synced_conversation_def guard_simps split: if_splits sum.splits)
    let ?ms = "jlist (jfield ''messages'' (JObj d))"
    let ?r = "dict_put ''messages'' (JArr (settled_messages ?ms)) (dict_del ''draft'' d)"
    have j: "json_ok (JObj d)" using clean_conversation_json_ok [OF d j] .
    have "json_ok (JArr (settled_messages ?ms))"
      using jlist_json_ok jfield_json_ok j by (auto simp: settled_messages_def list_all_iff simp del: json_ok.simps(2))
    then have r: "json_ok (JObj ?r)" by (intro put_json_ok del_json_ok j)
    have k: "json_ok m" if "m \<in> set (settled_messages ?ms)" for m
      using that jlist_json_ok jfield_json_ok j by (auto simp: settled_messages_def simp del: json_ok.simps)
    have t: "json_ok (if settled_messages ?ms = [] then jfield ''createdAt'' (JObj ?r) else jfield ''createdAt'' (last (settled_messages ?ms)))"
      using jfield_json_ok r k by auto
    have "json_ok (JObj (dict_put ''updatedAt'' (if settled_messages ?ms = [] then jfield ''createdAt'' (JObj ?r) else jfield ''createdAt'' (last (settled_messages ?ms)))
           (dict_put ''title'' (JStr (derived_title (settled_messages ?ms))) ?r)))"
      by (rule put_json_ok [OF put_json_ok [OF r] t]) simp
    with v d r show ?thesis unfolding clean_synced_conversation_def Let_def
      by (auto simp: guard_simps simp del: json_ok.simps split: if_splits)
  qed (use c in \<open>auto simp: clean_value_def guard_simps\<close>)
qed


lemma write_settled:
  assumes w: "write_register L scope identifier previous actor value erase = Inr rec" and j: "json_ok previous" "json_ok value"
  shows "settled L scope identifier rec" "json_ok rec"
proof -
  define reg where "reg p v = (let n = (case map_of (rg_clock p) actor of None \<Rightarrow> 0 | Some n \<Rightarrow> n) + 1 in
    \<lparr>rg_clock = dict_put actor n (rg_clock p), rg_heads = (if erase = JBool True then [] else [\<lparr>hd_actor = actor, hd_counter = n, hd_value = v\<rparr>]),
      rg_erased = (erase = JBool True)\<rparr>)" for p :: register and v
  obtain p v u where p: "validate L scope identifier previous = Inr p" "clean_value L scope identifier value = Inr v"
    and r: "rec = register_json (reg p v)" "validate L scope identifier rec = Inr u"
    using w unfolding write_register_def Let_def bnd_Inr require_Inr reg_def by blast
  have "dict_ok (rg_clock p)" using validate_facts(1) [OF j(1) p(1)] by (simp add: valid_register_def)
  then show "json_ok rec" using clean_value_json_ok [OF p(2) j(2)] unfolding r(1)
    by (intro json_ok_register) (simp_all add: reg_def Let_def)
  from validate_facts(1) [OF this r(2)] have "valid_register L scope identifier u" .
  moreover have "u = reg p v" using r validate_json_same by metis
  ultimately show "settled L scope identifier rec" by (auto simp: settled_def r(1) reg_def Let_def)
qed

text \<open>A row of a batch, and an entry of a write, that names entities in use; Python values have distinct dict keys.\<close>

definition names :: "(string \<times> string) list \<Rightarrow> json \<Rightarrow> bool" where
  "names U row \<longleftrightarrow> json_ok row \<and> (case (jfield ''scope'' row, jfield ''id'' row) of (JStr s, JStr i) \<Rightarrow> (s, i) \<in> set U | _ \<Rightarrow> True)"

lemma names_entity:
  assumes "names U row" "entity_key L (jfield ''scope'' row) (jfield ''id'' row) = Inr key"
  obtains s i where "jfield ''scope'' row = JStr s" "jfield ''id'' row = JStr i" "(s, i) \<in> set U" "entity_key L (JStr s) (JStr i) = Inr key"
  using assms by (auto simp: names_def entity_key_Inr scope_id_Inr entity_id_Inr)

lemma merge_row_settled:
  assumes "merge_row L scope identifier previous rec = Inr merged" "settled L scope identifier previous" "json_ok previous" "json_ok rec"
  shows "settled L scope identifier merged" "json_ok merged"
  using assms merge_settled [OF assms(3,4)] by (auto simp: merge_row_def split: if_splits)

lemma place_row_cases:
  assumes "place_row L collect key scope identifier rec R = Inr (S, receipt)"
  obtains (merged) merged where "merge_row L scope identifier (record_at R key) rec = Inr merged"
      "S = release_row key (put_record key scope identifier merged R)" "receipt = sync_receipt scope identifier (fingerprint L rec) None"
    | (refused) code where "merge_row L scope identifier (record_at R key) rec = Inl (Raised code)" "code \<in> set PER_ROW"
      "S = (if collect then R else hold_row key \<lparr>hr_scope = scope, hr_id = identifier, hr_code = code, hr_revision = fingerprint L rec\<rparr> R)"
      "receipt = sync_receipt scope identifier (fingerprint L rec) (Some code)"
proof (cases "merge_row L scope identifier (record_at R key) rec")
  case (Inr m)
  then show thesis using assms merged [of m] by (simp add: place_row_def Let_def)
next
  case (Inl e)
  then show thesis using assms refused by (cases e) (auto simp: place_row_def Let_def split: if_splits)
qed

lemma import_row_Inr:
  assumes "import_row L collect selected seen row R = Inr (S, key, receipt)"
  obtains scope i where "jfield ''scope'' row = JStr scope" "jfield ''id'' row = JStr i" "scope \<in> set selected"
    "entity_key L (JStr scope) (JStr i) = Inr key" "key \<notin> set seen"
    "place_row L collect key scope i (jfield ''record'' row) R = Inr (S, receipt)"
  using assms by (auto simp: import_row_def guard_simps entity_key_Inr scope_id_Inr entity_id_Inr)

lemma import_row_core:
  assumes law: "hash_law L U" and core: "replica_core L U actor R" and n: "names U row" and i: "import_row L collect selected seen row R = Inr (S, key, receipt)"
  shows "replica_core L U actor S"
proof -
  obtain scope j where e: "jfield ''scope'' row = JStr scope" "jfield ''id'' row = JStr j" "entity_key L (JStr scope) (JStr j) = Inr key"
    and p: "place_row L collect key scope j (jfield ''record'' row) R = Inr (S, receipt)"
    using import_row_Inr [OF i] by blast
  then have u: "(scope, j) \<in> set U" using n by (simp add: names_def)
  have rec: "json_ok (jfield ''record'' row)" using n jfield_json_ok by (simp add: names_def)
  note at = core_record_at [OF law core e(3) u]
  from p show ?thesis
  proof (cases rule: place_row_cases)
    case (merged m)
    show ?thesis unfolding merged(2)
      using core_drop_held(1) [OF core_put_record [OF core e(3) u merge_row_settled [OF merged(1) at rec]]] .
  next
    case (refused code)
    then show ?thesis using core core_hold_row [OF core] e(3) fingerprint_hex [OF law] by (simp add: held_ok_def)
  qed
qed

lemma import_rows_core:
  assumes "hash_law L U" "replica_core L U actor R" "list_all (names U) rows" "import_rows L collect selected seen rows R = Inr (S, keys, rcs)"
  shows "replica_core L U actor S"
  using assms
proof (induction rows arbitrary: seen R rcs)
  case (Cons row rows)
  then obtain T key receipt rs where t: "import_row L collect selected seen row R = Inr (T, key, receipt)"
    "import_rows L collect selected (key # seen) rows T = Inr (S, keys, rs)" by (auto simp: guard_simps)
  then show ?case using Cons import_row_core [OF Cons.prems(1,2) _ t(1)] by simp
qed simp

lemma merge_rows_core:
  assumes "hash_law L U" "replica_core L U actor R" "list_all (names U) rows" "merge_rows L collect selected rows R = Inr (S, rcs)"
  shows "replica_core L U actor S"
  using assms(4) import_rows_core [OF assms(1-3)] core_drop_held(2)
  by (auto simp: merge_rows_def guard_simps split: if_splits)

lemma write_entries_core:
  assumes "hash_law L U" "replica_core L U actor R" "list_all (names U) entries" "write_entries L actor seen entries R = Inr (S, views)"
  shows "replica_core L U actor S"
  using assms
proof (induction entries arbitrary: seen R views)
  case (Cons entry entries)
  obtain scope j v key expected rec vs where w: "jget ''scope'' entry = Some scope" "jget ''id'' entry = Some j" "entity_key L scope j = Inr key"
    "jget ''value'' entry = Some v"
    "write_register L (py_str scope) (py_str j) (record_at R key) actor v (case jget ''erase'' entry of None \<Rightarrow> JBool False | Some e \<Rightarrow> e) = Inr rec"
    "write_entries L actor (key # seen) entries (put_record key (py_str scope) (py_str j) rec R) = Inr (S, vs)"
    using Cons.prems(4) by (auto simp: guard_simps Let_def)
  obtain s i where e: "scope = JStr s" "j = JStr i" "(s, i) \<in> set U" "entity_key L (JStr s) (JStr i) = Inr key"
    using Cons.prems(3) w(1-3) names_entity [of U entry L key] by (auto simp: jfield_def)
  have v: "json_ok v" using Cons.prems(3) jget_json_ok [OF _ w(4)] by (simp add: names_def)
  have "settled L s i rec" "json_ok rec"
    using write_settled [OF _ core_record_at(2) [OF Cons.prems(1,2) e(4,3)] v] w(5) by (auto simp: e(1,2))
  with w(6) show ?case using Cons.IH [OF Cons.prems(1) core_put_record [OF Cons.prems(2) e(4,3)]] Cons.prems(3) by (simp add: e(1,2))
qed simp

lemma confirm_facts:
  assumes "confirm L R selected seen rcs (saved, n) = Inr (out, k)" "receipts_ok R (device, saved)"
  shows "receipts_ok R (device, out)"
  using assms
proof (induction rcs arbitrary: seen saved n)
  case (Cons receipt rcs)
  obtain key revision row where c: "actor_id (jfield ''revision'' receipt) = Inr revision" "map_of (rp_records R) key = Some row"
    "confirm L R selected (key # seen) rcs (if fingerprint L (sr_record row) = revision then (dict_put key revision saved, n + 1) else (saved, n)) = Inr (out, k)"
    using Cons.prems(1) by (auto simp: guard_simps)
  have "key \<in> fst ` set (rp_records R)" "hex_text 64 revision" using c(1,2) by (force simp: actor_id_Inr dest: map_of_SomeD)+
  then have "receipts_ok R (device, dict_put key revision saved)"
  proof -
    have "(k, v) = (key, revision) \<or> (k, v) \<in> set saved" if "(k, v) \<in> set (dict_put key revision saved)" for k v
      using in_put [OF _ that] Cons.prems(2) by (auto simp: receipts_ok_def)
    moreover have "k \<in> fst ` set (rp_records R) \<and> hex_text 64 v" if "(k, v) \<in> set saved" for k v
      using Cons.prems(2) that unfolding receipts_ok_def snd_conv by blast
    ultimately have "\<forall>(k, v) \<in> set (dict_put key revision saved). k \<in> fst ` set (rp_records R) \<and> hex_text 64 v"
      using \<open>key \<in> fst ` set (rp_records R)\<close> \<open>hex_text 64 revision\<close> by blast
    with Cons.prems(2) show ?thesis by (simp add: receipts_ok_def)
  qed
  with c(3) Cons show ?case by (auto split: if_splits)
qed simp

lemma acknowledge_rows_core:
  assumes "replica_core L U actor R" "hex_text 64 device" "acknowledge_rows L device rcs selected R = Inr (S, answer)"
  shows "replica_core L U actor S"
proof -
  obtain saved k where c: "confirm L R selected [] rcs (receipts_of R device, 0) = Inr (saved, k)"
    "map_of (rp_receipts R) device \<noteq> None \<or> length (rp_receipts R) < MAX_ACTORS" "S = R\<lparr>rp_receipts := dict_put device saved (rp_receipts R)\<rparr>"
    using assms(3) by (auto simp: acknowledge_rows_def guard_simps)
  have "receipts_ok R (device, receipts_of R device)"
  proof (cases "map_of (rp_receipts R) device")
    case (Some d)
    then have "(device, d) \<in> set (rp_receipts R)" by (rule map_of_SomeD)
    then show ?thesis using Some assms(1) by (simp add: receipts_of_def replica_core_def)
  qed (simp add: receipts_of_def receipts_ok_def assms(2))
  from confirm_facts [OF c(1) this] have s: "receipts_ok R (device, saved)" .
  have "length (dict_put device saved (rp_receipts R)) \<le> MAX_ACTORS"
    using c(2) assms(1) by (auto simp: length_put replica_core_def)
  moreover have "receipts_ok S e" if "e \<in> set (dict_put device saved (rp_receipts R))" for e
  proof -
    have "e = (device, saved) \<or> e \<in> set (rp_receipts R)" using in_put [OF _ that] assms(1) by (auto simp: replica_core_def)
    then have "receipts_ok R e" using s assms(1) by (auto simp: replica_core_def)
    then show ?thesis by (simp add: c(3) receipts_ok_def)
  qed
  ultimately show ?thesis using assms(1) by (auto simp: c(3) replica_core_def)
qed

lemma forget_core:
  assumes "replica_core L U actor R"
  shows "replica_core L U actor (R\<lparr>rp_receipts := dict_del d (rp_receipts R)\<rparr>)"
proof -
  have "receipts_ok (R\<lparr>rp_receipts := x\<rparr>) e = receipts_ok R e" for x e by (simp add: receipts_ok_def)
  moreover have "length (dict_del d (rp_receipts R)) \<le> MAX_ACTORS"
    using assms by (simp add: replica_core_def AList.delete_eq) (meson le_trans length_filter_le)
  ultimately show ?thesis using assms by (auto simp: replica_core_def AList.delete_eq)
qed

subsection \<open>The methods as one machine\<close>

datatype sync_request = Sync_Write json | Sync_Receive json json | Sync_Reconcile json json | Sync_Source_Pending json json json
  | Sync_Source_Acknowledge json json json json | Sync_Acknowledge json json json | Sync_Forget json

text \<open>The arguments of a call name entities in use.\<close>

fun call_rows :: "sync_request \<Rightarrow> json list" where
  "call_rows (Sync_Write changes) = jlist changes"
| "call_rows (Sync_Receive rows scopes) = jlist rows"
| "call_rows (Sync_Reconcile rows scopes) = jlist rows"
| "call_rows (Sync_Source_Pending device rows scopes) = jlist rows"
| "call_rows (Sync_Source_Acknowledge device rows rcs scopes) = jlist rows"
| "call_rows c = []"

fun sync_call :: "sync_lib \<Rightarrow> string \<Rightarrow> sync_request \<Rightarrow> replica \<Rightarrow> py_error + replica" where
  "sync_call L actor (Sync_Write changes) R = bnd (write_many L actor changes R) (\<lambda>(S, _). Inr S)"
| "sync_call L actor (Sync_Receive rows scopes) R = bnd (receive L actor rows scopes R) (\<lambda>(S, _). Inr S)"
| "sync_call L actor (Sync_Reconcile rows scopes) R = bnd (reconcile_source L actor rows scopes R) (\<lambda>(S, _). Inr S)"
| "sync_call L actor (Sync_Source_Pending device rows scopes) R = bnd (source_pending L actor device rows scopes R) (\<lambda>(S, _). Inr S)"
| "sync_call L actor (Sync_Source_Acknowledge device rows rcs scopes) R = bnd (source_acknowledge L actor device rows rcs scopes R) (\<lambda>(S, _). Inr S)"
| "sync_call L actor (Sync_Acknowledge device rcs scopes) R = bnd (acknowledge L actor device rcs scopes R) (\<lambda>(S, _). Inr S)"
| "sync_call L actor (Sync_Forget device) R = bnd (forget_device L actor device R) (\<lambda>(S, _). Inr S)"

definition sync_step :: "sync_lib \<Rightarrow> (string \<times> string) list \<Rightarrow> string \<Rightarrow> replica \<Rightarrow> sync_request \<Rightarrow> py_error + replica" where
  "sync_step L U actor R c = require (list_all (names U) (call_rows c)) ValueError (sync_call L actor c R)"

text \<open>Every method commits through \<open>mutate\<close>; what it commits is one of these.\<close>

definition commits :: "sync_lib \<Rightarrow> sync_request \<Rightarrow> replica \<Rightarrow> replica \<Rightarrow> string \<Rightarrow> bool" where
  "commits L c R S actor \<longleftrightarrow>
     (\<exists>views. write_entries L actor [] (call_rows c) R = Inr (S, views))
   \<or> (\<exists>collect selected rcs. merge_rows L collect selected (call_rows c) R = Inr (S, rcs))
   \<or> (\<exists>device rcs selected T answer. (T = R \<or> (\<exists>out. merge_rows L False selected (call_rows c) R = Inr (T, out)))
        \<and> hex_text 64 device \<and> acknowledge_rows L device rcs selected T = Inr (S, answer)
        \<and> (\<exists>scopes rows. c = Sync_Acknowledge (JStr device) (JArr rcs) scopes \<or> c = Sync_Source_Acknowledge (JStr device) rows (JArr rcs) scopes))
   \<or> (\<exists>d. S = R\<lparr>rp_receipts := dict_del d (rp_receipts R)\<rparr>)"

lemma mutate_Inr: "mutate L actor operation R = Inr (S, answer) \<longleftrightarrow> read_checks L actor R = Inr () \<and> operation R = Inr (S, answer)
    \<and> length (rp_records S) \<le> MAX_ENTITIES \<and> length (rp_quarantine S) \<le> MAX_ENTITIES \<and> length (canonical_json (replica_json S)) \<le> MAX_PLAINTEXT"
  by (auto simp: mutate_def guard_simps)

lemma commits_ack:
  assumes "hex_text 64 device" "acknowledge_rows L device rcs selected T = Inr (S, answer)"
  shows "T = R \<Longrightarrow> commits L (Sync_Acknowledge (JStr device) (JArr rcs) scopes) R S actor"
    "merge_rows L False selected (jlist rows) R = Inr (T, out) \<Longrightarrow> commits L (Sync_Source_Acknowledge (JStr device) rows (JArr rcs) scopes) R S actor"
proof -
  show "commits L (Sync_Acknowledge (JStr device) (JArr rcs) scopes) R S actor" if "T = R"
    unfolding commits_def using assms that by blast
  show "commits L (Sync_Source_Acknowledge (JStr device) rows (JArr rcs) scopes) R S actor" if "merge_rows L False selected (jlist rows) R = Inr (T, out)"
    unfolding commits_def call_rows.simps using assms that by blast
qed

lemma sync_call_commits:
  assumes "sync_call L actor c R = Inr S"
  shows "commits L c R S actor" "length (rp_records S) \<le> MAX_ENTITIES" "length (rp_quarantine S) \<le> MAX_ENTITIES"
    "length (canonical_json (replica_json S)) \<le> MAX_PLAINTEXT"
proof -
  have "commits L c R S actor \<and> length (rp_records S) \<le> MAX_ENTITIES \<and> length (rp_quarantine S) \<le> MAX_ENTITIES
    \<and> length (canonical_json (replica_json S)) \<le> MAX_PLAINTEXT"
  proof (cases c)
    case (Sync_Write changes)
    then show ?thesis using assms by (fastforce simp: write_many_def guard_simps mutate_Inr commits_def)
  next
    case (Sync_Receive rows scopes)
    then show ?thesis using assms by (fastforce simp: receive_def guard_simps mutate_Inr commits_def)
  next
    case (Sync_Reconcile rows scopes)
    then show ?thesis using assms by (fastforce simp: reconcile_source_def guard_simps mutate_Inr commits_def)
  next
    case (Sync_Source_Pending device rows scopes)
    then show ?thesis using assms by (fastforce simp: source_pending_def guard_simps mutate_Inr commits_def)
  next
    case (Sync_Source_Acknowledge device rows rcs scopes)
    obtain d xs where "device = JStr d" "rcs = JArr xs" "hex_text 64 d"
      using assms Sync_Source_Acknowledge by (cases rcs) (auto simp: source_acknowledge_def guard_simps actor_id_Inr is_list_def)
    with Sync_Source_Acknowledge assms show ?thesis
      by (auto simp: source_acknowledge_def guard_simps mutate_Inr actor_id_ok jlist_def intro: commits_ack(2))
  next
    case (Sync_Acknowledge device rcs scopes)
    obtain d xs where "device = JStr d" "rcs = JArr xs" "hex_text 64 d"
      using assms Sync_Acknowledge by (cases rcs) (auto simp: acknowledge_def guard_simps actor_id_Inr is_list_def)
    with Sync_Acknowledge assms show ?thesis
      by (auto simp: acknowledge_def guard_simps mutate_Inr actor_id_ok jlist_def intro: commits_ack(1))
  next
    case (Sync_Forget device)
    then show ?thesis using assms by (fastforce simp: forget_device_def guard_simps mutate_Inr commits_def)
  qed
  then show "commits L c R S actor" "length (rp_records S) \<le> MAX_ENTITIES" "length (rp_quarantine S) \<le> MAX_ENTITIES"
    "length (canonical_json (replica_json S)) \<le> MAX_PLAINTEXT" by blast+
qed


lemma commits_core:
  assumes law: "hash_law L U" and core: "replica_core L U actor R" and n: "list_all (names U) (call_rows c)" and m: "commits L c R S actor"
  shows "replica_core L U actor S"
proof -
  from m consider (entries) views where "write_entries L actor [] (call_rows c) R = Inr (S, views)"
    | (rows) collect selected rcs where "merge_rows L collect selected (call_rows c) R = Inr (S, rcs)"
    | (ack) device rcs selected T answer where "T = R \<or> (\<exists>out. merge_rows L False selected (call_rows c) R = Inr (T, out))" "hex_text 64 device"
        "acknowledge_rows L device rcs selected T = Inr (S, answer)"
    | (forget) d where "S = R\<lparr>rp_receipts := dict_del d (rp_receipts R)\<rparr>"
    unfolding commits_def by blast
  then show ?thesis
  proof cases
    case entries
    then show ?thesis using write_entries_core [OF law core n] by blast
  next
    case rows
    then show ?thesis using merge_rows_core [OF law core n] by blast
  next
    case ack
    then show ?thesis using acknowledge_rows_core core merge_rows_core [OF law core n] by blast
  next
    case forget
    then show ?thesis using forget_core [OF core] by simp
  qed
qed

interpretation replicas: guarded_machine "sync_step L U actor" "\<lambda>R. hash_law L U \<and> replica_ok L U actor R" for L U actor
proof
  fix R S c
  assume ok: "hash_law L U \<and> replica_ok L U actor R" and s: "sync_step L U actor R c = Inr S"
  then have n: "list_all (names U) (call_rows c)" and c: "sync_call L actor c R = Inr S" by (simp_all add: sync_step_def guard_simps)
  show "hash_law L U \<and> replica_ok L U actor S"
    using ok commits_core [OF _ _ n sync_call_commits(1) [OF c]] sync_call_commits(2-4) [OF c] by (simp add: replica_ok_def)
qed

lemma new_replica_ok:
  assumes "hex_text 64 actor"
  shows "replica_ok L U actor (new_replica actor)"
proof -
  have "jsize (replica_json (new_replica actor)) \<le> 1000"
    using assms by (simp add: replica_json_def new_replica_def REPLICA_VERSION_def hex_text_def)
  then have "length (canonical_json (replica_json (new_replica actor))) \<le> MAX_PLAINTEXT"
    using length_canonical [of "replica_json (new_replica actor)"] by (simp add: MAX_PLAINTEXT_def)
  then show ?thesis by (simp add: replica_ok_def replica_core_def new_replica_def MAX_ACTORS_def MAX_ENTITIES_def)
qed

subsection \<open>Acknowledgements come from their device\<close>

text \<open>The receipts a call hands in for a device.\<close>

fun call_receipts :: "string \<Rightarrow> sync_request \<Rightarrow> json list" where
  "call_receipts d (Sync_Acknowledge device rcs scopes) = (if device = JStr d then jlist rcs else [])"
| "call_receipts d (Sync_Source_Acknowledge device rows rcs scopes) = (if device = JStr d then jlist rcs else [])"
| "call_receipts d c = []"

definition confirms :: "sync_lib \<Rightarrow> string \<Rightarrow> string \<Rightarrow> json \<Rightarrow> bool" where
  "confirms L key revision receipt \<longleftrightarrow> entity_key L (jfield ''scope'' receipt) (jfield ''id'' receipt) = Inr key \<and> jfield ''revision'' receipt = JStr revision"

lemma import_rows_receipts: "import_rows L collect selected seen rows R = Inr (S, keys, rcs) \<Longrightarrow> rp_receipts S = rp_receipts R"
proof (induction rows arbitrary: seen R rcs)
  case (Cons row rows)
  then obtain T key receipt rs where t: "import_row L collect selected seen row R = Inr (T, key, receipt)"
    "import_rows L collect selected (key # seen) rows T = Inr (S, keys, rs)" by (auto simp: guard_simps)
  have "rp_receipts T = rp_receipts R"
    by (rule import_row_Inr [OF t(1)], erule place_row_cases) (simp_all add: release_row_def put_record_def hold_row_def)
  then show ?case using Cons.IH [OF t(2)] by simp
qed simp

lemma merge_rows_receipts: "merge_rows L collect selected rows R = Inr (S, rcs) \<Longrightarrow> rp_receipts S = rp_receipts R"
  using import_rows_receipts by (fastforce simp: merge_rows_def guard_simps evict_def split: if_splits)

lemma write_entries_receipts: "write_entries L actor seen entries R = Inr (S, views) \<Longrightarrow> rp_receipts S = rp_receipts R"
proof (induction entries arbitrary: seen R views)
  case (Cons entry entries)
  then show ?case by (fastforce simp: guard_simps Let_def put_record_def)
qed simp

lemma confirm_receipts:
  assumes "confirm L R selected seen rcs (saved, n) = Inr (out, k)" "map_of out key = Some revision"
  shows "map_of saved key = Some revision \<or> (\<exists>receipt \<in> set rcs. confirms L key revision receipt)"
  using assms
proof (induction rcs arbitrary: seen saved n)
  case (Cons receipt rcs)
  obtain key' revision' row where c: "actor_id (jfield ''revision'' receipt) = Inr revision'"
    "entity_key L (jfield ''scope'' receipt) (jfield ''id'' receipt) = Inr key'" "map_of (rp_records R) key' = Some row"
    "confirm L R selected (key' # seen) rcs (if fingerprint L (sr_record row) = revision' then (dict_put key' revision' saved, n + 1) else (saved, n)) = Inr (out, k)"
    using Cons.prems(1) by (auto simp: guard_simps)
  show ?case
  proof (cases "fingerprint L (sr_record row) = revision'")
    case True
    then have "map_of (dict_put key' revision' saved) key = Some revision \<or> (\<exists>receipt \<in> set rcs. confirms L key revision receipt)"
      using Cons.IH [of "key' # seen" "dict_put key' revision' saved" "n + 1"] Cons.prems(2) c(4) by simp
    with c(1,2) show ?thesis by (auto simp: confirms_def actor_id_Inr split: if_splits)
  next
    case False
    then show ?thesis using Cons.IH [of "key' # seen" saved n] Cons.prems(2) c(4) by auto
  qed
qed simp

lemma step_receipts:
  assumes s: "sync_step L U actor R c = Inr S" and m: "map_of (receipts_of S d) key = Some revision"
  shows "map_of (receipts_of R d) key = Some revision \<or> (\<exists>receipt \<in> set (call_receipts d c). confirms L key revision receipt)"
proof -
  have same: ?thesis if "rp_receipts S = rp_receipts R" using m by (simp add: receipts_of_def that)
  have "sync_call L actor c R = Inr S" using s by (simp add: sync_step_def guard_simps)
  from sync_call_commits(1) [OF this] consider (entries) views where "write_entries L actor [] (call_rows c) R = Inr (S, views)"
    | (rows) collect selected rcs where "merge_rows L collect selected (call_rows c) R = Inr (S, rcs)"
    | (ack) device rcs selected T answer where "T = R \<or> (\<exists>out. merge_rows L False selected (call_rows c) R = Inr (T, out))"
        "acknowledge_rows L device rcs selected T = Inr (S, answer)" "call_receipts device c = rcs"
    | (forget) e where "S = R\<lparr>rp_receipts := dict_del e (rp_receipts R)\<rparr>"
    unfolding commits_def by (metis call_receipts.simps(1,2) jlist_def json.simps(40))
  then show ?thesis
  proof cases
    case entries
    then show ?thesis using same write_entries_receipts by blast
  next
    case rows
    then show ?thesis using same merge_rows_receipts by blast
  next
    case ack
    then have T: "rp_receipts T = rp_receipts R" using merge_rows_receipts by blast
    then have r: "receipts_of T = receipts_of R" by (simp add: receipts_of_def fun_eq_iff)
    obtain saved k where c: "confirm L T selected [] rcs (receipts_of R device, 0) = Inr (saved, k)" "S = T\<lparr>rp_receipts := dict_put device saved (rp_receipts T)\<rparr>"
      using ack(2) by (auto simp: acknowledge_rows_def guard_simps r)
    show ?thesis
    proof (cases "d = device")
      case True
      then show ?thesis using m confirm_receipts [OF c(1)] ack(3) by (simp add: c(2) receipts_of_def)
    next
      case False
      then show ?thesis using m by (simp add: c(2) T receipts_of_def)
    qed
  next
    case forget
    then show ?thesis using m by (auto simp: receipts_of_def split: if_splits)
  qed
qed

lemma run_receipts:
  "map_of (receipts_of (replicas.run L U actor R cs) d) key = Some revision \<Longrightarrow>
     map_of (receipts_of R d) key = Some revision \<or> (\<exists>c \<in> set cs. \<exists>receipt \<in> set (call_receipts d c). confirms L key revision receipt)"
proof (induction cs arbitrary: R)
  case (Cons c cs)
  from Cons.IH [of "replicas.attempt L U actor R c"] Cons.prems
  have "map_of (receipts_of (replicas.attempt L U actor R c) d) key = Some revision
    \<or> (\<exists>c \<in> set cs. \<exists>receipt \<in> set (call_receipts d c). confirms L key revision receipt)" by simp
  then show ?case using step_receipts [of L U actor R c _ d key revision]
    by (auto simp: replicas.attempt_def split: sum.splits)
qed simp


subsection \<open>What a received batch does\<close>

text \<open>A row that was merged, and one that was refused, with its receipt.\<close>

definition row_merged :: "sync_lib \<Rightarrow> replica \<Rightarrow> replica \<Rightarrow> json \<Rightarrow> json \<Rightarrow> bool" where
  "row_merged L R S row receipt \<longleftrightarrow> (\<exists>scope i key. jfield ''scope'' row = JStr scope \<and> jfield ''id'' row = JStr i
     \<and> entity_key L (JStr scope) (JStr i) = Inr key \<and> receipt = sync_receipt scope i (fingerprint L (jfield ''record'' row)) None
     \<and> merge_row L scope i (record_at R key) (jfield ''record'' row) = Inr (record_at S key))"

definition row_refused :: "sync_lib \<Rightarrow> replica \<Rightarrow> replica \<Rightarrow> json \<Rightarrow> json \<Rightarrow> bool" where
  "row_refused L R S row receipt \<longleftrightarrow> (\<exists>scope i key code. jfield ''scope'' row = JStr scope \<and> jfield ''id'' row = JStr i
     \<and> entity_key L (JStr scope) (JStr i) = Inr key \<and> receipt = sync_receipt scope i (fingerprint L (jfield ''record'' row)) (Some code)
     \<and> code \<in> set PER_ROW \<and> merge L scope i (record_at R key) (jfield ''record'' row) = Inl (Raised code)
     \<and> map_of (rp_records S) key = map_of (rp_records R) key)"

lemma place_row_others:
  "place_row L collect key scope i rec R = Inr (S, receipt) \<Longrightarrow> key' \<noteq> key \<Longrightarrow> map_of (rp_records S) key' = map_of (rp_records R) key'"
  by (erule place_row_cases) (simp_all add: release_row_def put_record_def hold_row_def)

lemma import_row_outcome:
  assumes "import_row L True selected seen row R = Inr (T, key, receipt)"
  shows "row_merged L R T row receipt \<or> row_refused L R T row receipt"
proof -
  obtain scope i where e: "jfield ''scope'' row = JStr scope" "jfield ''id'' row = JStr i" "entity_key L (JStr scope) (JStr i) = Inr key"
    and p: "place_row L True key scope i (jfield ''record'' row) R = Inr (T, receipt)"
    using import_row_Inr [OF assms] by blast
  from p show ?thesis
  proof (cases rule: place_row_cases)
    case (merged m)
    then have "record_at T key = m" by (simp add: record_at_def release_row_def put_record_def)
    with merged(1,3) e have "row_merged L R T row receipt" unfolding row_merged_def by blast
    then show ?thesis ..
  next
    case (refused code)
    then have m: "merge L scope i (record_at R key) (jfield ''record'' row) = Inl (Raised code)" "T = R"
      by (simp_all add: merge_row_def split: if_splits)
    with refused(2,4) e have "row_refused L R T row receipt" unfolding row_refused_def by blast
    then show ?thesis ..
  qed
qed

lemma record_at_cong: "map_of (rp_records S) k = map_of (rp_records R) k \<Longrightarrow> record_at S k = record_at R k"
  by (simp add: record_at_def)

lemma outcome_cong:
  assumes "row_merged L R S row receipt \<or> row_refused L R S row receipt" "entity_key L (jfield ''scope'' row) (jfield ''id'' row) = Inr key"
    "map_of (rp_records R') key = map_of (rp_records R) key" "map_of (rp_records S') key = map_of (rp_records S) key"
  shows "row_merged L R' S' row receipt \<or> row_refused L R' S' row receipt"
  using assms record_at_cong [OF assms(3)] record_at_cong [OF assms(4)] by (auto simp: row_merged_def row_refused_def)

lemma import_rows_outcome:
  assumes "import_rows L True selected seen rows R = Inr (S, keys, rcs)"
  shows "list_all2 (\<lambda>row receipt. row_merged L R S row receipt \<or> row_refused L R S row receipt) rows rcs"
    "\<forall>row \<in> set rows. \<exists>k. entity_key L (jfield ''scope'' row) (jfield ''id'' row) = Inr k \<and> k \<notin> set seen"
    "\<forall>k. (\<forall>row \<in> set rows. entity_key L (jfield ''scope'' row) (jfield ''id'' row) \<noteq> Inr k) \<longrightarrow> map_of (rp_records S) k = map_of (rp_records R) k"
proof -
  have "list_all2 (\<lambda>row receipt. row_merged L R S row receipt \<or> row_refused L R S row receipt) rows rcs
    \<and> (\<forall>row \<in> set rows. \<exists>k. entity_key L (jfield ''scope'' row) (jfield ''id'' row) = Inr k \<and> k \<notin> set seen)
    \<and> (\<forall>k. (\<forall>row \<in> set rows. entity_key L (jfield ''scope'' row) (jfield ''id'' row) \<noteq> Inr k) \<longrightarrow> map_of (rp_records S) k = map_of (rp_records R) k)"
    using assms
  proof (induction rows arbitrary: seen R rcs)
    case (Cons row rows)
    let ?key = "\<lambda>row. entity_key L (jfield ''scope'' row) (jfield ''id'' row)"
    obtain T key receipt rs where t: "import_row L True selected seen row R = Inr (T, key, receipt)"
      "import_rows L True selected (key # seen) rows T = Inr (S, keys, rs)" "rcs = receipt # rs" using Cons.prems by (auto simp: guard_simps)
    note ih = Cons.IH [OF t(2)]
    obtain scope i where e: "jfield ''scope'' row = JStr scope" "jfield ''id'' row = JStr i" "entity_key L (JStr scope) (JStr i) = Inr key"
      "key \<notin> set seen" and p: "place_row L True key scope i (jfield ''record'' row) R = Inr (T, receipt)"
      using import_row_Inr [OF t(1)] by blast
    have others: "map_of (rp_records T) k = map_of (rp_records R) k" if "k \<noteq> key" for k using place_row_others [OF p that] .
    have rest: "?key row' \<noteq> Inr key" if "row' \<in> set rows" for row' using ih that by fastforce
    then have "map_of (rp_records S) key = map_of (rp_records T) key" using ih by blast
    then have first: "row_merged L R S row receipt \<or> row_refused L R S row receipt"
      using outcome_cong [OF import_row_outcome [OF t(1)]] e by simp
    have "list_all2 (\<lambda>row receipt. row_merged L R S row receipt \<or> row_refused L R S row receipt) rows rs"
    proof (rule list.rel_mono_strong [of "\<lambda>row receipt. row_merged L T S row receipt \<or> row_refused L T S row receipt"])
      fix row' receipt'
      assume r: "row' \<in> set rows" and o: "row_merged L T S row' receipt' \<or> row_refused L T S row' receipt'"
      obtain k where k: "?key row' = Inr k" "k \<noteq> key" using ih r rest by fastforce
      show "row_merged L R S row' receipt' \<or> row_refused L R S row' receipt'"
        using outcome_cong [OF o k(1)] others [OF k(2)] by simp
    qed (use ih in blast)
    moreover have "map_of (rp_records S) k = map_of (rp_records R) k" if "\<forall>row' \<in> set (row # rows). ?key row' \<noteq> Inr k" for k
    proof -
      have "k \<noteq> key" using that e by auto
      then show ?thesis using ih others that by simp
    qed
    ultimately show ?case using first ih e t(3) by auto
  qed simp
  then show "list_all2 (\<lambda>row receipt. row_merged L R S row receipt \<or> row_refused L R S row receipt) rows rcs"
    "\<forall>row \<in> set rows. \<exists>k. entity_key L (jfield ''scope'' row) (jfield ''id'' row) = Inr k \<and> k \<notin> set seen"
    "\<forall>k. (\<forall>row \<in> set rows. entity_key L (jfield ''scope'' row) (jfield ''id'' row) \<noteq> Inr k) \<longrightarrow> map_of (rp_records S) k = map_of (rp_records R) k"
    by blast+
qed

end
