(* ===== verification/Sync_Demo.thy ===== *)
theory Sync_Demo
  imports Sync_Safety
begin

section \<open>A synced bookmark, for the witnesses\<close>

text \<open>Two devices with a bookmark, and the calls that bring it to a replica.\<close>

definition demo_sync :: sync_lib where
  "demo_sync = \<lparr>sl_crypto = \<lparr>sha256 = \<lambda>_. replicate 64 (CHR ''a''), ed_public = id, ed_sign = \<lambda>k m. [], ed_ok = \<lambda>k s m. True\<rparr>, sl_bracketed = \<lambda>_. True\<rparr>"

definition dev_a :: string where "dev_a = replicate 64 (CHR ''a'')"
definition dev_b :: string where "dev_b = replicate 64 (CHR ''b'')"

definition demo_mark :: json where
  "demo_mark = JObj [(''item'', JObj [(''item_id'', JStr ''b''), (''title'', JStr ''T''), (''source_title'', JStr []), (''source_id'', JStr []),
     (''content_kind'', JStr []), (''link'', JStr (''http:'' @ [CHR 0x2F, CHR 0x2F] @ ''x''))]), (''bookmarked'', JBool True)]"

definition mark_a :: register where
  "mark_a = \<lparr>rg_clock = [(dev_a, 1)], rg_heads = [\<lparr>hd_actor = dev_a, hd_counter = 1, hd_value = demo_mark\<rparr>], rg_erased = False\<rparr>"

definition gone_a :: register where
  "gone_a = \<lparr>rg_clock = [(dev_a, 2)], rg_heads = [\<lparr>hd_actor = dev_a, hd_counter = 2, hd_value = JNull\<rparr>], rg_erased = False\<rparr>"

definition mark_b :: register where
  "mark_b = \<lparr>rg_clock = [(dev_b, 1)], rg_heads = [\<lparr>hd_actor = dev_b, hd_counter = 1, hd_value = JNull\<rparr>], rg_erased = False\<rparr>"

definition both_marks :: "(string, int) dict \<Rightarrow> register" where
  "both_marks c = \<lparr>rg_clock = c, rg_heads = [\<lparr>hd_actor = dev_a, hd_counter = 1, hd_value = demo_mark\<rparr>,
     \<lparr>hd_actor = dev_b, hd_counter = 1, hd_value = JNull\<rparr>], rg_erased = False\<rparr>"

lemma dev_ok: "hex_text 64 dev_a" "hex_text 64 dev_b" "length dev_a = 64" "length dev_b = 64"
  by (simp_all add: hex_text_def dev_a_def dev_b_def list_all_iff is_lower_hex_def)

lemma dev_less: "dev_a \<noteq> dev_b" "dev_b \<noteq> dev_a" "dev_a < dev_b" "\<not> dev_b \<le> dev_a" "dev_a \<le> dev_b"
proof -
  show "dev_a < dev_b" by code_simp
  then show "dev_a \<noteq> dev_b" "dev_b \<noteq> dev_a" "\<not> dev_b \<le> dev_a" "dev_a \<le> dev_b" by auto
qed

lemma demo_clean: "clean_value demo_sync ''bookmarks'' ''b'' demo_mark = Inr demo_mark"
  by code_simp

lemma demo_law: "hash_law demo_sync [(''bookmarks'', ''b'')]"
  by (simp add: hash_law_def demo_sync_def hex_text_def list_all_iff is_lower_hex_def)


lemma show_ones: "length (show_int 1) = 1" "length (show_int 2) = 1"
  by (simp_all add: show_int_def show_nat.simps)

lemma demo_size: "jsize (register_json mark_a) \<le> 3000" "jsize (register_json gone_a) \<le> 3000" "jsize (register_json mark_b) \<le> 3000"
  "jsize (register_json (both_marks [(dev_a, 1), (dev_b, 1)])) \<le> 4000" "jsize (register_json (both_marks [(dev_b, 1), (dev_a, 1)])) \<le> 4000"
  by (simp_all add: register_json_def head_json_def mark_a_def gone_a_def mark_b_def both_marks_def demo_mark_def dev_ok show_ones)

lemma small_record: "jsize j \<le> 4000 \<Longrightarrow> length (canonical_json j) \<le> MAX_RECORD_BYTES"
  using length_canonical [of j] by (simp add: MAX_RECORD_BYTES_def)

lemma demo_null: "clean_value demo_sync ''bookmarks'' ''b'' JNull = Inr JNull"
  by code_simp

lemma demo_mark_ids: "scope_id (JStr ''bookmarks'') = Inr ''bookmarks''" "entity_id (JStr ''b'') = Inr ''b''"
  by code_simp+

lemma json_ok_mark: "json_ok demo_mark"
  by (simp add: demo_mark_def)

lemma demo_valid: "valid_register demo_sync ''bookmarks'' ''b'' mark_a" "valid_register demo_sync ''bookmarks'' ''b'' gone_a"
  "valid_register demo_sync ''bookmarks'' ''b'' mark_b" "valid_register demo_sync ''bookmarks'' ''b'' (both_marks [(dev_a, 1), (dev_b, 1)])"
  "valid_register demo_sync ''bookmarks'' ''b'' (both_marks [(dev_b, 1), (dev_a, 1)])"
  unfolding valid_register_def using demo_size dev_less
  by (simp_all add: demo_mark_ids small_record json_ok_mark check_binding_def head_ok_def demo_clean demo_null clock_ok_def dev_ok MAX_ACTORS_def MAX_COUNTER_def
      mark_a_def gone_a_def mark_b_def both_marks_def)

lemmas merge_simps = merge_registers_def merged_clock_def merged_heads_def surviving_def head_at_def dot_of_def counter_of_def

lemma demo_merges:
  "merge_registers empty_register mark_a = Inr mark_a" "merge_registers empty_register mark_b = Inr mark_b"
  "merge_registers mark_a mark_b = Inr (both_marks [(dev_a, 1), (dev_b, 1)])" "merge_registers mark_b mark_a = Inr (both_marks [(dev_b, 1), (dev_a, 1)])"
  "merge_registers (both_marks [(dev_b, 1), (dev_a, 1)]) mark_b = Inr (both_marks [(dev_b, 1), (dev_a, 1)])"
  "merge_registers gone_a mark_a = Inr gone_a"
  using dev_less
  by (simp_all add: merge_simps empty_register_def mark_a_def mark_b_def gone_a_def both_marks_def MAX_ACTORS_def)

lemma merge_json:
  assumes "valid_register L scope i l" "valid_register L scope i r" "merge_registers l r = Inr m" "valid_register L scope i m"
  shows "merge L scope i (register_json l) (register_json r) = Inr (register_json m)"
  using assms by (simp add: merge_def validate_register_json)

end
