(* ===== verification/Sync_Guarantees.thy ===== *)
theory Sync_Guarantees
  imports Sync_Demo
begin

section \<open>Guarantees of the synced replicas\<close>

text \<open>Convergence of replicas, and that an old snapshot never brings back a value that was replaced or deleted, and the contracts of the replica store.\<close>

text \<open>C4: Replicas converge. Two replicas that start from nothing and merge the same set of records for an entity, each in its
  own order and as often as it likes, hold records with the same canonical bytes, hence the same revision.
\<close>

theorem replicas_converge:
  assumes "set xs = set ys" "list_all json_ok xs" "scope \<in> set SCOPES" "entity_id (JStr identifier) = Inr identifier"
    and a: "merge_all (merge L scope identifier) (register_json empty_register) xs = Inr a"
    and b: "merge_all (merge L scope identifier) (register_json empty_register) ys = Inr b"
  shows "canonical_json a = canonical_json b"
proof -
  let ?e = "register_json empty_register"
  have j: "json_ok ?e" "list_all json_ok ys" using assms(1,2) by (simp_all add: register_json_def empty_register_def list_all_iff)
  note s = empty_settled [OF assms(3,4)]
  have e: "sync_ok L scope identifier ?e" using settled_validate [OF s] j(1) by (auto simp: sync_ok_def)
  have "sync_state_of L scope identifier a = sync_state_of L scope identifier b"
    using merge_all_inputs [OF j(1) assms(2) a] merge_all_inputs [OF j b] assms(1)
    by (intro sync.merge_all_same [OF e _ a e _ b]) simp_all
  moreover have "settled L scope identifier a" "settled L scope identifier b"
    using merge_all_settled [OF disjI1 [OF s] j(1) assms(2) a] merge_all_settled [OF disjI1 [OF s] j b] by blast+
  ultimately show ?thesis using settled_validate same_state_same_bytes by metis
qed


lemma demo_empty: "register_json empty_register = register_json \<lparr>rg_clock = [], rg_heads = [], rg_erased = False\<rparr>"
  by (simp add: empty_register_def)

lemma demo_valid_empty: "valid_register demo_sync ''bookmarks'' ''b'' empty_register"
  using erased_size [of "[]" False]
  by (simp add: valid_register_def demo_mark_ids empty_register_def clock_ok_def MAX_ACTORS_def check_binding_def)

lemmas demo_merge = merge_json [OF demo_valid_empty demo_valid(1) demo_merges(1) demo_valid(1)]
  merge_json [OF demo_valid_empty demo_valid(3) demo_merges(2) demo_valid(3)]
  merge_json [OF demo_valid(1,3) demo_merges(3) demo_valid(4)] merge_json [OF demo_valid(3,1) demo_merges(4) demo_valid(5)]
  merge_json [OF demo_valid(5,3) demo_merges(5) demo_valid(5)] merge_json [OF demo_valid(2,1) demo_merges(6) demo_valid(2)]

lemma demo_json_ok: "json_ok (register_json mark_a)" "json_ok (register_json mark_b)" "json_ok (register_json gone_a)"
  by (simp_all add: register_json_def head_json_def mark_a_def mark_b_def gone_a_def json_ok_mark)

lemma replicas_converge_witness:
  "\<exists>a b. merge_all (merge demo_sync ''bookmarks'' ''b'') (register_json empty_register) [register_json mark_a, register_json mark_b] = Inr a
    \<and> merge_all (merge demo_sync ''bookmarks'' ''b'') (register_json empty_register) [register_json mark_b, register_json mark_a, register_json mark_b] = Inr b
    \<and> canonical_json a = canonical_json b"
  using replicas_converge [of "[register_json mark_a, register_json mark_b]" "[register_json mark_b, register_json mark_a, register_json mark_b]"
      "''bookmarks''" "''b''" demo_sync] demo_json_ok demo_mark_ids
  by (auto simp: demo_merge scope_id_Inr)

lemma live_cell: "join_state (Live f) (Live g) = Live g \<Longrightarrow> join_cell (f a) (g a) = g a"
  by (simp add: fun_eq_iff)

text \<open>C7: An old snapshot cannot resurrect a removed value. Whatever records a replica merges, its counters never go back, an
  erased entity stays erased and empty, and every value it then holds for an event it had already observed is a value it still held.
\<close>

theorem removed_stays_removed:
  assumes json: "json_ok x" "list_all json_ok ys" and x: "validate L scope identifier x = Inr r"
    and m: "merge_all (merge L scope identifier) x ys = Inr z"
  shows "\<exists>r'. validate L scope identifier z = Inr r' \<and> (\<forall>a. counter_of r a \<le> counter_of r' a)
    \<and> (rg_erased r \<longrightarrow> rg_erased r' \<and> rg_heads r' = [])
    \<and> (\<forall>h \<in> set (rg_heads r'). hd_counter h \<le> counter_of r (hd_actor h) \<longrightarrow>
        (\<exists>g \<in> set (rg_heads r). dot_of g = dot_of h \<and> canon (hd_value g) = canon (hd_value h)))"
proof -
  have "sync_ok L scope identifier x" using json(1) x by (simp add: sync_ok_def)
  moreover have "\<forall>y \<in> set ys. sync_ok L scope identifier y" using merge_all_inputs [OF json m] by blast
  ultimately have z: "sync_ok L scope identifier z" "join_state (sync_state_of L scope identifier x) (sync_state_of L scope identifier z) = sync_state_of L scope identifier z"
    using sync.merge_all_least [OF _ _ m] by (auto simp: sync.below_def)
  then obtain r' where r': "json_ok z" "validate L scope identifier z = Inr r'" by (auto simp: sync_ok_def)
  have ok: "register_ok r" "register_ok r'"
    using validate_facts(1) [OF json(1) x] validate_facts(1) [OF r'] valid_register_ok by blast+
  have j: "join_state (state_of r) (state_of r') = state_of r'" using z(2) by (simp add: sync_state_of_def x r'(2))
  have "counter_of r a \<le> counter_of r' a" for a
    using j by (auto simp: state_of_def fun_eq_iff dest!: spec [of _ a] split: if_splits)
  moreover have "rg_erased r \<longrightarrow> rg_erased r' \<and> rg_heads r' = []"
    using j ok(2) by (auto simp: state_of_def register_ok_def split: if_splits)
  moreover have "\<exists>g \<in> set (rg_heads r). dot_of g = dot_of h \<and> canon (hd_value g) = canon (hd_value h)"
    if h: "h \<in> set (rg_heads r')" "hd_counter h \<le> counter_of r (hd_actor h)" for h
  proof -
    let ?a = "hd_actor h"
    have live: "\<not> rg_erased r'" "\<not> rg_erased r" using h(1) ok(2) calculation(2) by (auto simp: register_ok_def)
    have a: "head_of r' ?a = Some h" using h(1) by (simp add: head_of_Some [OF ok(2)])
    then have c: "counter_of r ?a = counter_of r' ?a" "hd_counter h = counter_of r' ?a"
      using head_counter [OF ok(2) a] h(2) calculation(1) [of ?a] by simp_all
    have "join_cell (counter_of r ?a, map_option (\<lambda>h. canon (hd_value h)) (head_of r ?a)) (counter_of r' ?a, Some (canon (hd_value h)))
        = (counter_of r' ?a, Some (canon (hd_value h)))"
      using live_cell [OF j [unfolded state_of_def if_not_P [OF live(1)] if_not_P [OF live(2)]], of ?a] by (simp only: a option.map)
    then obtain g where g: "head_of r ?a = Some g" "canon (hd_value g) = canon (hd_value h)"
      by (auto simp: c(1) split: if_splits)
    then show ?thesis using c head_counter [OF ok(1) g(1)] head_of_Some [OF ok(1), of ?a g] by (auto simp: dot_of_def)
  qed
  ultimately show ?thesis using r'(2) by blast
qed


text \<open>An old snapshot with the bookmark arrives at a replica that deleted it.\<close>

lemma removed_stays_removed_witness:
  "\<exists>r'. validate demo_sync ''bookmarks'' ''b'' (register_json gone_a) = Inr r' \<and> (\<forall>h \<in> set (rg_heads r'). hd_counter h \<le> counter_of gone_a (hd_actor h) \<longrightarrow>
        (\<exists>g \<in> set (rg_heads gone_a). dot_of g = dot_of h \<and> canon (hd_value g) = canon (hd_value h)))"
  using removed_stays_removed [of "register_json gone_a" "[register_json mark_a]" demo_sync "''bookmarks''" "''b''" gone_a "register_json gone_a"]
    demo_json_ok validate_register_json [OF demo_valid(2)] by (auto simp: demo_merge)

subsection \<open>The store\<close>

text \<open>C5: The replica store never locks its owner out. From an empty store on, whatever methods are called, with whatever rows
  and receipts, the file it leaves passes every check the next read makes of it.
\<close>

theorem store_stays_readable:
  assumes "hash_law L U" "hex_text 64 actor"
  shows "read_checks L actor (replicas.run L U actor (new_replica actor) cs) = Inr ()"
  using replicas.run_inv [of L U actor "new_replica actor" cs] new_replica_ok [OF assms(2)] replica_ok_readable assms(1) by blast

definition demo_row :: json where
  "demo_row = JObj [(''scope'', JStr ''bookmarks''), (''id'', JStr ''b''), (''record'', register_json mark_a)]"

definition demo_scopes :: json where
  "demo_scopes = JArr [JStr ''bookmarks'']"

definition demo_received :: replica where
  "demo_received = put_record dev_a ''bookmarks'' ''b'' (register_json mark_a) (new_replica dev_a)"

definition demo_receipt :: json where
  "demo_receipt = JObj [(''scope'', JStr ''bookmarks''), (''id'', JStr ''b''), (''revision'', JStr dev_a)]"

lemma demo_finger: "fingerprint demo_sync j = dev_a"
  by (simp add: fingerprint_def demo_sync_def dev_a_def)

lemma demo_key: "entity_key demo_sync (JStr ''bookmarks'') (JStr ''b'') = Inr dev_a"
  by (simp add: entity_key_def demo_mark_ids demo_finger)

lemma demo_selected: "select_scopes demo_scopes = Inr [''bookmarks'']"
  by (simp add: demo_scopes_def select_scopes_def is_list_def jlist_def demo_mark_ids)

lemma demo_row_fields: "is_obj demo_row" "keys_are demo_row [''scope'', ''id'', ''record'']" "jfield ''scope'' demo_row = JStr ''bookmarks''"
  "jfield ''id'' demo_row = JStr ''b''" "jfield ''record'' demo_row = register_json mark_a" "names [(''bookmarks'', ''b'')] demo_row"
  using demo_json_ok(1) by (simp_all add: demo_row_def is_obj_def keys_are_def jkeys_def jfield_def jget_def names_def)

lemma demo_merge_row: "merge_row demo_sync ''bookmarks'' ''b'' (record_at (new_replica dev_a) dev_a) (register_json mark_a) = Inr (register_json mark_a)"
proof -
  have "canonical_json (register_json empty_register) \<noteq> canonical_json (register_json mark_a)"
  proof
    assume "canonical_json (register_json empty_register) = canonical_json (register_json mark_a)"
    then have "map_option canon (jget ''heads'' (register_json empty_register)) = map_option canon (jget ''heads'' (register_json mark_a))"
      using canonical_json_inj jget_canon by metis
    then show False by (simp add: register_json_def jget_def empty_register_def mark_a_def)
  qed
  then show ?thesis by (simp add: merge_row_def record_at_def new_replica_def demo_merge)
qed

lemma demo_import: "merge_rows demo_sync True [''bookmarks''] [demo_row] (new_replica dev_a) = Inr (demo_received, [demo_receipt])"
proof -
  have "release_row dev_a demo_received = demo_received" by (simp add: release_row_def demo_received_def put_record_def new_replica_def)
  then have "place_row demo_sync True dev_a ''bookmarks'' ''b'' (register_json mark_a) (new_replica dev_a) = Inr (demo_received, demo_receipt)"
    by (simp add: place_row_def Let_def demo_merge_row demo_received_def [symmetric] sync_receipt_def demo_finger demo_receipt_def)
  then have "import_row demo_sync True [''bookmarks''] [] demo_row (new_replica dev_a) = Inr (demo_received, dev_a, demo_receipt)"
    by (simp add: import_row_def demo_row_fields demo_mark_ids demo_key)
  then show ?thesis by (simp add: merge_rows_def)
qed

lemma demo_store_size: "jsize (replica_json (demo_received\<lparr>rp_receipts := []\<rparr>)) \<le> 9000"
  "jsize (replica_json (demo_received\<lparr>rp_receipts := [(dev_b, [(dev_a, dev_a)])]\<rparr>)) \<le> 9000"
  using demo_size(1) by (simp_all add: replica_json_def demo_received_def put_record_def new_replica_def row_json_def REPLICA_VERSION_def dev_ok)

lemma small_store: "jsize j \<le> 9000 \<Longrightarrow> length (canonical_json j) \<le> MAX_PLAINTEXT" "jsize j \<le> 9000 \<Longrightarrow> length (canonical_json j) \<le> MAX_BATCH_BYTES"
  using length_canonical [of j] by (simp_all add: MAX_PLAINTEXT_def MAX_BATCH_BYTES_def)

lemma demo_receive: "receive demo_sync dev_a (JArr [demo_row]) demo_scopes (new_replica dev_a) = Inr (demo_received, [demo_receipt])"
proof -
  have "jsize (JArr [demo_row]) \<le> 9000" using demo_size(1) by (simp add: demo_row_def)
  moreover have "demo_received\<lparr>rp_receipts := []\<rparr> = demo_received" by (simp add: demo_received_def put_record_def new_replica_def)
  then have "length (canonical_json (replica_json demo_received)) \<le> MAX_PLAINTEXT" using small_store(1) [OF demo_store_size(1)] by simp
  moreover have "read_checks demo_sync dev_a (new_replica dev_a) = Inr ()"
    using replica_ok_readable [OF demo_law new_replica_ok] dev_ok(1) by blast
  moreover have "length (rp_records demo_received) \<le> MAX_ENTITIES" "rp_quarantine demo_received = []"
    by (simp_all add: demo_received_def put_record_def new_replica_def MAX_ENTITIES_def)
  ultimately show ?thesis
    by (simp add: receive_def demo_selected is_list_def jlist_def MAX_BATCH_def small_store(2) mutate_def demo_import)
qed

lemma demo_step: "sync_step demo_sync [(''bookmarks'', ''b'')] dev_a (new_replica dev_a) (Sync_Receive (JArr [demo_row]) demo_scopes) = Inr demo_received"
  by (simp add: sync_step_def jlist_def demo_row_fields(6) demo_receive)

lemma store_stays_readable_witness:
  "read_checks demo_sync dev_a demo_received = Inr ()"
  using store_stays_readable [OF demo_law dev_ok(1), of "[Sync_Receive (JArr [demo_row]) demo_scopes]"] by (simp add: replicas.attempt_def demo_step)


text \<open>C6: A change is never lost. A row of the selected scopes that is not pending for a device was acknowledged by that very
  device, in a receipt for this entity that names the revision the replica holds now; what only older receipts cover stays pending.
\<close>

theorem only_acknowledged_rest:
  assumes R: "R = replicas.run L U actor (new_replica actor) cs" and row: "(key, row) \<in> set (rp_records R)"
    and scope: "sr_scope row \<in> set selected" and rest: "row \<notin> set (unacknowledged L R device selected)"
  shows "\<exists>c \<in> set cs. \<exists>receipt \<in> set (call_receipts device c). entity_key L (jfield ''scope'' receipt) (jfield ''id'' receipt) = Inr key
    \<and> jfield ''revision'' receipt = JStr (fingerprint L (sr_record row))"
proof -
  have "map_of (receipts_of R device) key = Some (fingerprint L (sr_record row))"
    using row scope rest by (force simp: unacknowledged_def)
  from run_receipts [OF this [unfolded R]] show ?thesis
    by (auto simp: confirms_def new_replica_def receipts_of_def)
qed

lemma demo_acknowledge: "acknowledge demo_sync dev_a (JStr dev_b) (JArr [demo_receipt]) demo_scopes demo_received
  = Inr (demo_received\<lparr>rp_receipts := [(dev_b, [(dev_a, dev_a)])]\<rparr>, 1, 0)"
proof -
  have r: "is_obj demo_receipt" "set (jkeys demo_receipt) - {''rejected''} = {''scope'', ''id'', ''revision''}" "jfield ''scope'' demo_receipt = JStr ''bookmarks''"
    "jfield ''id'' demo_receipt = JStr ''b''" "jfield ''revision'' demo_receipt = JStr dev_a" "jget ''rejected'' demo_receipt = None"
    by (auto simp: demo_receipt_def is_obj_def jkeys_def jfield_def jget_def)
  have c: "confirm demo_sync demo_received [''bookmarks''] [] [demo_receipt] ([], 0) = Inr ([(dev_a, dev_a)], 1)"
    by (simp add: receipt_ok_def r demo_mark_ids demo_key actor_id_ok dev_ok demo_finger) (simp add: demo_received_def put_record_def new_replica_def)
  have f: "rp_receipts demo_received = []" "receipts_of demo_received dev_b = []" "rp_quarantine demo_received = []" "length (rp_records demo_received) \<le> MAX_ENTITIES"
    by (simp_all add: demo_received_def put_record_def new_replica_def receipts_of_def MAX_ENTITIES_def)
  have "acknowledge_rows demo_sync dev_b [demo_receipt] [''bookmarks''] demo_received
    = Inr (demo_received\<lparr>rp_receipts := [(dev_b, [(dev_a, dev_a)])]\<rparr>, 1, 0)"
    using c by (simp add: acknowledge_rows_def f MAX_ACTORS_def)
  moreover have "read_checks demo_sync dev_a demo_received = Inr ()"
    using replicas.step_inv [OF _ demo_step] demo_law new_replica_ok [OF dev_ok(1)] replica_ok_readable [OF demo_law] by blast
  ultimately show ?thesis
    by (simp add: acknowledge_def actor_id_ok dev_ok demo_selected is_list_def jlist_def MAX_BATCH_def mutate_def f small_store(1) [OF demo_store_size(2)])
qed

text \<open>The row arrives, the other device acknowledges it, and nothing is pending for that device.\<close>

lemma only_acknowledged_rest_witness:
  "\<exists>c \<in> {Sync_Receive (JArr [demo_row]) demo_scopes, Sync_Acknowledge (JStr dev_b) (JArr [demo_receipt]) demo_scopes}.
     \<exists>receipt \<in> set (call_receipts dev_b c). jfield ''revision'' receipt = JStr (fingerprint demo_sync (register_json mark_a))"
proof -
  let ?R = "demo_received\<lparr>rp_receipts := [(dev_b, [(dev_a, dev_a)])]\<rparr>" and ?row = "\<lparr>sr_scope = ''bookmarks'', sr_id = ''b'', sr_record = register_json mark_a\<rparr>"
    and ?cs = "[Sync_Receive (JArr [demo_row]) demo_scopes, Sync_Acknowledge (JStr dev_b) (JArr [demo_receipt]) demo_scopes]"
  have step: "sync_step demo_sync [(''bookmarks'', ''b'')] dev_a demo_received (Sync_Acknowledge (JStr dev_b) (JArr [demo_receipt]) demo_scopes) = Inr ?R"
    by (simp add: sync_step_def demo_acknowledge)
  have "?R = replicas.run demo_sync [(''bookmarks'', ''b'')] dev_a (new_replica dev_a) ?cs"
    by (simp add: replicas.attempt_def demo_step step)
  moreover have "(dev_a, ?row) \<in> set (rp_records ?R)" by (simp add: demo_received_def put_record_def new_replica_def)
  moreover have "unacknowledged demo_sync ?R dev_b [''bookmarks''] = []"
    by (simp add: unacknowledged_def demo_finger receipts_of_def demo_received_def put_record_def new_replica_def)
  ultimately show ?thesis using only_acknowledged_rest [of ?R demo_sync "[(''bookmarks'', ''b'')]" dev_a ?cs dev_a ?row "[''bookmarks'']" dev_b] by auto
qed

text \<open>The record was joined with the row, or the row had the same bytes and the record was left alone.\<close>

definition row_joined :: "sync_lib \<Rightarrow> replica \<Rightarrow> replica \<Rightarrow> json \<Rightarrow> json \<Rightarrow> bool" where
  "row_joined L R S row receipt \<longleftrightarrow> (\<exists>scope i key. jfield ''scope'' row = JStr scope \<and> jfield ''id'' row = JStr i
     \<and> entity_key L (JStr scope) (JStr i) = Inr key \<and> receipt = sync_receipt scope i (fingerprint L (jfield ''record'' row)) None
     \<and> (record_at S key = record_at R key \<and> canonical_json (record_at R key) = canonical_json (jfield ''record'' row)
       \<or> sync_state_of L scope i (record_at S key) = join_state (sync_state_of L scope i (record_at R key)) (sync_state_of L scope i (jfield ''record'' row))))"

lemma merged_joined:
  assumes law: "hash_law L U" and ok: "replica_core L U actor R" and n: "names U row" and m: "row_merged L R S row receipt"
  shows "row_joined L R S row receipt"
proof -
  let ?rec = "jfield ''record'' row"
  obtain scope i key where e: "jfield ''scope'' row = JStr scope" "jfield ''id'' row = JStr i" "entity_key L (JStr scope) (JStr i) = Inr key"
    "receipt = sync_receipt scope i (fingerprint L ?rec) None" and m: "merge_row L scope i (record_at R key) ?rec = Inr (record_at S key)"
    using m unfolding row_merged_def by blast
  have names: "(scope, i) \<in> set U" "json_ok ?rec" using n e jfield_json_ok by (auto simp: names_def)
  note at = core_record_at [OF law ok e(3) names(1)]
  have x: "sync_ok L scope i (record_at R key)" using settled_validate [OF at(1)] at(2) by (auto simp: sync_ok_def)
  show ?thesis
  proof (cases "canonical_json (record_at R key) = canonical_json ?rec")
    case True
    then have "record_at S key = record_at R key" using m by (simp add: merge_row_def)
    with True e show ?thesis unfolding row_joined_def by blast
  next
    case False
    then have m: "merge L scope i (record_at R key) ?rec = Inr (record_at S key)" using m by (simp add: merge_row_def)
    have "sync_ok L scope i ?rec" by (rule merge_facts [OF at(2) names(2) m]) (use names(2) in \<open>simp add: sync_ok_def\<close>)
    from sync.merges_join [OF x this m] e show ?thesis unfolding row_joined_def by blast
  qed
qed

text \<open>C8: Receiving a batch is the join, row by row. Each row is answered in order with the revision it had, either merged, and then the
  replica holds the join of what it held and the row (or held the same bytes already), or refused with the code of the merge, and then nothing
  changes for it. Records the batch does not name and all acknowledgements stay as they are.
\<close>

theorem receive_joins:
  assumes law: "hash_law L U" and ok: "replica_ok L U actor R" and n: "list_all (names U) (jlist rows)"
    and r: "receive L actor rows scopes R = Inr (S, rcs)"
  shows "list_all2 (\<lambda>row receipt. row_joined L R S row receipt \<or> row_refused L R S row receipt) (jlist rows) rcs
    \<and> (\<forall>k. (\<forall>row \<in> set (jlist rows). entity_key L (jfield ''scope'' row) (jfield ''id'' row) \<noteq> Inr k) \<longrightarrow> map_of (rp_records S) k = map_of (rp_records R) k)
    \<and> rp_receipts S = rp_receipts R"
proof -
  obtain selected keys where i: "import_rows L True selected [] (jlist rows) R = Inr (S, keys, rcs)"
    using r by (auto simp: receive_def guard_simps mutate_Inr merge_rows_def)
  note o = import_rows_outcome [OF i]
  have "list_all2 (\<lambda>row receipt. row_joined L R S row receipt \<or> row_refused L R S row receipt) (jlist rows) rcs"
    by (rule list.rel_mono_strong [OF o(1)]) (use merged_joined [OF law] ok n in \<open>auto simp: list_all_iff replica_ok_def\<close>)
  then show ?thesis using o(3) import_rows_receipts [OF i] by blast
qed

lemma receive_joins_witness:
  "row_joined demo_sync (new_replica dev_a) demo_received demo_row demo_receipt"
proof -
  have "\<not> row_refused demo_sync (new_replica dev_a) demo_received demo_row demo_receipt"
    by (simp add: row_refused_def sync_receipt_def demo_receipt_def)
  then show ?thesis
    using receive_joins [OF demo_law new_replica_ok [OF dev_ok(1)] _ demo_receive] by (simp add: jlist_def demo_row_fields(6))
qed

end
