(* ===== verification/Shared_Reading.thy ===== *)
theory Shared_Reading
  imports Sync_Records Task_Envelopes
begin

section \<open>Shared reading lists\<close>

text \<open>
  \<open>src/rynmesh/shared_reading/service.py\<close> and \<open>store.py\<close>: a list is created by one friend, who applies all edits in
  sequence; the other member queues its edits and sends them one by one. \<open>shared_list\<close> is the dict of a list, \<open>edit_op\<close> a queued
  operation. Items stay JSON, because a member stores what the owner answered; of a receipt only the sequence and the digest,
  which are all that is read of it, are kept. The record \<open>list_node\<close> holds what a node brings along: SHA-256 and the check of
  bracketed hosts, the box of its messaging key, its peer id, and whether the encrypted file of a state fits its limit. The
  friendships are a function \<open>friends\<close>, which may change between calls. A method whose operation raises leaves the stored lists as they were.
  The store compares canonical JSON to see whether an operation changed anything; here a new order of keys counts as a change as well.
\<close>

record friend =
  fr_id :: string
  fr_peer :: string
  fr_status :: string
  fr_name :: string
  fr_pub :: string

type_synonym friends = "string \<Rightarrow> friend option"

record edit_op =
  eo_id :: string
  eo_sequence :: int
  eo_action :: string
  eo_value :: json

record shared_list =
  ls_id :: string
  ls_owner :: string
  ls_friend :: string
  ls_relationship :: string
  ls_title :: string
  ls_status :: string
  ls_revision :: int
  ls_items :: "(string, json) dict"
  ls_receipts :: "(string, int \<times> string) dict"
  ls_pending :: "edit_op list"
  ls_cancelled :: "edit_op list"
  ls_error :: string
  ls_local :: "(string, string) dict"
  ls_last :: "string option"

type_synonym lists = "(string, shared_list) dict"

record list_node =
  nd_lib :: sync_lib
  nd_box :: box
  nd_key :: string
  nd_peer :: string
  nd_fits :: "lists \<Rightarrow> bool"

definition LIST_WIRE :: string where "LIST_WIRE = ''ryn.shared-reading-wire.v1''"
definition LIST_CHANNEL :: string where "LIST_CHANNEL = ''rynmesh-shared-reading-wire-v1''"
definition MAX_WIRE :: nat where "MAX_WIRE = 1024 * 1024"

abbreviation bad_request :: py_error where "bad_request \<equiv> Raised ''shared_request_invalid''"
abbreviation bad_response :: py_error where "bad_response \<equiv> Raised ''shared_response_invalid''"
abbreviation list_inactive :: py_error where "list_inactive \<equiv> Raised ''shared_list_inactive''"
abbreviation friend_inactive :: py_error where "friend_inactive \<equiv> Raised ''shared_friend_inactive''"
abbreviation op_changed :: py_error where "op_changed \<equiv> Raised ''shared_operation_changed''"
abbreviation list_capacity :: py_error where "list_capacity \<equiv> Raised ''shared_capacity''"

subsection \<open>Values\<close>

definition list_identity :: "json \<Rightarrow> py_error + string" where
  "list_identity value = (case value of JStr s \<Rightarrow> require (hex_text 32 s) bad_request (Inr s) | _ \<Rightarrow> Inl bad_request)"

definition py_strip :: "string \<Rightarrow> string" where
  "py_strip s = rev (dropWhile py_isspace (rev (dropWhile py_isspace s)))"

definition list_text :: "json \<Rightarrow> nat \<Rightarrow> py_error + string" where
  "list_text value limit = (case value of
     JStr s \<Rightarrow> require (py_strip s \<noteq> [] \<and> length (utf8 s) \<le> limit) bad_request (Inr (py_strip s)) | _ \<Rightarrow> Inl bad_request)"

definition list_digest :: "list_node \<Rightarrow> json \<Rightarrow> string" where
  "list_digest N value = sha256 (sl_crypto (nd_lib N)) (canonical_json value)"

text \<open>
  \<open>urlsplit\<close> drops leading control characters and spaces, and tabs and line ends anywhere; a URL it cannot parse is a
  ValueError. The user name and the password are empty or absent when nothing but a colon is before the last \<open>@\<close>.
\<close>

definition split_link :: "list_node \<Rightarrow> string \<Rightarrow> (string \<times> string) option" where
  "split_link N url = url_split (nd_lib N)
     (filter (\<lambda>c. c \<notin> {CHR 0x09, CHR 0x0A, CHR 0x0D}) (dropWhile (\<lambda>c. (of_char c :: nat) \<le> 32) url))"

definition host_part :: "string \<Rightarrow> string" where
  "host_part netloc = rev (takeWhile (\<lambda>c. c \<noteq> CHR ''@'') (rev netloc))"

definition user_part :: "string \<Rightarrow> string" where
  "user_part netloc = take (length netloc - length (host_part netloc) - 1) netloc"

definition public_link :: "list_node \<Rightarrow> string \<Rightarrow> py_error \<Rightarrow> py_error + unit" where
  "public_link N url e = (case split_link N url of None \<Rightarrow> Inl ValueError
     | Some (scheme, netloc) \<Rightarrow> require ((scheme = ''https'' \<or> scheme = ''http'') \<and> url_host (host_part netloc) \<noteq> []
         \<and> (user_part netloc = [] \<or> user_part netloc = '':'')) e (Inr ()))"

definition EDIT_KEYS :: "(string \<times> string list) list" where
  "EDIT_KEYS = [(''add'', [''id'', ''title'', ''url'']), (''read'', [''id'', ''read'']), (''remove'', [''id'']), (''close'', [])]"

definition validate_edit :: "list_node \<Rightarrow> json \<Rightarrow> json \<Rightarrow> py_error + string" where
  "validate_edit N action value =
     bnd (dict_get EDIT_KEYS action) (\<lambda>keys.
     require (keys \<noteq> None \<and> is_obj value \<and> keys_are value (the keys)) bad_request (
     bnd (if action = JStr ''close'' then Inr [] else list_identity (jfield ''id'' value)) (\<lambda>_.
     require (action = JStr ''read'' \<longrightarrow> is_bool (jfield ''read'' value)) bad_request (
     bnd (if action = JStr ''add'' then bnd (list_text (jfield ''title'' value) 500) (\<lambda>_. bnd (list_text (jfield ''url'' value) 2048) (\<lambda>url.
         public_link N url (Raised ''shared_link_invalid''))) else Inr ()) (\<lambda>_.
     Inr (py_str action))))))"

definition op_json :: "edit_op \<Rightarrow> json" where
  "op_json op = JObj [(''id'', JStr (eo_id op)), (''sequence'', JInt (eo_sequence op)), (''action'', JStr (eo_action op)), (''value'', eo_value op)]"

definition receipt_of :: "shared_list \<Rightarrow> string \<Rightarrow> int \<times> string" where
  "receipt_of row peer = (case map_of (ls_receipts row) peer of None \<Rightarrow> (0, []) | Some r \<Rightarrow> r)"

definition receipt_dict :: "int \<times> string \<Rightarrow> json" where
  "receipt_dict r = JObj [(''sequence'', JInt (fst r)), (''digest'', JStr (snd r))]"

definition list_snapshot :: "shared_list \<Rightarrow> json" where
  "list_snapshot row = JObj [(''id'', JStr (ls_id row)), (''owner'', JStr (ls_owner row)), (''friend'', JStr (ls_friend row)),
     (''relationship_id'', JStr (ls_relationship row)), (''title'', JStr (ls_title row)), (''status'', JStr (ls_status row)),
     (''revision'', JInt (ls_revision row)), (''items'', JObj (ls_items row)),
     (''receipts'', JObj (map (map_prod id receipt_dict) (ls_receipts row)))]"

subsection \<open>The store and the friendship\<close>

definition list_mutate :: "list_node \<Rightarrow> (lists \<Rightarrow> py_error + (lists \<times> 'a)) \<Rightarrow> lists \<Rightarrow> py_error + (lists \<times> 'a)" where
  "list_mutate N operation S =
     require (length S \<le> 32) (Raised ''shared_store_unavailable'') (
     bnd (operation S) (\<lambda>(T, answer).
     if T = S then Inr (S, answer) else require (length T \<le> 32 \<and> nd_fits N T) list_capacity (Inr (T, answer))))"

definition active_friend :: "friends \<Rightarrow> json \<Rightarrow> string option \<Rightarrow> py_error + friend" where
  "active_friend F rid peer = bnd (list_identity rid) (\<lambda>r. case F r of None \<Rightarrow> Inl friend_inactive
     | Some f \<Rightarrow> require (fr_status f = ''active'' \<and> (case peer of None \<Rightarrow> True | Some p \<Rightarrow> fr_peer f = p)) friend_inactive (Inr f))"

definition other_member :: "list_node \<Rightarrow> shared_list \<Rightarrow> string" where
  "other_member N row = (if ls_owner row = nd_peer N then ls_friend row else ls_owner row)"

text \<open>An entry of the owner's page: the row, how much is queued and cancelled, whose page it is, whether the list is blocked, and the name of the friend.\<close>

definition list_entry :: "list_node \<Rightarrow> friends \<Rightarrow> shared_list \<Rightarrow> shared_list \<times> nat \<times> nat \<times> string \<times> bool \<times> string" where
  "list_entry N F row = (row\<lparr>ls_pending := [], ls_cancelled := []\<rparr>, length (ls_pending row), length (ls_cancelled row), nd_peer N,
     (case active_friend F (JStr (ls_relationship row)) (Some (other_member N row)) of Inr f \<Rightarrow> (False, fr_name f) | Inl _ \<Rightarrow> (True, ''Inactive friend'')))"

definition shared_listing :: "list_node \<Rightarrow> friends \<Rightarrow> lists \<Rightarrow> (shared_list \<times> nat \<times> nat \<times> string \<times> bool \<times> string) list" where
  "shared_listing N F S = map (list_entry N F) (dict_vals S)"

definition create_row :: "list_node \<Rightarrow> friend \<Rightarrow> string \<Rightarrow> string \<Rightarrow> string \<Rightarrow> lists \<Rightarrow> py_error + (lists \<times> shared_list)" where
  "create_row N friend rid i t S = (case map_of S i of
     Some prior \<Rightarrow> require (ls_owner prior = nd_peer N \<and> ls_friend prior = fr_peer friend \<and> ls_title prior = t) op_changed (Inr (S, prior))
   | None \<Rightarrow>
       let row = \<lparr>ls_id = i, ls_owner = nd_peer N, ls_friend = fr_peer friend, ls_relationship = rid, ls_title = t, ls_status = ''invited'',
         ls_revision = 1, ls_items = [], ls_receipts = [], ls_pending = [], ls_cancelled = [], ls_error = [], ls_local = [], ls_last = None\<rparr> in
       Inr (dict_put i row S, row))"

definition create_list :: "list_node \<Rightarrow> friends \<Rightarrow> json \<Rightarrow> json \<Rightarrow> json \<Rightarrow> lists \<Rightarrow> py_error + (lists \<times> shared_list)" where
  "create_list N F rid title identifier S =
     bnd (active_friend F rid None) (\<lambda>friend. bnd (list_identity identifier) (\<lambda>i. bnd (list_text title 300) (\<lambda>t.
     list_mutate N (create_row N friend (py_str rid) i t) S)))"

definition owner_row :: "list_node \<Rightarrow> friends \<Rightarrow> lists \<Rightarrow> json \<Rightarrow> string \<Rightarrow> bool \<Rightarrow> py_error + shared_list" where
  "owner_row N F S identifier peer active =
     bnd (list_identity identifier) (\<lambda>i. bnd (opt_or (Raised ''shared_list_unavailable'') (map_of S i)) (\<lambda>row.
     require (ls_owner row = nd_peer N \<and> (peer = ls_owner row \<or> peer = ls_friend row)) (Raised ''shared_list_unavailable'') (
     bnd (active_friend F (JStr (ls_relationship row)) (Some (ls_friend row))) (\<lambda>_.
     require (active \<longrightarrow> ls_status row = ''active'') list_inactive (Inr row)))))"

subsection \<open>Applying an edit\<close>

definition new_item :: "string \<Rightarrow> string \<Rightarrow> string \<Rightarrow> string \<Rightarrow> json" where
  "new_item i title url peer = JObj [(''id'', JStr i), (''title'', JStr title), (''url'', JStr url), (''added_by'', JStr peer),
     (''read_by'', JObj []), (''removed'', JBool False)]"

definition put_field :: "string \<Rightarrow> json \<Rightarrow> json \<Rightarrow> json" where
  "put_field k v j = (case j of JObj d \<Rightarrow> JObj (dict_put k v d) | _ \<Rightarrow> j)"

definition mark_read :: "string \<Rightarrow> json \<Rightarrow> json \<Rightarrow> py_error + json" where
  "mark_read peer flag item = bnd (jitem ''removed'' item) (\<lambda>removed. if truthy removed then Inr item
     else bnd (jitem ''read_by'' item) (\<lambda>marks. require (is_obj marks) TypeError (
       Inr (put_field ''read_by'' (put_field peer flag marks) item))))"

definition removed_item :: "json \<Rightarrow> json" where
  "removed_item item = put_field ''read_by'' (JObj []) (put_field ''url'' (JStr []) (put_field ''title'' (JStr []) (put_field ''removed'' (JBool True) item)))"

definition change_items :: "list_node \<Rightarrow> string \<Rightarrow> json \<Rightarrow> json \<Rightarrow> shared_list \<Rightarrow> py_error + shared_list" where
  "change_items N peer action value row =
     (if action = JStr ''add'' then
        require (keys_are value [''id'', ''title'', ''url'']) bad_request (
        bnd (list_identity (jfield ''id'' value)) (\<lambda>i.
        bnd (list_text (jfield ''title'' value) 500) (\<lambda>title. bnd (list_text (jfield ''url'' value) 2048) (\<lambda>url.
        bnd (public_link N url (Raised ''shared_link_invalid'')) (\<lambda>_.
        require (map_of (ls_items row) i = None \<and> length (ls_items row) < 256) list_capacity (
        Inr (row\<lparr>ls_items := dict_put i (new_item i title url peer) (ls_items row)\<rparr>)))))))
      else bnd (in_strings action [''read'', ''remove'']) (\<lambda>known. if known then
        require (keys_are value (if action = JStr ''read'' then [''id'', ''read''] else [''id''])) bad_request (
        bnd (list_identity (jfield ''id'' value)) (\<lambda>i.
        bnd (opt_or (Raised ''shared_item_unavailable'') (map_of (ls_items row) i)) (\<lambda>item.
        require (truthy item) (Raised ''shared_item_unavailable'') (
        if action = JStr ''read'' then
          require (is_bool (jfield ''read'' value)) bad_request (
          bnd (mark_read peer (jfield ''read'' value) item) (\<lambda>marked. Inr (row\<lparr>ls_items := dict_put i marked (ls_items row)\<rparr>)))
        else Inr (row\<lparr>ls_items := dict_put i (removed_item item) (ls_items row)\<rparr>)))))
      else if action = JStr ''close'' then require (\<not> truthy value) bad_request (Inr (row\<lparr>ls_status := ''closed''\<rparr>))
      else Inl bad_request))"

definition apply_edit :: "list_node \<Rightarrow> friends \<Rightarrow> json \<Rightarrow> string \<Rightarrow> json \<Rightarrow> lists \<Rightarrow> py_error + (lists \<times> shared_list)" where
  "apply_edit N F identifier peer operation S =
     bnd (owner_row N F S identifier peer False) (\<lambda>row.
     require (is_obj operation \<and> keys_are operation [''id'', ''sequence'', ''action'', ''value'']) bad_request (
     bnd (list_identity (jfield ''id'' operation)) (\<lambda>_.
     let prior = receipt_of row peer; stamp = list_digest N operation; value = jfield ''value'' operation in
     case jfield ''sequence'' operation of
       JInt n \<Rightarrow> require (1 \<le> n \<and> n \<le> 10 ^ 9) bad_request (
         if n = fst prior then require (snd prior = stamp) op_changed (Inr (S, row))
         else require (n = fst prior + 1) (Raised ''shared_sequence_changed'') (
           require (ls_status row = ''active'') list_inactive (
           require (is_obj value) bad_request (
           bnd (change_items N peer (jfield ''action'' operation) value row) (\<lambda>next.
           let done = next\<lparr>ls_revision := ls_revision next + 1, ls_receipts := dict_put peer (n, stamp) (ls_receipts next)\<rparr> in
           Inr (dict_put (py_str identifier) done S, done))))))
     | _ \<Rightarrow> Inl bad_request)))"

subsection \<open>Editing\<close>

definition edit_stamp :: "list_node \<Rightarrow> string \<Rightarrow> json \<Rightarrow> string" where
  "edit_stamp N action value = list_digest N (JObj [(''action'', JStr action), (''value'', value)])"

definition next_op :: "list_node \<Rightarrow> shared_list \<Rightarrow> string \<Rightarrow> string \<Rightarrow> json \<Rightarrow> edit_op" where
  "next_op N row op_id action value = \<lparr>eo_id = op_id, eo_sequence = fst (receipt_of row (nd_peer N)) + int (length (ls_pending row)) + 1,
     eo_action = action, eo_value = value\<rparr>"

definition own_edit :: "list_node \<Rightarrow> friends \<Rightarrow> string \<Rightarrow> shared_list \<Rightarrow> edit_op \<Rightarrow> string \<Rightarrow> lists \<Rightarrow> py_error + (lists \<times> shared_list)" where
  "own_edit N F i row operation stamp S =
     (if ls_last row = Some (eo_id operation) then
        bnd (opt_or TypeError (map_of (ls_receipts row) (nd_peer N))) (\<lambda>receipt.
        require (list_digest N (op_json (operation\<lparr>eo_sequence := fst receipt\<rparr>)) = snd receipt) op_changed (Inr (S, row)))
      else bnd (apply_edit N F (JStr i) (nd_peer N) (op_json operation) S) (\<lambda>(T, done).
        let kept = done\<lparr>ls_last := Some (eo_id operation), ls_local := dict_put (eo_id operation) stamp (ls_local done)\<rparr> in
        Inr (dict_put i kept T, kept)))"

definition queue_edit :: "string \<Rightarrow> shared_list \<Rightarrow> edit_op \<Rightarrow> string \<Rightarrow> lists \<Rightarrow> py_error + (lists \<times> shared_list)" where
  "queue_edit i row operation stamp S =
     require (length (ls_pending row) < 128 \<and> length (canonical_json (op_json operation)) \<le> 4096) list_capacity (
     let kept = row\<lparr>ls_pending := ls_pending row @ [operation], ls_local := dict_put (eo_id operation) stamp (ls_local row)\<rparr> in
     Inr (dict_put i kept S, kept))"

definition edit_row :: "list_node \<Rightarrow> friends \<Rightarrow> string \<Rightarrow> string \<Rightarrow> string \<Rightarrow> json \<Rightarrow> lists \<Rightarrow> py_error + (lists \<times> shared_list)" where
  "edit_row N F i op_id action value S =
     bnd (opt_or list_inactive (map_of S i)) (\<lambda>row.
     bnd (active_friend F (JStr (ls_relationship row)) (Some (other_member N row))) (\<lambda>_.
     let stamp = edit_stamp N action value; operation = next_op N row op_id action value in
     case map_of (ls_local row) op_id of
       Some seen \<Rightarrow> require (seen = stamp) op_changed (Inr (S, row))
     | None \<Rightarrow>
         require (length (ls_local row) < 4096) list_capacity (
         require (ls_status row = ''active'' \<and> list_all (\<lambda>op. eo_action op \<noteq> ''close'') (ls_pending row)) list_inactive (
         case find (\<lambda>op. eo_id op = op_id) (ls_pending row) of
           Some prior \<Rightarrow> require (eo_action prior = action \<and> py_eq (eo_value prior) value) op_changed (Inr (S, row))
         | None \<Rightarrow> if ls_owner row = nd_peer N then own_edit N F i row operation stamp S else queue_edit i row operation stamp S))))"

definition edit_list :: "list_node \<Rightarrow> friends \<Rightarrow> json \<Rightarrow> json \<Rightarrow> json \<Rightarrow> json \<Rightarrow> lists \<Rightarrow> py_error + (lists \<times> shared_list)" where
  "edit_list N F identifier op_id action value S =
     bnd (list_identity identifier) (\<lambda>i. bnd (list_identity op_id) (\<lambda>o'. bnd (validate_edit N action value) (\<lambda>a.
     list_mutate N (edit_row N F i o' a value) S)))"


subsection \<open>The owner answers\<close>

definition invitations :: "list_node \<Rightarrow> friend \<Rightarrow> lists \<Rightarrow> json" where
  "invitations N relation S = JArr (map (\<lambda>row. JObj [(''id'', JStr (ls_id row)), (''title'', JStr (ls_title row))])
     (filter (\<lambda>row. ls_owner row = nd_peer N \<and> ls_friend row = fr_peer relation \<and> ls_relationship row = fr_id relation
       \<and> (ls_status row = ''invited'' \<or> ls_status row = ''active'')) (dict_vals S)))"

definition accept_row :: "shared_list \<Rightarrow> shared_list" where
  "accept_row row = (if ls_status row = ''invited'' then row\<lparr>ls_status := ''active'', ls_revision := ls_revision row + 1\<rparr> else row)"

definition serve_list :: "list_node \<Rightarrow> friends \<Rightarrow> friend \<Rightarrow> json \<Rightarrow> lists \<Rightarrow> py_error + (lists \<times> json)" where
  "serve_list N F relation request S =
     bnd (jitem ''action'' request) (\<lambda>action.
     if action = JStr ''invitations'' then Inr (S, invitations N relation S)
     else bnd (owner_row N F S (jfield ''id'' request) (fr_peer relation) False) (\<lambda>row.
       require (ls_relationship row = fr_id relation) (Raised ''shared_list_unavailable'') (
       if action = JStr ''accept'' then
         require (ls_status row \<noteq> ''closed'') list_inactive (
         Inr (dict_put (py_str (jfield ''id'' request)) (accept_row row) S, list_snapshot (accept_row row)))
       else if action = JStr ''snapshot'' then Inr (S, list_snapshot row)
       else if action = JStr ''edit'' then
         bnd (apply_edit N F (JStr (ls_id row)) (fr_peer relation) (jfield ''operation'' request) S) (\<lambda>(T, done). Inr (T, list_snapshot done))
       else Inl bad_request)))"

text \<open>Opening a request: whatever goes wrong is \<open>shared_request_invalid\<close>.\<close>

definition open_request :: "list_node \<Rightarrow> friend \<Rightarrow> json \<Rightarrow> py_error + json" where
  "open_request N relation wire =
     (case bnd (jitem ''nonce'' wire) (\<lambda>nonce. bnd (jitem ''ciphertext'' wire) (\<lambda>ciphertext.
         require (nonce = JStr (py_str nonce) \<and> ciphertext = JStr (py_str ciphertext)) TypeError (
         bnd (open_sealed (nd_box N) (nd_key N) (fr_pub relation) (py_str nonce) (py_str ciphertext) LIST_CHANNEL) (\<lambda>raw.
         bnd (read_json raw) (\<lambda>request.
         bnd (jitem ''request_id'' request) (\<lambda>rid. bnd (list_identity rid) (\<lambda>_.
         require (length raw \<le> 8192 \<and> jget ''version'' request = Some (JStr LIST_WIRE) \<and> jget ''relationship_id'' request = Some (JStr (fr_id relation))
           \<and> jget ''from'' request = Some (JStr (fr_peer relation)) \<and> jget ''to'' request = Some (JStr (nd_peer N))) ValueError (
         Inr request)))))))) of
       Inr request \<Rightarrow> Inr request | Inl _ \<Rightarrow> Inl bad_request)"

definition answer_base :: "friend \<Rightarrow> json \<Rightarrow> (string, json) dict" where
  "answer_base relation request = [(''version'', JStr LIST_WIRE), (''request_id'', jfield ''request_id'' request), (''relationship_id'', JStr (fr_id relation))]"

definition seal_list :: "list_node \<Rightarrow> friend \<Rightarrow> string \<Rightarrow> json \<Rightarrow> py_error + json" where
  "seal_list N relation nonce value =
     bnd (seal_box (nd_box N) (nd_key N) (fr_pub relation) (canonical_json value) LIST_CHANNEL nonce) (\<lambda>(n, c).
     Inr (JObj [(''nonce'', JStr n), (''ciphertext'', JStr c)]))"

definition respond :: "list_node \<Rightarrow> friends \<Rightarrow> json \<Rightarrow> friend \<Rightarrow> string \<Rightarrow> lists \<Rightarrow> (py_error + json) \<times> lists" where
  "respond N F wire relation nonce S =
     (case bnd (active_friend F (JStr (fr_id relation)) (Some (fr_peer relation))) (\<lambda>current.
           bnd (open_request N current wire) (\<lambda>request. Inr (current, request))) of
        Inl e \<Rightarrow> (Inl e, S)
      | Inr (current, request) \<Rightarrow>
          (case list_mutate N (serve_list N F current request) S of
             Inr (T, answer) \<Rightarrow> (seal_list N current nonce (JObj (answer_base current request @ [(''result'', answer)])), T)
           | Inl (Raised code) \<Rightarrow> (seal_list N current nonce (JObj (answer_base current request @ [(''error'', JStr code)])), S)
           | Inl e \<Rightarrow> (Inl e, S)))"

subsection \<open>The member asks\<close>

definition list_request :: "list_node \<Rightarrow> friend \<Rightarrow> string \<Rightarrow> string \<Rightarrow> (string, json) dict \<Rightarrow> json" where
  "list_request N relation request_id action args =
     JObj ([(''version'', JStr LIST_WIRE), (''request_id'', JStr request_id), (''relationship_id'', JStr (fr_id relation)),
       (''from'', JStr (nd_peer N)), (''to'', JStr (fr_peer relation)), (''action'', JStr action)] @ args)"

definition open_answer :: "list_node \<Rightarrow> friend \<Rightarrow> string \<Rightarrow> json \<Rightarrow> py_error + json" where
  "open_answer N relation request_id wire =
     (case bnd (jitem ''nonce'' wire) (\<lambda>nonce. bnd (jitem ''ciphertext'' wire) (\<lambda>ciphertext.
         require (nonce = JStr (py_str nonce) \<and> ciphertext = JStr (py_str ciphertext)) TypeError (
         bnd (open_sealed (nd_box N) (nd_key N) (fr_pub relation) (py_str nonce) (py_str ciphertext) LIST_CHANNEL) (\<lambda>raw.
         bnd (read_json raw) (\<lambda>result.
         require (length raw \<le> MAX_WIRE \<and> jget ''version'' result = Some (JStr LIST_WIRE) \<and> jget ''request_id'' result = Some (JStr request_id)
           \<and> jget ''relationship_id'' result = Some (JStr (fr_id relation))) ValueError (
         Inr result)))))) of
       Inr result \<Rightarrow> Inr result | Inl _ \<Rightarrow> Inl bad_response)"

text \<open>
  \<open>net\<close> is the friends' transport: the answer to a wire, if one comes back, with the length of the response body in bytes. A longer one than
  \<open>max_response_bytes\<close> is refused by the transport, like one that does not come.
\<close>

definition request_list :: "list_node \<Rightarrow> friends \<Rightarrow> friend \<Rightarrow> string \<Rightarrow> string \<Rightarrow> (json \<Rightarrow> (json \<times> nat) option) \<Rightarrow> string \<Rightarrow> (string, json) dict \<Rightarrow> py_error + json" where
  "request_list N F relation request_id nonce net action args =
     bnd (active_friend F (JStr (fr_id relation)) (Some (fr_peer relation))) (\<lambda>_.
     bnd (seal_list N relation nonce (list_request N relation request_id action args)) (\<lambda>wire.
     bnd (opt_or (Raised ''shared_sync_unconfirmed'') (net wire)) (\<lambda>(answer, bytes).
     require (bytes \<le> MAX_WIRE) (Raised ''shared_sync_unconfirmed'') (
     bnd (open_answer N relation request_id answer) (\<lambda>result.
     bnd (active_friend F (JStr (fr_id relation)) (Some (fr_peer relation))) (\<lambda>_.
     case jget ''error'' result of Some code \<Rightarrow> Inl (Raised (py_str code))
     | None \<Rightarrow> jitem ''result'' result))))))"

definition discover :: "friends \<Rightarrow> json \<Rightarrow> (string \<Rightarrow> py_error + json) \<Rightarrow> py_error + (string \<times> string) list" where
  "discover F rid ask = bnd (active_friend F rid None) (\<lambda>friend. bnd (ask (fr_peer friend)) (\<lambda>result.
     require (is_list result \<and> length (jlist result) \<le> 32) bad_response (
     foldr (\<lambda>row acc. bnd (bnd (jitem ''id'' row) list_identity) (\<lambda>i. bnd (bnd (jitem ''title'' row) (\<lambda>t. list_text t 300)) (\<lambda>t.
       bnd acc (\<lambda>rows. Inr ((i, t) # rows))))) (jlist result) (Inr []))))"

subsection \<open>Receiving a snapshot\<close>

definition check_item :: "list_node \<Rightarrow> string \<Rightarrow> string \<times> json \<Rightarrow> py_error + unit" where
  "check_item N owner entry = (let item = snd entry; marks = jfield ''read_by'' item in
     bnd (list_identity (JStr (fst entry))) (\<lambda>_.
     require (is_obj item \<and> jfield ''id'' item = JStr (fst entry)) bad_response (
     bnd (in_strings (jfield ''added_by'' item) [owner, nd_peer N]) (\<lambda>known.
     require (known \<and> is_bool (jfield ''removed'' item)) bad_response (
     require (is_obj marks \<and> set (jkeys marks) \<subseteq> {owner, nd_peer N} \<and> list_all is_bool (jvals marks)) bad_response (
     if jfield ''removed'' item = JBool True then Inr ()
     else bnd (list_text (jfield ''title'' item) 500) (\<lambda>_. bnd (list_text (jfield ''url'' item) 2048) (\<lambda>url. public_link N url bad_response))))))))"

definition read_receipt :: "list_node \<Rightarrow> string \<Rightarrow> string \<times> json \<Rightarrow> py_error + (string \<times> (int \<times> string))" where
  "read_receipt N owner entry = (case (jfield ''sequence'' (snd entry), jfield ''digest'' (snd entry)) of
     (JInt n, JStr d) \<Rightarrow> require ((fst entry = owner \<or> fst entry = nd_peer N) \<and> is_obj (snd entry) \<and> 1 \<le> n \<and> n \<le> 10 ^ 9 \<and> hex_text 64 d) bad_response (
       Inr (fst entry, (n, d)))
   | _ \<Rightarrow> Inl bad_response)"

fun read_receipts :: "list_node \<Rightarrow> string \<Rightarrow> (string, json) dict \<Rightarrow> py_error + (string, int \<times> string) dict" where
  "read_receipts N owner [] = Inr []"
| "read_receipts N owner (e # es) = bnd (read_receipt N owner e) (\<lambda>r. bnd (read_receipts N owner es) (\<lambda>rs. Inr (r # rs)))"

definition obj_items :: "json \<Rightarrow> (string, json) dict" where
  "obj_items j = (case j of JObj d \<Rightarrow> d | _ \<Rightarrow> [])"

text \<open>The checks of a snapshot, and the row it stands for.\<close>

definition read_snapshot :: "list_node \<Rightarrow> string \<Rightarrow> string \<Rightarrow> string \<Rightarrow> json \<Rightarrow> py_error + shared_list" where
  "read_snapshot N i rid owner result =
     require (is_obj result \<and> jfield ''id'' result = JStr i \<and> jfield ''relationship_id'' result = JStr rid \<and> jfield ''owner'' result = JStr owner
       \<and> jfield ''friend'' result = JStr (nd_peer N)) bad_response (
     case jfield ''revision'' result of
       JInt revision \<Rightarrow> require (1 \<le> revision \<and> revision \<le> 10 ^ 12 \<and> is_obj (jfield ''items'' result) \<and> length (obj_items (jfield ''items'' result)) \<le> 256) bad_response (
         bnd (in_strings (jfield ''status'' result) [''active'', ''closed'']) (\<lambda>known. require known bad_response (
         bnd (list_text (jfield ''title'' result) 300) (\<lambda>_.
         bnd (check_all (check_item N owner) (obj_items (jfield ''items'' result))) (\<lambda>_.
         require (is_obj (jfield ''receipts'' result)) bad_response (
         bnd (read_receipts N owner (obj_items (jfield ''receipts'' result))) (\<lambda>receipts.
         Inr \<lparr>ls_id = i, ls_owner = owner, ls_friend = nd_peer N, ls_relationship = rid, ls_title = py_str (jfield ''title'' result),
           ls_status = py_str (jfield ''status'' result), ls_revision = revision, ls_items = obj_items (jfield ''items'' result), ls_receipts = receipts,
           ls_pending = [], ls_cancelled = [], ls_error = [], ls_local = [], ls_last = None\<rparr>)))))))
     | _ \<Rightarrow> Inl bad_response)"

text \<open>The queue after a receipt: what it confirms is dropped, and the last of it must be what the receipt names.\<close>

definition confirm_queue :: "list_node \<Rightarrow> (int \<times> string) option \<Rightarrow> edit_op list \<Rightarrow> py_error + edit_op list" where
  "confirm_queue N receipt queue = (let n = (case receipt of None \<Rightarrow> 0 | Some r \<Rightarrow> fst r);
       confirmed = filter (\<lambda>op. eo_sequence op \<le> n) queue in
     if confirmed = [] then Inr queue
     else bnd (opt_or KeyError receipt) (\<lambda>r.
       require (eo_sequence (last confirmed) = fst r \<and> list_digest N (op_json (last confirmed)) = snd r) bad_response (
       Inr (filter (\<lambda>op. n < eo_sequence op) queue))))"

definition take_snapshot :: "list_node \<Rightarrow> string \<Rightarrow> string \<Rightarrow> string \<Rightarrow> shared_list \<Rightarrow> edit_op option \<Rightarrow> lists \<Rightarrow> py_error + (lists \<times> unit)" where
  "take_snapshot N i rid owner got acknowledged S = (let prior = map_of S i; receipt = map_of (ls_receipts got) (nd_peer N) in
     require (case prior of None \<Rightarrow> True | Some p \<Rightarrow> ls_owner p = owner \<and> ls_relationship p = rid) bad_response (
     if (case prior of None \<Rightarrow> False | Some p \<Rightarrow> ls_revision got < ls_revision p) then Inr (S, ())
     else require (case acknowledged of None \<Rightarrow> True | Some op \<Rightarrow> receipt = Some (eo_sequence op, list_digest N (op_json op))) bad_response (
       bnd (confirm_queue N receipt (case prior of None \<Rightarrow> [] | Some p \<Rightarrow> ls_pending p)) (\<lambda>queue.
       let cancelled = (case prior of None \<Rightarrow> [] | Some p \<Rightarrow> ls_cancelled p);
           done = got\<lparr>ls_pending := (if ls_status got = ''closed'' then [] else queue),
             ls_cancelled := (if ls_status got = ''closed'' then cancelled @ queue else cancelled),
             ls_local := (case prior of None \<Rightarrow> [] | Some p \<Rightarrow> ls_local p)\<rparr> in
       Inr (dict_put i done S, ())))))"

definition receive_list :: "list_node \<Rightarrow> friends \<Rightarrow> string \<Rightarrow> string \<Rightarrow> string \<Rightarrow> json \<Rightarrow> edit_op option \<Rightarrow> lists \<Rightarrow> py_error + (lists \<times> unit)" where
  "receive_list N F i rid owner result acknowledged S =
     bnd (read_snapshot N i rid owner result) (\<lambda>got.
     bnd (active_friend F (JStr rid) (Some owner)) (\<lambda>_.
     list_mutate N (take_snapshot N i rid owner got acknowledged) S))"

definition accept_list :: "list_node \<Rightarrow> friends \<Rightarrow> json \<Rightarrow> json \<Rightarrow> (string \<Rightarrow> py_error + json) \<Rightarrow> lists \<Rightarrow> py_error + (lists \<times> unit)" where
  "accept_list N F rid identifier ask S =
     bnd (active_friend F rid None) (\<lambda>friend. bnd (list_identity identifier) (\<lambda>i.
     require (length S < 32 \<or> map_of S i \<noteq> None) list_capacity (
     bnd (ask (fr_peer friend)) (\<lambda>result.
     receive_list N F i (py_str rid) (fr_peer friend) result None S))))"

text \<open>\<open>ask\<close> is \<open>request_list\<close> for the owner of the row. Any failure is noted on the row and reported as unconfirmed.\<close>

definition sync_outcome :: "list_node \<Rightarrow> friends \<Rightarrow> (string \<Rightarrow> (string, json) dict \<Rightarrow> py_error + json) \<Rightarrow> string \<Rightarrow> shared_list \<Rightarrow> lists \<Rightarrow> py_error + (lists \<times> unit)" where
  "sync_outcome N F ask i row S =
     (let here = [(''id'', JStr i)]; keep = receive_list N F i (ls_relationship row) (ls_owner row) in
      case ls_pending row of
        [] \<Rightarrow> bnd (ask ''snapshot'' here) (\<lambda>result. keep result None S)
      | op # _ \<Rightarrow>
          (case ask ''edit'' (here @ [(''operation'', op_json op)]) of
             Inr result \<Rightarrow> keep result (Some op) S
           | Inl e \<Rightarrow> require (e = list_inactive) e (bnd (ask ''snapshot'' here) (\<lambda>result.
               require (is_obj result \<and> jfield ''status'' result = JStr ''closed'') bad_response (keep result None S)))))"

definition note_failure :: "string \<Rightarrow> lists \<Rightarrow> py_error + (lists \<times> unit)" where
  "note_failure i S = Inr (case map_of S i of None \<Rightarrow> S
     | Some row \<Rightarrow> dict_put i (row\<lparr>ls_error := ''Sync unconfirmed. Reconnect or review this friendship.''\<rparr>) S, ())"

definition sync_list :: "list_node \<Rightarrow> friends \<Rightarrow> (string \<Rightarrow> (string, json) dict \<Rightarrow> py_error + json) \<Rightarrow> json \<Rightarrow> lists \<Rightarrow> (py_error + unit) \<times> lists" where
  "sync_list N F ask identifier S =
     (case bnd (list_identity identifier) (\<lambda>i. bnd (opt_or (Raised ''shared_list_unavailable'') (map_of S i)) (\<lambda>row. Inr (i, row))) of
        Inl e \<Rightarrow> (Inl e, S)
      | Inr (i, row) \<Rightarrow>
          if ls_owner row = nd_peer N then
            (bnd (active_friend F (JStr (ls_relationship row)) (Some (ls_friend row))) (\<lambda>_. Inr ()), S)
          else (case sync_outcome N F ask i row S of
              Inr (T, _) \<Rightarrow> (Inr (), T)
            | Inl _ \<Rightarrow> (case list_mutate N (note_failure i) S of
                Inr (T, _) \<Rightarrow> (Inl (Raised ''shared_sync_unconfirmed''), T) | Inl e \<Rightarrow> (Inl e, S))))"

text \<open>One turn of the worker: the next list of those this node follows. A second worker at the same time returns at once.\<close>

definition run_once :: "list_node \<Rightarrow> friends \<Rightarrow> (string \<Rightarrow> (string, json) dict \<Rightarrow> py_error + json) \<Rightarrow> nat \<Rightarrow> lists \<Rightarrow> (py_error + bool) \<times> nat \<times> lists" where
  "run_once N F ask cursor S =
     (let rows = filter (\<lambda>row. ls_owner row \<noteq> nd_peer N \<and> ls_status row = ''active'') (dict_vals S) in
      if rows = [] then (Inr False, cursor, S)
      else (case sync_list N F ask (JStr (ls_id (rows ! (cursor mod length rows)))) S of
          (Inr _, T) \<Rightarrow> (Inr True, cursor + 1, T)
        | (Inl (Raised _), T) \<Rightarrow> (Inr False, cursor + 1, T)
        | (Inl e, T) \<Rightarrow> (Inl e, cursor + 1, T)))"

end
