(* ===== verification/Shared_Safety.thy ===== *)
theory Shared_Safety
  imports Shared_Reading Approval_Safety
begin

section \<open>What operations do to a shared list\<close>

text \<open>
  What one edit does to the owner's row (\<open>grows\<close>: one revision more, the receipts of the others kept, items changed only as \<open>item_edit\<close>
  allows, and a row that passes the member's checks passes them again), what a local edit and a request do to the stored lists, and what the
  member makes of a snapshot.
\<close>

subsection \<open>One edit\<close>

definition same_list :: "shared_list \<Rightarrow> shared_list \<Rightarrow> bool" where
  "same_list a b \<longleftrightarrow> ls_id a = ls_id b \<and> ls_owner a = ls_owner b \<and> ls_friend a = ls_friend b \<and> ls_relationship a = ls_relationship b \<and> ls_title a = ls_title b"

lemma same_list_refl [simp]: "same_list a a"
  by (simp add: same_list_def)

lemma list_identity_Inr: "list_identity j = Inr i \<longleftrightarrow> j = JStr i \<and> hex_text 32 i"
  by (cases j) (auto simp: list_identity_def guard_simps)

lemma change_items_read:
  "change_items N peer (JStr ''read'') value row =
     require (keys_are value [''id'', ''read'']) bad_request (
     bnd (list_identity (jfield ''id'' value)) (\<lambda>i.
     bnd (opt_or (Raised ''shared_item_unavailable'') (map_of (ls_items row) i)) (\<lambda>item.
     require (truthy item) (Raised ''shared_item_unavailable'') (
     require (is_bool (jfield ''read'' value)) bad_request (
     bnd (mark_read peer (jfield ''read'' value) item) (\<lambda>marked. Inr (row\<lparr>ls_items := dict_put i marked (ls_items row)\<rparr>)))))))"
  by (simp add: change_items_def in_strings_def)

lemma change_items_remove:
  "change_items N peer (JStr ''remove'') value row =
     require (keys_are value [''id'']) bad_request (
     bnd (list_identity (jfield ''id'' value)) (\<lambda>i.
     bnd (opt_or (Raised ''shared_item_unavailable'') (map_of (ls_items row) i)) (\<lambda>item.
     require (truthy item) (Raised ''shared_item_unavailable'') (
     Inr (row\<lparr>ls_items := dict_put i (removed_item item) (ls_items row)\<rparr>)))))"
  by (simp add: change_items_def in_strings_def)

lemma change_items_close:
  assumes "action \<noteq> JStr ''add''" "action \<noteq> JStr ''read''" "action \<noteq> JStr ''remove''" "change_items N peer action value row = Inr new"
  shows "action = JStr ''close'' \<and> \<not> truthy value \<and> new = row\<lparr>ls_status := ''closed''\<rparr>"
proof -
  obtain known where k: "in_strings action [''read'', ''remove''] = Inr known" using assms(1,4) unfolding change_items_def by (auto simp: bnd_Inr)
  then have "\<not> known" using assms(2,3) by (cases action) (auto simp: in_strings_def)
  then show ?thesis using assms(1,4) k unfolding change_items_def by (simp add: guard_simps split: if_splits)
qed

lemma change_items_cases:
  assumes "change_items N peer action value row = Inr new"
  obtains (add) i title url where "action = JStr ''add''" "jfield ''id'' value = JStr i" "map_of (ls_items row) i = None" "length (ls_items row) < 256"
      "new = row\<lparr>ls_items := dict_put i (new_item i title url peer) (ls_items row)\<rparr>"
      "hex_text 32 i" "list_text (jfield ''title'' value) 500 = Inr title" "list_text (jfield ''url'' value) 2048 = Inr url" "public_link N url (Raised ''shared_link_invalid'') = Inr ()"
    | (read) i flag item marked where "action = JStr ''read''" "jfield ''id'' value = JStr i" "jfield ''read'' value = JBool flag" "map_of (ls_items row) i = Some item"
      "mark_read peer (JBool flag) item = Inr marked" "new = row\<lparr>ls_items := dict_put i marked (ls_items row)\<rparr>"
    | (remove) i item where "action = JStr ''remove''" "jfield ''id'' value = JStr i" "map_of (ls_items row) i = Some item" "truthy item"
      "new = row\<lparr>ls_items := dict_put i (removed_item item) (ls_items row)\<rparr>"
    | (close) "action = JStr ''close''" "new = row\<lparr>ls_status := ''closed''\<rparr>"
proof (cases "action = JStr ''add''")
  case True
  with assms obtain i title url where "list_identity (jfield ''id'' value) = Inr i" "map_of (ls_items row) i = None" "length (ls_items row) < 256"
      "new = row\<lparr>ls_items := dict_put i (new_item i title url peer) (ls_items row)\<rparr>"
      "list_text (jfield ''title'' value) 500 = Inr title" "list_text (jfield ''url'' value) 2048 = Inr url" "public_link N url (Raised ''shared_link_invalid'') = Inr ()"
    unfolding change_items_def if_P [OF True] require_Inr bnd_Inr by (auto simp: unit_eq)
  with add [of i title url] True show ?thesis by (simp add: list_identity_Inr)
next
  case False
  show ?thesis
  proof (cases "action = JStr ''read''")
    case True
    with assms obtain i item marked where "list_identity (jfield ''id'' value) = Inr i" "map_of (ls_items row) i = Some item"
       "is_bool (jfield ''read'' value)" "mark_read peer (jfield ''read'' value) item = Inr marked" "new = row\<lparr>ls_items := dict_put i marked (ls_items row)\<rparr>"
      unfolding True change_items_read require_Inr bnd_Inr opt_or_Inr by blast
    moreover from this(3) obtain flag where "jfield ''read'' value = JBool flag" by (cases "jfield ''read'' value") (auto simp: is_bool_def)
    ultimately show ?thesis using True read [of i flag item marked] by (simp add: list_identity_Inr)
  next
    case nr: False
    show ?thesis
    proof (cases "action = JStr ''remove''")
      case True
      with assms obtain i item where "list_identity (jfield ''id'' value) = Inr i" "map_of (ls_items row) i = Some item" "truthy item"
         "new = row\<lparr>ls_items := dict_put i (removed_item item) (ls_items row)\<rparr>"
        unfolding True change_items_remove require_Inr bnd_Inr opt_or_Inr by blast
      then show ?thesis using True remove [of i item] by (simp add: list_identity_Inr)
    next
      case nm: False
      show ?thesis using change_items_close [OF False nr nm assms] close by blast
    qed
  qed
qed

lemma change_items_keeps:
  assumes "change_items N peer action value row = Inr new"
  shows "same_list row new" "ls_revision new = ls_revision row" "ls_receipts new = ls_receipts row" "ls_pending new = ls_pending row" "ls_cancelled new = ls_cancelled row"
proof -
  have "same_list row new \<and> ls_revision new = ls_revision row \<and> ls_receipts new = ls_receipts row \<and> ls_pending new = ls_pending row \<and> ls_cancelled new = ls_cancelled row"
    by (rule change_items_cases [OF assms]) (simp_all add: same_list_def)
  then show "same_list row new" "ls_revision new = ls_revision row" "ls_receipts new = ls_receipts row" "ls_pending new = ls_pending row" "ls_cancelled new = ls_cancelled row"
    by blast+
qed

text \<open>The items of an owner's list, and what an edit of \<open>peer\<close> may do to one of them.\<close>

definition item_json :: "string \<Rightarrow> string \<Rightarrow> string \<Rightarrow> string \<Rightarrow> (string, json) dict \<Rightarrow> bool \<Rightarrow> json" where
  "item_json i title url author marks removed = JObj [(''id'', JStr i), (''title'', JStr title), (''url'', JStr url), (''added_by'', JStr author),
     (''read_by'', JObj marks), (''removed'', JBool removed)]"

lemma item_json_inj [simp]:
  "item_json i t u a m r = item_json i' t' u' a' m' r' \<longleftrightarrow> i = i' \<and> t = t' \<and> u = u' \<and> a = a' \<and> m = m' \<and> r = r'"
  by (auto simp: item_json_def)

inductive live_item :: "string \<Rightarrow> json \<Rightarrow> bool" for i where
  "list_all (\<lambda>m. is_bool (snd m)) marks \<Longrightarrow> live_item i (item_json i title url author marks False)"

inductive gone_item :: "string \<Rightarrow> json \<Rightarrow> bool" for i where
  "gone_item i (item_json i [] [] author [] True)"

inductive item_edit :: "string \<Rightarrow> json \<Rightarrow> json \<Rightarrow> bool" for peer where
  keep: "item_edit peer item item"
| mark: "item_edit peer (item_json i title url author marks False) (item_json i title url author (dict_put peer flag marks) False)"
| remove: "item_edit peer (item_json i title url author marks removed) (item_json i [] [] author [] True)"

definition items_ok :: "(string, json) dict \<Rightarrow> bool" where
  "items_ok d \<longleftrightarrow> (\<forall>i item. map_of d i = Some item \<longrightarrow> live_item i item \<or> gone_item i item)"

definition items_edit :: "string \<Rightarrow> (string, json) dict \<Rightarrow> (string, json) dict \<Rightarrow> bool" where
  "items_edit peer d e \<longleftrightarrow> length d \<le> length e \<and> (items_ok d \<longrightarrow> items_ok e \<and> (\<forall>i item. map_of d i = Some item \<longrightarrow> (\<exists>item'. map_of e i = Some item' \<and> item_edit peer item item')))"

lemma items_edit_refl [simp]: "items_edit peer d d"
  by (auto simp: items_edit_def intro: item_edit.keep)

lemma put_grows: "length d \<le> length (dict_put k v d)"
  by (induction d) auto

lemma items_put:
  assumes "live_item i new \<or> gone_item i new" "case map_of d i of None \<Rightarrow> True | Some old \<Rightarrow> items_ok d \<longrightarrow> item_edit peer old new"
  shows "items_edit peer d (dict_put i new d)"
  using assms put_grows [of d i new] by (auto simp: items_edit_def items_ok_def intro: item_edit.keep)

lemma live_edits:
  "mark_read peer (JBool flag) (item_json i title url author marks removed) = Inr (if removed then item_json i title url author marks removed
     else item_json i title url author (dict_put peer (JBool flag) marks) False)"
  "removed_item (item_json i title url author marks removed) = item_json i [] [] author [] True"
  by (simp_all add: mark_read_def item_json_def jitem_def put_field_def removed_item_def is_obj_def truthy_def)

lemma change_items_edit:
  assumes "change_items N peer action value row = Inr new"
  shows "items_edit peer (ls_items row) (ls_items new)"
proof (cases rule: change_items_cases [OF assms, case_names add read remove close])
  case (add i title url)
  have "live_item i (new_item i title url peer)" using live_item.intros [of "[]" i title url peer] by (simp add: new_item_def item_json_def)
  with add show ?thesis by (auto intro: items_put)
next
  case (read i flag item marked)
  show ?thesis
  proof (cases "items_ok (ls_items row)")
    case True
    then have "live_item i item \<or> gone_item i item" using read(4) by (simp add: items_ok_def)
    then have "(live_item i marked \<or> gone_item i marked) \<and> item_edit peer item marked"
    proof
      assume "live_item i item"
      then obtain title url author marks where e: "list_all (\<lambda>m. is_bool (snd m)) marks" "item = item_json i title url author marks False" by cases
      have "list_all (\<lambda>m. is_bool (snd m)) (dict_put peer (JBool flag) marks)" using e(1) by (induction marks) (auto simp: is_bool_def)
      with e read(5) show ?thesis by (auto simp: live_edits intro: live_item.intros item_edit.mark)
    next
      assume "gone_item i item"
      then obtain author where e: "item = item_json i [] [] author [] True" by cases
      with read(5) show ?thesis by (auto simp: live_edits intro: gone_item.intros item_edit.keep)
    qed
    with read show ?thesis by (auto intro: items_put)
  qed (use read(6) put_grows in \<open>simp add: items_edit_def\<close>)
next
  case (remove i item)
  show ?thesis
  proof (cases "items_ok (ls_items row)")
    case True
    then obtain title url author marks removed where e: "item = item_json i title url author marks removed"
      using remove(3) unfolding items_ok_def by (metis gone_item.cases live_item.cases)
    have "gone_item i (removed_item item)" "item_edit peer item (removed_item item)"
      unfolding e live_edits by (rule gone_item.intros item_edit.remove)+
    with remove show ?thesis by (auto intro: items_put)
  qed (use remove(5) put_grows in \<open>simp add: items_edit_def\<close>)
qed (simp)

text \<open>A row whose snapshot passes the checks of the member \<open>g\<close>.\<close>

definition hex_law :: "list_node \<Rightarrow> bool" where
  "hex_law N \<longleftrightarrow> (\<forall>bytes. hex_text 64 (sha256 (sl_crypto (nd_lib N)) bytes))"

definition item_fits :: "list_node \<Rightarrow> string set \<Rightarrow> string \<Rightarrow> json \<Rightarrow> bool" where
  "item_fits N peers i item \<longleftrightarrow> (\<exists>title url author marks removed. item = item_json i title url author marks removed \<and> hex_text 32 i
     \<and> author \<in> peers \<and> fst ` set marks \<subseteq> peers \<and> list_all (\<lambda>m. is_bool (snd m)) marks
     \<and> (\<not> removed \<longrightarrow> list_text (JStr title) 500 = Inr title \<and> list_text (JStr url) 2048 = Inr url \<and> (\<forall>e. public_link N url e = Inr ())))"

definition items_fit :: "list_node \<Rightarrow> string set \<Rightarrow> (string, json) dict \<Rightarrow> bool" where
  "items_fit N peers d \<longleftrightarrow> length d \<le> 256 \<and> (\<forall>e \<in> set d. item_fits N peers (fst e) (snd e))"

definition receipts_fit :: "string set \<Rightarrow> (string, int \<times> string) dict \<Rightarrow> bool" where
  "receipts_fit peers d \<longleftrightarrow> (\<forall>e \<in> set d. fst e \<in> peers \<and> 1 \<le> fst (snd e) \<and> fst (snd e) \<le> 10 ^ 9 \<and> hex_text 64 (snd (snd e)))"

definition list_ok :: "list_node \<Rightarrow> string \<Rightarrow> shared_list \<Rightarrow> bool" where
  "list_ok N g row \<longleftrightarrow> list_text (JStr (ls_title row)) 300 = Inr (ls_title row) \<and> items_fit N {ls_owner row, g} (ls_items row)
     \<and> receipts_fit {ls_owner row, g} (ls_receipts row) \<and> (ls_status row = ''invited'' \<or> ls_status row = ''active'' \<or> ls_status row = ''closed'')
     \<and> (ls_status row = ''invited'' \<longrightarrow> ls_receipts row = [])
     \<and> 1 \<le> ls_revision row \<and> ls_revision row + (if ls_status row = ''invited'' then 1 else 0) \<le> 2 + fst (receipt_of row (ls_owner row)) + fst (receipt_of row g)"

lemma put_entries: "set (dict_put k v d) \<subseteq> insert (k, v) (set d)"
  by (induction d) auto

lemma put_fst: "fst ` set (dict_put k v d) \<subseteq> insert k (fst ` set d)"
  by (induction d) auto

lemma put_length: "map_of d k = Some v \<Longrightarrow> length (dict_put k w d) = length d"
  by (induction d) auto

lemma strip_twice: "py_strip (py_strip s) = py_strip s"
proof -
  have d: "dropWhile P (dropWhile P xs) = dropWhile P xs" for P and xs :: string by (induction xs) auto
  let ?d = "dropWhile py_isspace"
  have "?d (rev (?d (rev (?d s)))) = rev (?d (rev (?d s)))"
  proof (cases "rev (?d (rev (?d s)))")
    case (Cons c cs)
    obtain u where "?d s = rev (?d (rev (?d s))) @ u" using dropWhile_eq_drop by (metis append_take_drop_id rev_append rev_rev_ident takeWhile_dropWhile_id)
    then have "?d s = c # cs @ u" using Cons by simp
    then have "\<not> py_isspace c" by (metis hd_dropWhile list.discI list.sel(1))
    with Cons show ?thesis by simp
  next
    case Nil
    then show ?thesis by (simp only: Nil dropWhile.simps)
  qed
  then show ?thesis by (simp add: py_strip_def d)
qed

lemma strip_part: "\<exists>a b. s = a @ py_strip s @ b"
proof -
  obtain a where a: "s = a @ dropWhile py_isspace s" by (metis takeWhile_dropWhile_id)
  obtain b where "rev (dropWhile py_isspace s) = b @ dropWhile py_isspace (rev (dropWhile py_isspace s))" by (metis takeWhile_dropWhile_id)
  then have "dropWhile py_isspace s = py_strip s @ rev b" unfolding py_strip_def by (metis rev_append rev_rev_ident)
  with a show ?thesis by metis
qed

lemma list_text_twice: "list_text j n = Inr t \<Longrightarrow> list_text (JStr t) n = Inr t"
proof -
  assume "list_text j n = Inr t"
  then obtain s where s: "t = py_strip s" "py_strip s \<noteq> []" "length (utf8 s) \<le> n" by (auto simp: list_text_def guard_simps split: json.splits)
  obtain a b where "s = a @ t @ b" using strip_part [of s] s(1) by auto
  then have "length (utf8 t) \<le> n" using s(3) by (simp add: utf8_def)
  with s show ?thesis by (simp add: list_text_def guard_simps strip_twice)
qed

lemma public_link_any: "public_link N url e = Inr () \<Longrightarrow> public_link N url e' = Inr ()"
  by (auto simp: public_link_def guard_simps split: option.splits)

lemma items_fit_get: "items_fit N peers d \<Longrightarrow> map_of d i = Some item \<Longrightarrow> item_fits N peers i item"
  unfolding items_fit_def by (metis fst_conv snd_conv map_of_SomeD)

lemma change_items_fit:
  assumes "change_items N peer action value row = Inr new" "items_fit N peers (ls_items row)" "peer \<in> peers"
  shows "items_fit N peers (ls_items new)"
proof (cases rule: change_items_cases [OF assms(1), case_names add read remove close])
  case (add i title url)
  have "item_fits N peers i (new_item i title url peer)"
    using add(6-9) assms(3) by (auto simp: item_fits_def new_item_def item_json_def intro: list_text_twice public_link_any)
  with add(3,4,5) assms(2) put_entries [of i "new_item i title url peer" "ls_items row"] show ?thesis
    by (auto simp: items_fit_def put_fresh)
next
  case (read i flag item marked)
  have "item_fits N peers i item" by (rule items_fit_get [OF assms(2) read(4)])
  then obtain title url author marks removed where e: "item = item_json i title url author marks removed" "hex_text 32 i" "author \<in> peers" "fst ` set marks \<subseteq> peers"
    "list_all (\<lambda>m. is_bool (snd m)) marks" "\<not> removed \<longrightarrow> list_text (JStr title) 500 = Inr title \<and> list_text (JStr url) 2048 = Inr url \<and> (\<forall>e. public_link N url e = Inr ())"
    unfolding item_fits_def by blast
  have "list_all (\<lambda>m. is_bool (snd m)) (dict_put peer (JBool flag) marks)" using e(5) by (induction marks) (auto simp: is_bool_def)
  moreover have "fst ` set (dict_put peer (JBool flag) marks) \<subseteq> peers" using e(4) assms(3) put_fst [of peer "JBool flag" marks] by blast
  ultimately have "item_fits N peers i marked" using e read(5) by (auto simp: item_fits_def live_edits split: if_splits)
  with read(4,6) assms(2) put_entries [of i marked "ls_items row"] show ?thesis by (auto simp: items_fit_def put_length)
next
  case (remove i item)
  have "item_fits N peers i item" by (rule items_fit_get [OF assms(2) remove(3)])
  then have "item_fits N peers i (removed_item item)" by (auto simp: item_fits_def live_edits)
  with remove(3,5) assms(2) put_entries [of i "removed_item item" "ls_items row"] show ?thesis by (auto simp: items_fit_def put_length)
qed (use assms(2) in simp)

lemma apply_edit_cases:
  assumes "apply_edit N F (JStr i) peer operation S = Inr (T, out)"
  obtains (again) row n where "map_of S i = Some row" "T = S" "out = row" "jfield ''sequence'' operation = JInt n" "1 \<le> n"
      "receipt_of row peer = (n, list_digest N operation)"
    | (new) row n mid where "map_of S i = Some row" "T = dict_put i out S" "jfield ''sequence'' operation = JInt n" "1 \<le> n" "n = fst (receipt_of row peer) + 1"
      "ls_status row = ''active''" "change_items N peer (jfield ''action'' operation) (jfield ''value'' operation) row = Inr mid"
      "out = mid\<lparr>ls_revision := ls_revision row + 1, ls_receipts := dict_put peer (n, list_digest N operation) (ls_receipts row)\<rparr>" "n \<le> 10 ^ 9"
proof -
  let ?v = "jfield ''value'' operation"
  obtain row where row: "owner_row N F S (JStr i) peer False = Inr row"
    and body: "(case jfield ''sequence'' operation of
       JInt n \<Rightarrow> require (1 \<le> n \<and> n \<le> 10 ^ 9) bad_request (
         if n = fst (receipt_of row peer) then require (snd (receipt_of row peer) = list_digest N operation) op_changed (Inr (S, row))
         else require (n = fst (receipt_of row peer) + 1) (Raised ''shared_sequence_changed'') (
           require (ls_status row = ''active'') list_inactive (
           require (is_obj ?v) bad_request (
           bnd (change_items N peer (jfield ''action'' operation) ?v row) (\<lambda>next.
           let done = next\<lparr>ls_revision := ls_revision next + 1, ls_receipts := dict_put peer (n, list_digest N operation) (ls_receipts next)\<rparr> in
           Inr (dict_put i done S, done))))))
     | _ \<Rightarrow> Inl bad_request) = Inr (T, out)"
    using assms unfolding apply_edit_def Let_def bnd_Inr require_Inr py_str.simps by blast
  have s: "map_of S i = Some row" using row by (auto simp: owner_row_def guard_simps list_identity_def)
  obtain n where n: "jfield ''sequence'' operation = JInt n" using body by (cases "jfield ''sequence'' operation") auto
  note rest = body [unfolded n json.case require_Inr]
  show thesis
  proof (cases "n = fst (receipt_of row peer)")
    case True
    have same: "snd (receipt_of row peer) = list_digest N operation" "T = S" "out = row"
      using conjunct2 [OF rest, unfolded if_P [OF True] require_Inr sum.inject prod.inject] by blast+
    have "receipt_of row peer = (n, list_digest N operation)" by (rule prod_eqI) (simp_all only: True same(1) fst_conv snd_conv)
    then show ?thesis using again [OF s same(2,3) n] rest by blast
  next
    case False
    note new_rest = conjunct2 [OF rest, unfolded if_not_P [OF False] require_Inr bnd_Inr Let_def]
    then obtain mid where m: "n = fst (receipt_of row peer) + 1" "ls_status row = ''active''"
      "change_items N peer (jfield ''action'' operation) ?v row = Inr mid"
      "Inr (dict_put i (mid\<lparr>ls_revision := ls_revision mid + 1, ls_receipts := dict_put peer (n, list_digest N operation) (ls_receipts mid)\<rparr>) S,
         mid\<lparr>ls_revision := ls_revision mid + 1, ls_receipts := dict_put peer (n, list_digest N operation) (ls_receipts mid)\<rparr>) = Inr (T, out)" by blast
    show ?thesis
    proof (rule new [of row n mid])
      show "T = dict_put i out S" "out = mid\<lparr>ls_revision := ls_revision row + 1, ls_receipts := dict_put peer (n, list_digest N operation) (ls_receipts row)\<rparr>"
        using m(4) by (auto simp: change_items_keeps [OF m(3)])
    qed (use s n m rest in simp_all)
  qed
qed

text \<open>What the other side gets to see of a list, and how it may change when \<open>peer\<close> edits.\<close>

definition core :: "shared_list \<Rightarrow> shared_list" where
  "core row = row\<lparr>ls_pending := [], ls_cancelled := [], ls_error := [], ls_local := [], ls_last := None\<rparr>"

lemma core_fields [simp]:
  "ls_owner (core row) = ls_owner row" "ls_status (core row) = ls_status row" "ls_revision (core row) = ls_revision row"
  "ls_items (core row) = ls_items row" "ls_receipts (core row) = ls_receipts row" "core (core row) = core row"
  "list_snapshot (core row) = list_snapshot row" "receipt_of (core row) p = receipt_of row p"
  by (simp_all add: core_def list_snapshot_def receipt_of_def)

lemma core_id [simp]: "ls_id (core row) = ls_id row"
  by (simp add: core_def)

lemma core_more: "ls_id (core row) = ls_id row" "ls_friend (core row) = ls_friend row" "ls_relationship (core row) = ls_relationship row" "ls_title (core row) = ls_title row"
  by (simp_all add: core_def)

lemma core_updates [simp]:
  "core (row\<lparr>ls_pending := q\<rparr>) = core row" "core (row\<lparr>ls_cancelled := q\<rparr>) = core row" "core (row\<lparr>ls_error := e\<rparr>) = core row"
  "core (row\<lparr>ls_local := l\<rparr>) = core row" "core (row\<lparr>ls_last := x\<rparr>) = core row"
  by (simp_all add: core_def)

definition grows :: "list_node \<Rightarrow> string \<Rightarrow> shared_list \<Rightarrow> shared_list \<Rightarrow> bool" where
  "grows N p row new \<longleftrightarrow> same_list row new \<and> ls_revision new = ls_revision row + 1 \<and> ls_status row \<noteq> ''closed''
     \<and> (\<forall>q. q \<noteq> p \<longrightarrow> receipt_of new q = receipt_of row q) \<and> items_edit p (ls_items row) (ls_items new)
     \<and> (\<forall>g. hex_law N \<longrightarrow> p = ls_owner row \<or> p = g \<longrightarrow> list_ok N g row \<longrightarrow> list_ok N g new)"

lemma list_ok_core [simp]: "list_ok N g (core row) = list_ok N g row"
  by (simp add: list_ok_def core_def receipt_of_def)

lemma grows_core: "core a = core b \<Longrightarrow> grows N p row a = grows N p row b"
proof -
  assume e: "core a = core b"
  have "ls_revision a = ls_revision b" using arg_cong [OF e, of ls_revision] by simp
  moreover have "receipt_of a q = receipt_of b q" for q using arg_cong [OF e, of "\<lambda>r. receipt_of r q"] by simp
  moreover have "same_list row a = same_list row b"
    using arg_cong [OF e, of ls_id] arg_cong [OF e, of ls_owner] arg_cong [OF e, of ls_friend] arg_cong [OF e, of ls_relationship] arg_cong [OF e, of ls_title]
    by (simp add: same_list_def core_def)
  moreover have "ls_items a = ls_items b" using arg_cong [OF e, of ls_items] by simp
  moreover have "list_ok N g a = list_ok N g b" for g using e by (metis list_ok_core)
  ultimately show ?thesis by (simp add: grows_def)
qed

lemma edited_list_ok:
  assumes "change_items N peer action v row = Inr mid" "n = fst (receipt_of row peer) + 1" "1 \<le> n" "n \<le> 10 ^ 9" "hex_law N" "ls_status row = ''active''"
    "out = mid\<lparr>ls_revision := ls_revision row + 1, ls_receipts := dict_put peer (n, list_digest N operation) (ls_receipts row)\<rparr>"
    "peer = ls_owner row \<or> peer = g" "list_ok N g row"
  shows "list_ok N g out"
proof -
  note k = change_items_keeps [OF assms(1)]
  have same: "ls_owner mid = ls_owner row" "ls_title mid = ls_title row" using k(1) by (simp_all add: same_list_def)
  have "items_fit N {ls_owner row, g} (ls_items mid)" using change_items_fit [OF assms(1)] assms(8,9) by (auto simp: list_ok_def)
  moreover have "receipts_fit {ls_owner row, g} (dict_put peer (n, list_digest N operation) (ls_receipts row))"
    using assms(3-5,8,9) put_entries [of peer "(n, list_digest N operation)" "ls_receipts row"] by (auto simp: receipts_fit_def list_ok_def hex_law_def list_digest_def)
  moreover have "ls_status mid = ''active'' \<or> ls_status mid = ''closed''"
    by (cases rule: change_items_cases [OF assms(1)]) (simp_all add: assms(6))
  ultimately show ?thesis using assms(2,6-9) same
    by (auto simp: list_ok_def receipt_of_def)
qed

lemma apply_edit_row:
  assumes "apply_edit N F (JStr i) peer operation S = Inr (T, out)"
  obtains (again) "map_of S i = Some out" "T = S"
    | (new) row where "map_of S i = Some row" "T = dict_put i out S" "grows N peer row out"
      "jfield ''sequence'' operation = JInt (fst (receipt_of out peer))" "fst (receipt_of out peer) = fst (receipt_of row peer) + 1"
  using assms
proof (cases rule: apply_edit_cases)
  case (again row n)
  then show ?thesis using that(1) by simp
next
  case (new row n mid)
  have "same_list row mid" by (rule change_items_keeps(1) [OF new(7)])
  then have "grows N peer row out" using new(6,8) change_items_edit [OF new(7)] edited_list_ok [OF new(7,5,4,9) _ new(6,8)] by (simp add: grows_def same_list_def receipt_of_def)
  then show ?thesis using that(2) [of row] new(1,2,3,5,8) by (simp add: receipt_of_def)
qed

subsection \<open>Local edits\<close>

lemma list_mutate_Inr: "list_mutate N operation S = Inr (T, a) \<Longrightarrow> operation S = Inr (T, a)"
  by (auto simp: list_mutate_def guard_simps split: if_splits)

lemma edit_list_cases:
  assumes "edit_list N F idj opj action value S = Inr (T, out)"
  obtains (same) "T = S"
    | (own) j row operation stamp where "map_of S j = Some row" "ls_owner row = nd_peer N" "own_edit N F j row operation stamp S = Inr (T, out)"
    | (queued) j row operation stamp where "map_of S j = Some row" "ls_owner row \<noteq> nd_peer N" "ls_status row = ''active''"
      "eo_sequence operation = fst (receipt_of row (nd_peer N)) + int (length (ls_pending row)) + 1"
      "T = dict_put j (row\<lparr>ls_pending := ls_pending row @ [operation], ls_local := dict_put (eo_id operation) stamp (ls_local row)\<rparr>) S"
proof -
  obtain j o' a where e: "edit_row N F j o' a value S = Inr (T, out)"
    using assms unfolding edit_list_def bnd_Inr by (blast dest: list_mutate_Inr)
  then obtain row where row: "map_of S j = Some row"
    and body: "(case map_of (ls_local row) o' of
       Some seen \<Rightarrow> require (seen = edit_stamp N a value) op_changed (Inr (S, row))
     | None \<Rightarrow>
         require (length (ls_local row) < 4096) list_capacity (
         require (ls_status row = ''active'' \<and> list_all (\<lambda>op. eo_action op \<noteq> ''close'') (ls_pending row)) list_inactive (
         case find (\<lambda>op. eo_id op = o') (ls_pending row) of
           Some prior \<Rightarrow> require (eo_action prior = a \<and> py_eq (eo_value prior) value) op_changed (Inr (S, row))
         | None \<Rightarrow> if ls_owner row = nd_peer N then own_edit N F j row (next_op N row o' a value) (edit_stamp N a value) S
             else queue_edit j row (next_op N row o' a value) (edit_stamp N a value) S))) = Inr (T, out)"
    unfolding edit_row_def Let_def bnd_Inr opt_or_Inr by blast
  show thesis
  proof (cases "map_of (ls_local row) o'")
    case (Some seen)
    then show ?thesis using body same by (simp add: guard_simps)
  next
    case None
    note rest = body [unfolded None option.case require_Inr]
    show ?thesis
    proof (cases "find (\<lambda>op. eo_id op = o') (ls_pending row)")
      case (Some prior)
      then show ?thesis using rest same by (simp add: guard_simps)
    next
      case None
      note last_step = rest [unfolded None option.case]
      show ?thesis
      proof (cases "ls_owner row = nd_peer N")
        case True
        then show ?thesis using own [OF row True, of "next_op N row o' a value" "edit_stamp N a value"] last_step by simp
      next
        case False
        then have "queue_edit j row (next_op N row o' a value) (edit_stamp N a value) S = Inr (T, out)" using last_step by simp
        then have "T = dict_put j (row\<lparr>ls_pending := ls_pending row @ [next_op N row o' a value],
            ls_local := dict_put (eo_id (next_op N row o' a value)) (edit_stamp N a value) (ls_local row)\<rparr>) S"
          by (auto simp: queue_edit_def require_Inr Let_def)
        moreover have "ls_status row = ''active''" using last_step by simp
        moreover have "eo_sequence (next_op N row o' a value) = fst (receipt_of row (nd_peer N)) + int (length (ls_pending row)) + 1" by (simp add: next_op_def)
        ultimately show ?thesis using queued [OF row False] by blast
      qed
    qed
  qed
qed

lemma own_edit_row:
  assumes "own_edit N F j row operation stamp S = Inr (T, out)" "map_of S j = Some row"
  shows "\<exists>new. map_of T j = Some new \<and> (core new = core row \<or> grows N (nd_peer N) row new)" "k \<noteq> j \<Longrightarrow> map_of T k = map_of S k"
proof -
  have "(\<exists>new. map_of T j = Some new \<and> (core new = core row \<or> grows N (nd_peer N) row new)) \<and> (\<forall>k. k \<noteq> j \<longrightarrow> map_of T k = map_of S k)"
  proof (cases "ls_last row = Some (eo_id operation)")
    case True
    with assms show ?thesis by (simp add: own_edit_def guard_simps)
  next
    case False
    with assms(1) obtain U mid where u: "apply_edit N F (JStr j) (nd_peer N) (op_json operation) S = Inr (U, mid)"
      and t: "T = dict_put j (mid\<lparr>ls_last := Some (eo_id operation), ls_local := dict_put (eo_id operation) stamp (ls_local mid)\<rparr>) U"
      by (auto simp: own_edit_def guard_simps Let_def)
    from u have "(\<exists>new. new = mid \<and> (core new = core row \<or> grows N (nd_peer N) row new)) \<and> (\<forall>k. k \<noteq> j \<longrightarrow> map_of U k = map_of S k)"
    proof (cases rule: apply_edit_row)
      case again
      with assms(2) show ?thesis by simp
    next
      case (new row')
      with assms(2) show ?thesis by simp
    qed
    then show ?thesis unfolding t using grows_core [of mid "mid\<lparr>ls_last := Some (eo_id operation), ls_local := dict_put (eo_id operation) stamp (ls_local mid)\<rparr>"]
      by simp
  qed
  then show "\<exists>new. map_of T j = Some new \<and> (core new = core row \<or> grows N (nd_peer N) row new)" "k \<noteq> j \<Longrightarrow> map_of T k = map_of S k"
    by blast+
qed

text \<open>What an edit at the owner and at a member does to the row of \<open>i\<close>.\<close>

lemma edit_at_owner:
  assumes "edit_list N F idj opj action value S = Inr (T, out)" "map_of S i = Some row" "ls_owner row = nd_peer N"
  shows "\<exists>new. map_of T i = Some new \<and> (core new = core row \<or> grows N (nd_peer N) row new)"
  using assms(1)
proof (cases rule: edit_list_cases)
  case (own j row' operation stamp)
  then show ?thesis using own_edit_row [OF own(3,1)] assms(2) by (cases "i = j") auto
next
  case (queued j row' operation stamp)
  then show ?thesis using assms(2,3) by (cases "i = j") auto
qed (use assms in blast)

lemma edit_at_member:
  assumes "edit_list N F idj opj action value S = Inr (T, out)" "map_of S i = Some row" "ls_owner row \<noteq> nd_peer N"
  obtains (same) "map_of T i = Some row"
    | (queued) operation stamp where "ls_status row = ''active''" "eo_sequence operation = fst (receipt_of row (nd_peer N)) + int (length (ls_pending row)) + 1"
      "map_of T i = Some (row\<lparr>ls_pending := ls_pending row @ [operation], ls_local := stamp\<rparr>)"
  using assms(1)
proof (cases rule: edit_list_cases)
  case (own j row' operation stamp)
  then have "i \<noteq> j" using assms(2,3) by auto
  with own_edit_row(2) [OF own(3,1)] show ?thesis using that(1) assms(2) by simp
next
  case (queued j row' operation stamp)
  then show ?thesis using assms(2) that by (cases "i = j") auto
qed (use assms that in blast)

lemma edit_absent:
  assumes "edit_list N F idj opj action value S = Inr (T, out)" "map_of S i = None"
  shows "map_of T i = None"
  using assms(1)
proof (cases rule: edit_list_cases)
  case (own j row' operation stamp)
  then have "i \<noteq> j" using assms(2) by auto
  with own_edit_row(2) [OF own(3,1)] show ?thesis using assms(2) by simp
next
  case (queued j row' operation stamp)
  then show ?thesis using assms(2) by (cases "i = j") auto
qed (use assms in simp)

subsection \<open>Answers\<close>

lemma serve_list_row:
  assumes "serve_list N F relation request S = Inr (T, answer)" "jfield ''action'' request \<noteq> JStr ''invitations''" "jfield ''id'' request = JStr i" "map_of S i = Some row" "ls_id row = i"
  obtains (same) "map_of T i = Some row" "answer = list_snapshot row"
    | (accepted) new where "jfield ''action'' request \<noteq> JStr ''edit''" "map_of T i = Some new" "grows N (fr_peer relation) row new" "answer = list_snapshot new" "receipt_of new (fr_peer relation) = receipt_of row (fr_peer relation)"
    | (edited) new where "jfield ''action'' request = JStr ''edit''" "map_of T i = Some new" "grows N (fr_peer relation) row new" "answer = list_snapshot new"
      "jfield ''sequence'' (jfield ''operation'' request) = JInt (fst (receipt_of new (fr_peer relation)))"
      "fst (receipt_of new (fr_peer relation)) = fst (receipt_of row (fr_peer relation)) + 1"
proof -
  from assms(1) obtain action where a: "jitem ''action'' request = Inr action"
    and rest: "(if action = JStr ''invitations'' then Inr (S, invitations N relation S)
       else bnd (owner_row N F S (JStr i) (fr_peer relation) False) (\<lambda>row.
       require (ls_relationship row = fr_id relation) (Raised ''shared_list_unavailable'') (
       if action = JStr ''accept'' then
         require (ls_status row \<noteq> ''closed'') list_inactive (Inr (dict_put i (accept_row row) S, list_snapshot (accept_row row)))
       else if action = JStr ''snapshot'' then Inr (S, list_snapshot row)
       else if action = JStr ''edit'' then
         bnd (apply_edit N F (JStr (ls_id row)) (fr_peer relation) (jfield ''operation'' request) S) (\<lambda>(T, out). Inr (T, list_snapshot out))
       else Inl bad_request))) = Inr (T, answer)"
    unfolding serve_list_def assms(3) py_str.simps bnd_Inr by blast
  have f: "jfield ''action'' request = action" using a by (simp add: jitem_Inr jfield_def)
  then have na: "action \<noteq> JStr ''invitations''" using assms(2) by simp
  from rest [unfolded if_not_P [OF na] bnd_Inr require_Inr] obtain row' where o': "owner_row N F S (JStr i) (fr_peer relation) False = Inr row'"
    and body: "(if action = JStr ''accept'' then
         require (ls_status row' \<noteq> ''closed'') list_inactive (Inr (dict_put i (accept_row row') S, list_snapshot (accept_row row')))
       else if action = JStr ''snapshot'' then Inr (S, list_snapshot row')
       else if action = JStr ''edit'' then
         bnd (apply_edit N F (JStr (ls_id row')) (fr_peer relation) (jfield ''operation'' request) S) (\<lambda>(T, out). Inr (T, list_snapshot out))
       else Inl bad_request) = Inr (T, answer)" unfolding bnd_Inr require_Inr by blast
  have r: "row' = row" using o' assms(4) by (simp add: owner_row_def guard_simps list_identity_Inr)
  show thesis
  proof (cases "action = JStr ''accept''")
    case True
    note acc = body [unfolded if_P [OF True] require_Inr sum.inject prod.inject r]
    show ?thesis
    proof (cases "ls_status row = ''invited''")
      case True
      then have "grows N (fr_peer relation) row (accept_row row)" "receipt_of (accept_row row) (fr_peer relation) = receipt_of row (fr_peer relation)"
        by (auto simp: accept_row_def grows_def same_list_def receipt_of_def list_ok_def)
      moreover have "map_of T i = Some (accept_row row)" "answer = list_snapshot (accept_row row)" using acc by auto
      moreover have "jfield ''action'' request \<noteq> JStr ''edit''" using True f \<open>action = JStr ''accept''\<close> by simp
      ultimately show ?thesis using accepted by blast
    next
      case False
      then have "accept_row row = row" by (simp add: accept_row_def)
      with acc same show ?thesis by auto
    qed
  next
    case not_accept: False
    show ?thesis
    proof (cases "action = JStr ''snapshot''")
      case True
      with body r assms(4) same show ?thesis by auto
    next
      case False
      with not_accept body r assms(5) obtain out where e: "action = JStr ''edit''" "apply_edit N F (JStr i) (fr_peer relation) (jfield ''operation'' request) S = Inr (T, out)" "answer = list_snapshot out"
        by (auto simp: bnd_Inr split: if_splits)
      from e(2) show ?thesis
      proof (cases rule: apply_edit_row)
        case again
        with e(3) same assms(4) show ?thesis by simp
      next
        case (new row'')
        with e edited [of out] assms(4) f show ?thesis by simp
      qed
    qed
  qed
qed

lemma serve_edit_applies:
  assumes "serve_list N F relation request S = Inr (T, answer)" "jfield ''action'' request = JStr ''edit''" "jfield ''id'' request = JStr i"
    "map_of S i = Some row" "ls_id row = i"
  obtains out where "apply_edit N F (JStr i) (fr_peer relation) (jfield ''operation'' request) S = Inr (T, out)" "answer = list_snapshot out"
proof -
  from assms(1) obtain action where a: "jitem ''action'' request = Inr action"
    and rest: "(if action = JStr ''invitations'' then Inr (S, invitations N relation S)
       else bnd (owner_row N F S (JStr i) (fr_peer relation) False) (\<lambda>row.
       require (ls_relationship row = fr_id relation) (Raised ''shared_list_unavailable'') (
       if action = JStr ''accept'' then
         require (ls_status row \<noteq> ''closed'') list_inactive (Inr (dict_put i (accept_row row) S, list_snapshot (accept_row row)))
       else if action = JStr ''snapshot'' then Inr (S, list_snapshot row)
       else if action = JStr ''edit'' then
         bnd (apply_edit N F (JStr (ls_id row)) (fr_peer relation) (jfield ''operation'' request) S) (\<lambda>(T, out). Inr (T, list_snapshot out))
       else Inl bad_request))) = Inr (T, answer)"
    unfolding serve_list_def assms(3) py_str.simps bnd_Inr by blast
  have f: "action = JStr ''edit''" using a assms(2) by (simp add: jitem_Inr jfield_def)
  from rest [unfolded f] obtain row' where o': "owner_row N F S (JStr i) (fr_peer relation) False = Inr row'"
    and body: "bnd (apply_edit N F (JStr (ls_id row')) (fr_peer relation) (jfield ''operation'' request) S) (\<lambda>(T, out). Inr (T, list_snapshot out)) = Inr (T, answer)"
    by (auto simp: bnd_Inr require_Inr)
  have "row' = row" using o' assms(4) by (simp add: owner_row_def guard_simps list_identity_Inr)
  with body assms(5) that show thesis by (auto simp: bnd_Inr)
qed

subsection \<open>Snapshots at the member\<close>

lemma read_receipts_map:
  "read_receipts N owner d = Inr rs \<Longrightarrow> map_of rs k = map_option (\<lambda>j. (jint ''sequence'' j, jstr ''digest'' j)) (map_of d k)"
proof (induction d arbitrary: rs)
  case (Cons e d)
  then obtain r rs' where r: "read_receipt N owner e = Inr r" "read_receipts N owner d = Inr rs'" "rs = r # rs'" by (auto simp: bnd_Inr)
  have "r = (fst e, (jint ''sequence'' (snd e), jstr ''digest'' (snd e)))"
    using r(1) by (auto simp: read_receipt_def guard_simps jint_def jstr_def jfield_def split: json.splits option.splits)
  with r Cons.IH [OF r(2)] show ?case by (cases e) simp
qed simp

lemma canon_receipts:
  "map_of (obj_items (canon (JObj (map (map_prod id receipt_dict) rcs)))) p = map_option (canon \<circ> receipt_dict) (map_of rcs p)"
proof -
  have "map_of (map (map_prod id receipt_dict) rcs) p = map_option receipt_dict (map_of rcs p)" by (induction rcs) auto
  then show ?thesis using jget_canon [of p "JObj (map (map_prod id receipt_dict) rcs)"]
    by (simp add: jget_def obj_items_def option.map_comp)
qed

lemma receipt_canon: "jint ''sequence'' (canon (receipt_dict r)) = fst r" "jstr ''digest'' (canon (receipt_dict r)) = snd r"
  by (simp_all add: jint_def jstr_def jget_canon receipt_dict_def jget_def)

lemma read_snapshot_canon:
  assumes "read_snapshot N i rid owner (canon (list_snapshot row)) = Inr got"
  shows "ls_revision got = ls_revision row" "ls_status got = ls_status row" "ls_status row = ''active'' \<or> ls_status row = ''closed''"
    "receipt_of got p = receipt_of row p" "ls_owner got = owner" "ls_relationship got = rid" "ls_pending got = []" "ls_cancelled got = []"
    "map_of (ls_receipts got) p = map_of (ls_receipts row) p"
proof -
  let ?j = "canon (list_snapshot row)"
  have f: "jfield k ?j = canon v" if "jget k (list_snapshot row) = Some v" for k v using that by (simp add: jfield_def jget_canon)
  have fields: "jfield ''revision'' ?j = JInt (ls_revision row)" "jfield ''status'' ?j = JStr (ls_status row)"
    "jfield ''receipts'' ?j = canon (JObj (map (map_prod id receipt_dict) (ls_receipts row)))"
    by (subst f, simp add: list_snapshot_def jget_def, simp)+
  obtain known rcs where known: "in_strings (JStr (ls_status row)) [''active'', ''closed''] = Inr known" known
    and rcs: "read_receipts N owner (obj_items (canon (JObj (map (map_prod id receipt_dict) (ls_receipts row))))) = Inr rcs"
    and got: "got = \<lparr>ls_id = i, ls_owner = owner, ls_friend = nd_peer N, ls_relationship = rid, ls_title = py_str (jfield ''title'' ?j),
           ls_status = py_str (JStr (ls_status row)), ls_revision = ls_revision row, ls_items = obj_items (jfield ''items'' ?j), ls_receipts = rcs,
           ls_pending = [], ls_cancelled = [], ls_error = [], ls_local = [], ls_last = None\<rparr>"
    using assms unfolding read_snapshot_def fields json.case require_Inr bnd_Inr by blast
  show r: "map_of (ls_receipts got) p = map_of (ls_receipts row) p"
    unfolding got shared_list.simps read_receipts_map [OF rcs] canon_receipts
    by (cases "map_of (ls_receipts row) p") (simp_all add: receipt_canon)
  then show "receipt_of got p = receipt_of row p" by (simp add: receipt_of_def)
  show "ls_status row = ''active'' \<or> ls_status row = ''closed''" using known by (auto simp: in_strings_def split: if_splits)
  show "ls_revision got = ls_revision row" "ls_status got = ls_status row" "ls_owner got = owner" "ls_relationship got = rid" "ls_pending got = []" "ls_cancelled got = []"
    by (simp_all add: got)
qed

text \<open>Operations numbered from 1 in order: what lies after number \<open>k\<close>.\<close>

definition op_numbers :: "edit_op list \<Rightarrow> bool" where
  "op_numbers h \<longleftrightarrow> (\<forall>j < length h. eo_sequence (h ! j) = int j + 1)"

lemma op_numbers_append: "op_numbers (h @ [op]) \<longleftrightarrow> op_numbers h \<and> eo_sequence op = int (length h) + 1"
  by (auto simp: op_numbers_def nth_append less_Suc_eq)

lemma op_numbers_mem: "op_numbers h \<Longrightarrow> op \<in> set h \<Longrightarrow> eo_sequence op = int n + 1 \<Longrightarrow> n < length h \<and> op = h ! n"
  by (auto simp: op_numbers_def in_set_conv_nth)

lemma op_numbers_after:
  assumes "op_numbers h" "b \<le> k"
  shows "filter (\<lambda>op. int k < eo_sequence op) (drop b h) = drop k h"
proof -
  have s: "drop b h = drop b (take k h) @ drop k h"
    using assms(2) by (metis append_take_drop_id drop_drop drop_take le_add_diff_inverse2 add.commute)
  have "\<forall>op \<in> set (take k h). \<not> int k < eo_sequence op"
    using assms(1) by (auto simp: op_numbers_def in_set_conv_nth)
  then have "\<forall>op \<in> set (drop b (take k h)). \<not> int k < eo_sequence op" by (meson in_set_dropD)
  moreover have "\<forall>op \<in> set (drop k h). int k < eo_sequence op"
    using assms(1) by (auto simp: op_numbers_def in_set_conv_nth)
  ultimately show ?thesis by (simp add: s)
qed

lemma confirm_queue_after:
  assumes "confirm_queue N receipt q = Inr queue" "n = (case receipt of None \<Rightarrow> 0 | Some r \<Rightarrow> fst r)"
  shows "queue = filter (\<lambda>op. n < eo_sequence op) q"
proof (cases "filter (\<lambda>op. eo_sequence op \<le> n) q = []")
  case True
  then have "filter (\<lambda>op. n < eo_sequence op) q = q" by (auto simp: filter_empty_conv not_le)
  with True assms show ?thesis by (simp add: confirm_queue_def Let_def)
next
  case False
  with assms show ?thesis by (auto simp: confirm_queue_def Let_def guard_simps)
qed

lemma take_snapshot_cases:
  assumes "take_snapshot N i rid owner got ack S = Inr (T, u)"
  obtains (stale) p where "T = S" "map_of S i = Some p" "ls_revision got < ls_revision p"
    | (taken) queue cancelled local where "T = dict_put i (got\<lparr>ls_pending := (if ls_status got = ''closed'' then [] else queue),
         ls_cancelled := (if ls_status got = ''closed'' then cancelled @ queue else cancelled), ls_local := local\<rparr>) S"
      "cancelled = (case map_of S i of None \<Rightarrow> [] | Some p \<Rightarrow> ls_cancelled p)"
      "queue = filter (\<lambda>op. fst (receipt_of got (nd_peer N)) < eo_sequence op) (case map_of S i of None \<Rightarrow> [] | Some p \<Rightarrow> ls_pending p)"
      "case map_of S i of None \<Rightarrow> True | Some p \<Rightarrow> ls_revision p \<le> ls_revision got"
proof -
  let ?old = "case map_of S i of None \<Rightarrow> False | Some p \<Rightarrow> ls_revision got < ls_revision p"
  show thesis
  proof (cases ?old)
    case True
    with assms have "T = S" by (simp add: take_snapshot_def Let_def guard_simps)
    with True stale show ?thesis by (auto split: option.splits)
  next
    case False
    with assms obtain queue where q: "confirm_queue N (map_of (ls_receipts got) (nd_peer N)) (case map_of S i of None \<Rightarrow> [] | Some p \<Rightarrow> ls_pending p) = Inr queue"
      and t: "T = dict_put i (got\<lparr>ls_pending := (if ls_status got = ''closed'' then [] else queue),
         ls_cancelled := (if ls_status got = ''closed'' then (case map_of S i of None \<Rightarrow> [] | Some p \<Rightarrow> ls_cancelled p) @ queue else (case map_of S i of None \<Rightarrow> [] | Some p \<Rightarrow> ls_cancelled p)),
         ls_local := (case map_of S i of None \<Rightarrow> [] | Some p \<Rightarrow> ls_local p)\<rparr>) S"
      unfolding take_snapshot_def Let_def if_not_P [OF False] require_Inr bnd_Inr by blast
    have "fst (receipt_of got (nd_peer N)) = (case map_of (ls_receipts got) (nd_peer N) of None \<Rightarrow> 0 | Some r \<Rightarrow> fst r)"
      by (simp add: receipt_of_def split: option.split)
    from confirm_queue_after [OF q this] t False taken show ?thesis by (auto split: option.splits)
  qed
qed

end
