(* ===== verification/Shared_Machine.thy ===== *)
theory Shared_Machine
  imports Shared_Safety
begin

section \<open>A list between its owner and its member\<close>

text \<open>
  The owner, the member and the messages between them as one guarded machine: requests and answers wait in the network and are
  handled in any order, any number of times, or never, while both sides edit and any friendship may end. What is delivered is the value that
  was sealed, as canonical JSON reads it back. \<open>sw_history\<close> and \<open>sw_applied\<close> are history variables: the edits the member
  queued, and those of them the owner applied.
\<close>

record shared_pair =
  sp_owner :: list_node
  sp_member :: list_node
  sp_guest :: friend
  sp_host :: friend
  sp_list :: string

definition pair_ok :: "shared_pair \<Rightarrow> bool" where
  "pair_ok P \<longleftrightarrow> nd_peer (sp_owner P) \<noteq> nd_peer (sp_member P) \<and> fr_peer (sp_guest P) = nd_peer (sp_member P) \<and> fr_peer (sp_host P) = nd_peer (sp_owner P)
     \<and> fr_id (sp_host P) = fr_id (sp_guest P) \<and> nd_lib (sp_member P) = nd_lib (sp_owner P) \<and> hex_law (sp_owner P)"

record shared_world =
  sw_owner :: lists
  sw_member :: lists
  sw_requests :: "(string \<times> edit_op option) list"
  sw_answers :: "(json \<times> edit_op option) list"
  sw_history :: "edit_op list"
  sw_applied :: "edit_op list"

datatype shared_event =
    Owner_Edit friends json json json json
  | Member_Edit friends json json json json
  | Ask_Accept | Ask_Snapshot | Ask_Edit
  | Serve friends string nat
  | Deliver friends nat
  | Note_Failure

text \<open>The edits that went to the end of a queue.\<close>

definition newly_queued :: "shared_list option \<Rightarrow> shared_list option \<Rightarrow> edit_op list" where
  "newly_queued old new = (case (old, new) of (Some r, Some r') \<Rightarrow> drop (length (ls_pending r)) (ls_pending r') | _ \<Rightarrow> [])"

definition sent_request :: "shared_pair \<Rightarrow> string \<Rightarrow> string \<times> edit_op option \<Rightarrow> json" where
  "sent_request P rid r = canon (list_request (sp_member P) (sp_host P) rid (fst r)
     ((''id'', JStr (sp_list P)) # (case snd r of None \<Rightarrow> [] | Some op \<Rightarrow> [(''operation'', op_json op)])))"

definition served :: "shared_pair \<Rightarrow> shared_world \<Rightarrow> string \<times> edit_op option \<Rightarrow> lists \<times> json \<Rightarrow> shared_world" where
  "served P W r out = W\<lparr>sw_owner := fst out, sw_answers := sw_answers W @ [(canon (snd out), snd r)],
     sw_applied := sw_applied W @ (case snd r of None \<Rightarrow> [] | Some op \<Rightarrow>
       if map_option ls_revision (map_of (fst out) (sp_list P)) = map_option ls_revision (map_of (sw_owner W) (sp_list P)) then [] else [op])\<rparr>"

fun shared_step :: "shared_pair \<Rightarrow> shared_world \<Rightarrow> shared_event \<Rightarrow> py_error + shared_world" where
  "shared_step P W (Owner_Edit F i op action value) =
     bnd (edit_list (sp_owner P) F i op action value (sw_owner W)) (\<lambda>(T, _). Inr (W\<lparr>sw_owner := T\<rparr>))"
| "shared_step P W (Member_Edit F i op action value) =
     bnd (edit_list (sp_member P) F i op action value (sw_member W)) (\<lambda>(T, _).
       Inr (W\<lparr>sw_member := T, sw_history := sw_history W @ newly_queued (map_of (sw_member W) (sp_list P)) (map_of T (sp_list P))\<rparr>))"
| "shared_step P W Ask_Accept = Inr (W\<lparr>sw_requests := sw_requests W @ [(''accept'', None)]\<rparr>)"
| "shared_step P W Ask_Snapshot = Inr (W\<lparr>sw_requests := sw_requests W @ [(''snapshot'', None)]\<rparr>)"
| "shared_step P W Ask_Edit = bnd (opt_or (Raised ''shared_list_unavailable'') (map_of (sw_member W) (sp_list P))) (\<lambda>row.
     case ls_pending row of [] \<Rightarrow> Inr W | op # _ \<Rightarrow> Inr (W\<lparr>sw_requests := sw_requests W @ [(''edit'', Some op)]\<rparr>))"
| "shared_step P W (Serve F rid k) =
     (if k < length (sw_requests W) then let r = sw_requests W ! k in
        bnd (list_mutate (sp_owner P) (serve_list (sp_owner P) F (sp_guest P) (sent_request P rid r)) (sw_owner W)) (\<lambda>out. Inr (served P W r out))
      else Inr W)"
| "shared_step P W (Deliver F k) =
     (if k < length (sw_answers W) then let (answer, asked) = sw_answers W ! k in
        bnd (receive_list (sp_member P) F (sp_list P) (fr_id (sp_host P)) (fr_peer (sp_host P)) answer asked (sw_member W)) (\<lambda>(T, _). Inr (W\<lparr>sw_member := T\<rparr>))
      else Inr W)"
| "shared_step P W Note_Failure = bnd (list_mutate (sp_member P) (note_failure (sp_list P)) (sw_member W)) (\<lambda>(T, _). Inr (W\<lparr>sw_member := T\<rparr>))"

definition shared_start :: "lists \<Rightarrow> lists \<Rightarrow> shared_world" where
  "shared_start S M = \<lparr>sw_owner = S, sw_member = M, sw_requests = [], sw_answers = [], sw_history = [], sw_applied = []\<rparr>"

subsection \<open>The versions of the owner's row\<close>

definition taken :: "string \<Rightarrow> shared_list \<Rightarrow> nat" where
  "taken p row = nat (fst (receipt_of row p))"

lemma taken_core: "core a = core b \<Longrightarrow> taken p a = taken p b"
  by (metis core_fields(8) taken_def)

definition versions_ok :: "string \<Rightarrow> shared_list list \<Rightarrow> bool" where
  "versions_ok p V \<longleftrightarrow> V \<noteq> [] \<and> sorted (map (taken p) V) \<and> (\<forall>j < length V. ls_revision (V ! j) = int j + 1)
     \<and> (\<forall>v \<in> set (butlast V). ls_status v \<noteq> ''closed'') \<and> (\<forall>v \<in> set V. 0 \<le> fst (receipt_of v p))"

lemma versions_append:
  assumes "versions_ok p V" "ls_status (last V) \<noteq> ''closed''" "ls_revision new = ls_revision (last V) + 1" "fst (receipt_of (last V) p) \<le> fst (receipt_of new p)"
  shows "versions_ok p (V @ [new])"
proof -
  have l: "V \<noteq> []" "last V \<in> set V" using assms(1) by (simp_all add: versions_ok_def)
  have "taken p v \<le> taken p new" if "v \<in> set V" for v
  proof -
    have "sorted (map (taken p) (butlast V @ [last V]))" using assms(1) l(1) by (simp add: versions_ok_def)
    moreover have "v \<in> set (butlast V) \<or> v = last V" using that l(1) by (metis append_butlast_last_id in_set_conv_decomp in_set_butlastD list.set_intros(1) rotate1.simps(2) set_ConsD set_rotate1)
    ultimately have "taken p v \<le> taken p (last V)" by (auto simp: sorted_append)
    also have "\<dots> \<le> taken p new" using assms(4) by (simp add: taken_def)
    finally show ?thesis .
  qed
  moreover have "ls_revision (last V) = int (length V)" using assms(1) l(1) by (auto simp: versions_ok_def last_conv_nth Suc_le_eq)
  moreover have "ls_status v \<noteq> ''closed''" if "v \<in> set V" for v
    using that assms(1,2) l(1) unfolding versions_ok_def by (metis append_butlast_last_id in_set_conv_decomp in_set_butlastD list.set_intros(1) rotate1.simps(2) set_ConsD set_rotate1)
  moreover have "0 \<le> fst (receipt_of new p)" using assms(1,4) l(2) unfolding versions_ok_def by (meson order_trans)
  ultimately show ?thesis using assms(1,3) by (auto simp: versions_ok_def sorted_append nth_append less_Suc_eq)
qed

lemma versions_le:
  assumes "versions_ok p V" "v \<in> set V" "w \<in> set V" "ls_revision v \<le> ls_revision w"
  shows "taken p v \<le> taken p w" "ls_status v = ''closed'' \<Longrightarrow> v = w \<and> v = last V"
proof -
  obtain a b where ab: "a < length V" "v = V ! a" "b < length V" "w = V ! b" using assms(2,3) by (auto simp: in_set_conv_nth)
  then have le: "a \<le> b" using assms(1,4) by (simp add: versions_ok_def)
  then show "taken p v \<le> taken p w" using sorted_nth_mono [of "map (taken p) V" a b] assms(1) ab by (simp add: versions_ok_def)
  assume c: "ls_status v = ''closed''"
  have "\<not> a < length V - 1"
  proof
    assume "a < length V - 1"
    then have "V ! a \<in> set (butlast V)" by (metis length_butlast nth_butlast nth_mem)
    with assms(1) c ab(2) show False by (simp add: versions_ok_def)
  qed
  with ab le have "a = b" "b = length V - 1" by simp_all
  moreover have "V \<noteq> []" using assms(1) by (simp add: versions_ok_def)
  ultimately show "v = w \<and> v = last V" using ab by (simp add: last_conv_nth)
qed

subsection \<open>The invariant\<close>

definition owner_ok :: "shared_pair \<Rightarrow> shared_list list \<Rightarrow> shared_world \<Rightarrow> bool" where
  "owner_ok P V W \<longleftrightarrow> (\<exists>row. map_of (sw_owner W) (sp_list P) = Some row \<and> ls_id row = sp_list P \<and> ls_owner row = nd_peer (sp_owner P)
     \<and> core row = core (last V) \<and> items_ok (ls_items row)
     \<and> ls_friend row = nd_peer (sp_member P) \<and> ls_relationship row = fr_id (sp_guest P) \<and> list_ok (sp_owner P) (nd_peer (sp_member P)) row)"

definition history_ok :: "shared_pair \<Rightarrow> shared_list list \<Rightarrow> shared_world \<Rightarrow> bool" where
  "history_ok P V W \<longleftrightarrow> op_numbers (sw_history W) \<and> taken (nd_peer (sp_member P)) (last V) \<le> length (sw_history W)
     \<and> sw_applied W = take (taken (nd_peer (sp_member P)) (last V)) (sw_history W)"

definition network_ok :: "shared_list list \<Rightarrow> shared_world \<Rightarrow> bool" where
  "network_ok V W \<longleftrightarrow> (\<forall>r \<in> set (sw_requests W). fst r \<noteq> ''invitations'' \<and> (fst r = ''edit'' \<longleftrightarrow> snd r \<noteq> None) \<and> set_option (snd r) \<subseteq> set (sw_history W))
     \<and> (\<forall>a \<in> set (sw_answers W). \<exists>v \<in> set V. fst a = canon (list_snapshot v))"

definition queue_ok :: "string \<Rightarrow> edit_op list \<Rightarrow> shared_list \<Rightarrow> bool" where
  "queue_ok p h row \<longleftrightarrow> (if ls_status row = ''closed'' then ls_pending row = [] \<and> ls_cancelled row = drop (taken p row) h
     else ls_pending row = drop (taken p row) h \<and> ls_cancelled row = [])"

definition member_ok :: "shared_pair \<Rightarrow> shared_list list \<Rightarrow> shared_world \<Rightarrow> bool" where
  "member_ok P V W \<longleftrightarrow> (case map_of (sw_member W) (sp_list P) of None \<Rightarrow> sw_history W = []
     | Some row \<Rightarrow> ls_owner row = nd_peer (sp_owner P) \<and> ls_relationship row = fr_id (sp_host P) \<and> queue_ok (nd_peer (sp_member P)) (sw_history W) row
         \<and> (\<exists>v \<in> set V. ls_revision row = ls_revision v \<and> ls_status row = ls_status v \<and> receipt_of row (nd_peer (sp_member P)) = receipt_of v (nd_peer (sp_member P))))"

definition shared_inv :: "shared_pair \<Rightarrow> shared_world \<Rightarrow> bool" where
  "shared_inv P W \<longleftrightarrow> (\<exists>V. versions_ok (nd_peer (sp_member P)) V \<and> owner_ok P V W \<and> history_ok P V W \<and> network_ok V W \<and> member_ok P V W)"

lemmas shared_parts = owner_ok_def history_ok_def network_ok_def member_ok_def

lemma parts_updates [simp]:
  "member_ok P V (W\<lparr>sw_owner := T\<rparr>) = member_ok P V W" "history_ok P V (W\<lparr>sw_owner := T\<rparr>) = history_ok P V W" "network_ok V (W\<lparr>sw_owner := T\<rparr>) = network_ok V W"
  "member_ok P V (W\<lparr>sw_answers := a\<rparr>) = member_ok P V W" "history_ok P V (W\<lparr>sw_answers := a\<rparr>) = history_ok P V W" "owner_ok P V (W\<lparr>sw_answers := a\<rparr>) = owner_ok P V W"
  "member_ok P V (W\<lparr>sw_requests := r\<rparr>) = member_ok P V W" "history_ok P V (W\<lparr>sw_requests := r\<rparr>) = history_ok P V W" "owner_ok P V (W\<lparr>sw_requests := r\<rparr>) = owner_ok P V W"
  "member_ok P V (W\<lparr>sw_applied := h\<rparr>) = member_ok P V W" "network_ok V (W\<lparr>sw_applied := h\<rparr>) = network_ok V W" "owner_ok P V (W\<lparr>sw_applied := h\<rparr>) = owner_ok P V W"
  "history_ok P V (W\<lparr>sw_member := M\<rparr>) = history_ok P V W" "network_ok V (W\<lparr>sw_member := M\<rparr>) = network_ok V W" "owner_ok P V (W\<lparr>sw_member := M\<rparr>) = owner_ok P V W"
  by (simp_all add: shared_parts cong: option.case_cong)

text \<open>The owner's row grows by one version.\<close>

lemma new_version:
  assumes "pair_ok P" "versions_ok (nd_peer (sp_member P)) V" "owner_ok P V W" "network_ok V W" "member_ok P V W"
    "map_of (sw_owner W) (sp_list P) = Some row" "grows (sp_owner P) q row new" "q = nd_peer (sp_owner P) \<or> q = nd_peer (sp_member P)"
    "map_of S (sp_list P) = Some new" "fst (receipt_of row (nd_peer (sp_member P))) \<le> fst (receipt_of new (nd_peer (sp_member P)))"
  shows "versions_ok (nd_peer (sp_member P)) (V @ [new])" "owner_ok P (V @ [new]) (W\<lparr>sw_owner := S\<rparr>)" "network_ok (V @ [new]) W" "member_ok P (V @ [new]) W"
proof -
  have c: "core row = core (last V)" "ls_id row = sp_list P" "ls_owner row = nd_peer (sp_owner P)" "items_ok (ls_items row)"
    "list_ok (sp_owner P) (nd_peer (sp_member P)) row" using assms(3,6) by (auto simp: owner_ok_def)
  have f: "ls_status (last V) = ls_status row" "ls_revision (last V) = ls_revision row" "receipt_of (last V) x = receipt_of row x" for x
    using c(1) by (metis core_fields)+
  show "versions_ok (nd_peer (sp_member P)) (V @ [new])" using assms(2,7,10) by (intro versions_append) (auto simp: grows_def f)
  have "list_ok (sp_owner P) (nd_peer (sp_member P)) new" using assms(1,7,8) c(3,5) unfolding grows_def pair_ok_def by metis
  moreover have "items_ok (ls_items new)" using assms(7) c(4) by (simp add: grows_def items_edit_def)
  ultimately show "owner_ok P (V @ [new]) (W\<lparr>sw_owner := S\<rparr>)" using assms(3,6,7,9) by (auto simp: owner_ok_def grows_def same_list_def)
  show "network_ok (V @ [new]) W" using assms(4) by (auto simp: network_ok_def)
  show "member_ok P (V @ [new]) W" using assms(5) by (auto simp: member_ok_def split: option.splits)
qed

lemma owner_edit_keeps:
  assumes "pair_ok P" "shared_inv P W" "edit_list (sp_owner P) F i op action value (sw_owner W) = Inr (T, out)"
  shows "shared_inv P (W\<lparr>sw_owner := T\<rparr>)"
proof -
  obtain V where v: "versions_ok (nd_peer (sp_member P)) V" "owner_ok P V W" "history_ok P V W" "network_ok V W" "member_ok P V W"
    using assms(2) by (auto simp: shared_inv_def)
  obtain row where row: "map_of (sw_owner W) (sp_list P) = Some row" "ls_id row = sp_list P" "ls_owner row = nd_peer (sp_owner P)" "core row = core (last V)"
    using v(2) by (auto simp: owner_ok_def)
  obtain new where new: "map_of T (sp_list P) = Some new" "core new = core row \<or> grows (sp_owner P) (nd_peer (sp_owner P)) row new"
    using edit_at_owner [OF assms(3) row(1,3)] by blast
  show ?thesis
  proof (cases "core new = core row")
    case True
    then have "owner_ok P V (W\<lparr>sw_owner := T\<rparr>)" using new(1) v(2) row(1) unfolding owner_ok_def by (simp del: list_ok_core) (metis core_fields core_more list_ok_core)
    with v show ?thesis unfolding shared_inv_def by (intro exI [of _ V]) simp
  next
    case False
    with new(2) have g: "grows (sp_owner P) (nd_peer (sp_owner P)) row new" by simp
    then have r: "receipt_of new (nd_peer (sp_member P)) = receipt_of row (nd_peer (sp_member P))" using assms(1) unfolding grows_def pair_ok_def by metis
    have t: "taken (nd_peer (sp_member P)) new = taken (nd_peer (sp_member P)) (last V)"
      using r taken_core [OF row(4), of "nd_peer (sp_member P)"] by (simp add: taken_def)
    note n = new_version [OF assms(1) v(1,2,4,5) row(1) g disjI1 [OF refl] new(1)]
    show ?thesis unfolding shared_inv_def using n v(3) r t by (intro exI [of _ "V @ [new]"]) (simp add: history_ok_def)
  qed
qed

lemma sent_fields:
  "jfield ''action'' (sent_request P rid r) = JStr (fst r)" "jfield ''id'' (sent_request P rid r) = JStr (sp_list P)"
  "snd r = Some op \<Longrightarrow> jfield ''sequence'' (jfield ''operation'' (sent_request P rid r)) = JInt (eo_sequence op)"
proof -
  let ?j = "list_request (sp_member P) (sp_host P) rid (fst r) ((''id'', JStr (sp_list P)) # (case snd r of None \<Rightarrow> [] | Some op \<Rightarrow> [(''operation'', op_json op)]))"
  have f: "jfield k (canon ?j) = canon v" if "jget k ?j = Some v" for k v using that by (simp add: jfield_def jget_canon)
  show "jfield ''action'' (sent_request P rid r) = JStr (fst r)" unfolding sent_request_def by (subst f [of _ "JStr (fst r)"]) (simp_all add: list_request_def jget_def)
  show "jfield ''id'' (sent_request P rid r) = JStr (sp_list P)" unfolding sent_request_def by (subst f [of _ "JStr (sp_list P)"]) (simp_all add: list_request_def jget_def)
  assume "snd r = Some op"
  then have "jfield ''operation'' (sent_request P rid r) = canon (op_json op)" unfolding sent_request_def
    by (subst f [of _ "op_json op"]) (simp_all add: list_request_def jget_def)
  then show "jfield ''sequence'' (jfield ''operation'' (sent_request P rid r)) = JInt (eo_sequence op)"
    by (simp add: jfield_def jget_canon) (simp add: op_json_def jget_def)
qed

lemma served_keeps:
  assumes "pair_ok P" "shared_inv P W" "r \<in> set (sw_requests W)"
    "serve_list (sp_owner P) F (sp_guest P) (sent_request P rid r) (sw_owner W) = Inr (T, answer)"
  shows "shared_inv P (served P W r (T, answer))"
proof -
  let ?p = "nd_peer (sp_member P)"
  obtain V where v: "versions_ok ?p V" "owner_ok P V W" "history_ok P V W" "network_ok V W" "member_ok P V W"
    using assms(2) by (auto simp: shared_inv_def)
  obtain row where row: "map_of (sw_owner W) (sp_list P) = Some row" "ls_id row = sp_list P" "ls_owner row = nd_peer (sp_owner P)" "core row = core (last V)" "items_ok (ls_items row)"
    using v(2) by (auto simp: owner_ok_def)
  have lastV: "last V \<in> set V" using v(1) by (simp add: versions_ok_def)
  have guest: "fr_peer (sp_guest P) = ?p" using assms(1) by (simp add: pair_ok_def)
  then have guest_side: "fr_peer (sp_guest P) = nd_peer (sp_owner P) \<or> fr_peer (sp_guest P) = ?p" by simp
  have act: "jfield ''action'' (sent_request P rid r) \<noteq> JStr ''invitations''" "set_option (snd r) \<subseteq> set (sw_history W)" "fst r = ''edit'' \<longleftrightarrow> snd r \<noteq> None"
    using assms(3) v(4) by (auto simp: sent_fields network_ok_def)
  have snap: "list_snapshot row = list_snapshot (last V)" using row(4) by (metis core_fields(7))
  show ?thesis
  proof (cases rule: serve_list_row [OF assms(4) act(1) sent_fields(2) row(1,2), case_names same accepted edited])
    case same
    then have "network_ok V (served P W r (T, answer))" using v(4) lastV snap by (auto simp: network_ok_def served_def)
    then show ?thesis unfolding shared_inv_def using v same row
      by (intro exI [of _ V]) (auto simp: served_def owner_ok_def history_ok_def split: option.split)
  next
    case (accepted new)
    then have none: "snd r = None" using act(3) by (simp add: sent_fields)
    have t: "taken ?p new = taken ?p (last V)" using accepted(5) guest taken_core [OF row(4), of ?p] by (simp add: taken_def)
    have le: "fst (receipt_of row ?p) \<le> fst (receipt_of new ?p)" using accepted(5) guest by simp
    note n = new_version [OF assms(1) v(1,2,4,5) row(1) accepted(3) guest_side accepted(2) le]
    have "network_ok (V @ [new]) (served P W r (T, answer))" using n(3) accepted(4) by (auto simp: network_ok_def served_def)
    then show ?thesis unfolding shared_inv_def using n v(3) t none by (intro exI [of _ "V @ [new]"]) (simp add: history_ok_def served_def)
  next
    case (edited new)
    then obtain op where op: "snd r = Some op" using act(3) by (auto simp: sent_fields)
    have c: "fst (receipt_of new ?p) = fst (receipt_of row ?p) + 1" using edited(6) guest by simp
    then have le: "fst (receipt_of row ?p) \<le> fst (receipt_of new ?p)" by simp
    have z: "0 \<le> fst (receipt_of row ?p)" "taken ?p row = taken ?p (last V)"
      using v(1) lastV row(4) unfolding versions_ok_def by (metis core_fields(8)) (rule taken_core [OF row(4)])
    have t: "taken ?p new = Suc (taken ?p (last V))" using c z by (simp add: taken_def)
    have "eo_sequence op = fst (receipt_of new ?p)" using edited(5) sent_fields(3) [OF op] guest by simp
    then have "eo_sequence op = int (taken ?p (last V)) + 1" using c z(1) unfolding z(2) [symmetric] by (simp add: taken_def)
    moreover have "op \<in> set (sw_history W)" using act(2) op by simp
    ultimately have h: "taken ?p (last V) < length (sw_history W)" "op = sw_history W ! taken ?p (last V)"
      using v(3) op_numbers_mem [of "sw_history W" op "taken ?p (last V)"] by (simp_all add: history_ok_def)
    have new_rev: "ls_revision new \<noteq> ls_revision row" using edited(3) by (simp add: grows_def)
    have applied: "sw_applied (served P W r (T, answer)) = take (taken ?p new) (sw_history W)"
      using v(3) op edited(2) row(1) new_rev h by (simp add: served_def history_ok_def t take_Suc_conv_app_nth)
    note n = new_version [OF assms(1) v(1,2,4,5) row(1) edited(3) guest_side edited(2) le]
    have "network_ok (V @ [new]) (served P W r (T, answer))" using n(3) edited(4) by (auto simp: network_ok_def served_def)
    moreover have "history_ok P (V @ [new]) (served P W r (T, answer))" using applied v(3) h t by (simp add: history_ok_def served_def)
    moreover have "owner_ok P (V @ [new]) (served P W r (T, answer))" "member_ok P (V @ [new]) (served P W r (T, answer))" using n by (simp_all add: served_def)
    ultimately show ?thesis unfolding shared_inv_def using n(1) by blast
  qed
qed

lemma member_edit_keeps:
  assumes "pair_ok P" "shared_inv P W" "edit_list (sp_member P) F i op action value (sw_member W) = Inr (T, out)"
  shows "shared_inv P (W\<lparr>sw_member := T, sw_history := sw_history W @ newly_queued (map_of (sw_member W) (sp_list P)) (map_of T (sp_list P))\<rparr>)"
    (is "shared_inv P ?W")
proof -
  let ?p = "nd_peer (sp_member P)" and ?i = "sp_list P"
  obtain V where v: "versions_ok ?p V" "owner_ok P V W" "history_ok P V W" "network_ok V W" "member_ok P V W"
    using assms(2) by (auto simp: shared_inv_def)
  have owner: "owner_ok P V ?W" using v(2) by (simp add: owner_ok_def)
  show ?thesis
  proof (cases "map_of (sw_member W) ?i")
    case None
    with edit_absent [OF assms(3) None] v owner show ?thesis unfolding shared_inv_def
      by (intro exI [of _ V]) (simp add: newly_queued_def history_ok_def network_ok_def member_ok_def)
  next
    case (Some row)
    then obtain u where row: "ls_owner row = nd_peer (sp_owner P)" "ls_relationship row = fr_id (sp_host P)" "queue_ok ?p (sw_history W) row" "u \<in> set V" "ls_revision row = ls_revision u"
      "ls_status row = ls_status u" "receipt_of row ?p = receipt_of u ?p" using v(5) by (auto simp: member_ok_def)
    have foreign: "ls_owner row \<noteq> ?p" using row(1) assms(1) by (simp add: pair_ok_def)
    show ?thesis
    proof (cases rule: edit_at_member [OF assms(3) Some foreign, case_names same queued])
      case same
      with Some v owner show ?thesis unfolding shared_inv_def
        by (intro exI [of _ V]) (simp add: newly_queued_def history_ok_def network_ok_def member_ok_def)
    next
      case (queued operation stamp)
      have "u = last V \<or> ls_revision u \<le> ls_revision (last V)" using v(1) row(4)
        by (auto simp: versions_ok_def in_set_conv_nth last_conv_nth)
      then have tl: "taken ?p row \<le> taken ?p (last V)" using versions_le(1) [OF v(1) row(4), of "last V"] v(1) row(7)
        by (auto simp: taken_def versions_ok_def)
      also have "\<dots> \<le> length (sw_history W)" using v(3) by (simp add: history_ok_def)
      finally have k: "taken ?p row \<le> length (sw_history W)" .
      have "0 \<le> fst (receipt_of row ?p)" using v(1) row(4,7) by (simp add: versions_ok_def)
      then have r: "fst (receipt_of row ?p) = int (taken ?p row)" by (simp add: taken_def)
      have q: "ls_pending row = drop (taken ?p row) (sw_history W)" "ls_cancelled row = []" using row(3) queued(1) by (simp_all add: queue_ok_def)
      have seq: "eo_sequence operation = int (length (sw_history W)) + 1" using queued(2) k by (simp add: r q(1))
      have h: "sw_history ?W = sw_history W @ [operation]" using Some queued(3) by (simp add: newly_queued_def)
      have "queue_ok ?p (sw_history W @ [operation]) (row\<lparr>ls_pending := ls_pending row @ [operation], ls_local := stamp\<rparr>)"
        using queued(1) q k by (simp add: queue_ok_def taken_def receipt_of_def)
      then have "member_ok P V ?W" using queued(3) h row by (auto simp: member_ok_def receipt_of_def)
      moreover have "history_ok P V ?W" using v(3) seq h by (simp add: history_ok_def op_numbers_append)
      moreover have "network_ok V ?W" using v(4) h by (auto simp: network_ok_def)
      ultimately show ?thesis unfolding shared_inv_def using v(1) owner by blast
    qed
  qed
qed

lemma deliver_keeps:
  assumes "pair_ok P" "shared_inv P W" "a \<in> set (sw_answers W)"
    "receive_list (sp_member P) F (sp_list P) (fr_id (sp_host P)) (fr_peer (sp_host P)) (fst a) asked (sw_member W) = Inr (T, u)"
  shows "shared_inv P (W\<lparr>sw_member := T\<rparr>)"
proof -
  let ?p = "nd_peer (sp_member P)" and ?i = "sp_list P"
  obtain V where v: "versions_ok ?p V" "owner_ok P V W" "history_ok P V W" "network_ok V W" "member_ok P V W"
    using assms(2) by (auto simp: shared_inv_def)
  obtain w where w: "w \<in> set V" "fst a = canon (list_snapshot w)" using v(4) assms(3) by (auto simp: network_ok_def)
  obtain got where got: "read_snapshot (sp_member P) ?i (fr_id (sp_host P)) (fr_peer (sp_host P)) (canon (list_snapshot w)) = Inr got"
    and take: "take_snapshot (sp_member P) ?i (fr_id (sp_host P)) (fr_peer (sp_host P)) got asked (sw_member W) = Inr (T, u)"
    using assms(4) unfolding receive_list_def bnd_Inr w(2) by (blast dest: list_mutate_Inr)
  note g = read_snapshot_canon [OF got]
  have tw: "taken ?p got = taken ?p w" using g(4) [of ?p] by (simp add: taken_def)
  have host: "fr_peer (sp_host P) = nd_peer (sp_owner P)" using assms(1) by (simp add: pair_ok_def)
  have h: "op_numbers (sw_history W)" using v(3) by (simp add: history_ok_def)
  have "0 \<le> fst (receipt_of got ?p)" using v(1) w(1) g(4) [of ?p] by (simp add: versions_ok_def)
  then have r: "fst (receipt_of got ?p) = int (taken ?p got)" by (simp add: taken_def)
  have "member_ok P V (W\<lparr>sw_member := T\<rparr>)"
  proof (cases rule: take_snapshot_cases [OF take, case_names stale taken])
    case (stale p)
    then show ?thesis using v(5) by (simp add: member_ok_def)
  next
    case (taken queue cancelled loc)
    let ?new = "got\<lparr>ls_pending := (if ls_status got = ''closed'' then [] else queue),
         ls_cancelled := (if ls_status got = ''closed'' then cancelled @ queue else cancelled), ls_local := loc\<rparr>"
    have "queue_ok ?p (sw_history W) ?new"
    proof (cases "map_of (sw_member W) ?i")
      case None
      then have "sw_history W = []" using v(5) by (simp add: member_ok_def)
      with None taken show ?thesis by (simp add: queue_ok_def)
    next
      case (Some row)
      then obtain u where row: "queue_ok ?p (sw_history W) row" "u \<in> set V" "ls_revision row = ls_revision u"
        "ls_status row = ls_status u" "receipt_of row ?p = receipt_of u ?p" using v(5) by (auto simp: member_ok_def)
      have le: "ls_revision u \<le> ls_revision w" using taken(4) Some row(3) g(1) by simp
      have k: "taken ?p row \<le> taken ?p got" using versions_le(1) [OF v(1) row(2) w(1) le] row(5) tw by (simp add: taken_def)
      show ?thesis
      proof (cases "ls_status row = ''closed''")
        case True
        then have "u = w" using versions_le(2) [OF v(1) row(2) w(1) le] row(4) by simp
        then have "ls_status got = ''closed''" "taken ?p got = taken ?p row" using True row(4,5) g(2) tw by (simp_all add: taken_def)
        with True row(1) taken(2,3) Some show ?thesis by (simp add: queue_ok_def taken_def receipt_of_def)
      next
        case False
        then have "queue = drop (taken ?p got) (sw_history W)" using taken(3) Some row(1) op_numbers_after [OF h k] by (simp add: queue_ok_def r)
        with False row(1) taken(2) Some show ?thesis by (simp add: queue_ok_def taken_def receipt_of_def)
      qed
    qed
    moreover have "receipt_of ?new ?p = receipt_of w ?p" using g(4) [of ?p] by (simp add: receipt_of_def)
    ultimately show ?thesis using taken(1) g host w(1) by (auto simp: member_ok_def)
  qed
  then show ?thesis unfolding shared_inv_def using v by (intro exI [of _ V]) simp
qed

subsection \<open>The machine\<close>

lemma note_failure_keeps:
  assumes "shared_inv P W" "note_failure (sp_list P) (sw_member W) = Inr (T, u)"
  shows "shared_inv P (W\<lparr>sw_member := T\<rparr>)"
proof -
  obtain V where v: "versions_ok (nd_peer (sp_member P)) V" "owner_ok P V W" "history_ok P V W" "network_ok V W" "member_ok P V W"
    using assms(1) by (auto simp: shared_inv_def)
  have "member_ok P V (W\<lparr>sw_member := T\<rparr>)"
  proof (cases "map_of (sw_member W) (sp_list P)")
    case None
    with assms(2) v(5) show ?thesis by (simp add: note_failure_def member_ok_def)
  next
    case (Some row)
    then have "map_of T (sp_list P) = Some (row\<lparr>ls_error := ''Sync unconfirmed. Reconnect or review this friendship.''\<rparr>)"
      using assms(2) by (auto simp: note_failure_def)
    with Some v(5) show ?thesis by (simp add: member_ok_def queue_ok_def taken_def receipt_of_def)
  qed
  then show ?thesis unfolding shared_inv_def using v by (intro exI [of _ V]) simp
qed

lemma ask_keeps:
  assumes "shared_inv P W" "fst r \<noteq> ''invitations''" "fst r = ''edit'' \<longleftrightarrow> snd r \<noteq> None" "set_option (snd r) \<subseteq> set (sw_history W)"
  shows "shared_inv P (W\<lparr>sw_requests := sw_requests W @ [r]\<rparr>)"
proof -
  obtain V where v: "versions_ok (nd_peer (sp_member P)) V" "owner_ok P V W" "history_ok P V W" "network_ok V W" "member_ok P V W"
    using assms(1) by (auto simp: shared_inv_def)
  then have "network_ok V (W\<lparr>sw_requests := sw_requests W @ [r]\<rparr>)" using assms(2-4) by (auto simp: network_ok_def)
  then show ?thesis unfolding shared_inv_def using v by (intro exI [of _ V]) simp
qed

lemma shared_step_inv:
  assumes "pair_ok P \<and> shared_inv P W" "shared_step P W e = Inr W'"
  shows "pair_ok P \<and> shared_inv P W'"
proof -
  have inv: "pair_ok P" "shared_inv P W" using assms(1) by simp_all
  have "shared_inv P W'"
  proof (cases e)
    case (Owner_Edit F i op action v)
    with assms(2) show ?thesis by (auto simp: guard_simps intro: owner_edit_keeps [OF inv])
  next
    case (Member_Edit F i op action v)
    with assms(2) show ?thesis by (auto simp: guard_simps intro: member_edit_keeps [OF inv])
  next
    case Ask_Edit
    with assms(2) obtain row where row: "map_of (sw_member W) (sp_list P) = Some row"
      "(case ls_pending row of [] \<Rightarrow> Inr W | op # _ \<Rightarrow> Inr (W\<lparr>sw_requests := sw_requests W @ [(''edit'', Some op)]\<rparr>)) = (Inr W' :: py_error + shared_world)"
      by (auto simp: guard_simps)
    show ?thesis
    proof (cases "ls_pending row")
      case (Cons op q)
      have "queue_ok (nd_peer (sp_member P)) (sw_history W) row" using inv(2) row(1) by (auto simp: shared_inv_def member_ok_def)
      then have "set (ls_pending row) \<subseteq> set (sw_history W)" by (auto simp: queue_ok_def dest: in_set_dropD split: if_splits)
      then show ?thesis using row(2) Cons by (auto intro!: ask_keeps [OF inv(2)])
    qed (use row(2) inv in auto)
  next
    case (Serve F rid k)
    show ?thesis
    proof (cases "k < length (sw_requests W)")
      case True
      then have m: "sw_requests W ! k \<in> set (sw_requests W)" by simp
      from assms(2) Serve True obtain out where "list_mutate (sp_owner P) (serve_list (sp_owner P) F (sp_guest P) (sent_request P rid (sw_requests W ! k))) (sw_owner W) = Inr out"
        "W' = served P W (sw_requests W ! k) out" by (auto simp: guard_simps Let_def)
      then show ?thesis using served_keeps [OF inv m] by (cases out) (auto dest: list_mutate_Inr)
    qed (use assms(2) Serve inv in simp)
  next
    case (Deliver F k)
    show ?thesis
    proof (cases "k < length (sw_answers W)")
      case True
      then have m: "sw_answers W ! k \<in> set (sw_answers W)" by simp
      from assms(2) Deliver True show ?thesis using deliver_keeps [OF inv m] by (auto simp: guard_simps Let_def split: prod.splits)
    qed (use assms(2) Deliver inv in simp)
  next
    case Note_Failure
    with assms(2) show ?thesis using note_failure_keeps [OF inv(2)] by (auto simp: guard_simps dest!: list_mutate_Inr)
  next
    case Ask_Accept
    with assms(2) show ?thesis by (auto intro!: ask_keeps [OF inv(2)])
  next
    case Ask_Snapshot
    with assms(2) show ?thesis by (auto intro!: ask_keeps [OF inv(2)])
  qed
  with inv show ?thesis by simp
qed

interpretation shared: guarded_machine "shared_step P" "\<lambda>W. pair_ok P \<and> shared_inv P W" for P
  by unfold_locales (rule shared_step_inv)

text \<open>The owner has just created the list for the member, who does not have it.\<close>

definition list_started :: "shared_pair \<Rightarrow> lists \<Rightarrow> lists \<Rightarrow> bool" where
  "list_started P S M \<longleftrightarrow> pair_ok P \<and> map_of M (sp_list P) = None
     \<and> (\<exists>F rid title S0 row. create_list (sp_owner P) F rid title (JStr (sp_list P)) S0 = Inr (S, row) \<and> map_of S0 (sp_list P) = None
        \<and> ls_friend row = nd_peer (sp_member P) \<and> ls_relationship row = fr_id (sp_guest P))"

lemma shared_start_inv:
  assumes "create_list (sp_owner P) F rid title (JStr (sp_list P)) S0 = Inr (S, row)" "map_of S0 (sp_list P) = None" "map_of M (sp_list P) = None"
    "ls_friend row = nd_peer (sp_member P)" "ls_relationship row = fr_id (sp_guest P)"
  shows "shared_inv P (shared_start S M)"
proof -
  let ?i = "sp_list P"
  let ?new = "\<lambda>peer t. \<lparr>ls_id = ?i, ls_owner = nd_peer (sp_owner P), ls_friend = peer, ls_relationship = py_str rid, ls_title = t, ls_status = ''invited'',
           ls_revision = 1, ls_items = [], ls_receipts = [], ls_pending = [], ls_cancelled = [], ls_error = [], ls_local = [], ls_last = None\<rparr>"
  obtain friend i t where i: "list_identity (JStr ?i) = Inr i" and t: "list_text title 300 = Inr t"
    and m: "list_mutate (sp_owner P) (create_row (sp_owner P) friend (py_str rid) i t) S0 = Inr (S, row)"
    using assms(1) unfolding create_list_def bnd_Inr by blast
  have "i = ?i" using i by (simp add: list_identity_Inr)
  with list_mutate_Inr [OF m] assms(2) have "S = dict_put ?i (?new (fr_peer friend) t) S0" "row = ?new (fr_peer friend) t" by (auto simp: create_row_def Let_def)
  then show ?thesis unfolding shared_inv_def using assms(3-5) list_text_twice [OF t]
    by (intro exI [of _ "[row]"]) (simp add: shared_start_def versions_ok_def shared_parts op_numbers_def taken_def receipt_of_def items_ok_def
      list_ok_def items_fit_def receipts_fit_def)
qed

lemma started_run: "list_started P S M \<Longrightarrow> pair_ok P \<and> shared_inv P (shared.run P (shared_start S M) es)"
  by (rule shared.run_inv) (auto simp: list_started_def intro: shared_start_inv)

subsection \<open>Items along a run\<close>

fun editors :: "shared_pair \<Rightarrow> shared_event \<Rightarrow> string set" where
  "editors P (Owner_Edit F i op action value) = {nd_peer (sp_owner P)}"
| "editors P (Serve F rid k) = {nd_peer (sp_member P)}"
| "editors P _ = {}"

text \<open>What may become of an item when only the peers of \<open>Q\<close> edit: it stays, with the marks of the others, or it is blanked for good.\<close>

definition item_fate :: "string set \<Rightarrow> json \<Rightarrow> json \<Rightarrow> bool" where
  "item_fate Q item item' \<longleftrightarrow> (\<exists>i title url author marks removed. item = item_json i title url author marks removed
     \<and> (item' = item_json i [] [] author [] True
        \<or> \<not> removed \<and> (\<exists>marks'. item' = item_json i title url author marks' False \<and> (\<forall>p. p \<notin> Q \<longrightarrow> map_of marks' p = map_of marks p))))"

lemma item_edit_fate:
  assumes "item_edit q item item'" "live_item i item \<or> gone_item i item" "q \<in> Q"
  shows "item_fate Q item item'"
  using assms(1)
proof cases
  case keep
  from assms(2) show ?thesis
  proof
    assume "live_item i item"
    then show ?thesis using keep by cases (auto simp: item_fate_def)
  next
    assume "gone_item i item"
    then show ?thesis using keep by cases (auto simp: item_fate_def)
  qed
next
  case (mark i title url author marks flag)
  then show ?thesis using assms(3) by (auto simp: item_fate_def)
next
  case (remove i title url author marks removed)
  then show ?thesis by (auto simp: item_fate_def)
qed

lemma item_fate_refl: "live_item i item \<or> gone_item i item \<Longrightarrow> item_fate Q item item"
  by (auto simp: item_fate_def elim!: live_item.cases gone_item.cases)

lemma item_fate_trans: "item_fate Q a b \<Longrightarrow> item_fate Q' b c \<Longrightarrow> item_fate (Q \<union> Q') a c"
  unfolding item_fate_def by (elim exE conjE disjE) auto

lemma served_row:
  assumes "serve_list (sp_owner P) F (sp_guest P) (sent_request P rid r) S = Inr (T, answer)" "fst r \<noteq> ''invitations''"
    "map_of S (sp_list P) = Some row" "ls_id row = sp_list P"
  shows "\<exists>row'. map_of T (sp_list P) = Some row' \<and> (row' = row \<or> grows (sp_owner P) (fr_peer (sp_guest P)) row row')"
proof -
  have "jfield ''action'' (sent_request P rid r) \<noteq> JStr ''invitations''" using assms(2) by (simp add: sent_fields)
  from serve_list_row [OF assms(1) this sent_fields(2) assms(3,4)] show ?thesis by blast
qed

lemma shared_step_items:
  assumes "pair_ok P" "shared_inv P W" "shared_step P W e = Inr W'" "map_of (sw_owner W) (sp_list P) = Some row"
  shows "\<exists>row'. map_of (sw_owner W') (sp_list P) = Some row' \<and> (ls_items row' = ls_items row \<or> (\<exists>q \<in> editors P e. items_edit q (ls_items row) (ls_items row')))"
proof -
  have o': "ls_id row = sp_list P" "ls_owner row = nd_peer (sp_owner P)" using assms(2,4) by (auto simp: shared_inv_def owner_ok_def)
  have guest: "fr_peer (sp_guest P) = nd_peer (sp_member P)" using assms(1) by (simp add: pair_ok_def)
  show ?thesis
  proof (cases e)
    case (Owner_Edit F i op action v)
    with assms(3) obtain T out where t: "edit_list (sp_owner P) F i op action v (sw_owner W) = Inr (T, out)" "W' = W\<lparr>sw_owner := T\<rparr>" by (auto simp: bnd_Inr)
    from edit_at_owner [OF t(1) assms(4) o'(2)] t(2) Owner_Edit show ?thesis by (auto simp: grows_def) (metis core_fields(4))
  next
    case (Serve F rid k)
    show ?thesis
    proof (cases "k < length (sw_requests W)")
      case True
      with assms(3) Serve obtain T answer where t: "serve_list (sp_owner P) F (sp_guest P) (sent_request P rid (sw_requests W ! k)) (sw_owner W) = Inr (T, answer)"
        "W' = served P W (sw_requests W ! k) (T, answer)" by (auto simp: bnd_Inr Let_def dest!: list_mutate_Inr)
      have "fst (sw_requests W ! k) \<noteq> ''invitations''" using assms(2) True by (auto simp: shared_inv_def network_ok_def)
      from served_row [OF t(1) this assms(4) o'(1)] t(2) Serve guest show ?thesis by (auto simp: grows_def served_def)
    qed (use assms(3,4) Serve in auto)
  next
    case Ask_Edit
    with assms(3) obtain x where "map_of (sw_member W) (sp_list P) = Some x"
      "(case ls_pending x of [] \<Rightarrow> Inr W | op # _ \<Rightarrow> Inr (W\<lparr>sw_requests := sw_requests W @ [(''edit'', Some op)]\<rparr>)) = (Inr W' :: py_error + shared_world)"
      by (auto simp: guard_simps)
    with assms(4) show ?thesis by (cases "ls_pending x") auto
  next
    case (Deliver F k)
    with assms(3,4) show ?thesis by (auto simp: guard_simps Let_def split: if_splits prod.splits)
  qed (use assms(3,4) in \<open>auto simp: guard_simps\<close>)
qed

lemma shared_run_items:
  assumes "pair_ok P" "shared_inv P W" "map_of (sw_owner W) (sp_list P) = Some row" "map_of (ls_items row) i = Some item"
  shows "\<exists>row' item'. map_of (sw_owner (shared.run P W es)) (sp_list P) = Some row' \<and> map_of (ls_items row') i = Some item'
    \<and> item_fate (\<Union>e \<in> set es. editors P e) item item'"
  using assms(2-)
proof (induction es arbitrary: W row item)
  case Nil
  then have "live_item i item \<or> gone_item i item" by (auto simp: shared_inv_def owner_ok_def items_ok_def)
  with Nil show ?case by (auto intro: item_fate_refl)
next
  case (Cons e es)
  have ok: "items_ok (ls_items row)" "live_item i item \<or> gone_item i item" using Cons.prems by (auto simp: shared_inv_def owner_ok_def items_ok_def)
  let ?V = "shared.attempt P W e"
  have inv: "shared_inv P ?V" using shared.attempt_inv [of P W e] assms(1) Cons.prems(1) by simp
  obtain row1 item1 where r: "map_of (sw_owner ?V) (sp_list P) = Some row1" "map_of (ls_items row1) i = Some item1" "item_fate (editors P e) item item1"
  proof (cases "shared_step P W e")
    case (Inl e')
    then show ?thesis using that [of row item] Cons.prems item_fate_refl [OF ok(2)] by (simp add: shared.attempt_def)
  next
    case (Inr W')
    obtain row1 where row1: "map_of (sw_owner W') (sp_list P) = Some row1"
      "ls_items row1 = ls_items row \<or> (\<exists>q \<in> editors P e. items_edit q (ls_items row) (ls_items row1))"
      using shared_step_items [OF assms(1) Cons.prems(1) Inr Cons.prems(2)] by blast
    from row1(2) show ?thesis
    proof
      assume "ls_items row1 = ls_items row"
      then show ?thesis using that [of row1 item] Inr row1(1) Cons.prems(3) item_fate_refl [OF ok(2)] by (simp add: shared.attempt_def)
    next
      assume "\<exists>q \<in> editors P e. items_edit q (ls_items row) (ls_items row1)"
      then obtain q item1 where "q \<in> editors P e" "map_of (ls_items row1) i = Some item1" "item_edit q item item1"
        using ok(1) Cons.prems(3) unfolding items_edit_def by blast
      then show ?thesis using that [of row1 item1] Inr row1(1) item_edit_fate [OF _ ok(2)] by (simp add: shared.attempt_def)
    qed
  qed
  from Cons.IH [OF inv r(1,2)] r(3) show ?case by (auto intro: item_fate_trans)
qed

text \<open>An add the owner cannot take: the list is full, or has had that item.\<close>

definition refused_add :: "edit_op \<Rightarrow> shared_list \<Rightarrow> bool" where
  "refused_add op row \<longleftrightarrow> eo_action op = ''add'' \<and> (256 \<le> length (ls_items row)
     \<or> (case jfield ''id'' (eo_value op) of JStr i \<Rightarrow> map_of (ls_items row) i \<noteq> None | _ \<Rightarrow> False))"

end
