(* ===== verification/Shared_Demo.thy ===== *)
theory Shared_Demo
  imports Shared_Machine Sync_Demo
begin

section \<open>A shared list, for the witnesses\<close>

text \<open>An owner, a member, and a list on which both add the same link.\<close>

primrec shared_run :: "shared_pair \<Rightarrow> shared_world \<Rightarrow> shared_event list \<Rightarrow> shared_world" where
  "shared_run P W [] = W"
| "shared_run P W (e # es) = shared_run P (case shared_step P W e of Inl _ \<Rightarrow> W | Inr W' \<Rightarrow> W') es"

lemma shared_run_eq: "shared_run P W es = shared.run P W es"
  by (induction es arbitrary: W) (simp_all add: shared.attempt_def)

definition demo_hex :: "char \<Rightarrow> string" where "demo_hex c = replicate 32 c"

definition demo_node :: "string \<Rightarrow> list_node" where
  "demo_node peer = \<lparr>nd_lib = demo_sync, nd_box = plain_box,
     nd_key = [], nd_peer = peer, nd_fits = \<lambda>_. True\<rparr>"

definition demo_friend :: "string \<Rightarrow> friend" where
  "demo_friend peer = \<lparr>fr_id = demo_hex (CHR ''b''), fr_peer = peer, fr_status = ''active'', fr_name = peer, fr_pub = []\<rparr>"

definition demo_friends :: "string \<Rightarrow> friends" where
  "demo_friends peer r = (if r = demo_hex (CHR ''b'') then Some (demo_friend peer) else None)"

definition demo_pair :: shared_pair where
  "demo_pair = \<lparr>sp_owner = demo_node ''A'', sp_member = demo_node ''B'', sp_guest = demo_friend ''B'', sp_host = demo_friend ''A'', sp_list = demo_hex (CHR ''c'')\<rparr>"

definition demo_row :: shared_list where
  "demo_row = \<lparr>ls_id = demo_hex (CHR ''c''), ls_owner = ''A'', ls_friend = ''B'', ls_relationship = demo_hex (CHR ''b''), ls_title = ''L'', ls_status = ''invited'',
     ls_revision = 1, ls_items = [], ls_receipts = [], ls_pending = [], ls_cancelled = [], ls_error = [], ls_local = [], ls_last = None\<rparr>"

lemma demo_create:
  "create_list (sp_owner demo_pair) (demo_friends ''B'') (JStr (demo_hex (CHR ''b''))) (JStr ''L'') (JStr (sp_list demo_pair)) [] = Inr ([(sp_list demo_pair, demo_row)], demo_row)"
  by code_simp

definition demo_start :: shared_world where
  "demo_start = shared_start [(sp_list demo_pair, demo_row)] []"

definition demo_add :: "char \<Rightarrow> json" where
  "demo_add c = JObj [(''id'', JStr (demo_hex c)), (''title'', JStr ''T''), (''url'', JStr (''http:'' @ [CHR 0x2F, CHR 0x2F] @ ''x''))]"

definition demo_events :: "shared_event list" where
  "demo_events = [Ask_Accept, Serve (demo_friends ''B'') (demo_hex (CHR ''1'')) 0, Deliver (demo_friends ''A'') 0,
     Member_Edit (demo_friends ''A'') (JStr (demo_hex (CHR ''c''))) (JStr (demo_hex (CHR ''d''))) (JStr ''add'') (demo_add (CHR ''e'')),
     Member_Edit (demo_friends ''A'') (JStr (demo_hex (CHR ''c''))) (JStr (demo_hex (CHR ''e''))) (JStr ''remove'') (JObj [(''id'', JStr (demo_hex (CHR ''e'')))]),
     Ask_Edit, Serve (demo_friends ''B'') (demo_hex (CHR ''1'')) 1, Serve (demo_friends ''B'') (demo_hex (CHR ''1'')) 1]"

lemma demo_pair_ok: "pair_ok demo_pair"
  by (simp add: pair_ok_def demo_pair_def demo_node_def demo_friend_def hex_law_def demo_sync_def hex_text_def list_all_iff is_lower_hex_def)

lemma demo_started: "list_started demo_pair [(sp_list demo_pair, demo_row)] []"
  unfolding list_started_def using demo_pair_ok demo_create
  by (intro conjI exI [of _ "demo_friends ''B''"] exI [of _ "JStr (demo_hex (CHR ''b''))"] exI [of _ "JStr ''L''"] exI [of _ "[]"] exI [of _ demo_row])
    (simp_all add: demo_row_def demo_pair_def demo_node_def demo_friend_def)

lemma demo_ran:
  "let W = shared_run demo_pair demo_start demo_events in map eo_action (sw_applied W) = [''add'']
     \<and> map_option (\<lambda>row. map_of (ls_items row) (demo_hex (CHR ''e'')) \<noteq> None) (map_of (sw_owner W) (sp_list demo_pair)) = Some True"
  by code_simp

lemmas demo_applied = conjunct1 [OF demo_ran [unfolded Let_def]]
lemmas demo_items = conjunct2 [OF demo_ran [unfolded Let_def]]

definition demo_removal :: "shared_event list" where
  "demo_removal = [Deliver (demo_friends ''A'') 1, Ask_Edit, Serve (demo_friends ''B'') (demo_hex (CHR ''1'')) 2]"

text \<open>Both add the same item, the owner first.\<close>

definition demo_clash :: "shared_event list" where
  "demo_clash = take 4 demo_events @ [Owner_Edit (demo_friends ''B'') (JStr (demo_hex (CHR ''c''))) (JStr (demo_hex (CHR ''f''))) (JStr ''add'') (demo_add (CHR ''e''))]"

definition demo_blocked :: shared_world where
  "demo_blocked = shared_run demo_pair (shared_start [(sp_list demo_pair, demo_row)] []) demo_clash"

lemma demo_refused:
  "let W = demo_blocked in case map_of (sw_owner W) (sp_list demo_pair) of None \<Rightarrow> False
     | Some row \<Rightarrow> length (sw_applied W) < length (sw_history W) \<and> refused_add (sw_history W ! length (sw_applied W)) row"
  by code_simp

text \<open>Two edits of the member are waiting.\<close>

definition demo_waiting :: shared_world where
  "demo_waiting = shared_run demo_pair (shared_start [(sp_list demo_pair, demo_row)] []) (take 5 demo_events)"

definition demo_op :: edit_op where
  "demo_op = \<lparr>eo_id = demo_hex (CHR ''d''), eo_sequence = 1, eo_action = ''add'', eo_value = demo_add (CHR ''e'')\<rparr>"

lemma demo_waits:
  "let W = demo_waiting in (length (sw_member W) \<le> 32 \<and> (case map_of (sw_member W) (sp_list demo_pair) of None \<Rightarrow> False
     | Some row \<Rightarrow> (case ls_pending row of [] \<Rightarrow> False | op # rest \<Rightarrow> op = demo_op \<and> map eo_action rest = [''remove''])))
   \<and> (case list_mutate (sp_owner demo_pair) (serve_list (sp_owner demo_pair) (demo_friends ''B'') (sp_guest demo_pair)
      (sent_request demo_pair (demo_hex (CHR ''1'')) (''edit'', Some demo_op))) (sw_owner W) of Inl _ \<Rightarrow> False | Inr _ \<Rightarrow> True)"
  by code_simp

lemmas demo_pending = conjunct1 [OF demo_waits [unfolded Let_def]]
lemmas demo_served = conjunct2 [OF demo_waits [unfolded Let_def]]

lemma demo_active: "case active_friend (demo_friends ''A'') (JStr (fr_id (sp_host demo_pair))) (Some (fr_peer (sp_host demo_pair))) of Inl _ \<Rightarrow> False | Inr _ \<Rightarrow> True"
  by code_simp

end
