(* ===== verification/Shared_Guarantees.thy ===== *)
theory Shared_Guarantees
  imports Shared_Demo
begin

section \<open>What shared lists guarantee\<close>

text \<open>
  The member accepts what the owner serves and confirms what it names; an add that the owner refuses for good blocks what follows it; and the
  properties of the runs.
\<close>

subsection \<open>The member accepts what the owner serves\<close>

lemma receipt_bound:
  assumes "receipts_fit peers (ls_receipts row)"
  shows "fst (receipt_of row p) \<le> 10 ^ 9"
  using assms by (auto simp: receipt_of_def receipts_fit_def dest!: map_of_SomeD split: option.split)

lemma check_item_fits:
  assumes "item_fits A {owner, nd_peer B} i item" "nd_lib B = nd_lib A"
  shows "check_item B owner (i, canon item) = Inr ()"
proof -
  obtain title url author marks removed where e: "item = item_json i title url author marks removed" "hex_text 32 i" "author \<in> {owner, nd_peer B}"
    "fst ` set marks \<subseteq> {owner, nd_peer B}" "list_all (\<lambda>m. is_bool (snd m)) marks"
    "\<not> removed \<longrightarrow> list_text (JStr title) 500 = Inr title \<and> list_text (JStr url) 2048 = Inr url \<and> (\<forall>e. public_link A url e = Inr ())"
    using assms(1) unfolding item_fits_def by blast
  have f: "jfield k (canon item) = canon v" if "jget k item = Some v" for k v using that by (simp add: jfield_def jget_canon)
  have fields: "jfield ''id'' (canon item) = JStr i" "jfield ''added_by'' (canon item) = JStr author" "jfield ''removed'' (canon item) = JBool removed"
    "jfield ''title'' (canon item) = JStr title" "jfield ''url'' (canon item) = JStr url" "jfield ''read_by'' (canon item) = canon (JObj marks)"
    by (subst f, simp add: e(1) item_json_def jget_def, simp)+
  have b: "is_bool j \<Longrightarrow> is_bool (canon j)" for j by (cases j) (simp_all add: is_bool_def)
  have marks: "is_obj (canon (JObj marks))" "set (jkeys (canon (JObj marks))) \<subseteq> {owner, nd_peer B}" "list_all is_bool (jvals (canon (JObj marks)))"
    using e(4,5) b by (auto simp: is_obj_def jkeys_def jvals_def list_all_iff)
  have links: "public_link B url err = Inr ()" if "\<not> removed" for err
    using e(6) that assms(2) by (simp add: public_link_def split_link_def)
  have o': "is_obj (canon item)" by (simp add: e(1) item_json_def is_obj_def)
  show ?thesis using e(2,3,6) marks links o'
    by (auto simp: check_item_def fields list_identity_def in_strings_def is_bool_def Let_def)
qed

lemma read_receipts_fit:
  assumes "\<forall>e \<in> set d. read_receipt N owner e \<noteq> Inl bad_response \<and> (\<exists>r. read_receipt N owner e = Inr r)"
  shows "\<exists>rs. read_receipts N owner d = Inr rs"
  using assms by (induction d) (auto simp: bnd_Inr)

lemma read_snapshot_ok:
  assumes "list_ok A (nd_peer B) row" "nd_lib B = nd_lib A" "ls_friend row = nd_peer B" "ls_status row \<noteq> ''invited''"
  obtains got where "read_snapshot B (ls_id row) (ls_relationship row) (ls_owner row) (canon (list_snapshot row)) = Inr got"
proof -
  let ?j = "canon (list_snapshot row)" and ?B = "{ls_owner row, nd_peer B}"
  have f: "jfield k ?j = canon v" if "jget k (list_snapshot row) = Some v" for k v using that by (simp add: jfield_def jget_canon)
  have fields: "jfield ''id'' ?j = JStr (ls_id row)" "jfield ''relationship_id'' ?j = JStr (ls_relationship row)" "jfield ''owner'' ?j = JStr (ls_owner row)"
    "jfield ''friend'' ?j = JStr (ls_friend row)" "jfield ''title'' ?j = JStr (ls_title row)"
    "jfield ''revision'' ?j = JInt (ls_revision row)" "jfield ''status'' ?j = JStr (ls_status row)" "jfield ''items'' ?j = canon (JObj (ls_items row))"
    "jfield ''receipts'' ?j = canon (JObj (map (map_prod id receipt_dict) (ls_receipts row)))"
    by (subst f, simp add: list_snapshot_def jget_def, simp)+
  have ok: "list_text (JStr (ls_title row)) 300 = Inr (ls_title row)" "items_fit A ?B (ls_items row)" "receipts_fit ?B (ls_receipts row)"
    "1 \<le> ls_revision row" "ls_revision row \<le> 2 + fst (receipt_of row (ls_owner row)) + fst (receipt_of row (nd_peer B))"
    "ls_status row = ''active'' \<or> ls_status row = ''closed''"
    using assms(1,4) by (auto simp: list_ok_def)
  have rev: "ls_revision row \<le> 10 ^ 12" using ok(5) receipt_bound [OF ok(3), of "ls_owner row"] receipt_bound [OF ok(3), of "nd_peer B"] by simp
  have items: "check_all (check_item B (ls_owner row)) (obj_items (canon (JObj (ls_items row)))) = Inr ()"
    using ok(2) check_item_fits [OF _ assms(2)] by (auto simp: check_all_Inr obj_items_def items_fit_def)
  have "\<exists>rs. read_receipts B (ls_owner row) (obj_items (canon (JObj (map (map_prod id receipt_dict) (ls_receipts row))))) = Inr rs"
  proof (rule read_receipts_fit, rule ballI)
    fix e assume "e \<in> set (obj_items (canon (JObj (map (map_prod id receipt_dict) (ls_receipts row)))))"
    then obtain p n d where e: "e = (p, canon (receipt_dict (n, d)))" "(p, (n, d)) \<in> set (ls_receipts row)" by (auto simp: obj_items_def)
    have "read_receipt B (ls_owner row) e = Inr (p, (n, d))"
      using ok(3) e by (auto simp: receipts_fit_def read_receipt_def jfield_def jget_def is_obj_def receipt_dict_def guard_simps)
    then show "read_receipt B (ls_owner row) e \<noteq> Inl bad_response \<and> (\<exists>r. read_receipt B (ls_owner row) e = Inr r)" by simp
  qed
  then obtain rs where rs: "read_receipts B (ls_owner row) (obj_items (canon (JObj (map (map_prod id receipt_dict) (ls_receipts row))))) = Inr rs" by blast
  have o': "is_obj ?j" "is_obj (canon (JObj (ls_items row)))" "is_obj (canon (JObj (map (map_prod id receipt_dict) (ls_receipts row))))"
    "length (obj_items (canon (JObj (ls_items row)))) \<le> 256"
    using ok(2) by (simp_all add: is_obj_def list_snapshot_def obj_items_def items_fit_def)
  show thesis
    by (rule that) (use ok(1,4,6) rev items rs o' assms(3) in \<open>auto simp: read_snapshot_def fields in_strings_def simp del: canon.simps\<close>)
qed

subsection \<open>One turn of the worker\<close>

lemma stamp_canon: "list_digest N (canon j) = list_digest N j"
  by (simp add: list_digest_def canonical_json_def canon_idem)

lemma applied_receipt:
  assumes "apply_edit N F (JStr i) peer operation S = Inr (T, out)" "hex_law N" "map_of S i = Some row" "list_ok N g row" "peer = g \<or> peer = ls_owner row"
  shows "list_ok N g out" "ls_status out \<noteq> ''invited''" "same_list row out" "ls_revision row \<le> ls_revision out"
    "\<exists>n. jfield ''sequence'' operation = JInt n \<and> map_of (ls_receipts out) peer = Some (n, list_digest N operation)"
proof -
  have "list_ok N g out \<and> ls_status out \<noteq> ''invited'' \<and> same_list row out \<and> ls_revision row \<le> ls_revision out
    \<and> (\<exists>n. jfield ''sequence'' operation = JInt n \<and> map_of (ls_receipts out) peer = Some (n, list_digest N operation))"
    using assms(1)
  proof (cases rule: apply_edit_cases)
    case (again row' n)
    then have r: "out = row" "receipt_of row peer = (n, list_digest N operation)" using assms(3) by simp_all
    then have m: "map_of (ls_receipts row) peer = Some (n, list_digest N operation)" using again(5) by (auto simp: receipt_of_def split: option.splits)
    then have "ls_receipts row \<noteq> []" by auto
    then have "ls_status row \<noteq> ''invited''" using assms(4) by (auto simp: list_ok_def)
    with r m again(4) assms(4) show ?thesis by simp
  next
    case (new row' n mid)
    then have r: "row' = row" using assms(3) by simp
    note g = edited_list_ok [OF new(7,5,4,9) assms(2) new(6,8), of g]
    have "ls_status mid \<noteq> ''invited''" by (cases rule: change_items_cases [OF new(7)]) (simp_all add: new(6))
    moreover have "same_list row mid" using change_items_keeps(1) [OF new(7)] r by simp
    ultimately show ?thesis using g r assms(4,5) new(3,8) by (auto simp: same_list_def)
  qed
  then show "list_ok N g out" "ls_status out \<noteq> ''invited''" "same_list row out" "ls_revision row \<le> ls_revision out"
    "\<exists>n. jfield ''sequence'' operation = JInt n \<and> map_of (ls_receipts out) peer = Some (n, list_digest N operation)" by blast+
qed

lemma confirm_head:
  assumes "eo_sequence op = n" "\<forall>x \<in> set rest. n < eo_sequence x" "d = list_digest N (op_json op)"
  shows "confirm_queue N (Some (n, d)) (op # rest) = Inr rest"
proof -
  have "filter (\<lambda>x. eo_sequence x \<le> n) rest = []" "filter (\<lambda>x. n < eo_sequence x) rest = rest" using assms(2) by (auto simp: filter_empty_conv)
  then show ?thesis using assms(1,3) by (simp add: confirm_queue_def)
qed

lemma take_confirmed:
  assumes "map_of M i = Some row" "ls_owner row = owner" "ls_relationship row = rid" "ls_revision row \<le> ls_revision got" "ls_pending row = op # rest"
    "map_of (ls_receipts got) (nd_peer N) = Some (eo_sequence op, list_digest N (op_json op))" "\<forall>x \<in> set rest. eo_sequence op < eo_sequence x"
  shows "take_snapshot N i rid owner got (Some op) M = Inr (dict_put i (got\<lparr>ls_pending := (if ls_status got = ''closed'' then [] else rest),
             ls_cancelled := (if ls_status got = ''closed'' then ls_cancelled row @ rest else ls_cancelled row), ls_local := ls_local row\<rparr>) M, ())"
  using assms by (simp add: take_snapshot_def Let_def confirm_head)

lemma pending_after:
  assumes "op_numbers h" "drop k h = op # rest"
  shows "\<forall>x \<in> set rest. eo_sequence op < eo_sequence x"
proof -
  have k: "k < length h" using assms(2) by (metis drop_eq_Nil2 list.discI not_le)
  then have "op = h ! k" "rest = drop (Suc k) h" using assms(2) by (metis Cons_nth_drop_Suc list.inject)+
  with assms(1) k show ?thesis by (auto simp: op_numbers_def in_set_conv_nth)
qed

lemma head_confirmed:
  assumes "pair_ok P" "shared_inv P W" "map_of (sw_member W) (sp_list P) = Some row" "ls_pending row = op # rest"
    "list_mutate (sp_owner P) (serve_list (sp_owner P) F (sp_guest P) (sent_request P rid (''edit'', Some op))) (sw_owner W) = Inr (T, answer)"
    "active_friend G (JStr (fr_id (sp_host P))) (Some (fr_peer (sp_host P))) = Inr f" "length (sw_member W) \<le> 32"
  shows "\<exists>M row'. receive_list (sp_member P) G (sp_list P) (ls_relationship row) (ls_owner row) (canon answer) (Some op) (sw_member W)
       = (if nd_fits (sp_member P) M then Inr (M, ()) else Inl list_capacity)
     \<and> map_of M (sp_list P) = Some row' \<and> (if ls_status row' = ''closed'' then ls_pending row' = [] \<and> ls_cancelled row' = rest else ls_pending row' = rest)"
proof -
  let ?i = "sp_list P" and ?p = "nd_peer (sp_member P)" and ?B = "sp_member P" and ?A = "sp_owner P"
  obtain V where v: "versions_ok ?p V" "owner_ok P V W" "history_ok P V W" "network_ok V W" "member_ok P V W"
    using assms(2) by (auto simp: shared_inv_def)
  obtain orow where orow: "map_of (sw_owner W) ?i = Some orow" "ls_id orow = ?i" "ls_owner orow = nd_peer ?A" "core orow = core (last V)"
    "ls_friend orow = ?p" "ls_relationship orow = fr_id (sp_guest P)" "list_ok ?A ?p orow" using v(2) by (auto simp: owner_ok_def)
  obtain u where u: "ls_owner row = nd_peer ?A" "ls_relationship row = fr_id (sp_host P)" "queue_ok ?p (sw_history W) row" "u \<in> set V" "ls_revision row = ls_revision u"
    using v(5) assms(3) by (auto simp: member_ok_def)
  have pair: "fr_peer (sp_guest P) = ?p" "fr_peer (sp_host P) = nd_peer ?A" "fr_id (sp_host P) = fr_id (sp_guest P)" "nd_lib ?B = nd_lib ?A" "hex_law ?A"
    using assms(1) by (simp_all add: pair_ok_def)
  have q: "ls_status row \<noteq> ''closed''" "ls_cancelled row = []" "drop (taken ?p row) (sw_history W) = op # rest"
    using u(3) assms(4) by (auto simp: queue_ok_def split: if_splits)
  have later: "\<forall>x \<in> set rest. eo_sequence op < eo_sequence x" using pending_after [OF _ q(3)] v(3) by (simp add: history_ok_def)
  let ?r = "(''edit'', Some op)"
  have act: "jfield ''action'' (sent_request P rid ?r) = JStr ''edit''" by (simp add: sent_fields)
  obtain out where out: "apply_edit ?A F (JStr ?i) ?p (jfield ''operation'' (sent_request P rid ?r)) (sw_owner W) = Inr (T, out)" "answer = list_snapshot out"
    using serve_edit_applies [OF list_mutate_Inr [OF assms(5)] act sent_fields(2) orow(1,2)] unfolding pair(1) .
  note a = applied_receipt [OF out(1) pair(5) orow(1,7) disjI1 [OF refl]]
  have o': "jfield ''operation'' (sent_request P rid ?r) = canon (op_json op)"
    unfolding sent_request_def by (simp add: jfield_def jget_canon) (simp add: list_request_def jget_def)
  have receipt: "map_of (ls_receipts out) ?p = Some (eo_sequence op, list_digest ?B (op_json op))"
    using a(5) sent_fields(3) [of ?r op P rid] by (simp add: o' stamp_canon) (simp add: list_digest_def pair(4))
  have same: "ls_id out = ?i" "ls_friend out = ?p" "ls_relationship out = fr_id (sp_host P)" "ls_owner out = nd_peer ?A"
    using a(3) orow pair(3) by (simp_all add: same_list_def)
  obtain got where got: "read_snapshot ?B ?i (ls_relationship row) (ls_owner row) (canon answer) = Inr got"
    using read_snapshot_ok [OF a(1) pair(4) same(2) a(2)] unfolding same u(1,2) out(2) .
  note g = read_snapshot_canon [OF got [unfolded out(2)]]
  have "ls_revision u \<le> ls_revision (last V)" using v(1) u(4) by (auto simp: versions_ok_def in_set_conv_nth last_conv_nth)
  also have "\<dots> = ls_revision orow" using orow(4) by (metis core_fields(3))
  finally have rev: "ls_revision row \<le> ls_revision got" using a(4) u(5) g(1) by simp
  let ?M = "dict_put ?i (got\<lparr>ls_pending := (if ls_status got = ''closed'' then [] else rest),
             ls_cancelled := (if ls_status got = ''closed'' then ls_cancelled row @ rest else ls_cancelled row), ls_local := ls_local row\<rparr>) (sw_member W)"
  have take: "take_snapshot ?B ?i (ls_relationship row) (ls_owner row) got (Some op) (sw_member W) = Inr (?M, ())"
    using take_confirmed [OF assms(3) refl refl rev assms(4) _ later] receipt g(9) [of ?p] by simp
  have "length ?M \<le> 32" using assms(3,7) by (simp add: put_length)
  moreover have "?M \<noteq> sw_member W"
  proof
    assume "?M = sw_member W"
    then have "ls_pending (the (map_of ?M ?i)) = op # rest" using assms(3,4) by simp
    moreover have "ls_pending (the (map_of ?M ?i)) \<noteq> op # rest" by simp
    ultimately show False by simp
  qed
  ultimately have "list_mutate ?B (take_snapshot ?B ?i (ls_relationship row) (ls_owner row) got (Some op)) (sw_member W)
      = (if nd_fits ?B ?M then Inr (?M, ()) else Inl list_capacity)"
    using assms(7) by (simp add: list_mutate_def take)
  moreover have "active_friend G (JStr (ls_relationship row)) (Some (ls_owner row)) = Inr f" using assms(6) u(1,2) pair(2) by simp
  ultimately have "receive_list ?B G ?i (ls_relationship row) (ls_owner row) (canon answer) (Some op) (sw_member W)
      = (if nd_fits ?B ?M then Inr (?M, ()) else Inl list_capacity)"
    using got by (simp add: receive_list_def)
  then show ?thesis using q(2) by (intro exI [of _ ?M]) simp
qed

subsection \<open>An add that cannot be applied\<close>

definition stuck :: "shared_pair \<Rightarrow> edit_op \<Rightarrow> nat \<Rightarrow> shared_world \<Rightarrow> bool" where
  "stuck P op n W \<longleftrightarrow> (\<exists>row. map_of (sw_owner W) (sp_list P) = Some row \<and> refused_add op row) \<and> length (sw_applied W) = n
     \<and> n < length (sw_history W) \<and> sw_history W ! n = op"

lemma op_fields:
  "jfield ''action'' (canon (op_json op)) = JStr (eo_action op)" "jfield ''value'' (canon (op_json op)) = canon (eo_value op)"
  "jfield ''sequence'' (canon (op_json op)) = JInt (eo_sequence op)"
proof -
  have f: "jfield k (canon (op_json op)) = canon v" if "jget k (op_json op) = Some v" for k v using that by (simp add: jfield_def jget_canon)
  show "jfield ''action'' (canon (op_json op)) = JStr (eo_action op)" "jfield ''value'' (canon (op_json op)) = canon (eo_value op)"
    "jfield ''sequence'' (canon (op_json op)) = JInt (eo_sequence op)"
    by (subst f, simp add: op_json_def jget_def, simp)+
qed

lemma refused_change: "refused_add op row \<Longrightarrow> change_items N peer (JStr (eo_action op)) (canon (eo_value op)) row \<noteq> Inr new"
proof
  assume r: "refused_add op row" and c: "change_items N peer (JStr (eo_action op)) (canon (eo_value op)) row = Inr new"
  show False
  proof (cases rule: change_items_cases [OF c, case_names add read remove close])
    case (add i title url)
    have "jfield ''id'' (eo_value op) \<noteq> JStr k" if "map_of (ls_items row) k \<noteq> None" for k
    proof
      assume "jfield ''id'' (eo_value op) = JStr k"
      then have "jfield ''id'' (canon (eo_value op)) = JStr k" by (auto simp: jfield_def jget_canon split: option.splits)
      with add(2,3) that show False by simp
    qed
    with r add(4) show ?thesis by (auto simp: refused_add_def split: json.splits)
  qed (use r in \<open>simp_all add: refused_add_def\<close>)
qed

lemma refused_later:
  assumes "refused_add op row" "ls_items row' = ls_items row \<or> (\<exists>q. items_edit q (ls_items row) (ls_items row'))" "items_ok (ls_items row)"
  shows "refused_add op row'"
  using assms(2)
proof
  assume "\<exists>q. items_edit q (ls_items row) (ls_items row')"
  then have "length (ls_items row) \<le> length (ls_items row')" "\<forall>i. map_of (ls_items row) i \<noteq> None \<longrightarrow> map_of (ls_items row') i \<noteq> None"
    using assms(3) by (auto simp: items_edit_def)
  with assms(1) show ?thesis by (auto simp: refused_add_def split: json.splits)
qed (use assms(1) in \<open>simp add: refused_add_def cong: json.case_cong\<close>)

lemma stuck_served:
  assumes "pair_ok P" "shared_inv P W" "stuck P op n W" "r \<in> set (sw_requests W)"
    "serve_list (sp_owner P) F (sp_guest P) (sent_request P rid r) (sw_owner W) = Inr (T, answer)"
  shows "sw_applied (served P W r (T, answer)) = sw_applied W"
proof (cases "snd r")
  case (Some op')
  let ?p = "nd_peer (sp_member P)"
  obtain V where v: "versions_ok ?p V" "owner_ok P V W" "history_ok P V W" "network_ok V W"
    using assms(2) by (auto simp: shared_inv_def)
  obtain row where row: "map_of (sw_owner W) (sp_list P) = Some row" "ls_id row = sp_list P" "core row = core (last V)" using v(2) by (auto simp: owner_ok_def)
  have guest: "fr_peer (sp_guest P) = ?p" using assms(1) by (simp add: pair_ok_def)
  have r: "fst r = ''edit''" "op' \<in> set (sw_history W)" using v(4) assms(4) Some by (auto simp: network_ok_def)
  have act: "jfield ''action'' (sent_request P rid r) = JStr ''edit''" using r(1) by (simp add: sent_fields)
  have o': "jfield ''operation'' (sent_request P rid r) = canon (op_json op')" using Some
    unfolding sent_request_def by (simp add: jfield_def jget_canon) (simp add: list_request_def jget_def)
  obtain out where out: "apply_edit (sp_owner P) F (JStr (sp_list P)) ?p (canon (op_json op')) (sw_owner W) = Inr (T, out)"
    using serve_edit_applies [OF assms(5) act sent_fields(2) row(1,2)] unfolding guest o' by blast
  from out have "T = sw_owner W"
  proof (cases rule: apply_edit_cases)
    case (new row' k mid)
    then have same: "row' = row" using row(1) by simp
    have n: "length (sw_applied W) = n" "n < length (sw_history W)" "sw_history W ! n = op" "refused_add op row" using assms(3) row(1) by (auto simp: stuck_def)
    have "taken ?p row = n" using v(3) n(1) taken_core [OF row(3), of ?p] by (simp add: history_ok_def)
    moreover have "0 \<le> fst (receipt_of row ?p)" using v(1) row(3) unfolding versions_ok_def by (metis core_fields(8) last_in_set)
    ultimately have "eo_sequence op' = int n + 1" using new(3,5) same by (simp add: op_fields taken_def)
    then have "op' = op" using op_numbers_mem [OF _ r(2)] v(3) n(3) by (simp add: history_ok_def)
    with new(7) same refused_change [OF n(4)] show ?thesis by (simp add: op_fields)
  qed
  with Some show ?thesis by (simp add: served_def)
qed (simp add: served_def)

lemma stuck_step:
  assumes "pair_ok P" "shared_inv P W" "stuck P op n W" "shared_step P W e = Inr W'"
  shows "stuck P op n W'" "sw_applied W' = sw_applied W"
proof -
  obtain row where row: "map_of (sw_owner W) (sp_list P) = Some row" "refused_add op row" using assms(3) by (auto simp: stuck_def)
  have items: "items_ok (ls_items row)" using assms(2) row(1) by (auto simp: shared_inv_def owner_ok_def)
  obtain row' where row': "map_of (sw_owner W') (sp_list P) = Some row'" "ls_items row' = ls_items row \<or> (\<exists>q \<in> editors P e. items_edit q (ls_items row) (ls_items row'))"
    using shared_step_items [OF assms(1,2,4) row(1)] by blast
  then have refused: "refused_add op row'" using refused_later [OF row(2) _ items] by blast
  have same: "sw_applied W' = sw_applied W \<and> (\<exists>h. sw_history W' = sw_history W @ h)"
  proof (cases e)
    case (Serve F rid k)
    show ?thesis
    proof (cases "k < length (sw_requests W)")
      case True
      then have m: "sw_requests W ! k \<in> set (sw_requests W)" by simp
      from assms(4) Serve True obtain T answer where t: "serve_list (sp_owner P) F (sp_guest P) (sent_request P rid (sw_requests W ! k)) (sw_owner W) = Inr (T, answer)"
        "W' = served P W (sw_requests W ! k) (T, answer)" by (auto simp: bnd_Inr Let_def dest!: list_mutate_Inr)
      have "sw_history W' = sw_history W" by (simp add: t(2) served_def)
      with stuck_served [OF assms(1-3) m t(1)] t(2) show ?thesis by simp
    qed (use assms(4) Serve in auto)
  next
    case Ask_Edit
    with assms(4) obtain x :: shared_list where "(case ls_pending x of [] \<Rightarrow> Inr W | op # _ \<Rightarrow> Inr (W\<lparr>sw_requests := sw_requests W @ [(''edit'', Some op)]\<rparr>)) = (Inr W' :: py_error + shared_world)"
      by (auto simp: guard_simps)
    then show ?thesis by (cases "ls_pending x") auto
  next
    case (Deliver F k)
    with assms(4) show ?thesis by (auto simp: guard_simps Let_def split: if_splits prod.splits)
  qed (use assms(4) in \<open>auto simp: guard_simps\<close>)
  then show "sw_applied W' = sw_applied W" by blast
  show "stuck P op n W'" using same row'(1) refused assms(3) by (auto simp: stuck_def nth_append)
qed

lemma stuck_run:
  assumes "pair_ok P" "shared_inv P W" "stuck P op n W"
  shows "sw_applied (shared.run P W es) = sw_applied W" "stuck P op n (shared.run P W es)"
proof -
  have "sw_applied (shared.run P W es) = sw_applied W \<and> stuck P op n (shared.run P W es)" using assms(2,3)
  proof (induction es arbitrary: W)
    case (Cons e es)
    show ?case
    proof (cases "shared_step P W e")
      case (Inl err)
      then show ?thesis using Cons by (simp add: shared.attempt_def)
    next
      case (Inr W')
      have "shared_inv P W'" using shared_step_inv [OF conjI [OF assms(1) Cons.prems(1)] Inr] by simp
      with stuck_step [OF assms(1) Cons.prems Inr] Cons.IH Inr show ?thesis by (simp add: shared.attempt_def)
    qed
  qed simp
  then show "sw_applied (shared.run P W es) = sw_applied W" "stuck P op n (shared.run P W es)" by blast+
qed

subsection \<open>Guarantees\<close>

lemma queue_shape:
  assumes "shared_inv P W" "map_of (sw_member W) (sp_list P) = Some m"
  shows "if ls_status m = ''closed'' then ls_pending m = [] \<and> sw_applied W @ ls_cancelled m = sw_history W
      else ls_cancelled m = [] \<and> (\<exists>b \<le> length (sw_applied W). ls_pending m = drop b (sw_history W))"
proof -
  let ?p = "nd_peer (sp_member P)"
  obtain V where v: "versions_ok ?p V" "history_ok P V W" "member_ok P V W" using assms(1) by (auto simp: shared_inv_def)
  obtain u where u: "queue_ok ?p (sw_history W) m" "u \<in> set V" "ls_status m = ls_status u" "receipt_of m ?p = receipt_of u ?p"
    using v(3) assms(2) by (auto simp: member_ok_def)
  have V: "last V \<in> set V" using v(1) by (simp add: versions_ok_def)
  have t: "taken ?p m = taken ?p u" using u(4) by (simp add: taken_def)
  have rev: "ls_revision u \<le> ls_revision (last V)" using v(1) u(2) by (auto simp: versions_ok_def in_set_conv_nth last_conv_nth)
  have le: "taken ?p u \<le> length (sw_applied W)" using versions_le(1) [OF v(1) u(2) V rev] v(2) by (simp add: history_ok_def)
  show ?thesis
  proof (cases "ls_status m = ''closed''")
    case True
    then have "u = last V" using versions_le(2) [OF v(1) u(2) V rev] u(3) by simp
    with True u(1) t v(2) show ?thesis by (simp add: queue_ok_def history_ok_def)
  next
    case False
    with u(1) t le show ?thesis by (auto simp: queue_ok_def)
  qed
qed

text \<open>C9: In every run of a list between its owner and its member, with lost, repeated and reordered messages and changing friendships, the
  owner has applied a prefix of the edits the member queued, each once and in order, as many as its receipt counts. While the list is open for
  the member, what waits in its queue is the rest of its edits, save those whose confirmation is still under way; once it is closed, the
  edits that were not applied are the cancelled ones, all of them.\<close>

theorem shared_exactly_once:
  assumes "list_started P S M" "W = shared_run P (shared_start S M) es"
  shows "\<exists>row. map_of (sw_owner W) (sp_list P) = Some row
    \<and> sw_applied W = take (taken (nd_peer (sp_member P)) row) (sw_history W)
    \<and> (case map_of (sw_member W) (sp_list P) of None \<Rightarrow> sw_history W = []
       | Some m \<Rightarrow> if ls_status m = ''closed'' then ls_pending m = [] \<and> sw_applied W @ ls_cancelled m = sw_history W
           else ls_cancelled m = [] \<and> (\<exists>b \<le> length (sw_applied W). ls_pending m = drop b (sw_history W)))"
proof -
  let ?p = "nd_peer (sp_member P)"
  have inv: "shared_inv P W" using started_run [OF assms(1)] assms(2) by (simp add: shared_run_eq)
  then obtain V where v: "owner_ok P V W" "history_ok P V W" "member_ok P V W" by (auto simp: shared_inv_def)
  obtain row where row: "map_of (sw_owner W) (sp_list P) = Some row" "core row = core (last V)" using v(1) by (auto simp: owner_ok_def)
  have t: "taken ?p row = taken ?p (last V)" by (rule taken_core [OF row(2)])
  show ?thesis
  proof (cases "map_of (sw_member W) (sp_list P)")
    case None
    then have "sw_history W = []" using v(3) by (simp add: member_ok_def)
    with None row(1) t v(2) show ?thesis by (simp add: history_ok_def)
  next
    case (Some m)
    show ?thesis unfolding Some option.case using queue_shape [OF inv Some] row(1) t v(2) by (intro exI [of _ row]) (simp add: history_ok_def)
  qed
qed

theorem shared_exactly_once_witness:
  "map eo_action (sw_applied (shared_run demo_pair demo_start demo_events)) = [''add'']
   \<and> (\<exists>row. map_of (sw_owner (shared_run demo_pair demo_start demo_events)) (sp_list demo_pair) = Some row
     \<and> sw_applied (shared_run demo_pair demo_start demo_events) = take (taken (nd_peer (sp_member demo_pair)) row) (sw_history (shared_run demo_pair demo_start demo_events)))"
  using shared_exactly_once [OF demo_started refl, of demo_events] demo_applied unfolding demo_start_def by blast

text \<open>C11: Items of a list never disappear. However the run goes on, an item keeps its place, link, title and author until it is removed, is blank
  from then on, and the reading marks of a peer change only by that peer's own edits.\<close>

theorem deletion_wins:
  assumes "list_started P S M" "map_of (sw_owner (shared_run P (shared_start S M) es)) (sp_list P) = Some row" "map_of (ls_items row) i = Some item"
  shows "\<exists>row' item'. map_of (sw_owner (shared_run P (shared_run P (shared_start S M) es) fs)) (sp_list P) = Some row'
    \<and> map_of (ls_items row') i = Some item' \<and> item_fate (\<Union>e \<in> set fs. editors P e) item item'"
proof -
  have inv: "pair_ok P" "shared_inv P (shared_run P (shared_start S M) es)" using started_run [OF assms(1), of es] by (simp_all add: shared_run_eq)
  show ?thesis using shared_run_items [OF inv assms(2,3), of fs] by (simp only: shared_run_eq)
qed

theorem deletion_wins_witness:
  "\<exists>row item row' item'. map_of (sw_owner (shared_run demo_pair demo_start demo_events)) (sp_list demo_pair) = Some row
    \<and> map_of (ls_items row) (demo_hex (CHR ''e'')) = Some item
    \<and> map_of (sw_owner (shared_run demo_pair (shared_run demo_pair demo_start demo_events) demo_removal)) (sp_list demo_pair) = Some row'
    \<and> map_of (ls_items row') (demo_hex (CHR ''e'')) = Some item' \<and> item_fate (\<Union>e \<in> set demo_removal. editors demo_pair e) item item'"
proof -
  obtain row where row: "map_of (sw_owner (shared_run demo_pair demo_start demo_events)) (sp_list demo_pair) = Some row" "map_of (ls_items row) (demo_hex (CHR ''e'')) \<noteq> None"
    using demo_items by auto
  then obtain item where item: "map_of (ls_items row) (demo_hex (CHR ''e'')) = Some item" by auto
  show ?thesis using deletion_wins [OF demo_started row(1) [unfolded demo_start_def] item, of demo_removal] row(1) item unfolding demo_start_def by blast
qed

text \<open>C12: An add that the owner cannot take, because the list is full or has that item already, blocks the member's edits: in no run that follows
  is it or any later edit applied, and it waits in the member's queue for as long as the list is not closed.\<close>

theorem rejected_add_blocks:
  assumes "list_started P S M" "W = shared_run P (shared_start S M) es" "map_of (sw_owner W) (sp_list P) = Some row"
    "length (sw_applied W) < length (sw_history W)" "refused_add (sw_history W ! length (sw_applied W)) row"
  shows "sw_applied (shared_run P W fs) = sw_applied W
    \<and> (\<forall>m. map_of (sw_member (shared_run P W fs)) (sp_list P) = Some m \<and> ls_status m \<noteq> ''closed'' \<longrightarrow> sw_history W ! length (sw_applied W) \<in> set (ls_pending m))"
proof -
  let ?n = "length (sw_applied W)" and ?U = "shared_run P W fs"
  have inv: "pair_ok P" "shared_inv P W" using started_run [OF assms(1), of es] assms(2) by (simp_all add: shared_run_eq)
  have "stuck P (sw_history W ! ?n) ?n W" using assms(3-5) by (auto simp: stuck_def)
  from stuck_run [OF inv this, of fs] have s: "sw_applied ?U = sw_applied W" "stuck P (sw_history W ! ?n) ?n ?U" by (simp_all add: shared_run_eq)
  have u: "shared_inv P ?U" using shared.run_inv [of P W fs] inv by (simp add: shared_run_eq)
  have "sw_history W ! ?n \<in> set (ls_pending m)" if "map_of (sw_member ?U) (sp_list P) = Some m" "ls_status m \<noteq> ''closed''" for m
  proof -
    note open_list = that
    obtain b where b: "b \<le> ?n" "ls_pending m = drop b (sw_history ?U)" using queue_shape [OF u open_list(1)] open_list(2) s(1) by auto
    have h: "?n < length (sw_history ?U)" "sw_history ?U ! ?n = sw_history W ! ?n" using s(2) by (auto simp: stuck_def)
    then have "ls_pending m ! (?n - b) = sw_history W ! ?n" "?n - b < length (ls_pending m)" using b by simp_all
    then show ?thesis by (metis nth_mem)
  qed
  with s(1) show ?thesis by blast
qed

theorem rejected_add_blocks_witness:
  "sw_applied (shared_run demo_pair demo_blocked [Ask_Edit, Serve (demo_friends ''B'') (demo_hex (CHR ''1'')) 1]) = sw_applied demo_blocked"
proof -
  obtain row where row: "map_of (sw_owner demo_blocked) (sp_list demo_pair) = Some row" "length (sw_applied demo_blocked) < length (sw_history demo_blocked)"
    "refused_add (sw_history demo_blocked ! length (sw_applied demo_blocked)) row"
    using demo_refused unfolding Let_def by (auto split: option.splits)
  show ?thesis using rejected_add_blocks [OF demo_started demo_blocked_def row] by blast
qed

end
