(* ===== verification/Shared_Wire.thy ===== *)
theory Shared_Wire
  imports Shared_Guarantees Mailbox_Guarantees
begin

section \<open>A request over the friends' transport\<close>

text \<open>
  The wire between the two nodes: what \<open>request\<close> seals, \<open>respond\<close> opens, and back, with the limits on the way. Within them the member gets
  what the owner's handler answers, which is the step that the runs of a list are made of; a turn of the worker over this wire confirms the edit it sent.
\<close>

text \<open>\<open>body\<close> is the length in bytes of the response body that the web framework writes for a value.\<close>

definition wire_to_owner :: "shared_pair \<Rightarrow> friends \<Rightarrow> (json \<Rightarrow> nat) \<Rightarrow> string \<Rightarrow> lists \<Rightarrow> json \<Rightarrow> (json \<times> nat) option" where
  "wire_to_owner P F body nonce S wire = (case fst (respond (sp_owner P) F wire (sp_guest P) nonce S) of Inr w \<Rightarrow> Some (w, body w) | Inl _ \<Rightarrow> None)"

definition plain_request :: "shared_pair \<Rightarrow> string \<Rightarrow> string \<Rightarrow> (string, json) dict \<Rightarrow> json" where
  "plain_request P rid action args = list_request (sp_member P) (sp_host P) rid action args"

definition plain_answer :: "shared_pair \<Rightarrow> friends \<Rightarrow> lists \<Rightarrow> json \<Rightarrow> json" where
  "plain_answer P F S request = JObj (answer_base (sp_guest P) (canon request)
     @ [case list_mutate (sp_owner P) (serve_list (sp_owner P) F (sp_guest P) (canon request)) S of
          Inr (_, answer) \<Rightarrow> (''result'', answer) | Inl e \<Rightarrow> (''error'', JStr (case e of Raised code \<Rightarrow> code | _ \<Rightarrow> []))])"

definition sealed_answer :: "shared_pair \<Rightarrow> friends \<Rightarrow> string \<Rightarrow> lists \<Rightarrow> json \<Rightarrow> json" where
  "sealed_answer P F nonce S request = (case seal_list (sp_owner P) (sp_guest P) nonce (plain_answer P F S request) of Inr w \<Rightarrow> w | Inl _ \<Rightarrow> JNull)"

text \<open>
  What the member gets when the friendship is active on both sides. A request of more than 8192 bytes, a handler that raises anything but a
  \<open>ListError\<close>, and a response body of more than 1 MiB come back as unconfirmed, a longer plain answer as invalid; otherwise it is the
  answer of the owner's handler, or the code of its error.
\<close>

definition member_gets :: "shared_pair \<Rightarrow> friends \<Rightarrow> (json \<Rightarrow> nat) \<Rightarrow> string \<Rightarrow> string \<Rightarrow> lists \<Rightarrow> string \<Rightarrow> (string, json) dict \<Rightarrow> py_error + json" where
  "member_gets P F body rid nonce S action args = (let request = plain_request P rid action args;
       handled = list_mutate (sp_owner P) (serve_list (sp_owner P) F (sp_guest P) (canon request)) S in
     if 8192 < length (canonical_json request) then Inl (Raised ''shared_sync_unconfirmed'')
     else if (case handled of Inr _ \<Rightarrow> False | Inl (Raised _) \<Rightarrow> False | Inl _ \<Rightarrow> True) then Inl (Raised ''shared_sync_unconfirmed'')
     else if MAX_WIRE < body (sealed_answer P F nonce S request) then Inl (Raised ''shared_sync_unconfirmed'')
     else if MAX_WIRE < length (canonical_json (plain_answer P F S request)) then Inl bad_response
     else bnd handled (\<lambda>(_, answer). Inr (canon answer)))"

definition wire_ok :: "shared_pair \<Rightarrow> bool" where
  "wire_ok P \<longleftrightarrow> (let B = nd_box (sp_owner P) in box_law B \<and> nd_box (sp_member P) = B \<and> box_key (nd_key (sp_owner P)) \<and> box_key (nd_key (sp_member P))
     \<and> fr_pub (sp_guest P) = public_key_b64 B (nd_key (sp_member P)) \<and> fr_pub (sp_host P) = public_key_b64 B (nd_key (sp_owner P)))"

lemma sealed_list:
  assumes "box_law (nd_box N)" "box_key (nd_key N)" "box_key k" "box_nonce nonce" "fr_pub relation = public_key_b64 (nd_box N) k"
  obtains n c where "seal_list N relation nonce j = Inr (JObj [(''nonce'', JStr n), (''ciphertext'', JStr c)])"
    "open_sealed (nd_box N) k (public_key_b64 (nd_box N) (nd_key N)) n c LIST_CHANNEL = Inr (canonical_json j)"
  using peer.open_seal [OF assms(1-4), of "canonical_json j" LIST_CHANNEL] that by (auto simp: seal_list_def assms(5))

lemma plain_request_fields:
  "jget ''version'' (canon (plain_request P rid action args)) = Some (JStr LIST_WIRE)" "jget ''request_id'' (canon (plain_request P rid action args)) = Some (JStr rid)"
  "jget ''relationship_id'' (canon (plain_request P rid action args)) = Some (JStr (fr_id (sp_host P)))"
  "jget ''from'' (canon (plain_request P rid action args)) = Some (JStr (nd_peer (sp_member P)))" "jget ''to'' (canon (plain_request P rid action args)) = Some (JStr (fr_peer (sp_host P)))"
  by (simp_all add: jget_canon plain_request_def) (simp_all add: list_request_def jget_def)

lemma opened_request:
  assumes "pair_ok P" "wire_ok P" "hex_text 32 rid" "json_ok (plain_request P rid action args)" "length (canonical_json (plain_request P rid action args)) \<le> 8192"
    "open_sealed (nd_box (sp_owner P)) (nd_key (sp_owner P)) (fr_pub (sp_guest P)) n c LIST_CHANNEL = Inr (canonical_json (plain_request P rid action args))"
  shows "open_request (sp_owner P) (sp_guest P) (JObj [(''nonce'', JStr n), (''ciphertext'', JStr c)]) = Inr (canon (plain_request P rid action args))"
proof -
  have w: "jitem ''nonce'' (JObj [(''nonce'', JStr n), (''ciphertext'', JStr c)]) = Inr (JStr n)" "jitem ''ciphertext'' (JObj [(''nonce'', JStr n), (''ciphertext'', JStr c)]) = Inr (JStr c)"
    by (simp_all add: jitem_def)
  have rid: "jitem ''request_id'' (canon (plain_request P rid action args)) = Inr (JStr rid)" "list_identity (JStr rid) = Inr rid"
    using plain_request_fields(2) assms(3) by (simp_all add: jitem_Inr list_identity_def)
  show ?thesis using assms(1,5) by (simp add: open_request_def w assms(6) read_canonical [OF assms(4)] rid plain_request_fields pair_ok_def)
qed

lemma plain_answer_fields:
  "jget ''version'' (canon (plain_answer P F S (plain_request P rid action args))) = Some (JStr LIST_WIRE)"
  "jget ''request_id'' (canon (plain_answer P F S (plain_request P rid action args))) = Some (JStr rid)"
  "jget ''relationship_id'' (canon (plain_answer P F S (plain_request P rid action args))) = Some (JStr (fr_id (sp_guest P)))"
proof -
  have "jfield ''request_id'' (canon (plain_request P rid action args)) = JStr rid" using plain_request_fields(2) by (simp add: jfield_def)
  then show "jget ''version'' (canon (plain_answer P F S (plain_request P rid action args))) = Some (JStr LIST_WIRE)"
    "jget ''request_id'' (canon (plain_answer P F S (plain_request P rid action args))) = Some (JStr rid)"
    "jget ''relationship_id'' (canon (plain_answer P F S (plain_request P rid action args))) = Some (JStr (fr_id (sp_guest P)))"
    by (simp_all add: jget_canon) (simp_all add: plain_answer_def answer_base_def jget_def)
qed

lemma plain_answer_result:
  assumes "out = list_mutate (sp_owner P) (serve_list (sp_owner P) F (sp_guest P) (canon request)) S"
  shows "out = Inr (T, answer) \<Longrightarrow> jget ''error'' (canon (plain_answer P F S request)) = None \<and> jget ''result'' (canon (plain_answer P F S request)) = Some (canon answer)"
    "out = Inl (Raised code) \<Longrightarrow> jget ''error'' (canon (plain_answer P F S request)) = Some (JStr code)"
  using assms by (simp_all add: jget_canon) (simp_all add: plain_answer_def answer_base_def jget_def)

lemma long_request:
  assumes "8192 < length raw" "open_sealed (nd_box N) (nd_key N) (fr_pub relation) n c LIST_CHANNEL = Inr raw"
  shows "open_request N relation (JObj [(''nonce'', JStr n), (''ciphertext'', JStr c)]) = Inl bad_request"
proof -
  have w: "jitem ''nonce'' (JObj [(''nonce'', JStr n), (''ciphertext'', JStr c)]) = Inr (JStr n)" "jitem ''ciphertext'' (JObj [(''nonce'', JStr n), (''ciphertext'', JStr c)]) = Inr (JStr c)"
    by (simp_all add: jitem_def)
  have "open_request N relation (JObj [(''nonce'', JStr n), (''ciphertext'', JStr c)]) \<noteq> Inr request" for request
    using assms(1) by (auto simp: open_request_def w assms(2) guard_simps split: sum.splits)
  moreover have "(\<exists>r. open_request N relation j = Inr r) \<or> open_request N relation j = Inl bad_request" for j
    unfolding open_request_def by (simp split: sum.split)
  ultimately show ?thesis by blast
qed

lemma opened_answer:
  assumes "pair_ok P" "json_ok (plain_answer P F S (plain_request P rid action args))"
    "open_sealed (nd_box (sp_member P)) (nd_key (sp_member P)) (fr_pub (sp_host P)) n c LIST_CHANNEL = Inr (canonical_json (plain_answer P F S (plain_request P rid action args)))"
  shows "open_answer (sp_member P) (sp_host P) rid (JObj [(''nonce'', JStr n), (''ciphertext'', JStr c)])
    = (if MAX_WIRE < length (canonical_json (plain_answer P F S (plain_request P rid action args))) then Inl bad_response
       else Inr (canon (plain_answer P F S (plain_request P rid action args))))"
proof -
  have w: "jitem ''nonce'' (JObj [(''nonce'', JStr n), (''ciphertext'', JStr c)]) = Inr (JStr n)" "jitem ''ciphertext'' (JObj [(''nonce'', JStr n), (''ciphertext'', JStr c)]) = Inr (JStr c)"
    by (simp_all add: jitem_def)
  show ?thesis using assms(1) by (simp add: open_answer_def w assms(3) read_canonical [OF assms(2)] plain_answer_fields pair_ok_def require_def)
qed

lemma request_answered:
  assumes "pair_ok P" "wire_ok P" "box_nonce n1" "box_nonce n2" "hex_text 32 rid"
    "active_friend F (JStr (fr_id (sp_guest P))) (Some (fr_peer (sp_guest P))) = Inr (sp_guest P)"
    "active_friend G (JStr (fr_id (sp_host P))) (Some (fr_peer (sp_host P))) = Inr f"
    "json_ok (plain_request P rid action args)" "json_ok (plain_answer P F S (plain_request P rid action args))"
  shows "request_list (sp_member P) G (sp_host P) rid n1 (wire_to_owner P F body n2 S) action args = member_gets P F body rid n2 S action args"
proof -
  let ?req = "plain_request P rid action args" and ?ans = "plain_answer P F S (plain_request P rid action args)" and ?unconf = "Raised ''shared_sync_unconfirmed''"
  let ?out = "list_mutate (sp_owner P) (serve_list (sp_owner P) F (sp_guest P) (canon ?req)) S"
  have k: "box_law (nd_box (sp_member P))" "box_law (nd_box (sp_owner P))" "nd_box (sp_member P) = nd_box (sp_owner P)" "box_key (nd_key (sp_member P))" "box_key (nd_key (sp_owner P))"
    "fr_pub (sp_guest P) = public_key_b64 (nd_box (sp_owner P)) (nd_key (sp_member P))" "fr_pub (sp_host P) = public_key_b64 (nd_box (sp_member P)) (nd_key (sp_owner P))"
    using assms(2) by (simp_all add: wire_ok_def Let_def)
  obtain n c where sealed: "seal_list (sp_member P) (sp_host P) n1 ?req = Inr (JObj [(''nonce'', JStr n), (''ciphertext'', JStr c)])"
    "open_sealed (nd_box (sp_owner P)) (nd_key (sp_owner P)) (fr_pub (sp_guest P)) n c LIST_CHANNEL = Inr (canonical_json ?req)"
    using sealed_list [OF k(1,4,5) assms(3) k(7), of ?req] unfolding k(3,6) by blast
  let ?wire = "JObj [(''nonce'', JStr n), (''ciphertext'', JStr c)]"
  obtain n' c' where sealed_back: "seal_list (sp_owner P) (sp_guest P) n2 ?ans = Inr (JObj [(''nonce'', JStr n'), (''ciphertext'', JStr c')])"
    "open_sealed (nd_box (sp_member P)) (nd_key (sp_member P)) (fr_pub (sp_host P)) n' c' LIST_CHANNEL = Inr (canonical_json ?ans)"
    using sealed_list [OF k(2,5,4) assms(4) k(6), of ?ans] unfolding k(3,7) by blast
  let ?reply = "JObj [(''nonce'', JStr n'), (''ciphertext'', JStr c')]"
  note a = opened_answer [OF assms(1,9) sealed_back(2)]
  have reply: "sealed_answer P F n2 S ?req = ?reply" by (simp add: sealed_answer_def sealed_back(1))
  have ask: "request_list (sp_member P) G (sp_host P) rid n1 (wire_to_owner P F body n2 S) action args =
      bnd (opt_or ?unconf (wire_to_owner P F body n2 S ?wire)) (\<lambda>(answer, bytes). require (bytes \<le> MAX_WIRE) ?unconf (
      bnd (open_answer (sp_member P) (sp_host P) rid answer) (\<lambda>result.
      case jget ''error'' result of Some code \<Rightarrow> Inl (Raised (py_str code)) | None \<Rightarrow> jitem ''result'' result)))"
    using sealed(1) by (simp add: request_list_def assms(7) plain_request_def)
  show ?thesis
  proof (cases "8192 < length (canonical_json ?req)")
    case True
    have "wire_to_owner P F body n2 S ?wire = None"
      using long_request [OF True sealed(2)] by (simp add: wire_to_owner_def respond_def assms(6))
    then show ?thesis using True by (simp add: ask member_gets_def Let_def opt_or_def)
  next
    case False
    then have short: "length (canonical_json ?req) \<le> 8192" by simp
    note opened = opened_request [OF assms(1,2,5,8) short sealed(2)]
    have net: "wire_to_owner P F body n2 S ?wire = (case ?out of Inr _ \<Rightarrow> Some (?reply, body ?reply) | Inl (Raised code) \<Rightarrow> Some (?reply, body ?reply) | Inl e \<Rightarrow> None)"
      using sealed_back(1) by (auto simp: wire_to_owner_def respond_def assms(6) opened plain_answer_def split: sum.split py_error.split)
    show ?thesis
    proof (cases ?out)
      case (Inr r)
      obtain T answer where r: "r = (T, answer)" by (cases r)
      have res: "jget ''error'' (canon ?ans) = None" "jitem ''result'' (canon ?ans) = Inr (canon answer)"
        using plain_answer_result(1) [OF refl Inr [unfolded r]] by (simp_all add: jitem_Inr)
      show ?thesis using False by (simp add: ask net Inr r a res member_gets_def Let_def reply opt_or_def require_def)
    next
      case (Inl e)
      show ?thesis
      proof (cases e)
        case (Raised code)
        have res: "jget ''error'' (canon ?ans) = Some (JStr code)" using plain_answer_result(2) [OF refl Inl [unfolded Raised]] .
        show ?thesis using False by (simp add: ask net Inl Raised a res member_gets_def Let_def reply opt_or_def require_def)
      qed (use False in \<open>simp_all add: ask net Inl member_gets_def Let_def opt_or_def\<close>)
    qed
  qed
qed

text \<open>C13: Between friends who are active on both sides, a request sealed for the owner, answered under seal and opened again gives the member exactly what
  \<open>member_gets\<close> says: the answer of the owner's handler or the code of its error, as long as the request keeps to 8192 bytes and response body and plain
  answer to 1 MiB each, and the error of the limit that is exceeded otherwise. Request and answer are JSON values without repeated keys.\<close>

theorem sealed_request_answered:
  assumes "pair_ok P" "wire_ok P" "box_nonce n1" "box_nonce n2" "hex_text 32 rid"
    "active_friend F (JStr (fr_id (sp_guest P))) (Some (fr_peer (sp_guest P))) = Inr (sp_guest P)"
    "active_friend G (JStr (fr_id (sp_host P))) (Some (fr_peer (sp_host P))) = Inr f"
    "json_ok (plain_request P rid action args)" "json_ok (plain_answer P F S (plain_request P rid action args))"
  shows "request_list (sp_member P) G (sp_host P) rid n1 (wire_to_owner P F body n2 S) action args = member_gets P F body rid n2 S action args"
  by (rule request_answered [OF assms])

lemma failure_noted:
  assumes "sync_outcome N F ask i row S = Inl err" "hex_text 32 i" "map_of S i = Some row" "ls_owner row \<noteq> nd_peer N"
  shows "\<exists>e T r. sync_list N F ask (JStr i) S = (Inl e, T) \<and> map_of T i = Some r \<and> ls_pending r = ls_pending row"
proof (cases "list_mutate N (note_failure i) S")
  case (Inl e)
  then show ?thesis using assms by (simp add: sync_list_def list_identity_def)
next
  case (Inr r)
  obtain T u where r: "r = (T, u)" by (cases r)
  have "map_of T i = Some (row\<lparr>ls_error := ''Sync unconfirmed. Reconnect or review this friendship.''\<rparr>)"
    using list_mutate_Inr [OF Inr [unfolded r]] assms(3) by (auto simp: note_failure_def)
  then show ?thesis using Inr r assms by (simp add: sync_list_def list_identity_def)
qed

text \<open>C10: One turn of the worker over the sealed wire, between friends who are active on both sides. When the owner takes the edit at the head of the
  member's queue, or has taken it before, and the request keeps to 8192 bytes and response body and plain answer to 1 MiB, the answer passes every
  check of the member, which confirms that edit and no other: the rest of the queue is left. (Request and answer are JSON values without repeated keys.) If the confirmed row no longer fits the member's file, the turn
  fails and the queue stays as it is.\<close>

theorem sync_confirms:
  assumes "list_started P S M" "W = shared_run P (shared_start S M) es" "wire_ok P" "box_nonce n1" "box_nonce n2" "hex_text 32 rid" "hex_text 32 (sp_list P)"
    "map_of (sw_member W) (sp_list P) = Some row" "ls_pending row = op # rest" "length (sw_member W) \<le> 32"
    "active_friend F (JStr (fr_id (sp_guest P))) (Some (fr_peer (sp_guest P))) = Inr (sp_guest P)"
    "active_friend G (JStr (fr_id (sp_host P))) (Some (fr_peer (sp_host P))) = Inr f"
    "request = plain_request P rid ''edit'' [(''id'', JStr (sp_list P)), (''operation'', op_json op)]"
    "list_mutate (sp_owner P) (serve_list (sp_owner P) F (sp_guest P) (canon request)) (sw_owner W) = Inr (T, answer)"
    "json_ok request" "json_ok (plain_answer P F (sw_owner W) request)" "length (canonical_json request) \<le> 8192"
    "body (sealed_answer P F n2 (sw_owner W) request) \<le> MAX_WIRE" "length (canonical_json (plain_answer P F (sw_owner W) request)) \<le> MAX_WIRE"
    "turn = sync_list (sp_member P) G (request_list (sp_member P) G (sp_host P) rid n1 (wire_to_owner P F body n2 (sw_owner W))) (JStr (sp_list P)) (sw_member W)"
  shows "\<exists>M' row'. map_of M' (sp_list P) = Some row'
    \<and> (if ls_status row' = ''closed'' then ls_pending row' = [] \<and> ls_cancelled row' = rest else ls_pending row' = rest)
    \<and> (if nd_fits (sp_member P) M' then turn = (Inr (), M')
       else (\<exists>e U kept. turn = (Inl e, U) \<and> map_of U (sp_list P) = Some kept \<and> ls_pending kept = op # rest))"
proof -
  let ?ask = "request_list (sp_member P) G (sp_host P) rid n1 (wire_to_owner P F body n2 (sw_owner W))" and ?i = "sp_list P" and ?B = "sp_member P"
  let ?args = "[(''id'', JStr (sp_list P)), (''operation'', op_json op)]"
  have inv: "pair_ok P" "shared_inv P W" using started_run [OF assms(1), of es] assms(2) by (simp_all add: shared_run_eq)
  have foreign: "ls_owner row \<noteq> nd_peer ?B" using inv assms(8) by (auto simp: shared_inv_def member_ok_def pair_ok_def)
  have sent: "sent_request P rid (''edit'', Some op) = canon request" by (simp add: sent_request_def plain_request_def assms(13))
  have ask: "?ask ''edit'' ?args = Inr (canon answer)"
    using request_answered [OF inv(1) assms(3-6,11,12) assms(15,16) [unfolded assms(13)]] assms(14,17-19) by (simp add: member_gets_def assms(13))
  obtain M' row' where m: "receive_list ?B G ?i (ls_relationship row) (ls_owner row) (canon answer) (Some op) (sw_member W)
       = (if nd_fits ?B M' then Inr (M', ()) else Inl list_capacity)"
    "map_of M' ?i = Some row'" "if ls_status row' = ''closed'' then ls_pending row' = [] \<and> ls_cancelled row' = rest else ls_pending row' = rest"
    using head_confirmed [OF inv assms(8,9) assms(14) [folded sent] assms(12,10)] by blast
  have out: "sync_outcome ?B G ?ask ?i row (sw_member W) = (if nd_fits ?B M' then Inr (M', ()) else Inl list_capacity)"
    using m(1) ask assms(9) by (simp add: sync_outcome_def Let_def)
  have "if nd_fits ?B M' then turn = (Inr (), M') else (\<exists>e U kept. turn = (Inl e, U) \<and> map_of U ?i = Some kept \<and> ls_pending kept = op # rest)"
  proof (cases "nd_fits ?B M'")
    case True
    then show ?thesis using out assms(7,8) foreign by (simp add: assms(20) sync_list_def list_identity_def)
  next
    case False
    then show ?thesis using failure_noted [OF _ assms(7,8) foreign, of G ?ask] out assms(9) by (simp add: assms(20))
  qed
  with m(2,3) show ?thesis by blast
qed

definition wire_key :: string where "wire_key = replicate 32 (CHR ''k'')"

text \<open>Two nodes with the same key, and their friends.\<close>

definition keyed_friend :: "string \<Rightarrow> string \<Rightarrow> friend" where
  "keyed_friend pub peer = (demo_friend peer)\<lparr>fr_pub := pub\<rparr>"

definition keyed_friends :: "string \<Rightarrow> string \<Rightarrow> friends" where
  "keyed_friends pub peer r = (if r = demo_hex (CHR ''b'') then Some (keyed_friend pub peer) else None)"

definition keyed_pair :: "string \<Rightarrow> string \<Rightarrow> shared_pair" where
  "keyed_pair key pub = demo_pair\<lparr>sp_owner := (demo_node ''A'')\<lparr>nd_key := key\<rparr>, sp_member := (demo_node ''B'')\<lparr>nd_key := key\<rparr>,
     sp_guest := keyed_friend pub ''B'', sp_host := keyed_friend pub ''A''\<rparr>"

abbreviation wire_pair :: shared_pair where
  "wire_pair \<equiv> keyed_pair wire_key (public_key_b64 plain_box wire_key)"

abbreviation wire_friends :: "string \<Rightarrow> friends" where
  "wire_friends \<equiv> keyed_friends (public_key_b64 plain_box wire_key)"

lemma wire_pair_ok: "pair_ok wire_pair" "wire_ok wire_pair"
proof -
  show "pair_ok wire_pair" using demo_pair_ok by (simp add: pair_ok_def keyed_pair_def keyed_friend_def demo_pair_def demo_node_def demo_friend_def hex_law_def)
  show "wire_ok wire_pair" using plain_laws(2) by (simp add: wire_ok_def keyed_pair_def keyed_friend_def demo_pair_def demo_node_def box_key_def wire_key_def)
qed

lemma wire_active:
  "active_friend (wire_friends ''B'') (JStr (fr_id (sp_guest wire_pair))) (Some (fr_peer (sp_guest wire_pair))) = Inr (sp_guest wire_pair)"
  "active_friend (wire_friends ''A'') (JStr (fr_id (sp_host wire_pair))) (Some (fr_peer (sp_host wire_pair))) = Inr (sp_host wire_pair)"
  by (simp_all add: active_friend_def list_identity_def keyed_friends_def keyed_friend_def demo_friend_def keyed_pair_def demo_hex_def hex_text_def list_all_iff is_lower_hex_def)

definition wire_args :: "(string, json) dict" where "wire_args = [(''id'', JStr (sp_list demo_pair))]"

definition wire_asked :: json where
  "wire_asked = plain_request wire_pair (demo_hex (CHR ''1'')) ''accept'' wire_args"

definition wire_accepted :: shared_list where
  "wire_accepted = demo_row\<lparr>ls_status := ''active'', ls_revision := 2\<rparr>"

lemma wire_served:
  "list_mutate (sp_owner wire_pair) (serve_list (sp_owner wire_pair) (wire_friends ''B'') (sp_guest wire_pair) (canon wire_asked)) [(sp_list demo_pair, demo_row)]
     = Inr ([(sp_list demo_pair, wire_accepted)], list_snapshot wire_accepted)"
proof -
  have f: "jitem k (canon wire_asked) = Inr (canon v)" "jfield k (canon wire_asked) = canon v" if "jget k wire_asked = Some v" for k v
    using that by (simp_all add: jitem_Inr jfield_def jget_canon)
  have fields: "jitem ''action'' (canon wire_asked) = Inr (JStr ''accept'')" "jfield ''id'' (canon wire_asked) = JStr (sp_list demo_pair)"
    by (subst f, simp add: wire_asked_def plain_request_def list_request_def wire_args_def jget_def, simp)+
  have hex: "hex_text 32 (sp_list demo_pair)" by (simp add: demo_pair_def demo_hex_def hex_text_def list_all_iff is_lower_hex_def)
  have "owner_row (sp_owner wire_pair) (wire_friends ''B'') [(sp_list demo_pair, demo_row)] (JStr (sp_list demo_pair)) (fr_peer (sp_guest wire_pair)) False = Inr demo_row"
    using wire_active(1) hex by (simp add: owner_row_def list_identity_def) (simp add: demo_row_def keyed_pair_def keyed_friend_def demo_friend_def demo_node_def)
  then have "serve_list (sp_owner wire_pair) (wire_friends ''B'') (sp_guest wire_pair) (canon wire_asked) [(sp_list demo_pair, demo_row)]
      = Inr ([(sp_list demo_pair, wire_accepted)], list_snapshot wire_accepted)"
    by (simp add: serve_list_def fields) (simp add: accept_row_def wire_accepted_def demo_row_def keyed_pair_def keyed_friend_def demo_friend_def)
  then show ?thesis by (simp add: list_mutate_def) (simp add: wire_accepted_def demo_row_def keyed_pair_def demo_node_def)
qed

lemma wire_replied:
  "plain_answer wire_pair (wire_friends ''B'') [(sp_list demo_pair, demo_row)] wire_asked
     = JObj [(''version'', JStr LIST_WIRE), (''request_id'', JStr (demo_hex (CHR ''1''))), (''relationship_id'', JStr (demo_hex (CHR ''b''))), (''result'', list_snapshot wire_accepted)]"
proof -
  have "jfield ''request_id'' (canon wire_asked) = JStr (demo_hex (CHR ''1''))" using plain_request_fields(2) by (simp add: jfield_def wire_asked_def)
  then show ?thesis unfolding plain_answer_def wire_served by (simp add: answer_base_def) (simp add: keyed_pair_def keyed_friend_def demo_friend_def)
qed

lemma wire_ok_sizes:
  "json_ok wire_asked" "length (canonical_json wire_asked) \<le> 8192"
  "json_ok (plain_answer wire_pair (wire_friends ''B'') [(sp_list demo_pair, demo_row)] wire_asked)"
  "length (canonical_json (plain_answer wire_pair (wire_friends ''B'') [(sp_list demo_pair, demo_row)] wire_asked)) \<le> MAX_WIRE"
  "jsize (plain_answer wire_pair (wire_friends ''B'') [(sp_list demo_pair, demo_row)] wire_asked) \<le> 4000"
proof -
  show "json_ok wire_asked" by (simp add: wire_asked_def plain_request_def list_request_def wire_args_def dict_ok_def)
  have "jsize wire_asked \<le> 4000"
    by (simp add: wire_asked_def plain_request_def list_request_def wire_args_def keyed_pair_def keyed_friend_def demo_pair_def demo_node_def demo_friend_def demo_hex_def LIST_WIRE_def)
  then show "length (canonical_json wire_asked) \<le> 8192" using length_canonical [of wire_asked] by simp
  let ?a = "plain_answer wire_pair (wire_friends ''B'') [(sp_list demo_pair, demo_row)] wire_asked"
  show "json_ok ?a" unfolding wire_replied by (simp add: list_snapshot_def wire_accepted_def demo_row_def dict_ok_def)
  show "jsize ?a \<le> 4000"
    unfolding wire_replied by (simp add: list_snapshot_def wire_accepted_def demo_row_def demo_hex_def LIST_WIRE_def show_ones)
  then show "length (canonical_json ?a) \<le> MAX_WIRE" using length_canonical [of ?a] by (simp add: MAX_WIRE_def)
qed

text \<open>The body is taken to be the canonical form of the value.\<close>

definition wire_body :: "json \<Rightarrow> nat" where "wire_body j = length (canonical_json j)"

lemma sealed_body:
  assumes "nd_box (sp_owner P) = plain_box" "length nonce = 12" "jsize (plain_answer P F S request) \<le> 4000"
  shows "wire_body (sealed_answer P F nonce S request) \<le> MAX_WIRE"
proof -
  let ?plain = "canonical_json (plain_answer P F S request)"
  have l: "length ?plain \<le> 8000" using length_canonical [of "plain_answer P F S request"] assms(3) by simp
  have k: "length (hkdf plain_box i x) = 32" for i x using box_law_parts(2) [OF plain_laws(2)] .
  show ?thesis
  proof (cases "seal_box plain_box (nd_key (sp_owner P)) (fr_pub (sp_guest P)) ?plain LIST_CHANNEL nonce")
    case (Inl e)
    then show ?thesis using length_canonical [of JNull] by (simp add: wire_body_def sealed_answer_def seal_list_def assms(1) MAX_WIRE_def)
  next
    case (Inr r)
    obtain n c where r: "r = (n, c)" by (cases r)
    have "length n \<le> 28" "length c \<le> 16100"
      using Inr l k assms(2) by (auto simp: r seal_box_def shared_key_def guard_simps plain_box_def intro: order_trans [OF length_b64_text])
    then have "jsize (JObj [(''nonce'', JStr n), (''ciphertext'', JStr c)]) \<le> 100000" by simp
    then show ?thesis using Inr length_canonical [of "JObj [(''nonce'', JStr n), (''ciphertext'', JStr c)]"]
      by (simp add: wire_body_def sealed_answer_def seal_list_def assms(1) r MAX_WIRE_def)
  qed
qed

theorem sealed_request_answered_witness:
  "\<exists>answer. request_list (sp_member wire_pair) (wire_friends ''A'') (sp_host wire_pair) (demo_hex (CHR ''1'')) (replicate 12 (CHR ''n''))
      (wire_to_owner wire_pair (wire_friends ''B'') wire_body (replicate 12 (CHR ''m'')) [(sp_list demo_pair, demo_row)]) ''accept'' wire_args = Inr answer
    \<and> jfield ''status'' answer = JStr ''active''"
proof -
  let ?S = "[(sp_list demo_pair, demo_row)]" and ?m = "replicate 12 (CHR ''m'')"
  have nonces: "box_nonce (replicate 12 (CHR ''n''))" "box_nonce ?m" by (simp_all add: box_nonce_def)
  have hex: "hex_text 32 (demo_hex (CHR ''1''))" by (simp add: demo_hex_def hex_text_def list_all_iff is_lower_hex_def)
  have body: "wire_body (sealed_answer wire_pair (wire_friends ''B'') ?m ?S wire_asked) \<le> MAX_WIRE"
    by (rule sealed_body) (simp_all add: wire_ok_sizes(5), simp add: keyed_pair_def demo_pair_def demo_node_def)
  have "member_gets wire_pair (wire_friends ''B'') wire_body (demo_hex (CHR ''1'')) ?m ?S ''accept'' wire_args = Inr (canon (list_snapshot wire_accepted))"
    using wire_ok_sizes(2,4) body wire_served by (simp add: member_gets_def flip: wire_asked_def)
  moreover have "jfield ''status'' (canon (list_snapshot wire_accepted)) = JStr ''active''"
    by (simp add: jfield_def jget_canon) (simp add: list_snapshot_def jget_def wire_accepted_def)
  ultimately show ?thesis
    using sealed_request_answered [OF wire_pair_ok nonces hex wire_active wire_ok_sizes(1,3) [unfolded wire_asked_def], of wire_body] by simp
qed

text \<open>The two edits that wait in the member's queue, and the answer to the first.\<close>

definition keyed_waiting :: "string \<Rightarrow> string \<Rightarrow> shared_world" where
  "keyed_waiting key pub = shared_run (keyed_pair key pub) (shared_start [(sp_list demo_pair, demo_row)] []) (take 5 demo_events)"

definition keyed_edit :: "string \<Rightarrow> string \<Rightarrow> json" where
  "keyed_edit key pub = plain_request (keyed_pair key pub) (demo_hex (CHR ''1'')) ''edit'' [(''id'', JStr (sp_list (keyed_pair key pub))), (''operation'', op_json demo_op)]"

definition wire_edited :: shared_list where
  "wire_edited = demo_row\<lparr>ls_status := ''active'', ls_revision := 3,
     ls_items := [(demo_hex (CHR ''e''), item_json (demo_hex (CHR ''e'')) ''T'' (''http:'' @ [CHR 0x2F, CHR 0x2F] @ ''x'') ''B'' [] False)],
     ls_receipts := [(''B'', (1, list_digest (demo_node ''A'') (op_json demo_op)))]\<rparr>"

lemma keyed_created:
  "create_list (sp_owner (keyed_pair key pub)) (keyed_friends pub ''B'') (JStr (demo_hex (CHR ''b''))) (JStr ''L'') (JStr (sp_list (keyed_pair key pub))) []
     = Inr ([(sp_list demo_pair, demo_row)], demo_row)"
  by code_simp

lemma keyed_waits:
  "let W = keyed_waiting key pub in (length (sw_member W) \<le> 32 \<and> (case map_of (sw_member W) (sp_list (keyed_pair key pub)) of None \<Rightarrow> False
     | Some row \<Rightarrow> (case ls_pending row of [] \<Rightarrow> False | op # rest \<Rightarrow> op = demo_op \<and> map eo_action rest = [''remove''])))"
  by code_simp

lemma keyed_answered:
  "case list_mutate (sp_owner (keyed_pair key pub)) (serve_list (sp_owner (keyed_pair key pub)) (keyed_friends pub ''B'') (sp_guest (keyed_pair key pub)) (canon (keyed_edit key pub)))
      (sw_owner (keyed_waiting key pub)) of Inl _ \<Rightarrow> False | Inr r \<Rightarrow> snd r = list_snapshot wire_edited"
  by code_simp

lemma wire_started: "list_started wire_pair [(sp_list demo_pair, demo_row)] []"
  unfolding list_started_def using wire_pair_ok keyed_created
  by (intro conjI exI [of _ "wire_friends ''B''"] exI [of _ "JStr (demo_hex (CHR ''b''))"] exI [of _ "JStr ''L''"] exI [of _ "[]"] exI [of _ demo_row])
    (simp_all add: demo_row_def keyed_pair_def demo_pair_def demo_node_def keyed_friend_def demo_friend_def)

abbreviation wire_waiting :: shared_world where
  "wire_waiting \<equiv> keyed_waiting wire_key (public_key_b64 plain_box wire_key)"

abbreviation wire_edit :: json where
  "wire_edit \<equiv> keyed_edit wire_key (public_key_b64 plain_box wire_key)"

lemma edit_replied:
  "plain_answer wire_pair (wire_friends ''B'') (sw_owner wire_waiting) wire_edit
     = JObj [(''version'', JStr LIST_WIRE), (''request_id'', JStr (demo_hex (CHR ''1''))), (''relationship_id'', JStr (demo_hex (CHR ''b''))), (''result'', list_snapshot wire_edited)]"
proof -
  have "jfield ''request_id'' (canon wire_edit) = JStr (demo_hex (CHR ''1''))" using plain_request_fields(2) by (simp add: jfield_def keyed_edit_def)
  then show ?thesis using keyed_answered [of wire_key "public_key_b64 plain_box wire_key"]
    by (auto simp: plain_answer_def answer_base_def keyed_pair_def keyed_friend_def demo_friend_def split: sum.splits prod.splits)
qed

lemma edit_sizes:
  "json_ok wire_edit" "length (canonical_json wire_edit) \<le> 8192"
  "json_ok (plain_answer wire_pair (wire_friends ''B'') (sw_owner wire_waiting) wire_edit)"
  "jsize (plain_answer wire_pair (wire_friends ''B'') (sw_owner wire_waiting) wire_edit) \<le> 4000"
proof -
  show "json_ok wire_edit" by (simp add: keyed_edit_def plain_request_def list_request_def op_json_def demo_op_def demo_add_def dict_ok_def)
  have "jsize wire_edit \<le> 4000"
    by (simp add: keyed_edit_def plain_request_def list_request_def op_json_def demo_op_def demo_add_def keyed_pair_def keyed_friend_def demo_pair_def demo_node_def
        demo_friend_def demo_hex_def LIST_WIRE_def show_ones)
  then show "length (canonical_json wire_edit) \<le> 8192" using length_canonical [of wire_edit] by simp
  have d: "length (list_digest (demo_node ''A'') (op_json demo_op)) = 64" "length (show_int 3) = 1"
    by (simp_all add: list_digest_def demo_node_def demo_sync_def show_int_def show_nat.simps)
  show "json_ok (plain_answer wire_pair (wire_friends ''B'') (sw_owner wire_waiting) wire_edit)"
    unfolding edit_replied by (simp add: list_snapshot_def wire_edited_def demo_row_def item_json_def receipt_dict_def dict_ok_def)
  show "jsize (plain_answer wire_pair (wire_friends ''B'') (sw_owner wire_waiting) wire_edit) \<le> 4000"
    unfolding edit_replied using d by (simp add: list_snapshot_def wire_edited_def demo_row_def item_json_def receipt_dict_def demo_hex_def LIST_WIRE_def show_ones)
qed

theorem sync_confirms_witness:
  "\<exists>M' row'. sync_list (sp_member wire_pair) (wire_friends ''A'') (request_list (sp_member wire_pair) (wire_friends ''A'') (sp_host wire_pair) (demo_hex (CHR ''1''))
        (replicate 12 (CHR ''n'')) (wire_to_owner wire_pair (wire_friends ''B'') wire_body (replicate 12 (CHR ''m'')) (sw_owner wire_waiting)))
        (JStr (sp_list wire_pair)) (sw_member wire_waiting) = (Inr (), M')
     \<and> map_of M' (sp_list wire_pair) = Some row' \<and> (ls_status row' = ''closed'' \<or> map eo_action (ls_pending row') = [''remove''])"
proof -
  let ?W = wire_waiting and ?m = "replicate 12 (CHR ''m'')" and ?n = "replicate 12 (CHR ''n'')"
  have nonces: "box_nonce ?n" "box_nonce ?m" by (simp_all add: box_nonce_def)
  have hex: "hex_text 32 (demo_hex (CHR ''1''))" "hex_text 32 (sp_list wire_pair)"
    by (simp_all add: demo_hex_def keyed_pair_def demo_pair_def hex_text_def list_all_iff is_lower_hex_def)
  obtain row op rest where row: "map_of (sw_member ?W) (sp_list wire_pair) = Some row" "ls_pending row = op # rest" "length (sw_member ?W) \<le> 32"
    and op: "op = demo_op" and rest: "map eo_action rest = [''remove'']"
    using keyed_waits [of wire_key "public_key_b64 plain_box wire_key"] by (auto simp: Let_def split: option.splits list.splits)
  have run: "?W = shared_run wire_pair (shared_start [(sp_list demo_pair, demo_row)] []) (take 5 demo_events)" by (simp add: keyed_waiting_def)
  have req: "wire_edit = plain_request wire_pair (demo_hex (CHR ''1'')) ''edit'' [(''id'', JStr (sp_list wire_pair)), (''operation'', op_json op)]"
    by (simp add: keyed_edit_def op)
  obtain T answer where serve: "list_mutate (sp_owner wire_pair) (serve_list (sp_owner wire_pair) (wire_friends ''B'') (sp_guest wire_pair) (canon wire_edit)) (sw_owner ?W) = Inr (T, answer)"
    using keyed_answered [of wire_key "public_key_b64 plain_box wire_key"] by (auto split: sum.splits)
  have fits: "nd_fits (sp_member wire_pair) M = True" for M by (simp add: keyed_pair_def demo_node_def)
  have body: "wire_body (sealed_answer wire_pair (wire_friends ''B'') ?m (sw_owner ?W) wire_edit) \<le> MAX_WIRE"
    by (rule sealed_body) (simp_all add: edit_sizes(4), simp add: keyed_pair_def demo_node_def)
  have short: "length (canonical_json (plain_answer wire_pair (wire_friends ''B'') (sw_owner ?W) wire_edit)) \<le> MAX_WIRE"
    using length_canonical [of "plain_answer wire_pair (wire_friends ''B'') (sw_owner ?W) wire_edit"] edit_sizes(4) by (simp add: MAX_WIRE_def)
  obtain M' row' where "map_of M' (sp_list wire_pair) = Some row'" "if ls_status row' = ''closed'' then ls_pending row' = [] \<and> ls_cancelled row' = rest else ls_pending row' = rest"
    "sync_list (sp_member wire_pair) (wire_friends ''A'') (request_list (sp_member wire_pair) (wire_friends ''A'') (sp_host wire_pair) (demo_hex (CHR ''1''))
        ?n (wire_to_owner wire_pair (wire_friends ''B'') wire_body ?m (sw_owner ?W))) (JStr (sp_list wire_pair)) (sw_member ?W) = (Inr (), M')"
    using sync_confirms [where body = wire_body, OF wire_started run wire_pair_ok(2) nonces hex row wire_active req serve edit_sizes(1,3,2) body short refl] unfolding fits if_True by blast
  then show ?thesis using rest by (auto split: if_splits)
qed

end
