(* ===== verification/Grants.thy ===== *)
theory Grants
  imports Shared_Reading
begin

section \<open>AI access grants\<close>

text \<open>
  \<open>src/rynmesh/ai_access/store.py\<close>: which friend may use which AI service of this node. A grant is a row of the JSON file under a digest of service
  and relationship; the state is the decoded \<open>grants\<close> object, and \<open>read_grants\<close> makes the checks of \<open>_read\<close> on it. The friendships are the
  function \<open>friends\<close>, which may change between calls; a relationship without status or peer is none. Whether the written file fits its limit is the
  argument \<open>fits\<close>. A method that raises writes nothing. Fields of a row that the store itself never writes are not kept.
\<close>

record grant =
  gr_service :: string
  gr_relationship :: string
  gr_peer :: string
  gr_allowed :: bool
  gr_revision :: int

type_synonym grants = "(string, grant) dict"

definition service_char :: "char \<Rightarrow> bool" where
  "service_char c \<longleftrightarrow> (CHR ''a'' \<le> c \<and> c \<le> CHR ''z'') \<or> (CHR ''0'' \<le> c \<and> c \<le> CHR ''9'')"

definition service_name :: "string \<Rightarrow> bool" where
  "service_name s \<longleftrightarrow> (case s of [] \<Rightarrow> False | c # cs \<Rightarrow> service_char c \<and> length cs \<le> 127
     \<and> list_all (\<lambda>c. service_char c \<or> c = CHR ''_'' \<or> c = CHR ''.'' \<or> c = CHR ''-'') cs)"

definition rule_key :: "crypto \<Rightarrow> json \<Rightarrow> json \<Rightarrow> py_error + string" where
  "rule_key C service rel = (case service of JStr s \<Rightarrow> require (service_name s) (Raised ''ai_service_invalid'') (
       case rel of JStr r \<Rightarrow> require (hex_text 32 r) (Raised ''ai_relationship_invalid'') (Inr (sha256 C (utf8 (s @ [CHR 0x00] @ r))))
       | _ \<Rightarrow> Inl (Raised ''ai_relationship_invalid''))
     | _ \<Rightarrow> Inl (Raised ''ai_service_invalid''))"

definition read_grant :: "crypto \<Rightarrow> string \<times> grant \<Rightarrow> py_error + unit" where
  "read_grant C entry = (let row = snd entry in
     require (1 \<le> gr_revision row \<and> 1 \<le> length (gr_peer row) \<and> length (gr_peer row) \<le> 128) (Raised ''ai_permissions_unreadable'') (
     bnd (rule_key C (JStr (gr_service row)) (JStr (gr_relationship row))) (\<lambda>key.
     require (fst entry = key) (Raised ''ai_permissions_unreadable'') (Inr ()))))"

definition read_grants :: "crypto \<Rightarrow> grants \<Rightarrow> py_error + grants" where
  "read_grants C S = bnd (check_all (read_grant C) S) (\<lambda>_. Inr S)"

definition friend_active :: "friends \<Rightarrow> string \<Rightarrow> bool" where
  "friend_active F r = (case F r of None \<Rightarrow> False | Some f \<Rightarrow> fr_status f = ''active'')"

text \<open>A row as it is shown: with whether it is in force.\<close>

definition public_grant :: "friends \<Rightarrow> grant \<Rightarrow> grant \<times> bool" where
  "public_grant F row = (row, gr_allowed row \<and> (case F (gr_relationship row) of None \<Rightarrow> False
     | Some f \<Rightarrow> fr_status f = ''active'' \<and> fr_peer f = gr_peer row))"

definition list_grants :: "crypto \<Rightarrow> friends \<Rightarrow> grants \<Rightarrow> py_error + (grant \<times> bool) list" where
  "list_grants C F S = bnd (read_grants C S) (\<lambda>d. Inr (map (public_grant F) (dict_vals d)))"

definition get_grant :: "crypto \<Rightarrow> friends \<Rightarrow> json \<Rightarrow> json \<Rightarrow> grants \<Rightarrow> py_error + (grant \<times> bool) option" where
  "get_grant C F service rel S = bnd (rule_key C service rel) (\<lambda>key. bnd (read_grants C S) (\<lambda>d. Inr (map_option (public_grant F) (map_of d key))))"

definition revision_of :: "grant option \<Rightarrow> int" where
  "revision_of prior = (case prior of None \<Rightarrow> 0 | Some p \<Rightarrow> gr_revision p)"

definition write_grant :: "friends \<Rightarrow> (grants \<Rightarrow> bool) \<Rightarrow> string \<Rightarrow> string \<Rightarrow> string \<Rightarrow> bool \<Rightarrow> int \<Rightarrow> grants \<Rightarrow> py_error + (grants \<times> (grant \<times> bool))" where
  "write_grant F fits key s r allowed expected d = (let prior = map_of d key in
     require (prior \<noteq> None \<or> length d < 5000) (Raised ''ai_permission_capacity_exhausted'') (
     bnd (case prior of Some p \<Rightarrow> Inr (gr_peer p) | None \<Rightarrow> bnd (opt_or TypeError (F r)) (\<lambda>f. Inr (fr_peer f))) (\<lambda>peer.
     require (allowed \<longrightarrow> (case F r of Some f \<Rightarrow> fr_peer f = peer | None \<Rightarrow> False)) (Raised ''ai_relationship_invalid'') (
     let row = \<lparr>gr_service = s, gr_relationship = r, gr_peer = peer, gr_allowed = allowed, gr_revision = expected + 1\<rparr>; T = dict_put key row d in
     require (fits T) ValueError (Inr (T, public_grant F row))))))"

definition set_grant :: "crypto \<Rightarrow> friends \<Rightarrow> (grants \<Rightarrow> bool) \<Rightarrow> json \<Rightarrow> json \<Rightarrow> json \<Rightarrow> json \<Rightarrow> grants \<Rightarrow> py_error + (grants \<times> (grant \<times> bool))" where
  "set_grant C F fits service rel allowed expected S =
     bnd (rule_key C service rel) (\<lambda>key.
     case (allowed, expected) of
       (JBool allow, JInt n) \<Rightarrow> require (0 \<le> n) (Raised ''ai_permission_request_invalid'') (
         bnd (read_grants C S) (\<lambda>d. let prior = map_of d key; r = py_str rel in
         require (allow \<longrightarrow> friend_active F r) (Raised ''ai_friend_inactive'') (
         require (prior \<noteq> None \<or> F r \<noteq> None) (Raised ''ai_friend_inactive'') (
         if (case prior of None \<Rightarrow> False | Some p \<Rightarrow> gr_revision p = n + 1 \<and> gr_allowed p = allow) then Inr (S, public_grant F (the prior))
         else require (revision_of prior = n) (Raised ''ai_permission_revision_conflict'') (
           if (case prior of None \<Rightarrow> False | Some p \<Rightarrow> gr_allowed p = allow) then Inr (S, public_grant F (the prior))
           else write_grant F fits key (py_str service) r allow n d)))))
     | _ \<Rightarrow> Inl (Raised ''ai_permission_request_invalid''))"

definition authorize :: "crypto \<Rightarrow> friends \<Rightarrow> string \<Rightarrow> json \<Rightarrow> json \<Rightarrow> grants \<Rightarrow> py_error + (string \<times> int)" where
  "authorize C F peer service permission S =
     (case jfield ''revision'' permission of
        JInt n \<Rightarrow> require (is_obj permission) (Raised ''ai_permission_required'') (
          bnd (rule_key C service (jfield ''relationship_id'' permission)) (\<lambda>key.
          bnd (read_grants C S) (\<lambda>d.
          bnd (opt_or (Raised ''ai_permission_denied'') (map_of d key)) (\<lambda>row.
          require (gr_peer row = peer \<and> gr_allowed row) (Raised ''ai_permission_denied'') (
          require (gr_revision row = n) (Raised ''ai_permission_revoked'') (
          require (case F (gr_relationship row) of None \<Rightarrow> False | Some f \<Rightarrow> fr_status f = ''active'' \<and> fr_peer f = peer) (Raised ''ai_friend_inactive'') (
          Inr (gr_relationship row, gr_revision row))))))))
      | _ \<Rightarrow> Inl (Raised ''ai_permission_required''))"

subsection \<open>The grants over time\<close>

record grant_call =
  gc_friends :: friends
  gc_service :: json
  gc_relationship :: json
  gc_allowed :: json
  gc_expected :: json

definition grant_step :: "crypto \<Rightarrow> (grants \<Rightarrow> bool) \<Rightarrow> grants \<Rightarrow> grant_call \<Rightarrow> py_error + grants" where
  "grant_step C fits S c = bnd (set_grant C (gc_friends c) fits (gc_service c) (gc_relationship c) (gc_allowed c) (gc_expected c) S) (\<lambda>(T, _). Inr T)"

definition grants_ok :: "crypto \<Rightarrow> grants \<Rightarrow> bool" where
  "grants_ok C S \<longleftrightarrow> (\<forall>key row. map_of S key = Some row \<longrightarrow> 1 \<le> gr_revision row
     \<and> rule_key C (JStr (gr_service row)) (JStr (gr_relationship row)) = Inr key)"

lemma set_grant_cases:
  assumes "set_grant C F fits service rel allowed expected S = Inr (T, shown)"
  obtains (same) "T = S"
    | (written) key allow n row where "rule_key C service rel = Inr key" "allowed = JBool allow" "expected = JInt n" "0 \<le> n" "revision_of (map_of S key) = n"
      "T = dict_put key row S" "gr_service row = py_str service" "gr_relationship row = py_str rel" "gr_allowed row = allow" "gr_revision row = n + 1"
      "case map_of S key of None \<Rightarrow> True | Some p \<Rightarrow> gr_peer row = gr_peer p \<and> gr_allowed p \<noteq> allow"
proof -
  obtain key where key: "rule_key C service rel = Inr key" using assms unfolding set_grant_def bnd_Inr by blast
  note body = assms [unfolded set_grant_def key bnd_simps]
  obtain allow n where a: "allowed = JBool allow" "expected = JInt n"
    using body by (auto split: json.splits)
  note rest = body [unfolded a prod.case json.case require_Inr bnd_Inr Let_def]
  then obtain d where d: "0 \<le> n" "read_grants C S = Inr d"
    and tail: "if (case map_of d key of None \<Rightarrow> False | Some p \<Rightarrow> gr_revision p = n + 1 \<and> gr_allowed p = allow) then Inr (S, public_grant F (the (map_of d key))) = Inr (T, shown)
      else revision_of (map_of d key) = n \<and> (if (case map_of d key of None \<Rightarrow> False | Some p \<Rightarrow> gr_allowed p = allow) then Inr (S, public_grant F (the (map_of d key))) = Inr (T, shown)
           else write_grant F fits key (py_str service) (py_str rel) allow n d = Inr (T, shown))"
    by (auto simp: require_Inr split: if_splits)
  have "d = S" using d(2) by (auto simp: read_grants_def bnd_Inr)
  show thesis
  proof (cases "(case map_of S key of None \<Rightarrow> False | Some p \<Rightarrow> gr_revision p = n + 1 \<and> gr_allowed p = allow) \<or> (case map_of S key of None \<Rightarrow> False | Some p \<Rightarrow> gr_allowed p = allow)")
    case True
    with tail \<open>d = S\<close> same show ?thesis by (auto split: if_splits)
  next
    case False
    with tail \<open>d = S\<close> have r: "revision_of (map_of S key) = n" and w: "write_grant F fits key (py_str service) (py_str rel) allow n S = Inr (T, shown)" by auto
    from w obtain peer where p: "(case map_of S key of Some p \<Rightarrow> Inr (gr_peer p) | None \<Rightarrow> bnd (opt_or TypeError (F (py_str rel))) (\<lambda>f. Inr (fr_peer f))) = Inr peer"
      and t: "T = dict_put key \<lparr>gr_service = py_str service, gr_relationship = py_str rel, gr_peer = peer, gr_allowed = allow, gr_revision = n + 1\<rparr> S"
      unfolding write_grant_def Let_def require_Inr bnd_Inr by blast
    have "case map_of S key of None \<Rightarrow> True | Some p \<Rightarrow> peer = gr_peer p \<and> gr_allowed p \<noteq> allow" using p False by (auto split: option.splits)
    then show ?thesis using written [OF key a d(1) r t] by (cases "map_of S key") simp_all
  qed
qed

lemma rule_key_str: "rule_key C service rel = Inr key \<Longrightarrow> service = JStr (py_str service) \<and> rel = JStr (py_str rel)"
  by (cases service; cases rel) (auto simp: rule_key_def guard_simps)

lemma grant_step_ok:
  assumes "grants_ok C S" "grant_step C fits S c = Inr T"
  shows "grants_ok C T"
proof -
  obtain shown where "set_grant C (gc_friends c) fits (gc_service c) (gc_relationship c) (gc_allowed c) (gc_expected c) S = Inr (T, shown)"
    using assms(2) by (auto simp: grant_step_def bnd_Inr)
  then show ?thesis
  proof (cases rule: set_grant_cases)
    case (written key allow n row)
    have "rule_key C (JStr (gr_service row)) (JStr (gr_relationship row)) = Inr key"
      using rule_key_str [OF written(1)] written(1,7,8) by metis
    with written assms(1) show ?thesis by (auto simp: grants_ok_def)
  qed (use assms(1) in simp)
qed

interpretation access: guarded_machine "grant_step C fits" "grants_ok C" for C fits
  by unfold_locales (rule grant_step_ok)

text \<open>How a row develops: its revision counts the changes of its permission, and its peer stays.\<close>

definition grant_later :: "grants \<Rightarrow> grants \<Rightarrow> bool" where
  "grant_later S T \<longleftrightarrow> (\<forall>key row. map_of S key = Some row \<longrightarrow> (\<exists>row'. map_of T key = Some row' \<and> gr_peer row' = gr_peer row
     \<and> gr_revision row \<le> gr_revision row' \<and> (gr_revision row' = gr_revision row \<longrightarrow> gr_allowed row' = gr_allowed row)))"

lemma grant_later_refl: "grant_later S S"
  by (auto simp: grant_later_def)

lemma grant_later_trans: "grant_later S T \<Longrightarrow> grant_later T U \<Longrightarrow> grant_later S U"
proof -
  assume st: "grant_later S T" and tu: "grant_later T U"
  show ?thesis unfolding grant_later_def
  proof (intro allI impI)
    fix key row assume "map_of S key = Some row"
    then obtain row1 where r: "map_of T key = Some row1" "gr_peer row1 = gr_peer row" "gr_revision row \<le> gr_revision row1"
      "gr_revision row1 = gr_revision row \<longrightarrow> gr_allowed row1 = gr_allowed row" using st unfolding grant_later_def by blast
    then obtain row2 where "map_of U key = Some row2" "gr_peer row2 = gr_peer row1" "gr_revision row1 \<le> gr_revision row2"
      "gr_revision row2 = gr_revision row1 \<longrightarrow> gr_allowed row2 = gr_allowed row1" using tu unfolding grant_later_def by blast
    with r show "\<exists>row'. map_of U key = Some row' \<and> gr_peer row' = gr_peer row \<and> gr_revision row \<le> gr_revision row'
       \<and> (gr_revision row' = gr_revision row \<longrightarrow> gr_allowed row' = gr_allowed row)" by (intro exI [of _ row2]) auto
  qed
qed

lemma grant_step_later:
  assumes "grant_step C fits S c = Inr T"
  shows "grant_later S T"
proof -
  obtain shown where "set_grant C (gc_friends c) fits (gc_service c) (gc_relationship c) (gc_allowed c) (gc_expected c) S = Inr (T, shown)"
    using assms by (auto simp: grant_step_def bnd_Inr)
  then show ?thesis
  proof (cases rule: set_grant_cases)
    case (written key allow n row)
    then show ?thesis by (auto simp: grant_later_def revision_of_def split: option.splits)
  qed (use grant_later_refl in simp)
qed

primrec grant_run :: "crypto \<Rightarrow> (grants \<Rightarrow> bool) \<Rightarrow> grants \<Rightarrow> grant_call list \<Rightarrow> grants" where
  "grant_run C fits S [] = S"
| "grant_run C fits S (c # cs) = grant_run C fits (case grant_step C fits S c of Inl _ \<Rightarrow> S | Inr T \<Rightarrow> T) cs"

lemma grant_run_eq: "grant_run C fits S cs = access.run C fits S cs"
  by (induction cs arbitrary: S) (simp_all add: access.attempt_def)

lemma grant_run_later: "grant_later S (grant_run C fits S cs)"
proof (induction cs arbitrary: S)
  case (Cons c cs)
  have "grant_later S (case grant_step C fits S c of Inl _ \<Rightarrow> S | Inr T \<Rightarrow> T)"
    by (auto intro: grant_step_later grant_later_refl split: sum.split)
  with Cons grant_later_trans show ?case by (metis grant_run.simps(2))
qed (simp add: grant_later_refl)

lemma authorized:
  assumes "authorize C F peer service permission S = Inr (r, n)"
  obtains key row where "rule_key C service (jfield ''relationship_id'' permission) = Inr key" "map_of S key = Some row" "gr_peer row = peer" "gr_allowed row"
    "gr_revision row = n" "jfield ''revision'' permission = JInt n" "gr_relationship row = r" "friend_active F r"
proof -
  obtain m where m: "jfield ''revision'' permission = JInt m" using assms by (auto simp: authorize_def split: json.splits)
  from assms [unfolded authorize_def m json.case require_Inr bnd_Inr opt_or_Inr] obtain key d row where
    "rule_key C service (jfield ''relationship_id'' permission) = Inr key" "read_grants C S = Inr d" "map_of d key = Some row" "gr_peer row = peer" "gr_allowed row" "gr_revision row = m"
    "case F (gr_relationship row) of None \<Rightarrow> False | Some f \<Rightarrow> fr_status f = ''active'' \<and> fr_peer f = peer" "gr_relationship row = r" "gr_revision row = n" by auto
  with m show thesis by (intro that [of key row]) (auto simp: read_grants_def bnd_Inr friend_active_def split: option.splits)
qed

text \<open>C14: A revoked permission stays revoked. When a grant is shown to be not in force, or to have another revision, no permission of an
  earlier or the same revision is accepted afterwards, whatever changes the owner makes and whatever the friendships are; and who is let in is always
  the peer the grant was first given to.\<close>

theorem revoked_stays_revoked:
  assumes "rule_key C service (jfield ''relationship_id'' permission) = Inr key" "map_of S key = Some row"
    "jfield ''revision'' permission = JInt n" "n < gr_revision row \<or> n = gr_revision row \<and> \<not> gr_allowed row"
  shows "(\<exists>e. authorize C F peer service permission (grant_run C fits S cs) = Inl e)
    \<and> (\<forall>G other ticket r m. authorize C G other service ticket (grant_run C fits S cs) = Inr (r, m)
         \<and> jfield ''relationship_id'' ticket = jfield ''relationship_id'' permission \<longrightarrow> other = gr_peer row)"
proof -
  let ?T = "grant_run C fits S cs"
  obtain row' where row': "map_of ?T key = Some row'" "gr_peer row' = gr_peer row" "gr_revision row \<le> gr_revision row'"
    "gr_revision row' = gr_revision row \<longrightarrow> gr_allowed row' = gr_allowed row"
    using grant_run_later [of S C fits cs] assms(2) unfolding grant_later_def by blast
  have "\<exists>e. authorize C F peer service permission ?T = Inl e"
  proof (cases "authorize C F peer service permission ?T")
    case (Inr out)
    then obtain r m where "authorize C F peer service permission ?T = Inr (r, m)" by (cases out) simp
    then show ?thesis by (rule authorized) (use assms row' in auto)
  qed simp
  moreover have "other = gr_peer row" if "authorize C G other service ticket ?T = Inr (r, m)" "jfield ''relationship_id'' ticket = jfield ''relationship_id'' permission" for G other ticket r m
    by (rule authorized [OF that(1)]) (use assms(1) row'(1,2) that(2) in auto)
  ultimately show ?thesis by blast
qed

definition grant_demo :: "bool \<Rightarrow> int \<Rightarrow> grant_call" where
  "grant_demo allow n = \<lparr>gc_friends = \<lambda>r. Some \<lparr>fr_id = r, fr_peer = ''B'', fr_status = ''active'', fr_name = [], fr_pub = []\<rparr>,
     gc_service = JStr ''s'', gc_relationship = JStr (replicate 32 (CHR ''a'')), gc_allowed = JBool allow, gc_expected = JInt n\<rparr>"

definition demo_ticket :: json where
  "demo_ticket = JObj [(''relationship_id'', JStr (replicate 32 (CHR ''a''))), (''revision'', JInt 1)]"

definition demo_revoked :: grants where
  "demo_revoked = grant_run demo_crypto (\<lambda>_. True) [] [grant_demo True 0, grant_demo False 1]"

lemma demo_granted: "authorize demo_crypto (gc_friends (grant_demo True 0)) ''B'' (JStr ''s'') demo_ticket (grant_run demo_crypto (\<lambda>_. True) [] [grant_demo True 0])
    = Inr (replicate 32 (CHR ''a''), 1)"
  by code_simp

lemma demo_revocation: "case rule_key demo_crypto (JStr ''s'') (jfield ''relationship_id'' demo_ticket) of Inl _ \<Rightarrow> False
    | Inr key \<Rightarrow> (case map_of demo_revoked key of None \<Rightarrow> False | Some row \<Rightarrow> gr_revision row = 2 \<and> \<not> gr_allowed row)"
  by code_simp

theorem revoked_stays_revoked_witness:
  "(\<exists>x. authorize demo_crypto (gc_friends (grant_demo True 0)) ''B'' (JStr ''s'') demo_ticket (grant_run demo_crypto (\<lambda>_. True) [] [grant_demo True 0]) = Inr x)
   \<and> (\<exists>e. authorize demo_crypto (gc_friends (grant_demo True 0)) ''B'' (JStr ''s'') demo_ticket (grant_run demo_crypto (\<lambda>_. True) demo_revoked [grant_demo True 2]) = Inl e)"
proof -
  obtain key row where k: "rule_key demo_crypto (JStr ''s'') (jfield ''relationship_id'' demo_ticket) = Inr key" "map_of demo_revoked key = Some row" "gr_revision row = 2"
    using demo_revocation by (auto split: sum.splits option.splits)
  have n: "jfield ''revision'' demo_ticket = JInt 1" by (simp add: demo_ticket_def jfield_def jget_def)
  have old: "1 < gr_revision row \<or> 1 = gr_revision row \<and> \<not> gr_allowed row" using k(3) by simp
  show ?thesis using revoked_stays_revoked [OF k(1,2) n old] demo_granted by blast
qed

lemma grants_reachable: "grants_ok C (grant_run C fits [] cs)"
  unfolding grant_run_eq by (rule access.run_inv) (simp add: grants_ok_def)

end
