(* ===== verification/Transit.thy ===== *)
theory Transit
  imports Json_Read Conversations "HOL-Library.Sublist"
begin

section \<open>Peer transit\<close>

text \<open>
  \<open>src/rynmesh/peer_transit.py\<close>: a source and a target exchange encrypted frames through one peer that forwards them without the key. Bytes are
  strings. X25519, HKDF, ChaCha20-Poly1305 and the raw SHA-256 come from libraries and are the fields of \<open>transit_lib\<close>; \<open>transit_law\<close> states what
  their documentation promises. A connection is the list of the frames that arrive on it, with what \<open>receive_bytes\<close> counts for each; when
  none is left, \<open>receive_bytes\<close> times out. A \<open>PeerTransitError\<close> is \<open>Raised\<close> with its message. Not modelled: evidence dicts and what reads
  them, the audit callback, and reading the route policy from the environment.
\<close>

record transit_lib =
  tl_crypto :: crypto
  tl_raw_hash :: "string \<Rightarrow> string"
  tl_public :: "string \<Rightarrow> string"
  tl_exchange :: "string \<Rightarrow> string \<Rightarrow> string option"
  tl_hkdf :: "string \<Rightarrow> string \<Rightarrow> string \<Rightarrow> string"
  tl_seal :: "string \<Rightarrow> string \<Rightarrow> string \<Rightarrow> string \<Rightarrow> string"
  tl_open :: "string \<Rightarrow> string \<Rightarrow> string \<Rightarrow> string \<Rightarrow> string option"

definition transit_law :: "transit_lib \<Rightarrow> bool" where
  "transit_law L \<longleftrightarrow> (\<forall>k n p a. tl_open L k n (tl_seal L k n p a) a = Some p \<and> length (tl_seal L k n p a) = length p + 16)
     \<and> (\<forall>k n c a p. tl_open L k n c a = Some p \<longrightarrow> c = tl_seal L k n p a)
     \<and> (\<forall>a. length a = 32 \<longrightarrow> length (tl_public L a) = 32)
     \<and> (\<forall>a b. length a = 32 \<and> length b = 32 \<longrightarrow> (\<exists>s. tl_exchange L a (tl_public L b) = Some s \<and> tl_exchange L b (tl_public L a) = Some s))"

definition PROTOCOL_VERSION :: string where "PROTOCOL_VERSION = ''rynmesh.peer-transit.v1''"
definition FRAME_MAGIC :: string where "FRAME_MAGIC = ''RYNTRN1'' @ [CHR 0x00]"
definition MAX_PLAINTEXT_BYTES :: nat where "MAX_PLAINTEXT_BYTES = 1024 * 1024"
definition TRANSIT_INFO :: string where "TRANSIT_INFO = ''rynmesh-peer-transit-v1''"

subsection \<open>Session ids and times\<close>

text \<open>\<open>uuid.UUID(hex=text)\<close>: prefixes, braces and hyphens are dropped, then \<open>int(text, 16)\<close> of what must be 32 characters.\<close>

function drop_all :: "string \<Rightarrow> string \<Rightarrow> string" where
  "drop_all p [] = []"
| "drop_all p (c # cs) = (if p \<noteq> [] \<and> take (length p) (c # cs) = p then drop_all p (drop (length p) (c # cs)) else c # drop_all p cs)"
  by pat_completeness auto
termination by (relation "measure (length \<circ> snd)") auto

definition strip_of :: "(char \<Rightarrow> bool) \<Rightarrow> string \<Rightarrow> string" where
  "strip_of P s = rev (dropWhile P (rev (dropWhile P s)))"

definition c_space :: "char \<Rightarrow> bool" where
  "c_space c \<longleftrightarrow> c = CHR '' '' \<or> (9 \<le> (of_char c :: nat) \<and> (of_char c :: nat) \<le> 13)"

fun hex_digits_ok :: "string \<Rightarrow> bool" where
  "hex_digits_ok [] = False"
| "hex_digits_ok [c] = is_hex c"
| "hex_digits_ok (c # d # cs) = (is_hex c \<and> (if d = CHR ''_'' then hex_digits_ok cs else hex_digits_ok (d # cs)))"

definition hex_number :: "string \<Rightarrow> nat option" where
  "hex_number s = (let ascii = list_all (\<lambda>c. (of_char c :: nat) < 128) s; t = strip_of (if ascii then c_space else py_isspace) s;
       u = (if t \<noteq> [] \<and> (hd t = CHR ''+'' \<or> hd t = CHR ''-'') then tl t else t);
       prefixed = take 2 u = ''0x'' \<or> take 2 u = ''0X''; d = (if prefixed then (if take 1 (drop 2 u) = ''_'' then drop 3 u else drop 2 u) else u) in
     if hex_digits_ok d then Some (foldl (\<lambda>a c. a * 16 + hex_code c) 0 (filter is_hex d)) else None)"

fun to_be :: "nat \<Rightarrow> nat \<Rightarrow> string" where
  "to_be 0 n = []"
| "to_be (Suc k) n = to_be k (n div 256) @ [char_of (n mod 256)]"

definition from_be :: "string \<Rightarrow> nat" where
  "from_be s = foldl (\<lambda>a c. a * 256 + of_char c) 0 s"

definition parse_session_id :: "string \<Rightarrow> py_error + string" where
  "parse_session_id text = (let h = filter (\<lambda>c. c \<noteq> CHR ''-'') (strip_of (\<lambda>c. c = CHR ''{'' \<or> c = CHR ''}'') (drop_all ''uuid:'' (drop_all ''urn:'' text))) in
     require (length h = 32) (Raised ''invalid transit session id'') (
     bnd (opt_or (Raised ''invalid transit session id'') (hex_number h)) (\<lambda>n. Inr (to_be 16 n))))"

definition hex_char :: "nat \<Rightarrow> char" where
  "hex_char d = (if d < 10 then char_of (48 + d) else char_of (87 + d))"

definition session_hex :: "string \<Rightarrow> string" where
  "session_hex bytes = concat (map (\<lambda>c. [hex_char (of_char c div 16), hex_char (of_char c mod 16)]) bytes)"

definition transit_time :: "string \<Rightarrow> py_error + int" where
  "transit_time text = (case utc_of (z_to_utc text) of Inl ValueError \<Rightarrow> Inl (Raised ''invalid transit expiry'') | r \<Rightarrow> r)"

subsection \<open>Opening a session\<close>

record session_open =
  so_session :: string
  so_source :: string
  so_target :: string
  so_ephemeral :: string
  so_expires :: string
  so_hops :: int
  so_version :: string
  so_created :: string

definition session_dict :: "session_open \<Rightarrow> (string, json) dict" where
  "session_dict s = [(''session_id'', JStr (so_session s)), (''source_peer_id'', JStr (so_source s)), (''target_peer_id'', JStr (so_target s)),
     (''source_ephemeral_pub'', JStr (so_ephemeral s)), (''expires_at'', JStr (so_expires s)), (''hop_limit'', JInt (so_hops s)),
     (''protocol_version'', JStr (so_version s)), (''created_at'', JStr (so_created s))]"

definition session_from :: "json \<Rightarrow> py_error + session_open" where
  "session_from j = bnd (jitem ''session_id'' j) (\<lambda>sid. bnd (jitem ''source_peer_id'' j) (\<lambda>src. bnd (jitem ''target_peer_id'' j) (\<lambda>tgt.
     bnd (jitem ''source_ephemeral_pub'' j) (\<lambda>eph. bnd (jitem ''expires_at'' j) (\<lambda>expires.
     bnd (case jget ''hop_limit'' j of None \<Rightarrow> Inr 0 | Some v \<Rightarrow> py_int v) (\<lambda>hops.
     Inr \<lparr>so_session = py_str sid, so_source = py_str src, so_target = py_str tgt, so_ephemeral = py_str eph, so_expires = py_str expires, so_hops = hops,
       so_version = (case jget ''protocol_version'' j of None \<Rightarrow> [] | Some v \<Rightarrow> py_str v), so_created = (case jget ''created_at'' j of None \<Rightarrow> [] | Some v \<Rightarrow> py_str v)\<rparr>))))))"

definition sign_session_open :: "transit_lib \<Rightarrow> session_open \<Rightarrow> string \<Rightarrow> signed_payload" where
  "sign_session_open L s key = sign_payload (tl_crypto L) (JObj ((''kind'', JStr ''peer_transit_session_open'') # session_dict s)) key"

text \<open>What is tried first: every failure but a \<open>PeerTransitError\<close> becomes one.\<close>

definition or_invalid :: "py_error + 'a \<Rightarrow> py_error + 'a" where
  "or_invalid r = (case r of Inl _ \<Rightarrow> Inl (Raised ''invalid signed transit session'') | Inr x \<Rightarrow> Inr x)"

definition read_session :: "transit_lib \<Rightarrow> signed_payload \<Rightarrow> py_error + session_open" where
  "read_session L envelope =
     bnd (or_invalid (verify_signed_payload (tl_crypto L) envelope)) (\<lambda>_.
     require (jget ''kind'' (sp_payload envelope) = Some (JStr ''peer_transit_session_open'')) (Raised ''invalid transit session kind'') (
     bnd (or_invalid (session_from (sp_payload envelope))) (\<lambda>session.
     bnd (parse_session_id (so_session session)) (\<lambda>_.
     bnd (or_invalid (opt_or ValueError (b64_bytes (so_ephemeral session)))) (\<lambda>pub.
     require (length pub = 32) (Raised ''invalid signed transit session'') (Inr session))))))"

definition verify_session_open :: "transit_lib \<Rightarrow> json \<Rightarrow> string \<Rightarrow> int \<Rightarrow> py_error + session_open" where
  "verify_session_open L signed expected_target now =
     bnd (from_dict signed) (\<lambda>envelope.
     bnd (read_session L envelope) (\<lambda>session.
     require (so_version session = PROTOCOL_VERSION) (Raised ''unsupported transit protocol version'') (
     require (so_source session = sp_public_key envelope) (Raised ''transit source identity/signature mismatch'') (
     require (expected_target = [] \<or> so_target session = expected_target) (Raised ''transit target identity mismatch'') (
     require (so_source session \<noteq> so_target session) (Raised ''transit source and target must differ'') (
     require (so_hops session = 1) (Raised ''peer transit requires hop_limit=1'') (
     bnd (transit_time (so_expires session)) (\<lambda>expires.
     require (now < expires) (Raised ''transit session expired'') (Inr session)))))))))"

definition derive_key :: "transit_lib \<Rightarrow> string \<Rightarrow> string \<Rightarrow> string \<Rightarrow> string \<Rightarrow> string \<Rightarrow> py_error + string" where
  "derive_key L private remote sid source target =
     (case b64_bytes remote of None \<Rightarrow> Inl (Raised ''invalid transit X25519 public key'')
      | Some pub \<Rightarrow> require (length pub = 32) (Raised ''invalid transit X25519 public key'') (
          let context = utf8 (PROTOCOL_VERSION @ [CHR 0x00] @ sid @ [CHR 0x00] @ source @ [CHR 0x00] @ target) in
          bnd (opt_or ValueError (tl_exchange L private pub)) (\<lambda>secret. Inr (tl_hkdf L (tl_raw_hash L context) TRANSIT_INFO secret))))"

subsection \<open>Frames\<close>

record frame_header =
  fh_session :: string
  fh_direction :: string
  fh_sequence :: nat
  fh_bytes :: nat
  fh_final :: bool

record cipher =
  tc_session :: string
  tc_source :: string
  tc_target :: string
  tc_bytes :: string
  tc_key :: string
  tc_next_send :: "(string, nat) dict"
  tc_next_receive :: "(string, nat) dict"

definition new_cipher :: "string \<Rightarrow> string \<Rightarrow> string \<Rightarrow> string \<Rightarrow> py_error + cipher" where
  "new_cipher sid source target key = bnd (parse_session_id sid) (\<lambda>bytes.
     Inr \<lparr>tc_session = sid, tc_source = source, tc_target = target, tc_bytes = bytes, tc_key = key,
       tc_next_send = [(''request'', 0), (''response'', 0)], tc_next_receive = [(''request'', 0), (''response'', 0)]\<rparr>)"

definition for_source :: "transit_lib \<Rightarrow> string \<Rightarrow> string \<Rightarrow> string \<Rightarrow> string \<Rightarrow> string \<Rightarrow> py_error + cipher" where
  "for_source L sid source target target_pub ephemeral =
     bnd (derive_key L ephemeral target_pub sid source target) (\<lambda>key. new_cipher sid source target key)"

definition for_target :: "transit_lib \<Rightarrow> session_open \<Rightarrow> string \<Rightarrow> py_error + cipher" where
  "for_target L s messaging_key =
     bnd (derive_key L messaging_key (so_ephemeral s) (so_session s) (so_source s) (so_target s)) (\<lambda>key.
     new_cipher (so_session s) (so_source s) (so_target s) key)"

definition direction_code :: "string \<Rightarrow> py_error + nat" where
  "direction_code direction = (if direction = ''request'' then Inr 1 else if direction = ''response'' then Inr 2
     else Inl (Raised ''invalid transit frame direction''))"

definition direction_name :: "nat \<Rightarrow> py_error + string" where
  "direction_name code = (if code = 1 then Inr ''request'' else if code = 2 then Inr ''response'' else Inl (Raised ''invalid transit frame direction''))"

definition frame_nonce :: "nat \<Rightarrow> nat \<Rightarrow> string" where
  "frame_nonce code n = (if code = 1 then ''REQ1'' else ''RES1'') @ to_be 8 n"

definition pack_header :: "string \<Rightarrow> nat \<Rightarrow> nat \<Rightarrow> nat \<Rightarrow> bool \<Rightarrow> string" where
  "pack_header bytes code n len final = FRAME_MAGIC @ bytes @ [char_of code] @ to_be 8 n @ to_be 4 len @ [if final then CHR 0x01 else CHR 0x00]"

definition associated_data :: "cipher \<Rightarrow> string \<Rightarrow> string" where
  "associated_data c header = PROTOCOL_VERSION @ [CHR 0x00] @ utf8 (tc_source c) @ [CHR 0x00] @ utf8 (tc_target c) @ [CHR 0x00] @ header"

definition next_of :: "(string, nat) dict \<Rightarrow> string \<Rightarrow> nat" where
  "next_of d direction = (case map_of d direction of None \<Rightarrow> 0 | Some n \<Rightarrow> n)"

definition seal_frame :: "transit_lib \<Rightarrow> string \<Rightarrow> string \<Rightarrow> bool \<Rightarrow> cipher \<Rightarrow> py_error + (string \<times> cipher)" where
  "seal_frame L direction plaintext final c =
     bnd (direction_code direction) (\<lambda>code.
     require (plaintext \<noteq> [] \<and> length plaintext \<le> MAX_PLAINTEXT_BYTES) (Raised ''transit plaintext frame size is invalid'') (
     let n = next_of (tc_next_send c) direction; header = pack_header (tc_bytes c) code n (length plaintext) final in
     require (n < 2 ^ 64) (Raised ''struct.error'') (
     Inr (header @ tl_seal L (tc_key c) (frame_nonce code n) plaintext (associated_data c header),
       c\<lparr>tc_next_send := dict_put direction (Suc n) (tc_next_send c)\<rparr>))))"

definition inspect_frame :: "string \<Rightarrow> py_error + frame_header" where
  "inspect_frame frame =
     require (54 \<le> length frame) (Raised ''short transit frame'') (
     let size = from_be (take 4 (drop 33 frame)); flags = (of_char (frame ! 37) :: nat) in
     require (take 8 frame = FRAME_MAGIC) (Raised ''invalid transit frame magic'') (
     require (flags \<le> 1) (Raised ''invalid transit frame flags'') (
     require (1 \<le> size \<and> size \<le> MAX_PLAINTEXT_BYTES) (Raised ''transit frame declaration exceeds safe limits'') (
     require (length frame = 38 + size + 16) (Raised ''transit ciphertext length mismatch'') (
     bnd (direction_name (of_char (frame ! 24))) (\<lambda>direction.
     Inr \<lparr>fh_session = session_hex (take 16 (drop 8 frame)), fh_direction = direction, fh_sequence = from_be (take 8 (drop 25 frame)),
       fh_bytes = size, fh_final = (flags = 1)\<rparr>))))))"

abbreviation replayed :: py_error where "replayed \<equiv> Raised ''replayed transit frame''"

definition open_frame :: "transit_lib \<Rightarrow> string \<Rightarrow> string \<Rightarrow> cipher \<Rightarrow> py_error + ((string \<times> frame_header) \<times> cipher)" where
  "open_frame L direction frame c =
     bnd (inspect_frame frame) (\<lambda>h.
     require (fh_session h = tc_session c) (Raised ''transit frame session mismatch'') (
     require (fh_direction h = direction) (Raised ''transit frame direction mismatch'') (
     let expected = next_of (tc_next_receive c) direction in
     require (\<not> fh_sequence h < expected) replayed (
     require (fh_sequence h = expected) (Raised ''out-of-order transit frame'') (
     bnd (direction_code direction) (\<lambda>code.
     bnd (opt_or (Raised ''transit frame authentication failed'')
       (tl_open L (tc_key c) (frame_nonce code (fh_sequence h)) (drop 38 frame) (associated_data c (take 38 frame)))) (\<lambda>plaintext.
     require (length plaintext = fh_bytes h) (Raised ''transit plaintext length mismatch'') (
     Inr ((plaintext, h), c\<lparr>tc_next_receive := dict_put direction (Suc expected) (tc_next_receive c)\<rparr>)))))))))"

subsection \<open>Streams\<close>

abbreviation timed_out :: py_error where "timed_out \<equiv> Raised ''TimeoutError''"

text \<open>The report of either side: frames, plaintext bytes, wire bytes, digest.\<close>

definition stream_report :: "transit_lib \<Rightarrow> (string \<times> int) list \<Rightarrow> nat \<times> nat \<times> int \<times> string" where
  "stream_report L parts = (length parts, sum_list (map (length \<circ> fst) parts), sum_list (map snd parts), ''sha256:'' @ sha256 (tl_crypto L) (concat (map fst parts)))"

text \<open>The frames go out one by one; \<open>wire\<close> is what \<open>send_bytes\<close> counts for a frame. The outcome comes with the frames already sent.\<close>

fun send_chunks :: "transit_lib \<Rightarrow> string \<Rightarrow> string list \<Rightarrow> cipher \<Rightarrow> (py_error + unit) \<times> string list \<times> cipher" where
  "send_chunks L direction [] c = (Inl (Raised ''transit stream requires at least one chunk''), [], c)"
| "send_chunks L direction (x # xs) c =
     (if x = [] then (Inl (Raised ''transit stream contains an empty chunk''), [], c)
      else case seal_frame L direction x (xs = []) c of
        Inl e \<Rightarrow> (Inl e, [], c)
      | Inr (frame, c') \<Rightarrow> if xs = [] then (Inr (), [frame], c')
          else (case send_chunks L direction xs c' of (r, frames, c'') \<Rightarrow> (r, frame # frames, c'')))"

definition send_stream :: "transit_lib \<Rightarrow> (string \<Rightarrow> int) \<Rightarrow> string \<Rightarrow> string list \<Rightarrow> cipher \<Rightarrow> (py_error + (nat \<times> nat \<times> int \<times> string)) \<times> string list \<times> cipher" where
  "send_stream L wire direction chunks c = (case send_chunks L direction chunks c of
     (r, frames, c') \<Rightarrow> (bnd r (\<lambda>_. Inr (stream_report L (zip chunks (map wire frames)))), frames, c'))"

fun receive_frames :: "transit_lib \<Rightarrow> string \<Rightarrow> (string \<times> int) list \<Rightarrow> cipher \<Rightarrow> (py_error + unit) \<times> (string \<times> int) list \<times> cipher" where
  "receive_frames L direction [] c = (Inl timed_out, [], c)"
| "receive_frames L direction ((frame, count) # arriving) c = (case open_frame L direction frame c of
     Inl e \<Rightarrow> if e = replayed then receive_frames L direction arriving c else (Inl e, [], c)
   | Inr ((plaintext, h), c') \<Rightarrow> if fh_final h then (Inr (), [(plaintext, count)], c')
       else (case receive_frames L direction arriving c' of (r, parts, c'') \<Rightarrow> (r, (plaintext, count) # parts, c'')))"

text \<open>The outcome, what the sink got, and the state of the cipher.\<close>

definition receive_stream :: "transit_lib \<Rightarrow> string \<Rightarrow> (string \<times> int) list \<Rightarrow> cipher \<Rightarrow> (py_error + (nat \<times> nat \<times> int \<times> string)) \<times> string list \<times> cipher" where
  "receive_stream L direction arriving c = (case receive_frames L direction arriving c of
     (r, parts, c') \<Rightarrow> (bnd r (\<lambda>_. Inr (stream_report L parts)), map fst parts, c'))"

subsection \<open>The peer between\<close>

fun forward :: "string \<Rightarrow> string \<Rightarrow> nat \<Rightarrow> (string \<times> int) list \<Rightarrow> (py_error + unit) \<times> (string \<times> int) list" where
  "forward sid direction expected [] = (Inl timed_out, [])"
| "forward sid direction expected ((frame, count) # arriving) = (case inspect_frame frame of
     Inl e \<Rightarrow> (Inl e, [])
   | Inr h \<Rightarrow> if fh_session h \<noteq> sid \<or> fh_direction h \<noteq> direction then (Inl (Raised ''transit peer received a mismatched frame''), [])
       else if fh_sequence h < expected then forward sid direction expected arriving
       else if expected < fh_sequence h then (Inl (Raised ''transit peer received a non-monotonic frame''), [])
       else if fh_final h then (Inr (), [(frame, count)])
       else (case forward sid direction (Suc expected) arriving of (r, sent) \<Rightarrow> (r, (frame, count) # sent)))"

record relay_counts =
  rc_session :: string
  rc_request_frames :: nat
  rc_response_frames :: nat
  rc_rx_bytes :: int
  rc_tx_bytes :: int

text \<open>Both streams once, request first: the outcome with the counters, and what went to the target and to the source.\<close>

definition relay_once :: "(string \<Rightarrow> int) \<Rightarrow> string \<Rightarrow> (string \<times> int) list \<Rightarrow> (string \<times> int) list \<Rightarrow> (py_error + relay_counts) \<times> string list \<times> string list" where
  "relay_once wire sid from_source from_target = (case forward sid ''request'' 0 from_source of
     (Inl e, up) \<Rightarrow> (Inl e, map fst up, [])
   | (Inr _, up) \<Rightarrow> (case forward sid ''response'' 0 from_target of (r, down) \<Rightarrow>
       (bnd r (\<lambda>_. Inr \<lparr>rc_session = sid, rc_request_frames = length up, rc_response_frames = length down,
          rc_rx_bytes = sum_list (map snd (up @ down)), rc_tx_bytes = sum_list (map (wire \<circ> fst) (up @ down))\<rparr>), map fst up, map fst down)))"

end
