(* ===== verification/Transit_Safety.thy ===== *)
theory Transit_Safety
  imports Transit
begin

section \<open>Frames that cross a peer\<close>

text \<open>Big-endian numbers and the layout of a frame read back; what opens is what was sealed; and the properties of a transit.\<close>

subsection \<open>Layout\<close>

lemma to_be_length [simp]: "length (to_be k n) = k"
  by (induction k arbitrary: n) auto

lemma from_be_append: "from_be (s @ [c]) = from_be s * 256 + of_char c"
  by (simp add: from_be_def)

lemma from_to_be [simp]: "n < 256 ^ k \<Longrightarrow> from_be (to_be k n) = n"
proof (induction k arbitrary: n)
  case 0
  then show ?case by (simp add: from_be_def)
next
  case (Suc k)
  then have "n div 256 < 256 ^ k" by (simp add: less_mult_imp_div_less mult.commute)
  with Suc.IH show ?case by (simp add: from_be_append of_char_of)
qed

lemma to_from_be: "to_be (length s) (from_be s) = s"
proof (induction s rule: rev_induct)
  case (snoc c s)
  have "(of_char c :: nat) < 256" using of_char_lt [of c] by simp
  then show ?case using snoc by (simp add: from_be_append char_of_def [symmetric])
qed simp

lemma from_be_bound: "from_be s < 256 ^ length s"
proof (induction s rule: rev_induct)
  case (snoc c s)
  have "(of_char c :: nat) < 256" using of_char_lt [of c] by simp
  with snoc show ?case unfolding from_be_append length_append_singleton power_Suc by linarith
qed (simp add: from_be_def)

lemma header_length: "length bytes = 16 \<Longrightarrow> length (pack_header bytes code n len final) = 38"
  by (simp add: pack_header_def FRAME_MAGIC_def)

lemma header_fields:
  assumes "length bytes = 16" "frame = pack_header bytes code n len final @ body"
  shows "take 8 frame = FRAME_MAGIC" "take 16 (drop 8 frame) = bytes" "frame ! 24 = char_of code" "take 8 (drop 25 frame) = to_be 8 n" "take 4 (drop 33 frame) = to_be 4 len"
    "frame ! 37 = (if final then CHR 0x01 else CHR 0x00)" "take 38 frame = pack_header bytes code n len final" "drop 38 frame = body"
proof -
  have m: "length FRAME_MAGIC = 8" by (simp add: FRAME_MAGIC_def)
  show "take 8 frame = FRAME_MAGIC" "take 16 (drop 8 frame) = bytes"
    using assms m by (simp_all add: pack_header_def)
  have e: "frame = (FRAME_MAGIC @ bytes) @ char_of code # to_be 8 n @ to_be 4 len @ (if final then CHR 0x01 else CHR 0x00) # body" using assms(2) by (simp add: pack_header_def)
  have l: "length (FRAME_MAGIC @ bytes) = 24" using m assms(1) by simp
  have d24: "drop 24 frame = char_of code # to_be 8 n @ to_be 4 len @ (if final then CHR 0x01 else CHR 0x00) # body"
    unfolding e using l by (simp del: append_assoc)
  have long: "37 < length frame" using l unfolding e by simp
  have "frame ! 24 = hd (drop 24 frame)" using long by (intro hd_drop_conv_nth [symmetric]) simp
  then show "frame ! 24 = char_of code" unfolding d24 by simp
  have d: "drop 25 frame = to_be 8 n @ to_be 4 len @ (if final then CHR 0x01 else CHR 0x00) # body"
  proof -
    have "drop 25 frame = drop 1 (drop 24 frame)" by simp
    then show ?thesis unfolding d24 by simp
  qed
  show "take 8 (drop 25 frame) = to_be 8 n" by (simp add: d)
  have "drop 33 frame = drop 8 (drop 25 frame)" by simp
  then show "take 4 (drop 33 frame) = to_be 4 len" unfolding d by simp
  have "drop 37 frame = drop 12 (drop 25 frame)" by simp
  then have d37: "drop 37 frame = (if final then CHR 0x01 else CHR 0x00) # body" unfolding d by simp
  have "frame ! 37 = hd (drop 37 frame)" using long by (intro hd_drop_conv_nth [symmetric])
  then show "frame ! 37 = (if final then CHR 0x01 else CHR 0x00)" unfolding d37 by (simp only: list.sel)
  show "take 38 frame = pack_header bytes code n len final" "drop 38 frame = body"
    using assms header_length [OF assms(1), of code n len final] by simp_all
qed

subsection \<open>Session ids\<close>

lemma lower_hex:
  assumes "is_lower_hex c"
  shows "is_hex c \<and> hex_char (hex_code c) = c \<and> hex_code c < 16 \<and> (of_char c :: nat) < 128 \<and> \<not> c_space c \<and> c \<notin> set ''urnxX{}-+_''"
proof -
  have "list_all (\<lambda>c. is_hex c \<and> hex_char (hex_code c) = c \<and> hex_code c < 16 \<and> (of_char c :: nat) < 128 \<and> \<not> c_space c \<and> c \<notin> set ''urnxX{}-+_'') ''0123456789abcdef''"
    by code_simp
  then show ?thesis using assms unfolding list_all_iff is_lower_hex_def by blast
qed

definition hex_value :: "string \<Rightarrow> nat" where
  "hex_value s = foldl (\<lambda>a c. a * 16 + hex_code c) 0 s"

lemma session_hex_value: "length s = 2 * k \<Longrightarrow> list_all is_lower_hex s \<Longrightarrow> session_hex (to_be k (hex_value s)) = s"
proof (induction k arbitrary: s)
  case 0
  then show ?case by (simp add: session_hex_def)
next
  case (Suc k)
  then obtain t a b where s: "s = t @ [a, b]" "length t = 2 * k"
  proof -
    have "s = take (2 * k) s @ drop (2 * k) s" "length (drop (2 * k) s) = 2" using Suc.prems(1) by simp_all
    moreover from this(2) obtain a b where "drop (2 * k) s = [a, b]" by (metis (no_types) One_nat_def Suc_1 length_0_conv length_Suc_conv)
    ultimately show ?thesis using that [of "take (2 * k) s" a b] Suc.prems(1) by simp
  qed
  have h: "hex_code a < 16" "hex_code b < 16" "hex_char (hex_code a) = a" "hex_char (hex_code b) = b" using Suc.prems(2) s lower_hex by auto
  have v: "hex_value s = hex_value t * 256 + (hex_code a * 16 + hex_code b)" by (simp add: s hex_value_def)
  have "hex_value s div 256 = hex_value t" "hex_value s mod 256 = hex_code a * 16 + hex_code b" unfolding v using h(1,2) by simp_all
  moreover have "(of_char (char_of (hex_code a * 16 + hex_code b) :: char) :: nat) = hex_code a * 16 + hex_code b" using h(1,2) by (simp add: of_char_of)
  ultimately show ?case using Suc.IH [OF s(2)] Suc.prems(2) s(1) h by (simp add: session_hex_def)
qed

lemma drop_all_absent: "p \<noteq> [] \<Longrightarrow> hd p \<notin> set s \<Longrightarrow> drop_all p s = s"
proof (induction p s rule: drop_all.induct)
  case (2 p c cs)
  then show ?case by (cases p) auto
qed simp

lemma strip_of_none: "list_all (\<lambda>c. \<not> P c) s \<Longrightarrow> strip_of P s = s"
proof -
  assume a: "list_all (\<lambda>c. \<not> P c) s"
  have "dropWhile P s = s" using a by (cases s) auto
  moreover have "dropWhile P (rev s) = rev s" using a by (cases s rule: rev_cases) auto
  ultimately show ?thesis by (simp add: strip_of_def)
qed

lemma hex_digits_all: "s \<noteq> [] \<Longrightarrow> list_all is_lower_hex s \<Longrightarrow> hex_digits_ok s"
proof (induction s rule: hex_digits_ok.induct)
  case (3 c d cs)
  have "d \<noteq> CHR ''_''" "is_hex c" using 3(4) lower_hex [of d] lower_hex [of c] by auto
  with 3 show ?case by simp
qed (use lower_hex in auto)

lemma parse_canonical: "hex_text 32 sid \<Longrightarrow> parse_session_id sid = Inr (to_be 16 (hex_value sid))"
proof -
  assume h: "hex_text 32 sid"
  then have hex: "list_all is_lower_hex sid" "length sid = 32" by (simp_all add: hex_text_def)
  have no: "c \<notin> set sid" if "c \<in> set ''urnxX{}-+_''" for c using hex(1) that lower_hex unfolding list_all_iff by blast
  have drops: "drop_all ''urn:'' sid = sid" "drop_all ''uuid:'' sid = sid" using no [of "CHR ''u''"] by (simp_all add: drop_all_absent)
  have s: "strip_of (\<lambda>c. c = CHR ''{'' \<or> c = CHR ''}'') sid = sid" using no [of "CHR ''{''"] no [of "CHR ''}''"]
    by (intro strip_of_none) (auto simp: list_all_iff)
  have f: "filter (\<lambda>c. c \<noteq> CHR ''-'') sid = sid" using no [of "CHR ''-''"] by (intro filter_True) auto
  have ascii: "list_all (\<lambda>c. (of_char c :: nat) < 128) sid" using hex(1) lower_hex unfolding list_all_iff by blast
  have sp: "strip_of c_space sid = sid" using hex(1) lower_hex unfolding list_all_iff by (intro strip_of_none) (auto simp: list_all_iff)
  have sign: "hd sid \<noteq> CHR ''+''" "hd sid \<noteq> CHR ''-''" using no [of "CHR ''+''"] no [of "CHR ''-''"] hex(2) by (cases sid; auto)+
  have pre: "take 2 sid \<noteq> ''0x''" "take 2 sid \<noteq> ''0X''"
  proof -
    have "CHR ''x'' \<notin> set (take 2 sid)" "CHR ''X'' \<notin> set (take 2 sid)" using no [of "CHR ''x''"] no [of "CHR ''X''"] by (auto dest: in_set_takeD)
    then show "take 2 sid \<noteq> ''0x''" "take 2 sid \<noteq> ''0X''" by auto
  qed
  have digits: "filter is_hex sid = sid" using hex(1) lower_hex by (intro filter_True) (auto simp: list_all_iff)
  have ne: "sid \<noteq> []" using hex(2) by auto
  have "hex_number sid = Some (hex_value sid)"
    using sp sign pre digits hex_digits_all [OF ne hex(1)] by (simp add: hex_number_def Let_def hex_value_def ascii ne)
  then show ?thesis by (simp add: parse_session_id_def drops s f hex(2) Let_def)
qed

subsection \<open>One frame\<close>

definition same_session :: "cipher \<Rightarrow> cipher \<Rightarrow> bool" where
  "same_session c d \<longleftrightarrow> tc_session c = tc_session d \<and> tc_source c = tc_source d \<and> tc_target c = tc_target d \<and> tc_bytes c = tc_bytes d \<and> tc_key c = tc_key d
     \<and> length (tc_bytes d) = 16 \<and> session_hex (tc_bytes d) = tc_session d"

lemma new_cipher_same:
  assumes "new_cipher sid source target key = Inr c" "hex_text 32 sid"
  shows "same_session c c" "tc_session c = sid" "next_of (tc_next_send c) d = 0" "next_of (tc_next_receive c) d = 0"
proof -
  have "session_hex (to_be 16 (hex_value sid)) = sid" using assms(2) by (intro session_hex_value) (simp_all add: hex_text_def)
  with assms show "same_session c c" "tc_session c = sid" "next_of (tc_next_send c) d = 0" "next_of (tc_next_receive c) d = 0"
    by (auto simp: new_cipher_def parse_canonical same_session_def next_of_def)
qed

lemma sealed_frame:
  assumes "seal_frame L direction p final c = Inr (frame, c')"
  obtains code where "direction_code direction = Inr code" "p \<noteq> []" "length p \<le> MAX_PLAINTEXT_BYTES" "next_of (tc_next_send c) direction < 2 ^ 64"
    "frame = pack_header (tc_bytes c) code (next_of (tc_next_send c) direction) (length p) final
       @ tl_seal L (tc_key c) (frame_nonce code (next_of (tc_next_send c) direction)) p
           (associated_data c (pack_header (tc_bytes c) code (next_of (tc_next_send c) direction) (length p) final))"
    "c' = c\<lparr>tc_next_send := dict_put direction (Suc (next_of (tc_next_send c) direction)) (tc_next_send c)\<rparr>"
  using assms by (auto simp: seal_frame_def guard_simps Let_def)

lemma direction_codes: "direction_code direction = Inr code \<Longrightarrow> (code = 1 \<or> code = 2) \<and> direction_name (of_char (char_of code :: char)) = Inr direction"
  by (auto simp: direction_code_def direction_name_def split: if_splits)

lemma seal_inspect:
  assumes "seal_frame L direction p final c = Inr (frame, c')" "transit_law L" "same_session c d"
  shows "inspect_frame frame = Inr \<lparr>fh_session = tc_session d, fh_direction = direction, fh_sequence = next_of (tc_next_send c) direction, fh_bytes = length p, fh_final = final\<rparr>"
  using assms(1)
proof (rule sealed_frame)
  fix code
  let ?n = "next_of (tc_next_send c) direction"
  let ?head = "pack_header (tc_bytes c) code ?n (length p) final"
  let ?body = "tl_seal L (tc_key c) (frame_nonce code ?n) p (associated_data c ?head)"
  assume code: "direction_code direction = Inr code" and p: "p \<noteq> []" "length p \<le> MAX_PLAINTEXT_BYTES" and n: "?n < 2 ^ 64" and frame: "frame = ?head @ ?body"
  have bytes: "length (tc_bytes c) = 16" "session_hex (tc_bytes c) = tc_session d" using assms(3) by (simp_all add: same_session_def)
  note f = header_fields [OF bytes(1) frame]
  have len: "length frame = 38 + length p + 16" using frame header_length [OF bytes(1)] assms(2) by (simp add: transit_law_def)
  have "length p < 256 ^ 4" using p(2) by (simp add: MAX_PLAINTEXT_BYTES_def)
  then have size: "from_be (take 4 (drop 33 frame)) = length p" by (simp add: f)
  have "?n < 256 ^ 8" using n by simp
  then have seq: "from_be (take 8 (drop 25 frame)) = ?n" by (simp add: f)
  have flags: "(of_char (frame ! 37) :: nat) = (if final then 1 else 0)" by (simp add: f)
  have pos: "1 \<le> length p" using p(1) by (cases p) simp_all
  show ?thesis using code pos p(2) direction_codes [OF code] len
    by (simp add: inspect_frame_def Let_def size seq flags f(1,2,3) bytes(2))
qed

lemma seal_open:
  assumes "seal_frame L direction p final c = Inr (frame, c')" "transit_law L" "same_session c d" "next_of (tc_next_receive d) direction = next_of (tc_next_send c) direction"
  obtains h where "open_frame L direction frame d = Inr ((p, h), d\<lparr>tc_next_receive := dict_put direction (Suc (next_of (tc_next_receive d) direction)) (tc_next_receive d)\<rparr>)" "fh_final h = final"
  using assms(1)
proof (rule sealed_frame)
  fix code
  let ?n = "next_of (tc_next_send c) direction"
  let ?head = "pack_header (tc_bytes c) code ?n (length p) final"
  let ?body = "tl_seal L (tc_key c) (frame_nonce code ?n) p (associated_data c ?head)"
  assume code: "direction_code direction = Inr code" and frame: "frame = ?head @ ?body"
  have bytes: "length (tc_bytes c) = 16" using assms(3) by (simp add: same_session_def)
  note f = header_fields(7,8) [OF bytes frame]
  have same: "tc_key d = tc_key c" "associated_data d x = associated_data c x" for x using assms(3) by (simp_all add: same_session_def associated_data_def)
  have op: "tl_open L (tc_key d) (frame_nonce code ?n) (drop 38 frame) (associated_data d (take 38 frame)) = Some p"
    using assms(2) by (simp add: f same transit_law_def)
  have "open_frame L direction frame d = Inr ((p, \<lparr>fh_session = tc_session d, fh_direction = direction, fh_sequence = ?n, fh_bytes = length p, fh_final = final\<rparr>),
      d\<lparr>tc_next_receive := dict_put direction (Suc (next_of (tc_next_receive d) direction)) (tc_next_receive d)\<rparr>)"
    using op code assms(4) by (simp add: open_frame_def seal_inspect [OF assms(1-3)] Let_def)
  then show thesis by (rule that) simp
qed

lemma open_old:
  assumes "inspect_frame frame = Inr h" "fh_session h = tc_session d" "fh_direction h = direction" "fh_sequence h < next_of (tc_next_receive d) direction"
  shows "open_frame L direction frame d = Inl replayed"
  using assms by (simp add: open_frame_def Let_def)

end
