(* ===== verification/Transit_Links.thy ===== *)
theory Transit_Links
  imports Transit_Safety
begin

section \<open>Streams that cross a peer\<close>

text \<open>Retransmissions on a hop, what they change, and the way of a stream through both hops.\<close>

subsection \<open>A hop\<close>

text \<open>
  What arrives when \<open>fresh\<close> was sent: every frame in order, frames that arrived before again at any point, and anything after the last. \<open>receive_bytes\<close>
  counts the datagrams of every arrival anew.
\<close>

inductive resent :: "string set \<Rightarrow> (string \<times> int) list \<Rightarrow> (string \<times> int) list \<Rightarrow> bool" where
  all_arrived: "resent seen [] arriving"
| arrives: "resent (insert (fst f) seen) fresh arriving \<Longrightarrow> resent seen (f # fresh) (f # arriving)"
| again: "frame \<in> seen \<Longrightarrow> resent seen fresh arriving \<Longrightarrow> resent seen fresh ((frame, count) # arriving)"

lemma sent_chunks:
  assumes "send_chunks L direction chunks c = (Inr (), frames, c')"
  obtains x xs frame c1 rest where "chunks = x # xs" "seal_frame L direction x (xs = []) c = Inr (frame, c1)" "frames = frame # rest"
    "xs = [] \<and> rest = [] \<and> c' = c1 \<or> xs \<noteq> [] \<and> send_chunks L direction xs c1 = (Inr (), rest, c')"
  using assms by (cases chunks) (auto split: if_splits sum.splits prod.splits)

lemma sealed_next:
  assumes "seal_frame L direction p final c = Inr (frame, c')"
  shows "next_of (tc_next_send c') direction = Suc (next_of (tc_next_send c) direction)" "tc_session c' = tc_session c" "same_session c' d = same_session c d"
    "tc_next_receive c' = tc_next_receive c" "direction' \<noteq> direction \<Longrightarrow> next_of (tc_next_send c') direction' = next_of (tc_next_send c) direction'"
  by (rule sealed_frame [OF assms], simp add: next_of_def same_session_def)+

definition passed :: "cipher \<Rightarrow> string \<Rightarrow> nat \<Rightarrow> string \<Rightarrow> bool" where
  "passed c direction n frame \<longleftrightarrow> (\<exists>h. inspect_frame frame = Inr h \<and> fh_session h = tc_session c \<and> fh_direction h = direction \<and> fh_sequence h < n)"

lemma passed_later: "passed c direction n frame \<Longrightarrow> n \<le> m \<Longrightarrow> passed c direction m frame"
  by (force simp: passed_def)

lemma passed_sealed:
  assumes "seal_frame L direction p final c = Inr (frame, c')" "transit_law L" "same_session c d"
  shows "passed d direction (Suc (next_of (tc_next_send c) direction)) frame"
  unfolding passed_def using seal_inspect [OF assms] by auto

lemma passed_seen:
  assumes "seal_frame L direction p final c = Inr (frame, c')" "transit_law L" "same_session c d" "\<forall>f \<in> seen. passed d direction (next_of (tc_next_send c) direction) f"
  shows "\<forall>f \<in> insert frame seen. passed d direction (Suc (next_of (tc_next_send c) direction)) f"
  using assms(4) passed_sealed [OF assms(1-3)] passed_later by (metis insert_iff le_SucI order_refl)

lemma forward_resent:
  assumes "resent seen F G" "send_chunks L direction chunks c = (Inr (), map fst F, c')" "transit_law L" "same_session c d"
    "\<forall>f \<in> seen. passed d direction (next_of (tc_next_send c) direction) f"
  shows "forward (tc_session d) direction (next_of (tc_next_send c) direction) G = (Inr (), F)"
  using assms
proof (induction arbitrary: chunks c rule: resent.induct)
  case (all_arrived seen arriving)
  then show ?case by (elim sent_chunks) simp
next
  case (arrives f seen fresh arriving)
  from arrives.prems(1) show ?case
  proof (rule sent_chunks)
    fix x xs frame c1 rest
    assume s: "seal_frame L direction x (xs = []) c = Inr (frame, c1)" and f: "map fst (f # fresh) = frame # rest"
      and more: "xs = [] \<and> rest = [] \<and> c' = c1 \<or> xs \<noteq> [] \<and> send_chunks L direction xs c1 = (Inr (), rest, c')"
    obtain count where fe: "f = (frame, count)" using f by (cases f) simp
    note h = seal_inspect [OF s arrives.prems(2,3)]
    show ?thesis
    proof (cases "xs = []")
      case True
      then show ?thesis using more f by (simp add: fe h)
    next
      case False
      have "same_session c1 d" using arrives.prems(3) sealed_next(3) [OF s] by simp
      moreover have "\<forall>g \<in> insert (fst f) seen. passed d direction (next_of (tc_next_send c1) direction) g"
        using passed_seen [OF s arrives.prems(2,3,4)] by (simp add: fe sealed_next(1) [OF s])
      ultimately have "forward (tc_session d) direction (next_of (tc_next_send c1) direction) arriving = (Inr (), fresh)"
        using False more f arrives.prems(2) by (intro arrives.IH) auto
      then show ?thesis using False by (simp add: fe h sealed_next(1) [OF s])
    qed
  qed
next
  case (again frame seen fresh arriving count)
  then obtain h where "inspect_frame frame = Inr h" "fh_session h = tc_session d" "fh_direction h = direction" "fh_sequence h < next_of (tc_next_send c) direction"
    unfolding passed_def by blast
  moreover have "forward (tc_session d) direction (next_of (tc_next_send c) direction) arriving = (Inr (), fresh)" using again.IH again.prems by blast
  ultimately show ?case by simp
qed

lemma receive_resent:
  assumes "resent seen F G" "send_chunks L direction chunks c = (Inr (), map fst F, c')" "transit_law L" "same_session c d"
    "\<forall>f \<in> seen. passed d direction (next_of (tc_next_send c) direction) f" "next_of (tc_next_receive d) direction = next_of (tc_next_send c) direction"
  shows "\<exists>d'. receive_frames L direction G d = (Inr (), zip chunks (map snd F), d') \<and> same_session c d' \<and> tc_next_send d' = tc_next_send d"
  using assms
proof (induction arbitrary: chunks c d rule: resent.induct)
  case (all_arrived seen arriving)
  then show ?case by (elim sent_chunks) simp
next
  case (arrives f seen fresh arriving)
  from arrives.prems(1) show ?case
  proof (rule sent_chunks)
    fix x xs frame c1 rest
    assume ch: "chunks = x # xs" and s: "seal_frame L direction x (xs = []) c = Inr (frame, c1)" and f: "map fst (f # fresh) = frame # rest"
      and more: "xs = [] \<and> rest = [] \<and> c' = c1 \<or> xs \<noteq> [] \<and> send_chunks L direction xs c1 = (Inr (), rest, c')"
    obtain count where fe: "f = (frame, count)" using f by (cases f) simp
    let ?d1 = "d\<lparr>tc_next_receive := dict_put direction (Suc (next_of (tc_next_receive d) direction)) (tc_next_receive d)\<rparr>"
    obtain h where o: "open_frame L direction frame d = Inr ((x, h), ?d1)" "fh_final h = (xs = [])" by (rule seal_open [OF s arrives.prems(2,3,5)])
    have same: "same_session c ?d1" using arrives.prems(3) by (simp add: same_session_def)
    have d1: "same_session c1 ?d1" "tc_next_send ?d1 = tc_next_send d" using same sealed_next(3) [OF s] by simp_all
    have step: "next_of (tc_next_receive ?d1) direction = next_of (tc_next_send c1) direction"
      unfolding sealed_next(1) [OF s] arrives.prems(5) [symmetric] by (simp add: next_of_def)
    show ?thesis
    proof (cases "xs = []")
      case True
      then show ?thesis using more f o same by (simp add: fe ch)
    next
      case False
      have "\<forall>g \<in> insert (fst f) seen. passed ?d1 direction (next_of (tc_next_send c1) direction) g"
        using passed_seen [OF s arrives.prems(2,3,4)] by (simp add: fe sealed_next(1) [OF s] passed_def)
      then have "\<exists>d'. receive_frames L direction arriving ?d1 = (Inr (), zip xs (map snd fresh), d') \<and> same_session c1 d' \<and> tc_next_send d' = tc_next_send ?d1"
        using False more f arrives.prems(2) d1 step by (intro arrives.IH) auto
      then obtain d' where d': "receive_frames L direction arriving ?d1 = (Inr (), zip xs (map snd fresh), d')" "same_session c1 d'" "tc_next_send d' = tc_next_send d" by auto
      have "same_session c d'" using d'(2) sealed_next(3) [OF s] by simp
      then show ?thesis using False d' o by (simp add: fe ch)
    qed
  qed
next
  case (again frame seen fresh arriving count)
  then obtain h where "inspect_frame frame = Inr h" "fh_session h = tc_session d" "fh_direction h = direction" "fh_sequence h < next_of (tc_next_receive d) direction"
    by (auto simp: passed_def)
  then have "open_frame L direction frame d = Inl replayed" by (rule open_old)
  then show ?case using again by simp
qed

subsection \<open>Both hops\<close>

lemma sending_keeps:
  "send_chunks L direction chunks c = (Inr (), frames, c') \<Longrightarrow> length frames = length chunks \<and> same_session c' d = same_session c d \<and> tc_next_receive c' = tc_next_receive c
     \<and> (direction' \<noteq> direction \<longrightarrow> next_of (tc_next_send c') direction' = next_of (tc_next_send c) direction')"
proof (induction chunks arbitrary: c frames)
  case (Cons x xs)
  from Cons.prems show ?case
  proof (rule sent_chunks)
    fix y ys frame c1 rest
    assume ch: "x # xs = y # ys" and s: "seal_frame L direction y (ys = []) c = Inr (frame, c1)" and f: "frames = frame # rest"
      and tail: "ys = [] \<and> rest = [] \<and> c' = c1 \<or> ys \<noteq> [] \<and> send_chunks L direction ys c1 = (Inr (), rest, c')"
    from tail show ?thesis
    proof
      assume "ys = [] \<and> rest = [] \<and> c' = c1"
      then show ?thesis using ch f sealed_next [OF s] by simp
    next
      assume "ys \<noteq> [] \<and> send_chunks L direction ys c1 = (Inr (), rest, c')"
      then have "length rest = length ys \<and> same_session c' d = same_session c1 d \<and> tc_next_receive c' = tc_next_receive c1
         \<and> (direction' \<noteq> direction \<longrightarrow> next_of (tc_next_send c') direction' = next_of (tc_next_send c1) direction')" using Cons.IH ch by blast
      then show ?thesis using ch f sealed_next [OF s] by simp
    qed
  qed
qed simp

definition reports_agree :: "nat \<times> nat \<times> int \<times> string \<Rightarrow> nat \<times> nat \<times> int \<times> string \<Rightarrow> bool" where
  "reports_agree r r' = (case (r, r') of ((n, m, _, h), (n', m', _, h')) \<Rightarrow> n = n' \<and> m = m' \<and> h = h')"

lemma reports_zip: "length ws = length xs \<Longrightarrow> length vs = length xs \<Longrightarrow> reports_agree (stream_report L (zip xs ws)) (stream_report L (zip xs vs))"
proof -
  assume l: "length ws = length xs" "length vs = length xs"
  have "map (length \<circ> fst) (zip xs us) = map length xs" if "length us = length xs" for us :: "int list" using that by (metis map_map map_fst_zip)
  then show ?thesis using l by (simp add: reports_agree_def stream_report_def)
qed

lemma stream_crosses:
  assumes "transit_law L" "same_session c d" "next_of (tc_next_send c) direction = 0" "next_of (tc_next_receive d) direction = 0"
    "send_stream L wire direction chunks c = (Inr report, frames, c')" "resent {} F G" "map fst F = frames"
  shows "forward (tc_session d) direction 0 G = (Inr (), F)"
    "\<exists>report' d'. receive_stream L direction G d = (Inr report', chunks, d') \<and> reports_agree report report' \<and> same_session c d' \<and> tc_next_send d' = tc_next_send d"
    "send_chunks L direction chunks c = (Inr (), frames, c')" "length frames = length chunks"
proof -
  have sent: "send_chunks L direction chunks c = (Inr (), frames, c')" and r: "report = stream_report L (zip chunks (map wire frames))"
    using assms(5) by (auto simp: send_stream_def guard_simps split: prod.splits)
  then show "send_chunks L direction chunks c = (Inr (), frames, c')" by simp
  show len: "length frames = length chunks" using sending_keeps [OF sent] by blast
  have s: "send_chunks L direction chunks c = (Inr (), map fst F, c')" using sent assms(7) by simp
  show "forward (tc_session d) direction 0 G = (Inr (), F)" using forward_resent [OF assms(6) s assms(1,2)] assms(3) by simp
  obtain d' where d': "receive_frames L direction G d = (Inr (), zip chunks (map snd F), d')" "same_session c d'" "tc_next_send d' = tc_next_send d"
    using receive_resent [OF assms(6) s assms(1,2)] assms(3,4) by auto
  have "length F = length chunks" using len assms(7) by (metis length_map)
  then have "receive_stream L direction G d = (Inr (stream_report L (zip chunks (map snd F))), chunks, d')" "reports_agree report (stream_report L (zip chunks (map snd F)))"
    using d'(1) len by (simp_all add: receive_stream_def r reports_zip)
  then show "\<exists>report' d'. receive_stream L direction G d = (Inr report', chunks, d') \<and> reports_agree report report' \<and> same_session c d' \<and> tc_next_send d' = tc_next_send d"
    using d'(2,3) by blast
qed

definition messaging_public_key :: "transit_lib \<Rightarrow> string \<Rightarrow> string" where
  "messaging_public_key L key = b64_text (tl_public L key)"

lemma transit_laws:
  assumes "transit_law L"
  shows "length a = 32 \<Longrightarrow> length (tl_public L a) = 32"
    "length a = 32 \<Longrightarrow> length b = 32 \<Longrightarrow> \<exists>s. tl_exchange L a (tl_public L b) = Some s \<and> tl_exchange L b (tl_public L a) = Some s"
    "tl_open L k n body ad = Some p \<Longrightarrow> body = tl_seal L k n p ad"
  using assms [unfolded transit_law_def] by (elim conjE, iprover)+

lemma keys_agree:
  assumes "transit_law L" "length a = 32" "length b = 32"
  obtains k where "derive_key L a (messaging_public_key L b) sid source target = Inr k" "derive_key L b (messaging_public_key L a) sid source target = Inr k"
proof -
  obtain secret where "tl_exchange L a (tl_public L b) = Some secret" "tl_exchange L b (tl_public L a) = Some secret"
    using transit_laws(2) [OF assms] by blast
  moreover have "length (tl_public L a) = 32" "length (tl_public L b) = 32" using transit_laws(1) [OF assms(1)] assms(2,3) by simp_all
  ultimately show thesis using that by (simp add: derive_key_def messaging_public_key_def b64_bytes_text)
qed

lemma ends_meet:
  assumes "transit_law L" "length ephemeral = 32" "length key = 32" "hex_text 32 (so_session s)" "so_ephemeral s = messaging_public_key L ephemeral"
    "for_source L (so_session s) (so_source s) (so_target s) (messaging_public_key L key) ephemeral = Inr c" "for_target L s key = Inr d"
  shows "c = d" "same_session c c" "tc_session c = so_session s" "next_of (tc_next_send c) direction = 0" "next_of (tc_next_receive c) direction = 0"
proof -
  obtain k where k: "derive_key L ephemeral (messaging_public_key L key) (so_session s) (so_source s) (so_target s) = Inr k"
    "derive_key L key (messaging_public_key L ephemeral) (so_session s) (so_source s) (so_target s) = Inr k" by (rule keys_agree [OF assms(1-3)])
  have n: "new_cipher (so_session s) (so_source s) (so_target s) k = Inr c" using assms(6) k by (simp add: for_source_def)
  moreover have "new_cipher (so_session s) (so_source s) (so_target s) k = Inr d" using assms(5,7) k by (simp add: for_target_def)
  ultimately show "c = d" by simp
  show "same_session c c" "tc_session c = so_session s" "next_of (tc_next_send c) direction = 0" "next_of (tc_next_receive c) direction = 0"
    by (rule new_cipher_same [OF n assms(4)])+
qed

subsection \<open>What a receiver accepts\<close>

lemma hex_code_char: "n < 16 \<Longrightarrow> hex_code (hex_char n) = n"
  by (simp add: hex_code_def hex_char_def of_char_of Let_def)

lemma session_hex_inj: "length s = length t \<Longrightarrow> session_hex s = session_hex t \<Longrightarrow> s = t"
proof (induction s t rule: list_induct2)
  case (Cons c s d t)
  have lt: "(of_char c :: nat) < 256" "(of_char d :: nat) < 256" using of_char_lt by simp_all
  have "hex_char (of_char c div 16) = hex_char (of_char d div 16)" "hex_char (of_char c mod 16) = hex_char (of_char d mod 16)" and tails: "session_hex s = session_hex t"
    using Cons.prems by (simp_all add: session_hex_def)
  then have "hex_code (hex_char (of_char c div 16)) = hex_code (hex_char (of_char d div 16))" "hex_code (hex_char (of_char c mod 16)) = hex_code (hex_char (of_char d mod 16))"
    by simp_all
  then have "(of_char c :: nat) div 16 = of_char d div 16" "(of_char c :: nat) mod 16 = of_char d mod 16"
    using lt by (simp_all add: hex_code_char)
  then have "(of_char c :: nat) = of_char d" by (metis div_mult_mod_eq)
  then show ?case using Cons.IH [OF tails] by (simp add: of_char_eq_iff)
qed simp

lemma inspect_cases:
  assumes "inspect_frame frame = Inr h"
  shows "54 \<le> length frame" "take 8 frame = FRAME_MAGIC" "(of_char (frame ! 37) :: nat) \<le> 1" "1 \<le> fh_bytes h \<and> fh_bytes h \<le> MAX_PLAINTEXT_BYTES"
    "direction_name (of_char (frame ! 24)) = Inr (fh_direction h)" "fh_session h = session_hex (take 16 (drop 8 frame))" "fh_sequence h = from_be (take 8 (drop 25 frame))"
    "fh_bytes h = from_be (take 4 (drop 33 frame))" "fh_final h = ((of_char (frame ! 37) :: nat) = 1)"
proof -
  from assms [unfolded inspect_frame_def Let_def require_Inr bnd_Inr] obtain direction where d: "54 \<le> length frame" "take 8 frame = FRAME_MAGIC"
    "(of_char (frame ! 37) :: nat) \<le> 1" "1 \<le> from_be (take 4 (drop 33 frame)) \<and> from_be (take 4 (drop 33 frame)) \<le> MAX_PLAINTEXT_BYTES"
    "direction_name (of_char (frame ! 24)) = Inr direction"
    and h: "Inr \<lparr>fh_session = session_hex (take 16 (drop 8 frame)), fh_direction = direction, fh_sequence = from_be (take 8 (drop 25 frame)),
       fh_bytes = from_be (take 4 (drop 33 frame)), fh_final = ((of_char (frame ! 37) :: nat) = 1)\<rparr> = (Inr h :: py_error + frame_header)" by blast
  from h have e: "h = \<lparr>fh_session = session_hex (take 16 (drop 8 frame)), fh_direction = direction, fh_sequence = from_be (take 8 (drop 25 frame)),
       fh_bytes = from_be (take 4 (drop 33 frame)), fh_final = ((of_char (frame ! 37) :: nat) = 1)\<rparr>" by (simp only: sum.inject)
  show "54 \<le> length frame" "take 8 frame = FRAME_MAGIC" "(of_char (frame ! 37) :: nat) \<le> 1" "1 \<le> fh_bytes h \<and> fh_bytes h \<le> MAX_PLAINTEXT_BYTES"
    "direction_name (of_char (frame ! 24)) = Inr (fh_direction h)" "fh_session h = session_hex (take 16 (drop 8 frame))" "fh_sequence h = from_be (take 8 (drop 25 frame))"
    "fh_bytes h = from_be (take 4 (drop 33 frame))" "fh_final h = ((of_char (frame ! 37) :: nat) = 1)"
    unfolding e frame_header.simps by (rule d refl)+
qed

lemma inspected_header:
  assumes "inspect_frame frame = Inr h" "fh_session h = tc_session d" "same_session d d" "direction_code (fh_direction h) = Inr code"
  shows "take 38 frame = pack_header (tc_bytes d) code (fh_sequence h) (fh_bytes h) (fh_final h)" "fh_sequence h < 2 ^ 64" "1 \<le> fh_bytes h \<and> fh_bytes h \<le> MAX_PLAINTEXT_BYTES"
proof -
  have f: "54 \<le> length frame" "take 8 frame = FRAME_MAGIC" "(of_char (frame ! 37) :: nat) \<le> 1" "1 \<le> fh_bytes h \<and> fh_bytes h \<le> MAX_PLAINTEXT_BYTES"
    "direction_name (of_char (frame ! 24)) = Inr (fh_direction h)" "fh_session h = session_hex (take 16 (drop 8 frame))" "fh_sequence h = from_be (take 8 (drop 25 frame))"
    "fh_bytes h = from_be (take 4 (drop 33 frame))" "fh_final h = ((of_char (frame ! 37) :: nat) = 1)"
    by (rule inspect_cases [OF assms(1)])+
  show "1 \<le> fh_bytes h \<and> fh_bytes h \<le> MAX_PLAINTEXT_BYTES" by (rule f(4))
  have l: "length (take 8 (drop 25 frame)) = 8" "length (take 4 (drop 33 frame)) = 4" "length (take 16 (drop 8 frame)) = 16" using f(1) by simp_all
  show "fh_sequence h < 2 ^ 64" using from_be_bound [of "take 8 (drop 25 frame)"] unfolding l f(7) by simp
  have bytes: "take 16 (drop 8 frame) = tc_bytes d" 
  proof (rule session_hex_inj)
    have d: "length (tc_bytes d) = 16" "session_hex (tc_bytes d) = tc_session d" using assms(3) by (simp_all add: same_session_def)
    show "length (take 16 (drop 8 frame)) = length (tc_bytes d)" unfolding d(1) by (rule l(3))
    show "session_hex (take 16 (drop 8 frame)) = session_hex (tc_bytes d)" unfolding d(2) f(6) [symmetric] by (rule assms(2))
  qed
  have code: "(of_char (frame ! 24) :: nat) = code" using assms(4) f(5) by (auto simp: direction_name_def direction_code_def split: if_splits)
  have flag: "frame ! 37 = (if fh_final h then CHR 0x01 else CHR 0x00)"
  proof -
    have "frame ! 37 = char_of n" if "(of_char (frame ! 37) :: nat) = n" for n unfolding that [symmetric] by simp
    moreover have "char_of (0 :: nat) = CHR 0x00" "char_of (1 :: nat) = CHR 0x01" by (simp_all add: char_of_def bit_0)
    moreover have "(of_char (frame ! 37) :: nat) = 0 \<or> (of_char (frame ! 37) :: nat) = 1" using f(3) by linarith
    ultimately show ?thesis using f(9) by (metis zero_neq_one)
  qed
  have one: "take (Suc n) (drop m frame) = frame ! m # take n (drop (Suc m) frame)" if "m < length frame" for m n
    using that by (simp add: Cons_nth_drop_Suc [symmetric])
  have split: "take (m + n) (drop k frame) = take m (drop k frame) @ take n (drop (k + m) frame)" for m n k
    by (metis add.commute drop_drop take_add)
  have "take 38 frame = take 8 (drop 0 frame) @ take 16 (drop 8 frame) @ take (Suc 0) (drop 24 frame) @ take 8 (drop 25 frame) @ take 4 (drop 33 frame) @ take (Suc 0) (drop 37 frame)"
    using split [of 8 30 0] split [of 16 14 8] split [of 1 13 24] split [of 8 5 25] split [of 4 1 33] by simp
  also have "\<dots> = pack_header (tc_bytes d) code (fh_sequence h) (fh_bytes h) (fh_final h)"
  proof -
    have "to_be 8 (fh_sequence h) = take 8 (drop 25 frame)" "to_be 4 (fh_bytes h) = take 4 (drop 33 frame)" using to_from_be l f(7,8) by metis+
    moreover have "frame ! 24 = char_of code" unfolding code [symmetric] by simp
    moreover have "take (Suc 0) (drop 24 frame) = [frame ! 24]" "take (Suc 0) (drop 37 frame) = [frame ! 37]" using f(1) one by simp_all
    ultimately show ?thesis using f(2) bytes flag by (simp add: pack_header_def)
  qed
  finally show "take 38 frame = pack_header (tc_bytes d) code (fh_sequence h) (fh_bytes h) (fh_final h)" .
qed

lemma open_cases:
  assumes "open_frame L direction frame d = Inr ((p, h), d')"
  obtains code where "inspect_frame frame = Inr h" "fh_session h = tc_session d" "fh_direction h = direction" "fh_sequence h = next_of (tc_next_receive d) direction"
    "direction_code direction = Inr code" "tl_open L (tc_key d) (frame_nonce code (fh_sequence h)) (drop 38 frame) (associated_data d (take 38 frame)) = Some p"
    "length p = fh_bytes h" "d' = d\<lparr>tc_next_receive := dict_put direction (Suc (next_of (tc_next_receive d) direction)) (tc_next_receive d)\<rparr>"
  using assms by (auto simp: open_frame_def guard_simps Let_def)

lemma open_was_sealed:
  assumes "open_frame L direction frame d = Inr ((p, h), d')" "transit_law L" "same_session c d" "next_of (tc_next_send c) direction = next_of (tc_next_receive d) direction"
  obtains c' where "seal_frame L direction p (fh_final h) c = Inr (frame, c')" "same_session c' d'" "next_of (tc_next_send c') direction = next_of (tc_next_receive d') direction"
  using assms(1)
proof (rule open_cases)
  fix code
  assume h: "inspect_frame frame = Inr h" "fh_session h = tc_session d" "fh_direction h = direction" "fh_sequence h = next_of (tc_next_receive d) direction"
    and code: "direction_code direction = Inr code" and op: "tl_open L (tc_key d) (frame_nonce code (fh_sequence h)) (drop 38 frame) (associated_data d (take 38 frame)) = Some p"
    and p: "length p = fh_bytes h" and d': "d' = d\<lparr>tc_next_receive := dict_put direction (Suc (next_of (tc_next_receive d) direction)) (tc_next_receive d)\<rparr>"
  have dd: "same_session d d" using assms(3) by (simp add: same_session_def)
  have "direction_code (fh_direction h) = Inr code" using code h(3) by simp
  note head = inspected_header [OF h(1,2) dd this]
  have body: "drop 38 frame = tl_seal L (tc_key d) (frame_nonce code (fh_sequence h)) p (associated_data d (take 38 frame))" by (rule transit_laws(3) [OF assms(2) op])
  have same: "tc_key d = tc_key c" "associated_data d x = associated_data c x" "tc_bytes d = tc_bytes c" for x using assms(3) by (simp_all add: same_session_def associated_data_def)
  let ?n = "next_of (tc_next_send c) direction"
  have n: "fh_sequence h = ?n" using h(4) assms(4) by simp
  have "frame = take 38 frame @ drop 38 frame" by simp
  then have frame: "frame = pack_header (tc_bytes c) code ?n (length p) (fh_final h)
      @ tl_seal L (tc_key c) (frame_nonce code ?n) p (associated_data c (pack_header (tc_bytes c) code ?n (length p) (fh_final h)))"
    unfolding body unfolding head(1) same n p .
  have ok: "p \<noteq> []" "length p \<le> MAX_PLAINTEXT_BYTES" using head(3) p by auto
  let ?c = "c\<lparr>tc_next_send := dict_put direction (Suc ?n) (tc_next_send c)\<rparr>"
  have "seal_frame L direction p (fh_final h) c = Inr (frame, ?c)"
    using ok head(2) [unfolded n] by (simp add: seal_frame_def code Let_def require_def frame [symmetric])
  then show thesis
  proof (rule that)
    show "same_session ?c d'" using assms(3) by (simp add: same_session_def d')
    show "next_of (tc_next_send ?c) direction = next_of (tc_next_receive d') direction" using assms(4) by (simp add: next_of_def d')
  qed
qed

text \<open>
  That a frame cannot be forged: when the body of an arriving frame opens under the key with the associated data of its header, then some frame made with the key has
  that body and that associated data.
\<close>

definition unforged :: "transit_lib \<Rightarrow> cipher \<Rightarrow> string set \<Rightarrow> string list \<Rightarrow> bool" where
  "unforged L d made arriving \<longleftrightarrow> (\<forall>f \<in> set arriving. \<forall>h code p. inspect_frame f = Inr h \<and> direction_code (fh_direction h) = Inr code
     \<and> tl_open L (tc_key d) (frame_nonce code (fh_sequence h)) (drop 38 f) (associated_data d (take 38 f)) = Some p
     \<longrightarrow> (\<exists>g \<in> made. associated_data d (take 38 g) = associated_data d (take 38 f) \<and> drop 38 g = drop 38 f))"

lemma opened_was_made:
  assumes "open_frame L direction f d = Inr ((p, h), d')" "unforged L d made arriving" "f \<in> set arriving"
  shows "f \<in> made"
proof -
  from assms(1) obtain g where g: "g \<in> made" "associated_data d (take 38 g) = associated_data d (take 38 f)" "drop 38 g = drop 38 f"
    by (rule open_cases) (use assms(2,3) in \<open>unfold unforged_def, metis\<close>)
  have "take 38 g = take 38 f" using g(2) by (simp add: associated_data_def)
  then have "g = f" using g(3) by (metis append_take_drop_id)
  then show ?thesis using g(1) by simp
qed

lemma sent_some:
  assumes "send_chunks L direction chunks c = (r, frames, c')" "frames \<noteq> []"
  obtains x xs frame c1 rest where "chunks = x # xs" "seal_frame L direction x (xs = []) c = Inr (frame, c1)" "frames = frame # rest"
    "xs = [] \<and> rest = [] \<and> r = Inr () \<or> xs \<noteq> [] \<and> send_chunks L direction xs c1 = (r, rest, c')"
  using assms by (cases chunks) (auto split: if_splits sum.splits prod.splits)

lemma frames_later:
  "send_chunks L direction chunks c = (r, frames, c') \<Longrightarrow> transit_law L \<Longrightarrow> same_session c d \<Longrightarrow> f \<in> set frames
     \<Longrightarrow> \<exists>h. inspect_frame f = Inr h \<and> fh_direction h = direction \<and> next_of (tc_next_send c) direction \<le> fh_sequence h"
proof (induction chunks arbitrary: c frames)
  case (Cons y ys)
  then have "frames \<noteq> []" by auto
  with Cons.prems(1) show ?case
  proof (rule sent_some)
    fix x xs frame c1 rest
    assume ch: "y # ys = x # xs" and s: "seal_frame L direction x (xs = []) c = Inr (frame, c1)" and f: "frames = frame # rest"
      and tail: "xs = [] \<and> rest = [] \<and> r = Inr () \<or> xs \<noteq> [] \<and> send_chunks L direction xs c1 = (r, rest, c')"
    show ?thesis
    proof (cases "f = frame")
      case True
      then show ?thesis using seal_inspect [OF s Cons.prems(2,3)] by simp
    next
      case False
      then have "send_chunks L direction ys c1 = (r, rest, c')" "f \<in> set rest" "same_session c1 d" using tail f ch Cons.prems(3,4) sealed_next(3) [OF s] by auto
      then obtain h where "inspect_frame f = Inr h" "fh_direction h = direction" "next_of (tc_next_send c1) direction \<le> fh_sequence h"
        using Cons.IH Cons.prems(2) by blast
      then show ?thesis using sealed_next(1) [OF s] by auto
    qed
  qed
qed auto

lemma receive_was_sent:
  "receive_frames L direction arriving d = (Inr (), parts, d') \<Longrightarrow> transit_law L \<Longrightarrow> same_session c d
     \<Longrightarrow> next_of (tc_next_send c) direction = next_of (tc_next_receive d) direction \<Longrightarrow> send_chunks L direction chunks c = (r, frames, c')
     \<Longrightarrow> unforged L d made (map fst arriving)
     \<Longrightarrow> \<forall>f \<in> made. f \<in> set frames \<or> (\<exists>h. inspect_frame f = Inr h \<and> (fh_direction h = direction \<longrightarrow> fh_sequence h < next_of (tc_next_send c) direction))
     \<Longrightarrow> r = Inr () \<and> map fst parts = chunks"
proof (induction L direction arriving d arbitrary: parts c chunks frames rule: receive_frames.induct)
  case (2 L direction frame count arriving d)
  have tail: "unforged L d made (map fst arriving)" using 2(8) by (simp add: unforged_def)
  show ?case
  proof (cases "open_frame L direction frame d")
    case (Inl e)
    then have e: "e = replayed" "receive_frames L direction arriving d = (Inr (), parts, d')" using 2(3) by (auto split: if_splits)
    show ?thesis by (rule 2(1) [OF Inl e 2(4-7) tail 2(9)])
  next
    case (Inr out)
    then obtain p h d1 where o: "open_frame L direction frame d = Inr ((p, h), d1)" by (cases out) auto
    have made: "frame \<in> made" by (rule opened_was_made [OF o 2(8)]) simp
    obtain code where h: "inspect_frame frame = Inr h" "fh_direction h = direction" "fh_sequence h = next_of (tc_next_send c) direction"
      "d1 = d\<lparr>tc_next_receive := dict_put direction (Suc (next_of (tc_next_receive d) direction)) (tc_next_receive d)\<rparr>"
      using open_cases [OF o] 2(6) by metis
    then have inside: "frame \<in> set frames" using 2(9) made by fastforce
    then have "frames \<noteq> []" by auto
    with 2(7) show ?thesis
    proof (rule sent_some)
      fix x xs first c1 rest
      assume ch: "chunks = x # xs" and s: "seal_frame L direction x (xs = []) c = Inr (first, c1)" and f: "frames = first # rest"
        and more: "xs = [] \<and> rest = [] \<and> r = Inr () \<or> xs \<noteq> [] \<and> send_chunks L direction xs c1 = (r, rest, c')"
      have c1: "same_session c1 d" using 2(5) sealed_next(3) [OF s] by simp
      have "frame = first"
      proof (rule ccontr)
        assume "frame \<noteq> first"
        then have "frame \<in> set rest" "send_chunks L direction xs c1 = (r, rest, c')" using inside f more by auto
        then show False using frames_later [of L direction xs c1 r rest c' d frame] 2(4) c1 h(1,3) sealed_next(1) [OF s] by auto
      qed
      obtain h' where op: "open_frame L direction first d = Inr ((x, h'), d\<lparr>tc_next_receive := dict_put direction (Suc (next_of (tc_next_receive d) direction)) (tc_next_receive d)\<rparr>)"
        "fh_final h' = (xs = [])" by (rule seal_open [OF s 2(4,5) 2(6) [symmetric]])
      then have px: "p = x" "fh_final h = (xs = [])" using o \<open>frame = first\<close> by auto
      show ?thesis
      proof (cases "xs = []")
        case True
        then show ?thesis using 2(3) o px more ch by auto
      next
        case False
        then have fin: "\<not> fh_final h" using px by simp
        then obtain tl where t: "receive_frames L direction arriving d1 = (Inr (), tl, d')" "parts = (p, count) # tl"
          using 2(3) o by (auto split: prod.splits)
        have d1: "same_session c1 d1" using c1 by (simp add: h(4) same_session_def)
        have n1: "next_of (tc_next_send c1) direction = next_of (tc_next_receive d1) direction" unfolding sealed_next(1) [OF s] 2(6) h(4) by (simp add: next_of_def)
        have sent1: "send_chunks L direction xs c1 = (r, rest, c')" using more False by simp
        have same: "tc_key d1 = tc_key d" "associated_data d1 y = associated_data d y" for y by (simp_all add: h(4) associated_data_def)
        have u1: "unforged L d1 made (map fst arriving)" using tail unfolding unforged_def same .
        have m1: "\<forall>f \<in> made. f \<in> set rest \<or> (\<exists>h. inspect_frame f = Inr h \<and> (fh_direction h = direction \<longrightarrow> fh_sequence h < next_of (tc_next_send c1) direction))"
        proof
          fix g assume "g \<in> made"
          then consider "g \<in> set rest" | "g = first" | h' where "inspect_frame g = Inr h'" "fh_direction h' = direction \<longrightarrow> fh_sequence h' < next_of (tc_next_send c) direction"
            using 2(9) f by auto
          then show "g \<in> set rest \<or> (\<exists>h. inspect_frame g = Inr h \<and> (fh_direction h = direction \<longrightarrow> fh_sequence h < next_of (tc_next_send c1) direction))"
            unfolding sealed_next(1) [OF s] using h(1,3) \<open>frame = first\<close> by cases auto
        qed
        have "r = Inr () \<and> map fst tl = xs" by (rule 2(2) [OF o refl refl fin t(1) 2(4) d1 n1 sent1 u1 m1])
        then show ?thesis using t(2) px ch by simp
      qed
    qed
  qed
qed simp

end
