(* ===== verification/Transit_Guarantees.thy ===== *)
theory Transit_Guarantees
  imports Transit_Links
begin

section \<open>What a transit gives its ends\<close>

text \<open>
  The properties of \<open>src/rynmesh/peer_transit.py\<close>: a request and its answer cross a peer and two hops that repeat frames; and what an end accepts from a peer
  that may send anything.
\<close>

text \<open>What can be sent as one stream.\<close>

definition sendable :: "string list \<Rightarrow> bool" where
  "sendable chunks \<longleftrightarrow> chunks \<noteq> [] \<and> list_all (\<lambda>x. x \<noteq> [] \<and> length x \<le> MAX_PLAINTEXT_BYTES) chunks \<and> length chunks \<le> 2 ^ 64"

lemma sending_works:
  "chunks \<noteq> [] \<Longrightarrow> list_all (\<lambda>x. x \<noteq> [] \<and> length x \<le> MAX_PLAINTEXT_BYTES) chunks \<Longrightarrow> next_of (tc_next_send c) direction + length chunks \<le> 2 ^ 64
     \<Longrightarrow> direction_code direction = Inr code \<Longrightarrow> \<exists>frames c'. send_chunks L direction chunks c = (Inr (), frames, c')"
proof (induction chunks arbitrary: c)
  case (Cons x xs)
  have x: "x \<noteq> []" "length x \<le> MAX_PLAINTEXT_BYTES" and n: "next_of (tc_next_send c) direction < 2 ^ 64" using Cons.prems(2,3) by simp_all
  have "\<exists>frame c1. seal_frame L direction x (xs = []) c = Inr (frame, c1)" using x n by (simp add: seal_frame_def Cons.prems(4) Let_def require_def)
  then obtain frame c1 where s: "seal_frame L direction x (xs = []) c = Inr (frame, c1)" by blast
  show ?case
  proof (cases "xs = []")
    case True
    then show ?thesis using s x by simp
  next
    case False
    have "next_of (tc_next_send c1) direction + length xs \<le> 2 ^ 64" using Cons.prems(3) sealed_next(1) [OF s] by simp
    then obtain frames c' where "send_chunks L direction xs c1 = (Inr (), frames, c')" using Cons.IH False Cons.prems(2,4) by fastforce
    then show ?thesis using s x False by simp
  qed
qed simp

lemma streams_go_out:
  assumes "sendable chunks" "next_of (tc_next_send c) direction = 0" "direction = ''request'' \<or> direction = ''response''"
  obtains report frames c' where "send_stream L wire direction chunks c = (Inr report, frames, c')"
proof -
  obtain code where "direction_code direction = Inr code" using assms(3) by (auto simp: direction_code_def)
  moreover have "next_of (tc_next_send c) direction + length chunks \<le> 2 ^ 64" "chunks \<noteq> []" "list_all (\<lambda>x. x \<noteq> [] \<and> length x \<le> MAX_PLAINTEXT_BYTES) chunks"
    using assms(1,2) by (simp_all add: sendable_def)
  ultimately obtain frames c' where "send_chunks L direction chunks c = (Inr (), frames, c')" using sending_works by blast
  then show thesis using that by (simp add: send_stream_def)
qed

text \<open>The two ends of a session, set up as \<open>for_source\<close> and \<open>for_target\<close> do it.\<close>

definition ends_of :: "transit_lib \<Rightarrow> session_open \<Rightarrow> string \<Rightarrow> string \<Rightarrow> cipher \<Rightarrow> cipher \<Rightarrow> bool" where
  "ends_of L s ephemeral key c d \<longleftrightarrow> length ephemeral = 32 \<and> length key = 32 \<and> hex_text 32 (so_session s) \<and> so_ephemeral s = messaging_public_key L ephemeral
     \<and> for_source L (so_session s) (so_source s) (so_target s) (messaging_public_key L key) ephemeral = Inr c \<and> for_target L s key = Inr d"

lemma ends:
  assumes "transit_law L" "ends_of L s ephemeral key c d"
  shows "c = d" "same_session c c" "tc_session c = so_session s" "next_of (tc_next_send c) direction = 0" "next_of (tc_next_receive c) direction = 0"
proof -
  have h: "length ephemeral = 32" "length key = 32" "hex_text 32 (so_session s)" "so_ephemeral s = messaging_public_key L ephemeral"
    "for_source L (so_session s) (so_source s) (so_target s) (messaging_public_key L key) ephemeral = Inr c" "for_target L s key = Inr d"
    using assms(2) by (simp_all add: ends_of_def)
  show "c = d" "same_session c c" "tc_session c = so_session s" "next_of (tc_next_send c) direction = 0" "next_of (tc_next_receive c) direction = 0"
    by (rule ends_meet [OF assms(1) h])+
qed

lemma same_sym: "same_session c d \<Longrightarrow> same_session d c"
  by (simp add: same_session_def)

lemma same_trans: "same_session c d \<Longrightarrow> same_session d e \<Longrightarrow> same_session c e"
  by (simp add: same_session_def)

subsection \<open>An instance\<close>

definition toy_tag :: "string \<Rightarrow> string \<Rightarrow> string \<Rightarrow> string" where
  "toy_tag k n ad = take 16 (n @ k @ ad @ replicate 16 (CHR ''x''))"

definition toy_add :: "char \<Rightarrow> char \<Rightarrow> char" where
  "toy_add x y = char_of (of_char x + of_char y :: nat)"

definition toy_lib :: transit_lib where
  "toy_lib = \<lparr>tl_crypto = demo_crypto, tl_raw_hash = id, tl_public = id, tl_exchange = (\<lambda>a b. Some (map2 toy_add a b)), tl_hkdf = (\<lambda>salt info s. s @ salt),
     tl_seal = (\<lambda>k n p ad. p @ toy_tag k n ad),
     tl_open = (\<lambda>k n c ad. let m = length c - 16; p = take m c in if c = p @ toy_tag k n ad then Some p else None)\<rparr>"

lemma toy_lib_law: "transit_law toy_lib"
proof -
  have tag: "length (toy_tag k n ad) = 16" for k n ad by (simp add: toy_tag_def)
  have "map2 toy_add a b = map2 toy_add b a" for a b
    by (induction a b rule: list_induct2') (simp_all add: toy_add_def add.commute)
  then show ?thesis by (auto simp: transit_law_def toy_lib_def tag Let_def split: if_splits)
qed

definition toy_key :: string where "toy_key = replicate 32 (CHR ''k'')"
definition toy_ephemeral :: string where "toy_ephemeral = replicate 32 (CHR ''e'')"

definition toy_session :: session_open where
  "toy_session = \<lparr>so_session = replicate 32 (CHR ''a''), so_source = ''S'', so_target = ''T'', so_ephemeral = messaging_public_key toy_lib toy_ephemeral,
     so_expires = [], so_hops = 1, so_version = PROTOCOL_VERSION, so_created = []\<rparr>"

lemma toy_ends: "\<exists>c d. ends_of toy_lib toy_session toy_ephemeral toy_key c d"
proof -
  have l: "length toy_ephemeral = 32" "length toy_key = 32" by (simp_all add: toy_ephemeral_def toy_key_def)
  have sid: "hex_text 32 (so_session toy_session)" by (simp add: toy_session_def hex_text_def is_lower_hex_def list_all_iff)
  let ?s = toy_session
  obtain k where k: "derive_key toy_lib toy_ephemeral (messaging_public_key toy_lib toy_key) (so_session ?s) (so_source ?s) (so_target ?s) = Inr k"
    "derive_key toy_lib toy_key (messaging_public_key toy_lib toy_ephemeral) (so_session ?s) (so_source ?s) (so_target ?s) = Inr k"
    by (rule keys_agree [OF toy_lib_law l])
  have e: "so_ephemeral ?s = messaging_public_key toy_lib toy_ephemeral" by (simp add: toy_session_def)
  show ?thesis unfolding ends_of_def for_source_def for_target_def e k bnd_simps new_cipher_def parse_canonical [OF sid] using l sid by blast
qed

text \<open>A hop that delivers everything twice.\<close>

definition twice :: "string list \<Rightarrow> (string \<times> int) list" where
  "twice frames = concat (map (\<lambda>f. [(f, 1), (f, 1)]) frames)"

lemma resent_twice: "resent seen (map (\<lambda>f. (f, 1)) frames) (twice frames)"
proof (induction frames arbitrary: seen)
  case (Cons f frames)
  have "resent (insert f seen) (map (\<lambda>f. (f, 1)) frames) ((f, 1) # twice frames)" by (rule again [OF _ Cons]) simp
  then have "resent (insert (fst (f, 1 :: int)) seen) (map (\<lambda>f. (f, 1)) frames) ((f, 1) # twice frames)" by simp
  from arrives [OF this] show ?case by (simp add: twice_def)
qed (simp add: twice_def all_arrived)

lemma resent_more: "resent seen fresh arriving \<Longrightarrow> resent seen fresh (arriving @ rest)"
  by (induction rule: resent.induct) (auto intro: resent.intros)

lemma toy_sendable: "sendable [''ab'', ''c'']" "sendable [''d'']"
  by (simp_all add: sendable_def MAX_PLAINTEXT_BYTES_def)

subsection \<open>The properties\<close>

text \<open>C15: Through a peer and two hops that repeat frames, a request arrives exactly, its answer arrives exactly, the peer counts each frame once, and both ends of either
  stream report the same number of frames, bytes and digest.\<close>

theorem transit_delivers:
  assumes "transit_law L" "ends_of L s ephemeral key c d"
    "sendable chunks" "send_stream L w1 ''request'' chunks c = (sent, up, c')" "map fst F = up" "resent {} F G"
    "relay_once w (so_session s) G B = (outcome, up', down')" "map fst F' = up'" "resent {} F' G'" "receive_stream L ''request'' G' d = (got, body, d')"
    "sendable answer" "send_stream L w2 ''response'' answer d' = (sent', down, d'')" "map fst H = down" "resent {} H B"
    "map fst H' = down'" "resent {} H' B'" "receive_stream L ''response'' B' c' = (got', reply, c'')"
  shows "body = chunks \<and> reply = answer
    \<and> (\<exists>r r'. sent = Inr r \<and> got = Inr r' \<and> reports_agree r r') \<and> (\<exists>r r'. sent' = Inr r \<and> got' = Inr r' \<and> reports_agree r r')
    \<and> (\<exists>n. outcome = Inr n \<and> rc_request_frames n = length chunks \<and> rc_response_frames n = length answer) \<and> up' = up \<and> down' = down"
proof -
  note e = ends [OF assms(1,2)]
  have cd: "same_session c d" using e(1,2) by simp
  have d: "next_of (tc_next_send d) direction = 0" "next_of (tc_next_receive d) direction = 0" "tc_session d = so_session s" for direction using e by simp_all
  obtain r where r: "sent = Inr r" using streams_go_out [OF assms(3) e(4)] assms(4) by (metis prod.inject)
  note s1 = assms(4) [unfolded r]
  note hop1 = stream_crosses [OF assms(1) cd e(4) d(2) s1]
  have f1: "forward (so_session s) ''request'' 0 G = (Inr (), F)" using hop1(1) [OF assms(6,5)] d(3) by simp
  then have up: "up' = up" using assms(5,7) by (auto simp: relay_once_def split: prod.splits)
  obtain r' where t: "got = Inr r'" "body = chunks" "reports_agree r r'" "same_session c d'" "tc_next_send d' = tc_next_send d"
    using hop1(2) [OF assms(9)] assms(8,10) up by auto
  have sent1: "send_chunks L ''request'' chunks c = (Inr (), up, c')" by (rule hop1(3) [OF assms(6,5)])
  note keeps = sending_keeps [OF sent1]
  have cc: "same_session c' c" using keeps e(2) by blast
  have dc: "same_session d' c'" by (rule same_trans [OF same_sym [OF t(4)] same_sym [OF cc]])
  have sid: "tc_session c' = so_session s" using cc e(3) by (simp add: same_session_def)
  have z: "next_of (tc_next_send d') ''response'' = 0" "next_of (tc_next_receive c') ''response'' = 0" using t(5) d(1) keeps e(5) by simp_all
  obtain q where q: "sent' = Inr q" using streams_go_out [OF assms(11) z(1)] assms(12) by (metis prod.inject)
  note hop2 = stream_crosses [OF assms(1) dc z assms(12) [unfolded q]]
  have f2: "forward (so_session s) ''response'' 0 B = (Inr (), H)" using hop2(1) [OF assms(14,13)] sid by simp
  have out: "down' = down" "\<exists>n. outcome = Inr n \<and> rc_request_frames n = length F \<and> rc_response_frames n = length H"
    using assms(7,13) f1 f2 by (auto simp: relay_once_def)
  obtain q' where u: "got' = Inr q'" "reply = answer" "reports_agree q q'" using hop2(2) [OF assms(16)] assms(15,17) out(1) by auto
  have "length F = length chunks" "length H = length answer" using hop1(4) [OF assms(6,5)] hop2(4) [OF assms(14,13)] assms(5,13) by (metis length_map)+
  with r t q u up out show ?thesis by auto
qed

theorem transit_delivers_witness:
  "\<exists>c d up c' up' down' outcome got d' sent' down d'' got' c''. ends_of toy_lib toy_session toy_ephemeral toy_key c d
    \<and> (\<exists>sent. send_stream toy_lib (\<lambda>_. 1) ''request'' [''ab'', ''c''] c = (sent, up, c'))
    \<and> relay_once (\<lambda>_. 1) (so_session toy_session) (twice up) (twice down) = (outcome, up', down')
    \<and> receive_stream toy_lib ''request'' (twice up') d = (got, [''ab'', ''c''], d') \<and> send_stream toy_lib (\<lambda>_. 1) ''response'' [''d''] d' = (sent', down, d'')
    \<and> receive_stream toy_lib ''response'' (twice down') c' = (got', [''d''], c'') \<and> (\<exists>n. outcome = Inr n \<and> rc_request_frames n = 2 \<and> rc_response_frames n = 1)"
proof -
  obtain c d where e: "ends_of toy_lib toy_session toy_ephemeral toy_key c d" using toy_ends by blast
  obtain sent up c' where s: "send_stream toy_lib (\<lambda>_. 1) ''request'' [''ab'', ''c''] c = (sent, up, c')" by (metis prod.exhaust)
  obtain out0 up' down0 where "relay_once (\<lambda>_. 1) (so_session toy_session) (twice up) [] = (out0, up', down0)" by (metis prod.exhaust)
  define up1 where "up1 = map fst (snd (forward (so_session toy_session) ''request'' 0 (twice up)))"
  obtain got body d' where r: "receive_stream toy_lib ''request'' (twice up1) d = (got, body, d')" by (metis prod.exhaust)
  obtain sent' down d'' where a: "send_stream toy_lib (\<lambda>_. 1) ''response'' [''d''] d' = (sent', down, d'')" by (metis prod.exhaust)
  obtain outcome up2 down' where o: "relay_once (\<lambda>_. 1) (so_session toy_session) (twice up) (twice down) = (outcome, up2, down')" by (metis prod.exhaust)
  have up2: "up2 = up1" using o by (auto simp: relay_once_def up1_def split: sum.splits prod.splits)
  obtain got' reply c'' where u: "receive_stream toy_lib ''response'' (twice down') c' = (got', reply, c'')" by (metis prod.exhaust)
  have ms: "map fst (map (\<lambda>f. (f, 1 :: int)) fs) = fs" for fs :: "string list" by (simp add: o_def)
  note it = transit_delivers [OF toy_lib_law e toy_sendable(1) s ms resent_twice o [unfolded up2] ms resent_twice r toy_sendable(2) a ms resent_twice ms resent_twice u]
  show ?thesis
    by (rule exI [of _ c], rule exI [of _ d], rule exI [of _ up], rule exI [of _ c'], rule exI [of _ up1], rule exI [of _ down'], rule exI [of _ outcome], rule exI [of _ got],
        rule exI [of _ d'], rule exI [of _ sent'], rule exI [of _ down], rule exI [of _ d''], rule exI [of _ got'], rule exI [of _ c''])
       (use it e s o r a u up2 in auto)
qed

text \<open>C16: Whatever arrives at the target, in whatever order and however often, when no frame is forged: if a stream is complete, then the source had sent all of its
  chunks, and the target delivered exactly these, once and in order, even when what it sends itself comes back. Both ends report the same stream.\<close>

theorem transit_authentic:
  assumes "transit_law L" "ends_of L s ephemeral key c d" "send_stream L w ''request'' chunks c = (sent, up, c')"
    "same_session e d" "send_stream L w' ''response'' answer e = (sent', down, e')"
    "unforged L d (set up \<union> set down) (map fst arriving)" "receive_stream L ''request'' arriving d = (Inr report, body, d')"
  shows "body = chunks \<and> (\<exists>r. sent = Inr r \<and> reports_agree r report)"
proof -
  note en = ends [OF assms(1,2)]
  obtain parts where p: "receive_frames L ''request'' arriving d = (Inr (), parts, d')" "body = map fst parts" "report = stream_report L parts"
    using assms(7) by (auto simp: receive_stream_def guard_simps split: prod.splits)
  obtain r where s: "send_chunks L ''request'' chunks c = (r, up, c')" "sent = bnd r (\<lambda>_. Inr (stream_report L (zip chunks (map w up))))"
    using assms(3) by (auto simp: send_stream_def split: prod.splits)
  obtain r' where t: "send_chunks L ''response'' answer e = (r', down, e')" using assms(5) by (auto simp: send_stream_def split: prod.splits)
  have cd: "same_session c d" "next_of (tc_next_send c) ''request'' = next_of (tc_next_receive d) ''request''" using en by simp_all
  have made: "\<forall>f \<in> set up \<union> set down. f \<in> set up \<or> (\<exists>h. inspect_frame f = Inr h \<and> (fh_direction h = ''request'' \<longrightarrow> fh_sequence h < next_of (tc_next_send c) ''request''))"
    using frames_later [OF t assms(1,4)] by fastforce
  have out: "r = Inr () \<and> map fst parts = chunks" by (rule receive_was_sent [OF p(1) assms(1) cd s(1) assms(6) made])
  then have "send_chunks L ''request'' chunks c = (Inr (), up, c')" using s(1) by simp
  then have "length up = length chunks" using sending_keeps by blast
  then have "reports_agree (stream_report L (zip chunks (map w up))) (stream_report L (zip chunks (map snd parts)))" using out by (intro reports_zip) auto
  moreover have "zip chunks (map snd parts) = parts" using out by (metis zip_map_fst_snd)
  ultimately show ?thesis using out p(2,3) s(2) by simp
qed

text \<open>The frames come twice, and between them those of the answer.\<close>

theorem transit_authentic_witness:
  "\<exists>c d up down d'. ends_of toy_lib toy_session toy_ephemeral toy_key c d \<and> (\<exists>r c'. send_stream toy_lib (\<lambda>_. 1) ''request'' [''ab'', ''c''] c = (Inr r, up, c'))
     \<and> (\<exists>r e'. send_stream toy_lib (\<lambda>_. 1) ''response'' [''d''] d = (Inr r, down, e'))
     \<and> (\<exists>report. receive_stream toy_lib ''request'' (twice up @ twice down) d = (Inr report, [''ab'', ''c''], d'))"
proof -
  obtain c d where e: "ends_of toy_lib toy_session toy_ephemeral toy_key c d" using toy_ends by blast
  note f = ends [OF toy_lib_law e]
  have cd: "same_session c d" "same_session d d" "next_of (tc_next_receive d) ''request'' = 0" "next_of (tc_next_send d) ''response'' = 0" using f by simp_all
  obtain r up c' where s: "send_stream toy_lib (\<lambda>_. 1) ''request'' [''ab'', ''c''] c = (Inr r, up, c')"
    using streams_go_out [OF toy_sendable(1) f(4), of "''request''" toy_lib "\<lambda>_. 1"] by blast
  obtain r' down e' where t: "send_stream toy_lib (\<lambda>_. 1) ''response'' [''d''] d = (Inr r', down, e')"
    using streams_go_out [OF toy_sendable(2) cd(4), of toy_lib "\<lambda>_. 1"] by blast
  have m: "map fst (map (\<lambda>f. (f, 1 :: int)) up) = up" by (simp add: o_def)
  obtain report body d' where g: "receive_stream toy_lib ''request'' (twice up @ twice down) d = (Inr report, body, d')"
    using stream_crosses(2) [OF toy_lib_law cd(1) f(4) cd(3) s resent_more [OF resent_twice] m] by blast
  have "map fst (twice fs) = concat (map (\<lambda>f. [f, f]) fs)" for fs by (induction fs) (simp_all add: twice_def)
  then have "set (map fst (twice up @ twice down)) = set up \<union> set down" by auto
  then have u: "unforged toy_lib d (set up \<union> set down) (map fst (twice up @ twice down))" by (auto simp: unforged_def)
  show ?thesis using transit_authentic [OF toy_lib_law e s cd(2) t u g] e s t g by blast
qed

subsection \<open>A time that is not refused\<close>

text \<open>An expiry before year 1 in UTC leaves \<open>_parse_time\<close> as an OverflowError, not as a \<open>PeerTransitError\<close>.\<close>

lemma transit_time_escapes: "transit_time ''0001-01-01T00:00:00+01:00'' = Inl OverflowError"
  by code_simp

end
