(* ===== verification/Routes.thy ===== *)
theory Routes
  imports Prelude
begin

section \<open>The choice of a route\<close>

text \<open>
  \<open>RouteManager\<close>, \<open>RoutePolicy\<close> and \<open>PathMetrics\<close> of \<open>src/rynmesh/peer_transit.py\<close>: between requests the direct path is left for a peer only when it is bad, and taken
  again only after good probes. Floating-point numbers are the type \<open>'f\<close> with the operations of \<open>floats\<close>, about which nothing is assumed. The
  environment that a policy is read from is not modelled.
\<close>

record 'f floats =
  fl_less :: "'f \<Rightarrow> 'f \<Rightarrow> bool"
  fl_leq :: "'f \<Rightarrow> 'f \<Rightarrow> bool"
  fl_add :: "'f \<Rightarrow> 'f \<Rightarrow> 'f"
  fl_sub :: "'f \<Rightarrow> 'f \<Rightarrow> 'f"
  fl_mul :: "'f \<Rightarrow> 'f \<Rightarrow> 'f"
  fl_of :: "int \<Rightarrow> 'f"
  fl_inf :: 'f

text \<open>Python's \<open>max\<close> and \<open>min\<close> of two numbers: the first, unless the second beats it.\<close>

definition fl_max :: "'f floats \<Rightarrow> 'f \<Rightarrow> 'f \<Rightarrow> 'f" where
  "fl_max A a b = (if fl_less A a b then b else a)"

definition fl_min :: "'f floats \<Rightarrow> 'f \<Rightarrow> 'f \<Rightarrow> 'f" where
  "fl_min A a b = (if fl_less A b a then b else a)"

datatype route_state = DIRECT | DEGRADED | PEER_TRANSIT | RECOVERING

record 'f path_metrics =
  pm_reachable :: bool
  pm_rtt :: 'f
  pm_loss :: 'f
  pm_failures :: int

definition score :: "'f floats \<Rightarrow> 'f path_metrics \<Rightarrow> 'f" where
  "score A m = (if \<not> pm_reachable m then fl_inf A
     else fl_add A (fl_max A (fl_of A 0) (pm_rtt m)) (fl_mul A (fl_of A 2000) (fl_max A (fl_of A 0) (fl_min A (fl_of A 1) (pm_loss m)))))"

record 'f route_policy =
  rt_hard_failures :: int
  rt_loss :: 'f
  rt_latency :: 'f
  rt_improvement :: 'f
  rt_degraded_hold :: 'f
  rt_transit_hold :: 'f
  rt_recovery_hold :: 'f
  rt_recovery_probes :: int

record 'f route_event =
  ev_from :: route_state
  ev_to :: route_state
  ev_at :: 'f
  ev_reason :: string

record 'f route_manager =
  rm_state :: route_state
  rm_changed :: 'f
  rm_degraded :: "'f option"
  rm_recovery :: "'f option"
  rm_probes :: int
  rm_events :: "'f route_event list"

definition new_manager :: "'f floats \<Rightarrow> 'f route_manager" where
  "new_manager A = \<lparr>rm_state = DIRECT, rm_changed = fl_of A 0, rm_degraded = None, rm_recovery = None, rm_probes = 0, rm_events = []\<rparr>"

definition path_mode :: "'f route_manager \<Rightarrow> string" where
  "path_mode m = (case rm_state m of PEER_TRANSIT \<Rightarrow> ''peer_transit'' | RECOVERING \<Rightarrow> ''peer_transit'' | _ \<Rightarrow> ''direct'')"

definition change :: "route_state \<Rightarrow> 'f \<Rightarrow> string \<Rightarrow> 'f route_manager \<Rightarrow> 'f route_manager" where
  "change state at reason m = m\<lparr>rm_state := state, rm_changed := at,
     rm_events := rm_events m @ [\<lparr>ev_from = rm_state m, ev_to = state, ev_at = at, ev_reason = reason\<rparr>]\<rparr>"

definition degraded :: "'f floats \<Rightarrow> 'f route_policy \<Rightarrow> 'f path_metrics \<Rightarrow> bool" where
  "degraded A P direct \<longleftrightarrow> \<not> pm_reachable direct \<or> rt_hard_failures P \<le> pm_failures direct \<or> fl_less A (rt_loss P) (pm_loss direct)
     \<or> fl_less A (rt_latency P) (pm_rtt direct)"

definition transit_better :: "'f floats \<Rightarrow> 'f route_policy \<Rightarrow> 'f path_metrics \<Rightarrow> 'f path_metrics option \<Rightarrow> bool" where
  "transit_better A P direct transit \<longleftrightarrow> (case transit of None \<Rightarrow> False | Some t \<Rightarrow> pm_reachable t
     \<and> (\<not> pm_reachable direct \<or> fl_leq A (score A t) (fl_mul A (score A direct) (fl_sub A (fl_of A 1) (rt_improvement P)))))"

definition held :: "'f floats \<Rightarrow> 'f \<Rightarrow> 'f option \<Rightarrow> 'f \<Rightarrow> bool" where
  "held A now since hold \<longleftrightarrow> (case since of None \<Rightarrow> False | Some t \<Rightarrow> fl_leq A hold (fl_sub A now t))"

definition update :: "'f floats \<Rightarrow> 'f route_policy \<Rightarrow> 'f path_metrics \<Rightarrow> 'f path_metrics option \<Rightarrow> 'f \<Rightarrow> 'f route_manager \<Rightarrow> 'f route_manager" where
  "update A P direct transit now m = (let bad = degraded A P direct; better = transit_better A P direct transit; hard = rt_hard_failures P \<le> pm_failures direct in
     case rm_state m of
       DIRECT \<Rightarrow> if bad then let m = change DEGRADED now ''direct_degraded'' (m\<lparr>rm_degraded := Some now\<rparr>) in
           if better \<and> hard then change PEER_TRANSIT now ''hard_failure'' m else m
         else m
     | DEGRADED \<Rightarrow> if \<not> bad then change DIRECT now ''direct_recovered_before_switch'' (m\<lparr>rm_degraded := None\<rparr>)
         else if better \<and> rm_degraded m \<noteq> None \<and> (hard \<or> held A now (rm_degraded m) (rt_degraded_hold P)) then change PEER_TRANSIT now ''transit_better'' m
         else m
     | PEER_TRANSIT \<Rightarrow> if \<not> bad \<and> held A now (Some (rm_changed m)) (rt_transit_hold P)
         then change RECOVERING now ''direct_recovery_started'' (m\<lparr>rm_recovery := Some now, rm_probes := 1\<rparr>)
         else m
     | RECOVERING \<Rightarrow> if bad then change PEER_TRANSIT now ''direct_recovery_failed'' (m\<lparr>rm_recovery := None, rm_probes := 0\<rparr>)
         else let m = m\<lparr>rm_probes := rm_probes m + 1\<rparr> in
           if held A now (rm_recovery m) (rt_recovery_hold P) \<and> rt_recovery_probes P \<le> rm_probes m
           then change DIRECT now ''direct_recovered'' (m\<lparr>rm_degraded := None, rm_recovery := None, rm_probes := 0\<rparr>)
           else m)"

subsection \<open>The manager over time\<close>

text \<open>The calls of \<open>update\<close> a manager has had, the latest first.\<close>

record 'f measurement =
  ms_direct :: "'f path_metrics"
  ms_transit :: "'f path_metrics option"
  ms_now :: 'f

primrec managed :: "'f floats \<Rightarrow> 'f route_policy \<Rightarrow> 'f measurement list \<Rightarrow> 'f route_manager" where
  "managed A P [] = new_manager A"
| "managed A P (u # us) = update A P (ms_direct u) (ms_transit u) (ms_now u) (managed A P us)"

definition bad_at :: "'f floats \<Rightarrow> 'f route_policy \<Rightarrow> 'f measurement \<Rightarrow> bool" where
  "bad_at A P u \<longleftrightarrow> degraded A P (ms_direct u)"

text \<open>What a state says of the last measurements.\<close>

definition explains :: "'f floats \<Rightarrow> 'f route_policy \<Rightarrow> 'f measurement list \<Rightarrow> 'f route_manager \<Rightarrow> bool" where
  "explains A P us m \<longleftrightarrow> (case rm_state m of
     DEGRADED \<Rightarrow> \<exists>recent rest. us = recent @ rest \<and> recent \<noteq> [] \<and> (\<forall>u \<in> set recent. bad_at A P u) \<and> rm_degraded m = Some (ms_now (last recent))
   | RECOVERING \<Rightarrow> \<exists>recent rest. us = recent @ rest \<and> recent \<noteq> [] \<and> (\<forall>u \<in> set recent. \<not> bad_at A P u) \<and> rm_recovery m = Some (ms_now (last recent))
       \<and> rm_probes m = int (length recent)
   | _ \<Rightarrow> True)"

text \<open>The log of the changes: linked, from the start to the present.\<close>

fun log_links :: "route_state \<Rightarrow> 'f route_event list \<Rightarrow> route_state \<Rightarrow> bool" where
  "log_links s [] t = (s = t)"
| "log_links s (e # es) t = (ev_from e = s \<and> ev_to e \<noteq> s \<and> log_links (ev_to e) es t)"

lemma log_links_append: "log_links s (xs @ ys) t \<longleftrightarrow> (\<exists>r. log_links s xs r \<and> log_links r ys t)"
  by (induction xs arbitrary: s) auto

lemma change_simps [simp]:
  "rm_state (change s a r m) = s" "rm_degraded (change s a r m) = rm_degraded m" "rm_recovery (change s a r m) = rm_recovery m" "rm_probes (change s a r m) = rm_probes m"
  "rm_changed (change s a r m) = a" "rm_events (change s a r m) = rm_events m @ [\<lparr>ev_from = rm_state m, ev_to = s, ev_at = a, ev_reason = r\<rparr>]"
  by (simp_all add: change_def)

lemma explains_managed: "explains A P us (managed A P us)"
proof (induction us)
  case Nil
  show ?case by (simp add: explains_def new_manager_def)
next
  case (Cons u us)
  let ?m = "managed A P us"
  have one: "\<exists>recent rest. u # us = recent @ rest \<and> recent \<noteq> [] \<and> (\<forall>v \<in> set recent. Q v) \<and> ms_now u = ms_now (last recent) \<and> 1 = int (length recent)" if "Q u" for Q
    by (rule exI [of _ "[u]"]) (use that in simp)
  have longer: "\<exists>recent' rest. u # us = recent' @ rest \<and> recent' \<noteq> [] \<and> (\<forall>v \<in> set recent'. Q v) \<and> last recent' = last recent \<and> length recent' = Suc (length recent)"
    if "us = recent @ rest" "recent \<noteq> []" "\<forall>v \<in> set recent. Q v" "Q u" for Q recent rest
    by (rule exI [of _ "u # recent"]) (use that in simp)
  show ?case
  proof (cases "rm_state ?m")
    case DIRECT
    then show ?thesis using one [of "bad_at A P"] by (auto simp: explains_def update_def Let_def bad_at_def)
  next
    case DEGRADED
    then obtain recent rest where r: "us = recent @ rest" "recent \<noteq> []" "\<forall>v \<in> set recent. bad_at A P v" "rm_degraded ?m = Some (ms_now (last recent))"
      using Cons.IH by (auto simp: explains_def)
    show ?thesis
    proof (cases "bad_at A P u")
      case True
      obtain recent' rest' where n: "u # us = recent' @ rest'" "recent' \<noteq> []" "\<forall>v \<in> set recent'. bad_at A P v" "last recent' = last recent"
        using longer [OF r(1-3) True] by blast
      have "rm_degraded (managed A P (u # us)) = Some (ms_now (last recent'))" "rm_state (managed A P (u # us)) \<in> {DEGRADED, PEER_TRANSIT}"
        using True DEGRADED r(4) n(4) by (auto simp: update_def bad_at_def)
      then show ?thesis unfolding explains_def using n(1-3) by (elim insertE) auto
    next
      case False
      then show ?thesis using DEGRADED by (simp add: explains_def update_def bad_at_def)
    qed
  next
    case PEER_TRANSIT
    then show ?thesis using one [of "\<lambda>v. \<not> bad_at A P v"] by (auto simp: explains_def update_def Let_def bad_at_def)
  next
    case RECOVERING
    then obtain recent rest where r: "us = recent @ rest" "recent \<noteq> []" "\<forall>v \<in> set recent. \<not> bad_at A P v" "rm_recovery ?m = Some (ms_now (last recent))"
        "rm_probes ?m = int (length recent)"
      using Cons.IH by (auto simp: explains_def)
    show ?thesis
    proof (cases "bad_at A P u")
      case True
      then show ?thesis using RECOVERING by (simp add: explains_def update_def bad_at_def)
    next
      case False
      obtain recent' rest' where n: "u # us = recent' @ rest'" "recent' \<noteq> []" "\<forall>v \<in> set recent'. \<not> bad_at A P v" "last recent' = last recent"
          "length recent' = Suc (length recent)"
        using longer [where Q = "\<lambda>v. \<not> bad_at A P v", OF r(1-3) False] by blast
      have "rm_state (managed A P (u # us)) = DIRECT \<or> rm_state (managed A P (u # us)) = RECOVERING
          \<and> rm_recovery (managed A P (u # us)) = Some (ms_now (last recent')) \<and> rm_probes (managed A P (u # us)) = int (length recent')"
        using False RECOVERING r(4,5) n(4,5) by (auto simp: update_def bad_at_def Let_def)
      then show ?thesis unfolding explains_def using n(1-3) by (elim disjE) auto
    qed
  qed
qed

lemma log_links_managed: "log_links DIRECT (rm_events (managed A P us)) (rm_state (managed A P us))"
proof (induction us)
  case (Cons u us)
  then show ?case by (cases "rm_state (managed A P us)") (auto simp: update_def Let_def log_links_append)
qed (simp add: new_manager_def)

text \<open>C17: The path leaves the direct one only when it is bad and a peer is better, after enough failures or after it was bad at every measurement for the whole
  hold time; and returns to it only after enough good measurements in a row, over the whole recovery time. The log of changes always leads, link by link,
  from the direct state to the present one.\<close>

theorem route_hysteresis:
  "(path_mode (managed A P us) = ''direct'' \<and> path_mode (managed A P (u # us)) = ''peer_transit'' \<longrightarrow>
      degraded A P (ms_direct u) \<and> transit_better A P (ms_direct u) (ms_transit u) \<and> (rt_hard_failures P \<le> pm_failures (ms_direct u)
        \<or> (\<exists>recent rest. us = recent @ rest \<and> recent \<noteq> [] \<and> (\<forall>v \<in> set recent. degraded A P (ms_direct v))
             \<and> fl_leq A (rt_degraded_hold P) (fl_sub A (ms_now u) (ms_now (last recent))))))
    \<and> (path_mode (managed A P us) = ''peer_transit'' \<and> path_mode (managed A P (u # us)) = ''direct'' \<longrightarrow>
      (\<exists>recent rest. us = recent @ rest \<and> recent \<noteq> [] \<and> (\<forall>v \<in> set (u # recent). \<not> degraded A P (ms_direct v)) \<and> rt_recovery_probes P \<le> int (length (u # recent))
         \<and> fl_leq A (rt_recovery_hold P) (fl_sub A (ms_now u) (ms_now (last recent)))))
    \<and> log_links DIRECT (rm_events (managed A P us)) (rm_state (managed A P us))"
proof (intro conjI impI)
  let ?m = "managed A P us"
  note ex = explains_managed [of A P us]
  {
    assume a: "path_mode ?m = ''direct'' \<and> path_mode (managed A P (u # us)) = ''peer_transit''"
    show "degraded A P (ms_direct u)" "transit_better A P (ms_direct u) (ms_transit u)"
      using a by (cases "rm_state ?m"; auto simp: path_mode_def update_def Let_def split: if_splits)+
    show "rt_hard_failures P \<le> pm_failures (ms_direct u) \<or> (\<exists>recent rest. us = recent @ rest \<and> recent \<noteq> [] \<and> (\<forall>v \<in> set recent. degraded A P (ms_direct v))
        \<and> fl_leq A (rt_degraded_hold P) (fl_sub A (ms_now u) (ms_now (last recent))))"
    proof (cases "rm_state ?m")
      case DEGRADED
      then obtain recent rest where r: "us = recent @ rest" "recent \<noteq> []" "\<forall>v \<in> set recent. bad_at A P v" "rm_degraded ?m = Some (ms_now (last recent))"
        using ex by (auto simp: explains_def)
      then have "rt_hard_failures P \<le> pm_failures (ms_direct u) \<or> fl_leq A (rt_degraded_hold P) (fl_sub A (ms_now u) (ms_now (last recent)))"
        using a DEGRADED by (auto simp: path_mode_def update_def held_def Let_def split: if_splits)
      then show ?thesis using r(1-3) unfolding bad_at_def by blast
    qed (use a in \<open>auto simp: path_mode_def update_def Let_def split: if_splits\<close>)
  next
    assume a: "path_mode ?m = ''peer_transit'' \<and> path_mode (managed A P (u # us)) = ''direct''"
    then have s: "rm_state ?m = RECOVERING" by (cases "rm_state ?m") (auto simp: path_mode_def update_def split: if_splits)
    then obtain recent rest where r: "us = recent @ rest" "recent \<noteq> []" "\<forall>v \<in> set recent. \<not> bad_at A P v" "rm_recovery ?m = Some (ms_now (last recent))"
        "rm_probes ?m = int (length recent)"
      using ex by (auto simp: explains_def)
    have "\<not> degraded A P (ms_direct u)" "rt_recovery_probes P \<le> int (length (u # recent))" "fl_leq A (rt_recovery_hold P) (fl_sub A (ms_now u) (ms_now (last recent)))"
      using a s r(4,5) by (auto simp: path_mode_def update_def held_def Let_def split: if_splits)
    then show "\<exists>recent rest. us = recent @ rest \<and> recent \<noteq> [] \<and> (\<forall>v \<in> set (u # recent). \<not> degraded A P (ms_direct v)) \<and> rt_recovery_probes P \<le> int (length (u # recent))
         \<and> fl_leq A (rt_recovery_hold P) (fl_sub A (ms_now u) (ms_now (last recent)))"
      using r(1-3) unfolding bad_at_def by (intro exI [of _ recent] exI [of _ rest]) simp
  }
  show "log_links DIRECT (rm_events ?m) (rm_state ?m)" by (rule log_links_managed)
qed

subsection \<open>A run\<close>

definition int_floats :: "int floats" where
  "int_floats = \<lparr>fl_less = (<), fl_leq = (\<le>), fl_add = (+), fl_sub = (-), fl_mul = (*), fl_of = id, fl_inf = 1000000\<rparr>"

definition some_policy :: "int route_policy" where
  "some_policy = \<lparr>rt_hard_failures = 3, rt_loss = 8, rt_latency = 250, rt_improvement = 0, rt_degraded_hold = 30, rt_transit_hold = 60, rt_recovery_hold = 120,
     rt_recovery_probes = 5\<rparr>"

definition measured :: "int \<times> int \<Rightarrow> int measurement" where
  "measured x = \<lparr>ms_direct = \<lparr>pm_reachable = True, pm_rtt = fst x, pm_loss = 0, pm_failures = 0\<rparr>,
     ms_transit = Some \<lparr>pm_reachable = True, pm_rtt = 100, pm_loss = 0, pm_failures = 0\<rparr>, ms_now = snd x\<rparr>"

definition outage :: "int measurement list" where
  "outage = map measured [(300, 0)]"

definition repair :: "int measurement list" where
  "repair = map measured [(50, 180), (50, 150), (50, 120), (50, 90), (300, 30), (300, 0)]"

lemma run_states: "path_mode (managed int_floats some_policy outage) = ''direct'' \<and> path_mode (managed int_floats some_policy (measured (300, 30) # outage)) = ''peer_transit''"
  "path_mode (managed int_floats some_policy repair) = ''peer_transit'' \<and> path_mode (managed int_floats some_policy (measured (50, 210) # repair)) = ''direct''"
  by code_simp+

theorem route_hysteresis_witness:
  "path_mode (managed int_floats some_policy repair) = ''peer_transit'' \<and> path_mode (managed int_floats some_policy (measured (50, 210) # repair)) = ''direct''
   \<and> degraded int_floats some_policy (ms_direct (measured (300, 30)))
   \<and> (\<exists>recent rest. repair = recent @ rest \<and> 5 \<le> int (length (measured (50, 210) # recent)) \<and> ms_now (last recent) \<le> 90)"
proof -
  have "degraded int_floats some_policy (ms_direct (measured (300, 30)))"
    using route_hysteresis [of int_floats some_policy outage "measured (300, 30)"] run_states(1) by blast
  moreover obtain recent rest where r: "repair = recent @ rest" "rt_recovery_probes some_policy \<le> int (length (measured (50, 210) # recent))"
    "fl_leq int_floats (rt_recovery_hold some_policy) (fl_sub int_floats (ms_now (measured (50, 210))) (ms_now (last recent)))"
    using route_hysteresis [of int_floats some_policy repair "measured (50, 210)"] run_states(2) by blast
  moreover have "5 \<le> int (length (measured (50, 210) # recent))" using r(2) by (simp add: some_policy_def)
  moreover have "ms_now (last recent) \<le> 90" using r(3) by (simp add: some_policy_def int_floats_def measured_def)
  ultimately show ?thesis using run_states(2) by blast
qed

end
