(* ===== verification/Spec2Isabelle.thy ===== *)
theory Spec2Isabelle
  imports Exchange_Guarantees Approval_Guarantees Task_Guarantees Stream_Guarantees Spool_Delivery Sync_Guarantees Shared_Wire Grants Transit_Guarantees Routes
begin

text \<open>
  Rynmesh is a peer-to-peer mesh in Python: nodes buy and sell work for credits in a small network with its own approval log, run language-model
  tasks for each other over end-to-end encrypted envelopes and streams, forward encrypted frames for each other, leave mail at a registry while a peer is offline, and
  keep lists and records in step between friends and between the devices of one owner. This library models the part of
  \<open>src/rynmesh\<close> that decides: what is accepted, what changes, and what is refused. Python functions are HOL functions over records that
  have the fields of the source's dicts and objects; an exception is a value of \<open>py_error\<close>. The definitions are executable,
  apart from the predicates that only state invariants.

  \<^bold>\<open>How the parts interact.\<close> Everything on the wire is a JSON value in canonical form, signed (\<open>Crypto\<close>) or sealed for a key (\<open>Task_Envelopes\<close>).
  An exchange network is a state that \<open>apply\<close> moves (\<open>Exchange_Apply\<close>); its validators agree on the order of commands with votes and
  certificates and keep the blocks in a ledger (\<open>Approval_Log\<close>), which calls the rules as \<open>rules_apply\<close>: those of version 2 or the frozen ones of
  version 1. Tasks, streams, mail and shared lists use the same envelopes; a transit session is opened by a signed one. Each stateful component is a record and a step function.

  \<^bold>\<open>What models what.\<close>
  \<^item> Shared: \<open>Prelude\<close> (exceptions, dicts, the locale \<open>guarded_machine\<close>), \<open>Effects\<close> (methods that change their object before they raise, the locale
    \<open>effectful\<close>), \<open>Timestamps\<close> (ISO times and the proleptic calendar), \<open>Json\<close> and \<open>Json_Read\<close> (encoder, scanner and base64 of the standard library).
  \<^item> \<open>crypto.py\<close>: \<open>Json\<close>, \<open>Crypto\<close>.
  \<^item> \<open>exchange/protocol.py\<close>: \<open>Exchange_Rules\<close> (readers, manifest, accounts, commitments), \<open>Exchange_Apply\<close> (one definition per action of \<open>apply\<close>);
    its invariant in \<open>Exchange_Money\<close> and \<open>Exchange_Invariant\<close>, the machine in \<open>Exchange_Safety\<close>, deadlines in \<open>Exchange_Liveness\<close>,
    a run from genesis to an open order in \<open>Exchange_Opening\<close>, the properties in \<open>Exchange_Guarantees\<close>. \<open>exchange/legacy_v1.py\<close>: \<open>Exchange_Legacy\<close>, \<open>Exchange_Legacy_Money\<close>.
  \<^item> \<open>exchange/ledger.py\<close>: \<open>Approval_Log\<close> (the tables as a record, one definition per method), \<open>Approval_Safety\<close> (chain, votes, quorums),
    \<open>Approval_Catchup\<close> (replay and catching up), \<open>Approval_Guarantees\<close>.
  \<^item> \<open>llm_package/task_protocol.py\<close>: \<open>Task_Orders\<close> (the order store), \<open>Task_Envelopes\<close> (envelopes, with \<open>services/peer_box.py\<close>),
    \<open>Task_Safety\<close>, \<open>Task_Guarantees\<close>. \<open>llm_package/stream_protocol.py\<close>: \<open>Stream\<close>, \<open>Stream_Safety\<close>, \<open>Stream_Guarantees\<close>.
  \<^item> \<open>mailbox.py\<close>: \<open>Mailbox\<close>, \<open>Mailbox_Guarantees\<close>. \<open>mailbox_store.py\<close>: \<open>Mailbox_Spool\<close>, \<open>Spool_Safety\<close>, \<open>Spool_Guarantees\<close>, \<open>Spool_Delivery\<close>.
  \<^item> \<open>ask_ryn/store.py\<close> (\<open>clean_conversation\<close>): \<open>Conversations\<close>. \<open>device_sync/records.py\<close>: \<open>Sync_Records\<close>, the algebra of merging in \<open>Sync_Convergence\<close>
    and \<open>Sync_Replicas\<close>. \<open>device_sync/store.py\<close>: \<open>Sync_Store\<close>, \<open>Sync_Safety\<close>, \<open>Sync_Guarantees\<close>.
  \<^item> \<open>shared_reading/service.py\<close> and \<open>store.py\<close>: \<open>Shared_Reading\<close> (every method), \<open>Shared_Safety\<close> (what one operation does),
    \<open>Shared_Machine\<close> (owner, member and network as one machine), \<open>Shared_Guarantees\<close>, \<open>Shared_Wire\<close> (the sealed request composed with its answer, the limits on
    the way, and a turn of the worker over it; \<open>wire_to_owner\<close> takes the length of a response body as a parameter).
  \<^item> \<open>ai_access/store.py\<close>: \<open>Grants\<close>. \<open>peer_transit.py\<close>: \<open>Transit\<close> (sessions, frames, streams, the peer between), \<open>Transit_Safety\<close> (layout and one frame),
    \<open>Transit_Links\<close> (streams over hops that repeat frames), \<open>Transit_Guarantees\<close>; \<open>Routes\<close> (\<open>RouteManager\<close>).
  \<^item> \<open>Exchange_Demo\<close>, \<open>Sync_Demo\<close> and \<open>Shared_Demo\<close> hold instances on which the witnesses of the properties run.
\<close>

text \<open>
  \<^bold>\<open>What the lemmas show.\<close>
  \<^item> Exchange: balances, held amounts and the supply add up in every state reached from genesis; an open order keeps the operations and the
    reserves to end, and ends by timeout; accepted commands are not accepted again; orders follow their life cycle; closing moves exactly the paid amount.
  \<^item> Approval log: two certificates of a height agree unless more than a third of the validators misuse keys; votes are locked; the blocks are a
    chain; reopening and catching up rebuild the same state.
  \<^item> Tasks and streams: life cycle of records, what expiry keeps, round trip and authenticity of envelopes, ordered and bounded streams, exact delivery,
    catching up after a reconnect.
  \<^item> Mail: round trip, what a verified envelope is, the caps and rates of the spool, order of delivery, and protection from replay as long as the nonce cache (4096) and
    the tombstones of a directory (2048) do not overflow; beyond that the source evicts entries that are still needed.
  \<^item> Device sync: merging is the join of a semilattice, so replicas converge and removed values stay removed; the store stays readable
    and a row leaves the queue of a device only when that device acknowledged it.
  \<^item> Shared lists: over any interleaving, loss and repetition of messages the owner applies a prefix of the member's edits, each once; items never vanish
    and removals win; between active friends and within the limits of the wire and of the member's file, the owner's answers pass the member's
    checks, so a turn of the worker confirms; an add that is refused for good blocks its queue.
  \<^item> Grants: a revoked permission never lets an old request in again, and a grant admits only the peer it was first given to.
  \<^item> Transit: request and answer cross a peer exactly; a complete stream is what the source sent, whatever the peer drops, repeats, reorders or reflects; the route leaves and
    returns to the direct path only after the measurements that the policy asks for.

  \<^bold>\<open>Interfaces.\<close> \<open>guarded_machine\<close> (an invariant kept by every accepted step; a rejected one changes nothing) is interpreted on the exchange, both rule
  versions, the ledger, the stream verifier, the replica store, the shared lists and the grants. \<open>effectful\<close> (an invariant kept whether a method returns or raises) is
  interpreted on the task store, the broker and the spool, and every guarded machine is one. \<open>quorum_system\<close> (two quorums share an honest member) is
  interpreted on the validators of a configuration, \<open>mergeable\<close> (a merge that is a join on what its arguments mean) on the registers, \<open>sealed_channel\<close> (what is
  sealed opens for the other key) on the peer box.

  \<^bold>\<open>Parameters and what is relied on.\<close> SHA-256 and Ed25519 (record \<open>crypto\<close>), X25519, HKDF and ChaCha20-Poly1305 (record \<open>box\<close>), the interpreter's check of a
  bracketed host (record \<open>sync_lib\<close>), the same primitives on raw bytes (record \<open>transit_lib\<close>), floating-point operations of the route choice (record \<open>floats\<close>), clocks, fresh keys, nonces and ids, and whether an encrypted file fits its limit are arguments. The properties name
  what they rely on: \<open>signing_law\<close> (an honest signature verifies), \<open>box_law\<close> and \<open>transit_law\<close> (both sides derive one secret; sealed text opens, and what opens was sealed), \<open>unforged\<close> (a body that opens with a header was sealed with it), \<open>hash_law\<close> and \<open>hex_law\<close>
  (digests are hex digits of their length, and the keys in use do not collide), injectivity of SHA-256 for the chain of blocks, where
  a collision would break the program as well. The witnesses instantiate them with concrete functions.

  \<^bold>\<open>Bounds and fuel.\<close> The limits of the source are the constants of the model, with their names. The only fuel is that of the JSON scanner, \<open>2 * length + 2\<close> steps, which
  \<open>json_loads_enc\<close> shows to be enough for what the encoder writes. The other loops are structural recursions or have a termination proof; integers are
  Python's, so nothing wraps around.

  \<^bold>\<open>Not modelled.\<close> Code points from 256 on, floating-point numbers (but as a parameter of the route choice), and the interpreter's limits on digits and recursion; damaged files and operating-system errors; locks and
  caches (methods are atomic); the encryption of files at rest. The components that are not modelled, with the reason, are those
  around the rules above: HTTP routes, transports and their timers (\<open>peer_http.py\<close>, \<open>peer_transit_service.py\<close>, \<open>relay.py\<close>, \<open>llm_package/p2p.py\<close>), processes, runtimes and
  downloads, stores whose content is data of the user interface (digests, recommendations, search), scores and prices in floating point (\<open>credits.py\<close>, \<open>eigentrust.py\<close>,
  \<open>jobs.py\<close>, \<open>llm_package/task_balance.py\<close>), the friendship and pairing dialogues, the web application, simulations and scripts.
\<close>

end
